(* ===== verification/Prelude.thy ===== *)
theory Prelude
  imports Complex_Main "HOL-Library.AList"
begin

text \<open>
  Shared ground of the development: the Python values, exceptions and string
  operations that the modules under src/py-utils/src/utils use.

  A Python object of the configuration data is a \<open>pyval\<close>. A dict is an
  association list in insertion order, with pairwise distinct string keys (an
  invariant, \<open>wf_dict\<close> of the theory KvPayload); a list is a list; bool is kept
  apart from int although \<open>isinstance(True, int)\<close> holds, which \<open>is_str_int\<close> says.
  Strings are lists of characters, the code points below 256.
  A raised exception is an \<open>Inl\<close> value; the text of its message is not kept, its
  error number is.
\<close>

section \<open>Named theorem collections\<close>

named_theorems key_simps \<open>splitting and joining of hierarchical keys\<close>
named_theorems dict_simps \<open>lookup after an update of an insertion-ordered dict\<close>

section \<open>Values and exceptions\<close>

datatype pyval =
    PNone
  | PBool bool
  | PInt int
  | PFloat rat
  | PStr string
  | PList "pyval list"
  | PDict "(string \<times> pyval) list"

type_synonym pydict = "(string \<times> pyval) list"

datatype pyexc =
    KvError int
  | ConfError int
  | ActivityError int
  | MessageBusError int
  | EventMessageError int
  | SetupError int
  | BundleError int
  | DataAccessError
  | DataAccessInternalError
  | DataAccessExternalError
  | MalformedQueryError
  | KeyError
  | IndexError
  | TypeError
  | ValueError
  | AttributeError
  | NameError
  | UnboundLocalError
  | NotImplementedError
  | OSError int
  | PyException string

abbreviation ENOENT :: int where "ENOENT \<equiv> 2"
abbreviation EACCES :: int where "EACCES \<equiv> 13"
abbreviation EINVAL :: int where "EINVAL \<equiv> 22"
abbreviation ENOSYS :: int where "ENOSYS \<equiv> 38"

text \<open>\<open>isinstance(v, (str, int))\<close>, \<open>isinstance(v, (list, dict))\<close>,
  \<open>isinstance(v, (str, list))\<close> and the others the code asks.\<close>

fun is_str_int :: "pyval \<Rightarrow> bool" where
  "is_str_int (PStr _) = True"
| "is_str_int (PInt _) = True"
| "is_str_int (PBool _) = True"
| "is_str_int _ = False"

fun is_list_dict :: "pyval \<Rightarrow> bool" where
  "is_list_dict (PList _) = True"
| "is_list_dict (PDict _) = True"
| "is_list_dict _ = False"

fun is_str_list :: "pyval \<Rightarrow> bool" where
  "is_str_list (PStr _) = True"
| "is_str_list (PList _) = True"
| "is_str_list _ = False"

fun is_pylist :: "pyval \<Rightarrow> bool" where
  "is_pylist (PList _) = True"
| "is_pylist _ = False"

text \<open>\<open>len(v)\<close>: a TypeError on the values that have no length.\<close>

fun py_len :: "pyval \<Rightarrow> pyexc + nat" where
  "py_len (PStr s) = Inr (length s)"
| "py_len (PList xs) = Inr (length xs)"
| "py_len (PDict d) = Inr (length d)"
| "py_len _ = Inl TypeError"

text \<open>\<open>bool(v)\<close>, the truth value of an object in a condition.\<close>

fun py_truth :: "pyval \<Rightarrow> bool" where
  "py_truth PNone = False"
| "py_truth (PBool b) = b"
| "py_truth (PInt i) = (i \<noteq> 0)"
| "py_truth (PFloat r) = (r \<noteq> 0)"
| "py_truth (PStr s) = (s \<noteq> [])"
| "py_truth (PList xs) = (xs \<noteq> [])"
| "py_truth (PDict d) = (d \<noteq> [])"

text \<open>\<open>a == b\<close>: numbers compare by value across bool, int and float; dicts
  compare without regard to the order of their keys.\<close>

fun py_num :: "pyval \<Rightarrow> rat option" where
  "py_num (PBool b) = Some (if b then 1 else 0)"
| "py_num (PInt i) = Some (rat_of_int i)"
| "py_num (PFloat r) = Some r"
| "py_num _ = None"

fun py_eq :: "pyval \<Rightarrow> pyval \<Rightarrow> bool"
  and py_eq_list :: "pyval list \<Rightarrow> pyval list \<Rightarrow> bool"
  and py_sub_dict :: "pydict \<Rightarrow> pydict \<Rightarrow> bool" where
  "py_eq PNone b = (b = PNone)"
| "py_eq (PStr s) b = (b = PStr s)"
| "py_eq (PList xs) b = (case b of PList ys \<Rightarrow> py_eq_list xs ys | _ \<Rightarrow> False)"
| "py_eq (PDict d) b = (case b of PDict e \<Rightarrow> length d = length e \<and> py_sub_dict d e | _ \<Rightarrow> False)"
| "py_eq (PBool x) b = (py_num b = Some (if x then 1 else 0))"
| "py_eq (PInt i) b = (py_num b = Some (rat_of_int i))"
| "py_eq (PFloat r) b = (py_num b = Some r)"
| "py_eq_list [] ys = (ys = [])"
| "py_eq_list (x # xs) ys = (case ys of [] \<Rightarrow> False | y # zs \<Rightarrow> py_eq x y \<and> py_eq_list xs zs)"
| "py_sub_dict [] e = True"
| "py_sub_dict ((k, v) # d) e =
     ((case map_of e k of None \<Rightarrow> False | Some w \<Rightarrow> py_eq v w) \<and> py_sub_dict d e)"

end
