(* ===== verification/PyString.thy ===== *)
theory PyString
  imports Prelude
begin

text \<open>
  The string operations of Python's standard library that the modules use:
  \<open>str.split\<close> with one separator character, \<open>str.join\<close>, \<open>str.strip\<close>,
  \<open>str.startswith\<close>, decimal rendering and reading of numbers, and
  \<open>re.split(r'\\[([0-9]+)\\]', s)\<close>, which KvPayload uses to take an index off
  a key.
\<close>

section \<open>Decimal numbers\<close>

definition digit_char :: "nat \<Rightarrow> char" where
  "digit_char d = char_of (48 + d)"

definition digit_val :: "char \<Rightarrow> nat" where
  "digit_val c = of_char c - 48"

definition is_digit :: "char \<Rightarrow> bool" where
  "is_digit c \<longleftrightarrow> (48::nat) \<le> of_char c \<and> (of_char c :: nat) \<le> 57"

text \<open>\<open>"%d" % n\<close> for a natural number and \<open>int(s)\<close> for a string of digits.\<close>

fun show_nat :: "nat \<Rightarrow> string" where
  "show_nat n = (if n < 10 then [digit_char n] else show_nat (n div 10) @ [digit_char (n mod 10)])"

declare show_nat.simps [simp del]

definition read_nat :: "string \<Rightarrow> nat" where
  "read_nat s = foldl (\<lambda>a c. 10 * a + digit_val c) 0 s"

definition show_int :: "int \<Rightarrow> string" where
  "show_int i = (if i < 0 then CHR ''-'' # show_nat (nat (- i)) else show_nat (nat i))"

lemma read_nat_Cons: "read_nat (c # s) = digit_val c * 10 ^ length s + read_nat s"
proof -
  have "foldl (\<lambda>a c. 10 * a + digit_val c) n s = n * 10 ^ length s + foldl (\<lambda>a c. 10 * a + digit_val c) 0 s" for n
  proof (induction s arbitrary: n)
    case (Cons x s)
    show ?case using Cons.IH [of "10 * n + digit_val x"] Cons.IH [of "digit_val x"] by (simp add: algebra_simps)
  qed simp
  from this [of "digit_val c"] show ?thesis by (simp add: read_nat_def)
qed

lemma of_char_digit: "d < 10 \<Longrightarrow> (of_char (digit_char d) :: nat) = 48 + d"
  by (simp add: digit_char_def)

lemma digit_val_char [simp]: "d < 10 \<Longrightarrow> digit_val (digit_char d) = d"
  by (simp add: digit_val_def of_char_digit)

lemma is_digit_char [simp]: "d < 10 \<Longrightarrow> is_digit (digit_char d)"
  by (simp add: is_digit_def of_char_digit)

lemma digit_char_neq: "d < 10 \<Longrightarrow> \<not> is_digit c \<Longrightarrow> digit_char d \<noteq> c"
  by (metis is_digit_char)

lemma not_digit_brackets [simp]:
  "\<not> is_digit (CHR ''['')" "\<not> is_digit (CHR '']'')" "\<not> is_digit (CHR ''-'')"
  by (simp_all add: is_digit_def)

lemma show_nat_nonempty [simp]: "show_nat n \<noteq> []"
  by (subst show_nat.simps) simp

lemma show_nat_digits: "\<forall>c \<in> set (show_nat n). is_digit c"
proof (induction n rule: show_nat.induct)
  case (1 n)
  show ?case
  proof (cases "n < 10")
    case True
    then show ?thesis by (subst show_nat.simps) simp
  next
    case False
    with 1 show ?thesis by (subst show_nat.simps) auto
  qed
qed

lemma read_show_nat [simp]: "read_nat (show_nat n) = n"
proof (induction n rule: show_nat.induct)
  case (1 n)
  show ?case
  proof (cases "n < 10")
    case True
    then show ?thesis by (subst show_nat.simps) (simp add: read_nat_def)
  next
    case False
    with 1 have "read_nat (show_nat (n div 10)) = n div 10" by simp
    with False show ?thesis by (subst show_nat.simps) (simp add: read_nat_def)
  qed
qed

lemma show_nat_inject [simp]: "show_nat m = show_nat n \<longleftrightarrow> m = n"
  by (metis read_show_nat)

section \<open>Prefixes, stripping, joining\<close>

definition starts_with :: "string \<Rightarrow> string \<Rightarrow> bool" where
  "starts_with s p \<longleftrightarrow> take (length p) s = p"

lemma starts_with_append [simp]: "starts_with (p @ s) p"
  by (simp add: starts_with_def)

definition is_space :: "char \<Rightarrow> bool" where
  "is_space c \<longleftrightarrow> (of_char c :: nat) \<in> {9, 10, 11, 12, 13, 28, 29, 30, 31, 32, 133, 160}"

definition py_strip :: "string \<Rightarrow> string" where
  "py_strip s = rev (dropWhile is_space (rev (dropWhile is_space s)))"

lemma py_strip_empty_iff: "py_strip s = [] \<longleftrightarrow> (\<forall>c \<in> set s. is_space c)"
proof -
  have "py_strip s = [] \<longleftrightarrow> (\<forall>c \<in> set (dropWhile is_space s). is_space c)"
    by (simp add: py_strip_def)
  also have "\<dots> \<longleftrightarrow> (\<forall>c \<in> set s. is_space c)"
    by (induction s) auto
  finally show ?thesis .
qed

fun py_join :: "string \<Rightarrow> string list \<Rightarrow> string" where
  "py_join sep [] = []"
| "py_join sep [x] = x"
| "py_join sep (x # y # ys) = x @ sep @ py_join sep (y # ys)"

section \<open>Splitting on one character\<close>

text \<open>\<open>s.split(c, 1)\<close>: the part before the first separator and, if there is one,
  the part behind it.\<close>

definition split1 :: "char \<Rightarrow> string \<Rightarrow> string \<times> string option" where
  "split1 c s = (takeWhile (\<lambda>x. x \<noteq> c) s,
     (case dropWhile (\<lambda>x. x \<noteq> c) s of [] \<Rightarrow> None | _ # r \<Rightarrow> Some r))"

text \<open>\<open>s.split(c)\<close>.\<close>

fun py_split :: "char \<Rightarrow> string \<Rightarrow> string list" where
  "py_split c [] = [[]]"
| "py_split c (x # xs) =
     (if x = c then [] # py_split c xs
      else (case py_split c xs of [] \<Rightarrow> [[x]] | s # ss \<Rightarrow> (x # s) # ss))"

lemma split1_rest_shorter: "split1 c s = (a, Some r) \<Longrightarrow> length r < length s"
proof -
  assume "split1 c s = (a, Some r)"
  then obtain x where "dropWhile (\<lambda>x. x \<noteq> c) s = x # r"
    by (auto simp: split1_def split: list.splits)
  then have "length (x # r) \<le> length s"
    by (metis length_dropWhile_le)
  then show ?thesis by simp
qed

lemma split1_Nil [simp]: "split1 c [] = ([], None)"
  by (simp add: split1_def)

lemma split1_Cons: "split1 c (x # xs) =
   (if x = c then ([], Some xs) else (x # fst (split1 c xs), snd (split1 c xs)))"
  by (simp add: split1_def)

lemma py_split_nonempty [simp]: "py_split c s \<noteq> []"
  by (induction s) (auto split: list.splits)

lemma py_split_split1: "py_split c s =
   fst (split1 c s) # (case snd (split1 c s) of None \<Rightarrow> [] | Some r \<Rightarrow> py_split c r)"
  by (induction s) (auto simp: split1_Cons)

lemma py_split_None [key_simps]: "split1 c s = (a, None) \<Longrightarrow> py_split c s = [a]"
  by (subst py_split_split1) simp

lemma py_split_Some [key_simps]: "split1 c s = (a, Some r) \<Longrightarrow> py_split c s = a # py_split c r"
  by (subst py_split_split1) simp

lemma split1_no_sep: "c \<notin> set s \<Longrightarrow> split1 c s = (s, None)"
  by (induction s) (auto simp: split1_Cons)

lemma split1_sep: "c \<notin> set a \<Longrightarrow> split1 c (a @ c # r) = (a, Some r)"
  by (induction a) (auto simp: split1_Cons)

lemma py_split_no_sep [key_simps]: "c \<notin> set s \<Longrightarrow> py_split c s = [s]"
  by (simp add: py_split_None split1_no_sep)

lemma py_split_append_sep [key_simps]: "py_split c (a @ c # r) = py_split c a @ py_split c r"
  by (induction a) (auto split: list.splits)

lemma py_split_join: "\<forall>s \<in> set ss. c \<notin> set s \<Longrightarrow> ss \<noteq> [] \<Longrightarrow> py_split c (py_join [c] ss) = ss"
  by (induction ss rule: induct_list012) (auto simp: py_split_no_sep py_split_append_sep)

lemma py_join_split: "py_join [c] (py_split c s) = s"
proof (induction s)
  case (Cons x xs)
  then show ?case
    by (cases "py_split c xs"; cases "tl (py_split c xs)") auto
qed simp

section \<open>The index of a key\<close>

text \<open>A match of \<open>\\[([0-9]+)\\]\<close> at the start of the string: the digits and the
  rest behind the closing bracket.\<close>

definition match_index :: "string \<Rightarrow> (string \<times> string) option" where
  "match_index s = (case s of [] \<Rightarrow> None
     | b # t \<Rightarrow> if b \<noteq> CHR ''['' then None
        else let ds = takeWhile is_digit t in
          if ds = [] then None
          else (case dropWhile is_digit t of [] \<Rightarrow> None
            | e # r \<Rightarrow> if e = CHR '']'' then Some (ds, r) else None))"

lemma match_index_shorter: "match_index s = Some (ds, r) \<Longrightarrow> length r < length s"
proof -
  assume m: "match_index s = Some (ds, r)"
  then obtain b t e where s: "s = b # t" and d: "dropWhile is_digit t = e # r"
    by (auto simp: match_index_def Let_def split: list.splits if_splits)
  have "length (e # r) \<le> length t"
    by (metis d length_dropWhile_le)
  with s show ?thesis by simp
qed

text \<open>\<open>re.split(r'\\[([0-9]+)\\]', s)\<close>: the text before the first match, the
  digits of the match, the text before the next one, and so on.\<close>

function re_split_from :: "string \<Rightarrow> string \<Rightarrow> string list" where
  "re_split_from acc s = (case s of [] \<Rightarrow> [acc]
     | c # cs \<Rightarrow> (case match_index s of
          Some (ds, r) \<Rightarrow> acc # ds # re_split_from [] r
        | None \<Rightarrow> re_split_from (acc @ [c]) cs))"
  by pat_completeness auto
termination
  by (relation "measure (\<lambda>(acc, s). length s)") (auto dest: match_index_shorter)

declare re_split_from.simps [simp del]

definition key_index_split :: "string \<Rightarrow> string list" where
  "key_index_split s = re_split_from [] s"

lemma re_split_from_nonempty [simp]: "re_split_from acc s \<noteq> []"
  by (induction acc s rule: re_split_from.induct)
    (subst re_split_from.simps, auto split: list.splits option.splits)

lemma key_index_split_nonempty [simp]: "key_index_split s \<noteq> []"
  by (simp add: key_index_split_def)

lemma re_split_from_plain: "CHR ''['' \<notin> set s \<Longrightarrow> re_split_from acc s = [acc @ s]"
proof (induction s arbitrary: acc)
  case Nil
  then show ?case by (simp add: re_split_from.simps)
next
  case (Cons c cs)
  then have "match_index (c # cs) = None" by (auto simp: match_index_def)
  with Cons show ?case by (subst re_split_from.simps) simp
qed

lemma key_index_split_plain [key_simps]: "CHR ''['' \<notin> set s \<Longrightarrow> key_index_split s = [s]"
  by (simp add: key_index_split_def re_split_from_plain)

lemma match_index_show [simp]:
  "match_index (CHR ''['' # show_nat n @ CHR '']'' # r) = Some (show_nat n, r)"
proof -
  have d: "\<forall>c \<in> set (show_nat n). is_digit c" by (rule show_nat_digits)
  then have "takeWhile is_digit (show_nat n @ CHR '']'' # r) = show_nat n"
    by (simp add: takeWhile_append2)
  moreover from d have "dropWhile is_digit (show_nat n @ CHR '']'' # r) = CHR '']'' # r"
    by (simp add: dropWhile_append2)
  ultimately show ?thesis by (simp add: match_index_def)
qed

lemma re_split_from_indexed: "CHR ''['' \<notin> set s \<Longrightarrow>
   re_split_from acc (s @ CHR ''['' # show_nat n @ [CHR '']'']) = [acc @ s, show_nat n, []]"
proof (induction s arbitrary: acc)
  case Nil
  then show ?case
    by (subst re_split_from.simps) (simp add: re_split_from.simps [of "[]" "[]"])
next
  case (Cons c cs)
  then have "match_index ((c # cs) @ CHR ''['' # show_nat n @ [CHR '']'']) = None"
    by (auto simp: match_index_def)
  with Cons show ?case by (subst re_split_from.simps) simp
qed

definition idx_suffix :: "nat \<Rightarrow> string" where
  "idx_suffix n = CHR ''['' # show_nat n @ [CHR '']'']"

lemma key_index_split_indexed [key_simps]: "CHR ''['' \<notin> set s \<Longrightarrow>
   key_index_split (s @ idx_suffix n) = [s, show_nat n, []]"
  by (simp add: key_index_split_def idx_suffix_def re_split_from_indexed)

end
