(* ===== verification/KvPayload.thy ===== *)
theory KvPayload
  imports PyString
begin

text \<open>
  KvPayload of src/py-utils/src/utils/kv_store/kv_payload.py: a nested dict
  addressed by hierarchical keys such as \<open>a>b[1]>c\<close>.

  The operations are written as the code recurses: the key is cut at its first
  delimiter, an index is taken off the first part, and the rest of the key is
  handled in the value below. \<open>set\<close> changes the dict in place and may raise half
  way, so it returns the changed data with the exception, if any; the other
  operations change nothing before they raise. A missing value is Python's None.
\<close>

section \<open>State\<close>

record kv_payload =
  kp_data :: pyval
  kp_delim :: string
  kp_keys :: "string list"

section \<open>Reading: \<open>_get\<close> and \<open>_shallow_get\<close>\<close>

text \<open>The leaf case of \<open>_get\<close>. A leaf with an index looks at \<open>len(data[key])\<close>
  before it asks whether the value is a list.\<close>

definition kv_get_leaf :: "string \<Rightarrow> pyval \<Rightarrow> pyexc + pyval" where
  "kv_get_leaf leaf data = (let ki = key_index_split leaf in
     if py_strip (ki ! 0) = [] then Inl (KvError EINVAL)
     else if length ki > 1 then
       (if ki ! 2 \<noteq> [] then Inl (KvError EINVAL)
        else let k = ki ! 0; i = read_nat (ki ! 1) in
          case data of
            PDict d \<Rightarrow> (case map_of d k of
                None \<Rightarrow> Inr PNone
              | Some w \<Rightarrow> (case py_len w of
                    Inl e \<Rightarrow> Inl e
                  | Inr n \<Rightarrow> if n \<le> i then Inr PNone
                      else (case w of PList xs \<Rightarrow> Inr (xs ! i) | _ \<Rightarrow> Inr PNone)))
          | _ \<Rightarrow> Inl AttributeError)
     else (case data of
         PDict d \<Rightarrow> (case map_of d leaf of None \<Rightarrow> Inr PNone | Some w \<Rightarrow> Inr w)
       | _ \<Rightarrow> Inl UnboundLocalError))"

function kv_get :: "char \<Rightarrow> string \<Rightarrow> pyval \<Rightarrow> pyexc + pyval" where
  "kv_get c key data = (case split1 c key of
      (leaf, None) \<Rightarrow> kv_get_leaf leaf data
    | (p_key, Some c_key) \<Rightarrow> (let ki = key_index_split p_key in
        if py_strip (ki ! 0) = [] then Inl (KvError EINVAL)
        else if length ki > 1 then
          (if ki ! 2 \<noteq> [] then Inl (KvError EINVAL)
           else let k = ki ! 0; i = read_nat (ki ! 1) in
             case data of
               PDict d \<Rightarrow> (case map_of d k of
                   None \<Rightarrow> Inl KeyError
                 | Some (PList xs) \<Rightarrow>
                     if length xs \<le> i then Inr PNone
                     else (case xs ! i of PDict e \<Rightarrow> kv_get c c_key (PDict e) | _ \<Rightarrow> Inr PNone)
                 | Some _ \<Rightarrow> Inr PNone)
             | _ \<Rightarrow> Inl TypeError)
        else (case data of
            PDict d \<Rightarrow> (case map_of d p_key of
                Some (PDict e) \<Rightarrow> kv_get c c_key (PDict e)
              | _ \<Rightarrow> Inr PNone)
          | _ \<Rightarrow> Inl AttributeError)))"
  by pat_completeness auto
termination
  by (relation "measure (\<lambda>(c, key, data). length key)") (auto dest!: split1_rest_shorter [OF sym])

declare kv_get.simps [simp del]

function kv_shallow_get :: "char \<Rightarrow> string \<Rightarrow> pyval \<Rightarrow> pyexc + pyval" where
  "kv_shallow_get c key data = (case split1 c key of (k0, rest) \<Rightarrow>
     (let ki = key_index_split k0; indexed = length ki > 1;
          k = (if indexed then ki ! 0 else k0); i = read_nat (ki ! 1) in
      if indexed \<and> py_strip (ki ! 0) = [] then Inl (KvError EINVAL)
      else case data of
        PDict d \<Rightarrow> (case map_of d k of
            None \<Rightarrow> Inr PNone
          | Some w \<Rightarrow>
              (case (if indexed
                     then (case w of PList xs \<Rightarrow> if length xs \<le> i then None else Some (xs ! i)
                                   | _ \<Rightarrow> None)
                     else Some w) of
                 None \<Rightarrow> Inr PNone
               | Some data1 \<Rightarrow> (case rest of None \<Rightarrow> Inr data1
                                  | Some r \<Rightarrow> kv_shallow_get c r data1)))
      | _ \<Rightarrow> Inl AttributeError))"
  by pat_completeness auto
termination
  by (relation "measure (\<lambda>(c, key, data). length key)") (auto dest!: split1_rest_shorter [OF sym])

declare kv_shallow_get.simps [simp del]

section \<open>Writing: \<open>_set\<close>\<close>

text \<open>\<open>for _ in range(len(l), index + 1): l.append('')\<close>.\<close>

definition extend_list :: "pyval list \<Rightarrow> nat \<Rightarrow> pyval list" where
  "extend_list xs i = xs @ replicate (Suc i - length xs) (PStr [])"

function kv_set :: "char \<Rightarrow> string \<Rightarrow> pyval \<Rightarrow> pyval \<Rightarrow> pyval \<times> pyexc option" where
  "kv_set c key v data = (case split1 c key of (k0, rest) \<Rightarrow>
     (let ki = key_index_split k0; indexed = length ki > 1 in
      if indexed \<and> py_strip (ki ! 0) = [] then (data, Some (KvError EINVAL))
      else case data of
        PDict d \<Rightarrow>
          (let k = (if indexed then ki ! 0 else k0);
               old = (case map_of d k of None \<Rightarrow> PDict [] | Some w \<Rightarrow> w) in
           if indexed then
             (let i = read_nat (ki ! 1);
                  xs = extend_list (case old of PList ys \<Rightarrow> ys | _ \<Rightarrow> []) i in
              case rest of
                None \<Rightarrow> (PDict (AList.update k (PList (xs[i := v])) d), None)
              | Some r \<Rightarrow>
                  (let sub = (if is_str_list (xs ! i) then PDict [] else xs ! i);
                       (sub', e) = kv_set c r v sub in
                   (PDict (AList.update k (PList (xs[i := sub'])) d), e)))
           else
             (case rest of
                None \<Rightarrow> (PDict (AList.update k v d), None)
              | Some r \<Rightarrow>
                  (let sub = (if is_str_list old then PDict [] else old);
                       (sub', e) = kv_set c r v sub in
                   (PDict (AList.update k sub' d), e))))
      | _ \<Rightarrow> (data, Some AttributeError)))"
  by pat_completeness auto
termination
  by (relation "measure (\<lambda>(c, key, v, data). length key)") (auto dest!: split1_rest_shorter [OF sym])

declare kv_set.simps [simp del]

section \<open>Deleting: \<open>_delete\<close>\<close>

text \<open>The result is Python's True or False with the data after the call.\<close>

function kv_delete :: "char \<Rightarrow> string \<Rightarrow> bool \<Rightarrow> pyval \<Rightarrow> pyexc + (bool \<times> pyval)" where
  "kv_delete c key force data = (case split1 c key of (k0, rest) \<Rightarrow>
     (let ki = key_index_split k0; indexed = length ki > 1;
          k = (if indexed then ki ! 0 else k0) in
      case data of
        PDict d \<Rightarrow> (case map_of d k of
            None \<Rightarrow> Inr (False, data)
          | Some w \<Rightarrow>
              if indexed then
                (let i = read_nat (ki ! 1) in
                 case w of
                   PList xs \<Rightarrow>
                     if length xs \<le> i then Inr (False, data)
                     else (case rest of
                         None \<Rightarrow> Inr (True, PDict (AList.update k (PList
                              (if i = length xs - 1 then butlast xs else xs[i := PStr []])) d))
                       | Some r \<Rightarrow> (case kv_delete c r force (xs ! i) of
                             Inl e \<Rightarrow> Inl e
                           | Inr (b, w') \<Rightarrow> Inr (b, PDict (AList.update k (PList (xs[i := w'])) d))))
                 | _ \<Rightarrow> Inl (KvError EINVAL))
              else
                (case rest of
                   None \<Rightarrow> if \<not> is_list_dict w \<or> force \<or> py_len w = Inr 0
                            then Inr (True, PDict (AList.delete k d))
                            else Inl (KvError EINVAL)
                 | Some r \<Rightarrow> (case kv_delete c r force w of
                       Inl e \<Rightarrow> Inl e
                     | Inr (b, w') \<Rightarrow> Inr (b, PDict (AList.update k w' d)))))
      | _ \<Rightarrow> Inl AttributeError))"
  by pat_completeness auto
termination
  by (relation "measure (\<lambda>(c, key, force, data). length key)") (auto dest!: split1_rest_shorter [OF sym])

declare kv_delete.simps [simp del]

section \<open>Listing keys: \<open>_get_keys\<close> and \<open>_shallow_get_keys\<close>\<close>

text \<open>\<open>keys\<close> is the list the code appends to; a key already in it is not
  appended again. \<open>"%s" % None\<close> is the string None, which the elements of a list
  at the top level get as their prefix.\<close>

definition add_key :: "string \<Rightarrow> string list \<Rightarrow> string list" where
  "add_key k keys = (if k \<in> set keys then keys else keys @ [k])"

definition pkey_str :: "string option \<Rightarrow> string" where
  "pkey_str pkey = (case pkey of None \<Rightarrow> ''None'' | Some p \<Rightarrow> p)"

definition sub_key :: "string \<Rightarrow> string option \<Rightarrow> string \<Rightarrow> string" where
  "sub_key dl pkey k = (case pkey of None \<Rightarrow> k | Some p \<Rightarrow> p @ dl @ k)"

function (sequential) kv_keys :: "string \<Rightarrow> bool \<Rightarrow> pyval \<Rightarrow> string option \<Rightarrow> string list \<Rightarrow> string list"
  and kv_keys_list :: "string \<Rightarrow> bool \<Rightarrow> pyval list \<Rightarrow> nat \<Rightarrow> string option \<Rightarrow> string list \<Rightarrow> string list"
  and kv_keys_dict :: "string \<Rightarrow> bool \<Rightarrow> pydict \<Rightarrow> string option \<Rightarrow> string list \<Rightarrow> string list" where
  "kv_keys dl ki (PList xs) pkey keys = kv_keys_list dl ki xs 0 pkey keys"
| "kv_keys dl ki (PDict d) pkey keys = kv_keys_dict dl ki d pkey keys"
| "kv_keys dl ki _ pkey keys = keys"
| "kv_keys_list dl ki [] i pkey keys = keys"
| "kv_keys_list dl ki (x # xs) i pkey keys =
     (let suf = (if ki then idx_suffix i else []);
          keys' = (case x of
              PDict d \<Rightarrow> kv_keys_dict dl ki d
                (if pkey = None \<or> pkey = Some [] then None else Some (the pkey @ suf)) keys
            | _ \<Rightarrow> if is_str_int x then add_key (pkey_str pkey @ suf) keys else keys)
      in kv_keys_list dl ki xs (Suc i) pkey keys')"
| "kv_keys_dict dl ki [] pkey keys = keys"
| "kv_keys_dict dl ki ((k, v) # d) pkey keys =
     (let nk = sub_key dl pkey k;
          keys' = (if is_list_dict v then kv_keys dl ki v (Some nk) keys
                   else if is_str_int v then add_key nk keys else keys)
      in kv_keys_dict dl ki d pkey keys')"
  by pat_completeness auto
termination
  by (relation "measure (case_sum (\<lambda>p. size (fst (snd (snd p))))
      (case_sum (\<lambda>p. size_list size (fst (snd (snd p))))
        (\<lambda>p. size_list (size_prod (\<lambda>_. 0) size) (fst (snd (snd p))))))") auto

text \<open>The shallow listing appends \<open>pkey\<close> itself for a list when indexes are not
  asked for, which is None for a list at the top level.\<close>

function (sequential) kv_shallow_keys :: "string \<Rightarrow> bool \<Rightarrow> pyval \<Rightarrow> string option \<Rightarrow> pyexc + string option list"
  and kv_shallow_keys_dict :: "string \<Rightarrow> bool \<Rightarrow> pydict \<Rightarrow> string option \<Rightarrow> pyexc + string option list" where
  "kv_shallow_keys dl ki (PList xs) pkey = Inr (if ki
     then map (\<lambda>i. Some (pkey_str pkey @ idx_suffix i)) [0..<length xs] else [pkey])"
| "kv_shallow_keys dl ki (PDict d) pkey = kv_shallow_keys_dict dl ki d pkey"
| "kv_shallow_keys dl ki _ pkey = Inl (KvError ENOSYS)"
| "kv_shallow_keys_dict dl ki [] pkey = Inr []"
| "kv_shallow_keys_dict dl ki ((k, v) # d) pkey =
     (let nk = sub_key dl pkey k in
      case (if is_list_dict v then kv_shallow_keys dl ki v (Some nk) else Inr [Some nk]) of
        Inl e \<Rightarrow> Inl e
      | Inr ks \<Rightarrow> (case kv_shallow_keys_dict dl ki d pkey of
            Inl e \<Rightarrow> Inl e | Inr ks' \<Rightarrow> Inr (ks @ ks')))"
  by pat_completeness auto
termination
  by (relation "measure (case_sum (\<lambda>p. size (fst (snd (snd p))))
      (\<lambda>p. size_list (size_prod (\<lambda>_. 0) size) (fst (snd (snd p)))))") auto

section \<open>Searching: \<open>_search\<close>\<close>

text \<open>\<open>search_val in (val, None)\<close>.\<close>

definition val_matches :: "pyval \<Rightarrow> pyval \<Rightarrow> bool" where
  "val_matches sval v \<longleftrightarrow> py_eq sval v \<or> sval = PNone"

text \<open>\<open>search_val is None and key == search_key\<close>: the search asks for every key
  below this one. Below a leaf \<open>_get_keys\<close> finds none.\<close>

definition whole_subtree :: "char \<Rightarrow> string \<Rightarrow> pyval \<Rightarrow> string \<Rightarrow> bool" where
  "whole_subtree c skey sval prefix \<longleftrightarrow> sval = PNone \<and> last (py_split c prefix) = skey"

function (sequential) kv_search :: "char \<Rightarrow> pyval \<Rightarrow> string \<Rightarrow> pyval \<Rightarrow> string \<Rightarrow> string list"
  and kv_search_list :: "char \<Rightarrow> pyval list \<Rightarrow> nat \<Rightarrow> string \<Rightarrow> pyval \<Rightarrow> string \<Rightarrow> string list"
  and kv_search_dict :: "char \<Rightarrow> pydict \<Rightarrow> string \<Rightarrow> pyval \<Rightarrow> string \<Rightarrow> string list" where
  "kv_search c (PList xs) skey sval prefix =
     (if whole_subtree c skey sval prefix then kv_keys [c] True (PList xs) (Some prefix) []
      else kv_search_list c xs 0 skey sval prefix)"
| "kv_search c (PDict d) skey sval prefix =
     (if whole_subtree c skey sval prefix then kv_keys [c] True (PDict d) (Some prefix) []
      else kv_search_dict c d skey sval prefix)"
| "kv_search c _ skey sval prefix = []"
| "kv_search_list c [] i skey sval prefix = []"
| "kv_search_list c (x # xs) i skey sval prefix =
     (let here = prefix @ idx_suffix i in
      (if is_str_int x
       then (if last (py_split c prefix) = skey \<and> val_matches sval x then [here] else [])
       else (case x of PDict d \<Rightarrow> kv_search c (PDict d) skey sval here | _ \<Rightarrow> []))
      @ kv_search_list c xs (Suc i) skey sval prefix)"
| "kv_search_dict c [] skey sval prefix = []"
| "kv_search_dict c ((k, v) # d) skey sval prefix =
     (let here = prefix @ c # k in
      (if is_str_int v then (if k = skey \<and> val_matches sval v then [here] else [])
       else if is_list_dict v then kv_search c v skey sval here else [])
      @ kv_search_dict c d skey sval prefix)"
  by pat_completeness auto
termination
  by (relation "measure (case_sum (\<lambda>p. size (fst (snd p)))
      (case_sum (\<lambda>p. size_list size (fst (snd p)))
        (\<lambda>p. size_list (size_prod (\<lambda>_. 0) size) (fst (snd p)))))") auto

section \<open>Counting list members: \<open>_add_num_keys\<close>\<close>

text \<open>\<open>num_keys\<close> of the code: one entry for every value of the dict that is a list.\<close>

definition num_key :: "string \<Rightarrow> string" where
  "num_key k = ''num_'' @ k"

fun num_entries :: "pydict \<Rightarrow> pydict" where
  "num_entries [] = []"
| "num_entries ((k, v) # d) = (case v of
      PList xs \<Rightarrow> (num_key k, PInt (int (length xs))) # num_entries d
    | _ \<Rightarrow> num_entries d)"

text \<open>\<open>data.update(other)\<close>.\<close>

definition dict_update :: "pydict \<Rightarrow> pydict \<Rightarrow> pydict" where
  "dict_update d other = foldl (\<lambda>a (k, v). AList.update k v a) d other"

fun kv_add_num_keys :: "pyval \<Rightarrow> pyval"
  and add_num_list :: "pyval list \<Rightarrow> pyval list"
  and add_num_dict :: "pydict \<Rightarrow> pydict" where
  "kv_add_num_keys (PDict d) = PDict (dict_update (add_num_dict d) (num_entries d))"
| "kv_add_num_keys (PList xs) = PList (add_num_list xs)"
| "kv_add_num_keys v = v"
| "add_num_list [] = []"
| "add_num_list (x # xs) = kv_add_num_keys x # add_num_list xs"
| "add_num_dict [] = []"
| "add_num_dict ((k, v) # d) = (k, kv_add_num_keys v) # add_num_dict d"

section \<open>The methods of the class\<close>

text \<open>\<open>KvPayload(data, delim, recurse)\<close>; \<open>None\<close> as data stands for an empty dict.\<close>

definition kp_init :: "pyval \<Rightarrow> string \<Rightarrow> bool \<Rightarrow> pyexc + kv_payload" where
  "kp_init data delim recurse =
     (let data' = (if data = PNone then PDict [] else data) in
      if length delim > 1 then Inl (KvError EINVAL)
      else if recurse
        then Inr \<lparr>kp_data = data', kp_delim = delim, kp_keys = kv_keys delim True data' None []\<rparr>
      else (case kv_shallow_keys delim True data' None of
          Inl e \<Rightarrow> Inl e
        | Inr ks \<Rightarrow> Inr \<lparr>kp_data = data', kp_delim = delim, kp_keys = map pkey_str ks\<rparr>))"

text \<open>\<open>key.split('')\<close> raises a ValueError, so every operation on an empty
  delimiter does.\<close>

definition kp_get :: "kv_payload \<Rightarrow> string \<Rightarrow> bool \<Rightarrow> pyexc + pyval" where
  "kp_get p key recurse = (case kp_delim p of [] \<Rightarrow> Inl ValueError
     | c # _ \<Rightarrow> if recurse then kv_get c key (kp_data p) else kv_shallow_get c key (kp_data p))"

definition kp_set :: "kv_payload \<Rightarrow> string \<Rightarrow> pyval \<Rightarrow> kv_payload \<times> pyexc option" where
  "kp_set p key v = (case kp_delim p of [] \<Rightarrow> (p, Some ValueError)
     | c # _ \<Rightarrow> (let (d, e) = kv_set c key v (kp_data p) in
         (p\<lparr>kp_data := d, kp_keys := (if e = None then add_key key (kp_keys p) else kp_keys p)\<rparr>, e)))"

definition kp_delete :: "kv_payload \<Rightarrow> string \<Rightarrow> bool \<Rightarrow> kv_payload \<times> (pyexc + bool)" where
  "kp_delete p key force = (case kp_delim p of [] \<Rightarrow> (p, Inl ValueError)
     | c # _ \<Rightarrow> (case kv_delete c key force (kp_data p) of
         Inl e \<Rightarrow> (p, Inl e)
       | Inr (b, d) \<Rightarrow> (p\<lparr>kp_data := d, kp_keys := (if b then remove1 key (kp_keys p) else kp_keys p)\<rparr>, Inr b)))"

definition kp_get_keys :: "kv_payload \<Rightarrow> string \<Rightarrow> bool \<Rightarrow> bool \<Rightarrow> pyexc + string option list" where
  "kp_get_keys p prefix recurse key_index =
     (case (if recurse then Inr (map Some (kv_keys (kp_delim p) key_index (kp_data p) None []))
            else kv_shallow_keys (kp_delim p) key_index (kp_data p) None) of
        Inl e \<Rightarrow> Inl e
      | Inr ks \<Rightarrow> if prefix = [] then Inr ks
          else if None \<in> set ks then Inl AttributeError
          else Inr (filter (\<lambda>k. starts_with (the k) prefix) ks))"

definition kp_search :: "kv_payload \<Rightarrow> string \<Rightarrow> string \<Rightarrow> pyval \<Rightarrow> pyexc + string list" where
  "kp_search p parent skey sval = (case kp_get p parent True of
      Inl e \<Rightarrow> Inl e
    | Inr data \<Rightarrow> (case kp_delim p of [] \<Rightarrow> Inl ValueError
        | c # _ \<Rightarrow> Inr (kv_search c data skey sval parent)))"

definition kp_add_num_keys :: "kv_payload \<Rightarrow> kv_payload" where
  "kp_add_num_keys p = p\<lparr>kp_data := kv_add_num_keys (kp_data p)\<rparr>"

end
