(* ===== verification/KvPath.thy ===== *)
theory KvPath
  imports KvPayload
begin

text \<open>
  The contract of KvPayload in terms of paths. A key denotes a path, a list of
  segments that are a name and possibly an index; \<open>lookup\<close> says which value a path
  reaches. The operations of the theory KvPayload, which cut the key step by step,
  are related to it here: what get returns, where set stores, what delete takes
  away, and what neither touches.
\<close>

section \<open>Keys as paths\<close>

type_synonym seg = "string \<times> nat option"

definition parse_seg :: "string \<Rightarrow> seg" where
  "parse_seg s = (let ki = key_index_split s in
     (ki ! 0, if length ki > 1 then Some (read_nat (ki ! 1)) else None))"

text \<open>A segment that get accepts: a name that is not blank, and nothing between
  the first index and the next.\<close>

definition seg_ok :: "string \<Rightarrow> bool" where
  "seg_ok s \<longleftrightarrow> (let ki = key_index_split s in
     py_strip (ki ! 0) \<noteq> [] \<and> (length ki > 1 \<longrightarrow> ki ! 2 = []))"

definition path_of :: "char \<Rightarrow> string \<Rightarrow> seg list" where
  "path_of c key = map parse_seg (py_split c key)"

definition key_ok :: "char \<Rightarrow> string \<Rightarrow> bool" where
  "key_ok c key \<longleftrightarrow> list_all seg_ok (py_split c key)"

definition look :: "seg \<Rightarrow> pydict \<Rightarrow> pyval option" where
  "look s d = (case snd s of
      None \<Rightarrow> map_of d (fst s)
    | Some i \<Rightarrow> (case map_of d (fst s) of
          Some (PList xs) \<Rightarrow> if i < length xs then Some (xs ! i) else None
        | _ \<Rightarrow> None))"

fun lookup :: "seg list \<Rightarrow> pyval \<Rightarrow> pyval option" where
  "lookup [] v = Some v"
| "lookup (s # p) (PDict d) = (case look s d of None \<Rightarrow> None | Some w \<Rightarrow> lookup p w)"
| "lookup (s # p) _ = None"

text \<open>Paths that part at some segment: at a different name, or at a different
  index of the same name.\<close>

fun diverge :: "seg list \<Rightarrow> seg list \<Rightarrow> bool" where
  "diverge (s # p) (t # q) \<longleftrightarrow> fst s \<noteq> fst t \<or>
     (s \<noteq> t \<and> snd s \<noteq> None \<and> snd t \<noteq> None) \<or> (s = t \<and> diverge p q)"
| "diverge _ _ \<longleftrightarrow> False"

fun name_diverge :: "seg list \<Rightarrow> seg list \<Rightarrow> bool" where
  "name_diverge (s # p) (t # q) \<longleftrightarrow> fst s \<noteq> fst t \<or> (s = t \<and> name_diverge p q)"
| "name_diverge _ _ \<longleftrightarrow> False"

lemma name_diverge_diverge: "name_diverge p q \<Longrightarrow> diverge p q"
  by (induction p q rule: name_diverge.induct) auto

lemma lookup_nonempty_not_dict [simp]:
  "p \<noteq> [] \<Longrightarrow> \<forall>d. v \<noteq> PDict d \<Longrightarrow> lookup p v = None"
  by (cases p; cases v) auto

lemma re_split_from_short:
  "length (re_split_from acc s) \<le> Suc 0 \<Longrightarrow> re_split_from acc s = [acc @ s]"
proof (induction acc s rule: re_split_from.induct)
  case (1 acc s)
  show ?case
  proof (cases s)
    case Nil
    then show ?thesis by (simp add: re_split_from.simps)
  next
    case (Cons a t)
    have "match_index s = None"
    proof (rule ccontr)
      assume "match_index s \<noteq> None"
      then obtain ds r where "re_split_from acc s = acc # ds # re_split_from [] r"
        using Cons by (auto simp: re_split_from.simps [of acc "a # t"])
      with "1.prems" show False by simp
    qed
    with "1" Cons show ?thesis by (simp add: re_split_from.simps [of acc "a # t"])
  qed
qed

lemma key_index_split_short: "\<not> Suc 0 < length (key_index_split s) \<Longrightarrow> key_index_split s ! 0 = s"
  using re_split_from_short [of "[]" s] by (simp add: key_index_split_def)

lemma key_ok_None: "split1 c key = (a, None) \<Longrightarrow> key_ok c key = seg_ok a"
  by (simp add: key_ok_def py_split_None)

lemma key_ok_Some: "split1 c key = (a, Some r) \<Longrightarrow> key_ok c key = (seg_ok a \<and> key_ok c r)"
  by (simp add: key_ok_def py_split_Some)

lemma path_of_None: "split1 c key = (a, None) \<Longrightarrow> path_of c key = [parse_seg a]"
  by (simp add: path_of_def py_split_None)

lemma path_of_Some: "split1 c key = (a, Some r) \<Longrightarrow> path_of c key = parse_seg a # path_of c r"
  by (simp add: path_of_def py_split_Some)

lemma path_of_nonempty [simp]: "path_of c key \<noteq> []"
  by (simp add: path_of_def)

lemmas key_path_simps = key_ok_None key_ok_Some path_of_None path_of_Some

section \<open>get\<close>

lemma kv_get_leaf_found:
  assumes "seg_ok s" and "look (parse_seg s) d = Some w"
  shows "kv_get_leaf s (PDict d) = Inr w"
  using assms key_index_split_short [of s]
  by (auto simp: kv_get_leaf_def seg_ok_def parse_seg_def look_def Let_def
      split: if_splits option.splits pyval.splits)

lemma kv_get_found:
  "key_ok c key \<Longrightarrow> lookup (path_of c key) data = Some w \<Longrightarrow> kv_get c key data = Inr w"
proof (induction c key data rule: kv_get.induct)
  case (1 c key data)
  obtain a rest where sp: "split1 c key = (a, rest)" by (cases "split1 c key") auto
  obtain d where d: "data = PDict d"
    using "1.prems" by (cases "path_of c key"; cases data) (auto simp: path_of_def)
  show ?case
  proof (cases rest)
    case None
    with sp d "1.prems" have "seg_ok a" "look (parse_seg a) d = Some w"
      by (auto simp: key_path_simps split: option.splits)
    then show ?thesis using sp None d by (simp add: kv_get.simps [of c key] kv_get_leaf_found)
  next
    case (Some r)
    with sp d "1.prems" obtain w' where ok: "seg_ok a" "key_ok c r"
      and l: "look (parse_seg a) d = Some w'" and p: "lookup (path_of c r) w' = Some w"
      by (auto simp: key_path_simps split: option.splits)
    then obtain e where e: "w' = PDict e"
      by (cases "path_of c r"; cases w') (auto simp: path_of_def)
    show ?thesis
    proof (cases "length (key_index_split a) > 1")
      case True
      with l e obtain xs where "map_of d (key_index_split a ! 0) = Some (PList xs)"
        "read_nat (key_index_split a ! 1) < length xs" "xs ! read_nat (key_index_split a ! 1) = PDict e"
        by (auto simp: look_def parse_seg_def Let_def split: option.splits pyval.splits if_splits)
      with "1.IH" sp Some d ok e p True show ?thesis
        by (simp add: kv_get.simps [of c key] seg_ok_def Let_def)
    next
      case False
      with l e have "map_of d a = Some (PDict e)"
        using key_index_split_short [of a]
        by (auto simp: look_def parse_seg_def Let_def)
      with "1.IH" sp Some d ok e p False show ?thesis
        by (simp add: kv_get.simps [of c key] seg_ok_def Let_def)
    qed
  qed
qed

lemma kv_get_leaf_missing:
  assumes "seg_ok s" and "look (parse_seg s) d = None"
  shows "kv_get_leaf s (PDict d) \<in> {Inr PNone, Inl TypeError}"
proof -
  have py_len_Inl: "py_len w = Inl e \<Longrightarrow> e = TypeError" for w e
    by (cases w) auto
  show ?thesis
    using assms key_index_split_short [of s] py_len_Inl
    by (auto simp: kv_get_leaf_def seg_ok_def parse_seg_def look_def Let_def
        split: if_splits option.splits pyval.splits sum.splits)
qed

lemma kv_get_missing:
  "key_ok c key \<Longrightarrow> lookup (path_of c key) (PDict d) = None \<Longrightarrow>
   kv_get c key (PDict d) \<in> {Inr PNone, Inl KeyError, Inl TypeError}"
proof (induction c key "PDict d" arbitrary: d rule: kv_get.induct)
  case (1 c key d)
  obtain a rest where sp: "split1 c key = (a, rest)" by (cases "split1 c key") auto
  show ?case
  proof (cases rest)
    case None
    with sp "1.prems" have "seg_ok a" "look (parse_seg a) d = None"
      by (auto simp: key_path_simps split: option.splits)
    then show ?thesis using sp None kv_get_leaf_missing by (auto simp: kv_get.simps [of c key])
  next
    case (Some r)
    with sp "1.prems" have ok: "seg_ok a" "key_ok c r" by (auto simp: key_path_simps)
    have sub: "kv_get c r (PDict e) \<in> {Inr PNone, Inl KeyError, Inl TypeError}"
      if "look (parse_seg a) d = Some (PDict e)" for e
    proof -
      have "lookup (path_of c r) (PDict e) = None"
        using that "1.prems" sp Some by (simp add: key_path_simps)
      with that show ?thesis
        using "1.hyps" [OF sp [symmetric]] Some ok key_index_split_short [of a]
        by (auto simp: seg_ok_def parse_seg_def look_def Let_def split: if_splits option.splits pyval.splits)
    qed
    show ?thesis
      using sp Some ok sub key_index_split_short [of a]
      by (auto simp: kv_get.simps [of c key] seg_ok_def look_def parse_seg_def Let_def
          split: option.splits pyval.splits if_splits)
  qed
qed

section \<open>set\<close>

text \<open>The value of a segment in the dict that \<open>set\<close> has written below.\<close>

lemma look_update_plain:
  "look s (AList.update (fst s) v d) = (case snd s of None \<Rightarrow> Some v
     | Some i \<Rightarrow> (case v of PList xs \<Rightarrow> if i < length xs then Some (xs ! i) else None | _ \<Rightarrow> None))"
  by (simp add: look_def AList.update_conv' split: option.split)

lemma look_update_other:
  "fst s \<noteq> k \<Longrightarrow> look s (AList.update k v d) = look s d"
  by (simp add: look_def AList.update_conv' split: option.split)

lemma length_extend_list [simp]: "length (extend_list xs i) = max (length xs) (Suc i)"
  by (simp add: extend_list_def)

lemma extend_list_nth: "j < length xs \<Longrightarrow> extend_list xs i ! j = xs ! j"
  by (simp add: extend_list_def nth_append)

text \<open>One unfolding of \<open>set\<close> on a dict, the two ways a segment is written in
  one: \<open>seg_old\<close> is the value \<open>set\<close> descends into.\<close>

definition seg_store :: "seg \<Rightarrow> pyval \<Rightarrow> pydict \<Rightarrow> pydict" where
  "seg_store s v d = (case snd s of
      None \<Rightarrow> AList.update (fst s) v d
    | Some i \<Rightarrow> AList.update (fst s)
        (PList ((extend_list (case map_of d (fst s) of Some (PList ys) \<Rightarrow> ys | _ \<Rightarrow> []) i)[i := v])) d)"

definition seg_old :: "seg \<Rightarrow> pydict \<Rightarrow> pyval" where
  "seg_old s d = (let w = (case look s d of Some w \<Rightarrow> w
       | None \<Rightarrow> (case snd s of None \<Rightarrow> PDict [] | Some _ \<Rightarrow> PStr []))
     in if is_str_list w then PDict [] else w)"

lemma kv_set_dict:
  assumes sp: "split1 c key = (a, rest)" and ok: "\<not> (length (key_index_split a) > 1 \<and> py_strip (key_index_split a ! 0) = [])"
  shows "kv_set c key v (PDict d) = (case rest of
      None \<Rightarrow> (PDict (seg_store (parse_seg a) v d), None)
    | Some r \<Rightarrow> (let (w, e) = kv_set c r v (seg_old (parse_seg a) d)
        in (PDict (seg_store (parse_seg a) w d), e)))"
proof (cases "length (key_index_split a) > 1")
  case True
  let ?k = "key_index_split a ! 0" and ?i = "read_nat (key_index_split a ! 1)"
  let ?ys = "case map_of d ?k of Some (PList ys) \<Rightarrow> ys | _ \<Rightarrow> []"
  have 1: "(case (case map_of d ?k of None \<Rightarrow> PDict [] | Some w \<Rightarrow> w) of PList ys \<Rightarrow> ys | _ \<Rightarrow> []) = ?ys"
    by (simp split: option.splits)
  have 2: "seg_old (?k, Some ?i) d =
      (if is_str_list (extend_list ?ys ?i ! ?i) then PDict [] else extend_list ?ys ?i ! ?i)"
    by (auto simp: seg_old_def look_def extend_list_def nth_append Let_def
        split: option.splits pyval.splits)
  have 3: "parse_seg a = (?k, Some ?i)" using True by (simp add: parse_seg_def Let_def)
  show ?thesis
    using ok True unfolding kv_set.simps [of c key] 3 2
    by (simp add: sp seg_store_def Let_def 1 split: option.split prod.split)
next
  case False
  then have 3: "parse_seg a = (a, None)"
    using key_index_split_short [of a] by (simp add: parse_seg_def Let_def)
  have 2: "seg_old (a, None) d = (let w = (case map_of d a of None \<Rightarrow> PDict [] | Some w \<Rightarrow> w)
     in if is_str_list w then PDict [] else w)"
    by (simp add: seg_old_def look_def split: option.split)
  show ?thesis
    using False unfolding kv_set.simps [of c key] 3 2
    by (simp add: sp seg_store_def Let_def split: option.split prod.split)
qed

lemma look_seg_store_same [simp]: "look s (seg_store s v d) = Some v"
  by (auto simp: seg_store_def look_def AList.update_conv' split: option.split)

lemma look_seg_store_name: "fst s \<noteq> fst t \<Longrightarrow> look t (seg_store s v d) = look t d"
  by (simp add: seg_store_def look_update_other split: option.split)

lemma look_seg_store_index:
  assumes "s \<noteq> t" "snd s \<noteq> None" "snd t \<noteq> None" "look t d = Some w"
  shows "look t (seg_store s v d) = Some w"
proof (cases "fst s = fst t")
  case True
  then obtain i j where ij: "snd s = Some i" "snd t = Some j" "i \<noteq> j"
    using assms by (cases s; cases t) auto
  with assms True show ?thesis
    by (auto simp: seg_store_def look_def AList.update_conv' extend_list_nth split: option.splits pyval.splits if_splits)
next
  case False
  with assms show ?thesis by (simp add: look_seg_store_name)
qed

lemma kv_set_nondict:
  assumes "\<forall>d. data \<noteq> PDict d"
  shows "fst (kv_set c key v data) = data \<and> snd (kv_set c key v data) \<noteq> None"
proof (cases "split1 c key")
  case (Pair a rest)
  with assms show ?thesis
    by (cases data) (simp_all add: kv_set.simps [of c key] Let_def)
qed

lemma kv_set_None_dict: "kv_set c key v data = (data', None) \<Longrightarrow> \<exists>d. data = PDict d"
  using kv_set_nondict [of data c key v] by auto

lemma kv_set_lookup:
  "key_ok c key \<Longrightarrow> kv_set c key v data = (data', None) \<Longrightarrow> lookup (path_of c key) data' = Some v"
proof (induction "length key" arbitrary: key data data' rule: less_induct)
  case less
  obtain a rest where sp: "split1 c key = (a, rest)" by (cases "split1 c key") auto
  obtain d where d: "data = PDict d" using kv_set_None_dict less.prems(2) by blast
  have ok: "\<not> (length (key_index_split a) > 1 \<and> py_strip (key_index_split a ! 0) = [])"
    using less.prems(1) sp by (cases rest) (auto simp: key_path_simps seg_ok_def Let_def)
  note st = kv_set_dict [OF sp ok, of v d]
  show ?case
  proof (cases rest)
    case None
    with less.prems sp d st show ?thesis by (auto simp: key_path_simps)
  next
    case (Some r)
    obtain w e where w: "kv_set c r v (seg_old (parse_seg a) d) = (w, e)" by fastforce
    with less.prems(2) Some d st have e: "e = None" "data' = PDict (seg_store (parse_seg a) w d)" by auto
    have "lookup (path_of c r) w = Some v"
      using less.hyps [of r] w e less.prems(1) sp Some split1_rest_shorter by (auto simp: key_path_simps)
    then show ?thesis using e sp Some by (simp add: key_path_simps)
  qed
qed

text \<open>Where \<open>set\<close> descends it keeps the dicts that are there.\<close>

lemma lookup_seg_old:
  assumes "lookup q w = Some u" "q \<noteq> []" "look s d = Some w"
  shows "seg_old s d = w"
  using assms by (cases w; cases q) (auto simp: seg_old_def)

lemma diverge_nonempty: "diverge p q \<Longrightarrow> q \<noteq> [] \<and> p \<noteq> []"
  by (cases p; cases q) auto

lemma kv_set_bad: "split1 c key = (a, rest) \<Longrightarrow>
   length (key_index_split a) > 1 \<Longrightarrow> py_strip (key_index_split a ! 0) = [] \<Longrightarrow>
   kv_set c key v data = (data, Some (KvError EINVAL))"
  by (simp add: kv_set.simps [of c key])

lemma kv_set_frame:
  "diverge (path_of c key) q \<Longrightarrow> lookup q data = Some u \<Longrightarrow>
   lookup q (fst (kv_set c key v data)) = Some u"
proof (induction "length key" arbitrary: key data q rule: less_induct)
  case less
  obtain a rest where sp: "split1 c key = (a, rest)" by (cases "split1 c key") auto
  obtain t q' where q: "q = t # q'" using less.prems(1) by (cases q) auto
  obtain d where d: "data = PDict d" using less.prems(2) q by (cases data) auto
  obtain wt where wt: "look t d = Some wt" "lookup q' wt = Some u"
    using less.prems(2) q d by (auto split: option.splits)
  show ?case
  proof (cases "length (key_index_split a) > 1 \<and> py_strip (key_index_split a ! 0) = []")
    case True
    with kv_set_bad [OF sp] less.prems show ?thesis by simp
  next
    case ok: False
    note st = kv_set_dict [OF sp ok, of v d]
    define w where "w = (case rest of None \<Rightarrow> v | Some r \<Rightarrow> fst (kv_set c r v (seg_old (parse_seg a) d)))"
    have fst: "fst (kv_set c key v data) = PDict (seg_store (parse_seg a) w d)"
      using st d by (auto simp: w_def split: option.splits prod.splits)
    have hd: "fst (parse_seg a) \<noteq> fst t \<or> (parse_seg a \<noteq> t \<and> snd (parse_seg a) \<noteq> None \<and> snd t \<noteq> None)
       \<or> (parse_seg a = t \<and> (\<exists>r. rest = Some r \<and> diverge (path_of c r) q'))"
      using less.prems(1) sp q by (cases rest) (auto simp: key_path_simps)
    then consider "fst (parse_seg a) \<noteq> fst t"
      | "parse_seg a \<noteq> t" "snd (parse_seg a) \<noteq> None" "snd t \<noteq> None"
      | r where "parse_seg a = t" "rest = Some r" "diverge (path_of c r) q'" by blast
    then show ?thesis
    proof cases
      case 1
      then show ?thesis using q fst wt by (simp add: look_seg_store_name)
    next
      case 2
      then show ?thesis using q fst wt by (simp add: look_seg_store_index)
    next
      case 3
      then have "seg_old t d = wt"
        using wt diverge_nonempty by (blast intro: lookup_seg_old)
      moreover have "lookup q' (fst (kv_set c r v wt)) = Some u"
        using less.hyps [of r] 3 wt sp split1_rest_shorter by blast
      ultimately show ?thesis using q fst wt 3 by (simp add: w_def)
    qed
  qed
qed

text \<open>When \<open>set\<close> fails: a number or None stands where it has to descend.\<close>

fun blocked :: "seg list \<Rightarrow> pyval \<Rightarrow> bool" where
  "blocked (s # t # p) (PDict d) \<longleftrightarrow> blocked (t # p) (seg_old s d)"
| "blocked _ (PDict d) \<longleftrightarrow> False"
| "blocked _ _ \<longleftrightarrow> True"

lemma kv_set_error:
  "key_ok c key \<Longrightarrow> snd (kv_set c key v data) = (if blocked (path_of c key) data then Some AttributeError else None)"
proof (induction "length key" arbitrary: key data rule: less_induct)
  case less
  obtain a rest where sp: "split1 c key = (a, rest)" by (cases "split1 c key") auto
  have ok: "\<not> (length (key_index_split a) > 1 \<and> py_strip (key_index_split a ! 0) = [])"
    using less.prems(1) sp by (cases rest) (auto simp: key_path_simps seg_ok_def Let_def)
  show ?case
  proof (cases "\<exists>d. data = PDict d")
    case False
    with sp ok show ?thesis
      by (cases data; cases "path_of c key"; cases "tl (path_of c key)")
        (simp_all add: kv_set.simps [of c key] path_of_def Let_def)
  next
    case True
    then obtain d where d: "data = PDict d" by blast
    note st = kv_set_dict [OF sp ok, of v d]
    show ?thesis
    proof (cases rest)
      case None
      with sp d st show ?thesis by (simp add: key_path_simps)
    next
      case (Some r)
      have "snd (kv_set c r v (seg_old (parse_seg a) d)) =
          (if blocked (path_of c r) (seg_old (parse_seg a) d) then Some AttributeError else None)"
        using less.hyps [of r] less.prems sp Some split1_rest_shorter by (auto simp: key_path_simps)
      moreover obtain t p where "path_of c r = t # p" by (cases "path_of c r") auto
      ultimately show ?thesis using Some sp d st
        by (simp add: key_path_simps split: prod.splits)
    qed
  qed
qed

section \<open>delete\<close>

lemma AList_update_triv: "map_of d k = Some w \<Longrightarrow> AList.update k w d = d"
  by (induction d) (auto split: if_splits)

lemma seg_store_triv: "look s d = Some w \<Longrightarrow> seg_store s w d = d"
  by (auto simp: seg_store_def look_def extend_list_def AList_update_triv
      split: option.splits pyval.splits if_splits)

definition seg_remove :: "seg \<Rightarrow> pydict \<Rightarrow> pydict" where
  "seg_remove s d = (case snd s of
      None \<Rightarrow> AList.delete (fst s) d
    | Some i \<Rightarrow> (case map_of d (fst s) of
        Some (PList xs) \<Rightarrow> AList.update (fst s)
          (PList (if i = length xs - 1 then butlast xs else xs[i := PStr []])) d
      | _ \<Rightarrow> d))"

lemma kv_delete_absent:
  assumes "split1 c key = (a, rest)" "look (parse_seg a) d = None"
  shows "kv_delete c key force (PDict d) \<in> {Inr (False, PDict d), Inl (KvError EINVAL)}"
  using assms key_index_split_short [of a]
  by (auto simp: kv_delete.simps [of c key] look_def parse_seg_def Let_def
      split: option.splits pyval.splits if_splits)

lemma kv_delete_leaf:
  assumes "split1 c key = (a, None)" "look (parse_seg a) d = Some w"
  shows "kv_delete c key force (PDict d) =
    (if snd (parse_seg a) \<noteq> None \<or> \<not> is_list_dict w \<or> force \<or> py_len w = Inr 0
     then Inr (True, PDict (seg_remove (parse_seg a) d)) else Inl (KvError EINVAL))"
  using assms key_index_split_short [of a]
  by (auto simp: kv_delete.simps [of c key] look_def parse_seg_def Let_def seg_remove_def
      split: option.splits pyval.splits if_splits)

lemma kv_delete_inner:
  assumes "split1 c key = (a, Some r)" "look (parse_seg a) d = Some w"
  shows "kv_delete c key force (PDict d) = (case kv_delete c r force w of
      Inl e \<Rightarrow> Inl e
    | Inr (b, w') \<Rightarrow> Inr (b, PDict (seg_store (parse_seg a) w' d)))"
  using assms key_index_split_short [of a]
  by (auto simp: kv_delete.simps [of c key] look_def parse_seg_def Let_def seg_store_def extend_list_def
      split: option.splits pyval.splits if_splits sum.splits)

lemma kv_delete_dict: "kv_delete c key force data = Inr x \<Longrightarrow> \<exists>d. data = PDict d"
  by (cases data) (auto simp: kv_delete.simps [of c key] split: prod.splits)

text \<open>The step of every proof about \<open>delete\<close>: either nothing is there, or the
  leaf is removed, or the rest of the key is deleted below.\<close>

lemma kv_delete_cases:
  assumes "kv_delete c key force data = Inr (b, data')"
  obtains d a rest where "data = PDict d" "split1 c key = (a, rest)"
    "look (parse_seg a) d = None" "\<not> b" "data' = data"
  | d a w where "data = PDict d" "split1 c key = (a, None)" "look (parse_seg a) d = Some w"
    "b" "data' = PDict (seg_remove (parse_seg a) d)"
  | d a r w w' where "data = PDict d" "split1 c key = (a, Some r)" "look (parse_seg a) d = Some w"
    "kv_delete c r force w = Inr (b, w')" "data' = PDict (seg_store (parse_seg a) w' d)"
proof -
  obtain d where d: "data = PDict d" using kv_delete_dict assms by blast
  obtain a rest where sp: "split1 c key = (a, rest)" by (cases "split1 c key") auto
  show ?thesis
  proof (cases "look (parse_seg a) d")
    case None
    with kv_delete_absent [OF sp this, of force] assms d that(1) [OF d sp None] show ?thesis by auto
  next
    case (Some w)
    show ?thesis
    proof (cases rest)
      case None
      with kv_delete_leaf [of c key a d w force] sp Some assms d that(2) [OF d _ Some]
      show ?thesis by (auto split: if_splits)
    next
      case (Some r)
      with kv_delete_inner [of c key a r d w force] sp \<open>look (parse_seg a) d = Some w\<close> assms d
      show ?thesis by (auto split: sum.splits intro: that(3))
    qed
  qed
qed

lemma look_seg_remove_same:
  "look s d = Some w \<Longrightarrow> look s (seg_remove s d) \<in> {None, Some (PStr [])}"
  by (auto simp: seg_remove_def look_def AList.update_conv' AList.delete_conv'
      split: option.splits pyval.splits if_splits)

lemma look_seg_remove_plain:
  "snd s = None \<Longrightarrow> look s (seg_remove s d) = None"
  by (simp add: seg_remove_def look_def AList.delete_conv')

lemma look_seg_remove_name: "fst s \<noteq> fst t \<Longrightarrow> look t (seg_remove s d) = look t d"
  by (auto simp: seg_remove_def look_def AList.update_conv' AList.delete_conv'
      split: option.splits pyval.splits)

lemma look_seg_remove_index:
  assumes "s \<noteq> t" "snd s \<noteq> None" "snd t \<noteq> None" "look t d = Some w"
  shows "look t (seg_remove s d) = Some w"
proof (cases "fst s = fst t")
  case True
  then obtain i j where "snd s = Some i" "snd t = Some j" "i \<noteq> j"
    using assms by (cases s; cases t) auto
  with assms True show ?thesis
    by (auto simp: seg_remove_def look_def AList.update_conv' nth_butlast
        split: option.splits pyval.splits if_splits)
next
  case False
  with assms show ?thesis by (simp add: look_seg_remove_name)
qed

lemma kv_delete_false:
  "kv_delete c key force data = Inr (False, data') \<Longrightarrow> data' = data \<and> lookup (path_of c key) data = None"
proof (induction "length key" arbitrary: key data data' rule: less_induct)
  case less
  from less.prems show ?case
  proof (cases rule: kv_delete_cases)
    case (1 d a rest)
    then show ?thesis by (cases rest) (simp_all add: key_path_simps)
  next
    case (3 d a r w w')
    with less.hyps [of r w w'] split1_rest_shorter show ?thesis
      by (auto simp: key_path_simps seg_store_triv)
  qed simp
qed

lemma kv_delete_true:
  "kv_delete c key force data = Inr (True, data') \<Longrightarrow> lookup (path_of c key) data \<noteq> None \<and>
   lookup (path_of c key) data' \<in> {None, Some (PStr [])} \<and>
   (snd (last (path_of c key)) = None \<longrightarrow> lookup (path_of c key) data' = None)"
proof (induction "length key" arbitrary: key data data' rule: less_induct)
  case less
  from less.prems show ?case
  proof (cases rule: kv_delete_cases)
    case (2 d a w)
    then show ?thesis
      using look_seg_remove_same [of "parse_seg a" d w] look_seg_remove_plain [of "parse_seg a" d]
      by (auto simp: key_path_simps split: option.splits)
  next
    case (3 d a r w w')
    with less.hyps [of r w w'] split1_rest_shorter show ?thesis
      by (auto simp: key_path_simps)
  qed simp
qed

lemma kv_delete_frame:
  "kv_delete c key force data = Inr (b, data') \<Longrightarrow> diverge (path_of c key) q \<Longrightarrow>
   lookup q data = Some u \<Longrightarrow> lookup q data' = Some u"
proof (induction "length key" arbitrary: key data data' q rule: less_induct)
  case less
  obtain t q' where q: "q = t # q'" using less.prems(2) by (cases q) auto
  from less.prems(1) show ?case
  proof (cases rule: kv_delete_cases)
    case (1 d a rest)
    with less.prems show ?thesis by simp
  next
    case (2 d a w)
    with less.prems q show ?thesis
      by (auto simp: key_path_simps look_seg_remove_name look_seg_remove_index split: option.splits)
  next
    case (3 d a r w w')
    with less.prems q consider "fst (parse_seg a) \<noteq> fst t"
      | "parse_seg a \<noteq> t" "snd (parse_seg a) \<noteq> None" "snd t \<noteq> None"
      | "parse_seg a = t" "diverge (path_of c r) q'" by (auto simp: key_path_simps)
    then show ?thesis
    proof cases
      case same: 3
      with 3 same less.prems q have "lookup q' w' = Some u"
        using less.hyps [of r w w' q'] split1_rest_shorter by auto
      with 3 same q show ?thesis by simp
    qed (use 3 less.prems q in \<open>auto simp: look_seg_store_name look_seg_store_index split: option.splits\<close>)
  qed
qed

section \<open>Well-formed data\<close>

text \<open>Every dict has pairwise distinct keys, as a Python dict has.\<close>

fun pywf :: "pyval \<Rightarrow> bool"
  and wf_list :: "pyval list \<Rightarrow> bool"
  and wf_dict :: "pydict \<Rightarrow> bool" where
  "pywf (PDict d) \<longleftrightarrow> distinct (map fst d) \<and> wf_dict d"
| "pywf (PList xs) \<longleftrightarrow> wf_list xs"
| "pywf _ \<longleftrightarrow> True"
| "wf_list [] \<longleftrightarrow> True"
| "wf_list (x # xs) \<longleftrightarrow> pywf x \<and> wf_list xs"
| "wf_dict [] \<longleftrightarrow> True"
| "wf_dict ((k, v) # d) \<longleftrightarrow> pywf v \<and> wf_dict d"

lemma wf_list_iff: "wf_list xs \<longleftrightarrow> (\<forall>x \<in> set xs. pywf x)"
  by (induction xs) auto

lemma wf_dict_iff: "wf_dict d \<longleftrightarrow> (\<forall>(k, v) \<in> set d. pywf v)"
  by (induction d) auto

lemma wf_dict_map_of: "wf_dict d \<Longrightarrow> map_of d k = Some v \<Longrightarrow> pywf v"
  by (auto simp: wf_dict_iff dest: map_of_SomeD)

lemma wf_dict_update: "wf_dict d \<Longrightarrow> pywf v \<Longrightarrow> wf_dict (AList.update k v d)"
  by (induction d) auto

lemma wf_dict_delete: "wf_dict d \<Longrightarrow> wf_dict (AList.delete k d)"
  by (auto simp: wf_dict_iff AList.delete_eq)

text \<open>A property of values that passes from a dict or list to its members, and that
  updates and deletions of members keep: set and delete keep it at any depth. The names
  that an update may add are those of \<open>nok\<close>, or all of them.\<close>

locale named_data =
  fixes Q :: "pyval \<Rightarrow> bool"
    and nok :: "string \<Rightarrow> bool"
  assumes D_map_of: "Q (PDict d) \<Longrightarrow> map_of d k = Some w \<Longrightarrow> Q w"
    and D_update: "Q (PDict d) \<Longrightarrow> Q v \<Longrightarrow> nok k \<or> map_of d k \<noteq> None \<Longrightarrow> Q (PDict (AList.update k v d))"
    and D_delete: "Q (PDict d) \<Longrightarrow> Q (PDict (AList.delete k d))"
    and D_list: "Q (PList xs) \<longleftrightarrow> (\<forall>x \<in> set xs. Q x)"
    and D_empty: "Q (PStr [])" "Q (PDict [])"
begin

lemma D_list_update: "Q (PList xs) \<Longrightarrow> Q v \<Longrightarrow> Q (PList (xs[i := v]))"
  using set_update_subset_insert [of xs i v] by (auto simp: D_list)

lemma D_extend: "Q (PList xs) \<Longrightarrow> Q (PList (extend_list xs i))"
  using D_empty by (auto simp: D_list extend_list_def)

lemma D_look: "Q (PDict d) \<Longrightarrow> look s d = Some w \<Longrightarrow> Q w"
proof -
  assume q: "Q (PDict d)" and l: "look s d = Some w"
  from l obtain u where u: "map_of d (fst s) = Some u"
    by (cases "map_of d (fst s)") (auto simp: look_def split: option.splits)
  with q have "Q u" using D_map_of by blast
  with l u show ?thesis
    by (auto simp: look_def D_list simp del: map_of_eq_Some_iff split: option.splits pyval.splits if_splits)
qed

lemma D_seg_store: "Q (PDict d) \<Longrightarrow> Q v \<Longrightarrow> nok (fst s) \<or> map_of d (fst s) \<noteq> None \<Longrightarrow> Q (PDict (seg_store s v d))"
proof (cases "snd s")
  case (Some i)
  assume q: "Q (PDict d)" "Q v" and n: "nok (fst s) \<or> map_of d (fst s) \<noteq> None"
  let ?ys = "case map_of d (fst s) of Some (PList ys) \<Rightarrow> ys | _ \<Rightarrow> []"
  have "Q (PList ?ys)"
    using D_map_of [OF q(1), of "fst s"] by (cases "map_of d (fst s)") (auto simp: D_list split: pyval.splits)
  then have "Q (PList ((extend_list ?ys i)[i := v]))"
    using q by (simp add: D_list_update D_extend)
  with q(1) have "Q (PDict (AList.update (fst s) (PList ((extend_list ?ys i)[i := v])) d))"
    using n by (rule D_update)
  with Some show ?thesis by (simp add: seg_store_def)
qed (simp add: seg_store_def D_update)

lemma D_seg_old: "Q (PDict d) \<Longrightarrow> Q (seg_old s d)"
  using D_look [of d s] D_empty by (auto simp: seg_old_def Let_def split: option.splits)

lemma D_kv_set: "Q data \<Longrightarrow> Q v \<Longrightarrow> \<forall>s \<in> set (path_of c key). nok (fst s) \<Longrightarrow> Q (fst (kv_set c key v data))"
proof (induction "length key" arbitrary: key data rule: less_induct)
  case less
  obtain a rest where sp: "split1 c key = (a, rest)" by (cases "split1 c key") auto
  show ?case
  proof (cases "(\<forall>d. data \<noteq> PDict d) \<or> (length (key_index_split a) > 1 \<and> py_strip (key_index_split a ! 0) = [])")
    case True
    with kv_set_bad [OF sp] kv_set_nondict [of data c key v] less.prems show ?thesis by auto
  next
    case False
    then obtain d where d: "data = PDict d" by blast
    have "Q (fst (kv_set c r v (seg_old (parse_seg a) d)))" if "rest = Some r" for r
      using less.hyps [of r] less.prems d that sp split1_rest_shorter D_seg_old path_of_Some
      by (metis list.set_intros(2))
    moreover have "nok (fst (parse_seg a))"
      using less.prems(3) sp by (cases rest) (simp_all add: key_path_simps)
    ultimately show ?thesis using less.prems(1,2) d kv_set_dict [OF sp, of v d] False
      by (auto split: option.splits prod.splits intro!: D_seg_store)
  qed
qed

lemma D_seg_remove: "Q (PDict d) \<Longrightarrow> Q (PDict (seg_remove s d))"
proof -
  assume q: "Q (PDict d)"
  have xs: "Q (PList xs)" if "map_of d (fst s) = Some (PList xs)" for xs
    using D_map_of [OF q that] .
  have "Q (PList (butlast xs))" "Q (PList (xs[i := PStr []]))"
    if "map_of d (fst s) = Some (PList xs)" for xs i
    using xs [OF that] D_empty by (auto simp: D_list_update) (auto simp: D_list dest: in_set_butlastD)
  then show ?thesis
    unfolding seg_remove_def using q
    by (simp del: map_of_eq_Some_iff add: D_update D_delete split: option.split pyval.split)
qed

lemma D_kv_delete: "kv_delete c key force data = Inr (b, data') \<Longrightarrow> Q data \<Longrightarrow> Q data'"
proof (induction "length key" arbitrary: key data data' rule: less_induct)
  case less
  from less.prems(1) show ?case
  proof (cases rule: kv_delete_cases)
    case (3 d a r w w')
    have "Q w" using 3 less.prems(2) D_look by blast
    moreover have "map_of d (fst (parse_seg a)) \<noteq> None" using 3 by (auto simp: look_def split: option.splits)
    ultimately show ?thesis using 3 less.prems(2) less.hyps [of r w w'] split1_rest_shorter
      by (auto intro!: D_seg_store)
  qed (use less.prems(2) D_seg_remove in auto)
qed

end

locale hereditary =
  fixes Q :: "pyval \<Rightarrow> bool"
  assumes Q_map_of: "Q (PDict d) \<Longrightarrow> map_of d k = Some w \<Longrightarrow> Q w"
    and Q_update: "Q (PDict d) \<Longrightarrow> Q v \<Longrightarrow> Q (PDict (AList.update k v d))"
    and Q_delete: "Q (PDict d) \<Longrightarrow> Q (PDict (AList.delete k d))"
    and Q_list: "Q (PList xs) \<longleftrightarrow> (\<forall>x \<in> set xs. Q x)"
    and Q_empty: "Q (PStr [])" "Q (PDict [])"

sublocale hereditary \<subseteq> named_data Q "\<lambda>_. True"
  by unfold_locales (rule Q_map_of Q_update Q_delete Q_list Q_empty; assumption)+

context hereditary
begin

lemmas Q_look = D_look

lemma Q_kv_set: "Q data \<Longrightarrow> Q v \<Longrightarrow> Q (fst (kv_set c key v data))"
  by (rule D_kv_set) simp_all

lemmas Q_kv_delete = D_kv_delete

end

interpretation wf: hereditary pywf
  by unfold_locales
    (auto simp: wf_list_iff wf_dict_update wf_dict_delete AList.distinct_update AList.distinct_delete
      simp del: map_of_eq_Some_iff intro: wf_dict_map_of)

lemmas kv_set_wf = wf.Q_kv_set
lemmas kv_delete_wf = wf.Q_kv_delete

section \<open>Keys without an index\<close>

definition plain_key :: "char \<Rightarrow> string \<Rightarrow> bool" where
  "plain_key c key \<longleftrightarrow> (\<forall>s \<in> set (py_split c key). CHR ''['' \<notin> set s \<and> py_strip s \<noteq> [])"

lemma plain_key_ok: "plain_key c key \<Longrightarrow> key_ok c key"
  by (auto simp: plain_key_def key_ok_def list_all_iff seg_ok_def key_simps Let_def)

lemma plain_key_None: "split1 c key = (a, None) \<Longrightarrow>
    plain_key c key \<longleftrightarrow> CHR ''['' \<notin> set a \<and> py_strip a \<noteq> []"
  by (simp add: plain_key_def py_split_None)

lemma plain_key_Some: "split1 c key = (a, Some r) \<Longrightarrow>
    plain_key c key \<longleftrightarrow> CHR ''['' \<notin> set a \<and> py_strip a \<noteq> [] \<and> plain_key c r"
  by (simp add: plain_key_def py_split_Some)

lemma plain_path: "plain_key c key \<Longrightarrow> path_of c key = map (\<lambda>s. (s, None)) (py_split c key)"
  by (auto simp: plain_key_def path_of_def parse_seg_def key_simps Let_def)

lemma plain_parse_seg: "CHR ''['' \<notin> set a \<Longrightarrow> parse_seg a = (a, None)"
  by (simp add: parse_seg_def key_simps)

text \<open>On such a key \<open>get\<close> is the abstract lookup, with None for a missing value.\<close>

lemma kv_get_plain:
  "plain_key c key \<Longrightarrow> kv_get c key (PDict d) =
   Inr (case lookup (path_of c key) (PDict d) of None \<Rightarrow> PNone | Some w \<Rightarrow> w)"
proof (induction "length key" arbitrary: key d rule: less_induct)
  case less
  obtain a rest where sp: "split1 c key = (a, rest)" by (cases "split1 c key") auto
  show ?case
  proof (cases rest)
    case None
    with sp less.prems show ?thesis
      by (auto simp: kv_get.simps [of c key] kv_get_leaf_def key_simps plain_key_None key_path_simps
          plain_parse_seg look_def split: option.split)
  next
    case (Some r)
    with sp less.prems have a: "CHR ''['' \<notin> set a" "py_strip a \<noteq> []" "plain_key c r"
      by (auto simp: plain_key_Some)
    have "kv_get c r (PDict e) = Inr (case lookup (path_of c r) (PDict e) of None \<Rightarrow> PNone | Some w \<Rightarrow> w)" for e
      using less.hyps a(3) sp Some split1_rest_shorter by blast
    with sp Some a show ?thesis
      by (auto simp: kv_get.simps [of c key] key_simps key_path_simps plain_parse_seg look_def
          split: option.split pyval.split)
  qed
qed

text \<open>A path that parts by name from the one written keeps what it reaches, and
  reaches nothing new.\<close>

lemma lookup_seg_old_eq:
  assumes "q \<noteq> []"
  shows "lookup q (seg_old s d) = (case look s d of None \<Rightarrow> None | Some w \<Rightarrow> lookup q w)"
  using assms by (cases q; cases "look s d"; cases "the (look s d)"; cases "snd s")
    (auto simp: seg_old_def look_def Let_def split: option.splits pyval.splits)

lemma name_diverge_nonempty: "name_diverge p q \<Longrightarrow> q \<noteq> [] \<and> p \<noteq> []"
  by (cases p; cases q) auto

lemma kv_set_frame_eq:
  "name_diverge (path_of c key) q \<Longrightarrow> lookup q (fst (kv_set c key v data)) = lookup q data"
proof (induction "length key" arbitrary: key data q rule: less_induct)
  case less
  obtain a rest where sp: "split1 c key = (a, rest)" by (cases "split1 c key") auto
  obtain t q' where q: "q = t # q'" using less.prems by (cases q) auto
  show ?case
  proof (cases "(\<forall>d. data \<noteq> PDict d) \<or> (length (key_index_split a) > 1 \<and> py_strip (key_index_split a ! 0) = [])")
    case True
    with kv_set_bad [OF sp] kv_set_nondict [of data c key v] show ?thesis by auto
  next
    case False
    then obtain d where d: "data = PDict d" by blast
    define w where "w = (case rest of None \<Rightarrow> v | Some r \<Rightarrow> fst (kv_set c r v (seg_old (parse_seg a) d)))"
    have fst: "fst (kv_set c key v data) = PDict (seg_store (parse_seg a) w d)"
      using kv_set_dict [OF sp, of v d] False d by (auto simp: w_def split: option.splits prod.splits)
    from less.prems sp q consider "fst (parse_seg a) \<noteq> fst t"
      | r where "parse_seg a = t" "rest = Some r" "name_diverge (path_of c r) q'"
      by (cases rest) (auto simp: key_path_simps)
    then show ?thesis
    proof cases
      case 1
      then show ?thesis using q fst d by (simp add: look_seg_store_name)
    next
      case 2
      then have "lookup q' w = lookup q' (seg_old t d)"
        using less.hyps [of r] sp split1_rest_shorter by (auto simp: w_def)
      with 2 q fst d show ?thesis
        using name_diverge_nonempty by (simp add: lookup_seg_old_eq)
    qed
  qed
qed

lemma kv_delete_frame_eq:
  "kv_delete c key force data = Inr (b, data') \<Longrightarrow> name_diverge (path_of c key) q \<Longrightarrow>
   lookup q data' = lookup q data"
proof (induction "length key" arbitrary: key data data' q rule: less_induct)
  case less
  obtain t q' where q: "q = t # q'" using less.prems(2) by (cases q) auto
  from less.prems(1) show ?case
  proof (cases rule: kv_delete_cases)
    case (2 d a w)
    with less.prems q show ?thesis by (auto simp: key_path_simps look_seg_remove_name)
  next
    case (3 d a r w w')
    with less.prems q consider "fst (parse_seg a) \<noteq> fst t"
      | "parse_seg a = t" "name_diverge (path_of c r) q'" by (auto simp: key_path_simps)
    then show ?thesis
    proof cases
      case same: 2
      with 3 q show ?thesis using less.hyps [of r w w' q'] split1_rest_shorter by auto
    qed (use 3 q in \<open>simp add: look_seg_store_name\<close>)
  qed simp
qed

end
