(* ===== verification/KvKeys.thy ===== *)
theory KvKeys
  imports KvPath
begin

text \<open>
  What the key listing of KvPayload returns (\<open>_get_keys\<close>), in terms of the paths of
  the theory KvPath, and the contract of \<open>add_num_keys\<close>.
\<close>

section \<open>Paths and the keys that denote them\<close>

definition seg_str :: "seg \<Rightarrow> string" where
  "seg_str s = (case snd s of None \<Rightarrow> fst s | Some i \<Rightarrow> fst s @ idx_suffix i)"

definition render :: "char \<Rightarrow> seg list \<Rightarrow> string" where
  "render c p = py_join [c] (map seg_str p)"

text \<open>A name that can stand in a key: not blank, no delimiter, no opening bracket;
  and a delimiter that cannot stand in an index.\<close>

definition name_ok :: "char \<Rightarrow> string \<Rightarrow> bool" where
  "name_ok c n \<longleftrightarrow> c \<notin> set n \<and> CHR ''['' \<notin> set n \<and> py_strip n \<noteq> []"

definition delim_ok :: "char \<Rightarrow> bool" where
  "delim_ok c \<longleftrightarrow> \<not> is_digit c \<and> c \<noteq> CHR ''['' \<and> c \<noteq> CHR '']''"

definition path_ok :: "char \<Rightarrow> seg list \<Rightarrow> bool" where
  "path_ok c p \<longleftrightarrow> p \<noteq> [] \<and> (\<forall>s \<in> set p. name_ok c (fst s))"

lemma parse_seg_str: "name_ok c (fst s) \<Longrightarrow> parse_seg (seg_str s) = s"
  by (cases s; cases "snd s")
    (simp_all add: parse_seg_def seg_str_def name_ok_def key_simps Let_def)

lemma seg_ok_str: "name_ok c (fst s) \<Longrightarrow> seg_ok (seg_str s)"
  by (cases s; cases "snd s")
    (simp_all add: seg_ok_def seg_str_def name_ok_def key_simps Let_def)

lemma sep_not_in_seg: "delim_ok c \<Longrightarrow> name_ok c (fst s) \<Longrightarrow> c \<notin> set (seg_str s)"
  using show_nat_digits by (auto simp: delim_ok_def name_ok_def seg_str_def idx_suffix_def split: option.splits)

lemma py_split_render: "delim_ok c \<Longrightarrow> path_ok c p \<Longrightarrow> py_split c (render c p) = map seg_str p"
  unfolding render_def by (rule py_split_join) (auto simp: path_ok_def sep_not_in_seg)

lemma path_of_render: "delim_ok c \<Longrightarrow> path_ok c p \<Longrightarrow> path_of c (render c p) = p"
  by (auto simp: path_of_def py_split_render path_ok_def parse_seg_str intro!: map_idI)

lemma key_ok_render: "delim_ok c \<Longrightarrow> path_ok c p \<Longrightarrow> key_ok c (render c p)"
  by (auto simp: key_ok_def py_split_render path_ok_def list_all_iff seg_ok_str)

lemma render_inj: "delim_ok c \<Longrightarrow> path_ok c p \<Longrightarrow> path_ok c q \<Longrightarrow> render c p = render c q \<Longrightarrow> p = q"
  by (metis path_of_render)

lemma render_single [simp]: "render c [s] = seg_str s"
  by (simp add: render_def)

lemma render_Cons: "p \<noteq> [] \<Longrightarrow> render c (s # p) = seg_str s @ c # render c p"
  by (cases p) (simp_all add: render_def)

section \<open>The leaves of the data\<close>

function (sequential) leaf_paths :: "pyval \<Rightarrow> seg list list"
  and leaf_list :: "string \<Rightarrow> pyval list \<Rightarrow> nat \<Rightarrow> seg list list"
  and leaf_dict :: "pydict \<Rightarrow> seg list list" where
  "leaf_paths (PDict d) = leaf_dict d"
| "leaf_paths v = (if is_str_int v then [[]] else [])"
| "leaf_list k [] i = []"
| "leaf_list k (x # xs) i = map (Cons (k, Some i)) (leaf_paths x) @ leaf_list k xs (Suc i)"
| "leaf_dict [] = []"
| "leaf_dict ((k, v) # d) =
     (case v of PList xs \<Rightarrow> leaf_list k xs 0 | _ \<Rightarrow> map (Cons (k, None)) (leaf_paths v)) @ leaf_dict d"
  by pat_completeness auto
termination
  by (relation "measure (case_sum size (case_sum (\<lambda>p. size_list size (fst (snd p)))
      (size_list (size_prod (\<lambda>_. 0) size))))") auto

lemma set_leaf_list: "set (leaf_list k xs i) =
   {(k, Some (i + j)) # q | j q. j < length xs \<and> q \<in> set (leaf_paths (xs ! j))}"
proof (induction xs arbitrary: i)
  case (Cons x xs)
  have "set (leaf_list k (x # xs) i) =
      {(k, Some i) # q | q. q \<in> set (leaf_paths x)} \<union>
      {(k, Some (Suc i + j)) # q | j q. j < length xs \<and> q \<in> set (leaf_paths (xs ! j))}"
    by (auto simp: Cons.IH)
  also have "\<dots> = {(k, Some (i + j)) # q | j q. j < length (x # xs) \<and> q \<in> set (leaf_paths ((x # xs) ! j))}"
    by (auto simp: less_Suc_eq_0_disj)
  finally show ?case .
qed simp

lemma leaf_dict_Cons_mem: "s # q \<in> set (leaf_dict d) \<Longrightarrow> fst s \<in> fst ` set d"
  by (induction d) (auto simp: set_leaf_list split: pyval.splits)

lemma mem_leaf_dict:
  "distinct (map fst d) \<Longrightarrow>
   s # q \<in> set (leaf_dict d) \<longleftrightarrow> (\<exists>w. look s d = Some w \<and> q \<in> set (leaf_paths w))"
proof (induction d)
  case (Cons kv d)
  obtain k v where kv: "kv = (k, v)" by force
  obtain n i where s: "s = (n, i)" by force
  show ?case
  proof (cases "n = k")
    case True
    then have "s # q \<notin> set (leaf_dict d)"
      using Cons.prems kv s leaf_dict_Cons_mem [of s q d] by auto
    then show ?thesis using True kv s
      by (cases v; cases i) (auto simp: look_def set_leaf_list)
  next
    case False
    then have "look s (kv # d) = look s d" using kv s by (simp add: look_def split: option.split)
    moreover have "s # q \<in> set (leaf_dict (kv # d)) \<longleftrightarrow> s # q \<in> set (leaf_dict d)"
      using False kv s by (cases v) (auto simp: set_leaf_list)
    ultimately show ?thesis using Cons by simp
  qed
qed (simp add: look_def split: option.splits)

lemma nil_not_leaf_dict [simp]: "[] \<notin> set (leaf_dict d)"
  by (induction d) (auto simp: set_leaf_list split: pyval.splits)

text \<open>The leaf paths are the paths that reach a string or an integer.\<close>

lemma leaf_paths_iff:
  "pywf v \<Longrightarrow> p \<in> set (leaf_paths v) \<longleftrightarrow> (\<exists>w. lookup p v = Some w \<and> is_str_int w)"
proof (induction p arbitrary: v)
  case Nil
  then show ?case by (cases v) auto
next
  case (Cons s q)
  show ?case
  proof (cases "\<exists>d. v = PDict d")
    case True
    then obtain d where d: "v = PDict d" by blast
    with Cons.prems have "s # q \<in> set (leaf_paths v) \<longleftrightarrow> (\<exists>w. look s d = Some w \<and> q \<in> set (leaf_paths w))"
      by (simp add: mem_leaf_dict)
    also have "\<dots> \<longleftrightarrow> (\<exists>w. look s d = Some w \<and> (\<exists>u. lookup q w = Some u \<and> is_str_int u))"
      using Cons d wf.Q_look by blast
    finally show ?thesis using d by (auto split: option.splits)
  qed (cases v; auto)
qed

lemma distinct_map_Cons: "distinct xs \<Longrightarrow> distinct (map (Cons s) xs)"
  by (simp add: distinct_map)

lemma distinct_leaf:
  "pywf v \<Longrightarrow> distinct (leaf_paths v)"
  "wf_list xs \<Longrightarrow> distinct (leaf_list k xs i)"
  "distinct (map fst d) \<Longrightarrow> wf_dict d \<Longrightarrow> distinct (leaf_dict d)"
proof (induction v and k xs i and d rule: leaf_paths_leaf_list_leaf_dict.induct)
  case (6 k v d)
  then have "fst ` set d \<inter> {k} = {}" by auto
  then have "set (leaf_dict d) \<inter> {(k, i) # q | i q. True} = {}"
    using leaf_dict_Cons_mem by fastforce
  with 6 show ?case
    by (cases v) (auto simp: distinct_map_Cons set_leaf_list)
qed (auto simp: distinct_map_Cons set_leaf_list)

section \<open>The keys that get_keys lists\<close>

fun names_ok :: "char \<Rightarrow> pyval \<Rightarrow> bool"
  and names_ok_list :: "char \<Rightarrow> pyval list \<Rightarrow> bool"
  and names_ok_dict :: "char \<Rightarrow> pydict \<Rightarrow> bool" where
  "names_ok c (PDict d) \<longleftrightarrow> names_ok_dict c d"
| "names_ok c (PList xs) \<longleftrightarrow> names_ok_list c xs"
| "names_ok c _ \<longleftrightarrow> True"
| "names_ok_list c [] \<longleftrightarrow> True"
| "names_ok_list c (x # xs) \<longleftrightarrow> names_ok c x \<and> names_ok_list c xs"
| "names_ok_dict c [] \<longleftrightarrow> True"
| "names_ok_dict c ((k, v) # d) \<longleftrightarrow> name_ok c k \<and> names_ok c v \<and> names_ok_dict c d"

definition render_under :: "char \<Rightarrow> string option \<Rightarrow> seg list \<Rightarrow> string" where
  "render_under c pkey p = sub_key [c] pkey (render c p)"

lemma render_under_index:
  "q \<noteq> [] \<Longrightarrow> render_under c (Some (sub_key [c] pkey k @ idx_suffix i)) q =
   render_under c pkey ((k, Some i) # q)"
  by (cases pkey) (simp_all add: render_under_def sub_key_def render_Cons seg_str_def)

lemma render_under_None [simp]: "render_under c None = render c"
  by (rule ext) (simp add: render_under_def sub_key_def)

lemma render_under_plain:
  "q \<noteq> [] \<Longrightarrow> render_under c (Some (sub_key [c] pkey k)) q = render_under c pkey ((k, None) # q)"
  by (cases pkey) (simp_all add: render_under_def sub_key_def render_Cons seg_str_def)

lemma render_under_single:
  "render_under c pkey [(k, None)] = sub_key [c] pkey k"
  "render_under c pkey [(k, Some i)] = sub_key [c] pkey k @ idx_suffix i"
  by (cases pkey; simp add: render_under_def sub_key_def seg_str_def)+

lemma sub_key_nonempty: "name_ok c k \<Longrightarrow> sub_key [c] pkey k \<noteq> []"
  by (cases k) (auto simp: name_ok_def sub_key_def py_strip_def split: option.splits)

lemma map_render_index: "map (render_under c (Some (sub_key [c] pkey k @ idx_suffix i))) (leaf_dict d) =
    map (render_under c pkey \<circ> Cons (k, Some i)) (leaf_dict d)"
proof (rule map_cong [OF refl])
  fix q assume "q \<in> set (leaf_dict d)"
  then have "q \<noteq> []" by auto
  then show "render_under c (Some (sub_key [c] pkey k @ idx_suffix i)) q = (render_under c pkey \<circ> Cons (k, Some i)) q"
    by (simp add: render_under_index)
qed

lemma map_render_plain: "map (render_under c (Some (sub_key [c] pkey k))) (leaf_dict d) =
    map (render_under c pkey \<circ> Cons (k, None)) (leaf_dict d)"
proof (rule map_cong [OF refl])
  fix q assume "q \<in> set (leaf_dict d)"
  then have "q \<noteq> []" by auto
  then show "render_under c (Some (sub_key [c] pkey k)) q = (render_under c pkey \<circ> Cons (k, None)) q"
    by (simp add: render_under_plain)
qed

lemma kv_keys_fold:
  "names_ok c v \<Longrightarrow> v = PDict d \<Longrightarrow>
     kv_keys_dict [c] True d pkey keys = fold add_key (map (render_under c pkey) (leaf_dict d)) keys"
  "names_ok_list c xs \<Longrightarrow> name_ok c k \<Longrightarrow>
     kv_keys_list [c] True xs i (Some (sub_key [c] pkey k)) keys =
     fold add_key (map (render_under c pkey) (leaf_list k xs i)) keys"
  "names_ok_dict c d' \<Longrightarrow>
     kv_keys_dict [c] True d' pkey keys = fold add_key (map (render_under c pkey) (leaf_dict d')) keys"
proof (induction v and k xs i and d' arbitrary: d pkey keys and pkey keys and pkey keys
    rule: leaf_paths_leaf_list_leaf_dict.induct)
  case (4 k x xs i)
  then have ne: "sub_key [c] pkey k \<noteq> []" using sub_key_nonempty by blast
  show ?case
  proof (cases "\<exists>e. x = PDict e")
    case True
    then obtain e where "x = PDict e" by blast
    with 4 ne show ?thesis by (simp add: map_render_index)
  next
    case False
    with 4 ne show ?thesis
      by (cases x) (simp_all add: render_under_single pkey_str_def)
  qed
next
  case (6 k v d)
  then show ?case
    by (cases v) (simp_all add: render_under_single map_render_plain Let_def)
qed auto

lemma fold_add_key_distinct: "distinct (keys @ xs) \<Longrightarrow> fold add_key xs keys = keys @ xs"
proof (induction xs arbitrary: keys)
  case (Cons x xs)
  then have "add_key x keys = keys @ [x]" by (simp add: add_key_def)
  with Cons show ?case by simp
qed simp

lemma set_fold_add_key: "set (fold add_key xs keys) = set keys \<union> set xs"
  by (induction xs arbitrary: keys) (auto simp: add_key_def)

lemma distinct_add_key: "distinct keys \<Longrightarrow> distinct (add_key x keys)"
  by (simp add: add_key_def)

lemma distinct_fold_add_key: "distinct keys \<Longrightarrow> distinct (fold add_key xs keys)"
  by (induction xs arbitrary: keys) (simp_all add: distinct_add_key)

lemma names_ok_leaf:
  "names_ok c v \<Longrightarrow> p \<in> set (leaf_paths v) \<Longrightarrow> \<forall>s \<in> set p. name_ok c (fst s)"
  "names_ok_list c xs \<Longrightarrow> name_ok c k \<Longrightarrow> p \<in> set (leaf_list k xs i) \<Longrightarrow> \<forall>s \<in> set p. name_ok c (fst s)"
  "names_ok_dict c d \<Longrightarrow> p \<in> set (leaf_dict d) \<Longrightarrow> \<forall>s \<in> set p. name_ok c (fst s)"
proof (induction v and k xs i and d arbitrary: p and p and p rule: leaf_paths_leaf_list_leaf_dict.induct)
  case (6 k v d)
  then show ?case by (cases v) fastforce+
next
  case (4 k x xs i)
  then show ?case by fastforce
qed (auto split: if_splits)

lemma kv_keys_render:
  assumes "names_ok_dict c d"
  shows "kv_keys [c] True (PDict d) None [] = fold add_key (map (render c) (leaf_dict d)) []"
  using kv_keys_fold(3) [OF assms, of None "[]"] by simp

lemma leaf_path_ok: "names_ok_dict c d \<Longrightarrow> p \<in> set (leaf_dict d) \<Longrightarrow> path_ok c p"
  using names_ok_leaf(3) by (auto simp: path_ok_def)

text \<open>The list in full: each leaf path of the data once, in the order of the dicts.\<close>

lemma kv_keys_eq:
  assumes "delim_ok c" "pywf (PDict d)" "names_ok_dict c d"
  shows "kv_keys [c] True (PDict d) None [] = map (render c) (leaf_dict d)"
proof -
  have "inj_on (render c) (set (leaf_dict d))"
    using render_inj [OF assms(1)] leaf_path_ok [OF assms(3)] by (auto simp: inj_on_def)
  moreover have "distinct (leaf_dict d)"
    using assms(2) by (simp add: distinct_leaf)
  ultimately have "distinct (map (render c) (leaf_dict d))"
    by (simp add: distinct_map)
  then show ?thesis
    using kv_keys_render [OF assms(3)] fold_add_key_distinct [of "[]"] by simp
qed

lemma mem_kv_keys:
  assumes "delim_ok c" "pywf (PDict d)" "names_ok_dict c d"
  shows "k \<in> set (kv_keys [c] True (PDict d) None []) \<longleftrightarrow>
    (\<exists>p v. path_ok c p \<and> k = render c p \<and> lookup p (PDict d) = Some v \<and> is_str_int v)"
proof -
  have "p \<in> set (leaf_dict d) \<longleftrightarrow> (\<exists>v. lookup p (PDict d) = Some v \<and> is_str_int v)" for p
    using leaf_paths_iff [OF assms(2), of p] by simp
  then show ?thesis
    using kv_keys_eq [OF assms] leaf_path_ok [OF assms(3)] by fastforce
qed

lemma kv_keys_get:
  assumes "delim_ok c" "pywf (PDict d)" "names_ok_dict c d" "k \<in> set (kv_keys [c] True (PDict d) None [])"
  shows "\<exists>v. kv_get c k (PDict d) = Inr v \<and> is_str_int v"
proof -
  from assms obtain p v where p: "path_ok c p" "k = render c p" "lookup p (PDict d) = Some v" "is_str_int v"
    unfolding mem_kv_keys [OF assms(1-3)] by blast
  then have "kv_get c k (PDict d) = Inr v"
    using assms(1) by (intro kv_get_found) (simp_all add: path_of_render key_ok_render)
  with p show ?thesis by blast
qed

section \<open>add_num_keys\<close>

lemma dict_update_Cons [simp]: "dict_update d ((k, v) # e) = dict_update (AList.update k v d) e"
  by (simp add: dict_update_def)

lemma dict_update_Nil [simp]: "dict_update d [] = d"
  by (simp add: dict_update_def)

lemma map_of_dict_update:
  "distinct (map fst e) \<Longrightarrow> map_of (dict_update d e) k = (case map_of e k of Some v \<Rightarrow> Some v | None \<Rightarrow> map_of d k)"
proof (induction e arbitrary: d)
  case (Cons kv e)
  obtain a b where kv: "kv = (a, b)" by force
  with Cons.prems have "map_of e a = None" by (simp add: map_of_eq_None_iff)
  with Cons kv show ?case
    by (cases "k = a") (simp_all add: AList.update_conv' split: option.split)
qed simp

lemma distinct_dict_update: "distinct (map fst d) \<Longrightarrow> distinct (map fst (dict_update d e))"
  by (induction e arbitrary: d) (auto simp: AList.distinct_update)

lemma wf_dict_dict_update: "wf_dict d \<Longrightarrow> wf_dict e \<Longrightarrow> wf_dict (dict_update d e)"
  by (induction e arbitrary: d) (auto simp: wf_dict_update)

lemma num_key_inj [simp]: "num_key a = num_key b \<longleftrightarrow> a = b"
  by (simp add: num_key_def)

lemma num_entries_mem: "(n, v) \<in> set (num_entries d) \<longleftrightarrow>
    (\<exists>k xs. n = num_key k \<and> v = PInt (int (length xs)) \<and> (k, PList xs) \<in> set d)"
  by (induction d) (auto split: pyval.splits)

lemma num_entries_keys: "num_key k \<in> fst ` set (num_entries d) \<longleftrightarrow> (\<exists>xs. (k, PList xs) \<in> set d)"
proof
  assume "num_key k \<in> fst ` set (num_entries d)"
  then obtain v where "(num_key k, v) \<in> set (num_entries d)" by auto
  then show "\<exists>xs. (k, PList xs) \<in> set d" unfolding num_entries_mem by auto
next
  assume "\<exists>xs. (k, PList xs) \<in> set d"
  then obtain xs where "(k, PList xs) \<in> set d" ..
  then have "(num_key k, PInt (int (length xs))) \<in> set (num_entries d)"
    unfolding num_entries_mem by blast
  then show "num_key k \<in> fst ` set (num_entries d)" by force
qed

lemma starts_with_num_key: "starts_with (num_key k) ''num_''"
  unfolding num_key_def by (rule starts_with_append)

lemma distinct_num_entries: "distinct (map fst d) \<Longrightarrow> distinct (map fst (num_entries d))"
proof (induction d)
  case (Cons kv d)
  obtain k v where kv: "kv = (k, v)" by force
  with Cons.prems have "num_key k \<notin> fst ` set (num_entries d)"
    unfolding num_entries_keys by (auto simp: image_iff)
  with Cons kv show ?case by (cases v) auto
qed simp

lemma map_of_num_entries:
  "distinct (map fst d) \<Longrightarrow> map_of d k = Some (PList xs) \<Longrightarrow>
   map_of (num_entries d) (num_key k) = Some (PInt (int (length xs)))"
  using distinct_num_entries num_entries_mem [of "num_key k"] by fastforce

lemma length_add_num_list [simp]: "length (add_num_list xs) = length xs"
  by (induction xs) auto

lemma add_num_dict_map: "add_num_dict d = map (\<lambda>(k, v). (k, kv_add_num_keys v)) d"
  by (induction d) auto

lemma map_fst_add_num_dict [simp]: "map fst (add_num_dict d) = map fst d"
  by (induction d) auto

lemma map_of_add_num_dict: "map_of (add_num_dict d) k = map_option kv_add_num_keys (map_of d k)"
  by (induction d) auto

lemma wf_num_entries: "wf_dict (num_entries d)"
  by (induction d) (auto split: pyval.splits)

lemma add_num_wf:
  "pywf v \<Longrightarrow> pywf (kv_add_num_keys v)"
  "wf_list xs \<Longrightarrow> wf_list (add_num_list xs)"
  "wf_dict d \<Longrightarrow> wf_dict (add_num_dict d)"
  by (induction v and xs and d rule: kv_add_num_keys_add_num_list_add_num_dict.induct)
    (auto simp: distinct_dict_update wf_dict_dict_update wf_num_entries)

text \<open>Adding the entries a dict already has changes nothing.\<close>

lemma dict_update_present:
  "(\<And>k v. (k, v) \<in> set e \<Longrightarrow> map_of d k = Some v) \<Longrightarrow> dict_update d e = d"
  by (induction e) (auto simp: AList_update_triv)

lemma add_num_dict_fixed:
  "(\<And>k v. (k, v) \<in> set d \<Longrightarrow> kv_add_num_keys v = v) \<Longrightarrow> add_num_dict d = d"
  unfolding add_num_dict_map by (auto intro!: map_idI)

lemma add_num_list_is_list: "kv_add_num_keys v = PList xs \<Longrightarrow> \<exists>ys. v = PList ys \<and> length ys = length xs"
  by (cases v) auto

lemma add_num_dict_idem_step:
  assumes dis: "distinct (map fst d)"
    and fixed: "\<And>k v. (k, v) \<in> set d \<Longrightarrow> kv_add_num_keys (kv_add_num_keys v) = kv_add_num_keys v"
  shows "kv_add_num_keys (kv_add_num_keys (PDict d)) = kv_add_num_keys (PDict d)"
proof -
  define e where "e = dict_update (add_num_dict d) (num_entries d)"
  have lk: "map_of e k = (case map_of (num_entries d) k of Some v \<Rightarrow> Some v
      | None \<Rightarrow> map_option kv_add_num_keys (map_of d k))" for k
    unfolding e_def map_of_dict_update [OF distinct_num_entries [OF dis]] map_of_add_num_dict ..
  have de: "distinct (map fst e)"
    unfolding e_def using dis by (intro distinct_dict_update) simp
  have mem: "kv_add_num_keys v = v" if "(k, v) \<in> set e" for k v
  proof -
    have "map_of e k = Some v" using that de by simp
    then show ?thesis
      using fixed by (auto simp: lk split: option.splits dest!: map_of_SomeD simp: num_entries_mem)
  qed
  have "map_of e n = Some v" if nv: "(n, v) \<in> set (num_entries e)" for n v
  proof -
    obtain k xs where k: "n = num_key k" "v = PInt (int (length xs))" "map_of e k = Some (PList xs)"
      using nv de by (auto simp: num_entries_mem)
    then obtain w where "map_of d k = Some w" "kv_add_num_keys w = PList xs"
      by (auto simp: lk num_entries_mem split: option.splits dest!: map_of_SomeD [of "num_entries d"])
    then obtain ys where "map_of d k = Some (PList ys)" "length ys = length xs"
      using add_num_list_is_list by blast
    then show ?thesis using k dis by (simp add: lk map_of_num_entries)
  qed
  then have "dict_update e (num_entries e) = e" by (rule dict_update_present)
  moreover have "add_num_dict e = e" by (rule add_num_dict_fixed) (rule mem)
  ultimately show ?thesis by (simp add: e_def)
qed

lemma add_num_idem:
  "pywf v \<Longrightarrow> kv_add_num_keys (kv_add_num_keys v) = kv_add_num_keys v"
  "wf_list xs \<Longrightarrow> add_num_list (add_num_list xs) = add_num_list xs"
  "wf_dict d \<Longrightarrow> \<forall>(k, v) \<in> set d. kv_add_num_keys (kv_add_num_keys v) = kv_add_num_keys v"
proof (induction v and xs and d rule: kv_add_num_keys_add_num_list_add_num_dict.induct)
  case (1 d)
  then show ?case by (intro add_num_dict_idem_step) auto
qed auto

text \<open>What the call leaves at a path of the data: the count at \<open>num_k\<close>, and every
  value at a path with no such name, its own counts added.\<close>

lemma lookup_num_key:
  assumes "pywf (PDict d)" "map_of d k = Some (PList xs)"
  shows "lookup [(num_key k, None)] (kv_add_num_keys (PDict d)) = Some (PInt (int (length xs)))"
  using assms map_of_dict_update [OF distinct_num_entries, of d "add_num_dict d"]
  by (simp add: look_def map_of_num_entries)

lemma look_add_num:
  assumes "distinct (map fst d)" "\<not> starts_with (fst s) ''num_''" "look s d = Some w"
  shows "look s (dict_update (add_num_dict d) (num_entries d)) = Some (kv_add_num_keys w)"
proof -
  have "map_of (num_entries d) (fst s) = None"
  proof (rule ccontr)
    assume "map_of (num_entries d) (fst s) \<noteq> None"
    then obtain v where "(fst s, v) \<in> set (num_entries d)" by (auto dest: map_of_SomeD)
    then show False using assms(2) starts_with_num_key by (auto simp: num_entries_mem)
  qed
  then have "map_of (dict_update (add_num_dict d) (num_entries d)) (fst s) = map_option kv_add_num_keys (map_of d (fst s))"
    unfolding map_of_dict_update [OF distinct_num_entries [OF assms(1)]] map_of_add_num_dict by simp
  moreover have "add_num_list xs ! i = kv_add_num_keys (xs ! i)" if "i < length xs" for xs i
    using that by (induction xs arbitrary: i) (auto simp: nth_Cons')
  ultimately show ?thesis
    using assms(3) by (auto simp: look_def split: option.splits pyval.splits if_splits)
qed

lemma lookup_add_num:
  "pywf v \<Longrightarrow> \<forall>s \<in> set p. \<not> starts_with (fst s) ''num_'' \<Longrightarrow> lookup p v = Some w \<Longrightarrow>
   lookup p (kv_add_num_keys v) = Some (kv_add_num_keys w)"
proof (induction p arbitrary: v)
  case (Cons s p)
  then obtain d u where d: "v = PDict d" "look s d = Some u" "lookup p u = Some w"
    by (cases v) (auto split: option.splits)
  with Cons have "lookup p (kv_add_num_keys u) = Some (kv_add_num_keys w)"
    using wf.Q_look by auto
  with Cons.prems d look_add_num [of d s u] show ?case by simp
qed simp

end
