(* ===== verification/Payload.thy ===== *)
theory Payload
  imports KvKeys
begin

text \<open>
  The interface of the payload classes. ConfCache and KvStore call a payload
  through its methods, and which class they get depends on the backend: KvPayload
  for the dict, JSON, YAML and TOML stores, IniKvPayload, ConsulKvPayload. The
  methods are the fields of a record, one value of it per class, so that the
  client's definitions take the class as an argument; the laws that the classes
  promise on keys of plain names are the locale \<open>payload_laws\<close>.
\<close>

section \<open>Methods\<close>

record 'p payload_class =
  pl_get :: "'p \<Rightarrow> string \<Rightarrow> 'p \<times> (pyexc + pyval)"
  pl_set :: "'p \<Rightarrow> string \<Rightarrow> pyval \<Rightarrow> 'p \<times> pyexc option"
  pl_delete :: "'p \<Rightarrow> string \<Rightarrow> bool \<Rightarrow> 'p \<times> (pyexc + bool)"
  pl_keys :: "'p \<Rightarrow> bool \<Rightarrow> 'p \<times> (pyexc + string list)"
  pl_search :: "'p \<Rightarrow> string \<Rightarrow> string \<Rightarrow> pyval \<Rightarrow> 'p \<times> (pyexc + string list)"
  pl_add_num_keys :: "'p \<Rightarrow> 'p \<times> pyexc option"

text \<open>The class KvPayload. \<open>pl_keys P p b\<close> is the call \<open>get_keys(key_index=b)\<close>.\<close>

definition kv_class :: "kv_payload payload_class" where
  "kv_class = \<lparr>
     pl_get = (\<lambda>p k. (p, kp_get p k True)),
     pl_set = kp_set,
     pl_delete = kp_delete,
     pl_keys = (\<lambda>p b. (p, case kp_get_keys p [] True b of Inl e \<Rightarrow> Inl e | Inr ks \<Rightarrow> Inr (map the ks))),
     pl_search = (\<lambda>p parent skey sval. (p, kp_search p parent skey sval)),
     pl_add_num_keys = (\<lambda>p. (kp_add_num_keys p, None))\<rparr>"

section \<open>Laws\<close>

text \<open>\<open>inv\<close> is the state a payload of the class keeps, \<open>kok\<close> the keys and
  \<open>vok\<close> the values the laws speak of, \<open>indep\<close> says of two keys that neither lies
  under the other. A get may change the state of the payload object (the Consul
  client counts its calls), but not what the next get returns.\<close>

locale payload_laws =
  fixes P :: "'p payload_class"
    and inv :: "'p \<Rightarrow> bool"
    and kok :: "string \<Rightarrow> bool"
    and vok :: "pyval \<Rightarrow> bool"
    and indep :: "string \<Rightarrow> string \<Rightarrow> bool"
  assumes get_inv: "inv p \<Longrightarrow> inv (fst (pl_get P p k))"
    and get_stable: "inv p \<Longrightarrow> kok k' \<Longrightarrow> snd (pl_get P (fst (pl_get P p k)) k') = snd (pl_get P p k')"
    and set_inv: "inv p \<Longrightarrow> kok k \<Longrightarrow> vok v \<Longrightarrow> inv (fst (pl_set P p k v))"
    and set_same: "inv p \<Longrightarrow> kok k \<Longrightarrow> vok v \<Longrightarrow> pl_set P p k v = (p', None) \<Longrightarrow>
      snd (pl_get P p' k) = Inr v"
    and set_other: "inv p \<Longrightarrow> kok k \<Longrightarrow> kok k' \<Longrightarrow> indep k k' \<Longrightarrow> vok v \<Longrightarrow>
      snd (pl_get P (fst (pl_set P p k v)) k') = snd (pl_get P p k')"
    and delete_inv: "inv p \<Longrightarrow> inv (fst (pl_delete P p k f))"
    and delete_same: "inv p \<Longrightarrow> kok k \<Longrightarrow> pl_delete P p k f = (p', Inr b) \<Longrightarrow>
      snd (pl_get P p' k) = Inr PNone"
    and delete_other: "inv p \<Longrightarrow> kok k \<Longrightarrow> kok k' \<Longrightarrow> indep k k' \<Longrightarrow>
      snd (pl_get P (fst (pl_delete P p k f)) k') = snd (pl_get P p k')"
begin

lemma get_twice: "inv p \<Longrightarrow> kok k \<Longrightarrow> snd (pl_get P (fst (pl_get P p k)) k) = snd (pl_get P p k)"
  by (rule get_stable)

text \<open>Two writes at independent keys are both there afterwards.\<close>

lemma set_set:
  assumes "inv p" "kok k" "kok k'" "indep k' k" "vok v" "vok v'"
    and "pl_set P p k v = (p1, None)" "pl_set P p1 k' v' = (p2, None)"
  shows "snd (pl_get P p2 k) = Inr v" "snd (pl_get P p2 k') = Inr v'" "inv p2"
proof -
  have i1: "inv p1" using set_inv [of p k v] assms by simp
  show "inv p2" using set_inv [of p1 k' v'] assms i1 by simp
  show "snd (pl_get P p2 k') = Inr v'" using set_same [of p1 k' v' p2] assms i1 by simp
  have "snd (pl_get P p2 k) = snd (pl_get P p1 k)"
    using set_other [of p1 k' k v'] assms i1 by simp
  then show "snd (pl_get P p2 k) = Inr v" using set_same [of p k v p1] assms by simp
qed

lemma delete_delete:
  assumes "inv p" "kok k" "kok k'" "indep k' k"
    and "pl_delete P p k f = (p1, Inr b1)" "pl_delete P p1 k' f' = (p2, Inr b2)"
  shows "snd (pl_get P p2 k) = Inr PNone" "snd (pl_get P p2 k') = Inr PNone" "inv p2"
proof -
  have i1: "inv p1" using delete_inv [of p k f] assms by simp
  show "inv p2" using delete_inv [of p1 k' f'] assms i1 by simp
  show "snd (pl_get P p2 k') = Inr PNone" using delete_same [of p1 k' f' p2] assms i1 by simp
  have "snd (pl_get P p2 k) = snd (pl_get P p1 k)"
    using delete_other [of p1 k' k f'] assms i1 by simp
  then show "snd (pl_get P p2 k) = Inr PNone" using delete_same [of p k f p1] assms by simp
qed

end

section \<open>KvPayload keeps the laws\<close>

text \<open>A KvPayload with a delimiter, over a dict with distinct keys.\<close>

definition kp_inv :: "char \<Rightarrow> kv_payload \<Rightarrow> bool" where
  "kp_inv c p \<longleftrightarrow> kp_delim p = [c] \<and> (\<exists>d. kp_data p = PDict d) \<and> pywf (kp_data p) \<and> distinct (kp_keys p)"

definition key_indep :: "char \<Rightarrow> string \<Rightarrow> string \<Rightarrow> bool" where
  "key_indep c k k' \<longleftrightarrow> name_diverge (path_of c k) (path_of c k')"

lemma kv_set_keeps_dict: "\<exists>d'. fst (kv_set c key v (PDict d)) = PDict d'"
proof -
  obtain a rest where sp: "split1 c key = (a, rest)" by (cases "split1 c key") auto
  show ?thesis
  proof (cases "length (key_index_split a) > 1 \<and> py_strip (key_index_split a ! 0) = []")
    case True
    with kv_set_bad [OF sp] show ?thesis by simp
  next
    case False
    with kv_set_dict [OF sp, of v d] show ?thesis by (auto split: option.split prod.split)
  qed
qed

lemma kv_delete_keeps_dict: "kv_delete c key f (PDict d) = Inr (b, data') \<Longrightarrow> \<exists>d'. data' = PDict d'"
  by (erule kv_delete_cases) auto

lemma kp_set_data: "kp_delim p = [c] \<Longrightarrow> kp_data (fst (kp_set p k v)) = fst (kv_set c k v (kp_data p))"
  by (simp add: kp_set_def split: prod.split)

lemma kp_set_delim [simp]: "kp_delim (fst (kp_set p k v)) = kp_delim p"
  by (simp add: kp_set_def split: prod.split list.split)

lemma kp_delete_delim [simp]: "kp_delim (fst (kp_delete p k f)) = kp_delim p"
  by (simp add: kp_delete_def split: prod.split list.split sum.split)

lemma kp_set_inv: "kp_inv c p \<Longrightarrow> pywf v \<Longrightarrow> kp_inv c (fst (kp_set p k v))"
proof -
  assume inv: "kp_inv c p" and v: "pywf v"
  then obtain d where d: "kp_delim p = [c]" "kp_data p = PDict d" by (auto simp: kp_inv_def)
  have "distinct (kp_keys (fst (kp_set p k v)))"
    using inv by (auto simp: kp_inv_def kp_set_def distinct_add_key split: prod.split)
  with inv v d kv_set_wf [of "kp_data p" v c k] kv_set_keeps_dict [of c k v d] show ?thesis
    by (simp add: kp_inv_def kp_set_data)
qed

lemma kp_delete_inv: "kp_inv c p \<Longrightarrow> kp_inv c (fst (kp_delete p k f))"
  by (auto simp: kp_inv_def kp_delete_def simp del: pywf.simps split: sum.split
      dest: kv_delete_keeps_dict kv_delete_wf)

lemma kp_get_plain: "kp_inv c p \<Longrightarrow> plain_key c k \<Longrightarrow>
    kp_get p k True = Inr (case lookup (path_of c k) (kp_data p) of None \<Rightarrow> PNone | Some w \<Rightarrow> w)"
  by (auto simp: kp_inv_def kp_get_def kv_get_plain)

lemma kp_delete_cases:
  assumes "kp_delete p k f = (p', Inr b)" "kp_delim p = [c]"
  shows "kv_delete c k f (kp_data p) = Inr (b, kp_data p')"
  using assms by (auto simp: kp_delete_def split: sum.splits)

lemma lookup_after_delete:
  assumes "plain_key c k" "kv_delete c k f data = Inr (b, data')"
  shows "lookup (path_of c k) data' = None"
proof (cases b)
  case True
  have "snd (last (path_of c k)) = None"
    unfolding plain_path [OF assms(1)] by (simp add: last_map)
  with True kv_delete_true [of c k f data data'] assms(2) show ?thesis by auto
next
  case False
  with kv_delete_false [of c k f data data'] assms(2) show ?thesis by simp
qed

interpretation kvp: payload_laws kv_class "kp_inv c" "plain_key c" pywf "key_indep c" for c
proof unfold_locales
  fix p p' k k' v f b
  assume inv: "kp_inv c p"
  show "kp_inv c (fst (pl_get kv_class p k))" using inv by (simp add: kv_class_def)
  show "snd (pl_get kv_class (fst (pl_get kv_class p k)) k') = snd (pl_get kv_class p k')"
    by (simp add: kv_class_def)
  show "kp_inv c (fst (pl_delete kv_class p k f))"
    using inv by (simp add: kv_class_def kp_delete_inv)
  { assume "pywf v" then show "kp_inv c (fst (pl_set kv_class p k v))"
      using inv by (simp add: kv_class_def kp_set_inv) }
  { assume "plain_key c k" "pywf v" "pl_set kv_class p k v = (p', None)"
    then have "lookup (path_of c k) (kp_data p') = Some v" "kp_inv c p'"
      using inv kv_set_lookup [of c k v "kp_data p"] kp_set_inv [of c p v k]
      by (auto simp: kv_class_def kp_inv_def kp_set_def plain_key_ok split: prod.splits)
    then show "snd (pl_get kv_class p' k) = Inr v"
      using \<open>plain_key c k\<close> by (simp add: kv_class_def kp_get_plain) }
  { assume "plain_key c k'" "key_indep c k k'" "pywf v"
    then show "snd (pl_get kv_class (fst (pl_set kv_class p k v)) k') = snd (pl_get kv_class p k')"
      using inv kp_set_inv [of c p v k] kv_set_frame_eq [of c k "path_of c k'" v "kp_data p"]
      by (simp add: kv_class_def kp_get_plain key_indep_def kp_set_data kp_inv_def) }
  { assume "plain_key c k" "pl_delete kv_class p k f = (p', Inr b)"
    then have "lookup (path_of c k) (kp_data p') = None" "kp_inv c p'"
      using inv kp_delete_cases [of p k f p' b c] kp_delete_inv [of c p k f] lookup_after_delete
      by (auto simp: kv_class_def kp_inv_def)
    then show "snd (pl_get kv_class p' k) = Inr PNone"
      using \<open>plain_key c k\<close> by (simp add: kv_class_def kp_get_plain) }
  { assume k': "plain_key c k'" "key_indep c k k'"
    have "lookup (path_of c k') (kp_data (fst (kp_delete p k f))) = lookup (path_of c k') (kp_data p)"
      using inv k' kv_delete_frame_eq [of c k f "kp_data p" _ _ "path_of c k'"]
      by (auto simp: kp_inv_def kp_delete_def key_indep_def split: sum.split)
    then show "snd (pl_get kv_class (fst (pl_delete kv_class p k f)) k') = snd (pl_get kv_class p k')"
      using inv k' kp_delete_inv [of c p k f] by (simp add: kv_class_def kp_get_plain) }
qed

end
