(* ===== verification/IniStore.thy ===== *)
theory IniStore
  imports Payload
begin

text \<open>
  IniKvPayload of src/py-utils/src/utils/kv_store/kv_store_collection.py: a ConfigParser
  addressed by keys \<open>section>option\<close>. The part of Python's configparser the class uses is
  modelled first: sections in order, the DEFAULT section behind every section, the check
  of a value on set and its interpolation on get, both in the basic syntax \<open>%(name)s\<close>.
\<close>

section \<open>ConfigParser\<close>

type_synonym ini_options = "(string \<times> string) list"

record ini_config =
  ic_sections :: "(string \<times> ini_options) list"
  ic_defaults :: ini_options

abbreviation PCT :: char where "PCT \<equiv> CHR 0x25"

definition cp_add_section :: "ini_config \<Rightarrow> string \<Rightarrow> pyexc + ini_config" where
  "cp_add_section cfg sec =
     (if sec = ''DEFAULT'' then Inl ValueError
      else if sec \<in> fst ` set (ic_sections cfg) then Inl (PyException ''DuplicateSectionError'')
      else Inr (cfg\<lparr>ic_sections := ic_sections cfg @ [(sec, [])]\<rparr>))"

text \<open>\<open>before_set\<close>: what is left of the value without \<open>%%\<close> and \<open>%(name)s\<close> has no percent sign.
  \<open>match_var\<close> is \<open>re.match(r"%\\(([^)]+)\\)s", s)\<close>, the name and the rest.\<close>

definition match_var :: "string \<Rightarrow> (string \<times> string) option" where
  "match_var s = (if take 2 s = [PCT, CHR ''('']
     then (let name = takeWhile (\<lambda>x. x \<noteq> CHR '')'') (drop 2 s); r = dropWhile (\<lambda>x. x \<noteq> CHR '')'') (drop 2 s) in
       if name \<noteq> [] \<and> take 2 r = '')s'' then Some (name, drop 2 r) else None)
     else None)"

lemma match_var_shorter: "match_var s = Some (n, r) \<Longrightarrow> length r < length s"
proof -
  assume "match_var s = Some (n, r)"
  then have r: "r = drop 2 (dropWhile (\<lambda>x. x \<noteq> CHR '')'') (drop 2 s))" and s: "take 2 s = [PCT, CHR ''('']"
    by (auto simp: match_var_def Let_def split: if_splits)
  have "length r \<le> length (drop 2 s)"
    using length_dropWhile_le [of "\<lambda>x. x \<noteq> CHR '')''" "drop 2 s"] by (simp add: r)
  moreover have "2 \<le> length s" using s by (metis length_Cons length_take list.size(3) min.cobounded1 numeral_2_eq_2)
  ultimately show ?thesis by simp
qed

text \<open>\<open>value.replace('%%', '')\<close>, \<open>re.sub(r"%\\(([^)]+)\\)s", '', value)\<close>.\<close>

fun drop_double_pct :: "string \<Rightarrow> string" where
  "drop_double_pct [] = []"
| "drop_double_pct [x] = [x]"
| "drop_double_pct (x # y # s) = (if x = PCT \<and> y = PCT then drop_double_pct s else x # drop_double_pct (y # s))"

function drop_vars :: "string \<Rightarrow> string" where
  "drop_vars s = (case match_var s of
      Some (_, r) \<Rightarrow> drop_vars r
    | None \<Rightarrow> (case s of [] \<Rightarrow> [] | x # s' \<Rightarrow> x # drop_vars s'))"
  by pat_completeness auto
termination
  by (relation "measure length") (auto dest: match_var_shorter)

declare drop_vars.simps [simp del]

definition cp_set :: "ini_config \<Rightarrow> string \<Rightarrow> string \<Rightarrow> pyval \<Rightarrow> pyexc + ini_config" where
  "cp_set cfg sec opt v = (case v of
      PStr t \<Rightarrow>
        if PCT \<in> set (drop_vars (drop_double_pct t)) then Inl ValueError
        else if sec = [] \<or> sec = ''DEFAULT''
          then Inr (cfg\<lparr>ic_defaults := AList.update opt t (ic_defaults cfg)\<rparr>)
        else (case map_of (ic_sections cfg) sec of
            None \<Rightarrow> Inl (PyException ''NoSectionError'')
          | Some os \<Rightarrow> Inr (cfg\<lparr>ic_sections := AList.update sec (AList.update opt t os) (ic_sections cfg)\<rparr>))
    | _ \<Rightarrow> Inl TypeError)"

text \<open>\<open>_interpolate_some\<close>: the text of \<open>rest\<close> with its variables replaced, at most ten
  levels deep.\<close>

function cp_interpolate :: "(string \<rightharpoonup> string) \<Rightarrow> nat \<Rightarrow> string \<Rightarrow> pyexc + string" where
  "cp_interpolate vars depth rest =
     (if 10 < depth then Inl (PyException ''InterpolationDepthError'')
      else case rest of
        [] \<Rightarrow> Inr []
      | x # r \<Rightarrow>
          if x \<noteq> PCT then (case cp_interpolate vars depth r of Inl e \<Rightarrow> Inl e | Inr t \<Rightarrow> Inr (x # t))
          else (case r of
              [] \<Rightarrow> Inl (PyException ''InterpolationSyntaxError'')
            | y # r' \<Rightarrow>
                if y = PCT then (case cp_interpolate vars depth r' of Inl e \<Rightarrow> Inl e | Inr t \<Rightarrow> Inr (PCT # t))
                else if y = CHR ''('' then (case match_var rest of
                    None \<Rightarrow> Inl (PyException ''InterpolationSyntaxError'')
                  | Some (name, r2) \<Rightarrow> (case vars name of
                        None \<Rightarrow> Inl (PyException ''InterpolationMissingOptionError'')
                      | Some w \<Rightarrow>
                          (case (if PCT \<in> set w then cp_interpolate vars (Suc depth) w else Inr w) of
                             Inl e \<Rightarrow> Inl e
                           | Inr t1 \<Rightarrow> (case cp_interpolate vars depth r2 of
                                 Inl e \<Rightarrow> Inl e | Inr t2 \<Rightarrow> Inr (t1 @ t2)))))
                else Inl (PyException ''InterpolationSyntaxError'')))"
  by pat_completeness auto
termination
  by (relation "measures [\<lambda>(vars, depth, rest). 11 - depth, \<lambda>(vars, depth, rest). length rest]")
    (auto dest: match_var_shorter)

declare cp_interpolate.simps [simp del]

text \<open>\<open>get(section, option)\<close>: the outer None is a NoSectionError or NoOptionError.\<close>

definition cp_get :: "ini_config \<Rightarrow> string \<Rightarrow> string \<Rightarrow> (pyexc + string) option" where
  "cp_get cfg sec opt =
     (case (if sec = ''DEFAULT'' then Some [] else map_of (ic_sections cfg) sec) of
        None \<Rightarrow> None
      | Some os \<Rightarrow> (let vars = map_of (ic_defaults cfg) ++ map_of os in
          case vars opt of None \<Rightarrow> None | Some t \<Rightarrow> Some (cp_interpolate vars 1 t)))"

definition cp_options :: "ini_config \<Rightarrow> ini_options \<Rightarrow> string list" where
  "cp_options cfg os = map fst os @ filter (\<lambda>k. k \<notin> fst ` set os) (map fst (ic_defaults cfg))"

section \<open>IniKvPayload\<close>

record ini_payload =
  ip_data :: ini_config
  ip_delim :: string
  ip_keys :: "string list"

definition ini_list_keys :: "string \<Rightarrow> ini_config \<Rightarrow> string list" where
  "ini_list_keys delim cfg =
     concat (map (\<lambda>(sec, os). map (\<lambda>k. sec @ delim @ k) (cp_options cfg os)) (ic_sections cfg))"

definition ini_init :: "ini_config \<Rightarrow> string \<Rightarrow> pyexc + ini_payload" where
  "ini_init cfg delim = (if length delim > 1 then Inl (KvError EINVAL)
     else Inr \<lparr>ip_data = cfg, ip_delim = delim, ip_keys = ini_list_keys delim cfg\<rparr>)"

text \<open>\<open>key.split(delim)\<close> into exactly a section and an option.\<close>

definition ini_split :: "ini_payload \<Rightarrow> string \<Rightarrow> pyexc + string \<times> string" where
  "ini_split p key = (case ip_delim p of
      [] \<Rightarrow> Inl ValueError
    | c # _ \<Rightarrow> (case py_split c key of [s, k] \<Rightarrow> Inr (s, k) | _ \<Rightarrow> Inl (KvError EINVAL)))"

definition ini_get :: "ini_payload \<Rightarrow> string \<Rightarrow> pyexc + pyval" where
  "ini_get p key = (case ini_split p key of
      Inl e \<Rightarrow> Inl e
    | Inr (s, k) \<Rightarrow> (case cp_get (ip_data p) s k of
          None \<Rightarrow> Inr PNone
        | Some (Inl e) \<Rightarrow> Inl e
        | Some (Inr t) \<Rightarrow> Inr (PStr t)))"

definition ini_set :: "ini_payload \<Rightarrow> string \<Rightarrow> pyval \<Rightarrow> ini_payload \<times> pyexc option" where
  "ini_set p key v = (case ini_split p key of
      Inl e \<Rightarrow> (p, Some e)
    | Inr (s, k) \<Rightarrow>
        (case (if s \<in> fst ` set (ic_sections (ip_data p)) then Inr (ip_data p) else cp_add_section (ip_data p) s) of
           Inl e \<Rightarrow> (p, Some e)
         | Inr cfg \<Rightarrow> (case cp_set cfg s k v of
               Inl e \<Rightarrow> (p\<lparr>ip_data := cfg\<rparr>, Some e)
             | Inr cfg' \<Rightarrow> (p\<lparr>ip_data := cfg', ip_keys := add_key key (ip_keys p)\<rparr>, None))))"

text \<open>\<open>remove_option\<close> on the section with the empty name works on the defaults. The
  section goes when no option is left in sight, and its removal is then the result.\<close>

definition cp_remove_option :: "ini_config \<Rightarrow> string \<Rightarrow> ini_options \<Rightarrow> string \<Rightarrow> bool \<times> ini_config \<times> ini_options" where
  "cp_remove_option cfg s os k =
     (if s = [] then (k \<in> fst ` set (ic_defaults cfg), cfg\<lparr>ic_defaults := AList.delete k (ic_defaults cfg)\<rparr>, os)
      else (k \<in> fst ` set os, cfg\<lparr>ic_sections := AList.update s (AList.delete k os) (ic_sections cfg)\<rparr>,
            AList.delete k os))"

definition ini_delete :: "ini_payload \<Rightarrow> string \<Rightarrow> ini_payload \<times> (pyexc + bool)" where
  "ini_delete p key = (case ini_split p key of
      Inl e \<Rightarrow> (p, Inl e)
    | Inr (s, k) \<Rightarrow> (case map_of (ic_sections (ip_data p)) s of
          None \<Rightarrow> (p, Inr False)
        | Some os \<Rightarrow>
            (let (existed, cfg, os') = cp_remove_option (ip_data p) s os k;
                 q = p\<lparr>ip_data := cfg, ip_keys := (if existed then remove1 key (ip_keys p) else ip_keys p)\<rparr> in
             if cp_options cfg os' = []
             then (q\<lparr>ip_data := cfg\<lparr>ic_sections := AList.delete s (ic_sections cfg)\<rparr>\<rparr>, Inr True)
             else (q, Inr existed))))"

definition ini_get_keys :: "ini_payload \<Rightarrow> string \<Rightarrow> bool \<Rightarrow> pyexc + string list" where
  "ini_get_keys p prefix recurse =
     (if recurse then Inr (let ks = ini_list_keys (ip_delim p) (ip_data p) in
          if prefix = [] then ks else filter (\<lambda>k. starts_with k prefix) ks)
      else Inl (KvError ENOSYS))"

text \<open>\<open>search\<close> and \<open>add_num_keys\<close> are those of KvPayload, which look into dicts and
  lists only: the value of the parent key is a string or None here.\<close>

definition ini_search :: "ini_payload \<Rightarrow> string \<Rightarrow> string \<Rightarrow> pyval \<Rightarrow> pyexc + string list" where
  "ini_search p parent skey sval = (case ini_get p parent of
      Inl e \<Rightarrow> Inl e
    | Inr _ \<Rightarrow> Inr (if sval = PNone \<and> last (py_split (hd (ip_delim p)) parent) = skey
        then ini_list_keys (ip_delim p) (ip_data p) else []))"

definition ini_class :: "ini_payload payload_class" where
  "ini_class = \<lparr>
     pl_get = (\<lambda>p k. (p, ini_get p k)),
     pl_set = ini_set,
     pl_delete = (\<lambda>p k f. ini_delete p k),
     pl_keys = (\<lambda>p b. (p, ini_get_keys p [] True)),
     pl_search = (\<lambda>p parent skey sval. (p, ini_search p parent skey sval)),
     pl_add_num_keys = (\<lambda>p. (p, None))\<rparr>"

section \<open>The payload laws\<close>

text \<open>Without a DEFAULT section and without a percent sign in a value (an option could
  refer to another one), the class keeps the laws of a payload on keys of a named
  section.\<close>

definition opts_clean :: "ini_options \<Rightarrow> bool" where
  "opts_clean os \<longleftrightarrow> (\<forall>t \<in> snd ` set os. PCT \<notin> set t)"

definition ini_clean :: "(string \<times> ini_options) list \<Rightarrow> bool" where
  "ini_clean secs \<longleftrightarrow> (\<forall>os \<in> snd ` set secs. opts_clean os)"

lemma opts_clean_update: "opts_clean os \<Longrightarrow> PCT \<notin> set t \<Longrightarrow> opts_clean (AList.update k t os)"
  by (induction os) (auto simp: opts_clean_def)

lemma opts_clean_delete: "opts_clean os \<Longrightarrow> opts_clean (AList.delete k os)"
  by (auto simp: opts_clean_def AList.delete_eq)

lemma opts_clean_map_of: "opts_clean os \<Longrightarrow> map_of os k = Some t \<Longrightarrow> PCT \<notin> set t"
  by (force simp: opts_clean_def dest: map_of_SomeD)

lemma ini_clean_update: "ini_clean secs \<Longrightarrow> opts_clean os \<Longrightarrow> ini_clean (AList.update s os secs)"
  by (induction secs) (auto simp: ini_clean_def)

lemma ini_clean_delete: "ini_clean secs \<Longrightarrow> ini_clean (AList.delete s secs)"
  by (auto simp: ini_clean_def AList.delete_eq)

lemma ini_clean_map_of: "ini_clean secs \<Longrightarrow> map_of secs s = Some os \<Longrightarrow> opts_clean os"
  by (force simp: ini_clean_def dest: map_of_SomeD)

lemmas clean_rules = opts_clean_update opts_clean_delete opts_clean_map_of
  ini_clean_update ini_clean_delete ini_clean_map_of

definition ini_inv :: "char \<Rightarrow> ini_payload \<Rightarrow> bool" where
  "ini_inv c p \<longleftrightarrow> ip_delim p = [c] \<and> ic_defaults (ip_data p) = [] \<and> ini_clean (ic_sections (ip_data p))"

definition ini_key :: "char \<Rightarrow> string \<Rightarrow> bool" where
  "ini_key c key \<longleftrightarrow> (case py_split c key of [s, k] \<Rightarrow> s \<noteq> [] \<and> s \<noteq> ''DEFAULT'' | _ \<Rightarrow> False)"

definition ini_value :: "pyval \<Rightarrow> bool" where
  "ini_value v \<longleftrightarrow> (case v of PStr t \<Rightarrow> PCT \<notin> set t | _ \<Rightarrow> False)"

text \<open>What a key reaches: the raw value in its section.\<close>

definition ini_look :: "ini_config \<Rightarrow> string \<Rightarrow> string \<Rightarrow> string option" where
  "ini_look cfg s k = (case map_of (ic_sections cfg) s of None \<Rightarrow> None | Some os \<Rightarrow> map_of os k)"

lemma ini_keyE:
  assumes "ini_key c key"
  obtains s k where "py_split c key = [s, k]" "s \<noteq> []" "s \<noteq> ''DEFAULT''"
  using assms by (auto simp: ini_key_def split: list.splits)

lemma interpolate_plain: "PCT \<notin> set t \<Longrightarrow> n \<le> 10 \<Longrightarrow> cp_interpolate vars n t = Inr t"
proof (induction t)
  case (Cons x t)
  then show ?case by (auto simp: cp_interpolate.simps [of vars n "x # t"])
qed (simp add: cp_interpolate.simps)

lemma drop_double_id: "PCT \<notin> set t \<Longrightarrow> drop_double_pct t = t"
  by (induction t rule: drop_double_pct.induct) auto

lemma drop_vars_id: "PCT \<notin> set t \<Longrightarrow> drop_vars t = t"
proof (induction t)
  case (Cons x t)
  then have "match_var (x # t) = None" by (cases t) (auto simp: match_var_def)
  with Cons show ?case by (simp add: drop_vars.simps [of "x # t"])
qed (simp add: drop_vars.simps match_var_def)

lemma ini_get_look:
  assumes "ini_inv c p" "py_split c key = [s, k]" "s \<noteq> ''DEFAULT''"
  shows "ini_get p key = Inr (case ini_look (ip_data p) s k of None \<Rightarrow> PNone | Some t \<Rightarrow> PStr t)"
proof (cases "ini_look (ip_data p) s k")
  case None
  with assms show ?thesis
    by (auto simp: ini_get_def ini_split_def ini_inv_def cp_get_def ini_look_def split: option.splits)
next
  case (Some t)
  then obtain os where os: "map_of (ic_sections (ip_data p)) s = Some os" "map_of os k = Some t"
    by (auto simp: ini_look_def split: option.splits)
  have "PCT \<notin> set t" using assms(1) os clean_rules by (meson ini_inv_def)
  with assms os Some show ?thesis
    by (simp add: ini_get_def ini_split_def ini_inv_def cp_get_def interpolate_plain)
qed

text \<open>A set that returns writes the raw value, and only that.\<close>

lemma ini_set_cases:
  assumes "ini_inv c p" "py_split c key = [s, k]" "s \<noteq> []" "s \<noteq> ''DEFAULT''" "PCT \<notin> set t"
  shows "\<exists>p'. ini_set p key (PStr t) = (p', None) \<and> ini_inv c p' \<and>
    (\<forall>s' k'. ini_look (ip_data p') s' k' = (if s' = s \<and> k' = k then Some t else ini_look (ip_data p) s' k'))"
proof -
  have ok: "PCT \<notin> set (drop_vars (drop_double_pct t))"
    using assms(5) by (simp add: drop_double_id drop_vars_id)
  have sp: "ini_split p key = Inr (s, k)" using assms(1,2) by (simp add: ini_inv_def ini_split_def)
  let ?secs = "ic_sections (ip_data p)"
  let ?secs' = "if s \<in> fst ` set ?secs then ?secs else ?secs @ [(s, [])]"
  have old: "map_of ?secs s = None" if "s \<notin> fst ` set ?secs" using that by (simp add: map_of_eq_None_iff)
  obtain os where os: "map_of ?secs' s = Some os"
    by (cases "s \<in> fst ` set ?secs") (auto simp: map_of_eq_None_iff old map_add_def dest: weak_map_of_SomeI)
  let ?new = "AList.update s (AList.update k t os) ?secs'"
  have set: "ini_set p key (PStr t) = (p\<lparr>ip_data := (ip_data p)\<lparr>ic_sections := ?new\<rparr>,
      ip_keys := add_key key (ip_keys p)\<rparr>, None)"
    using sp ok os assms(3,4)
    by (cases "s \<in> fst ` set ?secs") (simp_all add: ini_set_def cp_add_section_def cp_set_def)
  have "ini_clean ?secs'" using assms(1) by (auto simp: ini_inv_def ini_clean_def opts_clean_def)
  then have "ini_clean ?new"
    using ini_clean_map_of [OF _ os] assms(5) by (simp add: opts_clean_update ini_clean_update del: if_split)
  then have inv: "ini_inv c (p\<lparr>ip_data := (ip_data p)\<lparr>ic_sections := ?new\<rparr>, ip_keys := add_key key (ip_keys p)\<rparr>)"
    using assms(1) by (simp add: ini_inv_def)
  have look: "ini_look ((ip_data p)\<lparr>ic_sections := ?new\<rparr>) s' k' =
      (if s' = s \<and> k' = k then Some t else ini_look (ip_data p) s' k')" for s' k'
  proof (cases "s' = s")
    case True
    have "(case map_of ?secs s of None \<Rightarrow> None | Some os \<Rightarrow> map_of os k') = map_of os k'"
      using os old by (auto split: if_splits option.splits simp: map_add_def)
    with True show ?thesis by (simp add: ini_look_def AList.update_conv')
  next
    case False
    have "map_of ?secs' s' = map_of ?secs s'"
      using False by (simp add: map_add_def split: option.split)
    with False show ?thesis by (simp add: ini_look_def AList.update_conv' del: if_split)
  qed
  with set inv show ?thesis by simp
qed

lemma ini_delete_cases:
  assumes "ini_inv c p"
  shows "ini_inv c (fst (ini_delete p key))"
    and "py_split c key = [s, k] \<Longrightarrow> s \<noteq> [] \<Longrightarrow> \<exists>b. snd (ini_delete p key) = Inr b \<and>
      (\<forall>s' k'. ini_look (ip_data (fst (ini_delete p key))) s' k' =
         (if s' = s \<and> k' = k then None else ini_look (ip_data p) s' k'))"
proof -
  let ?secs = "ic_sections (ip_data p)"
  have P: "ini_clean ?secs" and dl: "ip_delim p = [c]" and df: "ic_defaults (ip_data p) = []"
    using assms by (simp_all add: ini_inv_def)
  show "ini_inv c (fst (ini_delete p key))"
  proof (cases "ini_split p key")
    case (Inr sk)
    obtain s k where "sk = (s, k)" by (cases sk)
    show ?thesis
    proof (cases "map_of ?secs s")
      case (Some os)
      obtain e cfg os' where r: "cp_remove_option (ip_data p) s os k = (e, cfg, os')" by (cases "cp_remove_option (ip_data p) s os k") auto
      have "ic_defaults cfg = []" "ini_clean (ic_sections cfg)"
        using r df P ini_clean_map_of [OF P Some]
        by (auto simp: cp_remove_option_def split: if_splits intro!: ini_clean_update opts_clean_delete)
      with Inr \<open>sk = (s, k)\<close> Some r dl show ?thesis
        by (simp add: ini_delete_def ini_inv_def Let_def ini_clean_delete)
    qed (use Inr \<open>sk = (s, k)\<close> assms in \<open>simp add: ini_delete_def\<close>)
  qed (use assms in \<open>simp add: ini_delete_def\<close>)
  assume sp: "py_split c key = [s, k]" and s: "s \<noteq> []"
  then have sp: "ini_split p key = Inr (s, k)" using dl by (simp add: ini_split_def)
  show "\<exists>b. snd (ini_delete p key) = Inr b \<and>
      (\<forall>s' k'. ini_look (ip_data (fst (ini_delete p key))) s' k' =
         (if s' = s \<and> k' = k then None else ini_look (ip_data p) s' k'))"
  proof (cases "map_of ?secs s")
    case None
    with sp show ?thesis by (auto simp: ini_delete_def ini_look_def)
  next
    case (Some os)
    have e: "AList.delete k os = [] \<Longrightarrow> k' \<noteq> k \<Longrightarrow> map_of os k' = None" for k'
      by (metis AList.delete_conv' fun_upd_apply map_of.simps(1))
    from Some sp s df show ?thesis
      by (auto simp: ini_delete_def cp_remove_option_def cp_options_def ini_look_def AList.update_conv'
          AList.delete_conv' e Let_def split: option.split)
  qed
qed

lemma ini_indep: "py_split c key = [s, k] \<Longrightarrow> py_split c key' = [s', k'] \<Longrightarrow> key \<noteq> key' \<Longrightarrow> s' = s \<Longrightarrow> k' \<noteq> k"
  by (metis py_join_split)

interpretation inil: payload_laws ini_class "ini_inv c" "ini_key c" ini_value "(\<noteq>)" for c
proof unfold_locales
  fix p p' k k' v f b
  assume inv: "ini_inv c p"
  show "ini_inv c (fst (pl_get ini_class p k))" using inv by (simp add: ini_class_def)
  show "snd (pl_get ini_class (fst (pl_get ini_class p k)) k') = snd (pl_get ini_class p k')"
    by (simp add: ini_class_def)
  show "ini_inv c (fst (pl_delete ini_class p k f))"
    using ini_delete_cases(1) [OF inv] by (simp add: ini_class_def)
  { assume "ini_key c k" "ini_value v"
    then obtain s o' t where k: "py_split c k = [s, o']" "s \<noteq> []" "s \<noteq> ''DEFAULT''" and v: "v = PStr t" "PCT \<notin> set t"
      by (auto simp: ini_value_def split: pyval.splits elim: ini_keyE)
    obtain q where q: "ini_set p k v = (q, None)" "ini_inv c q"
        "\<forall>s' k'. ini_look (ip_data q) s' k' = (if s' = s \<and> k' = o' then Some t else ini_look (ip_data p) s' k')"
      using ini_set_cases [OF inv k v(2)] v(1) by blast
    show "ini_inv c (fst (pl_set ini_class p k v))" using q by (simp add: ini_class_def)
    { assume "pl_set ini_class p k v = (p', None)"
      then show "snd (pl_get ini_class p' k) = Inr v"
        using q k v ini_get_look [OF q(2) k(1,3)] by (simp add: ini_class_def) }
    { assume "ini_key c k'" "k \<noteq> k'"
      then obtain s1 o1 where k': "py_split c k' = [s1, o1]" "s1 \<noteq> ''DEFAULT''" by (auto elim: ini_keyE)
      show "snd (pl_get ini_class (fst (pl_set ini_class p k v)) k') = snd (pl_get ini_class p k')"
        using ini_get_look [OF q(2) k'] ini_get_look [OF inv k'] q(1,3) ini_indep [OF k(1) k'(1) \<open>k \<noteq> k'\<close>]
        by (auto simp: ini_class_def) } }
  assume "ini_key c k"
  then obtain s o' where k: "py_split c k = [s, o']" "s \<noteq> []" "s \<noteq> ''DEFAULT''" by (elim ini_keyE)
  note d = ini_delete_cases [OF inv, of k]
  { assume "pl_delete ini_class p k f = (p', Inr b)"
    then have "fst (ini_delete p k) = p'" by (simp add: ini_class_def)
    then show "snd (pl_get ini_class p' k) = Inr PNone"
      using d(2) [OF k(1,2)] ini_get_look [OF d(1) k(1,3)] by (auto simp: ini_class_def) }
  { assume "ini_key c k'" "k \<noteq> k'"
    then obtain s1 o1 where k': "py_split c k' = [s1, o1]" "s1 \<noteq> ''DEFAULT''" by (auto elim: ini_keyE)
    have "ini_look (ip_data (fst (ini_delete p k))) s1 o1 = ini_look (ip_data p) s1 o1"
      using d(2) [OF k(1,2)] ini_indep [OF k(1) k'(1) \<open>k \<noteq> k'\<close>] by auto
    then show "snd (pl_get ini_class (fst (pl_delete ini_class p k f)) k') = snd (pl_get ini_class p k')"
      using ini_get_look [OF d(1) k'] ini_get_look [OF inv k'] by (simp add: ini_class_def) }
qed

section \<open>Properties\<close>

text \<open>Claim C33. On an INI payload set stores a value that get returns, delete takes it away
  again, and neither touches another key of the file.\<close>

theorem ini_set_get_delete:
  assumes "ini_inv c p" "ini_key c key" "ini_value v" "ini_set p key v = (p1, e)" "ini_delete p1 key = (p2, r)"
  shows "e = None \<and> ini_get p1 key = Inr v \<and> isl r = False \<and> ini_get p2 key = Inr PNone \<and>
    (\<forall>k'. ini_key c k' \<and> k' \<noteq> key \<longrightarrow> ini_get p1 k' = ini_get p k' \<and> ini_get p2 k' = ini_get p k')"
proof -
  obtain s o' where k: "py_split c key = [s, o']" "s \<noteq> []" "s \<noteq> ''DEFAULT''" using assms(2) by (elim ini_keyE)
  obtain t where v: "v = PStr t" "PCT \<notin> set t" using assms(3) by (auto simp: ini_value_def split: pyval.splits)
  have e: "e = None" using ini_set_cases [OF assms(1) k v(2)] assms(4) v(1) by auto
  have i1: "ini_inv c p1" using inil.set_inv [OF assms(1-3)] assms(4) by (simp add: ini_class_def)
  obtain b where r: "r = Inr b" using ini_delete_cases(2) [OF i1 k(1,2)] assms(5) by auto
  have d: "pl_delete ini_class p1 key False = (p2, Inr b)" using assms(5) r by (simp add: ini_class_def)
  have "ini_get p1 key = Inr v"
    using inil.set_same [OF assms(1-3), of p1] assms(4) e by (simp add: ini_class_def)
  moreover have "ini_get p2 key = Inr PNone"
    using inil.delete_same [OF i1 assms(2) d] by (simp add: ini_class_def)
  moreover have "ini_get p1 k' = ini_get p k' \<and> ini_get p2 k' = ini_get p k'" if "ini_key c k'" "k' \<noteq> key" for k'
    using inil.set_other [OF assms(1,2) that(1) _ assms(3)] inil.delete_other [OF i1 assms(2) that(1), of False]
      that(2) assms(4) d by (simp add: ini_class_def)
  ultimately show ?thesis using e r by simp
qed

definition sample_ini :: ini_payload where
  "sample_ini = \<lparr>ip_data = \<lparr>ic_sections = [(''db'', [(''host'', ''h1''), (''port'', ''80'')])], ic_defaults = []\<rparr>,
     ip_delim = ''>'', ip_keys = [''db>host'', ''db>port'']\<rparr>"

theorem ini_set_get_delete_witness:
  "ini_get (fst (ini_set sample_ini ''log>level'' (PStr ''info''))) ''log>level'' = Inr (PStr ''info'') \<and>
   ini_get (fst (ini_delete (fst (ini_set sample_ini ''log>level'' (PStr ''info''))) ''log>level'')) ''db>port''
     = Inr (PStr ''80'')"
proof -
  let ?p1 = "fst (ini_set sample_ini ''log>level'' (PStr ''info''))"
  have i: "ini_inv (CHR ''>'') sample_ini" by code_simp
  have k: "ini_key (CHR ''>'') ''log>level''" "ini_key (CHR ''>'') ''db>port''" by code_simp+
  have v: "ini_value (PStr ''info'')" by code_simp
  have g: "ini_get sample_ini ''db>port'' = Inr (PStr ''80'')" by code_simp
  from ini_set_get_delete [OF i k(1) v surjective_pairing surjective_pairing] k(2) g show ?thesis by simp
qed

end
