(* ===== verification/KvProps.thy ===== *)
theory KvProps
  imports Payload
begin

text \<open>
  The properties of KvPayload, stated on the payload object: what get, set, delete,
  get_keys and add_num_keys do to each other.
\<close>

section \<open>Shallow and deep reading agree\<close>

lemma kv_shallow_get_plain:
  "plain_key c key \<Longrightarrow> kv_shallow_get c key (PDict d) = kv_get c key (PDict d) \<or>
   (kv_shallow_get c key (PDict d) = Inl AttributeError \<and> kv_get c key (PDict d) = Inr PNone)"
proof (induction "length key" arbitrary: key d rule: less_induct)
  case less
  obtain a rest where sp: "split1 c key = (a, rest)" by (cases "split1 c key") auto
  show ?case
  proof (cases rest)
    case None
    with sp less.prems show ?thesis
      by (auto simp: kv_get.simps [of c key] kv_shallow_get.simps [of c key] kv_get_leaf_def key_simps
          plain_key_None split: option.split)
  next
    case (Some r)
    with sp less.prems have a: "CHR ''['' \<notin> set a" "py_strip a \<noteq> []" "plain_key c r"
      by (auto simp: plain_key_Some)
    have IH: "kv_shallow_get c r (PDict e) = kv_get c r (PDict e) \<or>
      (kv_shallow_get c r (PDict e) = Inl AttributeError \<and> kv_get c r (PDict e) = Inr PNone)" for e
      using less.hyps a(3) sp Some split1_rest_shorter by blast
    have nd: "\<forall>d. w \<noteq> PDict d \<Longrightarrow> kv_shallow_get c r w = Inl AttributeError" for w
      using a(3) by (cases "split1 c r"; cases "snd (split1 c r)"; cases w)
        (auto simp: kv_shallow_get.simps [of c r] key_simps plain_key_None plain_key_Some)
    show ?thesis
    proof (cases "map_of d a")
      case (Some w)
      with sp \<open>rest = Some r\<close> a IH nd show ?thesis
        by (cases w) (simp_all add: kv_get.simps [of c key] kv_shallow_get.simps [of c key] key_simps)
    qed (use sp Some a in \<open>simp add: kv_get.simps [of c key] kv_shallow_get.simps [of c key] key_simps\<close>)
  qed
qed

section \<open>Properties\<close>

text \<open>Claim C1. After a set of a well-formed key (\<open>key_ok\<close>) that raised nothing, get of the same key returns the
  value that was set, whatever the nesting and the indexes of the key.\<close>

theorem payload_set_get:
  assumes "kp_delim p = [c]" "key_ok c key" "kp_set p key v = (p', None)"
  shows "kp_get p' key True = Inr v"
proof -
  have "lookup (path_of c key) (kp_data p') = Some v"
    using assms kv_set_lookup [of c key v "kp_data p"] by (auto simp: kp_set_def split: prod.splits)
  moreover have "kp_delim p' = [c]" using assms kp_set_delim [of p key v] by simp
  ultimately show ?thesis using assms(2) by (simp add: kp_get_def kv_get_found)
qed

text \<open>A payload with a list and a nested dict, delimiter \<open>>\<close>.\<close>

definition sample_payload :: kv_payload where
  "sample_payload = \<lparr>kp_data = PDict [(''a'', PList [PStr ''x'', PDict [(''b'', PInt 5)]]), (''n'', PInt 7)],
     kp_delim = ''>'', kp_keys = [''a[0]'', ''a[1]>b'', ''n'']\<rparr>"

theorem payload_set_get_witness:
  "kp_get (fst (kp_set sample_payload ''a[3]>c'' (PInt 1))) ''a[3]>c'' True = Inr (PInt 1)"
proof (rule payload_set_get [where p = sample_payload and c = "CHR ''>''" and key = "''a[3]>c''"])
  show "kp_delim sample_payload = ''>''" by (simp add: sample_payload_def)
  show "key_ok CHR ''>'' ''a[3]>c''" by code_simp
  show "kp_set sample_payload ''a[3]>c'' (PInt 1) =
      (fst (kp_set sample_payload ''a[3]>c'' (PInt 1)), None)" by code_simp
qed


text \<open>Claim C2. A set, whether it succeeds or raises, changes no value at a key that
  parts from the one set at a different name or at a different index.\<close>

theorem payload_set_keeps:
  assumes "kp_delim p = [c]" "key_ok c key'" "diverge (path_of c key) (path_of c key')"
    and "lookup (path_of c key') (kp_data p) = Some w"
  shows "kp_get (fst (kp_set p key v)) key' True = Inr w"
proof -
  have "lookup (path_of c key') (kp_data (fst (kp_set p key v))) = Some w"
    using assms by (simp add: kp_set_data kv_set_frame)
  then show ?thesis using assms by (simp add: kp_get_def kv_get_found)
qed

theorem payload_set_keeps_witness:
  "kp_get (fst (kp_set sample_payload ''a[0]>z'' PNone)) ''a[1]>b'' True = Inr (PInt 5)"
  by (rule payload_set_keeps [where c = "CHR ''>''"]; code_simp)

text \<open>Claim C31. A set of a valid key fails exactly when a number or None stands where the
  key has to descend, and then with an AttributeError.\<close>

theorem payload_set_error:
  assumes "kp_delim p = [c]" "key_ok c key"
  shows "snd (kp_set p key v) = (if blocked (path_of c key) (kp_data p) then Some AttributeError else None)"
  using assms kv_set_error [of c key v "kp_data p"]
  by (cases "kv_set c key v (kp_data p)") (simp add: kp_set_def)

theorem payload_set_error_witness:
  "snd (kp_set sample_payload ''n>x'' PNone) =
     (if blocked (path_of CHR ''>'' ''n>x'') (kp_data sample_payload) then Some AttributeError else None)
   \<and> blocked (path_of CHR ''>'' ''n>x'') (kp_data sample_payload)"
  using payload_set_error [of sample_payload "CHR ''>''" "''n>x''" PNone]
  by (auto simp: sample_payload_def) code_simp+

text \<open>Claim C27. delete returns True exactly if the key reached a value; the value is gone
  afterwards (an element inside a list leaves an empty string), and every value at a
  key that parts from the deleted one stays. When it returns False nothing changed.\<close>

theorem payload_delete:
  assumes "kp_delim p = [c]" "kp_delete p key force = (p', Inr b)"
  shows "(b \<longleftrightarrow> lookup (path_of c key) (kp_data p) \<noteq> None) \<and>
    lookup (path_of c key) (kp_data p') \<in> {None, Some (PStr [])} \<and>
    (plain_key c key \<longrightarrow> lookup (path_of c key) (kp_data p') = None) \<and>
    (\<not> b \<longrightarrow> p' = p) \<and>
    (\<forall>q u. diverge (path_of c key) q \<and> lookup q (kp_data p) = Some u \<longrightarrow> lookup q (kp_data p') = Some u)"
proof -
  have d: "kv_delete c key force (kp_data p) = Inr (b, kp_data p')"
    using kp_delete_cases assms by blast
  have gone: "plain_key c key \<longrightarrow> lookup (path_of c key) (kp_data p') = None"
    using lookup_after_delete d by blast
  have frame: "\<forall>q u. diverge (path_of c key) q \<and> lookup q (kp_data p) = Some u \<longrightarrow> lookup q (kp_data p') = Some u"
    using kv_delete_frame d by blast
  show ?thesis
  proof (cases b)
    case True
    with d have "kv_delete c key force (kp_data p) = Inr (True, kp_data p')" by simp
    note t = kv_delete_true [OF this]
    have "b \<longleftrightarrow> lookup (path_of c key) (kp_data p) \<noteq> None"
      and "lookup (path_of c key) (kp_data p') \<in> {None, Some (PStr [])}"
      and "\<not> b \<longrightarrow> p' = p"
      using t True by blast+
    then show ?thesis using gone frame by blast
  next
    case False
    then have "kp_data p' = kp_data p \<and> lookup (path_of c key) (kp_data p) = None"
      using kv_delete_false [of c key force "kp_data p" "kp_data p'"] d by simp
    moreover have "p' = p\<lparr>kp_data := kp_data p'\<rparr>"
      using assms d False by (simp add: kp_delete_def)
    then have "p' = p" using calculation by (cases p) simp
    ultimately show ?thesis using False by simp
  qed
qed

theorem payload_delete_witness:
  "lookup (path_of CHR ''>'' ''a[0]'') (kp_data (fst (kp_delete sample_payload ''a[0]'' False))) \<in> {None, Some (PStr [])}"
proof -
  have "kp_delim sample_payload = ''>''" by (simp add: sample_payload_def)
  moreover have "kp_delete sample_payload ''a[0]'' False = (fst (kp_delete sample_payload ''a[0]'' False), Inr True)"
    by code_simp
  ultimately show ?thesis using payload_delete by blast
qed

text \<open>The recursive key listing of a dict of well-formed names is, without
  repetition, the keys of the paths that reach a string or an integer, and get
  returns that value for each of them.\<close>

lemma payload_get_keys:
  assumes "kp_delim p = [c]" "delim_ok c" "kp_data p = PDict d" "pywf (PDict d)" "names_ok_dict c d"
  shows "\<exists>ks. kp_get_keys p [] True True = Inr (map Some ks) \<and> distinct ks \<and>
    set ks = {render c q | q. path_ok c q \<and> (\<exists>v. lookup q (PDict d) = Some v \<and> is_str_int v)} \<and>
    (\<forall>k \<in> set ks. \<exists>v. kp_get p k True = Inr v \<and> is_str_int v)"
proof -
  let ?ks = "kv_keys [c] True (PDict d) None []"
  have "distinct ?ks"
    unfolding kv_keys_render [OF assms(5)] by (simp add: distinct_fold_add_key)
  moreover have "set ?ks = {render c q | q. path_ok c q \<and> (\<exists>v. lookup q (PDict d) = Some v \<and> is_str_int v)}"
    using mem_kv_keys [OF assms(2,4,5)] by blast
  moreover have "\<forall>k \<in> set ?ks. \<exists>v. kp_get p k True = Inr v \<and> is_str_int v"
    using kv_keys_get [OF assms(2,4,5)] assms(1,3) by (simp add: kp_get_def del: kv_keys.simps)
  ultimately show ?thesis
    using assms(1,3) by (intro exI [of _ ?ks]) (simp add: kp_get_keys_def del: kv_keys.simps)
qed

theorem payload_get_keys_witness:
  "\<exists>ks. kp_get_keys sample_payload [] True True = Inr (map Some ks) \<and> distinct ks \<and>
    set ks = {render CHR ''>'' q | q. path_ok CHR ''>'' q \<and> (\<exists>v. lookup q (kp_data sample_payload) = Some v \<and> is_str_int v)} \<and>
    (\<forall>k \<in> set ks. \<exists>v. kp_get sample_payload k True = Inr v \<and> is_str_int v)"
proof -
  obtain d where d: "kp_data sample_payload = PDict d" by (simp add: sample_payload_def)
  show ?thesis unfolding d
  proof (rule payload_get_keys [OF _ _ d])
    show "kp_delim sample_payload = [CHR ''>'']" by (simp add: sample_payload_def)
    show "delim_ok CHR ''>''" by code_simp
    show "pywf (PDict d)" using d by (auto simp: sample_payload_def)
    show "names_ok_dict CHR ''>'' d"
      using d by (auto simp: sample_payload_def name_ok_def py_strip_def is_space_def)
  qed
qed

text \<open>add_num_keys is idempotent, and it puts next to every list the number of
  its elements.\<close>

lemma payload_add_num_keys:
  assumes "pywf (kp_data p)" "kp_data p = PDict d"
  shows "kp_add_num_keys (kp_add_num_keys p) = kp_add_num_keys p \<and>
    (\<forall>k xs. map_of d k = Some (PList xs) \<longrightarrow>
      lookup [(num_key k, None)] (kp_data (kp_add_num_keys p)) = Some (PInt (int (length xs)))) \<and>
    (\<forall>q w. (\<forall>s \<in> set q. \<not> starts_with (fst s) ''num_'') \<and> lookup q (kp_data p) = Some w \<longrightarrow>
      lookup q (kp_data (kp_add_num_keys p)) = Some (kv_add_num_keys w))"
proof -
  have "lookup [(num_key k, None)] (kp_data (kp_add_num_keys p)) = Some (PInt (int (length xs)))"
    if "map_of d k = Some (PList xs)" for k xs
    unfolding kp_add_num_keys_def using lookup_num_key [OF _ that] assms by simp
  then show ?thesis
    using assms(1) by (simp add: kp_add_num_keys_def add_num_idem lookup_add_num)
qed

theorem payload_add_num_keys_witness:
  "kp_add_num_keys (kp_add_num_keys sample_payload) = kp_add_num_keys sample_payload \<and>
   lookup [(num_key ''a'', None)] (kp_data (kp_add_num_keys sample_payload)) = Some (PInt 2)"
proof -
  have "pywf (kp_data sample_payload)" by (simp add: sample_payload_def)
  moreover have "kp_data sample_payload = PDict [(''a'', PList [PStr ''x'', PDict [(''b'', PInt 5)]]), (''n'', PInt 7)]"
    by (simp add: sample_payload_def)
  ultimately show ?thesis using payload_add_num_keys by fastforce
qed

text \<open>On a key of plain names the shallow read returns what the recursive one
  returns, except below a value that is no dict, where it raises an AttributeError
  and the recursive read returns None.\<close>

lemma payload_shallow_get:
  assumes "kp_delim p = [c]" "kp_data p = PDict d" "plain_key c key"
  shows "kp_get p key False = kp_get p key True \<or>
    (kp_get p key False = Inl AttributeError \<and> kp_get p key True = Inr PNone)"
  using assms kv_shallow_get_plain [of c key d] by (simp add: kp_get_def)

theorem payload_shallow_get_witness:
  "kp_get sample_payload ''n>x'' False = kp_get sample_payload ''n>x'' True \<or>
    (kp_get sample_payload ''n>x'' False = Inl AttributeError \<and> kp_get sample_payload ''n>x'' True = Inr PNone)"
  by (rule payload_shallow_get [where c = "CHR ''>''"]; (simp add: sample_payload_def)?; code_simp)

section \<open>Listed keys are distinct\<close>

lemma distinct_kv_keys:
  "distinct keys \<Longrightarrow> distinct (kv_keys dl ki v pkey keys)"
  "distinct keys \<Longrightarrow> distinct (kv_keys_list dl ki xs i pkey keys)"
  "distinct keys \<Longrightarrow> distinct (kv_keys_dict dl ki d pkey keys)"
proof (induction dl ki v pkey keys and dl ki xs i pkey keys and dl ki d pkey keys
      rule: kv_keys_kv_keys_list_kv_keys_dict.induct)
  case (5 dl ki x xs i pkey keys)
  let ?suf = "if ki then idx_suffix i else []"
  have "distinct (case x of PDict d \<Rightarrow> kv_keys_dict dl ki d
        (if pkey = None \<or> pkey = Some [] then None else Some (the pkey @ ?suf)) keys
      | _ \<Rightarrow> if is_str_int x then add_key (pkey_str pkey @ ?suf) keys else keys)"
    using 5(1) [OF refl _ 5(3)] 5(3) by (cases x) (simp_all add: distinct_add_key)
  then show ?case unfolding kv_keys_list.simps Let_def by (rule 5(2) [OF refl refl])
next
  case (7 dl ki k v d pkey keys)
  have "distinct (if is_list_dict v then kv_keys dl ki v (Some (sub_key dl pkey k)) keys
      else if is_str_int v then add_key (sub_key dl pkey k) keys else keys)"
    using 7(1) [OF refl _ 7(3)] 7(3) by (simp add: distinct_add_key)
  then show ?case unfolding kv_keys_dict.simps Let_def by (rule 7(2) [OF refl refl])
qed simp_all

end
