(* ===== verification/KvStore.thy ===== *)
theory KvStore
  imports KvProps
begin

text \<open>
  The base class KvStore of src/py-utils/src/utils/kv_store/kv_store.py: every
  operation loads a payload from the backend, works on it and dumps it back.

  A store class is a record of its two primitive methods, load and dump, over a
  state \<open>'s\<close> (the object with what it persists). \<open>sc_share s p\<close> is what the
  object sees of a payload's changes before any dump: nothing for a store whose
  payload is a fresh dict, the shared parser or client object for the others.
  The client laws are the locale \<open>store_laws\<close>, which extends the payload laws.
\<close>

section \<open>Methods\<close>

record ('s, 'p) store_class =
  sc_load :: "'s \<Rightarrow> bool \<Rightarrow> 's \<times> (pyexc + 'p)"
  sc_dump :: "'s \<Rightarrow> 'p \<Rightarrow> 's \<times> pyexc option"
  sc_share :: "'s \<Rightarrow> 'p \<Rightarrow> 's"

text \<open>The class KvStore itself implements neither.\<close>

definition ks_load :: "'s \<Rightarrow> bool \<Rightarrow> 's \<times> (pyexc + 'p)" where
  "ks_load s recurse = (s, Inl (KvError ENOSYS))"

definition ks_dump :: "'s \<Rightarrow> 'p \<Rightarrow> 's \<times> pyexc option" where
  "ks_dump s p = (s, Some (KvError ENOSYS))"

text \<open>The loops over the payload. Each stops at the first exception.\<close>

fun get_all :: "'p payload_class \<Rightarrow> 'p \<Rightarrow> string list \<Rightarrow> 'p \<times> (pyexc + pyval list)" where
  "get_all P p [] = (p, Inr [])"
| "get_all P p (k # ks) = (case pl_get P p k of
      (p', Inl e) \<Rightarrow> (p', Inl e)
    | (p', Inr v) \<Rightarrow> (case get_all P p' ks of
          (q, Inl e) \<Rightarrow> (q, Inl e)
        | (q, Inr vs) \<Rightarrow> (q, Inr (v # vs))))"

fun set_all :: "'p payload_class \<Rightarrow> 'p \<Rightarrow> (string \<times> pyval) list \<Rightarrow> 'p \<times> pyexc option" where
  "set_all P p [] = (p, None)"
| "set_all P p ((k, v) # kvs) = (case pl_set P p k v of
      (p', Some e) \<Rightarrow> (p', Some e)
    | (p', None) \<Rightarrow> set_all P p' kvs)"

fun delete_all :: "'p payload_class \<Rightarrow> 'p \<Rightarrow> string list \<Rightarrow> 'p \<times> pyexc option" where
  "delete_all P p [] = (p, None)"
| "delete_all P p (k # ks) = (case pl_delete P p k False of
      (p', Inl e) \<Rightarrow> (p', Some e)
    | (p', Inr _) \<Rightarrow> delete_all P p' ks)"

definition ks_get :: "'p payload_class \<Rightarrow> ('s, 'p) store_class \<Rightarrow> 's \<Rightarrow> string list \<Rightarrow>
    's \<times> (pyexc + pyval list)" where
  "ks_get P C s keys = (case sc_load C s True of
      (s', Inl e) \<Rightarrow> (s', Inl e)
    | (s', Inr p) \<Rightarrow> (case get_all P p keys of (q, r) \<Rightarrow> (sc_share C s' q, r)))"

text \<open>The end of set, delete and add_num_keys: dump if the loop raised nothing.\<close>

definition dump_after :: "('s, 'p) store_class \<Rightarrow> 's \<Rightarrow> 'p \<times> pyexc option \<Rightarrow> 's \<times> pyexc option" where
  "dump_after C s r = (case r of
      (q, Some e) \<Rightarrow> (sc_share C s q, Some e)
    | (q, None) \<Rightarrow> sc_dump C (sc_share C s q) q)"

definition ks_set :: "'p payload_class \<Rightarrow> ('s, 'p) store_class \<Rightarrow> 's \<Rightarrow> string list \<Rightarrow> pyval list \<Rightarrow>
    's \<times> pyexc option" where
  "ks_set P C s keys vals =
     (if length keys \<noteq> length vals then (s, Some (KvError EINVAL))
      else case sc_load C s True of
        (s', Inl e) \<Rightarrow> (s', Some e)
      | (s', Inr p) \<Rightarrow> dump_after C s' (set_all P p (zip keys vals)))"

definition ks_delete :: "'p payload_class \<Rightarrow> ('s, 'p) store_class \<Rightarrow> 's \<Rightarrow> string list \<Rightarrow>
    's \<times> pyexc option" where
  "ks_delete P C s keys = (case sc_load C s True of
      (s', Inl e) \<Rightarrow> (s', Some e)
    | (s', Inr p) \<Rightarrow> dump_after C s' (delete_all P p keys))"

definition ks_search :: "'p payload_class \<Rightarrow> ('s, 'p) store_class \<Rightarrow> 's \<Rightarrow> string \<Rightarrow> string \<Rightarrow> pyval \<Rightarrow>
    's \<times> (pyexc + string list)" where
  "ks_search P C s parent skey sval = (case sc_load C s True of
      (s', Inl e) \<Rightarrow> (s', Inl e)
    | (s', Inr p) \<Rightarrow> (case pl_search P p parent skey sval of (q, r) \<Rightarrow> (sc_share C s' q, r)))"

text \<open>\<open>get_keys(prefix)\<close>: the filter object of the code, read to its end.\<close>

definition ks_get_keys :: "'p payload_class \<Rightarrow> ('s, 'p) store_class \<Rightarrow> 's \<Rightarrow> string \<Rightarrow>
    's \<times> (pyexc + string list)" where
  "ks_get_keys P C s prefix = (case sc_load C s True of
      (s', Inl e) \<Rightarrow> (s', Inl e)
    | (s', Inr p) \<Rightarrow> (case pl_keys P p True of
          (q, Inl e) \<Rightarrow> (sc_share C s' q, Inl e)
        | (q, Inr ks) \<Rightarrow> (sc_share C s' q, Inr (filter (\<lambda>k. starts_with k prefix) ks))))"

definition ks_add_num_keys :: "'p payload_class \<Rightarrow> ('s, 'p) store_class \<Rightarrow> 's \<Rightarrow> 's \<times> pyexc option" where
  "ks_add_num_keys P C s = (case sc_load C s True of
      (s', Inl e) \<Rightarrow> (s', Some e)
    | (s', Inr p) \<Rightarrow> dump_after C s' (pl_add_num_keys P p))"

text \<open>\<open>set_data(payload)\<close>. The code builds a lazy \<open>map\<close> over the keys of the new
  payload and never reads it, so the sets in it do not run; only the keys are
  listed, and the payload just loaded is dumped.\<close>

definition ks_set_data :: "'p payload_class \<Rightarrow> 'q payload_class \<Rightarrow> ('s, 'p) store_class \<Rightarrow> 's \<Rightarrow> 'q \<Rightarrow>
    's \<times> pyexc option" where
  "ks_set_data P Q C s payload = (case sc_load C s True of
      (s', Inl e) \<Rightarrow> (s', Some e)
    | (s', Inr p) \<Rightarrow> (case pl_keys Q payload True of
          (_, Inl e) \<Rightarrow> (s', Some e)
        | (_, Inr _) \<Rightarrow> sc_dump C s' p))"

lemma ks_get_loaded:
  "sc_load C s True = (s2, Inr r) \<Longrightarrow> snd (ks_get P C s keys) = snd (get_all P r keys)"
  by (simp add: ks_get_def split: prod.split)

section \<open>Laws\<close>

text \<open>\<open>sok\<close> is the state the store keeps. A payload dumped and loaded again reads
  the same at the keys of the laws; a load does not undo what was dumped.\<close>

locale store_laws = payload_laws P inv kok vok indep
  for P :: "'p payload_class"
    and inv :: "'p \<Rightarrow> bool"
    and kok :: "string \<Rightarrow> bool"
    and vok :: "pyval \<Rightarrow> bool"
    and indep :: "string \<Rightarrow> string \<Rightarrow> bool" +
  fixes C :: "('s, 'p) store_class"
    and sok :: "'s \<Rightarrow> bool"
  assumes load_inv: "sok s \<Longrightarrow> sc_load C s True = (s', r) \<Longrightarrow> sok s' \<and> (\<forall>p. r = Inr p \<longrightarrow> inv p)"
    and share_ok: "sok s \<Longrightarrow> inv p \<Longrightarrow> sok (sc_share C s p)"
    and dump_ok: "sok s \<Longrightarrow> inv p \<Longrightarrow> sc_dump C s p = (s', None) \<Longrightarrow> sok s'"
    and dump_load: "sok s \<Longrightarrow> inv p \<Longrightarrow> sc_dump C s p = (s', None) \<Longrightarrow>
      \<exists>s'' q. sc_load C s' True = (s'', Inr q) \<and> (\<forall>k. kok k \<longrightarrow> snd (pl_get P q k) = snd (pl_get P p k))"
begin

lemma set_all_inv:
  "inv p \<Longrightarrow> \<forall>k \<in> fst ` set kvs. kok k \<Longrightarrow> \<forall>v \<in> snd ` set kvs. vok v \<Longrightarrow> inv (fst (set_all P p kvs))"
proof (induction kvs arbitrary: p)
  case (Cons kv kvs)
  obtain k v where kv: "kv = (k, v)" by (cases kv)
  have "inv (fst (pl_set P p k v))" using set_inv Cons.prems kv by auto
  with Cons.IH Cons.prems kv show ?case by (auto split: prod.split option.split)
qed simp

lemma delete_all_inv: "inv p \<Longrightarrow> inv (fst (delete_all P p ks))"
proof (induction ks arbitrary: p)
  case (Cons k ks)
  have "inv (fst (pl_delete P p k False))" using delete_inv Cons.prems by auto
  with Cons.IH show ?case by (auto split: prod.split sum.split)
qed simp

lemma set_all_other:
  "inv p \<Longrightarrow> set_all P p kvs = (q, None) \<Longrightarrow> \<forall>k \<in> fst ` set kvs. kok k \<and> indep k k' \<Longrightarrow>
   \<forall>v \<in> snd ` set kvs. vok v \<Longrightarrow> kok k' \<Longrightarrow> snd (pl_get P q k') = snd (pl_get P p k')"
proof (induction kvs arbitrary: p)
  case (Cons kv kvs)
  obtain k v where kv: "kv = (k, v)" by (cases kv)
  have "inv (fst (pl_set P p k v))" using set_inv Cons.prems kv by auto
  with Cons.IH Cons.prems kv set_other [of p k k' v] show ?case
    by (auto split: prod.splits option.splits)
qed simp

lemma set_all_get:
  "inv p \<Longrightarrow> set_all P p kvs = (q, None) \<Longrightarrow> \<forall>k \<in> fst ` set kvs. kok k \<Longrightarrow> \<forall>v \<in> snd ` set kvs. vok v \<Longrightarrow>
   pairwise indep (fst ` set kvs) \<Longrightarrow> distinct (map fst kvs) \<Longrightarrow> (k, v) \<in> set kvs \<Longrightarrow>
   snd (pl_get P q k) = Inr v"
proof (induction kvs arbitrary: p)
  case (Cons kv kvs)
  obtain k1 v1 where kv: "kv = (k1, v1)" by (cases kv)
  obtain p1 where p1: "pl_set P p k1 v1 = (p1, None)" "set_all P p1 kvs = (q, None)"
    using Cons.prems(2) kv by (auto split: prod.splits option.splits)
  have i1: "inv p1" using set_inv [of p k1 v1] Cons.prems kv p1 by simp
  show ?case
  proof (cases "(k, v) \<in> set kvs")
    case True
    then show ?thesis using Cons.IH [OF i1 p1(2)] Cons.prems by (auto simp: pairwise_insert)
  next
    case False
    then have "k = k1" "v = v1" using Cons.prems(7) kv by auto
    then have "snd (pl_get P p1 k) = Inr v" using set_same [of p k1 v1 p1] Cons.prems kv p1 by simp
    moreover have "\<forall>k' \<in> fst ` set kvs. indep k' k"
      using Cons.prems(5,6) kv \<open>k = k1\<close> by (auto simp: pairwise_insert image_iff)
    ultimately show ?thesis
      using set_all_other [OF i1 p1(2), of k] Cons.prems kv \<open>k = k1\<close> by simp
  qed
qed simp

lemma get_all_values:
  "inv p \<Longrightarrow> \<forall>k \<in> set ks. kok k \<Longrightarrow> \<forall>k \<in> set ks. snd (pl_get P p k) = Inr (f k) \<Longrightarrow>
   snd (get_all P p ks) = Inr (map f ks)"
proof (induction ks arbitrary: p)
  case (Cons k ks)
  obtain p' where p': "pl_get P p k = (p', Inr (f k))"
    using Cons.prems(3) by (cases "pl_get P p k") auto
  have "inv p'" using get_inv [of p k] Cons.prems(1) p' by simp
  moreover have "\<forall>k' \<in> set ks. snd (pl_get P p' k') = Inr (f k')"
    using get_stable [of p _ k] Cons.prems p' by fastforce
  ultimately have "snd (get_all P p' ks) = Inr (map f ks)" using Cons by simp
  with p' show ?case by (auto split: prod.split)
qed simp

lemma dump_after_load:
  assumes "sok s" "inv p" "dump_after C s (p, e) = (s', None)"
  shows "\<exists>s'' q. sc_load C s' True = (s'', Inr q) \<and> inv q \<and>
    (\<forall>k. kok k \<longrightarrow> snd (pl_get P q k) = snd (pl_get P p k))"
proof -
  have d: "sc_dump C (sc_share C s p) p = (s', None)"
    using assms(3) by (auto simp: dump_after_def split: option.splits)
  have so: "sok (sc_share C s p)" using share_ok assms by simp
  obtain s'' q where l: "sc_load C s' True = (s'', Inr q)"
    "\<forall>k. kok k \<longrightarrow> snd (pl_get P q k) = snd (pl_get P p k)"
    using dump_load [OF so assms(2) d] by blast
  have "inv q" using load_inv [OF dump_ok [OF so assms(2) d] l(1)] by simp
  with l show ?thesis by blast
qed

text \<open>A set through the store is read back through the store.\<close>

lemma set_get:
  assumes "sok s" "ks_set P C s keys vals = (s', None)"
    and "\<forall>k \<in> set keys. kok k" "\<forall>v \<in> set vals. vok v" "pairwise indep (set keys)" "distinct keys"
  shows "snd (ks_get P C s' keys) = Inr vals"
proof -
  have len: "length keys = length vals" using assms(2) by (auto simp: ks_set_def split: if_splits)
  obtain s1 p where ld: "sc_load C s True = (s1, Inr p)"
    and da: "dump_after C s1 (set_all P p (zip keys vals)) = (s', None)"
    using assms(2) len by (auto simp: ks_set_def split: prod.splits sum.splits)
  obtain q where q: "set_all P p (zip keys vals) = (q, None)"
    using da by (cases "set_all P p (zip keys vals)") (auto simp: dump_after_def split: option.splits)
  have s1: "sok s1" "inv p" using load_inv [OF assms(1) ld] by simp_all
  have ks: "fst ` set (zip keys vals) = set keys" "snd ` set (zip keys vals) = set vals"
    using len by (metis map_fst_zip set_map, metis map_snd_zip set_map)
  have iq: "inv q" using set_all_inv [of p "zip keys vals"] s1 ks assms(3,4) q by simp
  obtain s2 r where r: "sc_load C s' True = (s2, Inr r)" "inv r"
    "\<forall>k. kok k \<longrightarrow> snd (pl_get P r k) = snd (pl_get P q k)"
    using dump_after_load [OF s1(1) iq] da q by (metis (no_types))
  have val: "snd (pl_get P r k) = Inr v" if "(k, v) \<in> set (zip keys vals)" for k v
    using set_all_get [OF s1(2) q, of k v] that r(3) ks assms(3-6) len by (auto dest: set_zip_leftD)
  define f where "f k = the (map_of (zip keys vals) k)" for k
  have f: "map f keys = vals"
    using len assms(6) by (auto simp: f_def map_of_zip_nth intro: nth_equalityI)
  have "snd (pl_get P r k) = Inr (f k)" if "k \<in> set keys" for k
  proof -
    obtain v where "(k, v) \<in> set (zip keys vals)" using \<open>k \<in> set keys\<close> len by (metis ks(1) imageE prod.collapse)
    moreover then have "f k = v" using assms(6) len by (simp add: f_def)
    ultimately show ?thesis using val by simp
  qed
  then have "snd (get_all P r keys) = Inr (map f keys)"
    using get_all_values [OF r(2), of keys f] assms(3) by blast
  then show ?thesis using f by (simp add: ks_get_loaded [OF r(1)])
qed

lemma set_other_get:
  assumes "sok s" "ks_set P C s keys vals = (s', None)" "sc_load C s True = (s1, Inr p)"
    and "\<forall>k \<in> set keys. kok k \<and> indep k k'" "\<forall>v \<in> set vals. vok v" "kok k'"
    and "snd (pl_get P p k') = Inr w"
  shows "snd (ks_get P C s' [k']) = Inr [w]"
proof -
  have len: "length keys = length vals" using assms(2) by (auto simp: ks_set_def split: if_splits)
  have da: "dump_after C s1 (set_all P p (zip keys vals)) = (s', None)"
    using assms(2,3) len by (simp add: ks_set_def)
  obtain q where q: "set_all P p (zip keys vals) = (q, None)"
    using da by (cases "set_all P p (zip keys vals)") (auto simp: dump_after_def split: option.splits)
  have s1: "sok s1" "inv p" using load_inv [OF assms(1,3)] by simp_all
  have ks: "fst ` set (zip keys vals) = set keys" "snd ` set (zip keys vals) = set vals"
    using len by (metis map_fst_zip set_map, metis map_snd_zip set_map)
  have iq: "inv q" using set_all_inv [of p "zip keys vals"] s1 ks assms(4,5) q by simp
  obtain s2 r where r: "sc_load C s' True = (s2, Inr r)" "inv r"
    "\<forall>k. kok k \<longrightarrow> snd (pl_get P r k) = snd (pl_get P q k)"
    using dump_after_load [OF s1(1) iq] da q by (metis (no_types))
  have "snd (pl_get P r k') = Inr w"
    using set_all_other [OF s1(2) q, of k'] assms(4-7) ks r(3) by simp
  then have "snd (get_all P r [k']) = Inr [w]"
    using get_all_values [OF r(2), of "[k']" "\<lambda>_. w"] assms(6) by simp
  then show ?thesis unfolding ks_get_loaded [OF r(1)] by simp
qed

lemma delete_all_gone:
  "inv p \<Longrightarrow> delete_all P p ks = (q, None) \<Longrightarrow> \<forall>k \<in> set ks. kok k \<Longrightarrow> pairwise indep (set ks) \<Longrightarrow>
   k \<in> set ks \<or> (kok k \<and> snd (pl_get P p k) = Inr PNone \<and> (\<forall>k' \<in> set ks. indep k' k)) \<Longrightarrow>
   snd (pl_get P q k) = Inr PNone"
proof (induction ks arbitrary: p)
  case (Cons k1 ks)
  obtain p1 b where p1: "pl_delete P p k1 False = (p1, Inr b)" "delete_all P p1 ks = (q, None)"
    using Cons.prems(2) by (auto split: prod.splits sum.splits)
  have i1: "inv p1" using delete_inv [of p k1 False] Cons.prems(1) p1 by simp
  have same: "snd (pl_get P p1 k1) = Inr PNone" using delete_same [of p k1 False p1 b] Cons.prems p1 by simp
  have other: "snd (pl_get P p1 k) = snd (pl_get P p k)" if "kok k" "indep k1 k"
    using delete_other [of p k1 k False] Cons.prems p1 that by simp
  have pw: "pairwise indep (set ks)" using Cons.prems(4) by (simp add: pairwise_insert)
  show ?case
  proof (cases "k \<in> set ks")
    case True
    then show ?thesis using Cons.IH [OF i1 p1(2) _ pw] Cons.prems(3) by (metis list.set_intros(2))
  next
    case False
    have kk: "kok k" using Cons.prems(3,5) by auto
    have ind: "\<forall>k' \<in> set ks. indep k' k"
      using Cons.prems(4,5) False by (auto simp: pairwise_def)
    have "snd (pl_get P p1 k) = Inr PNone"
    proof (cases "k = k1")
      case False
      with Cons.prems(5) \<open>k \<notin> set ks\<close> other [OF kk] show ?thesis by simp
    qed (use same in simp)
    then show ?thesis using Cons.IH [OF i1 p1(2) _ pw] Cons.prems(3) kk ind by (metis list.set_intros(2))
  qed
qed simp

lemma delete_get:
  assumes "sok s" "ks_delete P C s keys = (s', None)" "\<forall>k \<in> set keys. kok k" "pairwise indep (set keys)"
  shows "snd (ks_get P C s' keys) = Inr (map (\<lambda>_. PNone) keys)"
proof -
  obtain s1 p where ld: "sc_load C s True = (s1, Inr p)"
    and da: "dump_after C s1 (delete_all P p keys) = (s', None)"
    using assms(2) by (auto simp: ks_delete_def split: prod.splits sum.splits)
  obtain q where q: "delete_all P p keys = (q, None)"
    using da by (cases "delete_all P p keys") (auto simp: dump_after_def split: option.splits)
  have s1: "sok s1" "inv p" using load_inv [OF assms(1) ld] by simp_all
  have iq: "inv q" using delete_all_inv [of p keys] s1 q by simp
  obtain s2 r where r: "sc_load C s' True = (s2, Inr r)" "inv r"
    "\<forall>k. kok k \<longrightarrow> snd (pl_get P r k) = snd (pl_get P q k)"
    using dump_after_load [OF s1(1) iq] da q by (metis (no_types))
  have "\<forall>k \<in> set keys. snd (pl_get P r k) = Inr PNone"
  proof
    fix k assume k: "k \<in> set keys"
    then have "snd (pl_get P q k) = Inr PNone" by (intro delete_all_gone [OF s1(2) q assms(3,4)] disjI1)
    with r(3) assms(3) k show "snd (pl_get P r k) = Inr PNone" by metis
  qed
  then have "snd (get_all P r keys) = Inr (map (\<lambda>_. PNone) keys)"
    using get_all_values [OF r(2), of keys "\<lambda>_. PNone"] assms(3) by simp
  then show ?thesis unfolding ks_get_loaded [OF r(1)] by simp
qed

text \<open>\<open>set_data\<close> changes nothing that can be read.\<close>

lemma set_data_nothing:
  assumes "sok s" "ks_set_data P Q C s payload = (s', None)" "sc_load C s True = (s1, Inr p)" "kok k"
    and "snd (pl_get P p k) = Inr w"
  shows "snd (ks_get P C s' [k]) = Inr [w]"
proof -
  have d: "sc_dump C s1 p = (s', None)"
    using assms(2,3) by (auto simp: ks_set_data_def split: prod.splits sum.splits)
  have s1: "sok s1" "inv p" using load_inv [OF assms(1,3)] by simp_all
  obtain s2 r where r: "sc_load C s' True = (s2, Inr r)"
    "\<forall>k. kok k \<longrightarrow> snd (pl_get P r k) = snd (pl_get P p k)"
    using dump_load [OF s1 d] by blast
  have "inv r" using load_inv [OF dump_ok [OF s1 d] r(1)] by simp
  then have "snd (get_all P r [k]) = Inr [w]"
    using get_all_values [of r "[k]" "\<lambda>_. w"] assms(4,5) r(2) by simp
  then show ?thesis unfolding ks_get_loaded [OF r(1)] by simp
qed

end

end
