(* ===== verification/PyText.thy ===== *)
theory PyText
  imports PyString
begin

text \<open>
  Text of Python values and text files: \<open>str(v)\<close>, \<open>repr(v)\<close>, the lines of a
  file opened in text mode. A float is the decimal number its \<open>repr\<close> prints, so
  its digits are read off the rational; \<open>repr\<close>'s exponent form for magnitudes
  outside 1e-4 .. 1e16 is not modelled.
\<close>

section \<open>Rendering values\<close>

text \<open>The decimal digits of a fraction below 1, at most \<open>n\<close> of them.\<close>

fun frac_digits :: "nat \<Rightarrow> rat \<Rightarrow> string" where
  "frac_digits 0 r = []"
| "frac_digits (Suc n) r = (if r = 0 then [] else
     (let d = nat \<lfloor>10 * r\<rfloor> in digit_char d # frac_digits n (10 * r - of_nat d)))"

definition show_rat :: "rat \<Rightarrow> string" where
  "show_rat r = (let a = \<bar>r\<bar>; i = \<lfloor>a\<rfloor>; f = frac_digits 330 (a - of_int i) in
     (if r < 0 then ''-'' else []) @ show_nat (nat i) @ ''.'' @ (if f = [] then ''0'' else f))"

definition hex_char :: "nat \<Rightarrow> char" where
  "hex_char d = (if d < 10 then digit_char d else char_of (87 + d))"

definition repr_char :: "char \<Rightarrow> char \<Rightarrow> string" where
  "repr_char q ch = (let n = (of_char ch :: nat) in
     if ch = q \<or> n = 92 then [CHR 0x5C, ch]
     else if n = 10 then [CHR 0x5C, CHR ''n'']
     else if n = 13 then [CHR 0x5C, CHR ''r'']
     else if n = 9 then [CHR 0x5C, CHR ''t'']
     else if n < 32 \<or> (127 \<le> n \<and> n \<le> 160) \<or> n = 173
       then [CHR 0x5C, CHR ''x'', hex_char (n div 16), hex_char (n mod 16)]
     else [ch])"

definition repr_str :: "string \<Rightarrow> string" where
  "repr_str s = (let q = (if CHR 0x27 \<in> set s \<and> CHR 0x22 \<notin> set s
                          then CHR 0x22 else CHR 0x27) in
     q # concat (map (repr_char q) s) @ [q])"

fun py_repr :: "pyval \<Rightarrow> string"
  and repr_items :: "pyval list \<Rightarrow> string list"
  and repr_entries :: "pydict \<Rightarrow> string list" where
  "py_repr PNone = ''None''"
| "py_repr (PBool b) = (if b then ''True'' else ''False'')"
| "py_repr (PInt i) = show_int i"
| "py_repr (PFloat r) = show_rat r"
| "py_repr (PStr s) = repr_str s"
| "py_repr (PList xs) = ''['' @ py_join '', '' (repr_items xs) @ '']''"
| "py_repr (PDict d) = ''{'' @ py_join '', '' (repr_entries d) @ ''}''"
| "repr_items [] = []"
| "repr_items (x # xs) = py_repr x # repr_items xs"
| "repr_entries [] = []"
| "repr_entries ((k, v) # d) = (repr_str k @ '': '' @ py_repr v) # repr_entries d"

definition py_str :: "pyval \<Rightarrow> string" where
  "py_str v = (case v of PStr s \<Rightarrow> s | _ \<Rightarrow> py_repr v)"

lemma py_str_PStr [simp]: "py_str (PStr s) = s"
  by (simp add: py_str_def)

section \<open>Lines\<close>

text \<open>Text mode turns every line end into a newline; \<open>readlines\<close> keeps it.\<close>

abbreviation NL :: char where "NL \<equiv> CHR 0x0A"
abbreviation CR :: char where "CR \<equiv> CHR 0x0D"

fun unl :: "bool \<Rightarrow> string \<Rightarrow> string" where
  "unl cr [] = []"
| "unl cr (x # xs) =
     (if x = CR then NL # unl True xs
      else if cr \<and> x = NL then unl False xs
      else x # unl False xs)"

definition universal_nl :: "string \<Rightarrow> string" where
  "universal_nl s = unl False s"

definition py_readlines :: "string \<Rightarrow> string list" where
  "py_readlines s = (let ps = py_split NL (universal_nl s) in
     map (\<lambda>p. p @ [NL]) (butlast ps) @ (if last ps = [] then [] else [last ps]))"

lemma universal_nl_id [simp]: "CR \<notin> set s \<Longrightarrow> universal_nl s = s"
  unfolding universal_nl_def by (induction s) auto

lemma CR_unl: "CR \<notin> set (unl b s)"
  by (induction b s rule: unl.induct) auto

lemma CR_universal_nl [simp]: "CR \<notin> set (universal_nl s)"
  by (simp add: universal_nl_def CR_unl)

lemma py_split_lines: "\<forall>l \<in> set ls. NL \<notin> set l \<Longrightarrow>
    py_split NL (concat (map (\<lambda>l. l @ [NL]) ls)) = ls @ [[]]"
  by (induction ls) (auto simp: py_split_append_sep py_split_no_sep)

lemma py_readlines_lines: "\<forall>l \<in> set ls. NL \<notin> set l \<and> CR \<notin> set l \<Longrightarrow>
    py_readlines (concat (map (\<lambda>l. l @ [NL]) ls)) = map (\<lambda>l. l @ [NL]) ls"
proof -
  assume a: "\<forall>l \<in> set ls. NL \<notin> set l \<and> CR \<notin> set l"
  then have "universal_nl (concat (map (\<lambda>l. l @ [NL]) ls)) = concat (map (\<lambda>l. l @ [NL]) ls)"
    by (intro universal_nl_id) auto
  with a show ?thesis by (simp add: py_readlines_def py_split_lines)
qed

lemma set_py_split: "p \<in> set (py_split c s) \<Longrightarrow> set p \<subseteq> set s"
proof (induction s arbitrary: p)
  case (Cons x s)
  obtain q qs where q: "py_split c s = q # qs" by (cases "py_split c s") auto
  with Cons show ?case by (auto split: if_splits) (metis in_mono insertCI set_ConsD)+
qed simp

lemma py_split_sepfree: "p \<in> set (py_split c s) \<Longrightarrow> c \<notin> set p"
  by (induction s arbitrary: p) (auto split: if_splits list.splits)

section \<open>Stripping\<close>

lemma py_strip_Nil [simp]: "py_strip [] = []"
  by (simp add: py_strip_def)

lemma dropWhile_id: "s = [] \<or> \<not> P (hd s) \<Longrightarrow> dropWhile P s = s"
  by (cases s) auto

lemma py_strip_ends: "py_strip s = [] \<or> \<not> is_space (hd (py_strip s)) \<and> \<not> is_space (last (py_strip s))"
proof (cases "py_strip s = []")
  case False
  define t where "t = dropWhile is_space s"
  have t: "py_strip s = rev (dropWhile is_space (rev t))" by (simp add: py_strip_def t_def)
  have "\<not> is_space (last (py_strip s))"
    using False hd_dropWhile [of is_space "rev t"] t by (simp add: last_rev)
  moreover have "hd (py_strip s) = hd t"
  proof -
    have "rev (takeWhile is_space (rev t) @ dropWhile is_space (rev t)) = t"
      unfolding takeWhile_dropWhile_id by simp
    then have "py_strip s @ rev (takeWhile is_space (rev t)) = t" unfolding t rev_append .
    with False show ?thesis by (metis hd_append2)
  qed
  moreover have "t \<noteq> []" using False t by auto
  then have "\<not> is_space (hd t)" unfolding t_def by (rule hd_dropWhile)
  ultimately show ?thesis by simp
qed simp

lemma py_strip_id: "s = [] \<or> (\<not> is_space (hd s) \<and> \<not> is_space (last s)) \<Longrightarrow> py_strip s = s"
  by (cases s rule: rev_cases) (auto simp: py_strip_def dropWhile_id hd_rev)

lemma py_strip_idem [simp]: "py_strip (py_strip s) = py_strip s"
  using py_strip_ends [of s] by (auto intro: py_strip_id)

lemma py_strip_id_iff: "py_strip s = s \<longleftrightarrow> s = [] \<or> (\<not> is_space (hd s) \<and> \<not> is_space (last s))"
  by (metis py_strip_ends py_strip_id)

lemma set_py_strip: "set (py_strip s) \<subseteq> set s"
  unfolding py_strip_def by (metis set_dropWhileD set_rev subsetI)

lemma py_strip_trail [simp]: "is_space x \<Longrightarrow> py_strip (s @ [x]) = py_strip s"
proof -
  assume "is_space x"
  then show ?thesis
    by (cases "\<forall>c \<in> set s. is_space c") (auto simp: py_strip_def dropWhile_append dest: set_dropWhileD)
qed

lemma py_strip_lead [simp]: "is_space x \<Longrightarrow> py_strip (x # s) = py_strip s"
  by (simp add: py_strip_def)

end
