(* ===== verification/TextStores.thy ===== *)
theory TextStores
  imports KvStore PyText
begin

text \<open>
  The stores that keep a KvPayload in one text file:
  PropertiesKvStore of src/py-utils/src/utils/kv_store/kv_store_collection.py, whose
  file format the module itself reads and writes. Its texts of \<open>key = value\<close> lines
  make a round trip, and it keeps the laws of the store interface.
\<close>

section \<open>State\<close>

text \<open>A store object with the file system it works on. A file that can be opened
  is one that exists; a write always succeeds.\<close>

type_synonym file_system = "string \<rightharpoonup> string"

record file_store =
  fs_path :: string
  fs_delim :: string
  fs_files :: file_system

definition write_file :: "file_store \<Rightarrow> string \<Rightarrow> file_store" where
  "write_file s txt = s\<lparr>fs_files := (fs_files s)(fs_path s \<mapsto> txt)\<rparr>"

lemma write_file_simps [simp]:
  "fs_path (write_file s txt) = fs_path s" "fs_delim (write_file s txt) = fs_delim s"
  "fs_files (write_file s txt) (fs_path s) = Some txt"
  by (simp_all add: write_file_def)

section \<open>PropertiesKvStore\<close>

text \<open>The loop over the lines. Every exception inside it becomes a KvError.\<close>

fun prop_parse :: "string list \<Rightarrow> pydict \<Rightarrow> pyexc + pydict" where
  "prop_parse [] data = Inr data"
| "prop_parse (line # ls) data = (let l = py_strip line in
     if l = [] \<or> hd l = CHR ''#'' then prop_parse ls data
     else (case split1 (CHR ''='') l of
         (_, None) \<Rightarrow> Inl (KvError ENOENT)
       | (key, Some val) \<Rightarrow> prop_parse ls (AList.update (py_strip key) (PStr (py_strip val)) data)))"

definition prop_load :: "file_store \<Rightarrow> bool \<Rightarrow> file_store \<times> (pyexc + kv_payload)" where
  "prop_load s recurse = (s, case fs_files s (fs_path s) of
      None \<Rightarrow> Inl (OSError ENOENT)
    | Some txt \<Rightarrow> (case prop_parse (py_readlines txt) [] of
          Inl e \<Rightarrow> Inl e
        | Inr data \<Rightarrow> kp_init (PDict data) (fs_delim s) True))"

definition prop_line :: "string \<times> pyval \<Rightarrow> string" where
  "prop_line kv = fst kv @ '' = '' @ py_str (snd kv)"

definition prop_text :: "pydict \<Rightarrow> string" where
  "prop_text d = concat (map (\<lambda>kv. prop_line kv @ [NL]) d)"

definition prop_dump :: "file_store \<Rightarrow> kv_payload \<Rightarrow> file_store \<times> pyexc option" where
  "prop_dump s p = (case kp_data p of
      PDict d \<Rightarrow> (write_file s (prop_text d), None)
    | _ \<Rightarrow> (write_file s [], Some AttributeError))"

definition prop_class :: "(file_store, kv_payload) store_class" where
  "prop_class = \<lparr>sc_load = prop_load, sc_dump = prop_dump, sc_share = (\<lambda>s p. s)\<rparr>"

section \<open>Round trip\<close>

text \<open>The names and values that a line carries back.\<close>

definition prop_name :: "string \<Rightarrow> bool" where
  "prop_name k \<longleftrightarrow> py_strip k = k \<and> CHR ''='' \<notin> set k \<and> NL \<notin> set k \<and> CR \<notin> set k
     \<and> (k \<noteq> [] \<longrightarrow> hd k \<noteq> CHR ''#'')"

definition prop_value :: "pyval \<Rightarrow> bool" where
  "prop_value v \<longleftrightarrow> (\<exists>t. v = PStr t \<and> py_strip t = t \<and> NL \<notin> set t \<and> CR \<notin> set t)"

definition prop_data :: "pydict \<Rightarrow> bool" where
  "prop_data d \<longleftrightarrow> (\<forall>(k, v) \<in> set d. prop_name k \<and> prop_value v)"

lemma strip_prop_line:
  assumes "prop_name k" "py_strip t = t"
  shows "py_strip (k @ '' = '' @ t) = (if k = [] then [] else k @ '' '') @ ''='' @ (if t = [] then [] else '' '' @ t)"
proof -
  have sp: "is_space (CHR '' '')" "\<not> is_space (CHR ''='')" by (simp_all add: is_space_def)
  have k: "k = [] \<or> \<not> is_space (hd k)" and t: "t = [] \<or> \<not> is_space (last t)"
    using assms by (auto simp: prop_name_def py_strip_id_iff)
  have 1: "py_strip (k @ '' ='') = (if k = [] then [] else k @ '' '') @ ''=''"
    using k sp by (cases k) (auto intro!: py_strip_id)
  have 2: "py_strip (k @ '' = '' @ t) = (if k = [] then [] else k @ '' '') @ ''= '' @ t" if "t \<noteq> []"
    using k t sp that by (cases k) (auto intro!: py_strip_id)
  have 3: "py_strip (k @ '' = '') = py_strip (k @ '' ='')"
    using py_strip_trail [of "CHR '' ''" "k @ '' =''"] sp by simp
  show ?thesis
  proof (cases "t = []")
    case True
    with 1 3 show ?thesis by simp
  next
    case False
    from 2 [OF False] show ?thesis using False by simp
  qed
qed

lemma prop_parse_split:
  assumes "py_strip L = A @ CHR ''='' # B" "CHR ''='' \<notin> set A" "hd (A @ CHR ''='' # B) \<noteq> CHR ''#''"
  shows "prop_parse (L # ls) data = prop_parse ls (AList.update (py_strip A) (PStr (py_strip B)) data)"
  using assms(3) split1_sep [OF assms(2), of B] unfolding prop_parse.simps assms(1)
  by (simp add: Let_def)

lemma prop_parse_line:
  assumes "prop_name k" "prop_value v"
  shows "prop_parse ((prop_line (k, v) @ [NL]) # ls) data = prop_parse ls (AList.update k v data)"
proof -
  obtain t where v: "v = PStr t" and t: "py_strip t = t" using assms(2) by (auto simp: prop_value_def)
  have sp: "is_space NL" "is_space (CHR '' '')" by (simp_all add: is_space_def)
  let ?a = "if k = [] then [] else k @ '' ''" and ?b = "if t = [] then [] else '' '' @ t"
  have l: "py_strip (prop_line (k, v) @ [NL]) = ?a @ CHR ''='' # ?b"
    using strip_prop_line [OF assms(1) t] py_strip_trail [OF sp(1), of "k @ '' = '' @ t"]
    by (simp add: prop_line_def v)
  have a: "CHR ''='' \<notin> set ?a" "py_strip ?a = k" "py_strip ?b = t"
    using assms(1) t sp by (auto simp: prop_name_def)
  have "hd (?a @ CHR ''='' # ?b) \<noteq> CHR ''#''" using assms(1) by (cases k) (auto simp: prop_name_def)
  from prop_parse_split [OF l a(1) this, of ls data] show ?thesis by (simp only: a v)
qed

lemma prop_parse_lines: "prop_data d \<Longrightarrow> distinct (map fst (data @ d)) \<Longrightarrow>
    prop_parse (map (\<lambda>kv. prop_line kv @ [NL]) d) data = Inr (data @ d)"
proof (induction d arbitrary: data)
  case (Cons kv d)
  obtain k v where kv: "kv = (k, v)" by (cases kv)
  have new: "AList.update k v data = data @ [(k, v)]" if "k \<notin> fst ` set data" for data :: pydict
    using that by (induction data) auto
  have "prop_parse (map (\<lambda>kv. prop_line kv @ [NL]) (kv # d)) data =
      prop_parse (map (\<lambda>kv. prop_line kv @ [NL]) d) (AList.update k v data)"
    using Cons.prems(1) prop_parse_line [of k v] by (simp add: prop_data_def kv)
  also have "AList.update k v data = data @ [(k, v)]"
    using Cons.prems(2) kv by (intro new) auto
  also have "prop_parse (map (\<lambda>kv. prop_line kv @ [NL]) d) (data @ [(k, v)]) = Inr ((data @ [(k, v)]) @ d)"
    using Cons.prems kv by (intro Cons.IH) (auto simp: prop_data_def)
  finally show ?case using kv by simp
qed simp

lemma prop_line_newlines: "prop_name k \<Longrightarrow> prop_value v \<Longrightarrow>
    NL \<notin> set (prop_line (k, v)) \<and> CR \<notin> set (prop_line (k, v))"
  by (auto simp: prop_name_def prop_value_def prop_line_def)

lemma prop_text_parse:
  assumes "prop_data d" "distinct (map fst d)"
  shows "prop_parse (py_readlines (prop_text d)) [] = Inr d"
proof -
  have "\<forall>l \<in> set (map prop_line d). NL \<notin> set l \<and> CR \<notin> set l"
    using assms(1) prop_line_newlines by (force simp: prop_data_def)
  from py_readlines_lines [OF this]
  have "py_readlines (prop_text d) = map (\<lambda>kv. prop_line kv @ [NL]) d"
    by (simp add: prop_text_def comp_def)
  with prop_parse_lines [of d "[]"] assms show ?thesis by simp
qed

section \<open>The loaded data\<close>

lemma hd_py_strip: "A \<noteq> [] \<Longrightarrow> \<not> is_space (hd A) \<Longrightarrow> hd (py_strip A) = hd A"
proof -
  assume A: "A \<noteq> []" "\<not> is_space (hd A)"
  then have "py_strip A \<noteq> []" by (auto simp: py_strip_empty_iff)
  moreover have "dropWhile is_space A = A" using A by (intro dropWhile_id) simp
  then have "py_strip A = rev (dropWhile is_space (rev A))" by (simp add: py_strip_def)
  moreover have "rev (takeWhile is_space (rev A) @ dropWhile is_space (rev A)) = A"
    unfolding takeWhile_dropWhile_id by simp
  ultimately show ?thesis by (metis hd_append2 rev_append)
qed

definition line_ok :: "string \<Rightarrow> bool" where
  "line_ok l \<longleftrightarrow> NL \<notin> set (py_strip l) \<and> CR \<notin> set (py_strip l)"

lemma readlines_ok: "l \<in> set (py_readlines s) \<Longrightarrow> line_ok l"
proof -
  assume l: "l \<in> set (py_readlines s)"
  let ?ps = "py_split NL (universal_nl s)"
  obtain p where p: "p \<in> set ?ps" "l = p \<or> l = p @ [NL]"
    using l by (auto simp: py_readlines_def Let_def split: if_splits dest: in_set_butlastD)
      (metis last_in_set py_split_nonempty)
  have "py_strip l = py_strip p"
    using p(2) py_strip_trail [of NL p] by (auto simp: is_space_def)
  moreover have "NL \<notin> set p" "CR \<notin> set p"
    using py_split_sepfree [OF p(1)] set_py_split [OF p(1)] CR_universal_nl [of s] by auto
  ultimately show ?thesis using set_py_strip [of p] by (auto simp: line_ok_def)
qed

lemma prop_data_update: "prop_data d \<Longrightarrow> prop_name k \<Longrightarrow> prop_value v \<Longrightarrow> prop_data (AList.update k v d)"
  by (induction d) (auto simp: prop_data_def)

lemma prop_parse_data:
  "prop_parse ls data = Inr d \<Longrightarrow> \<forall>l \<in> set ls. line_ok l \<Longrightarrow> prop_data data \<Longrightarrow> distinct (map fst data) \<Longrightarrow>
   prop_data d \<and> distinct (map fst d)"
proof (induction ls arbitrary: data)
  case (Cons line ls)
  let ?l = "py_strip line"
  show ?case
  proof (cases "?l = [] \<or> hd ?l = CHR ''#''")
    case True
    with Cons show ?thesis by simp
  next
    case False
    obtain key val where sp: "split1 (CHR ''='') ?l = (key, Some val)"
      using Cons.prems(1) False by (cases "split1 (CHR ''='') ?l"; cases "snd (split1 (CHR ''='') ?l)") auto
    have l: "?l = key @ CHR ''='' # val" and nk: "CHR ''='' \<notin> set key"
    proof -
      show "?l = key @ CHR ''='' # val"
        using sp takeWhile_dropWhile_id [of "\<lambda>x. x \<noteq> CHR ''=''" ?l]
        by (auto simp: split1_def split: list.splits) (metis (full_types) hd_dropWhile list.distinct(1) list.sel(1))
      show "CHR ''='' \<notin> set key" using sp by (auto simp: split1_def dest: set_takeWhileD)
    qed
    have lo: "NL \<notin> set ?l" "CR \<notin> set ?l" using Cons.prems(2) by (auto simp: line_ok_def)
    have "hd (py_strip key) \<noteq> CHR ''#''" if "py_strip key \<noteq> []"
    proof -
      have "key \<noteq> []" using that by auto
      then have "hd key = hd ?l" unfolding l by simp
      moreover have "\<not> is_space (hd ?l)" using py_strip_ends [of line] False by blast
      ultimately show ?thesis using hd_py_strip \<open>key \<noteq> []\<close> False by metis
    qed
    then have "prop_name (py_strip key)" "prop_value (PStr (py_strip val))"
      using lo nk set_py_strip [of key] set_py_strip [of val] unfolding l
      by (auto simp: prop_name_def prop_value_def)
    then show ?thesis
      using Cons.IH [of "AList.update (py_strip key) (PStr (py_strip val)) data"] Cons.prems False sp
      by (simp add: prop_data_update AList.distinct_update)
  qed
qed simp

section \<open>A flat payload\<close>

definition prop_inv :: "char \<Rightarrow> kv_payload \<Rightarrow> bool" where
  "prop_inv c p \<longleftrightarrow> kp_inv c p \<and> (\<exists>d. kp_data p = PDict d \<and> prop_data d)"

definition prop_key :: "char \<Rightarrow> string \<Rightarrow> bool" where
  "prop_key c k \<longleftrightarrow> plain_key c k \<and> c \<notin> set k \<and> prop_name k"

lemma kv_set_flat: "plain_key c k \<Longrightarrow> c \<notin> set k \<Longrightarrow> kv_set c k v (PDict d) = (PDict (AList.update k v d), None)"
  by (simp add: kv_set.simps [of c k] split1_no_sep plain_key_None key_simps)

lemma kv_delete_flat: "prop_data d \<Longrightarrow> kv_delete c k f (PDict d) = Inr (b, data') \<Longrightarrow>
    data' = PDict d \<or> (\<exists>k'. data' = PDict (AList.delete k' d))"
proof -
  assume d: "prop_data d" and del: "kv_delete c k f (PDict d) = Inr (b, data')"
  obtain k0 rest where sp: "split1 c k = (k0, rest)" by (cases "split1 c k") auto
  have str: "\<exists>t. w = PStr t" if "map_of d k' = Some w" for k' w
    using map_of_SomeD [OF that] d by (auto simp: prop_data_def prop_value_def)
  have nd: "kv_delete c r f (PStr t) = Inl AttributeError" for r t
    by (cases "split1 c r") (simp add: kv_delete.simps [of c r])
  show ?thesis
    using del str nd by (force simp: kv_delete.simps [of c k] sp Let_def split: option.splits if_splits)
qed

lemma prop_data_delete: "prop_data d \<Longrightarrow> prop_data (AList.delete k d)"
  by (auto simp: prop_data_def AList.delete_eq)

lemma pywf_prop: "prop_data d \<Longrightarrow> distinct (map fst d) \<Longrightarrow> pywf (PDict d)"
  by (auto simp: wf_dict_iff prop_data_def prop_value_def)

lemma prop_value_wf: "prop_value v \<Longrightarrow> pywf v"
  by (auto simp: prop_value_def)

lemma prop_set_inv: "prop_inv c p \<Longrightarrow> prop_key c k \<Longrightarrow> prop_value v \<Longrightarrow> prop_inv c (fst (kp_set p k v))"
proof -
  assume a: "prop_inv c p" "prop_key c k" "prop_value v"
  then obtain d where d: "kp_data p = PDict d" "prop_data d" "kp_delim p = [c]"
    by (auto simp: prop_inv_def kp_inv_def)
  have "kp_data (fst (kp_set p k v)) = PDict (AList.update k v d)"
    using a(2) d by (simp add: kp_set_data kv_set_flat prop_key_def)
  with a d show ?thesis
    by (auto simp: prop_inv_def prop_key_def prop_value_wf kp_set_inv prop_data_update)
qed

lemma prop_delete_inv: "prop_inv c p \<Longrightarrow> prop_inv c (fst (kp_delete p k f))"
proof -
  assume i: "prop_inv c p"
  then obtain d where d: "kp_data p = PDict d" "prop_data d" by (auto simp: prop_inv_def)
  have "\<exists>d'. kp_data (fst (kp_delete p k f)) = PDict d' \<and> prop_data d'"
    using d prop_data_delete [OF d(2)]
    by (auto simp: kp_delete_def split: list.split sum.split dest!: kv_delete_flat [OF d(2)])
  with i show ?thesis by (simp add: prop_inv_def kp_delete_inv)
qed

lemma kp_init_inv: "pywf (PDict d) \<Longrightarrow> kp_init (PDict d) [c] True = Inr p \<Longrightarrow>
    kp_inv c p \<and> kp_data p = PDict d"
  by (auto simp: kp_init_def kp_inv_def distinct_kv_keys)

lemma kp_init_dict: "\<exists>p. kp_init (PDict d) [c] True = Inr p \<and> kp_data p = PDict d \<and> kp_delim p = [c]"
  by (simp add: kp_init_def)

interpretation propl: payload_laws kv_class "prop_inv c" "prop_key c" prop_value "key_indep c" for c
proof unfold_locales
  fix p p' k k' v f b
  assume i: "prop_inv c p"
  then have kp: "kp_inv c p" by (simp add: prop_inv_def)
  show "prop_inv c (fst (pl_get kv_class p k))" using i by (simp add: kv_class_def)
  show "snd (pl_get kv_class (fst (pl_get kv_class p k)) k') = snd (pl_get kv_class p k')"
    by (simp add: kv_class_def)
  show "prop_inv c (fst (pl_delete kv_class p k f))"
    using i by (simp add: kv_class_def prop_delete_inv)
  { assume "prop_key c k" "prop_value v" then show "prop_inv c (fst (pl_set kv_class p k v))"
      using i by (simp add: kv_class_def prop_set_inv) }
  { assume "prop_key c k" "prop_value v" "pl_set kv_class p k v = (p', None)"
    then show "snd (pl_get kv_class p' k) = Inr v"
      using kvp.set_same [OF kp] by (simp add: prop_key_def prop_value_wf) }
  { assume "prop_key c k" "prop_key c k'" "key_indep c k k'" "prop_value v"
    then show "snd (pl_get kv_class (fst (pl_set kv_class p k v)) k') = snd (pl_get kv_class p k')"
      using kvp.set_other [OF kp] by (simp add: prop_key_def prop_value_wf) }
  { assume "prop_key c k" "pl_delete kv_class p k f = (p', Inr b)"
    then show "snd (pl_get kv_class p' k) = Inr PNone"
      using kvp.delete_same [OF kp] by (simp add: prop_key_def) }
  { assume "prop_key c k" "prop_key c k'" "key_indep c k k'"
    then show "snd (pl_get kv_class (fst (pl_delete kv_class p k f)) k') = snd (pl_get kv_class p k')"
      using kvp.delete_other [OF kp] by (simp add: prop_key_def) }
qed

section \<open>The store keeps its laws\<close>

interpretation props: store_laws kv_class "prop_inv c" "prop_key c" prop_value "key_indep c"
    prop_class "\<lambda>s. fs_delim s = [c]" for c
proof unfold_locales
  fix s :: file_store and s' r p
  assume s: "fs_delim s = [c]"
  { assume l: "sc_load prop_class s True = (s', r)"
    have "prop_inv c p" if r: "r = Inr p" for p
    proof -
      obtain t d where d: "prop_parse (py_readlines t) [] = Inr d"
        "kp_init (PDict d) [c] True = Inr p"
        using l s r by (auto simp: prop_class_def prop_load_def split: option.splits sum.splits)
      have "prop_data d \<and> distinct (map fst d)"
        using prop_parse_data [OF d(1)] by (simp add: readlines_ok prop_data_def)
      with kp_init_inv [OF _ d(2)] pywf_prop show ?thesis by (simp add: prop_inv_def del: pywf.simps)
    qed
    with l s show "fs_delim s' = [c] \<and> (\<forall>p. r = Inr p \<longrightarrow> prop_inv c p)"
      by (simp add: prop_class_def prop_load_def) }
  show "fs_delim (sc_share prop_class s p) = [c]" using s by (simp add: prop_class_def)
  assume p: "prop_inv c p" and dm: "sc_dump prop_class s p = (s', None)"
  obtain d where d: "kp_data p = PDict d" "prop_data d" "distinct (map fst d)" "kp_delim p = [c]"
    using p by (auto simp: prop_inv_def kp_inv_def)
  have s': "s' = write_file s (prop_text d)" using dm d by (simp add: prop_class_def prop_dump_def)
  then show "fs_delim s' = [c]" using s by simp
  obtain q where q: "kp_init (PDict d) [c] True = Inr q" "kp_data q = PDict d" "kp_delim q = [c]"
    using kp_init_dict by blast
  have "sc_load prop_class s' True = (s', Inr q)"
    using prop_text_parse [OF d(2,3)] q s by (simp add: prop_class_def prop_load_def s')
  moreover have "snd (pl_get kv_class q k) = snd (pl_get kv_class p k)" for k
    using q d by (simp add: kv_class_def kp_get_def)
  ultimately show "\<exists>s'' q. sc_load prop_class s' True = (s'', Inr q) \<and>
      (\<forall>k. prop_key c k \<longrightarrow> snd (pl_get kv_class q k) = snd (pl_get kv_class p k))" by blast
qed

end
