(* ===== verification/Json.thy ===== *)
theory Json
  imports KvPath PyText
begin

text \<open>
  Python's json module as the stores use it: \<open>json.dump(data, f, indent=2)\<close> writes
  a value, \<open>json.load(f)\<close> and \<open>json.loads(s)\<close> read one. The reader is a recursive
  descent over the text; its fuel is the length of the text, and every step takes
  at least one character. \<open>json_load_dump\<close>: what was written is read back, floats
  included that print without an exponent. Characters above code point 255 and NaN or Infinity are not read.
\<close>

section \<open>Writing\<close>

abbreviation DQ :: char where "DQ \<equiv> CHR 0x22"
abbreviation BSL :: char where "BSL \<equiv> CHR 0x5C"

definition json_char :: "char \<Rightarrow> string" where
  "json_char ch = (let n = (of_char ch :: nat) in
     if n = 34 then [BSL, DQ]
     else if n = 92 then [BSL, BSL]
     else if n = 10 then [BSL, CHR ''n'']
     else if n = 13 then [BSL, CHR ''r'']
     else if n = 9 then [BSL, CHR ''t'']
     else if n = 12 then [BSL, CHR ''f'']
     else if n = 8 then [BSL, CHR ''b'']
     else if 32 \<le> n \<and> n \<le> 126 then [ch]
     else [BSL, CHR ''u'', CHR ''0'', CHR ''0'', hex_char (n div 16), hex_char (n mod 16)])"

definition json_string :: "string \<Rightarrow> string" where
  "json_string s = DQ # concat (map json_char s) @ [DQ]"

definition json_indent :: "nat \<Rightarrow> string" where
  "json_indent lvl = NL # replicate (2 * lvl) (CHR '' '')"

text \<open>\<open>json_list\<close> and \<open>json_dict\<close> write what follows the opening bracket, with the
  indentation before each member and the closing bracket.\<close>

function (sequential) json_dump :: "nat \<Rightarrow> pyval \<Rightarrow> string"
  and json_list :: "nat \<Rightarrow> pyval list \<Rightarrow> string"
  and json_dict :: "nat \<Rightarrow> pydict \<Rightarrow> string" where
  "json_dump lvl PNone = ''null''"
| "json_dump lvl (PBool b) = (if b then ''true'' else ''false'')"
| "json_dump lvl (PInt i) = show_int i"
| "json_dump lvl (PFloat r) = show_rat r"
| "json_dump lvl (PStr s) = json_string s"
| "json_dump lvl (PList xs) = CHR ''['' # (if xs = [] then '']'' else json_list lvl xs)"
| "json_dump lvl (PDict d) = CHR ''{'' # (if d = [] then ''}'' else json_dict lvl d)"
| "json_list lvl [] = '']''"
| "json_list lvl (x # xs) = json_indent (Suc lvl) @ json_dump (Suc lvl) x @
     (if xs = [] then json_indent lvl @ '']'' else CHR '','' # json_list lvl xs)"
| "json_dict lvl [] = ''}''"
| "json_dict lvl ((k, v) # d) = json_indent (Suc lvl) @ json_string k @ '': '' @ json_dump (Suc lvl) v @
     (if d = [] then json_indent lvl @ ''}'' else CHR '','' # json_dict lvl d)"
  by pat_completeness auto
termination
  by (relation "measure (case_sum (\<lambda>p. size (snd p))
      (case_sum (\<lambda>p. size_list size (snd p))
        (\<lambda>p. size_list (size_prod (\<lambda>_. 0) size) (snd p))))") auto

section \<open>Reading\<close>

definition json_space :: "char \<Rightarrow> bool" where
  "json_space c \<longleftrightarrow> (of_char c :: nat) \<in> {9, 10, 13, 32}"

abbreviation skip_ws :: "string \<Rightarrow> string" where
  "skip_ws \<equiv> dropWhile json_space"

definition hex_val :: "char \<Rightarrow> nat option" where
  "hex_val c = (let n = (of_char c :: nat) in
     if 48 \<le> n \<and> n \<le> 57 then Some (n - 48)
     else if 97 \<le> n \<and> n \<le> 102 then Some (n - 87)
     else if 65 \<le> n \<and> n \<le> 70 then Some (n - 55)
     else None)"

definition hex4 :: "char \<Rightarrow> char \<Rightarrow> char \<Rightarrow> char \<Rightarrow> char option" where
  "hex4 a b c d = (case (hex_val a, hex_val b, hex_val c, hex_val d) of
      (Some i, Some j, Some k, Some l) \<Rightarrow>
        (if i = 0 \<and> j = 0 then Some (char_of (16 * k + l)) else None)
    | _ \<Rightarrow> None)"

definition unescape :: "char \<Rightarrow> char option" where
  "unescape e = map_of [(DQ, DQ), (BSL, BSL), (CHR ''/'', CHR ''/''), (CHR ''n'', NL), (CHR ''r'', CR),
     (CHR ''t'', CHR 0x09), (CHR ''f'', CHR 0x0C), (CHR ''b'', CHR 0x08)] e"

definition cons_fst :: "char option \<Rightarrow> (string \<times> string) option \<Rightarrow> (string \<times> string) option" where
  "cons_fst c r = (case (c, r) of (Some x, Some (s, t)) \<Rightarrow> Some (x # s, t) | _ \<Rightarrow> None)"

text \<open>The rest of a string literal after its opening quote.\<close>

fun jp_string :: "string \<Rightarrow> (string \<times> string) option" where
  "jp_string [] = None"
| "jp_string (c # r) =
     (if c = DQ then Some ([], r)
      else if c = BSL then (case r of
          [] \<Rightarrow> None
        | e # r1 \<Rightarrow>
            if e = CHR ''u'' then (case r1 of
                x1 # x2 # x3 # x4 # r2 \<Rightarrow> cons_fst (hex4 x1 x2 x3 x4) (jp_string r2)
              | _ \<Rightarrow> None)
            else cons_fst (unescape e) (jp_string r1))
      else if (of_char c :: nat) < 32 then None
      else cons_fst (Some c) (jp_string r))"

definition pow10 :: "int \<Rightarrow> rat" where
  "pow10 e = (if e < 0 then 1 / 10 ^ nat (- e) else 10 ^ nat e)"

text \<open>The parts of \<open>(-?(?:0|[1-9]\\d*))(\\.\\d+)?([eE][-+]?\\d+)?\<close>: the digits
  before the point, those behind it with the rest, the exponent with the rest.\<close>

definition int_digits :: "string \<Rightarrow> string" where
  "int_digits s = (let ds = takeWhile is_digit s in
     if ds \<noteq> [] \<and> hd ds = CHR ''0'' then ''0'' else ds)"

definition frac_part :: "string \<Rightarrow> string \<times> string" where
  "frac_part s = (case s of
      [] \<Rightarrow> ([], s)
    | c # r \<Rightarrow> if c = CHR ''.'' \<and> takeWhile is_digit r \<noteq> []
        then (takeWhile is_digit r, dropWhile is_digit r) else ([], s))"

definition exp_part :: "string \<Rightarrow> int option \<times> string" where
  "exp_part s = (case s of
      [] \<Rightarrow> (None, s)
    | c # r \<Rightarrow> if c \<in> {CHR ''e'', CHR ''E''} then
          (let signed = (r \<noteq> [] \<and> hd r \<in> {CHR ''-'', CHR ''+''});
               r' = (if signed then tl r else r); ed = takeWhile is_digit r' in
           if ed = [] then (None, s)
           else (Some ((if signed \<and> hd r = CHR ''-'' then -1 else 1) * int (read_nat ed)), dropWhile is_digit r'))
        else (None, s))"

definition jp_number :: "string \<Rightarrow> (pyval \<times> string) option" where
  "jp_number s = (let neg = (s \<noteq> [] \<and> hd s = CHR ''-''); r0 = (if neg then tl s else s);
       sgn = (if neg then -1 else (1 :: int)); ds = int_digits r0 in
     if ds = [] then None
     else (case frac_part (drop (length ds) r0) of (fs, r1) \<Rightarrow>
       (case exp_part r1 of (ex, r2) \<Rightarrow>
          if fs = [] \<and> ex = None then Some (PInt (sgn * int (read_nat ds)), r2)
          else Some (PFloat (of_int sgn * (of_nat (read_nat ds) + of_nat (read_nat fs) / 10 ^ length fs)
                 * pow10 (case ex of None \<Rightarrow> 0 | Some e \<Rightarrow> e)), r2))))"

definition jp_literal :: "string \<Rightarrow> (pyval \<times> string) option" where
  "jp_literal s = (if starts_with s ''null'' then Some (PNone, drop 4 s)
     else if starts_with s ''true'' then Some (PBool True, drop 4 s)
     else if starts_with s ''false'' then Some (PBool False, drop 5 s)
     else jp_number s)"

fun jp_value :: "nat \<Rightarrow> string \<Rightarrow> (pyval \<times> string) option"
  and jp_items :: "nat \<Rightarrow> string \<Rightarrow> pyval list \<Rightarrow> (pyval \<times> string) option"
  and jp_members :: "nat \<Rightarrow> string \<Rightarrow> pydict \<Rightarrow> (pyval \<times> string) option" where
  "jp_value 0 s = None"
| "jp_value (Suc n) s = (case s of
      [] \<Rightarrow> None
    | c # r \<Rightarrow>
       if c = DQ then map_option (\<lambda>(t, r'). (PStr t, r')) (jp_string r)
       else if c = CHR ''['' then (case skip_ws r of
           [] \<Rightarrow> None
         | x # r1 \<Rightarrow> if x = CHR '']'' then Some (PList [], r1) else jp_items n (x # r1) [])
       else if c = CHR ''{'' then (case skip_ws r of
           [] \<Rightarrow> None
         | x # r1 \<Rightarrow> if x = CHR ''}'' then Some (PDict [], r1) else jp_members n (x # r1) [])
       else jp_literal s)"
| "jp_items 0 s acc = None"
| "jp_items (Suc n) s acc = (case jp_value n s of
      None \<Rightarrow> None
    | Some (v, r) \<Rightarrow> (case skip_ws r of
          [] \<Rightarrow> None
        | x # r1 \<Rightarrow> if x = CHR '','' then jp_items n (skip_ws r1) (acc @ [v])
                    else if x = CHR '']'' then Some (PList (acc @ [v]), r1)
                    else None))"
| "jp_members 0 s acc = None"
| "jp_members (Suc n) s acc = (case s of
      [] \<Rightarrow> None
    | q # r0 \<Rightarrow> if q \<noteq> DQ then None else (case jp_string r0 of
          None \<Rightarrow> None
        | Some (k, r1) \<Rightarrow> (case skip_ws r1 of
              [] \<Rightarrow> None
            | col # r2 \<Rightarrow> if col \<noteq> CHR '':'' then None else (case jp_value n (skip_ws r2) of
                  None \<Rightarrow> None
                | Some (v, r3) \<Rightarrow> (case skip_ws r3 of
                      [] \<Rightarrow> None
                    | x # r4 \<Rightarrow> if x = CHR '','' then jp_members n (skip_ws r4) (AList.update k v acc)
                                else if x = CHR ''}'' then Some (PDict (AList.update k v acc), r4)
                                else None)))))"

text \<open>None is a JSONDecodeError.\<close>

definition json_load :: "string \<Rightarrow> pyval option" where
  "json_load s = (let s' = skip_ws s in
     case jp_value (Suc (length s')) s' of
       None \<Rightarrow> None
     | Some (v, r) \<Rightarrow> if skip_ws r = [] then Some v else None)"

section \<open>What was written is read back\<close>

subsection \<open>Strings\<close>

lemma hex_val_char: "d < 16 \<Longrightarrow> hex_val (hex_char d) = Some d"
  by (auto simp: hex_val_def hex_char_def of_char_digit Let_def)

lemma hex4_byte: "hex4 (CHR ''0'') (CHR ''0'') (hex_char (n div 16)) (hex_char (n mod 16)) = Some (char_of n)"
  if "n < 256" for n :: nat
proof -
  have "n div 16 < 16" using that by simp
  moreover have "hex_val (CHR ''0'') = Some 0" by (simp add: hex_val_def)
  ultimately show ?thesis by (simp add: hex4_def hex_val_char)
qed

lemma jp_string_char: "jp_string (json_char ch @ s) = cons_fst (Some ch) (jp_string s)"
proof -
  let ?n = "of_char ch :: nat"
  have un: "unescape DQ = Some DQ" "unescape BSL = Some BSL" "unescape (CHR ''n'') = Some NL"
    "unescape (CHR ''r'') = Some CR" "unescape (CHR ''t'') = Some (CHR 0x09)"
    "unescape (CHR ''f'') = Some (CHR 0x0C)" "unescape (CHR ''b'') = Some (CHR 0x08)"
    by (simp_all add: unescape_def)
  consider "?n \<in> {34, 92, 10, 13, 9, 12, 8}" | "?n \<notin> {34, 92}" "32 \<le> ?n" "?n \<le> 126"
    | "?n \<notin> {34, 92, 10, 13, 9, 12, 8}" "\<not> (32 \<le> ?n \<and> ?n \<le> 126)" by fastforce
  then show ?thesis
  proof cases
    case 1
    then have "?n \<in> of_char ` {DQ, BSL, NL, CR, CHR 0x09, CHR 0x0C, CHR 0x08}" by simp
    then have "ch \<in> {DQ, BSL, NL, CR, CHR 0x09, CHR 0x0C, CHR 0x08}"
      by (metis (no_types, lifting) imageE of_char_eq_iff)
    then show ?thesis by (elim insertE emptyE) (simp_all add: json_char_def un)
  next
    case 2
    then have "ch \<noteq> DQ" "ch \<noteq> BSL" by auto
    with 2 show ?thesis by (simp add: json_char_def)
  next
    case 3
    then have "json_char ch = [BSL, CHR ''u'', CHR ''0'', CHR ''0'', hex_char (?n div 16), hex_char (?n mod 16)]"
      by (simp add: json_char_def Let_def)
    moreover have "?n < 256" using nat_of_char_less_256 [of ch] by simp
    ultimately show ?thesis by (simp add: hex4_byte)
  qed
qed

lemma jp_string_string: "jp_string (concat (map json_char s) @ DQ # r) = Some (s, r)"
  by (induction s) (simp_all add: jp_string_char cons_fst_def)

subsection \<open>Numbers\<close>

lemma show_nat_hd: "hd (show_nat n) = CHR ''0'' \<Longrightarrow> n = 0"
proof (induction n rule: show_nat.induct)
  case (1 n)
  show ?case
  proof (cases "n < 10")
    case True
    then have "digit_char n = CHR ''0''" using 1(2) by (simp add: show_nat.simps [of n])
    moreover have "digit_val (CHR ''0'') = 0" by (simp add: digit_val_def)
    ultimately show ?thesis using digit_val_char [OF True] by simp
  next
    case False
    then have "hd (show_nat n) = hd (show_nat (n div 10))"
      by (simp add: show_nat.simps [of n])
    with 1 False show ?thesis by simp
  qed
qed

definition sep_ok :: "string \<Rightarrow> bool" where
  "sep_ok r \<longleftrightarrow> r = [] \<or> hd r \<in> {CHR '','', CHR '']'', CHR ''}'', NL}"

lemma sep_not: "sep_ok r \<Longrightarrow> r \<noteq> [] \<Longrightarrow>
    \<not> is_digit (hd r) \<and> hd r \<noteq> CHR ''.'' \<and> hd r \<noteq> CHR ''e'' \<and> hd r \<noteq> CHR ''E''"
  by (auto simp: sep_ok_def is_digit_def)

lemma takeWhile_show_nat: "r = [] \<or> \<not> is_digit (hd r) \<Longrightarrow> takeWhile is_digit (show_nat n @ r) = show_nat n"
  using show_nat_digits [of n] by (cases r) auto

lemma int_digits_end: "r = [] \<or> \<not> is_digit (hd r) \<Longrightarrow> int_digits (show_nat n @ r) = show_nat n"
proof -
  assume r: "r = [] \<or> \<not> is_digit (hd r)"
  have "show_nat n = ''0''" if "hd (show_nat n) = CHR ''0''"
    using show_nat_hd [OF that] by simp code_simp
  then show ?thesis by (auto simp: int_digits_def takeWhile_show_nat [OF r] Let_def)
qed

lemma int_digits_show: "sep_ok r \<Longrightarrow> int_digits (show_nat n @ r) = show_nat n"
  using sep_not [of r] by (intro int_digits_end) auto

lemma no_frac_exp: "sep_ok r \<Longrightarrow> frac_part r = ([], r) \<and> exp_part r = (None, r)"
  using sep_not [of r] by (cases r) (simp_all add: frac_part_def exp_part_def)

lemma jp_number_nat:
  assumes r: "sep_ok r"
  shows "jp_number (show_nat n @ r) = Some (PInt (int n), r)"
    "jp_number (CHR ''-'' # show_nat n @ r) = Some (PInt (- int n), r)"
proof -
  have "hd (show_nat n @ r) \<noteq> CHR ''-''"
    using show_nat_digits [of n] by (cases "show_nat n") (auto simp: is_digit_def)
  then show "jp_number (show_nat n @ r) = Some (PInt (int n), r)"
    by (simp add: jp_number_def Let_def int_digits_show [OF r] no_frac_exp [OF r])
  show "jp_number (CHR ''-'' # show_nat n @ r) = Some (PInt (- int n), r)"
    by (simp add: jp_number_def Let_def int_digits_show [OF r] no_frac_exp [OF r])
qed

lemma jp_number_int: "sep_ok r \<Longrightarrow> jp_number (show_int i @ r) = Some (PInt i, r)"
  using jp_number_nat [of r "nat i"] jp_number_nat [of r "nat (- i)"] by (simp add: show_int_def)

lemma show_int_hd: "\<exists>c t. show_int i = c # t \<and> (is_digit c \<or> c = CHR ''-'')"
  using show_nat_digits [of "nat i"] by (cases "show_nat (nat i)") (auto simp: show_int_def)

subsection \<open>Floats\<close>

lemma frac_digits_read:
  "r = of_nat m / 10 ^ k \<Longrightarrow> m < 10 ^ k \<Longrightarrow> k \<le> n \<Longrightarrow>
   of_nat (read_nat (frac_digits n r)) / 10 ^ length (frac_digits n r) = r"
proof (induction n arbitrary: r m k)
  case 0
  then show ?case by (simp add: read_nat_def)
next
  case (Suc n)
  show ?case
  proof (cases "r = 0")
    case False
    then obtain j where k: "k = Suc j" using Suc.prems by (cases k) auto
    let ?d = "m div 10 ^ j"
    have r10: "10 * r = of_nat m / 10 ^ j" using Suc.prems(1) k by simp
    then have "10 * r = of_nat m / of_nat (10 ^ j)" by simp
    then have fl: "\<lfloor>10 * r\<rfloor> = int ?d" by (simp only: floor_divide_of_nat_eq)
    have d: "?d < 10" using Suc.prems(2) k by (simp add: less_mult_imp_div_less mult.commute)
    have "10 * r - of_nat ?d = of_nat (m mod 10 ^ j) / 10 ^ j"
    proof -
      have "(of_nat m :: rat) = of_nat ?d * 10 ^ j + of_nat (m mod 10 ^ j)"
        using arg_cong [OF div_mult_mod_eq [of m "10 ^ j", symmetric], of "of_nat :: nat \<Rightarrow> rat"] by simp
      then show ?thesis using r10 by (simp add: field_simps)
    qed
    from Suc.IH [OF this] have IH: "of_nat (read_nat (frac_digits n (10 * r - of_nat ?d))) /
        10 ^ length (frac_digits n (10 * r - of_nat ?d)) = 10 * r - of_nat ?d"
      using Suc.prems k by simp
    then show ?thesis using False fl d
      by (simp add: Let_def read_nat_Cons field_simps)
  qed (simp add: read_nat_def)
qed

lemma frac_digits_digits: "0 \<le> r \<Longrightarrow> r < 1 \<Longrightarrow> \<forall>c \<in> set (frac_digits n r). is_digit c"
proof (induction n arbitrary: r)
  case (Suc n)
  let ?d = "nat \<lfloor>10 * r\<rfloor>"
  have d: "?d < 10" using Suc.prems by (simp add: nat_less_iff floor_less_iff)
  have "of_nat ?d \<le> 10 * r" "10 * r < of_nat ?d + 1" using Suc.prems by simp_all linarith
  then have "0 \<le> 10 * r - of_nat ?d" "10 * r - of_nat ?d < 1" by linarith+
  from Suc.IH [OF this] d show ?case by (simp add: Let_def)
qed simp

text \<open>The decimal number of a float that \<open>repr\<close> writes without an exponent: it has at most 17 digits,
  the first one at \<open>10 ^ -4\<close> or before.\<close>

definition plain_float :: "rat \<Rightarrow> bool" where
  "plain_float r \<longleftrightarrow> (r = 0 \<or> 1 / 10 ^ 4 \<le> \<bar>r\<bar>) \<and> \<bar>r\<bar> < 10 ^ 16 \<and> of_int \<lfloor>\<bar>r\<bar> * 10 ^ 20\<rfloor> = \<bar>r\<bar> * 10 ^ 20"

definition show_frac :: "rat \<Rightarrow> string" where
  "show_frac r = (let f = frac_digits 330 r in if f = [] then ''0'' else f)"

lemma show_rat_frac: "show_rat r = (if r < 0 then ''-'' else []) @ show_nat (nat \<lfloor>\<bar>r\<bar>\<rfloor>) @ CHR ''.'' # show_frac (\<bar>r\<bar> - of_int \<lfloor>\<bar>r\<bar>\<rfloor>)"
  by (simp add: show_rat_def show_frac_def Let_def)

lemma show_frac_read:
  assumes "r = of_nat m / 10 ^ k" "m < 10 ^ k" "k \<le> 330"
  shows "show_frac r \<noteq> []" "\<forall>c \<in> set (show_frac r). is_digit c"
    "of_nat (read_nat (show_frac r)) / 10 ^ length (show_frac r) = r"
proof -
  have "(of_nat m :: rat) < of_nat (10 ^ k)" using assms(2) by (simp only: of_nat_less_iff)
  then have r: "0 \<le> r" "r < 1" unfolding assms(1) by simp_all
  have rd: "of_nat (read_nat (frac_digits 330 r)) / 10 ^ length (frac_digits 330 r) = r"
    by (rule frac_digits_read [OF assms])
  have z: "read_nat ''0'' = 0" "is_digit (CHR ''0'')" by code_simp+
  show "show_frac r \<noteq> []" by (simp add: show_frac_def Let_def)
  show "\<forall>c \<in> set (show_frac r). is_digit c"
    using frac_digits_digits [OF r, of 330] z by (simp add: show_frac_def Let_def)
  show "of_nat (read_nat (show_frac r)) / 10 ^ length (show_frac r) = r"
    using rd z by (auto simp: show_frac_def Let_def read_nat_def)
qed

lemma plain_frac:
  assumes "plain_float r"
  shows "\<exists>m. \<bar>r\<bar> - of_int \<lfloor>\<bar>r\<bar>\<rfloor> = of_nat m / 10 ^ 20 \<and> m < 10 ^ 20"
proof -
  let ?a = "\<bar>r\<bar>" and ?n = "\<lfloor>\<bar>r\<bar> * 10 ^ 20\<rfloor>"
  have n: "of_int ?n = ?a * 10 ^ 20" using assms by (simp add: plain_float_def)
  define k where "k = ?n - \<lfloor>?a\<rfloor> * 10 ^ 20"
  have e: "of_int k = (?a - of_int \<lfloor>?a\<rfloor>) * 10 ^ 20" using n by (simp add: k_def algebra_simps)
  have "0 \<le> ?a - of_int \<lfloor>?a\<rfloor>" "?a - of_int \<lfloor>?a\<rfloor> < 1" by linarith+
  then have "(0 :: rat) \<le> of_int k" "(of_int k :: rat) < 10 ^ 20" unfolding e by simp_all
  then have k: "0 \<le> k" "k < 10 ^ 20" by simp_all
  then have "?a - of_int \<lfloor>?a\<rfloor> = of_nat (nat k) / 10 ^ 20" using e by simp
  moreover have "nat k < 10 ^ 20" using k by simp
  ultimately show ?thesis by blast
qed

lemma jp_number_frac:
  assumes "f \<noteq> []" "\<forall>c \<in> set f. is_digit c" "sep_ok s"
  shows "jp_number (show_nat i @ CHR ''.'' # f @ s) = Some (PFloat (of_nat i + of_nat (read_nat f) / 10 ^ length f), s)"
    "jp_number (CHR ''-'' # show_nat i @ CHR ''.'' # f @ s) = Some (PFloat (- (of_nat i + of_nat (read_nat f) / 10 ^ length f)), s)"
proof -
  have "takeWhile is_digit (f @ s) = f" "dropWhile is_digit (f @ s) = s"
    using assms(2) sep_not [OF assms(3)] by (cases s; simp add: takeWhile_append dropWhile_append)+
  then have fp: "frac_part (CHR ''.'' # f @ s) = (f, s)" using assms(1) by (simp add: frac_part_def)
  have ds: "int_digits (show_nat i @ CHR ''.'' # f @ s) = show_nat i"
    by (rule int_digits_end) (simp add: is_digit_def)
  have hd: "hd (show_nat i @ t) \<noteq> CHR ''-''" for t
    using show_nat_digits [of i] by (cases "show_nat i") (auto simp: is_digit_def)
  show "jp_number (show_nat i @ CHR ''.'' # f @ s) = Some (PFloat (of_nat i + of_nat (read_nat f) / 10 ^ length f), s)"
    using hd [of "CHR ''.'' # f @ s"] by (simp add: jp_number_def Let_def ds fp assms(1) no_frac_exp [OF assms(3)] pow10_def)
  show "jp_number (CHR ''-'' # show_nat i @ CHR ''.'' # f @ s) = Some (PFloat (- (of_nat i + of_nat (read_nat f) / 10 ^ length f)), s)"
    by (simp add: jp_number_def Let_def ds fp assms(1) no_frac_exp [OF assms(3)] pow10_def)
qed

lemma jp_number_float:
  assumes "plain_float r" "sep_ok s"
  shows "jp_number (show_rat r @ s) = Some (PFloat r, s)"
proof -
  define a where "a = \<bar>r\<bar>"
  define f where "f = show_frac (a - of_int \<lfloor>a\<rfloor>)"
  obtain m where "a - of_int \<lfloor>a\<rfloor> = of_nat m / 10 ^ 20" "m < 10 ^ 20" using plain_frac [OF assms(1)] unfolding a_def by blast
  note sf = show_frac_read [OF this, simplified, folded f_def]
  have "0 \<le> a" by (simp add: a_def)
  then have v: "of_nat (nat \<lfloor>a\<rfloor>) + of_nat (read_nat f) / 10 ^ length f = a" using sf(3) by simp
  have "show_rat r = (if r < 0 then ''-'' else []) @ show_nat (nat \<lfloor>a\<rfloor>) @ CHR ''.'' # f"
    by (simp only: show_rat_frac a_def f_def)
  moreover have "r = (if r < 0 then - a else a)" by (simp add: a_def)
  ultimately show ?thesis using jp_number_frac [OF sf(1,2) assms(2), of "nat \<lfloor>a\<rfloor>"] unfolding v by (cases "r < 0") simp_all
qed

lemma show_rat_hd: "\<exists>c t. show_rat r = c # t \<and> (is_digit c \<or> c = CHR ''-'')"
  using show_nat_digits [of "nat \<lfloor>\<bar>r\<bar>\<rfloor>"]
  by (cases "show_nat (nat \<lfloor>\<bar>r\<bar>\<rfloor>)") (auto simp: show_rat_frac)

subsection \<open>Values\<close>

text \<open>The values of the round trip: dicts with distinct keys, floats that print without an exponent.\<close>

fun json_ok :: "pyval \<Rightarrow> bool"
  and json_ok_list :: "pyval list \<Rightarrow> bool"
  and json_ok_dict :: "pydict \<Rightarrow> bool" where
  "json_ok (PFloat r) = plain_float r"
| "json_ok (PList xs) = json_ok_list xs"
| "json_ok (PDict d) = (distinct (map fst d) \<and> json_ok_dict d)"
| "json_ok v = True"
| "json_ok_list [] = True"
| "json_ok_list (x # xs) = (json_ok x \<and> json_ok_list xs)"
| "json_ok_dict [] = True"
| "json_ok_dict ((k, v) # d) = (json_ok v \<and> json_ok_dict d)"

lemma json_dump_hd:
  assumes "json_ok v"
  obtains c t where "json_dump lvl v = c # t" "\<not> json_space c" "c \<noteq> CHR '']''"
proof (cases v)
  case (PInt i)
  obtain c t where "show_int i = c # t" "is_digit c \<or> c = CHR ''-''" using show_int_hd by blast
  moreover then have "\<not> json_space c" "c \<noteq> CHR '']''" by (auto simp: json_space_def is_digit_def)
  ultimately show ?thesis using that [of c t] PInt by simp
next
  case (PFloat r)
  obtain c t where "show_rat r = c # t" "is_digit c \<or> c = CHR ''-''" using show_rat_hd by blast
  moreover then have "\<not> json_space c" "c \<noteq> CHR '']''" by (auto simp: json_space_def is_digit_def)
  ultimately show ?thesis using that [of c t] PFloat by simp
next
  case (PBool b)
  then show ?thesis using that by (cases b) (auto simp: json_space_def)
qed (use assms that in \<open>auto simp: json_string_def json_space_def split: if_splits\<close>)

lemma skip_dump: "json_ok v \<Longrightarrow> skip_ws (json_dump lvl v @ r) = json_dump lvl v @ r"
  by (rule json_dump_hd [of v lvl]) simp_all

lemma skip_indent [simp]: "skip_ws (json_indent lvl @ r) = skip_ws r"
proof -
  have "skip_ws (replicate n (CHR '' '') @ r) = skip_ws r" for n
    by (induction n) (simp_all add: json_space_def)
  then show ?thesis by (simp add: json_indent_def json_space_def)
qed

lemma length_indent: "0 < length (json_indent lvl)"
  by (simp add: json_indent_def)

lemma sep_indent [simp]: "sep_ok (json_indent lvl @ r)" "sep_ok (CHR '','' # r)"
  by (simp_all add: sep_ok_def json_indent_def)

lemma jp_value_number:
  assumes "jp_number s = Some (v, r)" "s = c # t" "is_digit c \<or> c = CHR ''-''"
  shows "jp_value (Suc n) s = Some (v, r)"
proof -
  have "c \<notin> {CHR ''n'', CHR ''t'', CHR ''f'', DQ, CHR ''['', CHR ''{''}" using assms(3) by (auto simp: is_digit_def)
  then show ?thesis using assms(1,2) by (simp add: jp_literal_def starts_with_def)
qed

lemma jp_value_int: "sep_ok r \<Longrightarrow> jp_value (Suc n) (show_int i @ r) = Some (PInt i, r)"
  by (metis show_int_hd jp_number_int jp_value_number append_Cons)

lemma jp_value_float: "plain_float f \<Longrightarrow> sep_ok r \<Longrightarrow> jp_value (Suc n) (show_rat f @ r) = Some (PFloat f, r)"
  by (metis show_rat_hd jp_number_float jp_value_number append_Cons)

lemma space_facts [simp]: "\<not> json_space (CHR '','')" "\<not> json_space (CHR '']'')" "\<not> json_space (CHR ''}'')"
    "\<not> json_space (CHR '':'')" "\<not> json_space DQ" "json_space (CHR '' '')"
  by (simp_all add: json_space_def)

lemma skip_string [simp]: "skip_ws (json_string k @ r) = json_string k @ r"
  by (simp add: json_string_def)

lemma AList_update_new: "k \<notin> fst ` set d \<Longrightarrow> AList.update k v d = d @ [(k, v)]"
  by (induction d) auto

lemma jp_dump:
  "json_ok v \<Longrightarrow> sep_ok r \<Longrightarrow> length (json_dump lvl v) \<le> n \<Longrightarrow> jp_value n (json_dump lvl v @ r) = Some (v, r)"
  "json_ok_list xs \<Longrightarrow> xs \<noteq> [] \<Longrightarrow> length (json_list lvl xs) \<le> n \<Longrightarrow>
     jp_items n (skip_ws (json_list lvl xs @ r)) acc = Some (PList (acc @ xs), r)"
  "json_ok_dict d \<Longrightarrow> d \<noteq> [] \<Longrightarrow> distinct (map fst (e @ d)) \<Longrightarrow> length (json_dict lvl d) \<le> n \<Longrightarrow>
     jp_members n (skip_ws (json_dict lvl d @ r)) e = Some (PDict (e @ d), r)"
proof (induction lvl v and lvl xs and lvl d arbitrary: n r and n r acc and n r e rule: json_dump_json_list_json_dict.induct)
  case (1 lvl) then show ?case by (cases n) (simp_all add: jp_literal_def starts_with_def)
next
  case (2 lvl b) then show ?case by (cases n; cases b) (simp_all add: jp_literal_def starts_with_def)
next
  case (3 lvl i) then show ?case
    using show_int_hd [of i] by (cases n) (auto simp: jp_value_int simp del: jp_value.simps(2))
next
  case (4 lvl f) then show ?case
    using show_rat_hd [of f] by (cases n) (auto simp: jp_value_float simp del: jp_value.simps(2))
next
  case (5 lvl s) then show ?case by (cases n) (auto simp: json_string_def jp_string_string)
next
  case (6 lvl xs)
  show ?case
  proof (cases xs)
    case Nil
    with 6 show ?thesis by (cases n) simp_all
  next
    case (Cons x ys)
    obtain m where n: "n = Suc m" using 6(4) by (cases n) auto
    have ox: "json_ok x" using 6(2) Cons by simp
    obtain c t where c: "json_dump (Suc lvl) x = c # t" "\<not> json_space c" "c \<noteq> CHR '']''"
      using json_dump_hd [OF ox] by blast
    have "\<exists>u. skip_ws (json_list lvl xs @ r) = c # u" using c Cons by simp
    moreover have "jp_items m (skip_ws (json_list lvl xs @ r)) [] = Some (PList xs, r)"
      using 6(1) [of m r "[]"] 6(2,4) Cons n by simp
    ultimately show ?thesis using c(3) Cons n by auto
  qed
next
  case (7 lvl d)
  show ?case
  proof (cases d)
    case Nil
    with 7 show ?thesis by (cases n) simp_all
  next
    case (Cons kv ys)
    obtain k v where kv: "kv = (k, v)" by (cases kv)
    obtain m where n: "n = Suc m" using 7(4) by (cases n) auto
    have "\<exists>u. skip_ws (json_dict lvl d @ r) = DQ # u" using Cons kv by (simp add: json_string_def)
    moreover have "jp_members m (skip_ws (json_dict lvl d @ r)) [] = Some (PDict d, r)"
      using 7(1) [of "[]" m r] 7(2,4) Cons n by simp
    ultimately show ?thesis using Cons n by auto
  qed
next
  case (8 lvl) then show ?case by simp
next
  case (9 lvl x xs)
  obtain m where n: "n = Suc m" using 9(5) length_indent [of "Suc lvl"] by (cases n) auto
  let ?tail = "if xs = [] then json_indent lvl @ '']'' else CHR '','' # json_list lvl xs"
  have len: "length (json_dump (Suc lvl) x) \<le> m" "xs \<noteq> [] \<Longrightarrow> length (json_list lvl xs) \<le> m"
    using 9(5) n length_indent [of "Suc lvl"] by (auto split: if_splits)
  have v: "jp_value m (json_dump (Suc lvl) x @ ?tail @ r) = Some (x, ?tail @ r)"
    using 9(1) [of "?tail @ r" m] 9(3) len(1) by (auto split: if_splits)
  have s: "skip_ws (json_list lvl (x # xs) @ r) = json_dump (Suc lvl) x @ ?tail @ r"
    using 9(3) by (simp add: skip_dump)
  show ?case
  proof (cases "xs = []")
    case True
    with v show ?thesis unfolding s n by simp
  next
    case False
    then have "jp_items m (skip_ws (json_list lvl xs @ r)) (acc @ [x]) = Some (PList ((acc @ [x]) @ xs), r)"
      using 9(2) [of m r "acc @ [x]"] 9(3) len(2) by simp
    with v False show ?thesis unfolding s n by simp
  qed
next
  case (10 lvl) then show ?case by simp
next
  case (11 lvl k v d)
  obtain m where n: "n = Suc m" using 11(6) length_indent [of "Suc lvl"] by (cases n) auto
  let ?tail = "if d = [] then json_indent lvl @ ''}'' else CHR '','' # json_dict lvl d"
  have len: "length (json_dump (Suc lvl) v) \<le> m" "d \<noteq> [] \<Longrightarrow> length (json_dict lvl d) \<le> m"
    using 11(6) n length_indent [of "Suc lvl"] by (auto split: if_splits)
  have v: "jp_value m (json_dump (Suc lvl) v @ ?tail @ r) = Some (v, ?tail @ r)"
    using 11(1) [of "?tail @ r" m] 11(3) len(1) by (auto split: if_splits)
  have s: "skip_ws (json_dict lvl ((k, v) # d) @ r) =
      DQ # concat (map json_char k) @ DQ # CHR '':'' # CHR '' '' # json_dump (Suc lvl) v @ ?tail @ r"
    by (simp add: json_string_def)
  have sk: "skip_ws (CHR '' '' # json_dump (Suc lvl) v @ ?tail @ r) = json_dump (Suc lvl) v @ ?tail @ r"
    using 11(3) skip_dump [of v "Suc lvl" "?tail @ r"] by simp
  have up: "AList.update k v e = e @ [(k, v)]" using 11(5) by (intro AList_update_new) auto
  show ?case
  proof (cases "d = []")
    case True
    with v sk show ?thesis unfolding s n by (simp add: jp_string_string up)
  next
    case False
    then have "jp_members m (skip_ws (json_dict lvl d @ r)) (e @ [(k, v)]) = Some (PDict ((e @ [(k, v)]) @ d), r)"
      using 11(2) [of "e @ [(k, v)]" m r] 11(3,5) len(2) by simp
    with v sk False show ?thesis unfolding s n by (simp add: jp_string_string up)
  qed
qed

lemma json_load_dump: "json_ok v \<Longrightarrow> json_load (json_dump lvl v) = Some v"
  using jp_dump(1) [of v "[]" lvl "Suc (length (json_dump lvl v))"] skip_dump [of v lvl "[]"]
  by (simp add: json_load_def sep_ok_def)

end
