(* ===== verification/DocStores.thy ===== *)
theory DocStores
  imports TextStores Json
begin

text \<open>
  The stores whose file holds one encoded document: JsonKvStore, YamlKvStore and
  TomlKvStore, and DictKvStore (with JsonMessageKvStore), whose document is the path of
  its URL; src/py-utils/src/utils/kv_store/kv_store_collection.py.

  JSON is Python's own module (theory Json). The YAML and TOML codecs are the packages
  yaml and toml: a pair of functions \<open>enc\<close>, \<open>dec\<close> that the stores take as arguments, \<open>enc v\<close>
  being the text written and the exception that stopped the writing, if any. The law they
  are asked is the locale \<open>text_codec\<close>, that a document written is read back.
\<close>

section \<open>Methods\<close>

definition json_store_init :: "string \<Rightarrow> string \<Rightarrow> file_system \<Rightarrow> file_store" where
  "json_store_init path delim files =
     (let s = \<lparr>fs_path = path, fs_delim = delim, fs_files = files\<rparr> in
      if files path = None then write_file s ''{}'' else s)"

definition json_store_load :: "file_store \<Rightarrow> bool \<Rightarrow> file_store \<times> (pyexc + kv_payload)" where
  "json_store_load s recurse = (s, case fs_files s (fs_path s) of
      None \<Rightarrow> Inl (OSError ENOENT)
    | Some t \<Rightarrow> (case json_load t of
          None \<Rightarrow> Inl (KvError EINVAL)
        | Some data \<Rightarrow> kp_init data (fs_delim s) recurse))"

definition json_store_dump :: "file_store \<Rightarrow> kv_payload \<Rightarrow> file_store \<times> pyexc option" where
  "json_store_dump s p = (write_file s (json_dump 0 (kp_data p)), None)"

text \<open>The constructors of the YAML and TOML stores leave an empty file.\<close>

definition yaml_store_init :: "string \<Rightarrow> string \<Rightarrow> file_system \<Rightarrow> file_store" where
  "yaml_store_init path delim files =
     (let s = \<lparr>fs_path = path, fs_delim = delim, fs_files = files\<rparr> in
      if files path = None then write_file s [] else s)"

definition yaml_store_load :: "(string \<Rightarrow> pyval option) \<Rightarrow> file_store \<Rightarrow> bool \<Rightarrow>
    file_store \<times> (pyexc + kv_payload)" where
  "yaml_store_load safe_load s recurse = (s, case fs_files s (fs_path s) of
      None \<Rightarrow> Inl (OSError ENOENT)
    | Some t \<Rightarrow> (case safe_load t of
          None \<Rightarrow> Inl (KvError EINVAL)
        | Some data \<Rightarrow> kp_init data (fs_delim s) recurse))"

definition yaml_store_dump :: "(pyval \<Rightarrow> string \<times> pyexc option) \<Rightarrow> file_store \<Rightarrow> kv_payload \<Rightarrow>
    file_store \<times> pyexc option" where
  "yaml_store_dump dump s p = (let (t, e) = dump (kp_data p) in (write_file s t, e))"

definition toml_store_init :: "string \<Rightarrow> string \<Rightarrow> file_system \<Rightarrow> file_store" where
  "toml_store_init path delim files =
     (let s = \<lparr>fs_path = path, fs_delim = delim, fs_files = files\<rparr> in
      if files path = None then write_file s [] else s)"

definition toml_store_load :: "(string \<Rightarrow> pyval option) \<Rightarrow> file_store \<Rightarrow> bool \<Rightarrow>
    file_store \<times> (pyexc + kv_payload)" where
  "toml_store_load load s recurse = (s, case fs_files s (fs_path s) of
      None \<Rightarrow> Inl (OSError ENOENT)
    | Some t \<Rightarrow> (case load t of
          None \<Rightarrow> Inl (KvError EINVAL)
        | Some data \<Rightarrow> kp_init data (fs_delim s) recurse))"

definition toml_store_dump :: "(pyval \<Rightarrow> string \<times> pyexc option) \<Rightarrow> file_store \<Rightarrow> kv_payload \<Rightarrow>
    file_store \<times> pyexc option" where
  "toml_store_dump dump s p = (let (t, e) = dump (kp_data p) in (write_file s t, e))"

text \<open>\<open>DictKvStore\<close>: the document is \<open>_store_path\<close> itself, a string until the first
  dump puts the payload's dict there. \<open>json.loads\<close> of a dict is a TypeError.\<close>

record dict_store =
  ds_path :: pyval
  ds_delim :: string

definition dict_store_load :: "dict_store \<Rightarrow> bool \<Rightarrow> dict_store \<times> (pyexc + kv_payload)" where
  "dict_store_load s recurse = (s, case ds_path s of
      PStr t \<Rightarrow> (case json_load t of
          None \<Rightarrow> Inl (KvError EINVAL)
        | Some data \<Rightarrow> kp_init data (ds_delim s) recurse)
    | _ \<Rightarrow> Inl TypeError)"

definition dict_store_dump :: "dict_store \<Rightarrow> kv_payload \<Rightarrow> dict_store \<times> pyexc option" where
  "dict_store_dump s p = (s\<lparr>ds_path := kp_data p\<rparr>, None)"

definition json_class :: "(file_store, kv_payload) store_class" where
  "json_class = \<lparr>sc_load = json_store_load, sc_dump = json_store_dump, sc_share = (\<lambda>s p. s)\<rparr>"

definition yaml_class :: "(pyval \<Rightarrow> string \<times> pyexc option) \<Rightarrow> (string \<Rightarrow> pyval option) \<Rightarrow>
    (file_store, kv_payload) store_class" where
  "yaml_class enc dec = \<lparr>sc_load = yaml_store_load dec, sc_dump = yaml_store_dump enc, sc_share = (\<lambda>s p. s)\<rparr>"

definition toml_class :: "(pyval \<Rightarrow> string \<times> pyexc option) \<Rightarrow> (string \<Rightarrow> pyval option) \<Rightarrow>
    (file_store, kv_payload) store_class" where
  "toml_class enc dec = \<lparr>sc_load = toml_store_load dec, sc_dump = toml_store_dump enc, sc_share = (\<lambda>s p. s)\<rparr>"

definition dict_class :: "(dict_store, kv_payload) store_class" where
  "dict_class = \<lparr>sc_load = dict_store_load, sc_dump = dict_store_dump, sc_share = (\<lambda>s p. s)\<rparr>"

section \<open>Document stores keep the store laws\<close>

text \<open>The three file stores have the same methods, up to the codec.\<close>

lemma doc_classes:
  "toml_class enc dec = yaml_class enc dec"
  "json_class = yaml_class (\<lambda>v. (json_dump 0 v, None)) json_load"
  by (simp_all add: toml_class_def yaml_class_def json_class_def toml_store_load_def yaml_store_load_def
      toml_store_dump_def yaml_store_dump_def json_store_load_def json_store_dump_def fun_eq_iff)

locale text_codec = hereditary ok
  for ok :: "pyval \<Rightarrow> bool" +
  fixes enc :: "pyval \<Rightarrow> string \<times> pyexc option"
    and dec :: "string \<Rightarrow> pyval option"
  assumes ok_wf: "ok v \<Longrightarrow> pywf v"
    and dec_enc: "ok (PDict d) \<Longrightarrow> \<exists>t. enc (PDict d) = (t, None) \<and> dec t = Some (PDict d)"

text \<open>\<open>doc_inv\<close>: the payload can be encoded; \<open>doc_sok\<close>: what the file holds, if
  anything, decodes to such a payload or not at all (YAML's None is an empty dict).\<close>

definition doc_inv :: "(pyval \<Rightarrow> bool) \<Rightarrow> char \<Rightarrow> kv_payload \<Rightarrow> bool" where
  "doc_inv ok c p \<longleftrightarrow> kp_inv c p \<and> ok (kp_data p)"

definition doc_sok :: "(pyval \<Rightarrow> bool) \<Rightarrow> (string \<Rightarrow> pyval option) \<Rightarrow> char \<Rightarrow> file_store \<Rightarrow> bool" where
  "doc_sok ok dec c s \<longleftrightarrow> fs_delim s = [c] \<and>
     (\<forall>t v. fs_files s (fs_path s) = Some t \<and> dec t = Some v \<longrightarrow> v = PNone \<or> (ok v \<and> (\<exists>d. v = PDict d)))"

locale doc_store = text_codec ok enc dec
  for ok :: "pyval \<Rightarrow> bool" and enc :: "pyval \<Rightarrow> string \<times> pyexc option" and dec :: "string \<Rightarrow> pyval option" +
  fixes c :: char
begin

lemma doc_set_inv: "doc_inv ok c p \<Longrightarrow> ok v \<Longrightarrow> doc_inv ok c (fst (kp_set p k v))"
  using kp_set_inv [of c p v k] Q_kv_set [of "kp_data p" v c k] ok_wf [of v]
  by (auto simp: doc_inv_def kp_inv_def kp_set_data)

lemma doc_delete_inv: "doc_inv ok c p \<Longrightarrow> doc_inv ok c (fst (kp_delete p k f))"
  using kp_delete_inv [of c p k f] Q_kv_delete [of c k f "kp_data p"]
  by (auto simp: doc_inv_def kp_inv_def kp_delete_def split: sum.split)

lemma doc_load_inv:
  assumes "doc_sok ok dec c s" "sc_load (yaml_class enc dec) s True = (s', Inr p)"
  shows "doc_inv ok c p"
proof -
  obtain t v where v: "fs_files s (fs_path s) = Some t" "dec t = Some v" "kp_init v [c] True = Inr p"
    using assms by (auto simp: yaml_class_def yaml_store_load_def doc_sok_def split: option.splits)
  obtain d where d: "kp_init (PDict d) [c] True = Inr p" "ok (PDict d)"
  proof (cases "v = PNone")
    case True
    then show ?thesis using that [of "[]"] v(3) Q_empty by (simp add: kp_init_def)
  next
    case False
    then show ?thesis using that assms(1) v unfolding doc_sok_def by metis
  qed
  with kp_init_inv [OF ok_wf] show ?thesis by (simp add: doc_inv_def)
qed

lemma doc_dump_load:
  assumes "doc_sok ok dec c s" "doc_inv ok c p" "sc_dump (yaml_class enc dec) s p = (s', None)"
  shows "doc_sok ok dec c s' \<and> (\<exists>q. sc_load (yaml_class enc dec) s' True = (s', Inr q) \<and>
    (\<forall>k. snd (pl_get kv_class q k) = snd (pl_get kv_class p k)))"
proof -
  obtain d where d: "kp_data p = PDict d" "kp_delim p = [c]" "ok (PDict d)"
    using assms(2) by (auto simp: doc_inv_def kp_inv_def)
  obtain t where t: "enc (PDict d) = (t, None)" "dec t = Some (PDict d)" using dec_enc [OF d(3)] by blast
  have s': "s' = write_file s t" using assms(3) t d by (simp add: yaml_class_def yaml_store_dump_def)
  obtain q where q: "kp_init (PDict d) [c] True = Inr q" "kp_data q = PDict d" "kp_delim q = [c]"
    using kp_init_dict by blast
  have "sc_load (yaml_class enc dec) s' True = (s', Inr q)"
    using t q assms(1) by (simp add: s' yaml_class_def yaml_store_load_def doc_sok_def)
  moreover have "snd (pl_get kv_class q k) = snd (pl_get kv_class p k)" for k
    using q d by (simp add: kv_class_def kp_get_def)
  moreover have "doc_sok ok dec c s'" using assms(1) t d by (auto simp: s' doc_sok_def)
  ultimately show ?thesis by blast
qed

end

sublocale doc_store \<subseteq> payload_laws kv_class "doc_inv ok c" "plain_key c" ok "key_indep c"
proof unfold_locales
  fix p p' k k' v f b
  assume i: "doc_inv ok c p"
  then have kp: "kp_inv c p" by (simp add: doc_inv_def)
  show "doc_inv ok c (fst (pl_get kv_class p k))" using i by (simp add: kv_class_def)
  show "snd (pl_get kv_class (fst (pl_get kv_class p k)) k') = snd (pl_get kv_class p k')"
    by (simp add: kv_class_def)
  show "doc_inv ok c (fst (pl_delete kv_class p k f))"
    using i by (simp add: kv_class_def doc_delete_inv)
  { assume "ok v" then show "doc_inv ok c (fst (pl_set kv_class p k v))"
      using i by (simp add: kv_class_def doc_set_inv) }
  { assume "plain_key c k" "ok v" "pl_set kv_class p k v = (p', None)"
    then show "snd (pl_get kv_class p' k) = Inr v" using kvp.set_same [OF kp] ok_wf by blast }
  { assume "plain_key c k" "plain_key c k'" "key_indep c k k'" "ok v"
    then show "snd (pl_get kv_class (fst (pl_set kv_class p k v)) k') = snd (pl_get kv_class p k')"
      using kvp.set_other [OF kp] ok_wf by blast }
  { assume "plain_key c k" "pl_delete kv_class p k f = (p', Inr b)"
    then show "snd (pl_get kv_class p' k) = Inr PNone" by (rule kvp.delete_same [OF kp]) }
  { assume "plain_key c k" "plain_key c k'" "key_indep c k k'"
    then show "snd (pl_get kv_class (fst (pl_delete kv_class p k f)) k') = snd (pl_get kv_class p k')"
      by (rule kvp.delete_other [OF kp]) }
qed

sublocale doc_store \<subseteq> store_laws kv_class "doc_inv ok c" "plain_key c" ok "key_indep c"
    "yaml_class enc dec" "doc_sok ok dec c"
proof unfold_locales
  fix s s' r p
  assume s: "doc_sok ok dec c s"
  { assume l: "sc_load (yaml_class enc dec) s True = (s', r)"
    then have "s' = s" by (simp add: yaml_class_def yaml_store_load_def)
    with l s doc_load_inv [OF s] show "doc_sok ok dec c s' \<and> (\<forall>p. r = Inr p \<longrightarrow> doc_inv ok c p)" by blast }
  show "doc_sok ok dec c (sc_share (yaml_class enc dec) s p)" using s by (simp add: yaml_class_def)
  assume p: "doc_inv ok c p" "sc_dump (yaml_class enc dec) s p = (s', None)"
  from doc_dump_load [OF s p] show "doc_sok ok dec c s'"
    "\<exists>s'' q. sc_load (yaml_class enc dec) s' True = (s'', Inr q) \<and>
      (\<forall>k. plain_key c k \<longrightarrow> snd (pl_get kv_class q k) = snd (pl_get kv_class p k))" by blast+
qed

context doc_store
begin

lemmas doc_set_get = set_get
lemmas doc_delete_get = delete_get

end

text \<open>The JSON module is such a codec.\<close>

lemma json_ok_list_iff: "json_ok_list xs \<longleftrightarrow> (\<forall>x \<in> set xs. json_ok x)"
  by (induction xs) auto

lemma json_ok_dict_iff: "json_ok_dict d \<longleftrightarrow> (\<forall>(k, v) \<in> set d. json_ok v)"
  by (induction d) auto

lemma json_ok_wf: "json_ok v \<Longrightarrow> pywf v" "json_ok_list xs \<Longrightarrow> wf_list xs" "json_ok_dict d \<Longrightarrow> wf_dict d"
  by (induction v and xs and d rule: json_ok_json_ok_list_json_ok_dict.induct) auto

lemma json_ok_dict_update: "json_ok_dict d \<Longrightarrow> json_ok v \<Longrightarrow> json_ok_dict (AList.update k v d)"
  by (induction d) auto

interpretation js: doc_store json_ok "\<lambda>v. (json_dump 0 v, None)" json_load c for c
proof unfold_locales
  show "json_ok (PDict d) \<Longrightarrow> map_of d k = Some w \<Longrightarrow> json_ok w" for d k w
    by (auto simp: json_ok_dict_iff dest: map_of_SomeD)
  show "json_ok (PDict d) \<Longrightarrow> json_ok v \<Longrightarrow> json_ok (PDict (AList.update k v d))" for d k v
    by (simp add: json_ok_dict_update AList.distinct_update)
  show "json_ok (PDict d) \<Longrightarrow> json_ok (PDict (AList.delete k d))" for d k
    by (auto simp: json_ok_dict_iff AList.delete_eq AList.distinct_delete intro: distinct_map_filter)
  show "json_ok (PList xs) \<longleftrightarrow> (\<forall>x \<in> set xs. json_ok x)" for xs by (simp add: json_ok_list_iff)
  show "json_ok (PDict d) \<Longrightarrow> \<exists>t. (json_dump 0 (PDict d), None) = (t, None) \<and> json_load t = Some (PDict d)" for d
    using json_load_dump by blast
qed (simp_all add: json_ok_wf)

end
