(* ===== verification/StoreProps.thy ===== *)
theory StoreProps
  imports DocStores
begin

text \<open>
  The properties of the file stores: what one call of the store wrote, the next reads,
  and the two operations that do not do this.
\<close>

section \<open>JSON, YAML and TOML\<close>

text \<open>A JSON store with a nested document.\<close>

definition sample_json :: file_store where
  "sample_json = \<lparr>fs_path = ''/etc/a.json'', fs_delim = ''>'',
     fs_files = [''/etc/a.json'' \<mapsto> ''{\"a\": {\"b\": 1}, \"l\": [1, 2]}'']\<rparr>"

text \<open>Claim C25. Values set through a JSON store are read back by the next get on the store:
  the whole way through load, the payload's set, the JSON text in the file, the parser
  and the payload's get.\<close>

theorem json_store_set_get:
  assumes "doc_sok json_ok json_load c s" "ks_set kv_class json_class s keys vals = (s', None)"
    and "list_all (plain_key c) keys" "list_all json_ok vals" "distinct keys"
    and "pairwise (key_indep c) (set keys)"
  shows "snd (ks_get kv_class json_class s' keys) = Inr vals"
  using js.set_get [of c s keys vals s'] assms by (simp add: doc_classes list_all_iff)

lemma sample_json_ok: "doc_sok json_ok json_load (CHR ''>'') sample_json"
proof -
  have "json_load ''{\"a\": {\"b\": 1}, \"l\": [1, 2]}'' =
      Some (PDict [(''a'', PDict [(''b'', PInt 1)]), (''l'', PList [PInt 1, PInt 2])])" by code_simp
  then show ?thesis by (simp add: doc_sok_def sample_json_def)
qed

theorem json_store_set_get_witness:
  "snd (ks_get kv_class json_class
      (fst (ks_set kv_class json_class sample_json [''a>c'', ''n''] [PStr ''x'', PList []]))
      [''a>c'', ''n'']) = Inr [PStr ''x'', PList []]"
proof (rule json_store_set_get [where c = "CHR ''>''" and s = sample_json and keys = "[''a>c'', ''n'']"
      and vals = "[PStr ''x'', PList []]"])
  show "doc_sok json_ok json_load (CHR ''>'') sample_json" by (rule sample_json_ok)
  have "snd (ks_set kv_class json_class sample_json [''a>c'', ''n''] [PStr ''x'', PList []]) = None" by code_simp
  then show "ks_set kv_class json_class sample_json [''a>c'', ''n''] [PStr ''x'', PList []] =
      (fst (ks_set kv_class json_class sample_json [''a>c'', ''n''] [PStr ''x'', PList []]), None)"
    by (simp add: prod_eq_iff)
  show "list_all (plain_key (CHR ''>'')) [''a>c'', ''n'']" by code_simp
  show "list_all json_ok [PStr ''x'', PList []]" by simp
  have "key_indep (CHR ''>'') ''a>c'' ''n''" "key_indep (CHR ''>'') ''n'' ''a>c''" by code_simp+
  then show "pairwise (key_indep (CHR ''>'')) (set [''a>c'', ''n''])" by (simp add: pairwise_insert)
qed simp

text \<open>Keys deleted through a YAML or a TOML store read as None afterwards, for
  any codec that reads back what it wrote.\<close>

lemma yaml_toml_delete_get:
  assumes "text_codec ok enc dec" "doc_sok ok dec c s"
    and "list_all (plain_key c) keys" "pairwise (key_indep c) (set keys)"
  shows "(ks_delete kv_class (yaml_class enc dec) s keys = (s', None) \<longrightarrow>
      snd (ks_get kv_class (yaml_class enc dec) s' keys) = Inr (map (\<lambda>_. PNone) keys)) \<and>
    (ks_delete kv_class (toml_class enc dec) s keys = (s', None) \<longrightarrow>
      snd (ks_get kv_class (toml_class enc dec) s' keys) = Inr (map (\<lambda>_. PNone) keys))"
  using doc_store.doc_delete_get [of ok enc dec c s keys s'] assms
  by (simp add: doc_classes list_all_iff doc_store_def)

theorem yaml_toml_delete_get_witness:
  "snd (ks_get kv_class (yaml_class (\<lambda>v. (json_dump 0 v, None)) json_load)
      (fst (ks_delete kv_class (yaml_class (\<lambda>v. (json_dump 0 v, None)) json_load) sample_json [''a>b'']))
      [''a>b'']) = Inr [PNone]"
proof -
  let ?C = "yaml_class (\<lambda>v. (json_dump 0 v, None)) json_load"
  have tc: "text_codec json_ok (\<lambda>v. (json_dump 0 v, None)) json_load" by unfold_locales
  have "snd (ks_delete kv_class ?C sample_json [''a>b'']) = None" by code_simp
  then have d: "ks_delete kv_class ?C sample_json [''a>b''] =
      (fst (ks_delete kv_class ?C sample_json [''a>b'']), None)" by (simp add: prod_eq_iff)
  have "list_all (plain_key (CHR ''>'')) [''a>b'']" by code_simp
  from yaml_toml_delete_get [OF tc sample_json_ok this] d show ?thesis by simp
qed

section \<open>Properties files\<close>

text \<open>Claim C32. Dumping a payload of stripped one-line names and string values into a
  properties file and loading the file gives the same dict, in the same order.\<close>

theorem properties_roundtrip:
  assumes "kp_data p = PDict d" "prop_data d" "distinct (map fst d)" "length (fs_delim s) \<le> 1"
  shows "\<exists>q. prop_load (fst (prop_dump s p)) b = (fst (prop_dump s p), Inr q) \<and> kp_data q = PDict d"
  using prop_text_parse [OF assms(2,3)] assms(1,4)
  by (simp add: prop_load_def prop_dump_def kp_init_def)

definition sample_props :: kv_payload where
  "sample_props = \<lparr>kp_data = PDict [(''name'', PStr ''a = b''), (''empty'', PStr [])], kp_delim = ''>'',
     kp_keys = [''name'', ''empty'']\<rparr>"

lemma sample_props_data: "prop_data [(''name'', PStr ''a = b''), (''empty'', PStr [])]"
proof -
  have "py_strip ''name'' = ''name''" "py_strip ''a = b'' = ''a = b''" "py_strip ''empty'' = ''empty''" by code_simp+
  then show ?thesis by (simp add: prop_data_def prop_name_def prop_value_def)
qed

theorem properties_roundtrip_witness:
  "\<exists>q. prop_load (fst (prop_dump sample_json sample_props)) True =
      (fst (prop_dump sample_json sample_props), Inr q) \<and>
     kp_data q = PDict [(''name'', PStr ''a = b''), (''empty'', PStr [])]"
  by (rule properties_roundtrip [OF _ sample_props_data]) (simp_all add: sample_props_def sample_json_def)

text \<open>Values set through a properties store are read back by the next get, and
  a key that was not set keeps its value.\<close>

lemma properties_set_get:
  assumes "fs_delim s = [c]" "ks_set kv_class prop_class s keys vals = (s', None)"
    and "list_all (prop_key c) keys" "list_all prop_value vals" "distinct keys"
    and "pairwise (key_indep c) (set keys)"
    and "prop_key c k" "list_all (\<lambda>k'. key_indep c k' k) keys"
    and "prop_load s True = (s, Inr p)" "kp_get p k True = Inr w"
  shows "snd (ks_get kv_class prop_class s' keys) = Inr vals \<and> snd (ks_get kv_class prop_class s' [k]) = Inr [w]"
proof -
  have ld: "sc_load prop_class s True = (s, Inr p)" using assms(9) by (simp add: prop_class_def)
  have g: "snd (pl_get kv_class p k) = Inr w" using assms(10) by (simp add: kv_class_def)
  show ?thesis
    using props.set_get [OF assms(1,2)] props.set_other_get [OF assms(1,2) ld _ _ assms(7) g] assms(3-6,8)
    by (simp add: list_all_iff)
qed

definition sample_prop_file :: file_store where
  "sample_prop_file = \<lparr>fs_path = ''/a'', fs_delim = ''>'',
     fs_files = [''/a'' \<mapsto> ''# settings'' @ [NL] @ '' x=1'' @ [NL, NL] @ ''y = 2 '']\<rparr>"

theorem properties_set_get_witness:
  "snd (ks_get kv_class prop_class (fst (ks_set kv_class prop_class sample_prop_file [''z''] [PStr ''3''])) [''z''])
     = Inr [PStr ''3''] \<and>
   snd (ks_get kv_class prop_class (fst (ks_set kv_class prop_class sample_prop_file [''z''] [PStr ''3''])) [''y''])
     = Inr [PStr ''2'']"
proof -
  define q where "q = projr (snd (prop_load sample_prop_file True))"
  have s: "py_strip ''z'' = ''z''" "py_strip ''y'' = ''y''" "py_strip ''3'' = ''3''" by code_simp+
  have d: "snd (ks_set kv_class prop_class sample_prop_file [''z''] [PStr ''3'']) = None" by code_simp
  have k: "plain_key (CHR ''>'') ''z''" "plain_key (CHR ''>'') ''y''" "key_indep (CHR ''>'') ''z'' ''y''"
    by code_simp+
  have v: "prop_value (PStr ''3'')" unfolding prop_value_def using s(3) by simp
  have "\<not> isl (snd (prop_load sample_prop_file True))" by code_simp
  then have "snd (prop_load sample_prop_file True) = Inr q" unfolding q_def by (cases "snd (prop_load sample_prop_file True)") simp_all
  then have l: "prop_load sample_prop_file True = (sample_prop_file, Inr q)"
    by (simp add: prod_eq_iff) (simp add: prop_load_def)
  have g: "kp_get q ''y'' True = Inr (PStr ''2'')" unfolding q_def by code_simp
  show ?thesis
    by (rule properties_set_get [where c = "CHR ''>''" and p = q, OF _ _ _ _ _ _ _ _ l g])
      (use s d k v in \<open>simp_all add: sample_prop_file_def prop_key_def prop_name_def prod_eq_iff\<close>)
qed

section \<open>Stores that lose what they are given\<close>

text \<open>A dict store cannot be read after its first write: dump puts the dict
  where load expects the JSON text, and every later get, set or delete raises a TypeError.\<close>

lemma dict_store_unreadable:
  assumes "ks_set kv_class dict_class s keys vals = (s', None)"
    and "dict_store_load s True = (s, Inr p)" "kp_data p = PDict d"
  shows "snd (ks_get kv_class dict_class s' ks) = Inl TypeError \<and>
    snd (ks_set kv_class dict_class s' [k] [v]) = Some TypeError \<and>
    snd (ks_delete kv_class dict_class s' ks) = Some TypeError"
proof -
  have len: "length keys = length vals" using assms(1) by (auto simp: ks_set_def split: if_splits)
  obtain q where q: "set_all kv_class p (zip keys vals) = (q, None)" "s' = s\<lparr>ds_path := kp_data q\<rparr>"
    using assms(1,2) len
    by (auto simp: ks_set_def dict_class_def dump_after_def dict_store_dump_def split: prod.splits option.splits)
  have "\<exists>d'. kp_data (fst (set_all kv_class p kvs)) = PDict d'" if "kp_data p = PDict d" for p d kvs
    using that
  proof (induction kvs arbitrary: p d)
    case (Cons kv kvs)
    obtain k v where kv: "kv = (k, v)" by (cases kv)
    have "\<exists>d'. kp_data (fst (kp_set p k v)) = PDict d'"
      using Cons.prems kv_set_keeps_dict [of _ k v d]
      by (auto simp: kp_set_def split: list.split prod.split) (metis fst_conv)
    with Cons.IH kv show ?case by (auto simp: kv_class_def split: prod.split option.split)
  qed simp
  from this [OF assms(3), of "zip keys vals"] q
  have "\<exists>d'. ds_path s' = PDict d'" by simp
  then have "dict_store_load s' True = (s', Inl TypeError)" by (auto simp: dict_store_load_def)
  then show ?thesis by (simp add: ks_get_def ks_set_def ks_delete_def dict_class_def)
qed

theorem dict_store_unreadable_witness:
  "snd (ks_get kv_class dict_class
     (fst (ks_set kv_class dict_class \<lparr>ds_path = PStr ''{\"a\": 1}'', ds_delim = ''>''\<rparr> [''b''] [PInt 2]))
     [''a'']) = Inl TypeError"
proof -
  let ?s = "\<lparr>ds_path = PStr ''{\"a\": 1}'', ds_delim = ''>''\<rparr>"
  have d: "ks_set kv_class dict_class ?s [''b''] [PInt 2] =
     (fst (ks_set kv_class dict_class ?s [''b''] [PInt 2]), None)" by code_simp
  have l: "dict_store_load ?s True = (?s, Inr \<lparr>kp_data = PDict [(''a'', PInt 1)], kp_delim = ''>'', kp_keys = [''a'']\<rparr>)"
    by code_simp
  from dict_store_unreadable [OF d l] show ?thesis by simp
qed

text \<open>\<open>set_data\<close> writes nothing of the payload it is given: whatever the payload
  holds, every key of a JSON store reads as before.\<close>

lemma set_data_writes_nothing:
  assumes "doc_sok json_ok json_load c s" "ks_set_data kv_class Q json_class s payload = (s', None)"
    and "json_store_load s True = (s, Inr p)" "plain_key c k" "kp_get p k True = Inr w"
  shows "snd (ks_get kv_class json_class s' [k]) = Inr [w]"
proof -
  have "sc_load json_class s True = (s, Inr p)" "snd (pl_get kv_class p k) = Inr w"
    using assms(3,5) by (simp_all add: json_class_def kv_class_def)
  with js.set_data_nothing [OF assms(1), of Q payload s' s p k w] assms(2,4) show ?thesis
    by (simp add: doc_classes)
qed

theorem set_data_writes_nothing_witness:
  "snd (ks_get kv_class json_class (fst (ks_set_data kv_class kv_class json_class sample_json sample_props)) [''a>b''])
     = Inr [PInt 1]"
proof -
  define q where "q = projr (snd (json_store_load sample_json True))"
  have "\<not> isl (snd (json_store_load sample_json True))" by code_simp
  then have "snd (json_store_load sample_json True) = Inr q"
    unfolding q_def by (cases "snd (json_store_load sample_json True)") simp_all
  then have l: "json_store_load sample_json True = (sample_json, Inr q)"
    by (simp add: prod_eq_iff) (simp add: json_store_load_def)
  have g: "kp_get q ''a>b'' True = Inr (PInt 1)" unfolding q_def by code_simp
  have k: "plain_key (CHR ''>'') ''a>b''" by code_simp
  have "snd (ks_set_data kv_class kv_class json_class sample_json sample_props) = None" by code_simp
  then have d: "ks_set_data kv_class kv_class json_class sample_json sample_props =
      (fst (ks_set_data kv_class kv_class json_class sample_json sample_props), None)" by (simp add: prod_eq_iff)
  show ?thesis by (rule set_data_writes_nothing [OF sample_json_ok d l k g])
qed

end
