(* ===== verification/PyFloat.thy ===== *)
theory PyFloat
  imports PyText Json
begin

text \<open>
  \<open>float(v)\<close> and its round trip with \<open>str(v)\<close>: the lock of the configuration store keeps
  its end time as text. A number of seconds with a fixed number of decimals is read back
  exactly. The words inf and nan and digits grouped by underscores are not read.
\<close>

definition read_float :: "string \<Rightarrow> rat option" where
  "read_float s = (let t = py_strip s; signed = (t \<noteq> [] \<and> (hd t = CHR ''-'' \<or> hd t = CHR ''+''));
       r0 = (if signed then tl t else t); ds = takeWhile is_digit r0; r1 = dropWhile is_digit r0;
       point = (r1 \<noteq> [] \<and> hd r1 = CHR ''.'');
       fs = (if point then takeWhile is_digit (tl r1) else []);
       r2 = (if point then dropWhile is_digit (tl r1) else r1) in
     case exp_part r2 of (ex, r3) \<Rightarrow>
       if (ds = [] \<and> fs = []) \<or> r3 \<noteq> [] then None
       else Some ((if signed \<and> hd t = CHR ''-'' then -1 else 1) *
         (of_nat (read_nat ds) + of_nat (read_nat fs) / 10 ^ length fs) * pow10 (case ex of None \<Rightarrow> 0 | Some e \<Rightarrow> e)))"

fun py_float :: "pyval \<Rightarrow> pyexc + rat" where
  "py_float (PStr s) = (case read_float s of None \<Rightarrow> Inl ValueError | Some r \<Rightarrow> Inr r)"
| "py_float (PInt i) = Inr (of_int i)"
| "py_float (PBool b) = Inr (if b then 1 else 0)"
| "py_float (PFloat r) = Inr r"
| "py_float _ = Inl TypeError"

section \<open>Decimals\<close>

text \<open>A time in seconds with at most seven decimals, as \<open>time.time()\<close> prints.\<close>

definition decimal :: "rat \<Rightarrow> bool" where
  "decimal t \<longleftrightarrow> (\<exists>m. t = of_nat m / 10 ^ 7)"

lemma decimal_nonneg: "decimal t \<Longrightarrow> 0 \<le> t"
  by (auto simp: decimal_def)

lemma decimal_add: "decimal t \<Longrightarrow> decimal (t + of_nat n)"
proof -
  assume "decimal t"
  then obtain m where "t = of_nat m / 10 ^ 7" by (auto simp: decimal_def)
  then have "t + of_nat n = of_nat (m + n * 10 ^ 7) / 10 ^ 7" by simp
  then show ?thesis unfolding decimal_def by blast
qed

lemma show_frac_facts:
  assumes "decimal t"
  defines "r \<equiv> t - of_int \<lfloor>t\<rfloor>"
  shows "show_frac r \<noteq> []" "\<forall>c \<in> set (show_frac r). is_digit c"
    "of_nat (read_nat (show_frac r)) / 10 ^ length (show_frac r) = r"
proof -
  obtain m where m: "t = of_nat m / of_nat (10 ^ 7)" using assms(1) by (auto simp: decimal_def)
  have "\<lfloor>t\<rfloor> = int (m div 10 ^ 7)" unfolding m by (rule floor_divide_of_nat_eq)
  moreover have "(of_nat m :: rat) = of_nat (m div 10 ^ 7) * of_nat (10 ^ 7) + of_nat (m mod 10 ^ 7)"
    by (metis div_mult_mod_eq of_nat_add of_nat_mult)
  ultimately have r: "r = of_nat (m mod 10 ^ 7) / 10 ^ 7" unfolding r_def m by (simp add: field_simps)
  have "m mod 10 ^ 7 < 10 ^ 7" by simp
  note f = show_frac_read [OF r this]
  show "show_frac r \<noteq> []" "\<forall>c \<in> set (show_frac r). is_digit c"
    "of_nat (read_nat (show_frac r)) / 10 ^ length (show_frac r) = r" using f by simp_all
qed

lemma digit_not_space: "is_digit c \<Longrightarrow> \<not> is_space c"
  by (auto simp: is_digit_def is_space_def)

lemma read_float_digits:
  assumes "ds \<noteq> []" "\<forall>c \<in> set ds. is_digit c" "fs \<noteq> []" "\<forall>c \<in> set fs. is_digit c"
  shows "read_float (ds @ CHR ''.'' # fs) = Some (of_nat (read_nat ds) + of_nat (read_nat fs) / 10 ^ length fs)"
proof -
  let ?s = "ds @ CHR ''.'' # fs"
  have hd: "is_digit (hd ?s)" "is_digit (last ?s)" using assms by (auto simp: hd_append)
  then have st: "py_strip ?s = ?s" by (intro py_strip_id) (auto simp: digit_not_space)
  have ns: "hd ?s \<noteq> CHR ''-''" "hd ?s \<noteq> CHR ''+''" using hd by (auto simp: is_digit_def)
  have nd: "\<not> is_digit (CHR ''.'')" by (simp add: is_digit_def)
  have tw: "takeWhile is_digit ?s = ds" "dropWhile is_digit ?s = CHR ''.'' # fs"
    "takeWhile is_digit fs = fs" "dropWhile is_digit fs = []" using assms(2,4) nd
    by (simp_all add: takeWhile_append dropWhile_append)
  have r0: "(if ?s \<noteq> [] \<and> (hd ?s = CHR ''-'' \<or> hd ?s = CHR ''+'') then tl ?s else ?s) = ?s" using ns by simp
  have "exp_part [] = (None, [])" by (simp add: exp_part_def)
  then show ?thesis unfolding read_float_def st Let_def r0 tw list.sel using ns assms(1)
    by (simp add: tw pow10_def)
qed

lemma float_roundtrip: "decimal t \<Longrightarrow> py_float (PStr (py_str (PFloat t))) = Inr t"
proof -
  assume t: "decimal t"
  let ?r = "t - of_int \<lfloor>t\<rfloor>"
  have "show_rat t = show_nat (nat \<lfloor>t\<rfloor>) @ CHR ''.'' # show_frac ?r"
    using decimal_nonneg [OF t] by (simp add: show_rat_def show_frac_def Let_def)
  moreover have "read_float (show_nat (nat \<lfloor>t\<rfloor>) @ CHR ''.'' # show_frac ?r) = Some (of_nat (nat \<lfloor>t\<rfloor>) + ?r)"
    using read_float_digits [OF show_nat_nonempty show_nat_digits, of "show_frac ?r" "nat \<lfloor>t\<rfloor>"] show_frac_facts [OF t]
    by simp
  moreover have "of_nat (nat \<lfloor>t\<rfloor>) + ?r = t" using decimal_nonneg [OF t] by simp
  ultimately show ?thesis by (simp add: py_str_def)
qed

end
