(* ===== verification/ConfStore.thy ===== *)
theory ConfStore
  imports StoreProps PyFloat
begin

text \<open>
  The configuration store: ConfCache of src/py-utils/src/utils/conf_store/conf_cache.py and
  ConfStore of conf_store.py, a set of named configurations, each a payload loaded
  from a KvStore and written back on save.

  The payload class is the record of the theory Payload. The stores behind it are a record of
  three calls on one backend state (all stores and what they persist): getting the store
  object of a URL from KvStoreFactory, and its load and dump. Payload and cache operations
  that raise return the changed state with the exception.
\<close>

section \<open>State\<close>

record ('b, 'h, 'p) backend =
  be_instance :: "'b \<Rightarrow> string \<Rightarrow> string \<Rightarrow> 'b \<times> (pyexc + 'h)"
  be_load :: "'b \<Rightarrow> 'h \<Rightarrow> bool \<Rightarrow> 'b \<times> (pyexc + 'p)"
  be_dump :: "'b \<Rightarrow> 'h \<Rightarrow> 'p \<Rightarrow> 'b \<times> pyexc option"

record ('h, 'p) conf_cache =
  cc_delim :: string
  cc_dirty :: bool
  cc_store :: 'h
  cc_data :: 'p
  cc_recurse :: bool

record ('b, 'h, 'p) conf_store =
  cs_delim :: string
  cs_cache :: "string \<rightharpoonup> ('h, 'p) conf_cache"
  cs_callbacks :: "string \<rightharpoonup> pyval"
  cs_machine_id :: pyval
  cs_back :: 'b

abbreviation ERR_NOT_INITIALIZED :: int where "ERR_NOT_INITIALIZED \<equiv> 5381"

section \<open>ConfCache\<close>

definition cc_init :: "('b, 'h, 'p) backend \<Rightarrow> 'b \<Rightarrow> 'h \<Rightarrow> string \<Rightarrow> bool \<Rightarrow> 'b \<times> (pyexc + ('h, 'p) conf_cache)" where
  "cc_init B b h delim recurse =
     (if length delim > 1 then (b, Inl (ConfError EINVAL))
      else case be_load B b h recurse of
        (b', Inl e) \<Rightarrow> (b', Inl e)
      | (b', Inr p) \<Rightarrow> (b', Inr \<lparr>cc_delim = delim, cc_dirty = False, cc_store = h, cc_data = p, cc_recurse = recurse\<rparr>))"

definition cc_load :: "('b, 'h, 'p) backend \<Rightarrow> 'b \<Rightarrow> ('h, 'p) conf_cache \<Rightarrow> 'b \<times> ('h, 'p) conf_cache \<times> pyexc option" where
  "cc_load B b cc =
     (if cc_dirty cc then (b, cc, Some (PyException ''Exception''))
      else case be_load B b (cc_store cc) (cc_recurse cc) of
        (b', Inl e) \<Rightarrow> (b', cc, Some e)
      | (b', Inr p) \<Rightarrow> (b', cc\<lparr>cc_data := p\<rparr>, None))"

definition cc_dump :: "('b, 'h, 'p) backend \<Rightarrow> 'b \<Rightarrow> ('h, 'p) conf_cache \<Rightarrow> 'b \<times> ('h, 'p) conf_cache \<times> pyexc option" where
  "cc_dump B b cc =
     (if cc_dirty cc then
        (case be_dump B b (cc_store cc) (cc_data cc) of
           (b', Some e) \<Rightarrow> (b', cc, Some e)
         | (b', None) \<Rightarrow> (b', cc\<lparr>cc_dirty := False\<rparr>, None))
      else (b, cc, None))"

definition cc_get :: "'p payload_class \<Rightarrow> ('h, 'p) conf_cache \<Rightarrow> string \<Rightarrow> ('h, 'p) conf_cache \<times> (pyexc + pyval)" where
  "cc_get P cc key = (case pl_get P (cc_data cc) key of (p, r) \<Rightarrow> (cc\<lparr>cc_data := p\<rparr>, r))"

definition cc_set :: "'p payload_class \<Rightarrow> ('h, 'p) conf_cache \<Rightarrow> string \<Rightarrow> pyval \<Rightarrow> ('h, 'p) conf_cache \<times> pyexc option" where
  "cc_set P cc key v = (case pl_set P (cc_data cc) key v of
      (p, Some e) \<Rightarrow> (cc\<lparr>cc_data := p\<rparr>, Some e)
    | (p, None) \<Rightarrow> (cc\<lparr>cc_data := p, cc_dirty := True\<rparr>, None))"

definition cc_delete :: "'p payload_class \<Rightarrow> ('h, 'p) conf_cache \<Rightarrow> string \<Rightarrow> bool \<Rightarrow>
    ('h, 'p) conf_cache \<times> (pyexc + bool)" where
  "cc_delete P cc key force = (case pl_delete P (cc_data cc) key force of
      (p, Inl e) \<Rightarrow> (cc\<lparr>cc_data := p\<rparr>, Inl e)
    | (p, Inr r) \<Rightarrow> (cc\<lparr>cc_data := p, cc_dirty := True\<rparr>, Inr r))"

definition cc_get_keys :: "'p payload_class \<Rightarrow> ('h, 'p) conf_cache \<Rightarrow> bool \<Rightarrow>
    ('h, 'p) conf_cache \<times> (pyexc + string list)" where
  "cc_get_keys P cc key_index = (case pl_keys P (cc_data cc) key_index of (p, r) \<Rightarrow> (cc\<lparr>cc_data := p\<rparr>, r))"

definition cc_search :: "'p payload_class \<Rightarrow> ('h, 'p) conf_cache \<Rightarrow> string \<Rightarrow> string \<Rightarrow> pyval \<Rightarrow>
    ('h, 'p) conf_cache \<times> (pyexc + string list)" where
  "cc_search P cc parent skey sval =
     (case pl_search P (cc_data cc) parent skey sval of (p, r) \<Rightarrow> (cc\<lparr>cc_data := p\<rparr>, r))"

definition cc_add_num_keys :: "'p payload_class \<Rightarrow> ('h, 'p) conf_cache \<Rightarrow> ('h, 'p) conf_cache \<times> pyexc option" where
  "cc_add_num_keys P cc = (case pl_add_num_keys P (cc_data cc) of
      (p, Some e) \<Rightarrow> (cc\<lparr>cc_data := p\<rparr>, Some e)
    | (p, None) \<Rightarrow> (cc\<lparr>cc_data := p, cc_dirty := True\<rparr>, None))"

section \<open>ConfStore\<close>

definition cs_init :: "'b \<Rightarrow> string \<Rightarrow> pyval \<Rightarrow> pyexc + ('b, 'h, 'p) conf_store" where
  "cs_init b delim machine_id =
     (if delim \<notin> set ['':'', ''>'', ''.'', ''|'', '';'', ''/''] then Inl (ConfError EINVAL)
      else Inr \<lparr>cs_delim = delim, cs_cache = Map.empty, cs_callbacks = Map.empty,
        cs_machine_id = machine_id, cs_back = b\<rparr>)"

text \<open>\<open>load\<close>. The keyword arguments come in order; one that is refused leaves the
  callbacks stored before it.\<close>

record load_args =
  la_fail :: pyval
  la_skip :: pyval
  la_recurse :: pyval

fun load_kwargs :: "string \<Rightarrow> (string \<times> pyval) list \<Rightarrow> load_args \<Rightarrow> (string \<rightharpoonup> pyval) \<Rightarrow>
    (string \<rightharpoonup> pyval) \<times> (pyexc + load_args)" where
  "load_kwargs index [] a cb = (cb, Inr a)"
| "load_kwargs index ((k, v) # kws) a cb =
     (if k = ''fail_reload'' then load_kwargs index kws (a\<lparr>la_fail := v\<rparr>) cb
      else if k = ''skip_reload'' then load_kwargs index kws (a\<lparr>la_skip := v\<rparr>) cb
      else if k = ''callback'' then load_kwargs index kws a (cb(index \<mapsto> v))
      else if k = ''recurse'' then
        (if py_eq v (PBool True) \<or> py_eq v (PBool False) then load_kwargs index kws (a\<lparr>la_recurse := v\<rparr>) cb
         else (cb, Inl (ConfError EINVAL)))
      else (cb, Inl (ConfError EINVAL)))"

definition cs_load :: "('b, 'h, 'p) backend \<Rightarrow> ('b, 'h, 'p) conf_store \<Rightarrow> string \<Rightarrow> string \<Rightarrow> (string \<times> pyval) list \<Rightarrow>
    ('b, 'h, 'p) conf_store \<times> pyexc option" where
  "cs_load B cs index url kwargs =
     (case load_kwargs index kwargs \<lparr>la_fail = PBool True, la_skip = PBool False, la_recurse = PBool True\<rparr>
             (cs_callbacks cs) of
        (cb, Inl e) \<Rightarrow> (cs\<lparr>cs_callbacks := cb\<rparr>, Some e)
      | (cb, Inr a) \<Rightarrow> (let cs = cs\<lparr>cs_callbacks := cb\<rparr>; loaded = cs_cache cs index \<noteq> None in
          if loaded \<and> py_truth (la_skip a) then (cs, None)
          else if loaded \<and> py_truth (la_fail a) then (cs, Some (ConfError EINVAL))
          else case be_instance B (cs_back cs) url (cs_delim cs) of
            (b, Inl e) \<Rightarrow> (cs\<lparr>cs_back := b\<rparr>, Some e)
          | (b, Inr h) \<Rightarrow> (case cc_init B b h (cs_delim cs) (py_truth (la_recurse a)) of
                (b', Inl e) \<Rightarrow> (cs\<lparr>cs_back := b'\<rparr>, Some e)
              | (b', Inr cc) \<Rightarrow> (cs\<lparr>cs_back := b', cs_cache := (cs_cache cs)(index \<mapsto> cc)\<rparr>, None))))"

definition cs_save :: "('b, 'h, 'p) backend \<Rightarrow> ('b, 'h, 'p) conf_store \<Rightarrow> string \<Rightarrow>
    ('b, 'h, 'p) conf_store \<times> pyexc option" where
  "cs_save B cs index = (case cs_cache cs index of
      None \<Rightarrow> (cs, Some (ConfError EINVAL))
    | Some cc \<Rightarrow> (case cc_dump B (cs_back cs) cc of
          (b, cc', e) \<Rightarrow> (cs\<lparr>cs_back := b, cs_cache := (cs_cache cs)(index \<mapsto> cc')\<rparr>, e)))"

text \<open>An operation on the cache of an index that the code checks first.\<close>

definition on_index :: "pyexc \<Rightarrow> ('b, 'h, 'p) conf_store \<Rightarrow> string \<Rightarrow>
    (('h, 'p) conf_cache \<Rightarrow> ('h, 'p) conf_cache \<times> (pyexc + 'a)) \<Rightarrow> ('b, 'h, 'p) conf_store \<times> (pyexc + 'a)" where
  "on_index miss cs index f = (case cs_cache cs index of
      None \<Rightarrow> (cs, Inl miss)
    | Some cc \<Rightarrow> (case f cc of (cc', r) \<Rightarrow> (cs\<lparr>cs_cache := (cs_cache cs)(index \<mapsto> cc')\<rparr>, r)))"

definition exc_result :: "'s \<times> pyexc option \<Rightarrow> 's \<times> (pyexc + unit)" where
  "exc_result r = (case r of (s, Some e) \<Rightarrow> (s, Inl e) | (s, None) \<Rightarrow> (s, Inr ()))"

text \<open>\<open>get\<close> takes None as a key, which it refuses; \<open>default_val\<close> stands in for None.\<close>

definition cs_get :: "'p payload_class \<Rightarrow> ('b, 'h, 'p) conf_store \<Rightarrow> string \<Rightarrow> string option \<Rightarrow> pyval \<Rightarrow>
    ('b, 'h, 'p) conf_store \<times> (pyexc + pyval)" where
  "cs_get P cs index key dflt = on_index (ConfError EINVAL) cs index (\<lambda>cc. case key of
      None \<Rightarrow> (cc, Inl (ConfError EINVAL))
    | Some k \<Rightarrow> (case cc_get P cc k of
          (cc', Inl e) \<Rightarrow> (cc', Inl e)
        | (cc', Inr v) \<Rightarrow> (cc', Inr (if v = PNone then dflt else v))))"

definition cs_set :: "'p payload_class \<Rightarrow> ('b, 'h, 'p) conf_store \<Rightarrow> string \<Rightarrow> string \<Rightarrow> pyval \<Rightarrow>
    ('b, 'h, 'p) conf_store \<times> (pyexc + unit)" where
  "cs_set P cs index key v = on_index (ConfError EINVAL) cs index (\<lambda>cc. exc_result (cc_set P cc key v))"

definition cs_delete :: "'p payload_class \<Rightarrow> ('b, 'h, 'p) conf_store \<Rightarrow> string \<Rightarrow> string \<Rightarrow> bool \<Rightarrow>
    ('b, 'h, 'p) conf_store \<times> (pyexc + bool)" where
  "cs_delete P cs index key force = on_index (ConfError EINVAL) cs index (\<lambda>cc. cc_delete P cc key force)"

text \<open>\<open>get_keys\<close>, \<open>search\<close> and \<open>add_num_keys\<close> read the cache dict without asking whether
  the index is there.\<close>

definition cs_get_keys :: "'p payload_class \<Rightarrow> ('b, 'h, 'p) conf_store \<Rightarrow> string \<Rightarrow> bool \<Rightarrow>
    ('b, 'h, 'p) conf_store \<times> (pyexc + string list)" where
  "cs_get_keys P cs index key_index = on_index KeyError cs index (\<lambda>cc. cc_get_keys P cc key_index)"

definition cs_search :: "'p payload_class \<Rightarrow> ('b, 'h, 'p) conf_store \<Rightarrow> string \<Rightarrow> string \<Rightarrow> string \<Rightarrow> pyval \<Rightarrow>
    ('b, 'h, 'p) conf_store \<times> (pyexc + string list)" where
  "cs_search P cs index parent skey sval = on_index KeyError cs index (\<lambda>cc. cc_search P cc parent skey sval)"

definition cs_add_num_keys :: "'p payload_class \<Rightarrow> ('b, 'h, 'p) conf_store \<Rightarrow> string \<Rightarrow>
    ('b, 'h, 'p) conf_store \<times> (pyexc + unit)" where
  "cs_add_num_keys P cs index = on_index KeyError cs index (\<lambda>cc. exc_result (cc_add_num_keys P cc))"

definition cs_get_data :: "('b, 'h, 'p) conf_store \<Rightarrow> string \<Rightarrow> pyexc + 'p" where
  "cs_get_data cs index = (case cs_cache cs index of
      None \<Rightarrow> Inl (ConfError EINVAL) | Some cc \<Rightarrow> Inr (cc_data cc))"

text \<open>The loop of \<open>copy\<close>: \<open>self._cache[dst].set(key, self._cache[src].get(key))\<close>.\<close>

definition copy_key :: "'p payload_class \<Rightarrow> ('b, 'h, 'p) conf_store \<Rightarrow> string \<Rightarrow> string \<Rightarrow> string \<Rightarrow>
    ('b, 'h, 'p) conf_store \<times> (pyexc + unit)" where
  "copy_key P cs src dst key = (case on_index KeyError cs src (\<lambda>cc. cc_get P cc key) of
      (cs1, Inl e) \<Rightarrow> (cs1, Inl e)
    | (cs1, Inr v) \<Rightarrow> on_index KeyError cs1 dst (\<lambda>cc. exc_result (cc_set P cc key v)))"

fun copy_keys :: "'p payload_class \<Rightarrow> ('b, 'h, 'p) conf_store \<Rightarrow> string \<Rightarrow> string \<Rightarrow> string list \<Rightarrow>
    ('b, 'h, 'p) conf_store \<times> (pyexc + unit)" where
  "copy_keys P cs src dst [] = (cs, Inr ())"
| "copy_keys P cs src dst (k # ks) = (case copy_key P cs src dst k of
      (cs1, Inl e) \<Rightarrow> (cs1, Inl e)
    | (cs1, Inr _) \<Rightarrow> copy_keys P cs1 src dst ks)"

definition cs_copy :: "'p payload_class \<Rightarrow> ('b, 'h, 'p) conf_store \<Rightarrow> string \<Rightarrow> string \<Rightarrow> string list option \<Rightarrow> bool \<Rightarrow>
    ('b, 'h, 'p) conf_store \<times> (pyexc + unit)" where
  "cs_copy P cs src dst key_list recurse =
     (if cs_cache cs src = None \<or> cs_cache cs dst = None then (cs, Inl (ConfError EINVAL))
      else case key_list of
        Some ks \<Rightarrow> copy_keys P cs src dst ks
      | None \<Rightarrow> (case cs_get_keys P cs src recurse of
            (cs1, Inl e) \<Rightarrow> (cs1, Inl e)
          | (cs1, Inr ks) \<Rightarrow> copy_keys P cs1 src dst ks))"

text \<open>\<open>_merge\<close> lists the keys of the destination again for every key; \<open>merge\<close> refuses a
  key of the given list whose value is missing or false.\<close>

definition merge_key :: "'p payload_class \<Rightarrow> ('b, 'h, 'p) conf_store \<Rightarrow> string \<Rightarrow> string \<Rightarrow> string \<Rightarrow>
    ('b, 'h, 'p) conf_store \<times> (pyexc + unit)" where
  "merge_key P cs dst src key = (case cs_get_keys P cs dst True of
      (cs1, Inl e) \<Rightarrow> (cs1, Inl e)
    | (cs1, Inr ks) \<Rightarrow> if key \<in> set ks then (cs1, Inr ()) else copy_key P cs1 src dst key)"

fun merge_keys :: "'p payload_class \<Rightarrow> ('b, 'h, 'p) conf_store \<Rightarrow> string \<Rightarrow> string \<Rightarrow> string list \<Rightarrow>
    ('b, 'h, 'p) conf_store \<times> (pyexc + unit)" where
  "merge_keys P cs dst src [] = (cs, Inr ())"
| "merge_keys P cs dst src (k # ks) = (case merge_key P cs dst src k of
      (cs1, Inl e) \<Rightarrow> (cs1, Inl e)
    | (cs1, Inr _) \<Rightarrow> merge_keys P cs1 dst src ks)"

fun check_keys :: "'p payload_class \<Rightarrow> ('b, 'h, 'p) conf_store \<Rightarrow> string \<Rightarrow> string list \<Rightarrow>
    ('b, 'h, 'p) conf_store \<times> (pyexc + unit)" where
  "check_keys P cs src [] = (cs, Inr ())"
| "check_keys P cs src (k # ks) = (case on_index KeyError cs src (\<lambda>cc. cc_get P cc k) of
      (cs1, Inl e) \<Rightarrow> (cs1, Inl e)
    | (cs1, Inr v) \<Rightarrow> if py_truth v then check_keys P cs1 src ks else (cs1, Inl (ConfError ENOENT)))"

definition cs_merge :: "'p payload_class \<Rightarrow> ('b, 'h, 'p) conf_store \<Rightarrow> string \<Rightarrow> string \<Rightarrow> string list option \<Rightarrow>
    ('b, 'h, 'p) conf_store \<times> (pyexc + unit)" where
  "cs_merge P cs dst src keys =
     (if cs_cache cs src = None \<or> cs_cache cs dst = None then (cs, Inl (ConfError ERR_NOT_INITIALIZED))
      else case keys of
        None \<Rightarrow> (case cs_get_keys P cs src True of
            (cs1, Inl e) \<Rightarrow> (cs1, Inl e)
          | (cs1, Inr ks) \<Rightarrow> merge_keys P cs1 dst src ks)
      | Some ks \<Rightarrow> (case check_keys P cs src ks of
            (cs1, Inl e) \<Rightarrow> (cs1, Inl e)
          | (cs1, Inr _) \<Rightarrow> merge_keys P cs1 dst src ks))"

text \<open>\<open>compare\<close>: the new and the deleted keys come out of Python sets, in no order.\<close>

fun updated_keys :: "'p payload_class \<Rightarrow> ('b, 'h, 'p) conf_store \<Rightarrow> string \<Rightarrow> string \<Rightarrow> string set \<Rightarrow> string list \<Rightarrow>
    ('b, 'h, 'p) conf_store \<times> (pyexc + string list)" where
  "updated_keys P cs i1 i2 deleted [] = (cs, Inr [])"
| "updated_keys P cs i1 i2 deleted (k # ks) =
     (if k \<in> deleted then updated_keys P cs i1 i2 deleted ks
      else case on_index KeyError cs i1 (\<lambda>cc. cc_get P cc k) of
        (cs1, Inl e) \<Rightarrow> (cs1, Inl e)
      | (cs1, Inr v1) \<Rightarrow> (case on_index KeyError cs1 i2 (\<lambda>cc. cc_get P cc k) of
            (cs2, Inl e) \<Rightarrow> (cs2, Inl e)
          | (cs2, Inr v2) \<Rightarrow> (case updated_keys P cs2 i1 i2 deleted ks of
                (cs3, Inl e) \<Rightarrow> (cs3, Inl e)
              | (cs3, Inr us) \<Rightarrow> (cs3, Inr (if py_eq v1 v2 then us else k # us)))))"

definition cs_compare :: "'p payload_class \<Rightarrow> ('b, 'h, 'p) conf_store \<Rightarrow> string \<Rightarrow> string \<Rightarrow>
    ('b, 'h, 'p) conf_store \<times> (pyexc + string set \<times> string set \<times> string list)" where
  "cs_compare P cs i1 i2 =
     (if cs_cache cs i1 = None \<or> cs_cache cs i2 = None then (cs, Inl (ConfError EINVAL))
      else case cs_get_keys P cs i1 True of
        (cs1, Inl e) \<Rightarrow> (cs1, Inl e)
      | (cs1, Inr ks1) \<Rightarrow> (case cs_get_keys P cs1 i2 True of
            (cs2, Inl e) \<Rightarrow> (cs2, Inl e)
          | (cs2, Inr ks2) \<Rightarrow> (case updated_keys P cs2 i1 i2 (set ks1 - set ks2) ks1 of
                (cs3, Inl e) \<Rightarrow> (cs3, Inl e)
              | (cs3, Inr us) \<Rightarrow> (cs3, Inr (set ks2 - set ks1, set ks1 - set ks2, us)))))"

end
