(* ===== verification/ConfLock.thy ===== *)
theory ConfLock
  imports ConfStore
begin

text \<open>
  The configuration lock of ConfStore: lock, unlock and test_lock of
  src/py-utils/src/utils/conf_store/conf_store.py. A lock of a domain is a pair of keys of the
  configuration, the owner and the text of the end time in seconds.
  The time that the code reads is an argument, one per reading.
\<close>

section \<open>The calls\<close>

text \<open>\<open>const.LOCK_OWNER_KEY_PREFIX % domain\<close> and \<open>const.LOCK_END_TIME_KEY_PREFIX % domain\<close>.\<close>

definition lock_owner_key :: "pyval \<Rightarrow> string" where
  "lock_owner_key domain = ''lock>'' @ py_str domain @ ''>owner''"

definition lock_end_time_key :: "pyval \<Rightarrow> string" where
  "lock_end_time_key domain = ''lock>'' @ py_str domain @ ''>end_time''"

fun check_kwargs :: "string set \<Rightarrow> string \<Rightarrow> (pyval \<Rightarrow> bool) \<Rightarrow> (string \<times> pyval) list \<Rightarrow> bool" where
  "check_kwargs allowed typed ok [] = True"
| "check_kwargs allowed typed ok ((k, v) # kws) =
     (k \<in> allowed \<and> (k = typed \<longrightarrow> ok v) \<and> check_kwargs allowed typed ok kws)"

definition kwarg :: "(string \<times> pyval) list \<Rightarrow> string \<Rightarrow> pyval \<Rightarrow> pyval" where
  "kwarg kwargs k dflt = (case map_of kwargs k of None \<Rightarrow> dflt | Some v \<Rightarrow> v)"

fun is_int :: "pyval \<Rightarrow> bool" where
  "is_int (PInt _) = True"
| "is_int (PBool _) = True"
| "is_int _ = False"

fun is_bool :: "pyval \<Rightarrow> bool" where
  "is_bool (PBool _) = True"
| "is_bool _ = False"

text \<open>\<open>v in [None, "", owner]\<close> and \<open>v in [None, ""]\<close>.\<close>

definition no_value :: "pyval \<Rightarrow> bool" where
  "no_value v \<longleftrightarrow> v = PNone \<or> v = PStr []"

definition cs_test_lock :: "'p payload_class \<Rightarrow> ('b, 'h, 'p) conf_store \<Rightarrow> string \<Rightarrow> (string \<times> pyval) list \<Rightarrow> rat \<Rightarrow>
    ('b, 'h, 'p) conf_store \<times> (pyexc + bool)" where
  "cs_test_lock P cs index kwargs now =
     (if cs_cache cs index = None then (cs, Inl (ConfError EINVAL))
      else if \<not> check_kwargs {''domain'', ''owner''} [] (\<lambda>_. True) kwargs then (cs, Inl (ConfError EINVAL))
      else (let owner = kwarg kwargs ''owner'' (cs_machine_id cs);
                domain = kwarg kwargs ''domain'' (PStr ''default'') in
        case cs_get P cs index (Some (lock_owner_key domain)) PNone of
          (cs1, Inl e) \<Rightarrow> (cs1, Inl e)
        | (cs1, Inr current) \<Rightarrow>
            if no_value current \<or> py_eq current owner then (cs1, Inr True)
            else (case cs_get P cs1 index (Some (lock_end_time_key domain)) PNone of
                (cs2, Inl e) \<Rightarrow> (cs2, Inl e)
              | (cs2, Inr end_time) \<Rightarrow>
                  if no_value end_time then (cs2, Inr True)
                  else (case py_float end_time of
                      Inl e \<Rightarrow> (cs2, Inl e)
                    | Inr t \<Rightarrow> (cs2, Inr (t < now))))))"

definition cs_lock :: "'p payload_class \<Rightarrow> ('b, 'h, 'p) conf_store \<Rightarrow> string \<Rightarrow> (string \<times> pyval) list \<Rightarrow> rat \<Rightarrow> rat \<Rightarrow>
    ('b, 'h, 'p) conf_store \<times> (pyexc + bool)" where
  "cs_lock P cs index kwargs now now' =
     (if cs_cache cs index = None then (cs, Inl (ConfError EINVAL))
      else if \<not> check_kwargs {''domain'', ''owner'', ''duration''} ''duration'' is_int kwargs
        then (cs, Inl (ConfError EINVAL))
      else (let owner = kwarg kwargs ''owner'' (cs_machine_id cs);
                domain = kwarg kwargs ''domain'' (PStr ''default'');
                duration = (case py_float (kwarg kwargs ''duration'' (PInt 10)) of Inr d \<Rightarrow> d | Inl _ \<Rightarrow> 0) in
        case cs_test_lock P cs index [(''owner'', owner), (''domain'', domain)] now of
          (cs1, Inl e) \<Rightarrow> (cs1, Inl e)
        | (cs1, Inr False) \<Rightarrow> (cs1, Inr False)
        | (cs1, Inr True) \<Rightarrow> (case cs_set P cs1 index (lock_owner_key domain) owner of
              (cs2, Inl e) \<Rightarrow> (cs2, Inl e)
            | (cs2, Inr _) \<Rightarrow>
                (case cs_set P cs2 index (lock_end_time_key domain) (PStr (py_str (PFloat (now' + duration)))) of
                   (cs3, Inl e) \<Rightarrow> (cs3, Inl e)
                 | (cs3, Inr _) \<Rightarrow> (case cs_get P cs3 index (Some (lock_owner_key domain)) PNone of
                       (cs4, Inl e) \<Rightarrow> (cs4, Inl e)
                     | (cs4, Inr holder) \<Rightarrow> (cs4, Inr (py_eq holder owner)))))))"

definition cs_unlock :: "'p payload_class \<Rightarrow> ('b, 'h, 'p) conf_store \<Rightarrow> string \<Rightarrow> (string \<times> pyval) list \<Rightarrow>
    ('b, 'h, 'p) conf_store \<times> (pyexc + bool)" where
  "cs_unlock P cs index kwargs =
     (if cs_cache cs index = None then (cs, Inl (ConfError EINVAL))
      else if \<not> check_kwargs {''domain'', ''owner'', ''force''} ''force'' is_bool kwargs
        then (cs, Inl (ConfError EINVAL))
      else (let owner = kwarg kwargs ''owner'' (cs_machine_id cs);
                domain = kwarg kwargs ''domain'' (PStr ''default'');
                force = py_truth (kwarg kwargs ''force'' (PBool False)) in
        case cs_get P cs index (Some (lock_owner_key domain)) PNone of
          (cs1, Inl e) \<Rightarrow> (cs1, Inl e)
        | (cs1, Inr holder) \<Rightarrow>
            if py_eq holder owner \<or> force then
              (case cs_delete P cs1 index (lock_owner_key domain) False of
                 (cs2, Inl e) \<Rightarrow> (cs2, Inl e)
               | (cs2, Inr _) \<Rightarrow> (case cs_delete P cs2 index (lock_end_time_key domain) False of
                     (cs3, Inl e) \<Rightarrow> (cs3, Inl e)
                   | (cs3, Inr _) \<Rightarrow> (cs3, Inr True)))
            else (cs1, Inr False)))"

section \<open>Steps of the configuration store\<close>

text \<open>What a key of a loaded index reads as.\<close>

definition cs_val :: "'p payload_class \<Rightarrow> ('b, 'h, 'p) conf_store \<Rightarrow> string \<Rightarrow> string \<Rightarrow> pyexc + pyval" where
  "cs_val P cs index key = snd (pl_get P (cc_data (the (cs_cache cs index))) key)"

definition cs_inv :: "('p \<Rightarrow> bool) \<Rightarrow> ('b, 'h, 'p) conf_store \<Rightarrow> string \<Rightarrow> bool" where
  "cs_inv I cs index \<longleftrightarrow> (\<exists>cc. cs_cache cs index = Some cc \<and> I (cc_data cc))"

context payload_laws
begin

lemma cs_get_step:
  assumes "cs_inv inv cs i" "cs_get P cs i (Some k) dflt = (cs', r)"
  shows "cs_inv inv cs' i \<and> cs_machine_id cs' = cs_machine_id cs \<and>
    (\<forall>k'. kok k' \<longrightarrow> cs_val P cs' i k' = cs_val P cs i k') \<and>
    r = (case cs_val P cs i k of Inl e \<Rightarrow> Inl e | Inr v \<Rightarrow> Inr (if v = PNone then dflt else v))"
proof -
  obtain cc where cc: "cs_cache cs i = Some cc" "inv (cc_data cc)" using assms(1) by (auto simp: cs_inv_def)
  obtain p x where p: "pl_get P (cc_data cc) k = (p, x)" by (cases "pl_get P (cc_data cc) k")
  have cs': "cs' = cs\<lparr>cs_cache := (cs_cache cs)(i \<mapsto> cc\<lparr>cc_data := p\<rparr>)\<rparr>"
    and r: "r = (case x of Inl e \<Rightarrow> Inl e | Inr v \<Rightarrow> Inr (if v = PNone then dflt else v))"
    using assms(2) cc p by (auto simp: cs_get_def on_index_def cc_get_def split: sum.splits)
  have "inv p" using get_inv [OF cc(2), of k] p by simp
  moreover have "snd (pl_get P p k') = snd (pl_get P (cc_data cc) k')" if "kok k'" for k'
    using get_stable [OF cc(2) that, of k] p by simp
  ultimately show ?thesis using cc p r by (simp add: cs_inv_def cs_val_def cs')
qed

lemma cs_set_step:
  assumes "cs_inv inv cs i" "kok k" "vok v" "cs_set P cs i k v = (cs', Inr u)"
  shows "cs_inv inv cs' i" "cs_machine_id cs' = cs_machine_id cs" "cs_val P cs' i k = Inr v"
    "\<And>k'. kok k' \<Longrightarrow> indep k k' \<Longrightarrow> cs_val P cs' i k' = cs_val P cs i k'"
proof -
  obtain cc where cc: "cs_cache cs i = Some cc" "inv (cc_data cc)" using assms(1) by (auto simp: cs_inv_def)
  obtain p where p: "pl_set P (cc_data cc) k v = (p, None)"
    and cs': "cs' = cs\<lparr>cs_cache := (cs_cache cs)(i \<mapsto> cc\<lparr>cc_data := p, cc_dirty := True\<rparr>)\<rparr>"
    using assms(4) cc by (auto simp: cs_set_def on_index_def cc_set_def exc_result_def split: prod.splits option.splits)
  have "inv p" using set_inv [OF cc(2) assms(2,3)] p by simp
  then show "cs_inv inv cs' i" "cs_machine_id cs' = cs_machine_id cs" by (simp_all add: cs_inv_def cs')
  show "cs_val P cs' i k = Inr v" using set_same [OF cc(2) assms(2,3) p] by (simp add: cs_val_def cs')
  show "cs_val P cs' i k' = cs_val P cs i k'" if "kok k'" "indep k k'" for k'
    using set_other [OF cc(2) assms(2) that assms(3)] p cc by (simp add: cs_val_def cs')
qed

lemma cs_delete_step:
  assumes "cs_inv inv cs i" "kok k" "cs_delete P cs i k f = (cs', Inr b)"
  shows "cs_inv inv cs' i" "cs_machine_id cs' = cs_machine_id cs" "cs_val P cs' i k = Inr PNone"
    "\<And>k'. kok k' \<Longrightarrow> indep k k' \<Longrightarrow> cs_val P cs' i k' = cs_val P cs i k'"
proof -
  obtain cc where cc: "cs_cache cs i = Some cc" "inv (cc_data cc)" using assms(1) by (auto simp: cs_inv_def)
  obtain p where p: "pl_delete P (cc_data cc) k f = (p, Inr b)"
    and cs': "cs' = cs\<lparr>cs_cache := (cs_cache cs)(i \<mapsto> cc\<lparr>cc_data := p, cc_dirty := True\<rparr>)\<rparr>"
    using assms(3) cc by (auto simp: cs_delete_def on_index_def cc_delete_def split: prod.splits sum.splits)
  have "inv p" using delete_inv [OF cc(2), of k f] p by simp
  then show "cs_inv inv cs' i" "cs_machine_id cs' = cs_machine_id cs" by (simp_all add: cs_inv_def cs')
  show "cs_val P cs' i k = Inr PNone" using delete_same [OF cc(2) assms(2) p] by (simp add: cs_val_def cs')
  show "cs_val P cs' i k' = cs_val P cs i k'" if "kok k'" "indep k k'" for k'
    using delete_other [OF cc(2) assms(2) that, of f] p cc by (simp add: cs_val_def cs')
qed

end

section \<open>Lock laws\<close>

text \<open>What test_lock says, on the two values of the domain.\<close>

definition lock_answer :: "pyval \<Rightarrow> rat \<Rightarrow> pyexc + pyval \<Rightarrow> pyexc + pyval \<Rightarrow> pyexc + bool" where
  "lock_answer owner now holder end_time = (case holder of
      Inl e \<Rightarrow> Inl e
    | Inr h \<Rightarrow> if no_value h \<or> py_eq h owner then Inr True
        else (case end_time of
            Inl e \<Rightarrow> Inl e
          | Inr t \<Rightarrow> if no_value t then Inr True
              else (case py_float t of Inl e \<Rightarrow> Inl e | Inr x \<Rightarrow> Inr (x < now))))"

abbreviation lock_args :: "pyval \<Rightarrow> pyval \<Rightarrow> int \<Rightarrow> (string \<times> pyval) list" where
  "lock_args owner d n \<equiv> [(''owner'', owner), (''domain'', d), (''duration'', PInt n)]"

abbreviation unlock_args :: "pyval \<Rightarrow> pyval \<Rightarrow> bool \<Rightarrow> (string \<times> pyval) list" where
  "unlock_args owner d f \<equiv> [(''owner'', owner), (''domain'', d), (''force'', PBool f)]"

lemma kwarg_simps:
  "kwarg (lock_args owner d n) ''owner'' x = owner" "kwarg (lock_args owner d n) ''domain'' x = d"
  "kwarg (lock_args owner d n) ''duration'' x = PInt n"
  "kwarg (unlock_args owner d f) ''owner'' x = owner" "kwarg (unlock_args owner d f) ''domain'' x = d"
  "kwarg (unlock_args owner d f) ''force'' x = PBool f"
  "kwarg [(''owner'', owner), (''domain'', d)] ''owner'' x = owner"
  "kwarg [(''owner'', owner), (''domain'', d)] ''domain'' x = d"
  by (simp_all add: kwarg_def)

text \<open>The lock calls on a payload that keeps the payload laws, for the domains whose two
  keys are keys of the laws.\<close>

locale lock_laws = payload_laws P inv kok vok indep
  for P :: "'p payload_class"
    and inv :: "'p \<Rightarrow> bool"
    and kok :: "string \<Rightarrow> bool"
    and vok :: "pyval \<Rightarrow> bool"
    and indep :: "string \<Rightarrow> string \<Rightarrow> bool" +
  fixes dok :: "pyval \<Rightarrow> bool"
  assumes dok_keys: "dok d \<Longrightarrow> kok (lock_owner_key d) \<and> kok (lock_end_time_key d) \<and>
      indep (lock_owner_key d) (lock_end_time_key d) \<and> indep (lock_end_time_key d) (lock_owner_key d)"
    and dok_other: "dok d \<Longrightarrow> dok d' \<Longrightarrow> d \<noteq> d' \<Longrightarrow>
      indep (lock_owner_key d) (lock_owner_key d') \<and> indep (lock_owner_key d) (lock_end_time_key d') \<and>
      indep (lock_end_time_key d) (lock_owner_key d') \<and> indep (lock_end_time_key d) (lock_end_time_key d')"
    and str_vok: "vok (PStr s)"
begin

abbreviation okey :: "pyval \<Rightarrow> string" where "okey \<equiv> lock_owner_key"
abbreviation tkey :: "pyval \<Rightarrow> string" where "tkey \<equiv> lock_end_time_key"

lemma test_lock_step:
  assumes inv: "cs_inv inv cs i" and d: "dok d"
    and t: "cs_test_lock P cs i [(''owner'', owner), (''domain'', d)] now = (cs', r)"
  shows "cs_inv inv cs' i \<and> cs_machine_id cs' = cs_machine_id cs \<and>
    (\<forall>k'. kok k' \<longrightarrow> cs_val P cs' i k' = cs_val P cs i k') \<and>
    r = lock_answer owner now (cs_val P cs i (okey d)) (cs_val P cs i (tkey d))"
proof -
  have loaded: "cs_cache cs i \<noteq> None" using inv by (auto simp: cs_inv_def)
  obtain cs1 r1 where g1: "cs_get P cs i (Some (okey d)) PNone = (cs1, r1)" by fastforce
  obtain cs2 r2 where g2: "cs_get P cs1 i (Some (tkey d)) PNone = (cs2, r2)" by fastforce
  note s1 = cs_get_step [OF inv g1]
  have i1: "cs_inv inv cs1 i" using s1 by simp
  note s2 = cs_get_step [OF i1 g2]
  have v: "cs_val P cs1 i (tkey d) = cs_val P cs i (tkey d)" using s1 dok_keys [OF d] by simp
  show ?thesis
    using t loaded s1 s2 v
    unfolding cs_test_lock_def kwarg_simps Let_def g1 lock_answer_def
    by (auto simp: g2 no_value_def split: sum.splits if_splits)
qed

text \<open>A lock call with its three keyword arguments: when the lock is not free nothing
  changes; when it is, the two keys are written and the owner is read back.\<close>

lemma lock_refused:
  assumes inv: "cs_inv inv cs i" and d: "dok d"
    and t: "lock_answer owner now (cs_val P cs i (okey d)) (cs_val P cs i (tkey d)) = r" "r \<noteq> Inr True"
    and l: "cs_lock P cs i (lock_args owner d n) now now' = (cs', r')"
  shows "r' = r \<and> cs_inv inv cs' i \<and> (\<forall>k'. kok k' \<longrightarrow> cs_val P cs' i k' = cs_val P cs i k')"
proof -
  have loaded: "cs_cache cs i \<noteq> None" using inv by (auto simp: cs_inv_def)
  obtain cs1 r1 where g1: "cs_test_lock P cs i [(''owner'', owner), (''domain'', d)] now = (cs1, r1)" by fastforce
  note s1 = test_lock_step [OF inv d g1]
  show ?thesis
    using l loaded s1 t unfolding cs_lock_def kwarg_simps Let_def g1
    by (auto split: sum.splits bool.splits)
qed

lemma lock_free:
  assumes inv: "cs_inv inv cs i" and d: "dok d" and v: "vok owner"
    and l: "cs_lock P cs i (lock_args owner d n) now now' = (cs', Inr b)"
    and a: "lock_answer owner now (cs_val P cs i (okey d)) (cs_val P cs i (tkey d)) = Inr True"
  shows "b = py_eq owner owner" "cs_inv inv cs' i" "cs_val P cs' i (okey d) = Inr owner"
    "cs_val P cs' i (tkey d) = Inr (PStr (py_str (PFloat (now' + of_int n))))"
    "\<And>k'. kok k' \<Longrightarrow> indep (okey d) k' \<Longrightarrow> indep (tkey d) k' \<Longrightarrow> cs_val P cs' i k' = cs_val P cs i k'"
proof -
  have loaded: "cs_cache cs i \<noteq> None" using inv by (auto simp: cs_inv_def)
  note dk = dok_keys [OF d]
  obtain cs1 r1 where g1: "cs_test_lock P cs i [(''owner'', owner), (''domain'', d)] now = (cs1, r1)" by fastforce
  note s1 = test_lock_step [OF inv d g1]
  let ?t = "PStr (py_str (PFloat (now' + of_int n)))"
  obtain cs2 cs3 cs4 u u' r where steps: "cs_set P cs1 i (okey d) owner = (cs2, Inr u)"
    "cs_set P cs2 i (tkey d) ?t = (cs3, Inr u')" "cs_get P cs3 i (Some (okey d)) PNone = (cs4, r)" "cs' = cs4"
    "\<And>v. r = Inr v \<Longrightarrow> b = py_eq v owner"
    using l loaded s1 a unfolding cs_lock_def kwarg_simps Let_def g1
    by (auto split: sum.splits bool.splits prod.splits if_splits)
  have i1: "cs_inv inv cs1 i" using s1 by simp
  note s2 = cs_set_step [OF i1 _ v steps(1)]
  have i2: "cs_inv inv cs2 i" using s2(1) dk by simp
  note s3 = cs_set_step [OF i2 _ str_vok steps(2)]
  have i3: "cs_inv inv cs3 i" using s3(1) dk by simp
  note s4 = cs_get_step [OF i3 steps(3)]
  show "cs_inv inv cs' i" using s4 steps(4) by simp
  have o3: "cs_val P cs3 i (okey d) = Inr owner" using s3(4) s2(3) dk by simp
  then show "cs_val P cs' i (okey d) = Inr owner" using s4 dk steps(4) by simp
  from o3 s4 have "r = Inr owner" by simp
  then show "b = py_eq owner owner" by (rule steps(5))
  show "cs_val P cs' i (tkey d) = Inr ?t" using s4 s3(3) dk steps(4) by simp
  show "cs_val P cs' i k' = cs_val P cs i k'" if "kok k'" "indep (okey d) k'" "indep (tkey d) k'" for k'
    using s4 s3(4) [of k'] s2(4) [of k'] s1 dk that steps(4) by simp
qed

lemma lock_granted:
  assumes inv: "cs_inv inv cs i" and d: "dok d" and v: "vok owner"
    and l: "cs_lock P cs i (lock_args owner d n) now now' = (cs', Inr True)"
  shows "cs_inv inv cs' i" "cs_val P cs' i (okey d) = Inr owner"
    "cs_val P cs' i (tkey d) = Inr (PStr (py_str (PFloat (now' + of_int n))))"
    "\<And>k'. kok k' \<Longrightarrow> indep (okey d) k' \<Longrightarrow> indep (tkey d) k' \<Longrightarrow> cs_val P cs' i k' = cs_val P cs i k'"
proof -
  have a: "lock_answer owner now (cs_val P cs i (okey d)) (cs_val P cs i (tkey d)) = Inr True"
    using lock_refused [OF inv d refl _ l] by auto
  note f = lock_free [OF inv d v l a]
  show "cs_inv inv cs' i" "cs_val P cs' i (okey d) = Inr owner"
    "cs_val P cs' i (tkey d) = Inr (PStr (py_str (PFloat (now' + of_int n))))" by (fact f)+
  show "cs_val P cs' i k' = cs_val P cs i k'" if "kok k'" "indep (okey d) k'" "indep (tkey d) k'" for k'
    using f(5) that .
qed

text \<open>Mutual exclusion of lock calls that run to their end.\<close>

lemma lock_excludes:
  assumes inv: "cs_inv inv cs i" and d: "dok d" and v: "vok owner" and h: "\<not> no_value owner"
    and l: "cs_lock P cs i (lock_args owner d n) now now' = (cs', Inr True)"
    and dec: "decimal (now' + of_int n)" and b: "\<not> py_eq owner other" "later \<le> now' + of_int n"
  shows "snd (cs_lock P cs' i (lock_args other d m) later later') = Inr False"
proof -
  note g = lock_granted [OF inv d v l]
  have "\<not> no_value (PStr (py_str (PFloat (now' + of_int n))))"
    by (simp add: no_value_def py_str_def show_rat_def Let_def)
  then have "lock_answer other later (cs_val P cs' i (okey d)) (cs_val P cs' i (tkey d)) = Inr False"
    using g(2,3) h b float_roundtrip [OF dec] by (simp add: lock_answer_def del: py_float.simps)
  from lock_refused [OF g(1) d this, of m later'] show ?thesis
    by (cases "cs_lock P cs' i (lock_args other d m) later later'") simp
qed

text \<open>An unlock that returns True leaves the lock free for everybody.\<close>

lemma unlock_releases:
  assumes inv: "cs_inv inv cs i" and d: "dok d"
    and u: "cs_unlock P cs i (unlock_args owner d f) = (cs', Inr True)"
  shows "cs_inv inv cs' i" "cs_val P cs' i (okey d) = Inr PNone"
    "snd (cs_test_lock P cs' i [(''owner'', any), (''domain'', d)] now) = Inr True"
    "\<And>k'. kok k' \<Longrightarrow> indep (okey d) k' \<Longrightarrow> indep (tkey d) k' \<Longrightarrow> cs_val P cs' i k' = cs_val P cs i k'"
proof -
  have loaded: "cs_cache cs i \<noteq> None" using inv by (auto simp: cs_inv_def)
  note dk = dok_keys [OF d]
  obtain cs1 r1 where g1: "cs_get P cs i (Some (okey d)) PNone = (cs1, r1)" by fastforce
  obtain cs2 cs3 b1 b2 where steps: "cs_delete P cs1 i (okey d) False = (cs2, Inr b1)"
    "cs_delete P cs2 i (tkey d) False = (cs3, Inr b2)" "cs' = cs3"
    using u loaded unfolding cs_unlock_def kwarg_simps Let_def g1
    by (auto split: sum.splits bool.splits prod.splits if_splits)
  note s1 = cs_get_step [OF inv g1]
  have i1: "cs_inv inv cs1 i" using s1 by simp
  note s2 = cs_delete_step [OF i1 _ steps(1)]
  have i2: "cs_inv inv cs2 i" using s2(1) dk by simp
  note s3 = cs_delete_step [OF i2 _ steps(2)]
  show i3: "cs_inv inv cs' i" using s3(1) dk steps(3) by simp
  show o3: "cs_val P cs' i (okey d) = Inr PNone" using s2(3) s3(4) dk steps(3) by simp
  obtain cs4 r4 where t: "cs_test_lock P cs' i [(''owner'', any), (''domain'', d)] now = (cs4, r4)" by fastforce
  from test_lock_step [OF i3 d t] o3 t show "snd (cs_test_lock P cs' i [(''owner'', any), (''domain'', d)] now) = Inr True"
    by (simp add: lock_answer_def no_value_def)
  show "cs_val P cs' i k' = cs_val P cs i k'" if "kok k'" "indep (okey d) k'" "indep (tkey d) k'" for k'
    using s3(4) [of k'] s2(4) [of k'] s1 dk that steps(3) by simp
qed

lemma unlock_refused:
  assumes inv: "cs_inv inv cs i" and d: "dok d" and o: "cs_val P cs i (okey d) = Inr holder" "\<not> py_eq holder owner"
    and u: "cs_unlock P cs i (unlock_args owner d False) = (cs', r)"
  shows "r = Inr False \<and> (\<forall>k'. kok k' \<longrightarrow> cs_val P cs' i k' = cs_val P cs i k')"
proof -
  have loaded: "cs_cache cs i \<noteq> None" using inv by (auto simp: cs_inv_def)
  obtain cs1 r1 where g1: "cs_get P cs i (Some (okey d)) PNone = (cs1, r1)" by fastforce
  note s1 = cs_get_step [OF inv g1]
  show ?thesis using u loaded s1 o unfolding cs_unlock_def kwarg_simps Let_def g1 by (auto split: if_splits)
qed

end

end

