(* ===== verification/KvFactory.thy ===== *)
theory KvFactory
  imports ConfStore
begin

text \<open>
  KvStoreFactory of src/py-utils/src/utils/kv_store/kv_store.py: one store object per URL. The
  URL is taken apart as urllib.parse.urlparse does; the classes that
  \<open>inspect.getmembers\<close> finds are a table from their names to their constructors.

  Below it the backend of the configuration store made of the text stores: JSON, YAML, TOML,
  properties and dict objects over one file system.
\<close>

section \<open>URLs\<close>

definition is_alpha :: "char \<Rightarrow> bool" where
  "is_alpha c \<longleftrightarrow> (let n = (of_char c :: nat) in (65 \<le> n \<and> n \<le> 90) \<or> (97 \<le> n \<and> n \<le> 122))"

definition to_lower :: "char \<Rightarrow> char" where
  "to_lower c = (let n = (of_char c :: nat) in if 65 \<le> n \<and> n \<le> 90 then char_of (n + 32) else c)"

definition scheme_char :: "char \<Rightarrow> bool" where
  "scheme_char c \<longleftrightarrow> is_alpha c \<or> is_digit c \<or> c \<in> set ''+-.''"

text \<open>The scheme before the first colon, if it is one, in lower case.\<close>

definition url_scheme :: "string \<Rightarrow> string \<times> string" where
  "url_scheme url = (case split1 (CHR '':'') url of
      (s, Some r) \<Rightarrow> if s \<noteq> [] \<and> is_alpha (hd s) \<and> list_all scheme_char s then (map to_lower s, r) else ([], url)
    | (s, None) \<Rightarrow> ([], url))"

text \<open>\<open>urlparse\<close>: scheme, netloc and path. The fragment and the query are cut off the
  path; a netloc with one kind of bracket only is a ValueError.\<close>

definition urlparse :: "string \<Rightarrow> pyexc + string \<times> string \<times> string" where
  "urlparse url = (let (scheme, r) = url_scheme url;
       has = starts_with r ''//''; r1 = (if has then drop 2 r else r);
       netloc = (if has then takeWhile (\<lambda>c. c \<notin> set ''/?#'') r1 else []);
       r2 = (if has then dropWhile (\<lambda>c. c \<notin> set ''/?#'') r1 else r1);
       path = fst (split1 (CHR ''?'') (fst (split1 (CHR ''#'') r2))) in
     if (CHR ''['' \<in> set netloc) \<noteq> (CHR '']'' \<in> set netloc) then Inl ValueError
     else Inr (scheme, netloc, path))"

section \<open>The factory\<close>

record ('o, 'w) factory =
  fa_stores :: "string \<rightharpoonup> 'o"
  fa_world :: 'w

type_synonym ('o, 'w) store_table = "(string \<times> (string \<Rightarrow> string \<Rightarrow> string \<Rightarrow> 'w \<Rightarrow> 'w \<times> (pyexc + 'o))) list"

text \<open>\<open>get_instance\<close>. The store object is known by its URL.\<close>

definition get_instance :: "('o, 'w) store_table \<Rightarrow> ('o, 'w) factory \<Rightarrow> string \<Rightarrow> string \<Rightarrow>
    ('o, 'w) factory \<times> (pyexc + string)" where
  "get_instance table fa url delim = (case urlparse url of
      Inl e \<Rightarrow> (fa, Inl e)
    | Inr (scheme, netloc, path) \<Rightarrow>
        if fa_stores fa url \<noteq> None then (fa, Inr url)
        else (case map_of table scheme of
            None \<Rightarrow> (fa, Inl (KvError EINVAL))
          | Some mk \<Rightarrow> (case mk netloc path delim (fa_world fa) of
                (w, Inl e) \<Rightarrow> (fa\<lparr>fa_world := w\<rparr>, Inl e)
              | (w, Inr ob) \<Rightarrow> (fa\<lparr>fa_stores := (fa_stores fa)(url \<mapsto> ob), fa_world := w\<rparr>, Inr url))))"

section \<open>The text stores behind it\<close>

datatype kv_obj =
    JsonObj string string
  | YamlObj string string
  | TomlObj string string
  | PropObj string string
  | DictObj pyval string

text \<open>The codecs of the packages yaml and toml.\<close>

record codecs =
  co_yaml_dump :: "pyval \<Rightarrow> string \<times> pyexc option"
  co_yaml_load :: "string \<Rightarrow> pyval option"
  co_toml_dump :: "pyval \<Rightarrow> string \<times> pyexc option"
  co_toml_load :: "string \<Rightarrow> pyval option"

type_synonym kv_world = "(kv_obj, file_system) factory"

abbreviation file_obj :: "string \<Rightarrow> string \<Rightarrow> file_system \<Rightarrow> file_store" where
  "file_obj path delim fs \<equiv> \<lparr>fs_path = path, fs_delim = delim, fs_files = fs\<rparr>"

definition kv_table :: "(kv_obj, file_system) store_table" where
  "kv_table = [
     (''dict'', \<lambda>loc path delim w. (w, Inr (DictObj (PStr path) delim))),
     (''json'', \<lambda>loc path delim w. (fs_files (json_store_init path delim w), Inr (JsonObj path delim))),
     (''jsonmessage'', \<lambda>loc path delim w. (w, Inr (DictObj (PStr path) delim))),
     (''properties'', \<lambda>loc path delim w. (w, Inr (PropObj path delim))),
     (''toml'', \<lambda>loc path delim w. (fs_files (toml_store_init path delim w), Inr (TomlObj path delim))),
     (''yaml'', \<lambda>loc path delim w. (fs_files (yaml_store_init path delim w), Inr (YamlObj path delim)))]"

definition kv_obj_load :: "codecs \<Rightarrow> kv_world \<Rightarrow> string \<Rightarrow> bool \<Rightarrow> kv_world \<times> (pyexc + kv_payload)" where
  "kv_obj_load co w h recurse = (w, case fa_stores w h of
      None \<Rightarrow> Inl AttributeError
    | Some (JsonObj path delim) \<Rightarrow> snd (json_store_load (file_obj path delim (fa_world w)) recurse)
    | Some (YamlObj path delim) \<Rightarrow> snd (yaml_store_load (co_yaml_load co) (file_obj path delim (fa_world w)) recurse)
    | Some (TomlObj path delim) \<Rightarrow> snd (toml_store_load (co_toml_load co) (file_obj path delim (fa_world w)) recurse)
    | Some (PropObj path delim) \<Rightarrow> snd (prop_load (file_obj path delim (fa_world w)) recurse)
    | Some (DictObj v delim) \<Rightarrow> snd (dict_store_load \<lparr>ds_path = v, ds_delim = delim\<rparr> recurse))"

definition file_result :: "kv_world \<Rightarrow> file_store \<times> pyexc option \<Rightarrow> kv_world \<times> pyexc option" where
  "file_result w r = (w\<lparr>fa_world := fs_files (fst r)\<rparr>, snd r)"

definition kv_obj_dump :: "codecs \<Rightarrow> kv_world \<Rightarrow> string \<Rightarrow> kv_payload \<Rightarrow> kv_world \<times> pyexc option" where
  "kv_obj_dump co w h p = (case fa_stores w h of
      None \<Rightarrow> (w, Some AttributeError)
    | Some (JsonObj path delim) \<Rightarrow> file_result w (json_store_dump (file_obj path delim (fa_world w)) p)
    | Some (YamlObj path delim) \<Rightarrow> file_result w (yaml_store_dump (co_yaml_dump co) (file_obj path delim (fa_world w)) p)
    | Some (TomlObj path delim) \<Rightarrow> file_result w (toml_store_dump (co_toml_dump co) (file_obj path delim (fa_world w)) p)
    | Some (PropObj path delim) \<Rightarrow> file_result w (prop_dump (file_obj path delim (fa_world w)) p)
    | Some (DictObj v delim) \<Rightarrow> 
        (case dict_store_dump \<lparr>ds_path = v, ds_delim = delim\<rparr> p of
           (s, e) \<Rightarrow> (w\<lparr>fa_stores := (fa_stores w)(h \<mapsto> DictObj (ds_path s) delim)\<rparr>, e)))"

definition kv_backend :: "codecs \<Rightarrow> (kv_world, string, kv_payload) backend" where
  "kv_backend co = \<lparr>be_instance = get_instance kv_table, be_load = kv_obj_load co, be_dump = kv_obj_dump co\<rparr>"

end
