(* ===== verification/ConfProps.thy ===== *)
theory ConfProps
  imports ConfLock KvFactory
begin

text \<open>
  The properties of the configuration store over KvPayload and its file stores.
\<close>

section \<open>Locks over KvPayload\<close>

text \<open>A lock domain whose name is one part of a key.\<close>

definition lock_domain :: "pyval \<Rightarrow> bool" where
  "lock_domain d \<longleftrightarrow> (case d of
      PStr s \<Rightarrow> CHR ''['' \<notin> set s \<and> CHR ''>'' \<notin> set s \<and> py_strip s \<noteq> []
    | _ \<Rightarrow> False)"

lemma lock_domainE:
  assumes "lock_domain d"
  obtains s where "d = PStr s" "CHR ''['' \<notin> set s" "CHR ''>'' \<notin> set s" "py_strip s \<noteq> []"
  using assms by (auto simp: lock_domain_def split: pyval.splits)

lemma split_lock_keys:
  assumes "CHR ''>'' \<notin> set s"
  shows "py_split (CHR ''>'') (lock_owner_key (PStr s)) = [''lock'', s, ''owner'']"
    "py_split (CHR ''>'') (lock_end_time_key (PStr s)) = [''lock'', s, ''end_time'']"
proof -
  have j: "py_split (CHR ''>'') (py_join ''>'' [''lock'', s, x]) = [''lock'', s, x]" if "CHR ''>'' \<notin> set x" for x
    using assms that by (intro py_split_join) auto
  show "py_split (CHR ''>'') (lock_owner_key (PStr s)) = [''lock'', s, ''owner'']"
    using j [of "''owner''"] by (simp add: lock_owner_key_def)
  show "py_split (CHR ''>'') (lock_end_time_key (PStr s)) = [''lock'', s, ''end_time'']"
    using j [of "''end_time''"] by (simp add: lock_end_time_key_def)
qed

lemma lock_keys_plain:
  assumes "lock_domain d"
  shows "plain_key (CHR ''>'') (lock_owner_key d)" "plain_key (CHR ''>'') (lock_end_time_key d)"
proof -
  obtain s where s: "d = PStr s" "CHR ''['' \<notin> set s" "CHR ''>'' \<notin> set s" "py_strip s \<noteq> []"
    using assms by (elim lock_domainE)
  have n: "py_strip ''lock'' \<noteq> []" "py_strip ''owner'' \<noteq> []" "py_strip ''end_time'' \<noteq> []" by code_simp+
  show "plain_key (CHR ''>'') (lock_owner_key d)" "plain_key (CHR ''>'') (lock_end_time_key d)"
    using s n by (simp_all add: plain_key_def split_lock_keys)
qed

lemma key_indep_split: "plain_key c k \<Longrightarrow> plain_key c k' \<Longrightarrow>
    key_indep c k k' \<longleftrightarrow> name_diverge (map (\<lambda>s. (s, None)) (py_split c k)) (map (\<lambda>s. (s, None)) (py_split c k'))"
  by (simp add: key_indep_def plain_path)

interpretation lk: lock_laws kv_class "kp_inv (CHR ''>'')" "plain_key (CHR ''>'')" pywf "key_indep (CHR ''>'')" lock_domain
proof unfold_locales
  fix d d' and s :: string
  show "pywf (PStr s)" by simp
  assume d: "lock_domain d"
  then obtain x where x: "d = PStr x" "CHR ''>'' \<notin> set x" by (elim lock_domainE)
  show "plain_key (CHR ''>'') (lock_owner_key d) \<and> plain_key (CHR ''>'') (lock_end_time_key d) \<and>
      key_indep (CHR ''>'') (lock_owner_key d) (lock_end_time_key d) \<and>
      key_indep (CHR ''>'') (lock_end_time_key d) (lock_owner_key d)"
    using lock_keys_plain [OF d] by (simp add: key_indep_split) (simp add: x split_lock_keys)
  assume d': "lock_domain d'" and ne: "d \<noteq> d'"
  then obtain y where y: "d' = PStr y" "CHR ''>'' \<notin> set y" by (elim lock_domainE)
  show "key_indep (CHR ''>'') (lock_owner_key d) (lock_owner_key d') \<and>
      key_indep (CHR ''>'') (lock_owner_key d) (lock_end_time_key d') \<and>
      key_indep (CHR ''>'') (lock_end_time_key d) (lock_owner_key d') \<and>
      key_indep (CHR ''>'') (lock_end_time_key d) (lock_end_time_key d')"
    using lock_keys_plain [OF d] lock_keys_plain [OF d'] ne x y
    by (simp add: key_indep_split) (simp add: x y split_lock_keys)
qed

text \<open>Claim C4. When a lock call of an owner has returned True, a lock call of any other
  owner on that domain returns False until the lock has ended, if calls do not overlap;
  a call on another domain is not affected by it.\<close>

theorem conf_lock_excludes:
  assumes "cs_inv (kp_inv (CHR ''>'')) cs i" "lock_domain d" "a \<noteq> []" "a \<noteq> b" "0 \<le> n"
    and "cs_lock kv_class cs i (lock_args (PStr a) d n) now now' = (cs', Inr True)"
    and "decimal now'" "later \<le> now' + of_int n" "lock_domain d'" "d' \<noteq> d"
  shows "snd (cs_lock kv_class cs' i (lock_args (PStr b) d m) later later') = Inr False \<and>
    cs_val kv_class cs' i (lock_owner_key d') = cs_val kv_class cs i (lock_owner_key d') \<and>
    cs_val kv_class cs' i (lock_end_time_key d') = cs_val kv_class cs i (lock_end_time_key d')"
proof -
  have v: "pywf (PStr a)" "\<not> no_value (PStr a)" "\<not> py_eq (PStr a) (PStr b)" using assms(3,4) by (simp_all add: no_value_def)
  have dec: "decimal (now' + of_int n)" using decimal_add [OF assms(7), of "nat n"] assms(5) by simp
  have "snd (cs_lock kv_class cs' i (lock_args (PStr b) d m) later later') = Inr False"
    by (rule lk.lock_excludes [OF assms(1,2) v(1,2) assms(6) dec v(3) assms(8)])
  moreover have "d \<noteq> d'" using assms(10) by simp
  ultimately show ?thesis
    using lk.lock_granted(4) [OF assms(1,2) v(1) assms(6)] lk.dok_keys [OF assms(9)] lk.dok_other [OF assms(2,9)] by blast
qed

definition sample_conf :: "(kv_world, string, kv_payload) conf_store" where
  "sample_conf = \<lparr>cs_delim = ''>'', cs_cache = [''ix'' \<mapsto> \<lparr>cc_delim = ''>'', cc_dirty = False,
       cc_store = ''json:///a'', cc_data = sample_payload, cc_recurse = True\<rparr>],
     cs_callbacks = Map.empty, cs_machine_id = PStr ''m1'',
     cs_back = \<lparr>fa_stores = [''json:///a'' \<mapsto> JsonObj ''/a'' ''>''], fa_world = [''/a'' \<mapsto> ''{}'']\<rparr>\<rparr>"

lemma sample_payload_inv: "kp_inv (CHR ''>'') sample_payload"
  by (simp add: kp_inv_def sample_payload_def)

lemma sample_conf_inv: "cs_inv (kp_inv (CHR ''>'')) sample_conf ''ix''"
  by (simp add: cs_inv_def sample_conf_def sample_payload_inv)

lemma decimal_nat: "decimal (of_nat n)"
  using decimal_add [of 0 n] by (simp add: decimal_def)

theorem conf_lock_excludes_witness:
  "snd (cs_lock kv_class (fst (cs_lock kv_class sample_conf ''ix'' (lock_args (PStr ''p'') (PStr ''db'') 10) 100 100))
     ''ix'' (lock_args (PStr ''q'') (PStr ''db'') 5) 110 110) = Inr False"
proof -
  have l: "snd (cs_lock kv_class sample_conf ''ix'' (lock_args (PStr ''p'') (PStr ''db'') 10) 100 100) = Inr True"
    by code_simp
  have d: "lock_domain (PStr ''db'')" "lock_domain (PStr ''other'')" by code_simp+
  have dec: "decimal 100" using decimal_nat [of 100] by simp
  have "cs_lock kv_class sample_conf ''ix'' (lock_args (PStr ''p'') (PStr ''db'') 10) 100 100 =
      (fst (cs_lock kv_class sample_conf ''ix'' (lock_args (PStr ''p'') (PStr ''db'') 10) 100 100), Inr True)"
    using l by (simp add: prod_eq_iff)
  from conf_lock_excludes [OF sample_conf_inv d(1) _ _ _ this dec _ d(2), of "''q''" 110 5 110] show ?thesis by simp
qed

text \<open>unlock by another owner without force changes nothing and returns False; an
  unlock that returns True leaves the domain free for every owner.\<close>

lemma conf_unlock:
  assumes "cs_inv (kp_inv (CHR ''>'')) cs i" "lock_domain d"
    and "cs_unlock kv_class cs i (unlock_args owner d f) = (cs', r)"
  shows "(r = Inr True \<longrightarrow> snd (cs_test_lock kv_class cs' i [(''owner'', any), (''domain'', d)] now) = Inr True) \<and>
    (\<not> f \<and> cs_val kv_class cs i (lock_owner_key d) = Inr holder \<and> \<not> py_eq holder owner \<longrightarrow>
       r = Inr False \<and> cs_val kv_class cs' i (lock_owner_key d) = Inr holder)"
proof (intro conjI impI)
  assume "r = Inr True"
  then show "snd (cs_test_lock kv_class cs' i [(''owner'', any), (''domain'', d)] now) = Inr True"
    using lk.unlock_releases(3) [OF assms(1,2), of owner f cs' any now] assms(3) by simp
next
  assume h: "\<not> f \<and> cs_val kv_class cs i (lock_owner_key d) = Inr holder \<and> \<not> py_eq holder owner"
  then have "cs_unlock kv_class cs i (unlock_args owner d False) = (cs', r)" using assms(3) by simp
  note u = lk.unlock_refused [OF assms(1,2) _ _ this, of holder]
  show "r = Inr False" using u h by simp
  show "cs_val kv_class cs' i (lock_owner_key d) = Inr holder" using u h lk.dok_keys [OF assms(2)] by simp
qed

theorem conf_unlock_witness:
  "snd (cs_test_lock kv_class
      (fst (cs_unlock kv_class (fst (cs_lock kv_class sample_conf ''ix'' (lock_args (PStr ''p'') (PStr ''db'') 10) 100 100))
        ''ix'' (unlock_args (PStr ''p'') (PStr ''db'') False)))
      ''ix'' [(''owner'', PStr ''q''), (''domain'', PStr ''db'')] 101) = Inr True"
proof -
  let ?cs = "fst (cs_lock kv_class sample_conf ''ix'' (lock_args (PStr ''p'') (PStr ''db'') 10) 100 100)"
  have d: "lock_domain (PStr ''db'')" by code_simp
  have l: "snd (cs_lock kv_class sample_conf ''ix'' (lock_args (PStr ''p'') (PStr ''db'') 10) 100 100) = Inr True"
    by code_simp
  then have "cs_lock kv_class sample_conf ''ix'' (lock_args (PStr ''p'') (PStr ''db'') 10) 100 100 = (?cs, Inr True)"
    by (simp add: prod_eq_iff)
  then have i: "cs_inv (kp_inv (CHR ''>'')) ?cs ''ix''"
    by (rule lk.lock_granted(1) [OF sample_conf_inv d, rotated]) simp
  have "snd (cs_unlock kv_class ?cs ''ix'' (unlock_args (PStr ''p'') (PStr ''db'') False)) = Inr True" by code_simp
  with conf_unlock [OF i d surjective_pairing, of "PStr ''p''" False "PStr ''q''" 101] show ?thesis by simp
qed

end
