(* ===== verification/LockRace.thy ===== *)
theory LockRace
  imports ConfProps
begin

text \<open>
  Overlapping lock calls. On a backend that several processes share, such as Consul, each get and
  set of ConfStore.lock and each reading of the clock is a step of its own: read the owner, read the end
  time, compare it with the clock, write the owner, take the time, write the end time, sleep 0.01 seconds, read
  the owner again. The steps of any number of processes interleave; time passes between them.

  Two theorems: without a bound on how long a process may stay between its test and its write
  two callers can both be told True, although the code's comment says the last read
  avoids the race; if every process writes the owner less than 0.01 seconds after the last read of its
  test, at most one caller is told True while no lock has ended.
\<close>

section \<open>Steps\<close>

text \<open>Where a process stands in lock: the owner not read yet; owner read, held by
  somebody else; end time read, its value and when; test passed, and when its last read was; owner
  written; time of the lock taken; end time written at a time; returned.\<close>

datatype lock_pc =
    Idle
  | SawOwner
  | SawEnd rat rat
  | Tested rat
  | WroteOwner
  | Stamped rat
  | WroteEnd rat
  | Returned bool

record race_state =
  rs_holder :: pyval
  rs_end :: pyval
  rs_now :: rat
  rs_pc :: "nat \<Rightarrow> lock_pc"

abbreviation at_pc :: "race_state \<Rightarrow> nat \<Rightarrow> lock_pc \<Rightarrow> race_state" where
  "at_pc s p c \<equiv> s\<lparr>rs_pc := (rs_pc s)(p := c)\<rparr>"

text \<open>The value that lock writes as its end time.\<close>

definition end_text :: "rat \<Rightarrow> int \<Rightarrow> pyval" where
  "end_text now dur = PStr (py_str (PFloat (now + of_int dur)))"

inductive lock_step :: "(nat \<Rightarrow> string) \<Rightarrow> int \<Rightarrow> race_state \<Rightarrow> race_state \<Rightarrow> bool"
  for own :: "nat \<Rightarrow> string" and dur :: int where
  read_free: "rs_pc s p = Idle \<Longrightarrow> no_value (rs_holder s) \<or> py_eq (rs_holder s) (PStr (own p)) \<Longrightarrow>
    lock_step own dur s (at_pc s p (Tested (rs_now s)))"
| read_held: "rs_pc s p = Idle \<Longrightarrow> \<not> (no_value (rs_holder s) \<or> py_eq (rs_holder s) (PStr (own p))) \<Longrightarrow>
    lock_step own dur s (at_pc s p SawOwner)"
| end_none: "rs_pc s p = SawOwner \<Longrightarrow> no_value (rs_end s) \<Longrightarrow>
    lock_step own dur s (at_pc s p (Tested (rs_now s)))"
| read_end: "rs_pc s p = SawOwner \<Longrightarrow> \<not> no_value (rs_end s) \<Longrightarrow> py_float (rs_end s) = Inr x \<Longrightarrow>
    lock_step own dur s (at_pc s p (SawEnd x (rs_now s)))"
| end_free: "rs_pc s p = SawEnd x t \<Longrightarrow> x < rs_now s \<Longrightarrow> lock_step own dur s (at_pc s p (Tested t))"
| end_held: "rs_pc s p = SawEnd x t \<Longrightarrow> \<not> x < rs_now s \<Longrightarrow> lock_step own dur s (at_pc s p (Returned False))"
| write_owner: "rs_pc s p = Tested t \<Longrightarrow>
    lock_step own dur s ((at_pc s p WroteOwner)\<lparr>rs_holder := PStr (own p)\<rparr>)"
| stamp: "rs_pc s p = WroteOwner \<Longrightarrow> lock_step own dur s (at_pc s p (Stamped (rs_now s)))"
| write_end: "rs_pc s p = Stamped t \<Longrightarrow>
    lock_step own dur s ((at_pc s p (WroteEnd (rs_now s)))\<lparr>rs_end := end_text t dur\<rparr>)"
| check: "rs_pc s p = WroteEnd t \<Longrightarrow> t + 1 / 100 \<le> rs_now s \<Longrightarrow>
    lock_step own dur s (at_pc s p (Returned (py_eq (rs_holder s) (PStr (own p)))))"
| tick: "rs_now s \<le> t \<Longrightarrow> decimal t \<Longrightarrow> lock_step own dur s (s\<lparr>rs_now := t\<rparr>)"

lemma py_eq_PStr [simp]: "py_eq v (PStr s) \<longleftrightarrow> v = PStr s"
  by (cases v) auto

text \<open>From its passed test a process that is not disturbed runs to True.\<close>

lemma tested_run:
  assumes "rs_pc s p = Tested t" "decimal (rs_now s + 1 / 100)"
  shows "(lock_step own dur)\<^sup>*\<^sup>* s (s\<lparr>rs_holder := PStr (own p), rs_end := end_text (rs_now s) dur,
    rs_now := rs_now s + 1 / 100, rs_pc := (rs_pc s)(p := Returned True)\<rparr>)"
proof -
  let ?s1 = "(at_pc s p WroteOwner)\<lparr>rs_holder := PStr (own p)\<rparr>"
  let ?st = "at_pc ?s1 p (Stamped (rs_now ?s1))"
  let ?s2 = "(at_pc ?st p (WroteEnd (rs_now ?st)))\<lparr>rs_end := end_text (rs_now ?s1) dur\<rparr>"
  let ?s3 = "?s2\<lparr>rs_now := rs_now s + 1 / 100\<rparr>"
  have "lock_step own dur s ?s1" using assms(1) by (rule lock_step.write_owner)
  moreover have "lock_step own dur ?s1 ?st" by (rule lock_step.stamp) simp
  moreover have "lock_step own dur ?st ?s2" by (rule lock_step.write_end) simp
  moreover have "lock_step own dur ?s2 ?s3" by (rule lock_step.tick) (simp_all add: assms(2))
  moreover have "lock_step own dur ?s3 (at_pc ?s3 p (Returned (py_eq (rs_holder ?s3) (PStr (own p)))))"
    by (rule lock_step.check [where t = "rs_now s"]) simp_all
  ultimately have "(lock_step own dur)\<^sup>*\<^sup>* s (at_pc ?s3 p (Returned (py_eq (rs_holder ?s3) (PStr (own p)))))"
    by (meson converse_rtranclp_into_rtranclp r_into_rtranclp)
  then show ?thesis by simp
qed

section \<open>The race\<close>

definition race_start :: race_state where
  "race_start = \<lparr>rs_holder = PNone, rs_end = PNone, rs_now = 0, rs_pc = (\<lambda>_. Idle)\<rparr>"

lemma decimal_cent: "decimal (of_nat n / 100)"
  unfolding decimal_def by (intro exI [of _ "n * 10 ^ 5"]) simp

text \<open>Two overlapping lock calls of different owners can both return True: the
  second process stays between its test and its write until the first has read
  its own name back.\<close>

lemma lock_race:
  "\<exists>s. (lock_step own dur)\<^sup>*\<^sup>* race_start s \<and> rs_pc s 0 = Returned True \<and> rs_pc s 1 = Returned True"
proof -
  let ?s1 = "at_pc race_start 0 (Tested 0)" and ?R = "(lock_step own dur)\<^sup>*\<^sup>*"
  let ?s2 = "at_pc ?s1 1 (Tested 0)"
  have "lock_step own dur race_start ?s1"
    using lock_step.read_free [of race_start 0 own dur] by (simp add: race_start_def no_value_def)
  moreover have "lock_step own dur ?s1 ?s2"
    using lock_step.read_free [of ?s1 1 own dur] by (simp add: race_start_def no_value_def)
  moreover define s3 where "s3 = ?s2\<lparr>rs_holder := PStr (own 0), rs_end := end_text (rs_now ?s2) dur,
    rs_now := rs_now ?s2 + 1 / 100, rs_pc := (rs_pc ?s2)(0 := Returned True)\<rparr>"
  moreover have "?R ?s2 s3"
    unfolding s3_def using decimal_cent [of 1] by (intro tested_run) (simp_all add: race_start_def)
  moreover define s4 where "s4 = s3\<lparr>rs_holder := PStr (own 1), rs_end := end_text (rs_now s3) dur,
    rs_now := rs_now s3 + 1 / 100, rs_pc := (rs_pc s3)(1 := Returned True)\<rparr>"
  moreover have "?R s3 s4"
    unfolding s4_def using decimal_cent [of 2] by (intro tested_run) (simp_all add: s3_def race_start_def)
  ultimately have "?R race_start s4 \<and> rs_pc s4 0 = Returned True \<and> rs_pc s4 1 = Returned True"
    by (auto intro: converse_rtranclp_into_rtranclp rtranclp_trans)
  then show ?thesis by blast
qed

section \<open>Timely processes exclude each other\<close>

text \<open>Runs in which a process that passes its test writes the owner within \<open>\<delta>\<close> of the last read
  of the test, up to the time \<open>hor\<close> before which no lock of the run ends.\<close>

definition timely :: "rat \<Rightarrow> rat \<Rightarrow> race_state \<Rightarrow> bool" where
  "timely \<delta> hor s \<longleftrightarrow> rs_now s \<le> hor \<and> (\<forall>p t. rs_pc s p = Tested t \<longrightarrow> rs_now s \<le> t + \<delta>)"

definition timed_step :: "(nat \<Rightarrow> string) \<Rightarrow> int \<Rightarrow> rat \<Rightarrow> rat \<Rightarrow> race_state \<Rightarrow> race_state \<Rightarrow> bool" where
  "timed_step own dur \<delta> hor s s' \<longleftrightarrow> lock_step own dur s s' \<and> timely \<delta> hor s'"

text \<open>The processes that wrote the owner and have not lost it.\<close>

fun claims :: "lock_pc \<Rightarrow> bool" where
  "claims WroteOwner = True"
| "claims (Stamped t) = True"
| "claims (WroteEnd t) = True"
| "claims (Returned b) = b"
| "claims _ = False"

fun ended :: "lock_pc \<Rightarrow> bool" where
  "ended (WroteEnd t) = True"
| "ended (Returned b) = b"
| "ended _ = False"

text \<open>The last read of a test that has passed or may still pass before \<open>hor\<close>.\<close>

fun test_read :: "rat \<Rightarrow> lock_pc \<Rightarrow> rat option" where
  "test_read hor (Tested t) = Some t"
| "test_read hor (SawEnd x t) = (if x < hor then Some t else None)"
| "test_read hor _ = None"

definition valid_end :: "rat \<Rightarrow> race_state \<Rightarrow> bool" where
  "valid_end hor s \<longleftrightarrow> \<not> no_value (rs_end s) \<and> (\<exists>x. py_float (rs_end s) = Inr x \<and> hor \<le> x)"

definition race_inv :: "(nat \<Rightarrow> string) \<Rightarrow> rat \<Rightarrow> rat \<Rightarrow> rat \<Rightarrow> race_state \<Rightarrow> bool" where
  "race_inv own t0 \<delta> hor s \<longleftrightarrow>
     decimal (rs_now s) \<and> t0 \<le> rs_now s \<and> timely \<delta> hor s \<and>
     (\<forall>p t. rs_pc s p = Stamped t \<longrightarrow> t0 \<le> t \<and> decimal t) \<and>
     (\<forall>p t. test_read hor (rs_pc s p) = Some t \<longrightarrow> t \<le> rs_now s) \<and>
     (\<forall>p t q t'. rs_pc s p = WroteEnd t \<and> test_read hor (rs_pc s q) = Some t' \<longrightarrow> t' \<le> t) \<and>
     (\<forall>p. ended (rs_pc s p) \<longrightarrow> valid_end hor s) \<and>
     ((\<exists>p. claims (rs_pc s p)) \<longrightarrow> (\<exists>p. claims (rs_pc s p) \<and> rs_holder s = PStr (own p))) \<and>
     (\<forall>p. rs_pc s p = Returned True \<longrightarrow> rs_holder s = PStr (own p) \<and> (\<forall>q t. rs_pc s q \<noteq> Tested t)
       \<and> (\<forall>q t. test_read hor (rs_pc s q) = Some t \<longrightarrow> t + 1 / 100 \<le> rs_now s))"

lemma ended_claims: "ended c \<Longrightarrow> claims c"
  by (cases c) auto

lemma claims_read: "claims c \<Longrightarrow> test_read hor c = None"
  by (cases c) auto

text \<open>Once an end time is written no further test passes.\<close>

lemma no_test_passes:
  assumes inv: "race_inv own t0 \<delta> hor s" and own: "inj own" "\<forall>p. own p \<noteq> []" and e: "ended (rs_pc s p)"
  shows "\<not> claims (rs_pc s q) \<Longrightarrow> \<not> (no_value (rs_holder s) \<or> rs_holder s = PStr (own q))"
    and "\<not> no_value (rs_end s)" "py_float (rs_end s) = Inr x \<Longrightarrow> hor \<le> x"
proof -
  obtain r where r: "claims (rs_pc s r)" "rs_holder s = PStr (own r)"
    using inv e ended_claims unfolding race_inv_def by metis
  show "\<not> (no_value (rs_holder s) \<or> rs_holder s = PStr (own q))" if "\<not> claims (rs_pc s q)"
    using r that own by (auto simp: no_value_def dest: injD)
  have "valid_end hor s" using inv e by (auto simp: race_inv_def)
  then show "\<not> no_value (rs_end s)" "py_float (rs_end s) = Inr x \<Longrightarrow> hor \<le> x" by (auto simp: valid_end_def)
qed

text \<open>A step within a test keeps the invariant if its read, where it still counts, was made before or is made
  while no end time of the run is written.\<close>

lemma race_inv_quiet:
  assumes inv: "race_inv own t0 \<delta> hor s" and q: "\<not> claims (rs_pc s q)" "\<not> claims c" and \<delta>: "\<delta> < 1 / 100"
    and r: "\<And>u. test_read hor c = Some u \<Longrightarrow>
      test_read hor (rs_pc s q) = Some u \<or> u = rs_now s \<and> (\<forall>p. \<not> ended (rs_pc s p))"
    and t: "timely \<delta> hor (at_pc s q c)"
  shows "race_inv own t0 \<delta> hor (at_pc s q c)"
proof -
  let ?s = "at_pc s q c"
  have c: "\<not> ended c" "c \<noteq> WroteEnd u" "c \<noteq> Stamped u" "c \<noteq> Returned True" for u using q(2) ended_claims by auto
  have nq: "\<not> ended (rs_pc s q)" using q(1) ended_claims by auto
  have r': "test_read hor (rs_pc s p) = Some u \<or> u = rs_now s \<and> (\<forall>p. \<not> ended (rs_pc s p))"
    if "test_read hor (rs_pc ?s p) = Some u" for p u using that r by (cases "p = q") auto
  have en: "ended (rs_pc s p)" if "rs_pc s p = WroteEnd u \<or> rs_pc s p = Returned True" for p u using that by auto
  have "(\<exists>p. claims (rs_pc ?s p)) \<longrightarrow> (\<exists>p. claims (rs_pc ?s p) \<and> rs_holder ?s = PStr (own p))"
  proof
    assume "\<exists>p. claims (rs_pc ?s p)"
    then have "\<exists>p. claims (rs_pc s p)" using q(2) by (auto split: if_splits)
    then obtain p where "claims (rs_pc s p)" "rs_holder s = PStr (own p)" using inv unfolding race_inv_def by metis
    moreover then have "p \<noteq> q" using q(1) by metis
    ultimately show "\<exists>p. claims (rs_pc ?s p) \<and> rs_holder ?s = PStr (own p)" by auto
  qed
  moreover have "\<forall>p u. test_read hor (rs_pc ?s p) = Some u \<longrightarrow> u \<le> rs_now ?s"
    using r' inv unfolding race_inv_def by fastforce
  moreover have "\<forall>p u p' u'. rs_pc ?s p = WroteEnd u \<and> test_read hor (rs_pc ?s p') = Some u' \<longrightarrow> u' \<le> u"
  proof (intro allI impI)
    fix p u p' u'
    assume a: "rs_pc ?s p = WroteEnd u \<and> test_read hor (rs_pc ?s p') = Some u'"
    then have p: "rs_pc s p = WroteEnd u" using c(2) by (auto split: if_splits)
    then have "test_read hor (rs_pc s p') = Some u'" using r' [of p' u'] a en by blast
    with p show "u' \<le> u" using inv unfolding race_inv_def by metis
  qed
  moreover have "\<forall>p. rs_pc ?s p = Returned True \<longrightarrow> rs_holder ?s = PStr (own p) \<and> (\<forall>q u. rs_pc ?s q \<noteq> Tested u)
      \<and> (\<forall>q u. test_read hor (rs_pc ?s q) = Some u \<longrightarrow> u + 1 / 100 \<le> rs_now ?s)"
  proof (intro allI impI)
    fix p
    assume "rs_pc ?s p = Returned True"
    then have p: "rs_pc s p = Returned True" using c(4) by (auto split: if_splits)
    then have late: "u + 1 / 100 \<le> rs_now s" if "test_read hor (rs_pc ?s p') = Some u" for p' u
      using r' [OF that] en [of p] inv unfolding race_inv_def by blast
    have "rs_pc ?s p' \<noteq> Tested u" for p' u
    proof
      assume a: "rs_pc ?s p' = Tested u"
      then have "rs_now s \<le> u + \<delta>" using t unfolding timely_def by (metis race_state.select_convs(3) race_state.simps(8) race_state.surjective race_state.update_convs(4))
      moreover have "u + 1 / 100 \<le> rs_now s" using late [of p' u] a by (simp del: fun_upd_apply)
      ultimately show False using \<delta> by linarith
    qed
    moreover have "rs_holder s = PStr (own p)" using p inv unfolding race_inv_def by blast
    ultimately show "rs_holder ?s = PStr (own p) \<and> (\<forall>q u. rs_pc ?s q \<noteq> Tested u)
        \<and> (\<forall>q u. test_read hor (rs_pc ?s q) = Some u \<longrightarrow> u + 1 / 100 \<le> rs_now ?s)" using late by simp
  qed
  moreover have "\<forall>p u. rs_pc ?s p = Stamped u \<longrightarrow> t0 \<le> u \<and> decimal u" "\<forall>p. ended (rs_pc ?s p) \<longrightarrow> valid_end hor ?s"
    "decimal (rs_now ?s) \<and> t0 \<le> rs_now ?s"
    using inv c by (auto simp: race_inv_def valid_end_def split: if_splits)
  ultimately show ?thesis using t unfolding race_inv_def by (intro conjI) simp_all
qed

lemma race_inv_write_owner:
  assumes inv: "race_inv own t0 \<delta> hor s" and q: "rs_pc s q = Tested u"
    and t: "timely \<delta> hor ((at_pc s q WroteOwner)\<lparr>rs_holder := PStr (own q)\<rparr>)"
  shows "race_inv own t0 \<delta> hor ((at_pc s q WroteOwner)\<lparr>rs_holder := PStr (own q)\<rparr>)"
proof -
  have "rs_pc s p \<noteq> Returned True" for p using inv q unfolding race_inv_def by metis
  then show ?thesis
    using inv t q unfolding race_inv_def by (auto simp: valid_end_def split: if_splits)
qed

lemma race_inv_stamp:
  assumes inv: "race_inv own t0 \<delta> hor s" and q: "rs_pc s q = WroteOwner" and t: "timely \<delta> hor (at_pc s q (Stamped (rs_now s)))"
  shows "race_inv own t0 \<delta> hor (at_pc s q (Stamped (rs_now s)))"
proof -
  let ?s = "at_pc s q (Stamped (rs_now s))"
  obtain r where "claims (rs_pc s r)" "rs_holder s = PStr (own r)"
    using inv q unfolding race_inv_def by (metis claims.simps(1))
  then have "claims (rs_pc ?s r) \<and> rs_holder ?s = PStr (own r)" by simp
  then have "\<exists>p. claims (rs_pc ?s p) \<and> rs_holder ?s = PStr (own p)" ..
  with inv t show ?thesis unfolding race_inv_def by (auto simp: valid_end_def split: if_splits)
qed

lemma race_inv_write_end:
  assumes inv: "race_inv own t0 \<delta> hor s" and q: "rs_pc s q = Stamped u"
    and dur: "hor \<le> t0 + of_int dur" "0 \<le> dur"
    and t: "timely \<delta> hor ((at_pc s q (WroteEnd (rs_now s)))\<lparr>rs_end := end_text u dur\<rparr>)"
  shows "race_inv own t0 \<delta> hor ((at_pc s q (WroteEnd (rs_now s)))\<lparr>rs_end := end_text u dur\<rparr>)"
proof -
  let ?s = "(at_pc s q (WroteEnd (rs_now s)))\<lparr>rs_end := end_text u dur\<rparr>"
  have u: "t0 \<le> u" "decimal u" using inv q unfolding race_inv_def by metis+
  then have "decimal (u + of_int dur)"
    using decimal_add [of u "nat dur"] dur(2) by simp
  then have "py_float (end_text u dur) = Inr (u + of_int dur)"
    unfolding end_text_def by (rule float_roundtrip)
  moreover have "\<not> no_value (end_text u dur)"
    by (simp add: end_text_def no_value_def py_str_def show_rat_def Let_def)
  moreover have "hor \<le> u + of_int dur" using u dur(1) by simp
  ultimately have v: "valid_end hor ?s" by (simp add: valid_end_def)
  obtain r where "claims (rs_pc s r)" "rs_holder s = PStr (own r)"
    using inv q unfolding race_inv_def by (metis claims.simps(2))
  then have "claims (rs_pc ?s r) \<and> rs_holder ?s = PStr (own r)" by simp
  then have "\<exists>p. claims (rs_pc ?s p) \<and> rs_holder ?s = PStr (own p)" ..
  with inv t q v show ?thesis
    unfolding race_inv_def by (auto split: if_splits)
qed

lemma race_inv_check:
  assumes inv: "race_inv own t0 \<delta> hor s" and q: "rs_pc s q = WroteEnd u" "u + 1 / 100 \<le> rs_now s" and \<delta>: "\<delta> < 1 / 100"
    and t: "timely \<delta> hor (at_pc s q (Returned (rs_holder s = PStr (own q))))" and own: "inj own"
  shows "race_inv own t0 \<delta> hor (at_pc s q (Returned (rs_holder s = PStr (own q))))"
proof -
  have read: "t' \<le> u" if "test_read hor (rs_pc s p) = Some t'" for p t'
    using inv q(1) that unfolding race_inv_def by metis
  have late: "t' + 1 / 100 \<le> rs_now s" if "test_read hor (rs_pc s p) = Some t'" for p t'
    using read [OF that] q(2) by linarith
  have nt: "rs_pc s p \<noteq> Tested t'" for p t'
  proof
    assume p: "rs_pc s p = Tested t'"
    have "t' \<le> u" using read [of p t'] p by simp
    moreover have "rs_now s \<le> t' + \<delta>" using inv p unfolding race_inv_def timely_def by metis
    ultimately show False using q(2) \<delta> by linarith
  qed
  have v: "valid_end hor s" using inv q(1) unfolding race_inv_def by (metis ended.simps(1))
  obtain r where r: "claims (rs_pc s r)" "rs_holder s = PStr (own r)"
    using inv q(1) unfolding race_inv_def by (metis claims.simps(3))
  let ?s = "at_pc s q (Returned (rs_holder s = PStr (own q)))"
  have "claims (rs_pc ?s r) \<and> rs_holder ?s = PStr (own r)" using r by simp
  then have "\<exists>p. claims (rs_pc ?s p) \<and> rs_holder ?s = PStr (own p)" ..
  moreover have "valid_end hor ?s" using v by (simp add: valid_end_def)
  ultimately show ?thesis using inv t nt late unfolding race_inv_def by (auto split: if_splits)
qed

lemma race_inv_step:
  assumes inv: "race_inv own t0 \<delta> hor s" and st: "timed_step own dur \<delta> hor s s'"
    and own: "inj own" "\<forall>p. own p \<noteq> []" and dur: "hor \<le> t0 + of_int dur" "0 \<le> dur" and \<delta>: "\<delta> < 1 / 100"
  shows "race_inv own t0 \<delta> hor s'"
proof -
  have l: "lock_step own dur s s'" and t: "timely \<delta> hor s'" using st by (simp_all add: timed_step_def)
  note np = no_test_passes [OF inv own]
  from l show ?thesis
  proof cases
    case (read_free p)
    then have "\<not> ended (rs_pc s q)" for q using np(1) [of q p] by auto
    with read_free t show ?thesis by (auto intro!: race_inv_quiet [OF inv _ _ \<delta>])
  next
    case (end_none p)
    then have "\<not> ended (rs_pc s q)" for q using np(2) [of q] by blast
    with end_none t show ?thesis by (auto intro!: race_inv_quiet [OF inv _ _ \<delta>])
  next
    case (read_end p x)
    have "hor \<le> x" if "ended (rs_pc s q)" for q using np(3) [OF that read_end(4)] .
    with read_end t show ?thesis by (auto intro!: race_inv_quiet [OF inv _ _ \<delta>] split: if_splits)
  next
    case (end_free p x u)
    moreover have "rs_now s \<le> hor" using inv by (simp add: race_inv_def timely_def)
    ultimately show ?thesis using t by (auto intro!: race_inv_quiet [OF inv _ _ \<delta>])
  next
    case (write_end p u)
    with t show ?thesis by (auto intro!: race_inv_write_end [OF inv _ dur])
  next
    case (check p u)
    with t show ?thesis using race_inv_check [OF inv _ _ \<delta> _ own(1), of p u] by simp
  next
    case (tick u)
    with inv t show ?thesis by (fastforce simp: race_inv_def valid_end_def intro: order_trans)
  qed (use t in \<open>auto intro!: race_inv_quiet [OF inv _ _ \<delta>] race_inv_write_owner [OF inv] race_inv_stamp [OF inv]\<close>)
qed

text \<open>Claim C5. If every process that passes its test writes the owner less than 0.01 seconds after the last
  read of the test, then of any number of overlapping lock calls of different owners at most one
  returns True before a lock of the run has ended.\<close>

theorem timely_locks_exclude:
  assumes "inj own" "\<forall>p. own p \<noteq> []" "0 \<le> dur" "\<delta> < 1 / 100" "hor \<le> rs_now s0 + of_int dur"
    and "decimal (rs_now s0)" "rs_now s0 \<le> hor" "\<forall>p. rs_pc s0 p = Idle"
    and "(timed_step own dur \<delta> hor)\<^sup>*\<^sup>* s0 s" "rs_pc s p = Returned True" "rs_pc s q = Returned True"
  shows "p = q"
proof -
  have "race_inv own (rs_now s0) \<delta> hor s"
    using assms(9)
  proof (induction rule: rtranclp_induct)
    case base
    show ?case using assms(6-8) by (simp add: race_inv_def timely_def)
  next
    case (step y z)
    then show ?case by (auto intro: race_inv_step [OF _ _ assms(1,2,5,3,4)])
  qed
  then have "PStr (own p) = PStr (own q)" using assms(10,11) unfolding race_inv_def by metis
  then show ?thesis using assms(1) by (simp add: inj_eq)
qed

definition solo_names :: "nat \<Rightarrow> string" where
  "solo_names p = CHR ''p'' # show_nat p"

lemma solo_names: "inj solo_names" "\<forall>p. solo_names p \<noteq> []"
  by (simp_all add: solo_names_def inj_def)

definition solo_end :: race_state where
  "solo_end = \<lparr>rs_holder = PStr (solo_names 0), rs_end = end_text 0 10, rs_now = 1 / 100,
     rs_pc = (\<lambda>_. Idle)(0 := Returned True)\<rparr>"

lemma solo_run: "(timed_step solo_names 10 (1 / 200) 10)\<^sup>*\<^sup>* race_start solo_end"
proof -
  let ?S = "timed_step solo_names 10 (1 / 200) 10"
  let ?s1 = "at_pc race_start 0 (Tested (rs_now race_start))"
  let ?s2 = "(at_pc ?s1 0 WroteOwner)\<lparr>rs_holder := PStr (solo_names 0)\<rparr>"
  let ?st = "at_pc ?s2 0 (Stamped (rs_now ?s2))"
  let ?s3 = "(at_pc ?st 0 (WroteEnd (rs_now ?st)))\<lparr>rs_end := end_text (rs_now ?s2) 10\<rparr>"
  let ?s4 = "?s3\<lparr>rs_now := 1 / 100\<rparr>"
  have "?S race_start ?s1"
    unfolding timed_step_def by (intro conjI lock_step.read_free) (simp_all add: race_start_def timely_def no_value_def)
  moreover have "?S ?s1 ?s2"
    unfolding timed_step_def by (intro conjI lock_step.write_owner [where t = 0]) (simp_all add: race_start_def timely_def)
  moreover have "?S ?s2 ?st"
    unfolding timed_step_def by (intro conjI lock_step.stamp) (simp_all add: race_start_def timely_def)
  moreover have "?S ?st ?s3"
    unfolding timed_step_def by (intro conjI lock_step.write_end) (simp_all add: race_start_def timely_def)
  moreover have "?S ?s3 ?s4"
    unfolding timed_step_def using decimal_cent [of 1]
    by (intro conjI lock_step.tick) (simp_all add: race_start_def timely_def)
  moreover have "?S ?s4 (at_pc ?s4 0 (Returned (py_eq (rs_holder ?s4) (PStr (solo_names 0)))))"
    unfolding timed_step_def by (intro conjI lock_step.check [where t = 0]) (simp_all add: race_start_def timely_def)
  moreover have "at_pc ?s4 0 (Returned (py_eq (rs_holder ?s4) (PStr (solo_names 0)))) = solo_end"
    by (simp add: race_start_def solo_end_def)
  ultimately show ?thesis by (metis (no_types, lifting) converse_rtranclp_into_rtranclp r_into_rtranclp)
qed

theorem timely_locks_exclude_witness:
  "(timed_step solo_names 10 (1 / 200) 10)\<^sup>*\<^sup>* race_start solo_end \<and>
   {q. rs_pc solo_end q = Returned True} = {0}"
proof -
  have r: "rs_pc solo_end 0 = Returned True" by (simp add: solo_end_def)
  have "0 = q" if "rs_pc solo_end q = Returned True" for q
    by (rule timely_locks_exclude [OF solo_names _ _ _ _ _ _ solo_run r that])
      (simp_all add: race_start_def decimal_nat [of 0, simplified])
  with r solo_run show ?thesis by auto
qed

section \<open>The steps are those of the lock call\<close>

lemma read_or_refuse:
  assumes "rs_pc s p = Idle" "lock_answer (PStr (own p)) (rs_now s) (Inr (rs_holder s)) (Inr (rs_end s)) = Inr b"
  shows "(lock_step own dur)\<^sup>*\<^sup>* s (at_pc s p (if b then Tested (rs_now s) else Returned False))"
proof (cases "no_value (rs_holder s) \<or> py_eq (rs_holder s) (PStr (own p))")
  case True
  then have "b" using assms(2) by (auto simp: lock_answer_def)
  moreover have "lock_step own dur s (at_pc s p (Tested (rs_now s)))"
    using assms(1) True by (rule lock_step.read_free)
  ultimately show ?thesis by auto
next
  case False
  let ?s1 = "at_pc s p SawOwner"
  have 1: "lock_step own dur s ?s1" using assms(1) False by (rule lock_step.read_held)
  have "(lock_step own dur)\<^sup>*\<^sup>* ?s1 (at_pc ?s1 p (if b then Tested (rs_now s) else Returned False))"
  proof (cases "no_value (rs_end s)")
    case True
    then have "b" using assms(2) False by (auto simp: lock_answer_def)
    with lock_step.end_none [of ?s1 p own dur] True show ?thesis by auto
  next
    case e: False
    then obtain x where x: "py_float (rs_end s) = Inr x" "b \<longleftrightarrow> x < rs_now s"
      using assms(2) False by (auto simp: lock_answer_def split: sum.splits)
    let ?s2 = "at_pc ?s1 p (SawEnd x (rs_now ?s1))"
    have "lock_step own dur ?s1 ?s2" using e x(1) by (intro lock_step.read_end) simp_all
    moreover have "lock_step own dur ?s2 (at_pc ?s2 p (if b then Tested (rs_now s) else Returned False))"
      using lock_step.end_free [of ?s2 p x "rs_now s" own dur] lock_step.end_held [of ?s2 p x "rs_now s" own dur] x(2) by simp
    ultimately show ?thesis by (auto intro: converse_rtranclp_into_rtranclp)
  qed
  with 1 show ?thesis by (auto intro: converse_rtranclp_into_rtranclp)
qed

text \<open>A lock call that runs alone is a run of the steps: from the values that the
  domain's keys have before the call to those they have after it, ending with the
  value the call returns.\<close>

lemma lock_refines_steps:
  assumes "cs_inv (kp_inv (CHR ''>'')) cs i" "lock_domain d" "decimal (now + 1 / 100)"
    and "cs_lock kv_class cs i (lock_args (PStr (own p)) d dur) now now = (cs', Inr b)"
    and "cs_val kv_class cs i (lock_owner_key d) = Inr (rs_holder s)"
    and "cs_val kv_class cs i (lock_end_time_key d) = Inr (rs_end s)"
    and "rs_now s = now" "rs_pc s p = Idle"
  shows "\<exists>s'. (lock_step own dur)\<^sup>*\<^sup>* s s' \<and> rs_pc s' p = Returned b \<and>
    cs_val kv_class cs' i (lock_owner_key d) = Inr (rs_holder s') \<and>
    cs_val kv_class cs' i (lock_end_time_key d) = Inr (rs_end s')"
proof -
  let ?a = "lock_answer (PStr (own p)) now (Inr (rs_holder s)) (Inr (rs_end s))"
  have keys: "plain_key (CHR ''>'') (lock_owner_key d)" "plain_key (CHR ''>'') (lock_end_time_key d)"
    using lock_keys_plain [OF assms(2)] .
  show ?thesis
  proof (cases "?a = Inr True")
    case True
    let ?s1 = "at_pc s p (Tested (rs_now s))"
    have "(lock_step own dur)\<^sup>*\<^sup>* s ?s1" using read_or_refuse [OF assms(8), of own True dur] True assms(7) by simp
    moreover have "(lock_step own dur)\<^sup>*\<^sup>* ?s1 (?s1\<lparr>rs_holder := PStr (own p), rs_end := end_text (rs_now ?s1) dur,
        rs_now := rs_now ?s1 + 1 / 100, rs_pc := (rs_pc ?s1)(p := Returned True)\<rparr>)"
      by (rule tested_run) (simp_all add: assms(3,7))
    moreover note lk.lock_free [OF assms(1,2) _ assms(4)] True assms(5-7)
    ultimately show ?thesis
      by (intro exI [of _ "?s1\<lparr>rs_holder := PStr (own p), rs_end := end_text (rs_now ?s1) dur,
        rs_now := rs_now ?s1 + 1 / 100, rs_pc := (rs_pc ?s1)(p := Returned True)\<rparr>"])
        (auto simp: end_text_def)
  next
    case False
    have r: "Inr b = ?a \<and> cs_inv (kp_inv (CHR ''>'')) cs' i \<and>
        (\<forall>k'. plain_key (CHR ''>'') k' \<longrightarrow> cs_val kv_class cs' i k' = cs_val kv_class cs i k')"
      by (rule lk.lock_refused [OF assms(1,2) _ False assms(4)]) (simp add: assms(5,6))
    then have "\<not> b" using False by auto
    with r read_or_refuse [OF assms(8), of own b dur] assms(5-7) keys show ?thesis
      by (intro exI [of _ "at_pc s p (Returned False)"]) auto
  qed
qed

theorem lock_refines_steps_witness:
  "\<exists>s'. (lock_step solo_names 10)\<^sup>*\<^sup>* \<lparr>rs_holder = PNone, rs_end = PNone, rs_now = 0, rs_pc = (\<lambda>_. Idle)\<rparr> s' \<and>
     rs_pc s' 0 = Returned True \<and>
     cs_val kv_class (fst (cs_lock kv_class sample_conf ''ix'' (lock_args (PStr (solo_names 0)) (PStr ''db'') 10) 0 0))
       ''ix'' (lock_owner_key (PStr ''db'')) = Inr (rs_holder s')"
proof -
  let ?s = "\<lparr>rs_holder = PNone, rs_end = PNone, rs_now = 0, rs_pc = (\<lambda>_. Idle)\<rparr>"
  let ?l = "cs_lock kv_class sample_conf ''ix'' (lock_args (PStr (solo_names 0)) (PStr ''db'') 10) 0 0"
  have d: "lock_domain (PStr ''db'')" by code_simp
  have dec: "decimal (0 + 1 / 100)" using decimal_cent [of 1] by simp
  have "snd ?l = Inr True" by code_simp
  then have l: "?l = (fst ?l, Inr True)" by (simp add: prod_eq_iff)
  have v: "cs_val kv_class sample_conf ''ix'' (lock_owner_key (PStr ''db'')) = Inr (rs_holder ?s)"
    "cs_val kv_class sample_conf ''ix'' (lock_end_time_key (PStr ''db'')) = Inr (rs_end ?s)" by code_simp+
  from lock_refines_steps [where own = solo_names and p = 0 and s = ?s, OF sample_conf_inv d dec l v] show ?thesis by auto
qed

end
