(* ===== verification/ConfData.thy ===== *)
theory ConfData
  imports ConfProps
begin

text \<open>
  What ConfStore keeps: saving and loading again, the errors of an index that is not loaded,
  copying, merging and comparing configurations.
\<close>

section \<open>Saving and loading\<close>

text \<open>A backend whose store objects, known by their URL, read back what was dumped.\<close>

locale conf_backend = payload_laws P inv kok vok indep
  for P :: "'p payload_class"
    and inv :: "'p \<Rightarrow> bool"
    and kok :: "string \<Rightarrow> bool"
    and vok :: "pyval \<Rightarrow> bool"
    and indep :: "string \<Rightarrow> string \<Rightarrow> bool" +
  fixes B :: "('b, string, 'p) backend"
    and bok :: "'b \<Rightarrow> string \<Rightarrow> bool"
  assumes instance_known: "bok b url \<Longrightarrow> be_instance B b url delim = (b, Inr url)"
    and dump_load: "bok b url \<Longrightarrow> inv p \<Longrightarrow> be_dump B b url p = (b', None) \<Longrightarrow>
      bok b' url \<and> (\<exists>b'' q. be_load B b' url True = (b'', Inr q) \<and> inv q \<and>
        (\<forall>k. kok k \<longrightarrow> snd (pl_get P q k) = snd (pl_get P p k)))"
begin

lemma save_reload:
  assumes cc: "cs_cache cs i = Some cc" "inv (cc_data cc)" "cc_dirty cc" and u: "cc_store cc = url"
    and b: "bok (cs_back cs) url" and dl: "length (cs_delim cs) \<le> 1"
    and s: "cs_save B cs i = (cs1, None)"
    and l: "cs_load B cs1 j url [(''fail_reload'', PBool False)] = (cs2, e)"
  shows "e = None \<and> cs_inv inv cs2 j \<and> (\<forall>k. kok k \<longrightarrow> cs_val P cs2 j k = cs_val P cs i k)"
proof -
  obtain b1 where d: "be_dump B (cs_back cs) url (cc_data cc) = (b1, None)"
    and cs1: "cs1 = cs\<lparr>cs_back := b1, cs_cache := (cs_cache cs)(i \<mapsto> cc\<lparr>cc_dirty := False\<rparr>)\<rparr>"
    using s cc u by (auto simp: cs_save_def cc_dump_def split: prod.splits option.splits)
  obtain b2 q where q: "bok b1 url" "be_load B b1 url True = (b2, Inr q)" "inv q"
    "\<forall>k. kok k \<longrightarrow> snd (pl_get P q k) = snd (pl_get P (cc_data cc) k)"
    using dump_load [OF b cc(2) d] by blast
  from l q dl show ?thesis
    by (auto simp: cs_load_def cs1 instance_known cc_init_def Let_def cs_inv_def cs_val_def cc(1))
qed

end

text \<open>The JSON objects of the factory are such a backend.\<close>

definition json_bok :: "char \<Rightarrow> kv_world \<Rightarrow> string \<Rightarrow> bool" where
  "json_bok c w url \<longleftrightarrow> \<not> isl (urlparse url) \<and>
     (\<exists>path. fa_stores w url = Some (JsonObj path [c]) \<and> doc_sok json_ok json_load c (file_obj path [c] (fa_world w)))"

interpretation jsb: conf_backend kv_class "doc_inv json_ok c" "plain_key c" json_ok "key_indep c"
    "kv_backend co" "json_bok c" for c co
proof (unfold_locales, goal_cases)
  case (1 b url delim)
  then show ?case
    by (cases "urlparse url") (auto simp: kv_backend_def get_instance_def json_bok_def)
next
  case (2 b url p b')
  obtain path where path: "fa_stores b url = Some (JsonObj path [c])"
    "doc_sok json_ok json_load c (file_obj path [c] (fa_world b))" using 2(1) by (auto simp: json_bok_def)
  let ?s = "file_obj path [c] (fa_world b)"
  obtain s' where s': "json_store_dump ?s p = (s', None)" "b' = b\<lparr>fa_world := fs_files s'\<rparr>"
    "s' = file_obj path [c] (fs_files s')"
    using 2(3) path by (auto simp: kv_backend_def kv_obj_dump_def file_result_def json_store_dump_def write_file_def)
  have dump: "sc_dump (yaml_class (\<lambda>v. (json_dump 0 v, None)) json_load) ?s p = (s', None)"
    using s'(1) by (simp flip: doc_classes(2)) (simp add: json_class_def)
  from js.doc_dump_load [OF path(2) 2(2) this] obtain q where q: "doc_sok json_ok json_load c s'"
    "json_store_load s' True = (s', Inr q)" "\<forall>k. snd (pl_get kv_class q k) = snd (pl_get kv_class p k)"
    by (simp flip: doc_classes(2)) (auto simp: json_class_def)
  have inv: "doc_inv json_ok c q"
    using js.doc_load_inv [OF q(1), of s' q] q(2) by (simp flip: doc_classes(2)) (simp add: json_class_def)
  have "json_bok c b' url" using 2(1) path q(1) s' by (auto simp: json_bok_def)
  moreover have "be_load (kv_backend co) b' url True = (b', Inr q)"
    using q(2) path s'(2,3) by (simp add: kv_backend_def kv_obj_load_def)
  ultimately show ?case using q(3) inv by blast
qed

text \<open>Claim C3. What was set in a configuration on a JSON file and saved is there when the
  same URL is loaded again, under the same or under another index; everything else
  reads as before the save.\<close>

theorem conf_save_load:
  assumes "cs_cache cs i = Some cc" "doc_inv json_ok c (cc_data cc)" "cc_store cc = url"
    and "json_bok c (cs_back cs) url" "length (cs_delim cs) \<le> 1" "plain_key c k" "json_ok v"
    and "cs_set kv_class cs i k v = (cs1, Inr ())" "cs_save (kv_backend co) cs1 i = (cs2, None)"
    and "cs_load (kv_backend co) cs2 j url [(''fail_reload'', PBool False)] = (cs3, e)"
  shows "e = None \<and> cs_val kv_class cs3 j k = Inr v \<and>
    (\<forall>k'. plain_key c k' \<and> key_indep c k k' \<longrightarrow> cs_val kv_class cs3 j k' = cs_val kv_class cs i k')"
proof -
  have i0: "cs_inv (doc_inv json_ok c) cs i" using assms(1,2) by (simp add: cs_inv_def)
  note st = js.cs_set_step [OF i0 assms(6,7,8)]
  obtain p where cs1: "cs1 = cs\<lparr>cs_cache := (cs_cache cs)(i \<mapsto> cc\<lparr>cc_data := p, cc_dirty := True\<rparr>)\<rparr>"
    using assms(8,1) by (auto simp: cs_set_def on_index_def cc_set_def exc_result_def split: prod.splits option.splits)
  have inv: "doc_inv json_ok c p" using st(1) by (simp add: cs_inv_def cs1)
  let ?cc = "cc\<lparr>cc_data := p, cc_dirty := True\<rparr>"
  have "e = None \<and> cs_inv (doc_inv json_ok c) cs3 j \<and>
      (\<forall>k. plain_key c k \<longrightarrow> cs_val kv_class cs3 j k = cs_val kv_class cs1 i k)"
    by (rule jsb.save_reload [where cc = ?cc and url = url and co = co, OF _ _ _ _ _ _ assms(9,10)])
      (use assms(3-5) inv in \<open>simp_all add: cs1\<close>)
  with st(3,4) assms(6) show ?thesis by simp
qed

definition sample_cache :: "(string, kv_payload) conf_cache" where
  "sample_cache = \<lparr>cc_delim = ''>'', cc_dirty = False, cc_store = ''json:///a'', cc_data = sample_payload, cc_recurse = True\<rparr>"

definition no_codecs :: codecs where
  "no_codecs = \<lparr>co_yaml_dump = (\<lambda>v. ([], Some TypeError)), co_yaml_load = (\<lambda>_. None),
     co_toml_dump = (\<lambda>v. ([], Some TypeError)), co_toml_load = (\<lambda>_. None)\<rparr>"

theorem conf_save_load_witness:
  "cs_val kv_class (fst (cs_load (kv_backend no_codecs)
      (fst (cs_save (kv_backend no_codecs) (fst (cs_set kv_class sample_conf ''ix'' ''b>c'' (PInt 3))) ''ix''))
      ''copy'' ''json:///a'' [(''fail_reload'', PBool False)])) ''copy'' ''b>c'' = Inr (PInt 3)"
proof -
  let ?cs1 = "fst (cs_set kv_class sample_conf ''ix'' ''b>c'' (PInt 3))"
  let ?cs2 = "fst (cs_save (kv_backend no_codecs) ?cs1 ''ix'')"
  have c: "cs_cache sample_conf ''ix'' = Some sample_cache" by (simp add: sample_conf_def sample_cache_def)
  have i: "doc_inv json_ok (CHR ''>'') (cc_data sample_cache)"
    using sample_payload_inv by (simp add: doc_inv_def sample_cache_def) (simp add: sample_payload_def)
  have "json_load ''{}'' = Some (PDict [])" "\<not> isl (urlparse ''json:///a'')" by code_simp+
  then have b: "json_bok (CHR ''>'') (cs_back sample_conf) ''json:///a''"
    by (simp add: json_bok_def sample_conf_def doc_sok_def)
  have k: "plain_key (CHR ''>'') ''b>c''" by code_simp
  have "snd (cs_set kv_class sample_conf ''ix'' ''b>c'' (PInt 3)) = Inr ()" by code_simp
  then have s1: "cs_set kv_class sample_conf ''ix'' ''b>c'' (PInt 3) = (?cs1, Inr ())" by (simp add: prod_eq_iff)
  have "snd (cs_save (kv_backend no_codecs) ?cs1 ''ix'') = None" by code_simp
  then have s2: "cs_save (kv_backend no_codecs) ?cs1 ''ix'' = (?cs2, None)" by (simp add: prod_eq_iff)
  have "e = None \<and> cs_val kv_class cs3 ''copy'' ''b>c'' = Inr (PInt 3) \<and> True"
    if "cs_load (kv_backend no_codecs) ?cs2 ''copy'' ''json:///a'' [(''fail_reload'', PBool False)] = (cs3, e)" for cs3 e
    using conf_save_load [OF c i _ b _ k _ s1 s2 that] by (simp add: sample_conf_def sample_cache_def)
  from this [OF surjective_pairing] show ?thesis by simp
qed

section \<open>An index that is not loaded, an index that is\<close>

text \<open>On an index that is not loaded every operation leaves the store as it is; get, set,
  delete, save, copy, compare and the lock calls raise a ConfError, get_keys, search and
  add_num_keys a KeyError. Loading an index twice fails with a ConfError, or does nothing
  with skip_reload.\<close>

lemma conf_index_errors:
  "(cs_cache cs i = None \<longrightarrow>
      cs_get P cs i k v = (cs, Inl (ConfError EINVAL)) \<and> cs_set P cs i k' v = (cs, Inl (ConfError EINVAL)) \<and>
      cs_delete P cs i k' f = (cs, Inl (ConfError EINVAL)) \<and> cs_save B cs i = (cs, Some (ConfError EINVAL)) \<and>
      cs_copy P cs i j ks r = (cs, Inl (ConfError EINVAL)) \<and> cs_copy P cs j i ks r = (cs, Inl (ConfError EINVAL)) \<and>
      cs_compare P cs i j = (cs, Inl (ConfError EINVAL)) \<and> cs_lock P cs i kw t t' = (cs, Inl (ConfError EINVAL)) \<and>
      cs_unlock P cs i kw = (cs, Inl (ConfError EINVAL)) \<and> cs_test_lock P cs i kw t = (cs, Inl (ConfError EINVAL)) \<and>
      cs_get_keys P cs i r = (cs, Inl KeyError) \<and> cs_search P cs i k' k'' v = (cs, Inl KeyError) \<and>
      cs_add_num_keys P cs i = (cs, Inl KeyError)) \<and>
   (cs_cache cs i \<noteq> None \<longrightarrow> cs_load B cs i url [] = (cs, Some (ConfError EINVAL)) \<and>
      cs_load B cs i url [(''skip_reload'', PBool True)] = (cs, None))"
  by (auto simp: cs_get_def cs_set_def cs_delete_def cs_save_def cs_copy_def cs_compare_def cs_lock_def
      cs_unlock_def cs_test_lock_def cs_get_keys_def cs_search_def cs_add_num_keys_def on_index_def cs_load_def Let_def)

theorem conf_index_errors_witness:
  "cs_get_keys kv_class sample_conf ''no'' True = (sample_conf, Inl KeyError) \<and>
   cs_get kv_class sample_conf ''no'' (Some ''a'') PNone = (sample_conf, Inl (ConfError EINVAL)) \<and>
   cs_load (kv_backend no_codecs) sample_conf ''ix'' ''json:///b'' [] = (sample_conf, Some (ConfError EINVAL))"
proof -
  have "cs_cache sample_conf ''no'' = None" "cs_cache sample_conf ''ix'' \<noteq> None" by (simp_all add: sample_conf_def)
  with conf_index_errors [where P = kv_class and cs = sample_conf and i = "''no''" and r = True and k = "Some ''a''" and v = PNone]
    conf_index_errors [where P = kv_class and cs = sample_conf and i = "''ix''" and B = "kv_backend no_codecs" and url = "''json:///b''"]
  show ?thesis by simp
qed

section \<open>Copying\<close>

text \<open>Two different leaves of the data part at some point of their paths.\<close>

lemma leaf_diverge:
  "pywf v \<Longrightarrow> lookup p v = Some x \<Longrightarrow> lookup q v = Some y \<Longrightarrow> is_str_int x \<Longrightarrow> is_str_int y \<Longrightarrow> p \<noteq> q \<Longrightarrow>
   diverge p q"
proof (induction p arbitrary: v q)
  case Nil
  then show ?case by (cases q; cases x) auto
next
  case (Cons s p)
  obtain d w where d: "v = PDict d" "look s d = Some w" "lookup p w = Some x"
    using Cons.prems(2) by (cases v) (auto split: option.splits)
  show ?case
  proof (cases q)
    case Nil
    with Cons.prems(3,5) d show ?thesis by auto
  next
    case q: (Cons t q')
    obtain u where u: "look t d = Some u" "lookup q' u = Some y"
      using Cons.prems(3) d q by (auto split: option.splits)
    consider "fst s \<noteq> fst t" | "s = t" | "fst s = fst t" "snd s \<noteq> None" "snd t \<noteq> None" "s \<noteq> t"
      | "fst s = fst t" "snd s = None \<longleftrightarrow> snd t \<noteq> None" by (metis prod_eq_iff)
    then show ?thesis
    proof cases
      case 2
      have "pywf w" using Cons.prems(1) d wf.Q_look by blast
      with Cons.IH [of w q'] d u 2 Cons.prems q show ?thesis by simp
    next
      case 4
      then show ?thesis using d u Cons.prems q
        by (cases p; cases q') (auto simp: look_def split: option.splits pyval.splits if_splits)
    qed (use q in auto)
  qed
qed

definition conf_data :: "('b, 'h, kv_payload) conf_store \<Rightarrow> string \<Rightarrow> pyval" where
  "conf_data cs i = kp_data (cc_data (the (cs_cache cs i)))"

lemma kv_get_same: "cs_cache cs i = Some cc \<Longrightarrow>
    on_index e cs i (\<lambda>cc. cc_get kv_class cc k) = (cs, kp_get (cc_data cc) k True)"
  by (simp add: on_index_def cc_get_def kv_class_def fun_upd_idem)

lemma kv_keys_same: "cs_cache cs i = Some cc \<Longrightarrow>
    cs_get_keys kv_class cs i b = (cs, case kp_get_keys (cc_data cc) [] True b of Inl e \<Rightarrow> Inl e | Inr ks \<Rightarrow> Inr (map the ks))"
  by (simp add: cs_get_keys_def on_index_def cc_get_keys_def kv_class_def fun_upd_idem)

lemma conf_keys:
  assumes "cs_inv (kp_inv c) cs i" "delim_ok c" "names_ok c (conf_data cs i)"
  shows "cs_get_keys kv_class cs i True = (cs, Inr (map (render c) (leaf_paths (conf_data cs i))))"
proof -
  obtain cc d where cc: "cs_cache cs i = Some cc" "kp_inv c (cc_data cc)" "kp_data (cc_data cc) = PDict d"
    using assms(1) by (auto simp: cs_inv_def kp_inv_def)
  have "names_ok_dict c d" using assms(3) cc by (simp add: conf_data_def)
  with cc kv_keys_eq [OF assms(2), of d] show ?thesis
    by (simp add: kv_keys_same kp_get_keys_def kp_inv_def conf_data_def o_def del: kv_keys.simps)
qed

lemma conf_leaf:
  assumes "cs_inv (kp_inv c) cs i" "delim_ok c" "names_ok c (conf_data cs i)" "p \<in> set (leaf_paths (conf_data cs i))"
  shows "path_ok c p" "path_of c (render c p) = p" "key_ok c (render c p)"
    "\<exists>v. lookup p (conf_data cs i) = Some v \<and> is_str_int v \<and> pywf v"
proof -
  obtain d where d: "conf_data cs i = PDict d" "pywf (PDict d)"
    using assms(1) by (auto simp: cs_inv_def kp_inv_def conf_data_def)
  show p: "path_ok c p" using leaf_path_ok assms(3,4) d by simp
  show "path_of c (render c p) = p" "key_ok c (render c p)" using path_of_render key_ok_render assms(2) p by blast+
  obtain v where "lookup p (conf_data cs i) = Some v" "is_str_int v" using leaf_paths_iff [OF d(2)] assms(4) d(1) by auto
  then show "\<exists>v. lookup p (conf_data cs i) = Some v \<and> is_str_int v \<and> pywf v" by (cases v) auto
qed

text \<open>One turn of the loop of copy.\<close>

lemma copy_key_step:
  assumes src: "cs_inv (kp_inv c) cs src" and dst: "cs_inv (kp_inv c) cs dst" and ne: "src \<noteq> dst"
    and k: "key_ok c k" "lookup (path_of c k) (conf_data cs src) = Some v" "pywf v"
    and cp: "copy_key kv_class cs src dst k = (cs', Inr u)"
  shows "cs_inv (kp_inv c) cs' dst \<and> (\<forall>j. j \<noteq> dst \<longrightarrow> cs_cache cs' j = cs_cache cs j) \<and> cs_back cs' = cs_back cs \<and>
    lookup (path_of c k) (conf_data cs' dst) = Some v \<and>
    conf_data cs' dst = fst (kv_set c k v (conf_data cs dst))"
proof -
  obtain cc where cc: "cs_cache cs src = Some cc" "kp_inv c (cc_data cc)" using src by (auto simp: cs_inv_def)
  obtain cd where cd: "cs_cache cs dst = Some cd" "kp_inv c (cc_data cd)" using dst by (auto simp: cs_inv_def)
  have g: "kp_get (cc_data cc) k True = Inr v"
    using cc k kv_get_found [of c k "kp_data (cc_data cc)" v] by (auto simp: kp_get_def kp_inv_def conf_data_def)
  obtain p where p: "kp_set (cc_data cd) k v = (p, None)"
    "cs' = cs\<lparr>cs_cache := (cs_cache cs)(dst \<mapsto> cd\<lparr>cc_data := p, cc_dirty := True\<rparr>)\<rparr>"
    using cp g unfolding copy_key_def kv_get_same [OF cc(1)]
    by (auto simp: on_index_def cd cc_set_def exc_result_def kv_class_def split: prod.splits option.splits)
  have "kp_data p = fst (kv_set c k v (conf_data cs dst))"
    using kp_set_data [of "cc_data cd" c k v] p(1) cd by (simp add: kp_inv_def conf_data_def)
  moreover have "lookup (path_of c k) (kp_data p) = Some v"
    using p(1) cd k(1) kv_set_lookup [of c k v "kp_data (cc_data cd)"]
    by (auto simp: kp_set_def kp_inv_def split: prod.splits)
  ultimately show ?thesis
    using kp_set_inv [OF cd(2) k(3), of k] p by (simp add: cs_inv_def conf_data_def)
qed

lemma copy_keys_copies:
  assumes "cs_inv (kp_inv c) cs src" "cs_inv (kp_inv c) cs dst" "src \<noteq> dst" "delim_ok c" "names_ok c (conf_data cs src)"
    and "set ps \<subseteq> set (leaf_paths (conf_data cs src))" "distinct ps"
    and "copy_keys kv_class cs src dst (map (render c) ps) = (cs', Inr u)"
  shows "cs_inv (kp_inv c) cs' dst \<and> (\<forall>j. j \<noteq> dst \<longrightarrow> cs_cache cs' j = cs_cache cs j) \<and> cs_back cs' = cs_back cs \<and>
    (\<forall>p \<in> set ps. lookup p (conf_data cs' dst) = lookup p (conf_data cs src)) \<and>
    (\<forall>q w. lookup q (conf_data cs dst) = Some w \<and> (\<forall>p \<in> set ps. diverge p q) \<longrightarrow> lookup q (conf_data cs' dst) = Some w)"
  using assms
proof (induction ps arbitrary: cs)
  case (Cons p ps)
  note leaf = conf_leaf [OF Cons.prems(1,4,5)]
  have p: "p \<in> set (leaf_paths (conf_data cs src))" using Cons.prems(6) by simp
  obtain v where v: "lookup p (conf_data cs src) = Some v" "is_str_int v" "pywf v" using leaf(4) [OF p] by blast
  obtain cs1 u1 where s: "copy_key kv_class cs src dst (render c p) = (cs1, Inr u1)"
    "copy_keys kv_class cs1 src dst (map (render c) ps) = (cs', Inr u)"
    using Cons.prems(8) by (auto split: prod.splits sum.splits)
  have v': "lookup (path_of c (render c p)) (conf_data cs src) = Some v" using v leaf(2) [OF p] by simp
  note st = copy_key_step [OF Cons.prems(1,2,3) leaf(3) [OF p] v' v(3) s(1)]
  have same: "conf_data cs1 src = conf_data cs src" using st Cons.prems(3) by (simp add: conf_data_def)
  have i1: "cs_inv (kp_inv c) cs1 src" using Cons.prems(1,3) st by (simp add: cs_inv_def)
  have rest: "set ps \<subseteq> set (leaf_paths (conf_data cs1 src))" "distinct ps" using Cons.prems(6,7) same by auto
  have i2: "cs_inv (kp_inv c) cs1 dst" using st by simp
  note ih = Cons.IH [OF i1 i2 Cons.prems(3,4) _ rest s(2), unfolded same, OF Cons.prems(5)]
  have wf: "pywf (conf_data cs src)" using Cons.prems(1) by (auto simp: cs_inv_def kp_inv_def conf_data_def)
  have "\<forall>q \<in> set ps. diverge q p"
  proof
    fix q assume q: "q \<in> set ps"
    then have "q \<in> set (leaf_paths (conf_data cs src))" "q \<noteq> p" using Cons.prems(6,7) by auto
    then show "diverge q p" using leaf(4) leaf_diverge [OF wf _ v(1) _ v(2)] by blast
  qed
  moreover have "lookup p (conf_data cs1 dst) = Some v" using st unfolding leaf(2) [OF p] by blast
  ultimately have "lookup p (conf_data cs' dst) = Some v" using ih by blast
  moreover have "lookup q (conf_data cs' dst) = Some w"
    if "lookup q (conf_data cs dst) = Some w" "\<forall>p' \<in> set (p # ps). diverge p' q" for q w
  proof -
    have "lookup q (conf_data cs1 dst) = Some w"
      using kv_set_frame [of c "render c p" q "conf_data cs dst" w v] st leaf(2) [OF p] that by simp
    with ih that(2) show ?thesis by simp
  qed
  ultimately show ?case using ih st v(1) by (simp add: Ball_def)
qed simp

text \<open>Claim C28. copy of one loaded configuration into another that raised nothing: every key
  that get_keys lists for the source reads in the destination as it does in the
  source, values of the destination at paths that part from all of those stay, the
  source and every other configuration are untouched, and nothing is written to a
  store.\<close>

theorem conf_copy:
  assumes "cs_inv (kp_inv c) cs src" "cs_inv (kp_inv c) cs dst" "src \<noteq> dst" "delim_ok c" "names_ok c (conf_data cs src)"
    and "cs_copy kv_class cs src dst None True = (cs', Inr u)"
  shows "(\<exists>ks. cs_get_keys kv_class cs src True = (cs, Inr ks) \<and>
       (\<forall>k \<in> set ks. cs_val kv_class cs' dst k = cs_val kv_class cs src k) \<and>
       (\<forall>q w. lookup q (conf_data cs dst) = Some w \<and> (\<forall>k \<in> set ks. diverge (path_of c k) q) \<longrightarrow>
          lookup q (conf_data cs' dst) = Some w)) \<and>
     (\<forall>j. j \<noteq> dst \<longrightarrow> cs_cache cs' j = cs_cache cs j) \<and> cs_back cs' = cs_back cs"
proof -
  let ?ps = "leaf_paths (conf_data cs src)"
  note keys = conf_keys [OF assms(1,4,5)]
  note leaf = conf_leaf [OF assms(1,4,5)]
  have wf: "pywf (conf_data cs src)" using assms(1) by (auto simp: cs_inv_def kp_inv_def conf_data_def)
  have "cs_cache cs src \<noteq> None" "cs_cache cs dst \<noteq> None" using assms(1,2) by (auto simp: cs_inv_def)
  then have "copy_keys kv_class cs src dst (map (render c) ?ps) = (cs', Inr u)"
    using assms(6) unfolding cs_copy_def keys by auto
  note cp = copy_keys_copies [OF assms(1-5) subset_refl distinct_leaf(1) [OF wf] this]
  have val: "cs_val kv_class cs1 j (render c p) = Inr w"
    if "cs_inv (kp_inv c) cs1 j" "lookup p (conf_data cs1 j) = Some w" "p \<in> set ?ps" for cs1 j p w
    using that leaf(2,3) [OF that(3)] kv_get_found [of c "render c p" "conf_data cs1 j" w]
    by (auto simp: cs_val_def kv_class_def kp_get_def cs_inv_def kp_inv_def conf_data_def)
  have "\<forall>p \<in> set ?ps. cs_val kv_class cs' dst (render c p) = cs_val kv_class cs src (render c p)"
  proof
    fix p assume p: "p \<in> set ?ps"
    from leaf(4) [OF p] obtain v where "lookup p (conf_data cs src) = Some v" by blast
    moreover from this have "lookup p (conf_data cs' dst) = Some v" using cp p by simp
    ultimately show "cs_val kv_class cs' dst (render c p) = cs_val kv_class cs src (render c p)"
      using val [OF assms(1) _ p, of v] val [OF _ _ p, of cs' dst v] cp by simp
  qed
  then show ?thesis using cp leaf(2) keys by simp
qed

definition two_confs :: "(kv_world, string, kv_payload) conf_store" where
  "two_confs = sample_conf\<lparr>cs_cache := (cs_cache sample_conf)(''dst'' \<mapsto> \<lparr>cc_delim = ''>'', cc_dirty = False,
     cc_store = ''json:///b'', cc_data = \<lparr>kp_data = PDict [(''a'', PDict []), (''z'', PInt 1)], kp_delim = ''>'', kp_keys = []\<rparr>,
     cc_recurse = True\<rparr>)\<rparr>"

lemma two_confs_ok:
  "cs_inv (kp_inv (CHR ''>'')) two_confs ''ix''" "cs_inv (kp_inv (CHR ''>'')) two_confs ''dst''"
  "names_ok (CHR ''>'') (conf_data two_confs ''ix'')" "names_ok (CHR ''>'') (conf_data two_confs ''dst'')" "delim_ok (CHR ''>'')"
proof -
  show "cs_inv (kp_inv (CHR ''>'')) two_confs ''ix''"
    using sample_payload_inv by (simp add: cs_inv_def two_confs_def sample_conf_def)
  show "cs_inv (kp_inv (CHR ''>'')) two_confs ''dst''" by (simp add: cs_inv_def two_confs_def kp_inv_def)
qed code_simp+

theorem conf_copy_witness:
  "\<exists>ks. cs_get_keys kv_class two_confs ''ix'' True = (two_confs, Inr ks) \<and>
     (\<forall>k \<in> set ks. cs_val kv_class (fst (cs_copy kv_class two_confs ''ix'' ''dst'' None True)) ''dst'' k =
        cs_val kv_class two_confs ''ix'' k)"
proof -
  have "snd (cs_copy kv_class two_confs ''ix'' ''dst'' None True) = Inr ()" by code_simp
  then have "cs_copy kv_class two_confs ''ix'' ''dst'' None True =
      (fst (cs_copy kv_class two_confs ''ix'' ''dst'' None True), Inr ())" by (simp add: prod_eq_iff)
  from conf_copy [OF two_confs_ok(1,2) _ two_confs_ok(5,3) this] show ?thesis by auto
qed

end
