(* ===== verification/ConfMerge.thy ===== *)
theory ConfMerge
  imports ConfData
begin

text \<open>
  Merging and comparing configurations: merge, \<open>_merge\<close> and compare of ConfStore.
\<close>

section \<open>Names of the data\<close>

lemma names_ok_list_iff: "names_ok_list c xs \<longleftrightarrow> (\<forall>x \<in> set xs. names_ok c x)"
  by (induction xs) auto

lemma names_ok_dict_iff: "names_ok_dict c d \<longleftrightarrow> (\<forall>(k, v) \<in> set d. name_ok c k \<and> names_ok c v)"
  by (induction d) auto

lemma names_ok_dict_update:
  "names_ok_dict c d \<Longrightarrow> names_ok c v \<Longrightarrow> name_ok c k \<or> map_of d k \<noteq> None \<Longrightarrow> names_ok_dict c (AList.update k v d)"
  by (induction d) (auto split: if_splits)

interpretation nm: named_data "names_ok c" "name_ok c" for c
proof unfold_locales
  fix d k w v xs
  show "names_ok c (PStr [])" "names_ok c (PDict [])" by simp_all
  show "names_ok c (PList xs) \<longleftrightarrow> (\<forall>x \<in> set xs. names_ok c x)" by (simp add: names_ok_list_iff)
  assume d: "names_ok c (PDict d)"
  { assume "map_of d k = Some w" then show "names_ok c w"
      using d by (auto simp: names_ok_dict_iff dest: map_of_SomeD) }
  { assume "names_ok c v" "name_ok c k \<or> map_of d k \<noteq> None"
    then show "names_ok c (PDict (AList.update k v d))" using d names_ok_dict_update by simp }
  show "names_ok c (PDict (AList.delete k d))"
    using d by (auto simp: names_ok_dict_iff AList.delete_eq)
qed

section \<open>Merging\<close>

text \<open>Paths without an index, as those of data that has no lists. Such paths that
  part, part by a name.\<close>

definition plain_paths :: "seg list list \<Rightarrow> bool" where
  "plain_paths ps \<longleftrightarrow> (\<forall>p \<in> set ps. \<forall>s \<in> set p. snd s = None)"

lemma plain_diverge: "\<forall>s \<in> set p. snd s = None \<Longrightarrow> diverge p q \<Longrightarrow> name_diverge p q"
  by (induction p q rule: name_diverge.induct) auto

lemma merge_key_step:
  assumes src: "cs_inv (kp_inv c) cs src" and dst: "cs_inv (kp_inv c) cs dst" and ne: "src \<noteq> dst" and dl: "delim_ok c"
    and nm: "names_ok c (conf_data cs src)" "names_ok c (conf_data cs dst)"
    and p: "p \<in> set (leaf_paths (conf_data cs src))" "\<forall>s \<in> set p. snd s = None"
    and mg: "merge_key kv_class cs dst src (render c p) = (cs', Inr u)"
  shows "cs_inv (kp_inv c) cs' dst \<and> (\<forall>j. j \<noteq> dst \<longrightarrow> cs_cache cs' j = cs_cache cs j) \<and> cs_back cs' = cs_back cs \<and>
    names_ok c (conf_data cs' dst) \<and>
    lookup p (conf_data cs' dst) = lookup p (conf_data cs (if p \<in> set (leaf_paths (conf_data cs dst)) then dst else src)) \<and>
    (\<forall>q. diverge p q \<longrightarrow> lookup q (conf_data cs' dst) = lookup q (conf_data cs dst))"
proof -
  note leaf = conf_leaf [OF src dl nm(1)]
  note leaf_d = conf_leaf [OF dst dl nm(2)]
  have mem: "render c p \<in> render c ` set (leaf_paths (conf_data cs dst)) \<longleftrightarrow> p \<in> set (leaf_paths (conf_data cs dst))"
    using leaf(2) [OF p(1)] leaf_d(2) by (auto simp: image_iff)
  show ?thesis
  proof (cases "p \<in> set (leaf_paths (conf_data cs dst))")
    case True
    then have "cs' = cs" using mg mem unfolding merge_key_def conf_keys [OF dst dl nm(2)] by simp
    with True dst nm show ?thesis by simp
  next
    case False
    obtain v where v: "lookup p (conf_data cs src) = Some v" "is_str_int v" "pywf v" using leaf(4) [OF p(1)] by blast
    have v': "lookup (path_of c (render c p)) (conf_data cs src) = Some v" using v leaf(2) [OF p(1)] by simp
    have "copy_key kv_class cs src dst (render c p) = (cs', Inr u)"
      using mg mem False unfolding merge_key_def conf_keys [OF dst dl nm(2)] by simp
    note st = copy_key_step [OF src dst ne leaf(3) [OF p(1)] v' v(3) this, unfolded leaf(2) [OF p(1)]]
    have "names_ok c v" using v(2) by (cases v) auto
    then have "names_ok c (conf_data cs' dst)"
      using st nm.D_kv_set [OF nm(2), of v c "render c p"] leaf(1,2) [OF p(1)] by (simp add: path_ok_def)
    moreover have "lookup q (conf_data cs' dst) = lookup q (conf_data cs dst)" if "diverge p q" for q
      using kv_set_frame_eq [of c "render c p" q v "conf_data cs dst"] plain_diverge [OF p(2) that] st leaf(2) [OF p(1)]
      by simp
    moreover have "lookup p (conf_data cs' dst) = lookup p (conf_data cs src)" using st v(1) by (metis (no_types))
    ultimately show ?thesis using st False by (simp only: if_False) blast
  qed
qed

lemma conf_leaf_iff:
  assumes "cs_inv (kp_inv c) cs i"
  shows "q \<in> set (leaf_paths (conf_data cs i)) \<longleftrightarrow> (\<exists>w. lookup q (conf_data cs i) = Some w \<and> is_str_int w)"
  by (rule leaf_paths_iff) (use assms in \<open>auto simp: cs_inv_def kp_inv_def conf_data_def\<close>)

definition apart :: "seg list set \<Rightarrow> seg list set \<Rightarrow> bool" where
  "apart A B \<longleftrightarrow> (\<forall>p \<in> A. \<forall>q \<in> B. p = q \<or> diverge p q)"

lemma leaf_apart:
  assumes i: "cs_inv (kp_inv c) cs i"
    and "p \<in> set (leaf_paths (conf_data cs i))" "q \<in> set (leaf_paths (conf_data cs i))"
  shows "p = q \<or> diverge p q"
proof -
  have wf: "pywf (conf_data cs i)" using i by (auto simp: cs_inv_def kp_inv_def conf_data_def)
  with assms show ?thesis using leaf_diverge [OF wf] by (metis conf_leaf_iff [OF i])
qed

lemma merge_key_leaves:
  assumes "cs_inv (kp_inv c) cs src" "cs_inv (kp_inv c) cs dst" "src \<noteq> dst" "delim_ok c"
    and "names_ok c (conf_data cs src)" "names_ok c (conf_data cs dst)"
    and p: "p \<in> set (leaf_paths (conf_data cs src))" "\<forall>s \<in> set p. snd s = None"
    and ap: "apart {p} (set (leaf_paths (conf_data cs dst)))"
    and mg: "merge_key kv_class cs dst src (render c p) = (cs', Inr u)"
  shows "set (leaf_paths (conf_data cs' dst)) = insert p (set (leaf_paths (conf_data cs dst))) \<and>
    (\<forall>q \<in> set (leaf_paths (conf_data cs dst)). lookup q (conf_data cs' dst) = lookup q (conf_data cs dst))"
proof -
  note st = merge_key_step [OF assms(1-8) mg]
  have i': "cs_inv (kp_inv c) cs' dst" using st by blast
  have pv: "lookup p (conf_data cs' dst) =
      lookup p (conf_data cs (if p \<in> set (leaf_paths (conf_data cs dst)) then dst else src))"
    and fr: "\<And>q. diverge p q \<Longrightarrow> lookup q (conf_data cs' dst) = lookup q (conf_data cs dst)" using st by blast+
  have p': "p \<in> set (leaf_paths (conf_data cs' dst))"
    unfolding conf_leaf_iff [OF i'] pv using p(1) conf_leaf_iff [OF assms(1), of p] conf_leaf_iff [OF assms(2), of p] by simp
  have keep: "lookup q (conf_data cs' dst) = lookup q (conf_data cs dst)" if "q \<in> set (leaf_paths (conf_data cs dst))" for q
    using ap that fr pv by (auto simp: apart_def)
  have "q \<in> insert p (set (leaf_paths (conf_data cs dst)))" if "q \<in> set (leaf_paths (conf_data cs' dst))" for q
    using leaf_apart [OF i' p' that] fr [of q] that conf_leaf_iff [OF i', of q] conf_leaf_iff [OF assms(2), of q] by auto
  moreover have "q \<in> set (leaf_paths (conf_data cs' dst))" if "q \<in> set (leaf_paths (conf_data cs dst))" for q
    using keep [OF that] that conf_leaf_iff [OF i', of q] conf_leaf_iff [OF assms(2), of q] by simp
  ultimately show ?thesis using keep p' by blast
qed

lemma merge_keys_merges:
  assumes "cs_inv (kp_inv c) cs src" "cs_inv (kp_inv c) cs dst" "src \<noteq> dst" "delim_ok c"
    and "names_ok c (conf_data cs src)" "names_ok c (conf_data cs dst)"
    and "set ps \<subseteq> set (leaf_paths (conf_data cs src))" "plain_paths ps" "apart (set ps) (set (leaf_paths (conf_data cs dst)))"
    and "merge_keys kv_class cs dst src (map (render c) ps) = (cs', Inr u)"
  shows "cs_inv (kp_inv c) cs' dst \<and> names_ok c (conf_data cs' dst) \<and> (\<forall>j. j \<noteq> dst \<longrightarrow> cs_cache cs' j = cs_cache cs j) \<and>
    cs_back cs' = cs_back cs \<and>
    set (leaf_paths (conf_data cs' dst)) = set ps \<union> set (leaf_paths (conf_data cs dst)) \<and>
    (\<forall>q \<in> set (leaf_paths (conf_data cs dst)). lookup q (conf_data cs' dst) = lookup q (conf_data cs dst)) \<and>
    (\<forall>q \<in> set ps - set (leaf_paths (conf_data cs dst)). lookup q (conf_data cs' dst) = lookup q (conf_data cs src))"
  using assms
proof (induction ps arbitrary: cs)
  case (Cons p ps)
  let ?L = "\<lambda>cs. set (leaf_paths (conf_data cs dst))"
  have p: "p \<in> set (leaf_paths (conf_data cs src))" "\<forall>s \<in> set p. snd s = None" "apart {p} (?L cs)"
    using Cons.prems(7-9) by (auto simp: plain_paths_def apart_def)
  obtain cs1 u1 where s: "merge_key kv_class cs dst src (render c p) = (cs1, Inr u1)"
    "merge_keys kv_class cs1 dst src (map (render c) ps) = (cs', Inr u)"
    using Cons.prems(10) by (auto split: prod.splits sum.splits)
  note st = merge_key_step [OF Cons.prems(1-6) p(1,2) s(1)]
  note lv = merge_key_leaves [OF Cons.prems(1-6) p s(1)]
  have same: "conf_data cs1 src = conf_data cs src" using st Cons.prems(3) by (simp add: conf_data_def)
  have i1: "cs_inv (kp_inv c) cs1 src" "cs_inv (kp_inv c) cs1 dst" "names_ok c (conf_data cs1 dst)"
    using Cons.prems(1,3) st by (simp_all add: cs_inv_def)
  have "apart (set ps) {p}"
    using Cons.prems(7) leaf_apart [OF Cons.prems(1) _ p(1)] by (auto simp: apart_def)
  then have ap: "apart (set ps) (?L cs1)" using Cons.prems(9) lv by (auto simp: apart_def)
  have pl: "plain_paths ps" "set ps \<subseteq> set (leaf_paths (conf_data cs src))" using Cons.prems(7,8) by (auto simp: plain_paths_def)
  note ih = Cons.IH [OF i1(1,2) Cons.prems(3,4) _ i1(3) _ pl(1) ap s(2), unfolded same, OF Cons.prems(5) pl(2)]
  have "lookup p (conf_data cs' dst) = lookup p (conf_data cs src)" if "p \<notin> ?L cs"
    using ih lv st that by simp
  moreover have "lookup q (conf_data cs' dst) = lookup q (conf_data cs src)" if "q \<in> set ps" "q \<notin> ?L cs" "q \<noteq> p" for q
    using ih lv that by simp
  ultimately have "\<forall>q \<in> set (p # ps) - ?L cs. lookup q (conf_data cs' dst) = lookup q (conf_data cs src)" by auto
  moreover have "\<forall>q \<in> ?L cs. lookup q (conf_data cs' dst) = lookup q (conf_data cs dst)" using ih lv by simp
  moreover have "?L cs' = set (p # ps) \<union> ?L cs" using ih lv by simp
  ultimately show ?case using ih st by simp
qed simp

lemma conf_val:
  assumes "cs_inv (kp_inv c) cs i" "path_of c k = p" "key_ok c k" "lookup p (conf_data cs i) = Some w"
  shows "cs_val kv_class cs i k = Inr w"
  using assms kv_get_found [of c k "conf_data cs i" w]
  by (auto simp: cs_val_def kv_class_def kp_get_def cs_inv_def kp_inv_def conf_data_def)

lemma conf_val_leaf:
  assumes "cs_inv (kp_inv c) cs i" "cs_inv (kp_inv c) cs' j" "delim_ok c" "names_ok c (conf_data cs i)"
    and "p \<in> set (leaf_paths (conf_data cs i))" "lookup p (conf_data cs' j) = lookup p (conf_data cs i)"
  shows "cs_val kv_class cs' j (render c p) = cs_val kv_class cs i (render c p)"
proof -
  note leaf = conf_leaf [OF assms(1,3,4,5)]
  obtain v where v: "lookup p (conf_data cs i) = Some v" using leaf(4) by blast
  with assms(6) have "lookup p (conf_data cs' j) = Some v" by simp
  with v show ?thesis using conf_val [OF _ leaf(2,3)] assms(1,2) by metis
qed

text \<open>Claim C9. merge of a source that has no lists, none of whose keys lies under or above a key
  of the destination: every key of the destination keeps its value, every other key
  of the source comes with the value it has there, and there are no further keys. The
  source and the stores are untouched.\<close>

theorem conf_merge:
  assumes "cs_inv (kp_inv c) cs src" "cs_inv (kp_inv c) cs dst" "src \<noteq> dst" "delim_ok c"
    and "names_ok c (conf_data cs src)" "names_ok c (conf_data cs dst)"
    and "plain_paths (leaf_paths (conf_data cs src))"
    and "apart (set (leaf_paths (conf_data cs src))) (set (leaf_paths (conf_data cs dst)))"
    and "cs_merge kv_class cs dst src None = (cs', Inr u)"
  shows "(\<exists>ks kd km. cs_get_keys kv_class cs src True = (cs, Inr ks) \<and> cs_get_keys kv_class cs dst True = (cs, Inr kd) \<and>
       cs_get_keys kv_class cs' dst True = (cs', Inr km) \<and> set km = set ks \<union> set kd \<and>
       (\<forall>k \<in> set kd. cs_val kv_class cs' dst k = cs_val kv_class cs dst k) \<and>
       (\<forall>k \<in> set ks - set kd. cs_val kv_class cs' dst k = cs_val kv_class cs src k)) \<and>
     (\<forall>j. j \<noteq> dst \<longrightarrow> cs_cache cs' j = cs_cache cs j) \<and> cs_back cs' = cs_back cs"
proof -
  let ?S = "leaf_paths (conf_data cs src)" and ?D = "leaf_paths (conf_data cs dst)"
  note kS = conf_keys [OF assms(1,4,5)] and kD = conf_keys [OF assms(2,4,6)]
  have "cs_cache cs src \<noteq> None" "cs_cache cs dst \<noteq> None" using assms(1,2) by (auto simp: cs_inv_def)
  then have "merge_keys kv_class cs dst src (map (render c) ?S) = (cs', Inr u)"
    using assms(9) unfolding cs_merge_def kS by auto
  note mg = merge_keys_merges [OF assms(1-6) subset_refl assms(7,8) this]
  have i': "cs_inv (kp_inv c) cs' dst" "names_ok c (conf_data cs' dst)" using mg by blast+
  note kM = conf_keys [OF i'(1) assms(4) i'(2)]
  let ?M = "leaf_paths (conf_data cs' dst)"
  have "set (map (render c) ?M) = set (map (render c) ?S) \<union> set (map (render c) ?D)" using mg by auto
  moreover have "\<forall>k \<in> set (map (render c) ?D). cs_val kv_class cs' dst k = cs_val kv_class cs dst k"
    using mg conf_val_leaf [OF assms(2) i'(1) assms(4,6)] by auto
  moreover have "\<forall>k \<in> set (map (render c) ?S) - set (map (render c) ?D). cs_val kv_class cs' dst k = cs_val kv_class cs src k"
    using mg by (auto intro!: conf_val_leaf [OF assms(1) i'(1) assms(4,5)])
  ultimately show ?thesis using kS kD kM mg by blast
qed

definition merge_confs :: "(kv_world, string, kv_payload) conf_store" where
  "merge_confs = two_confs\<lparr>cs_cache := (cs_cache two_confs)(''src'' \<mapsto> \<lparr>cc_delim = ''>'', cc_dirty = False,
     cc_store = ''json:///c'', cc_data = \<lparr>kp_data = PDict [(''b'', PDict [(''c'', PInt 1)]), (''q'', PStr ''v''), (''y'', PInt 2)],
       kp_delim = ''>'', kp_keys = []\<rparr>, cc_recurse = True\<rparr>)\<rparr>"

theorem conf_merge_witness:
  "\<exists>ks kd km. cs_get_keys kv_class merge_confs ''src'' True = (merge_confs, Inr ks) \<and>
     cs_get_keys kv_class merge_confs ''dst'' True = (merge_confs, Inr kd) \<and>
     cs_get_keys kv_class (fst (cs_merge kv_class merge_confs ''dst'' ''src'' None)) ''dst'' True =
       (fst (cs_merge kv_class merge_confs ''dst'' ''src'' None), Inr km) \<and> set km = set ks \<union> set kd"
proof -
  have "cs_inv (kp_inv (CHR ''>'')) merge_confs ''src''" "cs_inv (kp_inv (CHR ''>'')) merge_confs ''dst''"
    by (simp_all add: cs_inv_def merge_confs_def two_confs_def kp_inv_def)
  moreover have "names_ok (CHR ''>'') (conf_data merge_confs ''src'')" "names_ok (CHR ''>'') (conf_data merge_confs ''dst'')"
    "plain_paths (leaf_paths (conf_data merge_confs ''src''))"
    "apart (set (leaf_paths (conf_data merge_confs ''src''))) (set (leaf_paths (conf_data merge_confs ''dst'')))"
    by code_simp+
  moreover have "snd (cs_merge kv_class merge_confs ''dst'' ''src'' None) = Inr ()" by code_simp
  then have "cs_merge kv_class merge_confs ''dst'' ''src'' None = (fst (cs_merge kv_class merge_confs ''dst'' ''src'' None), Inr ())"
    by (simp add: prod_eq_iff)
  ultimately show ?thesis using conf_merge [OF _ _ _ two_confs_ok(5), of merge_confs "''src''" "''dst''"] by fast
qed

section \<open>Comparing\<close>

lemma updated_keys_eq:
  assumes "cs_inv (kp_inv c) cs i1" "cs_inv (kp_inv c) cs i2"
    and "\<forall>k \<in> set ks - D. \<exists>v w. cs_val kv_class cs i1 k = Inr v \<and> cs_val kv_class cs i2 k = Inr w"
  shows "updated_keys kv_class cs i1 i2 D ks = (cs, Inr (filter (\<lambda>k. k \<notin> D \<and>
      \<not> py_eq (projr (cs_val kv_class cs i1 k)) (projr (cs_val kv_class cs i2 k))) ks))"
proof -
  obtain a b where ab: "cs_cache cs i1 = Some a" "cs_cache cs i2 = Some b" using assms(1,2) by (auto simp: cs_inv_def)
  have g: "kp_get (cc_data a) k True = cs_val kv_class cs i1 k" "kp_get (cc_data b) k True = cs_val kv_class cs i2 k" for k
    using ab by (simp_all add: cs_val_def kv_class_def)
  from assms(3) show ?thesis
  proof (induction ks)
    case (Cons k ks)
    then have ih: "updated_keys kv_class cs i1 i2 D ks = (cs, Inr (filter (\<lambda>k. k \<notin> D \<and>
      \<not> py_eq (projr (cs_val kv_class cs i1 k)) (projr (cs_val kv_class cs i2 k))) ks))" by simp
    show ?case
    proof (cases "k \<in> D")
      case False
      then obtain v w where "cs_val kv_class cs i1 k = Inr v" "cs_val kv_class cs i2 k = Inr w"
        using Cons.prems [rule_format, of k] by auto
      then show ?thesis using False ih by (simp add: kv_get_same [OF ab(1)] kv_get_same [OF ab(2)] g)
    qed (simp add: ih)
  qed simp
qed

text \<open>Claim C29. compare changes nothing; it returns the keys that only the second
  configuration has, those that only the first has, and, in the order of the first,
  the keys of both whose values differ.\<close>

theorem conf_compare:
  assumes "cs_inv (kp_inv c) cs i1" "cs_inv (kp_inv c) cs i2" "delim_ok c"
    and "names_ok c (conf_data cs i1)" "names_ok c (conf_data cs i2)"
  shows "\<exists>k1 k2. cs_get_keys kv_class cs i1 True = (cs, Inr k1) \<and> cs_get_keys kv_class cs i2 True = (cs, Inr k2) \<and>
    cs_compare kv_class cs i1 i2 = (cs, Inr (set k2 - set k1, set k1 - set k2,
      filter (\<lambda>k. k \<in> set k2 \<and> \<not> py_eq (projr (cs_val kv_class cs i1 k)) (projr (cs_val kv_class cs i2 k))) k1))"
proof -
  let ?k1 = "map (render c) (leaf_paths (conf_data cs i1))" and ?k2 = "map (render c) (leaf_paths (conf_data cs i2))"
  note keys = conf_keys [OF assms(1,3,4)] conf_keys [OF assms(2,3,5)]
  have val: "\<exists>v. cs_val kv_class cs i k = Inr v"
    if "cs_inv (kp_inv c) cs i" "names_ok c (conf_data cs i)" "k \<in> set (map (render c) (leaf_paths (conf_data cs i)))" for i k
    using that conf_leaf [OF that(1) assms(3) that(2)] conf_val [OF that(1)] by fastforce
  have "\<forall>k \<in> set ?k1 - (set ?k1 - set ?k2). \<exists>v w. cs_val kv_class cs i1 k = Inr v \<and> cs_val kv_class cs i2 k = Inr w"
    using val [OF assms(1,4)] val [OF assms(2,5)] by blast
  note upd = updated_keys_eq [OF assms(1,2) this]
  have "filter (\<lambda>k. k \<notin> set ?k1 - set ?k2 \<and> \<not> py_eq (projr (cs_val kv_class cs i1 k)) (projr (cs_val kv_class cs i2 k))) ?k1 =
      filter (\<lambda>k. k \<in> set ?k2 \<and> \<not> py_eq (projr (cs_val kv_class cs i1 k)) (projr (cs_val kv_class cs i2 k))) ?k1"
    by (rule filter_cong) auto
  moreover have "cs_cache cs i1 \<noteq> None" "cs_cache cs i2 \<noteq> None" using assms(1,2) by (auto simp: cs_inv_def)
  ultimately have "cs_compare kv_class cs i1 i2 = (cs, Inr (set ?k2 - set ?k1, set ?k1 - set ?k2,
      filter (\<lambda>k. k \<in> set ?k2 \<and> \<not> py_eq (projr (cs_val kv_class cs i1 k)) (projr (cs_val kv_class cs i2 k))) ?k1))"
    unfolding cs_compare_def by (simp only: keys upd prod.case sum.case if_False de_Morgan_disj simp_thms)
  then show ?thesis using keys by blast
qed

theorem conf_compare_witness:
  "\<exists>k1 k2. cs_get_keys kv_class two_confs ''ix'' True = (two_confs, Inr k1) \<and>
    cs_get_keys kv_class two_confs ''dst'' True = (two_confs, Inr k2) \<and>
    cs_compare kv_class two_confs ''ix'' ''dst'' = (two_confs, Inr (set k2 - set k1, set k1 - set k2,
      filter (\<lambda>k. k \<in> set k2 \<and> \<not> py_eq (projr (cs_val kv_class two_confs ''ix'' k)) (projr (cs_val kv_class two_confs ''dst'' k))) k1))"
  using conf_compare [OF two_confs_ok(1,2,5,3,4)] .

end
