(* ===== verification/ConfApi.thy ===== *)
theory ConfApi
  imports ConfMerge
begin
text \<open>
  The classes Conf and MappedConf of src/py-utils/src/utils/conf_store/conf_store.py: the one
  ConfStore of a process, made by the first load, and the configuration with the fixed
  index cortx_conf.

  The class attributes of Conf are the fields of \<open>conf_class\<close>. Until the ConfStore is made,
  the state of the stores and files is the field \<open>cf_back\<close>; from then on it is that of the
  ConfStore.
\<close>

section \<open>Conf\<close>

record ('b, 'h, 'p) conf_class =
  cf_conf :: "('b, 'h, 'p) conf_store option"
  cf_delim :: string
  cf_machine_id :: pyval
  cf_back :: 'b
  cf_id_file :: "string option"

text \<open>\<open>_get_machine_id\<close>, on the text of /etc/machine-id if there is such a file.\<close>

definition get_machine_id :: "string option \<Rightarrow> pyval" where
  "get_machine_id file = (case file of
      None \<Rightarrow> PNone
    | Some s \<Rightarrow> if length s > 0 then PStr s else PNone)"

text \<open>\<open>setattr(Conf, f"_{key}", val)\<close> for each keyword argument; of the attributes only
  \<open>_delim\<close> and \<open>_machine_id\<close> are read.\<close>

fun Conf_attrs :: "('b, 'h, 'p) conf_class \<Rightarrow> (string \<times> string) list \<Rightarrow> ('b, 'h, 'p) conf_class" where
  "Conf_attrs cf [] = cf"
| "Conf_attrs cf ((key, val) # kws) = Conf_attrs
     (if key = ''delim'' then cf\<lparr>cf_delim := val\<rparr>
      else if key = ''machine_id'' then cf\<lparr>cf_machine_id := PStr val\<rparr>
      else cf) kws"

definition Conf_init :: "('b, 'h, 'p) conf_class \<Rightarrow> (string \<times> string) list \<Rightarrow> ('b, 'h, 'p) conf_class \<times> (pyexc + unit)" where
  "Conf_init cf kwargs = (case cf_conf cf of
      Some _ \<Rightarrow> (cf, Inr ())
    | None \<Rightarrow> (let cf1 = Conf_attrs cf kwargs in
        case cs_init (cf_back cf1) (cf_delim cf1) (get_machine_id (cf_id_file cf1)) of
          Inl e \<Rightarrow> (cf1, Inl e)
        | Inr cs \<Rightarrow> (cf1\<lparr>cf_conf := Some cs, cf_machine_id := cs_machine_id cs\<rparr>, Inr ())))"

text \<open>A call on \<open>Conf._conf\<close>, which is None before the first init.\<close>

definition on_conf :: "('b, 'h, 'p) conf_class \<Rightarrow>
    (('b, 'h, 'p) conf_store \<Rightarrow> ('b, 'h, 'p) conf_store \<times> (pyexc + 'a)) \<Rightarrow> ('b, 'h, 'p) conf_class \<times> (pyexc + 'a)" where
  "on_conf cf f = (case cf_conf cf of
      None \<Rightarrow> (cf, Inl AttributeError)
    | Some cs \<Rightarrow> (case f cs of (cs', r) \<Rightarrow> (cf\<lparr>cf_conf := Some cs'\<rparr>, r)))"

definition Conf_load :: "('b, 'h, 'p) backend \<Rightarrow> ('b, 'h, 'p) conf_class \<Rightarrow> string \<Rightarrow> string \<Rightarrow> pyval \<Rightarrow>
    (string \<times> pyval) list \<Rightarrow> ('b, 'h, 'p) conf_class \<times> (pyexc + unit)" where
  "Conf_load B cf index url recurse kwargs =
     (case (if cf_conf cf = None then Conf_init cf [] else (cf, Inr ())) of
        (cf1, Inl e) \<Rightarrow> (cf1, Inl e)
      | (cf1, Inr _) \<Rightarrow> on_conf cf1 (\<lambda>cs. exc_result (cs_load B cs index url ((''recurse'', recurse) # kwargs))))"

definition Conf_save :: "('b, 'h, 'p) backend \<Rightarrow> ('b, 'h, 'p) conf_class \<Rightarrow> string \<Rightarrow> ('b, 'h, 'p) conf_class \<times> (pyexc + unit)" where
  "Conf_save B cf index = on_conf cf (\<lambda>cs. exc_result (cs_save B cs index))"

definition Conf_set :: "'p payload_class \<Rightarrow> ('b, 'h, 'p) conf_class \<Rightarrow> string \<Rightarrow> string \<Rightarrow> pyval \<Rightarrow>
    ('b, 'h, 'p) conf_class \<times> (pyexc + unit)" where
  "Conf_set P cf index key val = on_conf cf (\<lambda>cs. cs_set P cs index key val)"

definition Conf_get :: "'p payload_class \<Rightarrow> ('b, 'h, 'p) conf_class \<Rightarrow> string \<Rightarrow> string option \<Rightarrow> pyval \<Rightarrow>
    ('b, 'h, 'p) conf_class \<times> (pyexc + pyval)" where
  "Conf_get P cf index key default_val = on_conf cf (\<lambda>cs. cs_get P cs index key default_val)"

definition Conf_delete :: "'p payload_class \<Rightarrow> ('b, 'h, 'p) conf_class \<Rightarrow> string \<Rightarrow> string \<Rightarrow> bool \<Rightarrow>
    ('b, 'h, 'p) conf_class \<times> (pyexc + bool)" where
  "Conf_delete P cf index key force = on_conf cf (\<lambda>cs. cs_delete P cs index key force)"

definition Conf_copy :: "'p payload_class \<Rightarrow> ('b, 'h, 'p) conf_class \<Rightarrow> string \<Rightarrow> string \<Rightarrow> string list option \<Rightarrow> bool \<Rightarrow>
    ('b, 'h, 'p) conf_class \<times> (pyexc + unit)" where
  "Conf_copy P cf src_index dst_index key_list recurse =
     on_conf cf (\<lambda>cs. cs_copy P cs src_index dst_index key_list recurse)"

definition Conf_merge :: "'p payload_class \<Rightarrow> ('b, 'h, 'p) conf_class \<Rightarrow> string \<Rightarrow> string \<Rightarrow> string list option \<Rightarrow>
    ('b, 'h, 'p) conf_class \<times> (pyexc + unit)" where
  "Conf_merge P cf dest_index src_index keys = on_conf cf (\<lambda>cs. cs_merge P cs dest_index src_index keys)"

definition Conf_compare :: "'p payload_class \<Rightarrow> ('b, 'h, 'p) conf_class \<Rightarrow> string \<Rightarrow> string \<Rightarrow>
    ('b, 'h, 'p) conf_class \<times> (pyexc + string set \<times> string set \<times> string list)" where
  "Conf_compare P cf index1 index2 = on_conf cf (\<lambda>cs. cs_compare P cs index1 index2)"

definition Conf_machine_id :: "('b, 'h, 'p) conf_class \<Rightarrow> ('b, 'h, 'p) conf_class \<times> (pyexc + pyval)" where
  "Conf_machine_id cf = (case (if cf_conf cf = None then Conf_init cf [] else (cf, Inr ())) of
      (cf1, Inl e) \<Rightarrow> (cf1, Inl e)
    | (cf1, Inr _) \<Rightarrow> (cf1, Inr (case cf_machine_id cf1 of
          PStr s \<Rightarrow> if s = [] then PNone else PStr (py_strip s)
        | _ \<Rightarrow> PNone)))"

definition Conf_get_keys :: "'p payload_class \<Rightarrow> ('b, 'h, 'p) conf_class \<Rightarrow> string \<Rightarrow> bool \<Rightarrow>
    ('b, 'h, 'p) conf_class \<times> (pyexc + string list)" where
  "Conf_get_keys P cf index key_index = on_conf cf (\<lambda>cs. cs_get_keys P cs index key_index)"

definition Conf_search :: "'p payload_class \<Rightarrow> ('b, 'h, 'p) conf_class \<Rightarrow> string \<Rightarrow> string \<Rightarrow> string \<Rightarrow> pyval \<Rightarrow>
    ('b, 'h, 'p) conf_class \<times> (pyexc + string list)" where
  "Conf_search P cf index parent_key search_key search_val =
     on_conf cf (\<lambda>cs. cs_search P cs index parent_key search_key search_val)"

definition Conf_add_num_keys :: "'p payload_class \<Rightarrow> ('b, 'h, 'p) conf_class \<Rightarrow> string \<Rightarrow>
    ('b, 'h, 'p) conf_class \<times> (pyexc + unit)" where
  "Conf_add_num_keys P cf index = on_conf cf (\<lambda>cs. cs_add_num_keys P cs index)"

definition Conf_lock :: "'p payload_class \<Rightarrow> ('b, 'h, 'p) conf_class \<Rightarrow> string \<Rightarrow> (string \<times> pyval) list \<Rightarrow> rat \<Rightarrow> rat \<Rightarrow>
    ('b, 'h, 'p) conf_class \<times> (pyexc + bool)" where
  "Conf_lock P cf index kwargs now now' = on_conf cf (\<lambda>cs. cs_lock P cs index kwargs now now')"

definition Conf_unlock :: "'p payload_class \<Rightarrow> ('b, 'h, 'p) conf_class \<Rightarrow> string \<Rightarrow> (string \<times> pyval) list \<Rightarrow>
    ('b, 'h, 'p) conf_class \<times> (pyexc + bool)" where
  "Conf_unlock P cf index kwargs = on_conf cf (\<lambda>cs. cs_unlock P cs index kwargs)"

definition Conf_test_lock :: "'p payload_class \<Rightarrow> ('b, 'h, 'p) conf_class \<Rightarrow> string \<Rightarrow> (string \<times> pyval) list \<Rightarrow> rat \<Rightarrow>
    ('b, 'h, 'p) conf_class \<times> (pyexc + bool)" where
  "Conf_test_lock P cf index kwargs now = on_conf cf (\<lambda>cs. cs_test_lock P cs index kwargs now)"

section \<open>MappedConf\<close>

abbreviation conf_idx :: string where "conf_idx \<equiv> ''cortx_conf''"

definition MappedConf_init :: "('b, 'h, 'p) backend \<Rightarrow> ('b, 'h, 'p) conf_class \<Rightarrow> string \<Rightarrow>
    ('b, 'h, 'p) conf_class \<times> (pyexc + unit)" where
  "MappedConf_init B cf conf_url = Conf_load B cf conf_idx conf_url (PBool True) [(''skip_reload'', PBool True)]"

text \<open>\<open>except (AssertionError, ConfError)\<close>: such an exception becomes a ConfError with EINVAL,
  any other passes.\<close>

definition conf_wrap :: "'s \<times> (pyexc + 'a) \<Rightarrow> 's \<times> (pyexc + 'a)" where
  "conf_wrap x = (case x of
      (s, Inl (ConfError _)) \<Rightarrow> (s, Inl (ConfError EINVAL))
    | (s, Inl e) \<Rightarrow> (s, Inl (if e = PyException ''AssertionError'' then ConfError EINVAL else e))
    | (s, Inr a) \<Rightarrow> (s, Inr a))"

fun set_each :: "'p payload_class \<Rightarrow> ('b, 'h, 'p) conf_class \<Rightarrow> (string \<times> pyval) list \<Rightarrow>
    ('b, 'h, 'p) conf_class \<times> (pyexc + unit)" where
  "set_each P cf [] = (cf, Inr ())"
| "set_each P cf ((key, val) # kvs) = (case conf_wrap (Conf_set P cf conf_idx key val) of
      (cf1, Inl e) \<Rightarrow> (cf1, Inl e)
    | (cf1, Inr _) \<Rightarrow> set_each P cf1 kvs)"

definition MappedConf_set_kvs :: "'p payload_class \<Rightarrow> ('b, 'h, 'p) backend \<Rightarrow> ('b, 'h, 'p) conf_class \<Rightarrow>
    (string \<times> pyval) list \<Rightarrow> ('b, 'h, 'p) conf_class \<times> (pyexc + unit)" where
  "MappedConf_set_kvs P B cf kvs = (case set_each P cf kvs of
      (cf1, Inl e) \<Rightarrow> (cf1, Inl e)
    | (cf1, Inr _) \<Rightarrow> Conf_save B cf1 conf_idx)"

definition MappedConf_set :: "'p payload_class \<Rightarrow> ('b, 'h, 'p) backend \<Rightarrow> ('b, 'h, 'p) conf_class \<Rightarrow> string \<Rightarrow> pyval \<Rightarrow>
    ('b, 'h, 'p) conf_class \<times> (pyexc + unit)" where
  "MappedConf_set P B cf key val = conf_wrap (case Conf_set P cf conf_idx key val of
      (cf1, Inl e) \<Rightarrow> (cf1, Inl e)
    | (cf1, Inr _) \<Rightarrow> Conf_save B cf1 conf_idx)"

definition MappedConf_copy :: "'p payload_class \<Rightarrow> ('b, 'h, 'p) conf_class \<Rightarrow> string \<Rightarrow> string list option \<Rightarrow>
    ('b, 'h, 'p) conf_class \<times> (pyexc + unit)" where
  "MappedConf_copy P cf src_index key_list = conf_wrap (Conf_copy P cf src_index conf_idx key_list True)"

definition MappedConf_search :: "'p payload_class \<Rightarrow> ('b, 'h, 'p) conf_class \<Rightarrow> string \<Rightarrow> string \<Rightarrow> pyval \<Rightarrow>
    ('b, 'h, 'p) conf_class \<times> (pyexc + string list)" where
  "MappedConf_search P cf parent_key search_key val = Conf_search P cf conf_idx parent_key search_key val"

definition MappedConf_add_num_keys :: "'p payload_class \<Rightarrow> ('b, 'h, 'p) conf_class \<Rightarrow>
    ('b, 'h, 'p) conf_class \<times> (pyexc + unit)" where
  "MappedConf_add_num_keys P cf = Conf_add_num_keys P cf conf_idx"

definition MappedConf_get :: "'p payload_class \<Rightarrow> ('b, 'h, 'p) conf_class \<Rightarrow> string \<Rightarrow> pyval \<Rightarrow>
    ('b, 'h, 'p) conf_class \<times> (pyexc + pyval)" where
  "MappedConf_get P cf key default_val = Conf_get P cf conf_idx (Some key) default_val"

definition MappedConf_delete :: "'p payload_class \<Rightarrow> ('b, 'h, 'p) conf_class \<Rightarrow> string \<Rightarrow> bool \<Rightarrow>
    ('b, 'h, 'p) conf_class \<times> (pyexc + bool)" where
  "MappedConf_delete P cf key force = Conf_delete P cf conf_idx key force"

section \<open>What is set is there for the next process\<close>

text \<open>The keys are written one after the other: none of them lies on or under one before it.\<close>

definition keys_apart :: "char \<Rightarrow> (string \<times> pyval) list \<Rightarrow> bool" where
  "keys_apart c kvs \<longleftrightarrow> (\<forall>(k, v) \<in> set kvs. plain_key c k \<and> json_ok v) \<and> sorted_wrt (\<lambda>a b. key_indep c (fst b) (fst a)) kvs"

definition conf_ready :: "char \<Rightarrow> string \<Rightarrow> string \<Rightarrow> (kv_world, string, kv_payload) conf_class \<Rightarrow> bool" where
  "conf_ready c url i cf \<longleftrightarrow> (\<exists>cs cc. cf_conf cf = Some cs \<and> cs_cache cs i = Some cc \<and> cc_store cc = url \<and>
     doc_inv json_ok c (cc_data cc) \<and> json_bok c (cs_back cs) url)"

abbreviation conf_val :: "('b, 'h, kv_payload) conf_class \<Rightarrow> string \<Rightarrow> string \<Rightarrow> pyexc + pyval" where
  "conf_val cf i k \<equiv> cs_val kv_class (the (cf_conf cf)) i k"

lemma conf_wrap_Inr: "conf_wrap x = (s, Inr a) \<longleftrightarrow> x = (s, Inr a)"
  by (auto simp: conf_wrap_def split: prod.splits sum.splits pyexc.splits if_splits)

lemma Conf_set_step:
  assumes "conf_ready c url i cf" "plain_key c k" "json_ok v" "Conf_set kv_class cf i k v = (cf', Inr u)"
  shows "conf_ready c url i cf' \<and> conf_val cf' i k = Inr v \<and>
    (\<forall>k'. plain_key c k' \<and> key_indep c k k' \<longrightarrow> conf_val cf' i k' = conf_val cf i k') \<and>
    cc_dirty (the (cs_cache (the (cf_conf cf')) i)) \<and> cs_back (the (cf_conf cf')) = cs_back (the (cf_conf cf))"
proof -
  obtain cs cc where ok: "cf_conf cf = Some cs" "cs_cache cs i = Some cc" "cc_store cc = url"
    "doc_inv json_ok c (cc_data cc)" "json_bok c (cs_back cs) url" using assms(1) by (auto simp: conf_ready_def)
  obtain cs' where cs': "cs_set kv_class cs i k v = (cs', Inr u)" "cf' = cf\<lparr>cf_conf := Some cs'\<rparr>"
    using assms(4) ok by (auto simp: Conf_set_def on_conf_def split: prod.splits)
  have inv: "cs_inv (doc_inv json_ok c) cs i" using ok by (simp add: cs_inv_def)
  note st = js.cs_set_step [OF inv assms(2,3) cs'(1)]
  have "\<exists>p. cs' = cs\<lparr>cs_cache := (cs_cache cs)(i \<mapsto> cc\<lparr>cc_data := p, cc_dirty := True\<rparr>)\<rparr>"
    using cs'(1) ok by (auto simp: cs_set_def on_index_def cc_set_def exc_result_def split: prod.splits option.splits)
  with st ok cs'(2) show ?thesis by (auto simp: conf_ready_def cs_inv_def)
qed

text \<open>The writes of a loop of sets, of set_kvs or of the command line.\<close>

fun Conf_sets :: "'p payload_class \<Rightarrow> ('b, 'h, 'p) conf_class \<Rightarrow> string \<Rightarrow> (string \<times> pyval) list \<Rightarrow>
    ('b, 'h, 'p) conf_class \<times> (pyexc + unit)" where
  "Conf_sets P cf i [] = (cf, Inr ())"
| "Conf_sets P cf i ((key, val) # kvs) = (case Conf_set P cf i key val of
      (cf1, Inl e) \<Rightarrow> (cf1, Inl e)
    | (cf1, Inr _) \<Rightarrow> Conf_sets P cf1 i kvs)"

lemma set_each_Conf_sets: "set_each P cf kvs = (cf', Inr u) \<longleftrightarrow> Conf_sets P cf conf_idx kvs = (cf', Inr u)"
proof (induction kvs arbitrary: cf)
  case (Cons kv kvs)
  obtain k v where kv: "kv = (k, v)" by fastforce
  have "(\<exists>e. snd (conf_wrap x) = Inl e) \<longleftrightarrow> (\<exists>e. snd x = Inl e)" for x :: "('a, 'b, 'c) conf_class \<times> (pyexc + unit)"
    by (auto simp: conf_wrap_def split: prod.splits sum.splits pyexc.splits)
  moreover obtain cf1 r where x: "Conf_set P cf conf_idx k v = (cf1, r)" by fastforce
  ultimately show ?case
    using Cons by (cases r) (auto simp: kv x conf_wrap_Inr split: prod.splits sum.splits, auto simp: conf_wrap_def)
qed simp

lemma Conf_sets_step:
  assumes "conf_ready c url i cf" "keys_apart c kvs" "Conf_sets kv_class cf i kvs = (cf', Inr u)"
  shows "conf_ready c url i cf' \<and> (\<forall>(k, v) \<in> set kvs. conf_val cf' i k = Inr v) \<and>
    (\<forall>k'. plain_key c k' \<and> (\<forall>(k, v) \<in> set kvs. key_indep c k k') \<longrightarrow> conf_val cf' i k' = conf_val cf i k') \<and>
    (kvs \<noteq> [] \<longrightarrow> cc_dirty (the (cs_cache (the (cf_conf cf')) i))) \<and>
    cs_back (the (cf_conf cf')) = cs_back (the (cf_conf cf))"
  using assms
proof (induction kvs arbitrary: cf)
  case (Cons kv kvs)
  obtain k v where kv: "kv = (k, v)" by fastforce
  have k: "plain_key c k" "json_ok v" "keys_apart c kvs" "\<forall>(k', v') \<in> set kvs. key_indep c k' k"
    using Cons.prems(2) kv by (auto simp: keys_apart_def)
  obtain cf1 u1 where s: "Conf_set kv_class cf i k v = (cf1, Inr u1)" "Conf_sets kv_class cf1 i kvs = (cf', Inr u)"
    using Cons.prems(3) kv by (auto split: prod.splits sum.splits)
  note st = Conf_set_step [OF Cons.prems(1) k(1,2) s(1)]
  note ih = Cons.IH [OF _ k(3) s(2)]
  have "conf_val cf' i k = Inr v" using ih st k(1,4) by auto
  moreover have "cc_dirty (the (cs_cache (the (cf_conf cf')) i))" using ih st s(2) by (cases kvs) auto
  moreover have "conf_val cf' i k' = conf_val cf i k'"
    if "plain_key c k'" "\<forall>(k, v) \<in> set (kv # kvs). key_indep c k k'" for k'
    using ih st that kv by auto
  ultimately show ?case using ih st kv by auto
qed simp

text \<open>A class Conf as a process has it before its first load, over the files \<open>fs\<close>.\<close>

definition fresh_conf :: "char \<Rightarrow> file_system \<Rightarrow> (kv_world, string, kv_payload) conf_class \<Rightarrow> bool" where
  "fresh_conf c fs cf \<longleftrightarrow> cf_conf cf = None \<and> cf_delim cf = [c] \<and> c \<in> set '':>.|;/'' \<and>
     cf_back cf = \<lparr>fa_stores = Map.empty, fa_world = fs\<rparr>"

abbreviation conf_files :: "(kv_world, string, kv_payload) conf_class \<Rightarrow> file_system" where
  "conf_files cf \<equiv> fa_world (cs_back (the (cf_conf cf)))"

lemma save_fresh_load:
  assumes "conf_ready c url i cf" "cc_dirty (the (cs_cache (the (cf_conf cf)) i))"
    and url: "urlparse url = Inr (''json'', loc, path)"
    and obj: "fa_stores (cs_back (the (cf_conf cf))) url = Some (JsonObj path [c])"
    and save: "Conf_save (kv_backend co) cf i = (cf1, Inr u)"
    and fresh: "fresh_conf c (conf_files cf1) cf2" and kw: "kw = [] \<or> kw = [(''skip_reload'', PBool True)]"
  shows "\<exists>cf3. Conf_load (kv_backend co) cf2 j url (PBool True) kw = (cf3, Inr ()) \<and>
    (\<exists>cs. cf_conf cf3 = Some cs \<and> cs_inv (doc_inv json_ok c) cs j) \<and>
    (\<forall>k. plain_key c k \<longrightarrow> conf_val cf3 j k = conf_val cf i k)"
proof -
  obtain cs cc where ok: "cf_conf cf = Some cs" "cs_cache cs i = Some cc" "cc_store cc = url"
    "doc_inv json_ok c (cc_data cc)" "json_bok c (cs_back cs) url" using assms(1) by (auto simp: conf_ready_def)
  have d: "cc_dirty cc" using assms(2) ok by simp
  obtain b where b: "be_dump (kv_backend co) (cs_back cs) url (cc_data cc) = (b, None)" "cs_back (the (cf_conf cf1)) = b"
    using save ok d by (auto simp: Conf_save_def on_conf_def exc_result_def cs_save_def cc_dump_def
        split: prod.splits option.splits)
  obtain b2 q where q: "be_load (kv_backend co) b url True = (b2, Inr q)" "doc_inv json_ok c q"
    "\<And>k. plain_key c k \<Longrightarrow> snd (pl_get kv_class q k) = snd (pl_get kv_class (cc_data cc) k)"
    using jsb.dump_load [OF ok(5,4) b(1)] by blast
  have fb: "fa_stores b url = Some (JsonObj path [c])" "fa_world b path \<noteq> None"
    using b(1) obj ok(1) by (auto simp: kv_backend_def kv_obj_dump_def file_result_def json_store_dump_def write_file_def)
  let ?w = "\<lparr>fa_stores = [url \<mapsto> JsonObj path [c]], fa_world = fa_world b\<rparr>"
  have inst: "be_instance (kv_backend co) (cf_back cf2) url [c] = (?w, Inr url)"
    using url fresh b(2) fb
    by (auto simp: fresh_conf_def kv_backend_def get_instance_def kv_table_def json_store_init_def Let_def)
  have load: "be_load (kv_backend co) ?w url True = (?w, Inr q)"
    using q(1) fb(1) by (auto simp: kv_backend_def kv_obj_load_def)
  let ?cc = "\<lparr>cc_delim = [c], cc_dirty = False, cc_store = url, cc_data = q, cc_recurse = True\<rparr>"
  define cs3 where "cs3 = \<lparr>cs_delim = [c], cs_cache = [j \<mapsto> ?cc], cs_callbacks = Map.empty,
     cs_machine_id = get_machine_id (cf_id_file cf2), cs_back = ?w\<rparr>"
  define cf3 where "cf3 = cf2\<lparr>cf_conf := Some cs3, cf_machine_id := cs_machine_id cs3\<rparr>"
  have "cs_init (cf_back cf2) (cf_delim cf2) (get_machine_id (cf_id_file cf2)) = Inr (cs3\<lparr>cs_cache := Map.empty, cs_back := cf_back cf2\<rparr>)"
    using fresh by (auto simp: cs_init_def cs3_def fresh_conf_def)
  then have "Conf_load (kv_backend co) cf2 j url (PBool True) kw = (cf3, Inr ())"
    using fresh inst load kw
    by (auto simp: Conf_load_def Conf_init_def on_conf_def cs_load_def cc_init_def exc_result_def
        cf3_def cs3_def Let_def fresh_conf_def)
  moreover have "cs_val kv_class cs3 j k = cs_val kv_class cs i k" if "plain_key c k" for k
    using q(3) [OF that] ok by (simp add: cs_val_def cs3_def)
  moreover have "cs_inv (doc_inv json_ok c) cs3 j" using q(2) by (simp add: cs_inv_def cs3_def)
  ultimately show ?thesis using ok(1) by (auto simp: cf3_def)
qed

lemma Conf_get_val:
  assumes "cf_conf cf = Some cs" "cs_inv (doc_inv json_ok c) cs i" "conf_val cf i k = Inr v"
  shows "\<exists>cs'. Conf_get kv_class cf i (Some k) d = (cf\<lparr>cf_conf := Some cs'\<rparr>, Inr (if v = PNone then d else v)) \<and>
    cs_inv (doc_inv json_ok c) cs' i \<and> (\<forall>k'. plain_key c k' \<longrightarrow> cs_val kv_class cs' i k' = cs_val kv_class cs i k')"
proof -
  obtain cs' r where g: "cs_get kv_class cs i (Some k) d = (cs', r)" by fastforce
  from js.cs_get_step [OF assms(2) g] assms(1,3) show ?thesis
    by (intro exI [of _ cs']) (simp add: Conf_get_def on_conf_def g)
qed

text \<open>Claim C24. The pairs that set_kvs of one process has written are what get of a process
  that starts afterwards returns, from the same JSON URL; a value None reads as the
  default.\<close>

theorem mapped_conf_persists:
  assumes "conf_ready c url conf_idx cf" "urlparse url = Inr (''json'', loc, path)" "keys_apart c kvs" "kvs \<noteq> []"
    and "fa_stores (cs_back (the (cf_conf cf))) url = Some (JsonObj path [c])"
    and "MappedConf_set_kvs kv_class (kv_backend co) cf kvs = (cf1, Inr u)"
    and "fresh_conf c (conf_files cf1) cf2"
  shows "\<exists>cf3. MappedConf_init (kv_backend co) cf2 url = (cf3, Inr ()) \<and>
    (\<forall>(k, v) \<in> set kvs. snd (MappedConf_get kv_class cf3 k d) = Inr (if v = PNone then d else v))"
proof -
  obtain cfa where sa: "Conf_sets kv_class cf conf_idx kvs = (cfa, Inr ())" "Conf_save (kv_backend co) cfa conf_idx = (cf1, Inr u)"
    using assms(6) by (auto simp: MappedConf_set_kvs_def set_each_Conf_sets split: prod.splits sum.splits)
  note st = Conf_sets_step [OF assms(1,3) sa(1)]
  obtain cf3 cs3 where l: "MappedConf_init (kv_backend co) cf2 url = (cf3, Inr ())" "cf_conf cf3 = Some cs3"
    "cs_inv (doc_inv json_ok c) cs3 conf_idx" "\<And>k. plain_key c k \<Longrightarrow> conf_val cf3 conf_idx k = conf_val cfa conf_idx k"
    using save_fresh_load [OF _ _ assms(2) _ sa(2) assms(7) disjI2 [OF refl], of conf_idx] st assms(4,5)
    by (auto simp: MappedConf_init_def)
  have "snd (MappedConf_get kv_class cf3 k d) = Inr (if v = PNone then d else v)" if kv: "(k, v) \<in> set kvs" for k v
  proof -
    have "plain_key c k" using assms(3) kv by (auto simp: keys_apart_def)
    with l(4) [of k] st kv have "conf_val cf3 conf_idx k = Inr v" by auto
    from Conf_get_val [OF l(2,3) this, of d] show ?thesis by (auto simp: MappedConf_get_def)
  qed
  with l(1) show ?thesis by blast
qed

definition mapped_sample :: "(kv_world, string, kv_payload) conf_class" where
  "mapped_sample = \<lparr>cf_conf = Some (sample_conf\<lparr>cs_cache := [conf_idx \<mapsto> sample_cache]\<rparr>), cf_delim = ''>'',
     cf_machine_id = PNone, cf_back = cs_back sample_conf, cf_id_file = None\<rparr>"

abbreviation mapped_set_sample :: "(kv_world, string, kv_payload) conf_class \<times> (pyexc + unit)" where
  "mapped_set_sample \<equiv> MappedConf_set_kvs kv_class (kv_backend no_codecs) mapped_sample [(''b>c'', PInt 3), (''z'', PStr ''v'')]"

abbreviation next_process :: "(kv_world, string, kv_payload) conf_class" where
  "next_process \<equiv> \<lparr>cf_conf = None, cf_delim = ''>'', cf_machine_id = PNone,
     cf_back = \<lparr>fa_stores = Map.empty, fa_world = fa_world (cs_back (the (cf_conf (fst mapped_set_sample))))\<rparr>,
     cf_id_file = Some ''id''\<rparr>"

theorem mapped_conf_persists_witness:
  "\<exists>cf3. MappedConf_init (kv_backend no_codecs) next_process ''json:///a'' = (cf3, Inr ()) \<and>
    (\<forall>(k, v) \<in> set [(''b>c'', PInt 3), (''z'', PStr ''v'')].
       snd (MappedConf_get kv_class cf3 k (PInt 0)) = Inr (if v = PNone then PInt 0 else v))"
proof (rule mapped_conf_persists)
  have "json_load ''{}'' = Some (PDict [])" "\<not> isl (urlparse ''json:///a'')" by code_simp+
  then have b: "json_bok (CHR ''>'') (cs_back sample_conf) ''json:///a''"
    by (simp add: json_bok_def sample_conf_def doc_sok_def)
  have "doc_inv json_ok (CHR ''>'') (cc_data sample_cache)"
    using sample_payload_inv by (simp add: doc_inv_def sample_cache_def) (simp add: sample_payload_def)
  with b show "conf_ready (CHR ''>'') ''json:///a'' conf_idx mapped_sample"
    by (simp add: conf_ready_def mapped_sample_def sample_cache_def)
  show "urlparse ''json:///a'' = Inr (''json'', [], ''/a'')" by code_simp
  show "keys_apart (CHR ''>'') [(''b>c'', PInt 3), (''z'', PStr ''v'')]" by code_simp
  show "fa_stores (cs_back (the (cf_conf mapped_sample))) ''json:///a'' = Some (JsonObj ''/a'' [CHR ''>''])"
    by (simp add: mapped_sample_def sample_conf_def)
  have "snd mapped_set_sample = Inr ()" by code_simp
  then show "mapped_set_sample = (fst mapped_set_sample, Inr ())" by (simp add: prod_eq_iff)
qed (simp_all add: fresh_conf_def)

end
