(* ===== verification/Effects.thy ===== *)
theory Effects
  imports Prelude
begin

text \<open>
  Calls that change a state and may raise: a call returns the state it leaves with an
  exception (\<open>Inl\<close>) or a value (\<open>Inr\<close>), and \<open>st_bind\<close> goes on with the next statement unless
  an exception was raised. Also loops that run such a call for each element of a list.
\<close>

definition st_bind :: "'s \<times> (pyexc + 'a) \<Rightarrow> ('s \<Rightarrow> 'a \<Rightarrow> 's \<times> (pyexc + 'b)) \<Rightarrow> 's \<times> (pyexc + 'b)" where
  "st_bind x f = (case x of (s, Inl e) \<Rightarrow> (s, Inl e) | (s, Inr a) \<Rightarrow> f s a)"

lemma st_bind_simps [simp]:
  "st_bind (s, Inl e) f = (s, Inl e)"
  "st_bind (s, Inr a) f = f s a"
  by (simp_all add: st_bind_def)

lemma st_bind_Inr: "st_bind x f = (s, Inr b) \<longleftrightarrow> (\<exists>s1 a. x = (s1, Inr a) \<and> f s1 a = (s, Inr b))"
  by (auto simp: st_bind_def split: prod.splits sum.splits)

lemma st_bind_Inl: "st_bind x f = (s, Inl e) \<longleftrightarrow> x = (s, Inl e) \<or> (\<exists>s1 a. x = (s1, Inr a) \<and> f s1 a = (s, Inl e))"
  by (auto simp: st_bind_def split: prod.splits sum.splits)

text \<open>\<open>for x in xs: body\<close>, and the list of the values of \<open>[body for x in xs]\<close>.\<close>

fun for_each :: "('s \<Rightarrow> 'x \<Rightarrow> 's \<times> (pyexc + unit)) \<Rightarrow> 's \<Rightarrow> 'x list \<Rightarrow> 's \<times> (pyexc + unit)" where
  "for_each f s [] = (s, Inr ())"
| "for_each f s (x # xs) = st_bind (f s x) (\<lambda>s1 _. for_each f s1 xs)"

fun map_each :: "('s \<Rightarrow> 'x \<Rightarrow> 's \<times> (pyexc + 'a)) \<Rightarrow> 's \<Rightarrow> 'x list \<Rightarrow> 's \<times> (pyexc + 'a list)" where
  "map_each f s [] = (s, Inr [])"
| "map_each f s (x # xs) = st_bind (f s x) (\<lambda>s1 a. st_bind (map_each f s1 xs) (\<lambda>s2 as. (s2, Inr (a # as))))"

text \<open>A loop whose body keeps an invariant keeps it, whether it raises or not.\<close>

lemma for_each_inv:
  assumes "\<And>s x s' r. x \<in> set xs \<Longrightarrow> I s \<Longrightarrow> f s x = (s', r) \<Longrightarrow> I s'" "I s" "for_each f s xs = (s', r)"
  shows "I s'"
  using assms
proof (induction xs arbitrary: s)
  case (Cons x xs)
  obtain s1 r1 where f: "f s x = (s1, r1)" by fastforce
  have i1: "I s1" using Cons.prems(1) [of x s s1 r1] Cons.prems(2) f by simp
  show ?case
  proof (cases r1)
    case (Inl e)
    with Cons.prems(3) f i1 show ?thesis by simp
  next
    case (Inr u)
    show ?thesis by (rule Cons.IH [of s1]) (use Cons.prems f i1 Inr in auto)
  qed
qed simp

lemma map_each_inv:
  assumes "\<And>s x s' r. x \<in> set xs \<Longrightarrow> I s \<Longrightarrow> f s x = (s', r) \<Longrightarrow> I s'" "I s" "map_each f s xs = (s', r)"
  shows "I s'"
  using assms
proof (induction xs arbitrary: s s' r)
  case (Cons x xs)
  obtain s1 r1 where f: "f s x = (s1, r1)" by fastforce
  have i1: "I s1" using Cons.prems(1) [of x s s1 r1] Cons.prems(2) f by simp
  show ?case
  proof (cases r1)
    case (Inl e)
    with Cons.prems(3) f i1 show ?thesis by simp
  next
    case (Inr u)
    obtain s2 r2 where m: "map_each f s1 xs = (s2, r2)" by fastforce
    have "I s2" by (rule Cons.IH [OF _ i1 m]) (use Cons.prems(1) in auto)
    with Cons.prems(3) f Inr m show ?thesis by (cases r2) auto
  qed
qed simp

text \<open>A loop whose body gives \<open>g x\<close> in every state of the invariant.\<close>

lemma map_each_values:
  assumes "\<And>s x. x \<in> set xs \<Longrightarrow> I s \<Longrightarrow> \<exists>s'. f s x = (s', Inr (g x)) \<and> I s'" "I s"
  shows "\<exists>s'. map_each f s xs = (s', Inr (map g xs)) \<and> I s'"
  using assms
proof (induction xs arbitrary: s)
  case (Cons x xs)
  obtain s1 where s1: "f s x = (s1, Inr (g x))" "I s1" using Cons.prems by fastforce
  have "\<exists>s'. map_each f s1 xs = (s', Inr (map g xs)) \<and> I s'"
    by (rule Cons.IH) (use Cons.prems(1) s1(2) in auto)
  then obtain s2 where "map_each f s1 xs = (s2, Inr (map g xs))" "I s2" by blast
  with s1 show ?case by simp
qed simp

end
