(* ===== verification/PyOps.thy ===== *)
theory PyOps
  imports PyText
begin

text \<open>
  More operations of Python's str, int, list and dict that the modules of the
  development share: splitting at a substring, substring tests, \<open>int(v)\<close>, iteration and
  membership on a value whose type is not known in advance.
\<close>

section \<open>Substrings\<close>

text \<open>The parts of a string before and behind the first occurrence of a substring.\<close>

fun cut_at :: "string \<Rightarrow> string \<Rightarrow> (string \<times> string) option" where
  "cut_at sep [] = (if sep = [] then Some ([], []) else None)"
| "cut_at sep (x # xs) =
     (if starts_with (x # xs) sep then Some ([], drop (length sep) (x # xs))
      else map_option (\<lambda>(a, b). (x # a, b)) (cut_at sep xs))"

text \<open>\<open>sub in s\<close>.\<close>

definition str_in :: "string \<Rightarrow> string \<Rightarrow> bool" where
  "str_in sub s \<longleftrightarrow> cut_at sub s \<noteq> None"

lemma starts_with_drop: "starts_with s p \<Longrightarrow> p @ drop (length p) s = s"
  unfolding starts_with_def by (metis append_take_drop_id)

lemma cut_at_eq: "cut_at sep s = Some (a, b) \<Longrightarrow> s = a @ sep @ b"
  by (induction s arbitrary: a) (auto split: if_splits simp: starts_with_drop)

lemma cut_at_shorter: "cut_at sep s = Some (a, b) \<Longrightarrow> sep \<noteq> [] \<Longrightarrow> length b < length s"
  by (drule cut_at_eq) auto

text \<open>\<open>s.split(sep)\<close> with a separator of any length but 0.\<close>

function split_str :: "string \<Rightarrow> string \<Rightarrow> string list" where
  "split_str sep s = (if sep = [] then [s] else case cut_at sep s of
      None \<Rightarrow> [s]
    | Some (a, b) \<Rightarrow> a # split_str sep b)"
  by pat_completeness auto
termination
  by (relation "measure (\<lambda>(sep, s). length s)") (auto intro: cut_at_shorter)

declare split_str.simps [simp del]

lemma split_str_nonempty [simp]: "split_str sep s \<noteq> []"
  by (subst split_str.simps) (auto split: option.splits)

lemma cut_at_absent: "cut_at sep s = None \<longleftrightarrow> (\<nexists>a b. s = a @ sep @ b)"
proof (induction s)
  case (Cons x xs)
  show ?case
  proof (cases "starts_with (x # xs) sep")
    case True
    then obtain b where "x # xs = [] @ sep @ b" using starts_with_drop [OF True] by (metis append_Nil)
    moreover have "cut_at sep (x # xs) \<noteq> None" using True by simp
    ultimately show ?thesis by metis
  next
    case False
    have "(\<exists>a b. x # xs = a @ sep @ b) \<longleftrightarrow> (\<exists>a b. xs = a @ sep @ b)"
    proof
      assume "\<exists>a b. x # xs = a @ sep @ b"
      then obtain a b where ab: "x # xs = a @ sep @ b" by blast
      then have "a \<noteq> []" using False by (auto simp: starts_with_def)
      then show "\<exists>a b. xs = a @ sep @ b" using ab by (cases a) auto
    qed (metis append_Cons)
    with Cons False show ?thesis by simp
  qed
qed simp

lemma str_in_iff: "str_in sub s \<longleftrightarrow> (\<exists>a b. s = a @ sub @ b)"
  using cut_at_absent [of sub s] by (auto simp: str_in_def)

text \<open>The first part of a split, when the separator does not occur earlier.\<close>

lemma cut_at_first:
  assumes "c \<notin> set a"
  shows "cut_at (c # sep) (a @ (c # sep) @ b) = Some (a, b)"
  using assms by (induction a) (auto simp: starts_with_def)

lemma hd_split_first: "c \<notin> set a \<Longrightarrow> hd (split_str (c # sep) (a @ (c # sep) @ b)) = a"
  using cut_at_first [of c a sep b] by (subst split_str.simps) simp

section \<open>Digits and numbers\<close>

text \<open>\<open>c.isdigit()\<close>: besides 0 to 9 the superscripts 1, 2 and 3 are digits of which
  \<open>int\<close> knows no value.\<close>

definition py_isdigit :: "char \<Rightarrow> bool" where
  "py_isdigit c \<longleftrightarrow> is_digit c \<or> (of_char c :: nat) \<in> {178, 179, 185}"

text \<open>\<open>int(s)\<close>: blanks around the number and single underscores between digits are
  allowed.\<close>

fun digits_us :: "string \<Rightarrow> string option" where
  "digits_us [] = None"
| "digits_us [c] = (if is_digit c then Some [c] else None)"
| "digits_us (c # d # s) = (if \<not> is_digit c then None
     else if d = CHR ''_'' then map_option (Cons c) (digits_us s)
     else map_option (Cons c) (digits_us (d # s)))"

definition read_int :: "string \<Rightarrow> int option" where
  "read_int s = (let t = py_strip s; neg = (t \<noteq> [] \<and> hd t = CHR ''-'');
       u = (if t \<noteq> [] \<and> (hd t = CHR ''-'' \<or> hd t = CHR ''+'') then tl t else t) in
     map_option (\<lambda>ds. if neg then - int (read_nat ds) else int (read_nat ds)) (digits_us u))"

fun py_int :: "pyval \<Rightarrow> pyexc + int" where
  "py_int (PInt i) = Inr i"
| "py_int (PBool b) = Inr (if b then 1 else 0)"
| "py_int (PFloat r) = Inr (if r < 0 then - \<lfloor>- r\<rfloor> else \<lfloor>r\<rfloor>)"
| "py_int (PStr s) = (case read_int s of None \<Rightarrow> Inl ValueError | Some i \<Rightarrow> Inr i)"
| "py_int _ = Inl TypeError"

lemma digits_us_digits: "s \<noteq> [] \<Longrightarrow> list_all is_digit s \<Longrightarrow> digits_us s = Some s"
  by (induction s rule: digits_us.induct) (auto simp: is_digit_def)

section \<open>Iteration and membership\<close>

text \<open>\<open>for x in v\<close>: the characters of a string, the elements of a list, the keys of a dict.\<close>

fun py_iter :: "pyval \<Rightarrow> pyexc + pyval list" where
  "py_iter (PStr s) = Inr (map (\<lambda>c. PStr [c]) s)"
| "py_iter (PList xs) = Inr xs"
| "py_iter (PDict d) = Inr (map (PStr \<circ> fst) d)"
| "py_iter _ = Inl TypeError"

text \<open>\<open>s in v\<close> for a string \<open>s\<close>.\<close>

fun py_str_in :: "string \<Rightarrow> pyval \<Rightarrow> pyexc + bool" where
  "py_str_in s (PStr t) = Inr (str_in s t)"
| "py_str_in s (PList xs) = Inr (PStr s \<in> set xs)"
| "py_str_in s (PDict d) = Inr (s \<in> fst ` set d)"
| "py_str_in s _ = Inl TypeError"

text \<open>A dict whose keys are values of any hashable type, in insertion order.\<close>

fun val_put :: "pyval \<Rightarrow> pyval \<Rightarrow> (pyval \<times> pyval) list \<Rightarrow> (pyval \<times> pyval) list" where
  "val_put k v [] = [(k, v)]"
| "val_put k v ((k', v') # d) = (if py_eq k' k then (k', v) # d else (k', v') # val_put k v d)"

definition dict_put :: "pyval \<Rightarrow> pyval \<Rightarrow> (pyval \<times> pyval) list \<Rightarrow> pyexc + (pyval \<times> pyval) list" where
  "dict_put k v d = (if is_list_dict k then Inl TypeError else Inr (val_put k v d))"

fun err_bind :: "pyexc + 'a \<Rightarrow> ('a \<Rightarrow> pyexc + 'b) \<Rightarrow> pyexc + 'b" where
  "err_bind (Inl e) f = Inl e"
| "err_bind (Inr a) f = f a"

fun err_map :: "('a \<Rightarrow> pyexc + 'b) \<Rightarrow> 'a list \<Rightarrow> pyexc + 'b list" where
  "err_map f [] = Inr []"
| "err_map f (x # xs) = err_bind (f x) (\<lambda>y. err_bind (err_map f xs) (\<lambda>ys. Inr (y # ys)))"

lemma err_bind_Inr: "err_bind x f = Inr b \<longleftrightarrow> (\<exists>a. x = Inr a \<and> f a = Inr b)"
  by (cases x) auto

lemma err_bind_assoc: "err_bind (err_bind x f) g = err_bind x (\<lambda>a. err_bind (f a) g)"
  by (cases x) auto

lemma err_bind_id [simp]: "err_bind x Inr = x"
  by (cases x) auto

lemma err_map_Inr: "\<forall>x \<in> set xs. f x = Inr (g x) \<Longrightarrow> err_map f xs = Inr (map g xs)"
  by (induction xs) auto

section \<open>Access to nested data\<close>

text \<open>\<open>v[k]\<close> for a string key, \<open>v[i]\<close> for an index, \<open>v.keys()\<close> and \<open>v.get(k, dflt)\<close>.\<close>

fun py_item :: "pyval \<Rightarrow> string \<Rightarrow> pyexc + pyval" where
  "py_item (PDict d) k = (case map_of d k of None \<Rightarrow> Inl KeyError | Some v \<Rightarrow> Inr v)"
| "py_item _ k = Inl TypeError"

fun py_items :: "pyval \<Rightarrow> string list \<Rightarrow> pyexc + pyval" where
  "py_items v [] = Inr v"
| "py_items v (k # ks) = err_bind (py_item v k) (\<lambda>w. py_items w ks)"

fun py_at :: "pyval \<Rightarrow> nat \<Rightarrow> pyexc + pyval" where
  "py_at (PList xs) i = (if i < length xs then Inr (xs ! i) else Inl IndexError)"
| "py_at (PStr s) i = (if i < length s then Inr (PStr [s ! i]) else Inl IndexError)"
| "py_at (PDict d) i = Inl KeyError"
| "py_at _ i = Inl TypeError"

fun py_keys :: "pyval \<Rightarrow> pyexc + string list" where
  "py_keys (PDict d) = Inr (map fst d)"
| "py_keys _ = Inl AttributeError"

fun py_get :: "pyval \<Rightarrow> string \<Rightarrow> pyval \<Rightarrow> pyexc + pyval" where
  "py_get (PDict d) k dflt = Inr (case map_of d k of None \<Rightarrow> dflt | Some v \<Rightarrow> v)"
| "py_get _ k dflt = Inl AttributeError"

text \<open>\<open>rs[name]\<close> for a name that need not be a string.\<close>

definition res_item :: "pyval \<Rightarrow> pyval \<Rightarrow> pyexc + pyval" where
  "res_item rs name = (case name of PStr s \<Rightarrow> py_item rs s
     | _ \<Rightarrow> if is_list_dict name then Inl TypeError else (case rs of PDict _ \<Rightarrow> Inl KeyError | _ \<Rightarrow> Inl TypeError))"

fun err_each :: "('a \<Rightarrow> pyexc + unit) \<Rightarrow> 'a list \<Rightarrow> pyexc + unit" where
  "err_each f [] = Inr ()"
| "err_each f (x # xs) = err_bind (f x) (\<lambda>_. err_each f xs)"

lemma err_each_Inr: "err_each f xs = Inr () \<longleftrightarrow> (\<forall>x \<in> set xs. f x = Inr ())"
  by (induction xs) (auto simp: err_bind_Inr)

end
