(* ===== verification/Release.thy ===== *)
theory Release
  imports ConfApi Effects PyOps
begin

text \<open>
  Release and Manifest of src/py-utils/src/utils/schema/release.py: the versions that a release
  manifest names, the versions installed on a node, and whether an update is
  compatible with them.
\<close>

section \<open>Constants\<close>

text \<open>The keys of src/py-utils/src/utils/const.py; \<open>%s\<close> is filled with the text of a value.\<close>

definition release_name_key :: string where "release_name_key = ''cortx>common>release>name''"
definition release_version_key :: string where "release_version_key = ''cortx>common>release>version''"
definition num_storageset_key :: string where "num_storageset_key = ''cluster>num_storage_set''"

definition num_nodes_key :: "int \<Rightarrow> string" where
  "num_nodes_key i = ''cluster>storage_set['' @ show_int i @ '']>num_nodes''"

definition node_id_key :: "int \<Rightarrow> int \<Rightarrow> string" where
  "node_id_key i j = ''cluster>storage_set['' @ show_int i @ '']>nodes['' @ show_int j @ '']''"

definition node_name_key :: "pyval \<Rightarrow> string" where
  "node_name_key node = ''node>'' @ py_str node @ ''>name''"

definition num_components_key :: "pyval \<Rightarrow> string" where
  "num_components_key node = ''node>'' @ py_str node @ ''>num_components''"

definition component_key :: "pyval \<Rightarrow> int \<Rightarrow> string \<Rightarrow> string" where
  "component_key node i field = ''node>'' @ py_str node @ ''>components['' @ show_int i @ '']>'' @ field"

definition component_name_map :: "(string \<times> string) list" where
  "component_name_map = [(''CORTX'', ''CORTX''), (''cortx-motr'', ''motr''), (''cortx-rgw'', ''rgw''),
     (''cortx-hare'', ''hare''), (''cortx-py-utils'', ''utils''), (''cortx-csm_agent'', ''csm''),
     (''cortx-ha'', ''ha''), (''cortx-prvsnr'', ''prvsnr'')]"

abbreviation INTERNAL_ERROR :: int where "INTERNAL_ERROR \<equiv> 4101"

section \<open>Versions\<close>

text \<open>The elements of \<open>list(version_str)\<close> that are digits. A version that is no string but a
  list or dict is iterated too.\<close>

fun elem_digits :: "pyval list \<Rightarrow> pyexc + int list" where
  "elem_digits [] = Inr []"
| "elem_digits (PStr s # xs) =
     (if s \<noteq> [] \<and> list_all py_isdigit s
      then err_bind (py_int (PStr s)) (\<lambda>i. err_bind (elem_digits xs) (\<lambda>ds. Inr (i # ds)))
      else elem_digits xs)"
| "elem_digits (_ # xs) = Inl AttributeError"

definition get_digits :: "pyval \<Rightarrow> pyexc + int list" where
  "get_digits version_str = err_bind (py_iter version_str) elem_digits"

text \<open>The loop over \<open>zip_longest(..., fillvalue=-1)\<close>.\<close>

fun compare_digits :: "int list \<Rightarrow> int list \<Rightarrow> int" where
  "compare_digits [] [] = 0"
| "compare_digits (d # ds) (r # rs) = (if d < r then -1 else if d > r then 1 else compare_digits ds rs)"
| "compare_digits (d # ds) [] = (if d < -1 then -1 else if d > -1 then 1 else compare_digits ds [])"
| "compare_digits [] (r # rs) = (if -1 < r then -1 else if -1 > r then 1 else compare_digits [] rs)"

definition version_check :: "pyval \<Rightarrow> pyval \<Rightarrow> pyexc + int" where
  "version_check deploy_version release_version =
     (if py_eq deploy_version release_version then Inr 0
      else err_bind (get_digits deploy_version) (\<lambda>ds.
        err_bind (get_digits release_version) (\<lambda>rs. Inr (compare_digits ds rs))))"

section \<open>RPM names\<close>

fun first_match :: "string \<Rightarrow> pyval list \<Rightarrow> pyexc + pyval list" where
  "first_match component [] = Inr []"
| "first_match component (x # xs) = err_bind (py_str_in component x) (\<lambda>b.
     err_bind (first_match component xs) (\<lambda>ys. Inr (if b then x # ys else ys)))"

definition get_rpm_from_list :: "string \<Rightarrow> pyval \<Rightarrow> pyexc + pyval" where
  "get_rpm_from_list component search_list = err_bind (py_iter search_list) (\<lambda>xs.
     err_bind (first_match component xs) (\<lambda>ms. case ms of
         [] \<Rightarrow> Inl (PyException ''Exception'')
       | m # _ \<Rightarrow> Inr m))"

text \<open>The elements of the name that start with a digit; \<open>element[0]\<close> of an empty element is an
  IndexError.\<close>

fun digit_elements :: "string list \<Rightarrow> string list option" where
  "digit_elements [] = Some []"
| "digit_elements (x # xs) = (case x of
      [] \<Rightarrow> None
    | c # _ \<Rightarrow> map_option (\<lambda>ys. if py_isdigit c then x # ys else ys) (digit_elements xs))"

definition cut_suffix :: "string \<Rightarrow> string" where
  "cut_suffix s =
     (if str_in ''.el7'' s then hd (split_str ''.el7'' s)
      else if str_in ''_el7'' s then hd (split_str ''_el7'' s)
      else if str_in ''.noarch'' s then hd (split_str ''.noarch'' s)
      else if str_in ''.x86_64'' s then hd (split_str ''.x86_64'' s)
      else s)"

definition get_rpm_version :: "pyval \<Rightarrow> pyexc + string" where
  "get_rpm_version rpm_name = (case rpm_name of
      PStr s \<Rightarrow> (case digit_elements (py_split (CHR ''-'') s) of
          Some (a # b # _) \<Rightarrow> Inr (a @ ''-'' @ cut_suffix b)
        | _ \<Rightarrow> Inl (PyException ''Exception''))
    | _ \<Rightarrow> Inl AttributeError)"

text \<open>\<open>while version.find('_') != -1: version = version.split('_')[0]\<close>.\<close>

function drop_hash :: "string \<Rightarrow> string" where
  "drop_hash version = (if str_in ''_'' version then drop_hash (hd (py_split (CHR ''_'') version)) else version)"
  by pat_completeness auto
termination
proof (relation "measure length")
  show "(hd (py_split (CHR ''_'') v), v) \<in> measure length" if "str_in ''_'' v" for v
  proof -
    obtain a b where "v = a @ ''_'' @ b" using \<open>str_in ''_'' v\<close> by (auto simp: str_in_iff)
    moreover have "hd (py_split (CHR ''_'') v) = takeWhile (\<lambda>x. x \<noteq> CHR ''_'') v"
      by (induction v) (auto split: list.splits)
    moreover have "length (takeWhile (\<lambda>x. x \<noteq> CHR ''_'') (a @ ''_'' @ b)) \<le> length a"
      by (induction a) auto
    ultimately show ?thesis by auto
  qed
qed simp

declare drop_hash.simps [simp del]

section \<open>Manifest and Release\<close>

abbreviation manifest_idx :: string where "manifest_idx \<equiv> ''manifest_conf''"

definition Manifest_init :: "('b, 'h, 'p) backend \<Rightarrow> ('b, 'h, 'p) conf_class \<Rightarrow> string \<Rightarrow>
    ('b, 'h, 'p) conf_class \<times> (pyexc + unit)" where
  "Manifest_init B cf manifest_url = Conf_load B cf manifest_idx manifest_url (PBool True) []"

definition get_val :: "'p payload_class \<Rightarrow> ('b, 'h, 'p) conf_class \<Rightarrow> string \<Rightarrow> ('b, 'h, 'p) conf_class \<times> (pyexc + pyval)" where
  "get_val P cf key = Conf_get P cf manifest_idx (Some key) (PStr [])"

definition get_release_version :: "'p payload_class \<Rightarrow> ('b, 'h, 'p) conf_class \<Rightarrow>
    ('b, 'h, 'p) conf_class \<times> (pyexc + pyval)" where
  "get_release_version P cf = get_val P cf ''VERSION''"

definition get_component_version :: "'p payload_class \<Rightarrow> ('b, 'h, 'p) conf_class \<Rightarrow> string \<Rightarrow>
    ('b, 'h, 'p) conf_class \<times> (pyexc + string)" where
  "get_component_version P cf component = st_bind (get_val P cf ''COMPONENTS'') (\<lambda>cf rpms.
     (cf, err_bind (get_rpm_from_list component rpms) (\<lambda>rpm.
        err_bind (get_rpm_version rpm) (\<lambda>version. Inr (drop_hash version)))))"

text \<open>\<open>validate\<close>: whether the given spec names the release, and what it names wrongly.\<close>

definition release_validate :: "'p payload_class \<Rightarrow> ('b, 'h, 'p) conf_class \<Rightarrow> pydict option \<Rightarrow>
    ('b, 'h, 'p) conf_class \<times> (pyexc + bool \<times> pydict)" where
  "release_validate P cf release_spec =
     st_bind (map_each (\<lambda>cf (key, ukey). st_bind (get_val P cf ukey) (\<lambda>cf v. (cf, Inr
         (if (case release_spec of None \<Rightarrow> True
              | Some d \<Rightarrow> \<not> py_eq (case map_of d key of None \<Rightarrow> PNone | Some w \<Rightarrow> w) v)
          then [(key, v)] else [])))) cf [(''name'', ''NAME''), (''version'', ''VERSION'')])
       (\<lambda>cf wrong. (cf, Inr (concat wrong = [], concat wrong)))"

section \<open>Installed versions\<close>

definition conf_int :: "'p payload_class \<Rightarrow> ('b, 'h, 'p) conf_class \<Rightarrow> string \<Rightarrow> ('b, 'h, 'p) conf_class \<times> (pyexc + int)" where
  "conf_int P cf key = st_bind (MappedConf_get P cf key PNone) (\<lambda>cf v. (cf, py_int v))"

definition upto :: "int \<Rightarrow> int list" where
  "upto n = map int [0..<nat n]"

definition get_node_list :: "'p payload_class \<Rightarrow> ('b, 'h, 'p) conf_class \<Rightarrow> ('b, 'h, 'p) conf_class \<times> (pyexc + pyval list)" where
  "get_node_list P cf = st_bind (conf_int P cf num_storageset_key) (\<lambda>cf num.
     st_bind (map_each (\<lambda>cf i. st_bind (conf_int P cf (num_nodes_key i)) (\<lambda>cf num_nodes.
         map_each (\<lambda>cf j. MappedConf_get P cf (node_id_key i j) PNone) cf (upto num_nodes))) cf (upto num))
       (\<lambda>cf lists. (cf, Inr (concat lists))))"

text \<open>The last node of the list whose name is the resource id.\<close>

fun find_node :: "'p payload_class \<Rightarrow> ('b, 'h, 'p) conf_class \<Rightarrow> string \<Rightarrow> pyval list \<Rightarrow> pyval option \<Rightarrow>
    ('b, 'h, 'p) conf_class \<times> (pyexc + pyval option)" where
  "find_node P cf rid [] found = (cf, Inr found)"
| "find_node P cf rid (node # nodes) found = st_bind (MappedConf_get P cf (node_name_key node) PNone) (\<lambda>cf v.
     find_node P cf rid nodes (if v = PStr rid then Some node else found))"

fun component_versions :: "'p payload_class \<Rightarrow> ('b, 'h, 'p) conf_class \<Rightarrow> pyval \<Rightarrow> int list \<Rightarrow> (pyval \<times> pyval) list \<Rightarrow>
    ('b, 'h, 'p) conf_class \<times> (pyexc + (pyval \<times> pyval) list)" where
  "component_versions P cf node [] info = (cf, Inr info)"
| "component_versions P cf node (i # is) info =
     st_bind (MappedConf_get P cf (component_key node i ''name'') PNone) (\<lambda>cf name.
     st_bind (MappedConf_get P cf (component_key node i ''version'') PNone) (\<lambda>cf version.
       if version = PNone then (cf, Inl (SetupError INTERNAL_ERROR))
       else case dict_put name version info of
         Inl e \<Rightarrow> (cf, Inl e)
       | Inr info' \<Rightarrow> component_versions P cf node is info'))"

text \<open>None as a node id, also that of a node whose id is missing, is no resource.\<close>

definition get_installed_version :: "'p payload_class \<Rightarrow> ('b, 'h, 'p) backend \<Rightarrow> ('b, 'h, 'p) conf_class \<Rightarrow> string \<Rightarrow> string \<Rightarrow>
    ('b, 'h, 'p) conf_class \<times> (pyexc + (pyval \<times> pyval) list option)" where
  "get_installed_version P B cf resource_id conf_url =
     st_bind (MappedConf_init B cf conf_url) (\<lambda>cf _.
     st_bind (get_node_list P cf) (\<lambda>cf node_list.
     st_bind (find_node P cf resource_id node_list None) (\<lambda>cf found.
       case found of
         None \<Rightarrow> (cf, Inl (SetupError EINVAL))
       | Some node_id \<Rightarrow> if node_id = PNone then (cf, Inl (SetupError EINVAL)) else
           st_bind (conf_int P cf (num_components_key node_id)) (\<lambda>cf num_components.
           st_bind (component_versions P cf node_id (upto num_components) []) (\<lambda>cf info.
           st_bind (MappedConf_get P cf release_name_key PNone) (\<lambda>cf release_name.
           st_bind (MappedConf_get P cf release_version_key PNone) (\<lambda>cf release_version.
             (cf, err_bind (dict_put release_name release_version info) (\<lambda>info'.
                Inr (if length info' > 1 then Some info' else None))))))))))"

section \<open>Compatibility of an update\<close>

definition clause_name :: "string \<Rightarrow> string" where
  "clause_name clause = py_strip (hd (split_str ''>='' clause))"

definition validate_clauses :: "string list \<Rightarrow> bool" where
  "validate_clauses version_clauses \<longleftrightarrow> list_all (\<lambda>clause.
     map_of component_name_map (clause_name clause) \<noteq> None \<and> \<not> length (split_str ''>='' clause) < 1) version_clauses"

definition to_upper :: "char \<Rightarrow> char" where
  "to_upper c = (let n = (of_char c :: nat) in if 97 \<le> n \<and> n \<le> 122 then char_of (n - 32) else c)"

text \<open>\<open>_parse_version\<close>; another operation than UPGRADE gives an empty name and 0.\<close>

definition parse_version :: "string \<Rightarrow> string \<Rightarrow> pyexc + string \<times> pyval" where
  "parse_version clause operation =
     (if map to_upper operation = ''UPGRADE'' then
        (case split_str ''>='' clause of
           n # v # _ \<Rightarrow> Inr (py_strip n, PStr (py_strip (hd (split_str ''<='' v))))
         | _ \<Rightarrow> Inl IndexError)
      else Inr ([], PInt 0))"

text \<open>The first clause about a component: Some if the deployed version is older.\<close>

fun check_component :: "string list \<Rightarrow> pyval \<Rightarrow> pyval \<Rightarrow> pyexc + bool option" where
  "check_component [] component version = Inr None"
| "check_component (clause # clauses) component version =
     err_bind (parse_version clause ''UPGRADE'') (\<lambda>(name, new_version).
       case map_of component_name_map name of
         None \<Rightarrow> Inl KeyError
       | Some mapped \<Rightarrow>
           if py_eq component (PStr mapped)
           then err_bind (version_check version new_version) (\<lambda>r. Inr (Some (r = -1)))
           else check_component clauses component version)"

fun check_installed :: "string list \<Rightarrow> (pyval \<times> pyval) list \<Rightarrow> nat \<Rightarrow> pyexc + nat option" where
  "check_installed clauses [] count = Inr (Some count)"
| "check_installed clauses ((component, version) # inst) count =
     err_bind (check_component clauses component version) (\<lambda>r. case r of
         None \<Rightarrow> check_installed clauses inst count
       | Some True \<Rightarrow> Inr None
       | Some False \<Rightarrow> check_installed clauses inst (Suc count))"

definition compatible_with :: "string list \<Rightarrow> (pyval \<times> pyval) list \<Rightarrow> pyexc + bool" where
  "compatible_with clauses inst = err_bind (check_installed clauses inst 0) (\<lambda>r. case r of
      None \<Rightarrow> Inr False
    | Some count \<Rightarrow> if count \<noteq> length inst then Inl (SetupError EINVAL) else Inr True)"

text \<open>\<open>consul_conf\<close> is the text of the file that names the configuration URL, if it is there.\<close>

definition is_version_compatible :: "'p payload_class \<Rightarrow> ('b, 'h, 'p) backend \<Rightarrow> ('b, 'h, 'p) conf_class \<Rightarrow>
    string option \<Rightarrow> string \<Rightarrow> string \<Rightarrow> string list \<Rightarrow> ('b, 'h, 'p) conf_class \<times> (pyexc + bool)" where
  "is_version_compatible P B cf consul_conf resource_type resource_id version_clauses =
     (if resource_type = ''cluster'' then (cf, Inl NotImplementedError)
      else if \<not> validate_clauses version_clauses then (cf, Inl (SetupError EINVAL))
      else (let conf_url = py_strip (case consul_conf of None \<Rightarrow> py_str (PDict []) | Some t \<Rightarrow> t) in
        st_bind (get_installed_version P B cf resource_id conf_url) (\<lambda>cf installed.
          case installed of
            None \<Rightarrow> (cf, Inl (SetupError INTERNAL_ERROR))
          | Some inst \<Rightarrow> (cf, compatible_with version_clauses inst))))"

section \<open>Version order\<close>

text \<open>A version text as separators and numbers, and the comparison of versions number by
  number.\<close>

definition version_text :: "(string \<times> string) list \<Rightarrow> string" where
  "version_text v = concat (map (\<lambda>(sep, ds). sep @ ds) v)"

definition version_ok :: "(string \<times> string) list \<Rightarrow> bool" where
  "version_ok v \<longleftrightarrow> (\<forall>(sep, ds) \<in> set v. list_all (\<lambda>c. \<not> py_isdigit c) sep \<and> list_all is_digit ds)"

fun compare_numbers :: "nat list \<Rightarrow> nat list \<Rightarrow> int" where
  "compare_numbers (m # ms) (n # ns) = (if m < n then -1 else if m > n then 1 else compare_numbers ms ns)"
| "compare_numbers _ _ = 0"

abbreviation digit_vals :: "string \<Rightarrow> int list" where
  "digit_vals \<equiv> map (\<lambda>a. int (digit_val a))"

lemma elem_digits_append:
  "elem_digits (xs @ ys) = err_bind (elem_digits xs) (\<lambda>a. err_bind (elem_digits ys) (\<lambda>b. Inr (a @ b)))"
  by (induction xs rule: elem_digits.induct) (simp_all add: err_bind_assoc del: py_int.simps)

lemma elem_digits_sep: "list_all (\<lambda>c. \<not> py_isdigit c) s \<Longrightarrow> elem_digits (map (\<lambda>c. PStr [c]) s) = Inr []"
  by (induction s) auto

lemma py_int_digit: "is_digit c \<Longrightarrow> py_int (PStr [c]) = Inr (int (digit_val c))"
proof -
  assume d: "is_digit c"
  then have "\<not> is_space c" "c \<noteq> CHR ''-''" "c \<noteq> CHR ''+''" by (auto simp: is_digit_def is_space_def)
  with d show ?thesis by (simp add: read_int_def py_strip_def read_nat_def)
qed

lemma elem_digits_digits: "list_all is_digit s \<Longrightarrow> elem_digits (map (\<lambda>c. PStr [c]) s) = Inr (digit_vals s)"
  by (induction s) (auto simp: py_int_digit py_isdigit_def simp del: py_int.simps)

lemma get_digits_version: "version_ok v \<Longrightarrow> get_digits (PStr (version_text v)) = Inr (digit_vals (concat (map snd v)))"
proof (induction v)
  case (Cons x v)
  then have "elem_digits (map (\<lambda>c. PStr [c]) (version_text v)) = Inr (digit_vals (concat (map snd v)))"
    by (simp add: version_ok_def get_digits_def)
  moreover have "elem_digits (map (\<lambda>c. PStr [c]) (fst x)) = Inr []" "elem_digits (map (\<lambda>c. PStr [c]) (snd x)) = Inr (digit_vals (snd x))"
    using Cons.prems by (auto simp: version_ok_def elem_digits_sep elem_digits_digits)
  moreover have "version_text (x # v) = fst x @ snd x @ version_text v" by (simp add: version_text_def split: prod.splits)
  ultimately show ?case by (simp add: get_digits_def elem_digits_append)
qed (simp add: version_text_def get_digits_def)

lemma compare_digits_same [simp]: "compare_digits xs xs = 0"
  by (induction xs) auto

lemma compare_digits_append: "length xs = length ys \<Longrightarrow>
    compare_digits (xs @ xs') (ys @ ys') = (if xs = ys then compare_digits xs' ys' else compare_digits xs ys)"
  by (induction xs ys rule: list_induct2) auto

lemma digit_val_lt: "is_digit c \<Longrightarrow> digit_val c < 10"
  by (auto simp: is_digit_def digit_val_def)

lemma digit_val_inj: "is_digit c \<Longrightarrow> is_digit d \<Longrightarrow> digit_val c = digit_val d \<Longrightarrow> c = d"
proof -
  assume "is_digit c" "is_digit d" "digit_val c = digit_val d"
  then have "(of_char c :: nat) = of_char d" unfolding is_digit_def digit_val_def by linarith
  then show "c = d" by simp
qed

lemma read_nat_bound: "list_all is_digit s \<Longrightarrow> read_nat s < 10 ^ length s"
proof (induction s)
  case (Cons c s)
  then have "digit_val c * 10 ^ length s + read_nat s < (digit_val c + 1) * 10 ^ length s" by simp
  also have "\<dots> \<le> 10 * 10 ^ length s" using digit_val_lt [of c] Cons.prems by (intro mult_right_mono) auto
  finally show ?case by (simp add: read_nat_Cons)
qed (simp add: read_nat_def)

text \<open>Digit strings of the same length compare as the numbers they write.\<close>

lemma compare_digits_read:
  assumes "length a = length b" "list_all is_digit a" "list_all is_digit b"
  shows "compare_digits (digit_vals a) (digit_vals b) = (if read_nat a < read_nat b then -1 else if read_nat b < read_nat a then 1 else 0)"
  using assms
proof (induction a b rule: list_induct2)
  case (Cons x a y b)
  have bound: "read_nat a < 10 ^ length b" "read_nat b < 10 ^ length b"
    using read_nat_bound [of a] read_nat_bound [of b] Cons by auto
  have less: "m * 10 ^ length b + r < n * 10 ^ length b + r'" if "m < n" "r < 10 ^ length b" for m n r r' :: nat
  proof -
    have "m * 10 ^ length b + r < Suc m * 10 ^ length b" using that(2) by simp
    also have "\<dots> \<le> n * 10 ^ length b" using that(1) by (intro mult_right_mono) auto
    finally show ?thesis by simp
  qed
  consider "digit_val x < digit_val y" | "digit_val y < digit_val x" | "digit_val x = digit_val y" by linarith
  then show ?case
  proof cases
    case 1
    with less [OF 1 bound(1), of "read_nat b"] Cons show ?thesis by (simp add: read_nat_Cons)
  next
    case 2
    with less [OF 2 bound(2), of "read_nat a"] Cons show ?thesis by (simp add: read_nat_Cons)
  next
    case 3
    with Cons show ?thesis by (simp add: read_nat_Cons)
  qed
qed (simp add: read_nat_def)

lemma digit_vals_inj: "list_all is_digit a \<Longrightarrow> list_all is_digit b \<Longrightarrow> digit_vals a = digit_vals b \<longleftrightarrow> a = b"
  by (induction a arbitrary: b; case_tac b) (auto simp: digit_val_inj)

lemma read_nat_inj:
  assumes "length a = length b" "list_all is_digit a" "list_all is_digit b" "read_nat a = read_nat b"
  shows "a = b"
  using assms
proof (induction a b rule: list_induct2)
  case (Cons x a y b)
  have bound: "read_nat a < 10 ^ length b" "read_nat b < 10 ^ length b"
    using read_nat_bound [of a] read_nat_bound [of b] Cons by auto
  have eq: "digit_val x * 10 ^ length b + read_nat a = digit_val y * 10 ^ length b + read_nat b"
    using Cons by (simp add: read_nat_Cons)
  have "digit_val x = digit_val y" using arg_cong [OF eq, of "\<lambda>n. n div 10 ^ length b"] bound by simp
  with eq have "read_nat a = read_nat b" by simp
  with Cons \<open>digit_val x = digit_val y\<close> show ?case by (simp add: digit_val_inj)
qed simp

text \<open>On versions whose numbers are written with the same widths, version_check is the
  comparison number by number: 0 when equal, -1 when the deployed version is older, 1 when
  it is newer.\<close>

lemma version_check_numeric:
  assumes "version_ok v" "version_ok w" "map (\<lambda>a. length (snd a)) v = map (\<lambda>a. length (snd a)) w"
  shows "version_check (PStr (version_text v)) (PStr (version_text w)) =
    Inr (compare_numbers (map (\<lambda>a. read_nat (snd a)) v) (map (\<lambda>a. read_nat (snd a)) w))"
proof -
  have cmp: "compare_digits (digit_vals (concat (map snd v))) (digit_vals (concat (map snd w))) =
      compare_numbers (map (\<lambda>a. read_nat (snd a)) v) (map (\<lambda>a. read_nat (snd a)) w)"
    using assms
  proof (induction v arbitrary: w)
    case (Cons x v)
    obtain y w' where "w = y # w'" using Cons.prems(3) by (cases w) auto
    with Cons.prems(3) have w: "w = y # w'" "length (snd x) = length (snd y)" "map (\<lambda>a. length (snd a)) v = map (\<lambda>a. length (snd a)) w'"
      by (simp_all add: o_def)
    have d: "list_all is_digit (snd x)" "list_all is_digit (snd y)" using Cons.prems w by (auto simp: version_ok_def)
    have "version_ok v" "version_ok w'" using Cons.prems(1,2) w by (auto simp: version_ok_def)
    with Cons.IH w have ih: "compare_digits (digit_vals (concat (map snd v))) (digit_vals (concat (map snd w'))) =
      compare_numbers (map (\<lambda>a. read_nat (snd a)) v) (map (\<lambda>a. read_nat (snd a)) w')" by blast
    have len: "length (digit_vals (snd x)) = length (digit_vals (snd y))" using w by simp
    show ?case
      using w(2) ih compare_digits_append [OF len] compare_digits_read [OF w(2) d] read_nat_inj [OF w(2) d] digit_vals_inj [OF d]
      by (auto simp: w(1))
  qed simp
  have "compare_digits (digit_vals (concat (map snd v))) (digit_vals (concat (map snd w))) = 0"
    if "version_text v = version_text w"
    using get_digits_version [OF assms(1)] get_digits_version [OF assms(2)] that by (metis Inr_inject compare_digits_same)
  with cmp get_digits_version [OF assms(1)] get_digits_version [OF assms(2)] show ?thesis
    by (auto simp: version_check_def)
qed

theorem version_check_numeric_witness:
  "version_check (PStr (version_text [([], ''2''), (''.'', ''0''), (''.'', ''0''), (''-'', ''428'')]))
     (PStr (version_text [([], ''2''), (''.'', ''0''), (''.'', ''0''), (''-'', ''430'')])) = Inr (-1)"
proof -
  have "version_ok [([], ''2''), (''.'', ''0''), (''.'', ''0''), (''-'', ''428'')]"
    "version_ok [([], ''2''), (''.'', ''0''), (''.'', ''0''), (''-'', ''430'')]" by code_simp+
  then have "version_check (PStr (version_text [([], ''2''), (''.'', ''0''), (''.'', ''0''), (''-'', ''428'')]))
     (PStr (version_text [([], ''2''), (''.'', ''0''), (''.'', ''0''), (''-'', ''430'')])) =
     Inr (compare_numbers (map (\<lambda>a. read_nat (snd a)) [([], ''2''), (''.'', ''0''), (''.'', ''0''), (''-'', ''428'')])
      (map (\<lambda>a. read_nat (snd a)) [([], ''2''), (''.'', ''0''), (''.'', ''0''), (''-'', ''430'')]))"
    by (rule version_check_numeric) simp
  also have "\<dots> = Inr (-1)" by code_simp
  finally show ?thesis .
qed

text \<open>With numbers of different widths the order is wrong: build 1000 counts as older than
  build 428.\<close>

lemma version_check_widths: "version_check (PStr ''2.0.0-1000'') (PStr ''2.0.0-428'') = Inr (-1)"
  by code_simp

section \<open>Compatibility\<close>

text \<open>A version as it is in a file: separators and numbers, without blanks and orders.\<close>

type_synonym version_parts = "(string \<times> string) list"

definition plain_version :: "version_parts \<Rightarrow> bool" where
  "plain_version v \<longleftrightarrow> version_ok v \<and> list_all (\<lambda>c. \<not> is_space c \<and> c \<noteq> CHR ''<'' \<and> c \<noteq> CHR ''>'') (version_text v)"

definition numbers :: "version_parts \<Rightarrow> nat list" where
  "numbers v = map (\<lambda>a. read_nat (snd a)) v"

definition widths :: "version_parts \<Rightarrow> nat list" where
  "widths v = map (\<lambda>a. length (snd a)) v"

definition older :: "version_parts \<Rightarrow> version_parts \<Rightarrow> bool" where
  "older v w \<longleftrightarrow> (numbers v, numbers w) \<in> lexord less_than"

lemma compare_numbers_lexord: "length ms = length ns \<Longrightarrow> compare_numbers ms ns = -1 \<longleftrightarrow> (ms, ns) \<in> lexord less_than"
  by (induction ms ns rule: compare_numbers.induct) auto

lemma version_check_older:
  assumes "plain_version v" "plain_version w" "widths v = widths w"
  shows "\<exists>r. version_check (PStr (version_text v)) (PStr (version_text w)) = Inr r \<and> (r = -1 \<longleftrightarrow> older v w)"
proof -
  have "length (numbers v) = length (numbers w)" using arg_cong [OF assms(3), of length] by (simp add: widths_def numbers_def)
  with assms version_check_numeric [of v w] compare_numbers_lexord [of "numbers v" "numbers w"] show ?thesis
    by (simp add: plain_version_def widths_def numbers_def older_def)
qed

text \<open>A rule names a package, the lowest version and perhaps the highest.\<close>

type_synonym update_rule = "string \<times> version_parts \<times> version_parts option"

definition clause_text :: "update_rule \<Rightarrow> string" where
  "clause_text r = (case r of (package, low, high) \<Rightarrow> package @ '' >= '' @ version_text low @
     (case high of None \<Rightarrow> [] | Some h \<Rightarrow> '' <= '' @ version_text h))"

definition rule_ok :: "update_rule \<Rightarrow> bool" where
  "rule_ok r \<longleftrightarrow> fst r \<in> fst ` set component_name_map \<and> plain_version (fst (snd r)) \<and>
     (case snd (snd r) of None \<Rightarrow> True | Some h \<Rightarrow> plain_version h)"

text \<open>The lowest version of the first rule about a component.\<close>

definition rule_for :: "update_rule list \<Rightarrow> string \<Rightarrow> version_parts option" where
  "rule_for rules component = map_option (\<lambda>r. fst (snd r)) (find (\<lambda>r. map_of component_name_map (fst r) = Some component) rules)"

lemma cut_at_skip: "c \<notin> set a \<Longrightarrow> cut_at (c # sep) (a @ t) = map_option (\<lambda>(x, y). (a @ x, y)) (cut_at (c # sep) t)"
  by (induction a) (auto simp: starts_with_def option.map_comp o_def split_def option.map_ident)

lemma split_first:
  assumes "c \<notin> set a"
  shows "split_str (c # sep) (a @ (c # sep) @ b) = a # split_str (c # sep) b" "split_str (c # sep) a = [a]"
proof -
  have "cut_at (c # sep) ((c # sep) @ b) = Some ([], b)" by (simp add: starts_with_def)
  then have "cut_at (c # sep) (a @ (c # sep) @ b) = Some (a, b)" using cut_at_skip [OF assms, of sep "(c # sep) @ b"] by simp
  then show "split_str (c # sep) (a @ (c # sep) @ b) = a # split_str (c # sep) b" by (subst split_str.simps) simp
  have "cut_at (c # sep) a = None" using cut_at_skip [OF assms, of sep "[]"] by (simp add: starts_with_def)
  then show "split_str (c # sep) a = [a]" by (subst split_str.simps) simp
qed

lemma version_strip: "plain_version v \<Longrightarrow> py_strip ('' '' @ version_text v) = version_text v"
    "plain_version v \<Longrightarrow> py_strip ('' '' @ version_text v @ '' '') = version_text v"
proof -
  have sp: "is_space (CHR '' '')" by code_simp
  assume "plain_version v"
  then have "\<forall>c \<in> set (version_text v). \<not> is_space c" by (auto simp: plain_version_def list_all_iff)
  then have id: "py_strip (version_text v) = version_text v"
    by (intro py_strip_id) (metis hd_in_set last_in_set)
  with sp show "py_strip ('' '' @ version_text v) = version_text v" by simp
  from sp have "py_strip ('' '' @ version_text v @ '' '') = py_strip (version_text v @ '' '')" by simp
  also have "\<dots> = version_text v" using sp id py_strip_trail [of "CHR '' ''" "version_text v"] by simp
  finally show "py_strip ('' '' @ version_text v @ '' '') = version_text v" .
qed

lemma package_plain: "package \<in> fst ` set component_name_map \<Longrightarrow> CHR ''>'' \<notin> set package \<and> py_strip package = package"
proof -
  have "list_all (\<lambda>x. CHR ''>'' \<notin> set (fst x) \<and> py_strip (fst x) = fst x) component_name_map" by code_simp
  then show "package \<in> fst ` set component_name_map \<Longrightarrow> ?thesis" by (auto simp: list_all_iff)
qed

lemma clause_parts:
  assumes "rule_ok r"
  shows "\<exists>rest. split_str ''>='' (clause_text r) = (fst r @ '' '') # rest # [] \<and> py_strip (hd (split_str ''<='' rest)) = version_text (fst (snd r))"
proof -
  obtain package low high where r: "r = (package, low, high)" by (cases r) auto
  define rest where "rest = '' '' @ version_text low @ (case high of None \<Rightarrow> [] | Some h \<Rightarrow> '' <= '' @ version_text h)"
  have c: "clause_text r = (package @ '' '') @ ''>='' @ rest" by (simp add: clause_text_def r rest_def)
  have p: "CHR ''>'' \<notin> set (package @ '' '')" using assms package_plain by (auto simp: rule_ok_def r)
  have v: "plain_version low" "case high of None \<Rightarrow> True | Some h \<Rightarrow> plain_version h" using assms by (simp_all add: rule_ok_def r)
  have pv: "CHR ''>'' \<notin> set (version_text w)" "CHR ''<'' \<notin> set (version_text w)" if "plain_version w" for w
    using that by (auto simp: plain_version_def list_all_iff)
  have n: "CHR ''>'' \<notin> set rest" using v pv(1) by (cases high) (simp_all add: rest_def)
  have "split_str ''>='' (clause_text r) = (package @ '' '') # [rest]"
    unfolding c by (simp only: split_first(1) [OF p] split_first(2) [OF n])
  moreover have low: "CHR ''<'' \<notin> set ('' '' @ version_text low)" "CHR ''<'' \<notin> set ('' '' @ version_text low @ '' '')"
    using pv(2) [OF v(1)] by simp_all
  have "py_strip (hd (split_str ''<='' rest)) = version_text low"
  proof (cases high)
    case None
    then have "rest = '' '' @ version_text low" by (simp add: rest_def)
    then show ?thesis by (simp only: split_first(2) [OF low(1)] list.sel version_strip(1) [OF v(1)])
  next
    case (Some h)
    then have "rest = ('' '' @ version_text low @ '' '') @ ''<='' @ ('' '' @ version_text h)" by (simp add: rest_def)
    then show ?thesis by (simp only: split_first(1) [OF low(2)] list.sel version_strip(2) [OF v(1)])
  qed
  ultimately show ?thesis by (simp add: r)
qed

lemma clause_parse:
  assumes "rule_ok r"
  shows "parse_version (clause_text r) ''UPGRADE'' = Inr (fst r, PStr (version_text (fst (snd r))))" "clause_name (clause_text r) = fst r"
proof -
  have up: "map to_upper ''UPGRADE'' = ''UPGRADE''" "is_space (CHR '' '')" by code_simp+
  have n: "py_strip (fst r @ '' '') = fst r" using assms package_plain [of "fst r"] up(2) by (simp add: rule_ok_def)
  with clause_parts [OF assms] up(1) show "parse_version (clause_text r) ''UPGRADE'' = Inr (fst r, PStr (version_text (fst (snd r))))"
    "clause_name (clause_text r) = fst r" by (auto simp: parse_version_def clause_name_def)
qed

lemma rule_component: "rule_ok r \<Longrightarrow> \<exists>m. map_of component_name_map (fst r) = Some m"
  unfolding rule_ok_def by (metis map_of_eq_None_iff option.exhaust)

lemma clauses_valid: "list_all rule_ok rules \<Longrightarrow> validate_clauses (map clause_text rules)"
proof -
  assume "list_all rule_ok rules"
  then have "map_of component_name_map (clause_name (clause_text r)) \<noteq> None \<and> \<not> length (split_str ''>='' (clause_text r)) < 1"
    if "r \<in> set rules" for r
    using that clause_parse(2) [of r] rule_component [of r] clause_parts [of r] by (auto simp: list_all_iff)
  then show ?thesis by (simp add: validate_clauses_def list_all_iff)
qed

lemma check_component_rule:
  assumes "list_all rule_ok rules" "plain_version v" "\<forall>w. rule_for rules c = Some w \<longrightarrow> widths v = widths w"
  shows "check_component (map clause_text rules) (PStr c) (PStr (version_text v)) = Inr (map_option (older v) (rule_for rules c))"
  using assms(1,3)
proof (induction rules)
  case (Cons r rules)
  have ok: "rule_ok r" using Cons.prems(1) by simp
  then obtain m where m: "map_of component_name_map (fst r) = Some m" using rule_component by blast
  show ?case
  proof (cases "m = c")
    case True
    then have f: "rule_for (r # rules) c = Some (fst (snd r))" using m by (simp add: rule_for_def)
    have "plain_version (fst (snd r))" using ok by (simp add: rule_ok_def)
    from version_check_older [OF assms(2) this] Cons.prems(2) f True m clause_parse(1) [OF ok] show ?thesis by auto
  next
    case False
    then have f: "rule_for (r # rules) c = rule_for rules c" using m by (simp add: rule_for_def)
    with Cons False m clause_parse(1) [OF ok] show ?thesis by simp
  qed
qed (simp add: rule_for_def)

text \<open>The installed components and their versions, as get_installed_version gives them.\<close>

definition installed :: "(string \<times> version_parts) list \<Rightarrow> (pyval \<times> pyval) list" where
  "installed inst = map (\<lambda>(c, v). (PStr c, PStr (version_text v))) inst"

definition too_old :: "update_rule list \<Rightarrow> string \<times> version_parts \<Rightarrow> bool" where
  "too_old rules x \<longleftrightarrow> (\<exists>low. rule_for rules (fst x) = Some low \<and> older (snd x) low)"

text \<open>A version and the bound it is compared with have numbers of the same widths.\<close>

definition comparable :: "update_rule list \<Rightarrow> string \<times> version_parts \<Rightarrow> bool" where
  "comparable rules x \<longleftrightarrow> plain_version (snd x) \<and> (\<forall>low. rule_for rules (fst x) = Some low \<longrightarrow> widths (snd x) = widths low)"

lemma check_installed_rules:
  assumes "list_all rule_ok rules" "list_all (comparable rules) inst"
  shows "check_installed (map clause_text rules) (installed inst) n = Inr (if list_ex (too_old rules) inst then None
     else Some (n + length (filter (\<lambda>x. rule_for rules (fst x) \<noteq> None) inst)))"
  using assms(2)
proof (induction inst arbitrary: n)
  case (Cons x inst)
  obtain c v where x: "x = (c, v)" by fastforce
  have "check_component (map clause_text rules) (PStr c) (PStr (version_text v)) = Inr (map_option (older v) (rule_for rules c))"
    by (rule check_component_rule [OF assms(1)]) (use Cons.prems in \<open>simp_all add: comparable_def x\<close>)
  moreover have "list_all (comparable rules) inst" using Cons.prems by simp
  ultimately show ?case using Cons.IH [of n] Cons.IH [of "Suc n"]
    by (cases "rule_for rules c"; cases "older v (the (rule_for rules c))") (simp_all add: installed_def x too_old_def)
qed (simp add: installed_def)

text \<open>Claim C30. An update whose rules name packages and versions, written \<open>package >= low\<close> or \<open>package >= low <= high\<close>,
  is answered for a node so: False if the installed version of some component is older than the
  lowest version of the first rule about it, in the order of their numbers from left to right;
  otherwise EINVAL if some installed component has no rule, and True if each has one. This holds as long
  as each version and its bound have numbers of the same widths. It fails for others: the build 1000 is
  refused where 428 is demanded (\<open>version_check_widths\<close>), against the documentation. The highest version of a rule
  is not looked at.\<close>

theorem version_compatible:
  assumes "resource_type \<noteq> ''cluster''" "list_all rule_ok rules" "list_all (comparable rules) inst"
    and "get_installed_version P B cf rid (py_strip url) = (cf', Inr (Some (installed inst)))"
  shows "is_version_compatible P B cf (Some url) resource_type rid (map clause_text rules) = (cf',
     if \<exists>(c, v) \<in> set inst. \<exists>low. rule_for rules c = Some low \<and> older v low then Inr False
     else if \<exists>(c, v) \<in> set inst. rule_for rules c = None then Inl (SetupError EINVAL) else Inr True)"
proof -
  let ?n = "length (filter (\<lambda>x. rule_for rules (fst x) \<noteq> None) inst)"
  have e: "(\<exists>(c, v) \<in> set inst. \<exists>low. rule_for rules c = Some low \<and> older v low) \<longleftrightarrow> list_ex (too_old rules) inst"
    by (simp add: list_ex_iff too_old_def split_beta)
  have n: "?n \<noteq> length inst \<longleftrightarrow> (\<exists>(c, v) \<in> set inst. rule_for rules c = None)"
  proof
    assume "?n \<noteq> length inst"
    then have "filter (\<lambda>x. rule_for rules (fst x) \<noteq> None) inst \<noteq> inst" by metis
    then show "\<exists>(c, v) \<in> set inst. rule_for rules c = None" by (auto simp: filter_id_conv)
  next
    assume "\<exists>(c, v) \<in> set inst. rule_for rules c = None"
    then obtain x where "x \<in> set inst" "\<not> rule_for rules (fst x) \<noteq> None" by auto
    then have "?n < length inst" by (rule length_filter_less)
    then show "?n \<noteq> length inst" by simp
  qed
  have "length (installed inst) = length inst" by (simp add: installed_def)
  then have "compatible_with (map clause_text rules) (installed inst) = (if list_ex (too_old rules) inst then Inr False
      else if ?n \<noteq> length inst then Inl (SetupError EINVAL) else Inr True)"
    using check_installed_rules [OF assms(2,3), of 0] by (simp add: compatible_with_def)
  then show ?thesis using assms(1,4) clauses_valid [OF assms(2)] unfolding e n [symmetric]
    by (simp add: is_version_compatible_def Let_def)
qed

definition release_payload :: kv_payload where
  "release_payload = \<lparr>kp_data = PDict [
      (''cluster'', PDict [(''num_storage_set'', PInt 1), (''storage_set'', PList [PDict [(''num_nodes'', PInt 1), (''nodes'', PList [PStr ''n0''])]])]),
      (''node'', PDict [(''n0'', PDict [(''name'', PStr ''host''), (''num_components'', PInt 1),
         (''components'', PList [PDict [(''name'', PStr ''motr''), (''version'', PStr ''2.0.0-430'')]])])]),
      (''cortx'', PDict [(''common'', PDict [(''release'', PDict [(''name'', PStr ''CORTX''), (''version'', PStr ''2.0.0-500'')])])])],
     kp_delim = ''>'', kp_keys = []\<rparr>"

definition release_conf :: "(kv_world, string, kv_payload) conf_class" where
  "release_conf = mapped_sample\<lparr>cf_conf := Some (sample_conf\<lparr>cs_cache := [conf_idx \<mapsto> sample_cache\<lparr>cc_data := release_payload\<rparr>]\<rparr>)\<rparr>"

abbreviation build :: "string \<Rightarrow> version_parts" where
  "build n \<equiv> [([], ''2''), (''.'', ''0''), (''.'', ''0''), (''-'', n)]"

definition release_rules :: "update_rule list" where
  "release_rules = [(''CORTX'', build ''410'', None), (''cortx-motr'', build ''428'', Some (build ''900''))]"

theorem version_compatible_witness:
  "snd (is_version_compatible kv_class (kv_backend no_codecs) release_conf (Some ''json:///a'') ''node'' ''host''
     [''CORTX >= 2.0.0-410'', ''cortx-motr >= 2.0.0-428 <= 2.0.0-900'']) = Inr True"
proof -
  let ?r = "get_installed_version kv_class (kv_backend no_codecs) release_conf ''host'' (py_strip ''json:///a'')"
  let ?inst = "[(''motr'', build ''430''), (''CORTX'', build ''500'')]"
  have "snd ?r = Inr (Some [(PStr ''motr'', PStr ''2.0.0-430''), (PStr ''CORTX'', PStr ''2.0.0-500'')])" by code_simp
  moreover have "installed ?inst = [(PStr ''motr'', PStr ''2.0.0-430''), (PStr ''CORTX'', PStr ''2.0.0-500'')]" by code_simp
  ultimately have i: "?r = (fst ?r, Inr (Some (installed ?inst)))" by (simp add: prod_eq_iff)
  have c: "list_all rule_ok release_rules" "list_all (comparable release_rules) ?inst"
proof -
    have f: "rule_for release_rules ''motr'' = Some (build ''428'')" "rule_for release_rules ''CORTX'' = Some (build ''410'')" by code_simp+
    have "list_all plain_version [build ''410'', build ''428'', build ''430'', build ''500'', build ''900'']" by code_simp
    moreover have "list_all (\<lambda>r. fst r \<in> fst ` set component_name_map) release_rules" by code_simp
    ultimately show "list_all rule_ok release_rules" "list_all (comparable release_rules) ?inst"
      using f by (simp_all add: release_rules_def rule_ok_def comparable_def widths_def)
  qed
  have t: "map clause_text release_rules = [''CORTX >= 2.0.0-410'', ''cortx-motr >= 2.0.0-428 <= 2.0.0-900'']" by code_simp
  have f: "rule_for release_rules ''motr'' = Some (build ''428'')" "rule_for release_rules ''CORTX'' = Some (build ''410'')" by code_simp+
  have o: "\<not> older (build ''430'') (build ''428'')" "\<not> older (build ''500'') (build ''410'')"
    by (simp_all add: older_def numbers_def read_nat_def digit_val_def)
  show ?thesis using version_compatible [OF _ c i, of "''node''"] f o unfolding t by simp
qed

section \<open>Versions of RPM names\<close>

lemma hd_split_skip:
  assumes "c \<notin> set a" "str_in (c # sep) (a @ h # t)"
  shows "\<exists>u. hd (split_str (c # sep) (a @ h # t)) = a @ u \<and> (u = [] \<or> hd u = h)"
proof -
  obtain x y where xy: "cut_at (c # sep) (h # t) = Some (x, y)" "cut_at (c # sep) (a @ h # t) = Some (a @ x, y)"
    using assms(2) cut_at_skip [OF assms(1), of sep "h # t"] by (cases "cut_at (c # sep) (h # t)") (auto simp: str_in_def)
  then have "h # t = x @ (c # sep) @ y" using cut_at_eq by blast
  then have "x = [] \<or> hd x = h" by (cases x) auto
  moreover have "hd (split_str (c # sep) (a @ h # t)) = a @ x" using xy(2) by (subst split_str.simps) simp
  ultimately show ?thesis by blast
qed

lemma cut_suffix_keeps:
  assumes "CHR ''.'' \<notin> set rel" "CHR ''_'' \<notin> set rel"
  shows "\<exists>u. cut_suffix (rel @ CHR ''_'' # t) = rel @ u \<and> (u = [] \<or> hd u = CHR ''_'')"
  using hd_split_skip [OF assms(1), of "''el7''" "CHR ''_''" t] hd_split_skip [OF assms(2), of "''el7''" "CHR ''_''" t]
    hd_split_skip [OF assms(1), of "''noarch''" "CHR ''_''" t] hd_split_skip [OF assms(1), of "''x86_64''" "CHR ''_''" t]
  by (auto simp: cut_suffix_def)

lemma hd_py_split: "hd (py_split c v) = takeWhile (\<lambda>x. x \<noteq> c) v"
  by (induction v) (auto split: list.splits)

lemma str_in_char: "str_in [c] s \<longleftrightarrow> c \<in> set s"
  by (auto simp: str_in_iff in_set_conv_decomp)

text \<open>The loop that drops the hash runs at most once.\<close>

lemma drop_hash_eq: "drop_hash v = takeWhile (\<lambda>x. x \<noteq> CHR ''_'') v"
proof (cases "str_in ''_'' v")
  case True
  have "\<not> str_in ''_'' (takeWhile (\<lambda>x. x \<noteq> CHR ''_'') v)" by (auto simp: str_in_char dest: set_takeWhileD)
  then have "drop_hash (takeWhile (\<lambda>x. x \<noteq> CHR ''_'') v) = takeWhile (\<lambda>x. x \<noteq> CHR ''_'') v" by (subst drop_hash.simps) simp
  with True show ?thesis by (subst drop_hash.simps) (simp add: hd_py_split)
next
  case False
  then have "takeWhile (\<lambda>x. x \<noteq> CHR ''_'') v = v" by (auto simp: str_in_char takeWhile_eq_all_conv)
  moreover have "drop_hash v = v" using False by (subst drop_hash.simps) simp
  ultimately show ?thesis by (simp only:)
qed

definition name_part :: "string \<Rightarrow> bool" where
  "name_part x \<longleftrightarrow> x \<noteq> [] \<and> \<not> py_isdigit (hd x) \<and> CHR ''-'' \<notin> set x"

text \<open>The file name of a package: names, version, release with the git hash, and a suffix.\<close>

definition rpm_file :: "string list \<Rightarrow> string \<Rightarrow> string \<Rightarrow> string \<Rightarrow> string" where
  "rpm_file names ver rel suffix = py_join ''-'' (names @ [ver, rel @ CHR ''_'' # suffix])"

lemma digit_elements_names: "\<forall>x \<in> set names. name_part x \<Longrightarrow> digit_elements (names @ xs) = digit_elements xs"
  by (induction names) (auto simp: name_part_def option.map_ident split: list.splits)

lemma rpm_file_version:
  assumes "\<forall>x \<in> set names. name_part x" "ver \<noteq> []" "py_isdigit (hd ver)" "rel \<noteq> []" "py_isdigit (hd rel)"
    and "set ver \<inter> set ''-_'' = {}" "set rel \<inter> set ''-._'' = {}" "CHR ''-'' \<notin> set suffix"
  shows "\<exists>v. get_rpm_version (PStr (rpm_file names ver rel suffix)) = Inr v \<and> drop_hash v = ver @ ''-'' @ rel"
proof -
  have sp: "py_split (CHR ''-'') (rpm_file names ver rel suffix) = names @ [ver, rel @ CHR ''_'' # suffix]"
    unfolding rpm_file_def by (rule py_split_join) (use assms in \<open>auto simp: name_part_def\<close>)
  have "digit_elements [ver, rel @ CHR ''_'' # suffix] = Some [ver, rel @ CHR ''_'' # suffix]"
    using assms(2-5) by (cases ver; cases rel) auto
  then have "get_rpm_version (PStr (rpm_file names ver rel suffix)) = Inr (ver @ ''-'' @ cut_suffix (rel @ CHR ''_'' # suffix))"
    by (simp add: get_rpm_version_def sp digit_elements_names [OF assms(1)])
  moreover obtain u where u: "cut_suffix (rel @ CHR ''_'' # suffix) = rel @ u" "u = [] \<or> hd u = CHR ''_''"
    using cut_suffix_keeps [of rel suffix] assms(7) by auto
  moreover have "takeWhile (\<lambda>x. x \<noteq> CHR ''_'') (ver @ ''-'' @ rel @ u) = ver @ ''-'' @ rel"
    using assms(6,7) u(2) by (cases u) (auto simp: takeWhile_append2 disjoint_iff)
  ultimately show ?thesis by (simp add: drop_hash_eq)
qed

text \<open>get_component_version always returns, or raises: the loop that cuts the git hash
  ends. For the first package of the manifest that contains the component's name, with a
  file name of the usual form, it returns version and release without the hash.\<close>

lemma component_version:
  assumes "get_val P cf ''COMPONENTS'' = (cf', Inr (PList (map PStr (before @ rpm_file names ver rel suffix # after))))"
    and "\<forall>x \<in> set before. \<not> str_in component x" "str_in component (rpm_file names ver rel suffix)"
    and "\<forall>x \<in> set names. name_part x" "ver \<noteq> []" "py_isdigit (hd ver)" "rel \<noteq> []" "py_isdigit (hd rel)"
    and "set ver \<inter> set ''-_'' = {}" "set rel \<inter> set ''-._'' = {}" "CHR ''-'' \<notin> set suffix"
  shows "get_component_version P cf component = (cf', Inr (ver @ ''-'' @ rel))"
proof -
  let ?rpm = "rpm_file names ver rel suffix"
  have fm: "first_match component (map PStr xs) = Inr (map PStr (filter (str_in component) xs))" for xs
    by (induction xs) auto
  have "filter (str_in component) (before @ ?rpm # after) = ?rpm # filter (str_in component) after"
    using assms(2,3) by simp
  then have "get_rpm_from_list component (PList (map PStr (before @ ?rpm # after))) = Inr (PStr ?rpm)"
    unfolding get_rpm_from_list_def py_iter.simps err_bind.simps fm by simp
  then show ?thesis using assms(1) rpm_file_version [OF assms(4-11)]
    by (auto simp: get_component_version_def)
qed

definition manifest_conf :: "(kv_world, string, kv_payload) conf_class" where
  "manifest_conf = mapped_sample\<lparr>cf_conf := Some (sample_conf\<lparr>cs_cache := [manifest_idx \<mapsto> sample_cache\<lparr>cc_data :=
     \<lparr>kp_data = PDict [(''COMPONENTS'', PList [PStr ''cortx-ha-2.0.0-1_aa.noarch.rpm'', PStr ''cortx-motr-2.0.0-438_b3c8.el7.x86_64.rpm''])],
       kp_delim = ''>'', kp_keys = []\<rparr>\<rparr>]\<rparr>)\<rparr>"

theorem component_version_witness:
  "snd (get_component_version kv_class manifest_conf ''motr'') = Inr (''2.0.0'' @ ''-'' @ ''438'')"
proof -
  have f: "rpm_file [''cortx'', ''motr''] ''2.0.0'' ''438'' ''b3c8.el7.x86_64.rpm'' = ''cortx-motr-2.0.0-438_b3c8.el7.x86_64.rpm''"
    by code_simp
  have "snd (get_val kv_class manifest_conf ''COMPONENTS'') =
      Inr (PList [PStr ''cortx-ha-2.0.0-1_aa.noarch.rpm'', PStr ''cortx-motr-2.0.0-438_b3c8.el7.x86_64.rpm''])" by code_simp
  then have "get_val kv_class manifest_conf ''COMPONENTS'' = (fst (get_val kv_class manifest_conf ''COMPONENTS''),
      Inr (PList (map PStr ([''cortx-ha-2.0.0-1_aa.noarch.rpm''] @
        rpm_file [''cortx'', ''motr''] ''2.0.0'' ''438'' ''b3c8.el7.x86_64.rpm'' # []))))"
    by (simp add: f prod_eq_iff)
  note g = this
  have "\<forall>x \<in> set [''cortx-ha-2.0.0-1_aa.noarch.rpm'']. \<not> str_in ''motr'' x"
    "str_in ''motr'' (rpm_file [''cortx'', ''motr''] ''2.0.0'' ''438'' ''b3c8.el7.x86_64.rpm'')"
    "\<forall>x \<in> set [''cortx'', ''motr'']. name_part x" "py_isdigit (hd ''2.0.0'')" "py_isdigit (hd ''438'')" by code_simp+
  note h = this
  have "get_component_version kv_class manifest_conf ''motr'' =
      (fst (get_val kv_class manifest_conf ''COMPONENTS''), Inr (''2.0.0'' @ ''-'' @ ''438''))"
    by (rule component_version [OF g h(1,2,3) _ h(4) _ h(5)]) simp_all
  then show ?thesis by simp
qed

end
