(* ===== verification/JsonDumps.thy ===== *)
theory JsonDumps
  imports Json
begin

text \<open>
  \<open>json.dumps\<close> without indentation, and that \<open>json.loads\<close> reads its text back
  (\<open>json_load_dumps\<close>).
\<close>

text \<open>\<open>json.dumps\<close> without indentation.\<close>

function (sequential) json_dumps :: "pyval \<Rightarrow> string" where
  "json_dumps PNone = ''null''"
| "json_dumps (PBool b) = (if b then ''true'' else ''false'')"
| "json_dumps (PInt i) = show_int i"
| "json_dumps (PFloat r) = show_rat r"
| "json_dumps (PStr s) = json_string s"
| "json_dumps (PList xs) = CHR ''['' # py_join '', '' (map json_dumps xs) @ '']''"
| "json_dumps (PDict d) = CHR ''{'' # py_join '', '' (map (\<lambda>(k, v). json_string k @ '': '' @ json_dumps v) d) @ ''}''"
  by pat_completeness auto
termination
proof (relation "measure size", goal_cases)
  case (3 d x xa y)
  have "size y < Suc (size_list (size_prod (\<lambda>_. 0) size) d)"
    using size_list_estimation' [of x d "size y" "size_prod (\<lambda>_. 0) size"] 3 by (cases x) auto
  then show ?case by simp
qed (auto simp: size_list_estimation' less_Suc_eq_le)

lemma dumps_hd:
  assumes "json_ok v"
  obtains c t where "json_dumps v = c # t" "\<not> json_space c" "c \<noteq> CHR '']''"
proof (cases v)
  case (PInt i)
  obtain c t where "show_int i = c # t" "is_digit c \<or> c = CHR ''-''" using show_int_hd by blast
  moreover then have "\<not> json_space c" "c \<noteq> CHR '']''" by (auto simp: json_space_def is_digit_def)
  ultimately show ?thesis using that [of c t] PInt by simp
next
  case (PFloat r)
  obtain c t where "show_rat r = c # t" "is_digit c \<or> c = CHR ''-''" using show_rat_hd by blast
  moreover then have "\<not> json_space c" "c \<noteq> CHR '']''" by (auto simp: json_space_def is_digit_def)
  ultimately show ?thesis using that [of c t] PFloat by simp
next
  case (PBool b)
  then show ?thesis using that by (cases b) (auto simp: json_space_def)
qed (use assms that in \<open>auto simp: json_string_def json_space_def split: if_splits\<close>)

lemma skip_dumps: "json_ok v \<Longrightarrow> skip_ws (json_dumps v @ r) = json_dumps v @ r"
  by (rule dumps_hd [of v]) simp_all

lemma json_ok_list_all: "json_ok_list xs \<longleftrightarrow> (\<forall>x \<in> set xs. json_ok x)"
  by (induction xs) auto

lemma json_ok_dict_all: "json_ok_dict d \<longleftrightarrow> (\<forall>(k, v) \<in> set d. json_ok v)"
  by (induction d) auto

text \<open>What follows the opening bracket of a list or a dict that is not empty.\<close>

lemma dumps_items:
  assumes "\<And>x n r. x \<in> set xs \<Longrightarrow> sep_ok r \<Longrightarrow> length (json_dumps x) \<le> n \<Longrightarrow> jp_value n (json_dumps x @ r) = Some (x, r)"
    and "\<forall>x \<in> set xs. json_ok x" "xs \<noteq> []" "length (py_join '', '' (map json_dumps xs)) < n"
  shows "jp_items n (py_join '', '' (map json_dumps xs) @ CHR '']'' # r) acc = Some (PList (acc @ xs), r)"
  using assms
proof (induction xs arbitrary: n acc)
  case (Cons x xs)
  obtain m where n: "n = Suc m" using Cons.prems(4) by (cases n) auto
  show ?case
  proof (cases xs)
    case Nil
    have "jp_value m (json_dumps x @ CHR '']'' # r) = Some (x, CHR '']'' # r)"
      using Cons.prems(1) [of x "CHR '']'' # r" m] Cons.prems(4) Nil n by (simp add: sep_ok_def)
    then show ?thesis using Nil n by simp
  next
    case (Cons y ys)
    let ?t = "py_join '', '' (map json_dumps xs) @ CHR '']'' # r"
    have "jp_value m (json_dumps x @ CHR '','' # CHR '' '' # ?t) = Some (x, CHR '','' # CHR '' '' # ?t)"
      using Cons.prems(1) [of x "CHR '','' # CHR '' '' # ?t" m] Cons.prems(4) Cons n by simp
    moreover have "jp_items m ?t (acc @ [x]) = Some (PList ((acc @ [x]) @ xs), r)"
      by (rule Cons.IH) (use Cons.prems Cons n in auto)
    moreover have "skip_ws ?t = ?t" using Cons Cons.prems(2) skip_dumps [of y] by (cases ys) auto
    ultimately show ?thesis using Cons n by simp
  qed
qed simp

lemma dumps_members:
  assumes "\<And>k x n r. (k, x) \<in> set d \<Longrightarrow> sep_ok r \<Longrightarrow> length (json_dumps x) \<le> n \<Longrightarrow> jp_value n (json_dumps x @ r) = Some (x, r)"
    and "\<forall>(k, x) \<in> set d. json_ok x" "d \<noteq> []" "distinct (map fst (e @ d))"
    and "length (py_join '', '' (map (\<lambda>(k, v). json_string k @ '': '' @ json_dumps v) d)) < n"
  shows "jp_members n (py_join '', '' (map (\<lambda>(k, v). json_string k @ '': '' @ json_dumps v) d) @ CHR ''}'' # r) e = Some (PDict (e @ d), r)"
  using assms
proof (induction d arbitrary: n e)
  case (Cons kx d)
  obtain k x where kx: "kx = (k, x)" by (cases kx)
  obtain m where n: "n = Suc m" using Cons.prems(5) by (cases n) auto
  have up: "AList.update k x e = e @ [(k, x)]" using Cons.prems(4) kx by (intro AList_update_new) auto
  have ok: "json_ok x" using Cons.prems(2) kx by simp
  have len: "length (json_dumps x) \<le> m" using Cons.prems(5) kx n by (cases d) (auto simp: json_string_def)
  have v: "sep_ok r' \<Longrightarrow> jp_value m (json_dumps x @ r') = Some (x, r')" for r'
    using Cons.prems(1) [of k x r' m] kx len by simp
  have sk: "skip_ws (CHR '' '' # json_dumps x @ r') = json_dumps x @ r'" for r' using skip_dumps [OF ok] by simp
  show ?case
  proof (cases d)
    case Nil
    then show ?thesis using kx n v [of "CHR ''}'' # r"] sk [of "CHR ''}'' # r"] up
      by (simp add: json_string_def jp_string_string sep_ok_def)
  next
    case (Cons y ys)
    let ?t = "py_join '', '' (map (\<lambda>(k, v). json_string k @ '': '' @ json_dumps v) d) @ CHR ''}'' # r"
    have "jp_members m ?t (e @ [(k, x)]) = Some (PDict ((e @ [(k, x)]) @ d), r)"
    proof (rule Cons.IH)
      show "distinct (map fst ((e @ [(k, x)]) @ d))" using Cons.prems(4) kx by auto
      show "length (py_join '', '' (map (\<lambda>(k, v). json_string k @ '': '' @ json_dumps v) d)) < m"
        using Cons.prems(5) Cons kx n by simp
    qed (use Cons.prems Cons in auto)
    moreover have "skip_ws ?t = ?t" using Cons by (cases y; cases ys) auto
    ultimately show ?thesis using Cons kx n v [of "CHR '','' # CHR '' '' # ?t"] sk [of "CHR '','' # CHR '' '' # ?t"] up
      by (simp add: json_string_def jp_string_string)
  qed
qed simp

lemma jp_dumps: "json_ok v \<Longrightarrow> sep_ok r \<Longrightarrow> length (json_dumps v) \<le> n \<Longrightarrow> jp_value n (json_dumps v @ r) = Some (v, r)"
proof (induction v arbitrary: n r rule: json_dumps.induct)
  case 1 then show ?case by (cases n) (simp_all add: jp_literal_def starts_with_def)
next
  case (2 b) then show ?case by (cases n; cases b) (simp_all add: jp_literal_def starts_with_def)
next
  case (3 i) then show ?case
    using show_int_hd [of i] by (cases n) (auto simp: jp_value_int simp del: jp_value.simps(2))
next
  case (4 f) then show ?case
    using show_rat_hd [of f] by (cases n) (auto simp: jp_value_float simp del: jp_value.simps(2))
next
  case (5 s) then show ?case by (cases n) (auto simp: json_string_def jp_string_string)
next
  case (6 xs)
  obtain m where n: "n = Suc m" using 6(4) by (cases n) auto
  show ?case
  proof (cases xs)
    case Nil
    with n show ?thesis by simp
  next
    case (Cons x ys)
    have ok: "\<forall>x \<in> set xs. json_ok x" using 6(2) by (simp add: json_ok_list_all)
    have "jp_items m (py_join '', '' (map json_dumps xs) @ CHR '']'' # r) [] = Some (PList ([] @ xs), r)"
      by (rule dumps_items) (use 6 ok n Cons in auto)
    moreover obtain c t where "json_dumps x = c # t" "\<not> json_space c" "c \<noteq> CHR '']''"
      using dumps_hd [of x] ok Cons by auto
    ultimately show ?thesis using n Cons by (cases ys) auto
  qed
next
  case (7 d)
  obtain m where n: "n = Suc m" using 7(4) by (cases n) auto
  show ?case
  proof (cases d)
    case Nil
    with n show ?thesis by simp
  next
    case (Cons kx ys)
    have ok: "\<forall>(k, x) \<in> set d. json_ok x" "distinct (map fst d)" using 7(2) by (simp_all add: json_ok_dict_all)
    have "jp_members m (py_join '', '' (map (\<lambda>(k, v). json_string k @ '': '' @ json_dumps v) d) @ CHR ''}'' # r) [] = Some (PDict ([] @ d), r)"
    proof (rule dumps_members)
      fix k x n r assume kx: "(k, x) \<in> set d" "sep_ok r" "length (json_dumps x) \<le> n"
      then show "jp_value n (json_dumps x @ r) = Some (x, r)" using 7(1) [of "(k, x)" k x r n] ok by auto
    qed (use 7(4) ok n Cons in auto)
    then show ?thesis using n Cons by (cases kx; cases ys) (auto simp: json_string_def)
  qed
qed

lemma json_load_dumps: "json_ok v \<Longrightarrow> json_load (json_dumps v) = Some v"
  using jp_dumps [of v "[]" "Suc (length (json_dumps v))"] skip_dumps [of v "[]"]
  by (simp add: json_load_def sep_ok_def)

end
