(* ===== verification/ConfCli.thy ===== *)
theory ConfCli
  imports ConfApi Effects JsonDumps
begin

text \<open>
  The command line of the configuration store, src/py-utils/src/utils/conf_store/conf_cli.py, and
  Format of src/py-utils/src/utils/schema/format.py. The arguments are those that argparse
  delivers; the program diff, which the command diff runs in a shell, is the
  parameter \<open>sh\<close>: a command line to its standard output, error output and return code.
\<close>

section \<open>Format\<close>

definition dumped :: "string \<times> pyexc option \<Rightarrow> pyexc + string" where
  "dumped r = (case r of (t, None) \<Rightarrow> Inr t | (_, Some e) \<Rightarrow> Inl e)"

definition Format_dump :: "codecs \<Rightarrow> pyval \<Rightarrow> string \<Rightarrow> pyexc + string" where
  "Format_dump co data format_type =
     (if format_type = ''json'' then Inr (json_dumps data)
      else if format_type = ''toml'' then dumped (co_toml_dump co data)
      else if format_type = ''yaml'' then dumped (co_yaml_dump co data)
      else Inl (PyException ''FormatError''))"

section \<open>ConfCli\<close>

record cli_args =
  ar_args :: "string list"
  ar_kv_delim :: "string option"
  ar_format :: "string option"
  ar_force :: bool
  ar_key_index :: "string option"
  ar_keys :: "string list"
  ar_url2 :: string
  ar_parent_key :: string
  ar_search_key :: string
  ar_search_val :: "string option"

text \<open>\<open>ConfCli._index\<close> and the class Conf.\<close>

record ('b, 'h, 'p) conf_cli =
  cl_index :: string
  cl_conf :: "('b, 'h, 'p) conf_class"

definition on_class :: "('b, 'h, 'p) conf_cli \<Rightarrow> (('b, 'h, 'p) conf_class \<Rightarrow> ('b, 'h, 'p) conf_class \<times> (pyexc + 'a)) \<Rightarrow>
    ('b, 'h, 'p) conf_cli \<times> (pyexc + 'a)" where
  "on_class cl f = (case f (cl_conf cl) of (cf, r) \<Rightarrow> (cl\<lparr>cl_conf := cf\<rparr>, r))"

definition opt_str :: "string option \<Rightarrow> pyval" where
  "opt_str x = (case x of None \<Rightarrow> PNone | Some s \<Rightarrow> PStr s)"

text \<open>\<open>args.args[0]\<close>.\<close>

definition arg0 :: "cli_args \<Rightarrow> pyexc + string" where
  "arg0 args = (case ar_args args of [] \<Rightarrow> Inl IndexError | a # _ \<Rightarrow> Inr a)"

definition cli_init :: "('b, 'h, 'p) backend \<Rightarrow> ('b, 'h, 'p) conf_cli \<Rightarrow> string \<Rightarrow> ('b, 'h, 'p) conf_cli \<times> (pyexc + unit)" where
  "cli_init B cl url = on_class cl (\<lambda>cf. Conf_load B cf (cl_index cl) url (PBool True) [])"

definition cli_load :: "('b, 'h, 'p) backend \<Rightarrow> ('b, 'h, 'p) conf_cli \<Rightarrow> string \<Rightarrow> string \<Rightarrow>
    ('b, 'h, 'p) conf_cli \<times> (pyexc + unit)" where
  "cli_load B cl url index = on_class cl (\<lambda>cf. Conf_load B cf index url (PBool True) [])"

definition cli_add_num_keys :: "'p payload_class \<Rightarrow> ('b, 'h, 'p) backend \<Rightarrow> ('b, 'h, 'p) conf_cli \<Rightarrow>
    ('b, 'h, 'p) conf_cli \<times> (pyexc + unit)" where
  "cli_add_num_keys P B cl = st_bind (on_class cl (\<lambda>cf. Conf_add_num_keys P cf (cl_index cl)))
     (\<lambda>cl _. on_class cl (\<lambda>cf. Conf_save B cf (cl_index cl)))"

definition cli_set_pair :: "'p payload_class \<Rightarrow> string \<Rightarrow> ('b, 'h, 'p) conf_cli \<Rightarrow> string \<Rightarrow>
    ('b, 'h, 'p) conf_cli \<times> (pyexc + unit)" where
  "cli_set_pair P kv_delim cl kv = (case split1 (hd kv_delim) kv of
      (key, Some val) \<Rightarrow> on_class cl (\<lambda>cf. Conf_set P cf (cl_index cl) key (PStr val))
    | (_, None) \<Rightarrow> (cl, Inl (ConfError EINVAL)))"

definition cli_set :: "'p payload_class \<Rightarrow> ('b, 'h, 'p) backend \<Rightarrow> ('b, 'h, 'p) conf_cli \<Rightarrow> cli_args \<Rightarrow>
    ('b, 'h, 'p) conf_cli \<times> (pyexc + unit)" where
  "cli_set P B cl args = (let kv_delim = (case ar_kv_delim args of None \<Rightarrow> ''='' | Some d \<Rightarrow> d) in
     if length kv_delim > 1 \<or> kv_delim \<notin> set ['':'', ''>'', ''.'', ''|'', ''/'', ''=''] then (cl, Inl (ConfError EINVAL))
     else case arg0 args of
       Inl e \<Rightarrow> (cl, Inl e)
     | Inr a \<Rightarrow> st_bind (for_each (cli_set_pair P kv_delim) cl (py_split (CHR '';'') a))
         (\<lambda>cl _. on_class cl (\<lambda>cf. Conf_save B cf (cl_index cl))))"

definition cli_get :: "codecs \<Rightarrow> 'p payload_class \<Rightarrow> ('b, 'h, 'p) conf_cli \<Rightarrow> cli_args \<Rightarrow>
    ('b, 'h, 'p) conf_cli \<times> (pyexc + string)" where
  "cli_get co P cl args = (case ar_args args of
      [] \<Rightarrow> (cl, Inl IndexError)
    | keys # rest \<Rightarrow> (let key_list = py_split (CHR '';'') keys;
          def_val_list = (case rest of [] \<Rightarrow> map (\<lambda>_. PNone) key_list | ds # _ \<Rightarrow> map PStr (py_split (CHR '';'') ds)) in
        if length def_val_list \<noteq> length key_list then (cl, Inl (ConfError EINVAL))
        else st_bind (map_each (\<lambda>cl (key, def_val). on_class cl (\<lambda>cf. Conf_get P cf (cl_index cl) (Some key) def_val))
               cl (zip key_list def_val_list))
          (\<lambda>cl val_list. (cl, Format_dump co (PList val_list)
             (case ar_format args of None \<Rightarrow> ''json'' | Some f \<Rightarrow> f)))))"

text \<open>\<open>key_index.lower().strip()\<close> is 'true' or 'false'.\<close>

definition cli_get_keys :: "'p payload_class \<Rightarrow> ('b, 'h, 'p) conf_cli \<Rightarrow> cli_args \<Rightarrow> string option \<Rightarrow>
    ('b, 'h, 'p) conf_cli \<times> (pyexc + string list)" where
  "cli_get_keys P cl args index = (let key_index = (case ar_key_index args of None \<Rightarrow> ''true'' | Some s \<Rightarrow> py_strip (map to_lower s));
       ix = (case index of None \<Rightarrow> cl_index cl | Some i \<Rightarrow> i) in
     if key_index \<noteq> ''true'' \<and> key_index \<noteq> ''false'' then (cl, Inl (ConfError EINVAL))
     else on_class cl (\<lambda>cf. Conf_get_keys P cf ix (key_index = ''true'')))"

definition diff_command :: "string \<Rightarrow> string \<Rightarrow> string" where
  "diff_command s1 s2 = ''bash -c '' @ [DQ] @ ''diff <(echo '' @ [BSL, DQ] @ s1 @ [BSL, DQ] @ '') <(echo '' @
     [BSL, DQ] @ s2 @ [BSL, DQ] @ '')'' @ [DQ] @ '' ''"

definition diff_output :: "(string \<Rightarrow> string \<times> string \<times> int) \<Rightarrow> string \<Rightarrow> string \<Rightarrow> string" where
  "diff_output sh s1 s2 = (case sh (diff_command s1 s2) of (out, err, rc) \<Rightarrow> if rc = 1 then out else err)"

definition cli_diff :: "(string \<Rightarrow> string \<times> string \<times> int) \<Rightarrow> codecs \<Rightarrow> 'p payload_class \<Rightarrow> ('b, 'h, 'p) backend \<Rightarrow>
    ('b, 'h, 'p) conf_cli \<Rightarrow> cli_args \<Rightarrow> ('b, 'h, 'p) conf_cli \<times> (pyexc + string)" where
  "cli_diff sh co P B cl args0 = (let args = args0\<lparr>ar_format := None\<rparr>; keys_str = (\<lambda>ks. py_str (PList (map PStr ks))) in
     if ar_args args = [] then
       (let args = args\<lparr>ar_key_index := None\<rparr> in
        st_bind (cli_get_keys P cl args None) (\<lambda>cl ks1.
        st_bind (cli_load B cl (ar_url2 args) ''string_diff'') (\<lambda>cl _.
        st_bind (cli_get_keys P cl args (Some ''string_diff'')) (\<lambda>cl ks2.
          (cl, Inr (diff_output sh (keys_str ks1) (keys_str ks2)))))))
     else
       st_bind (cli_get co P cl args) (\<lambda>cl s1.
       st_bind (cli_init B (cl\<lparr>cl_index := ''string_diff''\<rparr>) (ar_url2 args)) (\<lambda>cl _.
       st_bind (cli_get co P cl args) (\<lambda>cl s2. (cl, Inr (diff_output sh s1 s2))))))"

definition cli_merge :: "'p payload_class \<Rightarrow> ('b, 'h, 'p) backend \<Rightarrow> ('b, 'h, 'p) conf_cli \<Rightarrow> cli_args \<Rightarrow>
    ('b, 'h, 'p) conf_cli \<times> (pyexc + unit)" where
  "cli_merge P B cl args =
     st_bind (cli_load B cl (ar_url2 args) ''src_index'') (\<lambda>cl _.
     st_bind (on_class cl (\<lambda>cf. Conf_get_keys P cf ''src_index'' True)) (\<lambda>cl src_keys.
       let keys = (case ar_keys args of [] \<Rightarrow> src_keys | k # _ \<Rightarrow> py_split (CHR '';'') k) in
       if \<not> set keys \<subseteq> set src_keys then (cl, Inl (ConfError ENOENT))
       else st_bind (on_class cl (\<lambda>cf. Conf_merge P cf (cl_index cl) ''src_index'' (Some keys))) (\<lambda>cl _.
         on_class cl (\<lambda>cf. Conf_save B cf (cl_index cl)))))"

definition cli_compare :: "'p payload_class \<Rightarrow> ('b, 'h, 'p) backend \<Rightarrow> ('b, 'h, 'p) conf_cli \<Rightarrow> cli_args \<Rightarrow>
    ('b, 'h, 'p) conf_cli \<times> (pyexc + string set \<times> string set \<times> string list)" where
  "cli_compare P B cl args = st_bind (cli_load B cl (ar_url2 args) ''index2'') (\<lambda>cl _.
     on_class cl (\<lambda>cf. Conf_compare P cf (cl_index cl) ''index2''))"

definition cli_delete :: "'p payload_class \<Rightarrow> ('b, 'h, 'p) backend \<Rightarrow> ('b, 'h, 'p) conf_cli \<Rightarrow> cli_args \<Rightarrow>
    ('b, 'h, 'p) conf_cli \<times> (pyexc + unit)" where
  "cli_delete P B cl args = (case arg0 args of
      Inl e \<Rightarrow> (cl, Inl e)
    | Inr a \<Rightarrow> st_bind (map_each (\<lambda>cl key. on_class cl (\<lambda>cf. Conf_delete P cf (cl_index cl) key (ar_force args)))
          cl (py_split (CHR '';'') a))
        (\<lambda>cl is_deleted. if True \<in> set is_deleted then on_class cl (\<lambda>cf. Conf_save B cf (cl_index cl)) else (cl, Inr ())))"

definition cli_copy :: "'p payload_class \<Rightarrow> ('b, 'h, 'p) backend \<Rightarrow> ('b, 'h, 'p) conf_cli \<Rightarrow> cli_args \<Rightarrow>
    ('b, 'h, 'p) conf_cli \<times> (pyexc + unit)" where
  "cli_copy P B cl args = (let key_list = (case ar_args args of [] \<Rightarrow> None | a # _ \<Rightarrow> Some (py_split (CHR '';'') a)) in
     st_bind (cli_load B cl (ar_url2 args) ''target'') (\<lambda>cl _.
       on_class cl (\<lambda>cf. Conf_copy P cf (cl_index cl) ''target'' key_list True)))"

definition cli_search :: "'p payload_class \<Rightarrow> ('b, 'h, 'p) conf_cli \<Rightarrow> cli_args \<Rightarrow>
    ('b, 'h, 'p) conf_cli \<times> (pyexc + string list)" where
  "cli_search P cl args = on_class cl (\<lambda>cf. Conf_search P cf (cl_index cl) (ar_parent_key args) (ar_search_key args)
     (opt_str (ar_search_val args)))"

section \<open>The commands\<close>

datatype conf_command = GetCmd | DiffCmd | SetCmd | CopyCmd | DeleteCmd | GetsKeysCmd | MergeCmd | CompareCmd
  | SearchCmd | AddNumKeysCmd

datatype cli_out = NoOut | TextOut string | KeysOut "string list"
  | CompareOut "string set" "string set" "string list"

definition st_out :: "('a \<Rightarrow> cli_out) \<Rightarrow> 's \<times> (pyexc + 'a) \<Rightarrow> 's \<times> (pyexc + cli_out)" where
  "st_out f x = st_bind x (\<lambda>s a. (s, Inr (f a)))"

definition run_command :: "(string \<Rightarrow> string \<times> string \<times> int) \<Rightarrow> codecs \<Rightarrow> 'p payload_class \<Rightarrow> ('b, 'h, 'p) backend \<Rightarrow>
    ('b, 'h, 'p) conf_cli \<Rightarrow> conf_command \<Rightarrow> cli_args \<Rightarrow> ('b, 'h, 'p) conf_cli \<times> (pyexc + cli_out)" where
  "run_command sh co P B cl cmd args = (case cmd of
      GetCmd \<Rightarrow> st_out TextOut (cli_get co P cl args)
    | DiffCmd \<Rightarrow> st_out TextOut (cli_diff sh co P B cl args)
    | SetCmd \<Rightarrow> st_out (\<lambda>_. NoOut) (cli_set P B cl args)
    | CopyCmd \<Rightarrow> st_out (\<lambda>_. NoOut) (cli_copy P B cl args)
    | DeleteCmd \<Rightarrow> st_out (\<lambda>_. NoOut) (cli_delete P B cl args)
    | GetsKeysCmd \<Rightarrow> st_out KeysOut (cli_get_keys P cl args None)
    | MergeCmd \<Rightarrow> st_out (\<lambda>_. NoOut) (cli_merge P B cl args)
    | CompareCmd \<Rightarrow> st_out (\<lambda>(n, d, u). CompareOut n d u) (cli_compare P B cl args)
    | SearchCmd \<Rightarrow> st_out KeysOut (cli_search P cl args)
    | AddNumKeysCmd \<Rightarrow> st_out (\<lambda>_. NoOut) (cli_add_num_keys P B cl))"

text \<open>\<open>main\<close>: what is printed, if anything, and the return code.\<close>

definition printed :: "cli_out \<Rightarrow> cli_out option" where
  "printed x = (case x of NoOut \<Rightarrow> None
    | TextOut t \<Rightarrow> if t = [] then None else Some x
    | KeysOut ks \<Rightarrow> if ks = [] then None else Some x
    | CompareOut _ _ _ \<Rightarrow> Some x)"

definition cli_main :: "(string \<Rightarrow> string \<times> string \<times> int) \<Rightarrow> codecs \<Rightarrow> 'p payload_class \<Rightarrow> ('b, 'h, 'p) backend \<Rightarrow>
    ('b, 'h, 'p) conf_class \<Rightarrow> string \<Rightarrow> conf_command \<Rightarrow> cli_args \<Rightarrow> ('b, 'h, 'p) conf_cli \<times> cli_out option \<times> int" where
  "cli_main sh co P B cf url cmd args =
     (case st_bind (cli_init B \<lparr>cl_index = ''conf_cli'', cl_conf = cf\<rparr> url) (\<lambda>cl _. run_command sh co P B cl cmd args) of
        (cl, Inl e) \<Rightarrow> (cl, None, EINVAL)
      | (cl, Inr x) \<Rightarrow> (cl, printed x, 0))"

section \<open>What set has written, get prints\<close>

lemma json_load_fresh:
  assumes fresh: "fresh_conf c fs cf" and url: "urlparse url = Inr (''json'', loc, path)"
    and sok: "doc_sok json_ok json_load c (file_obj path [c] fs)"
    and load: "Conf_load (kv_backend co) cf i url (PBool True) [] = (cf', Inr u)"
  shows "conf_ready c url i cf'" "fa_stores (cs_back (the (cf_conf cf'))) url = Some (JsonObj path [c])"
proof -
  define fs1 where "fs1 = (if fs path = None then fs(path \<mapsto> ''{}'') else fs)"
  let ?w = "\<lparr>fa_stores = [url \<mapsto> JsonObj path [c]], fa_world = fs1\<rparr>"
  have inst: "be_instance (kv_backend co) \<lparr>fa_stores = Map.empty, fa_world = fs\<rparr> url [c] = (?w, Inr url)"
    using url by (auto simp: kv_backend_def get_instance_def kv_table_def json_store_init_def Let_def write_file_def fs1_def)
  let ?cs0 = "\<lparr>cs_delim = [c], cs_cache = Map.empty, cs_callbacks = Map.empty,
     cs_machine_id = get_machine_id (cf_id_file cf), cs_back = cf_back cf\<rparr> :: (kv_world, string, kv_payload) conf_store"
  have ini: "cs_init (cf_back cf) (cf_delim cf) (get_machine_id (cf_id_file cf)) = Inr ?cs0"
    using fresh by (auto simp: cs_init_def fresh_conf_def)
  have fr: "cf_conf cf = None" "cf_delim cf = [c]" "cf_back cf = \<lparr>fa_stores = Map.empty, fa_world = fs\<rparr>"
    using fresh by (auto simp: fresh_conf_def)
  have ld: "be_load (kv_backend co) ?w url True = (?w, snd (json_store_load (file_obj path [c] fs1) True))"
    by (simp add: kv_backend_def kv_obj_load_def)
  note steps = Conf_load_def Conf_init_def on_conf_def cs_load_def cc_init_def exc_result_def Let_def
  obtain q where q: "snd (json_store_load (file_obj path [c] fs1) True) = Inr q"
    using load ini inst ld by (cases "snd (json_store_load (file_obj path [c] fs1) True)") (auto simp: steps fr)
  have cf': "cf_conf cf' = Some (?cs0\<lparr>cs_back := ?w, cs_cache := [i \<mapsto> \<lparr>cc_delim = [c], cc_dirty = False, cc_store = url,
       cc_data = q, cc_recurse = True\<rparr>]\<rparr>)"
    using load ini inst ld q by (auto simp: steps fr)
  have "json_load ''{}'' = Some (PDict [])" by code_simp
  then have sok1: "doc_sok json_ok json_load c (file_obj path [c] fs1)"
    using sok by (auto simp: doc_sok_def fs1_def)
  have "json_store_load (file_obj path [c] fs1) True = (file_obj path [c] fs1, Inr q)"
    using q by (simp add: json_store_load_def)
  then have "doc_inv json_ok c q"
    using js.doc_load_inv [OF sok1] by (simp flip: doc_classes(2)) (simp add: json_class_def)
  then show "conf_ready c url i cf'"
    using cf' sok1 url by (auto simp: conf_ready_def json_bok_def)
  show "fa_stores (cs_back (the (cf_conf cf'))) url = Some (JsonObj path [c])" using cf' by simp
qed

lemma cli_set_pairs:
  assumes "\<forall>(k, v) \<in> set kvs. CHR ''='' \<notin> set k"
  shows "for_each (cli_set_pair P ''='') cl (map (\<lambda>(k, v). k @ CHR ''='' # v) kvs) =
    (let (cf, r) = Conf_sets P (cl_conf cl) (cl_index cl) (map (\<lambda>(k, v). (k, PStr v)) kvs) in (cl\<lparr>cl_conf := cf\<rparr>, r))"
  using assms
proof (induction kvs arbitrary: cl)
  case (Cons kv kvs)
  obtain k v where kv: "kv = (k, v)" by fastforce
  obtain cf1 r where x: "Conf_set P (cl_conf cl) (cl_index cl) k (PStr v) = (cf1, r)" by fastforce
  have "split1 (CHR ''='') (k @ CHR ''='' # v) = (k, Some v)" using Cons.prems kv by (auto intro: split1_sep)
  then show ?case using Cons x
    by (cases r) (simp_all add: kv cli_set_pair_def on_class_def Let_def split: prod.splits)
qed simp

abbreviation plain_args :: "string list \<Rightarrow> cli_args" where
  "plain_args xs \<equiv> \<lparr>ar_args = xs, ar_kv_delim = None, ar_format = None, ar_force = False, ar_key_index = None,
     ar_keys = [], ar_url2 = [], ar_parent_key = [], ar_search_key = [], ar_search_val = None\<rparr>"

definition cli_pairs :: "(string \<times> string) list \<Rightarrow> bool" where
  "cli_pairs kvs \<longleftrightarrow> kvs \<noteq> [] \<and> (\<forall>(k, v) \<in> set kvs. CHR ''='' \<notin> set k \<and> CHR '';'' \<notin> set k \<and> CHR '';'' \<notin> set v) \<and>
     keys_apart (CHR ''>'') (map (\<lambda>(k, v). (k, PStr v)) kvs)"

lemma cli_get_vals:
  fixes cf :: "('b, 'h, kv_payload) conf_class"
  assumes "cf_conf cf = Some cs" "cs_inv (doc_inv json_ok c) cs i" "kvs \<noteq> []"
    and kvs: "\<And>k v. (k, v) \<in> set kvs \<Longrightarrow> CHR '';'' \<notin> set k \<and> plain_key c k \<and> conf_val cf i k = Inr (PStr v)"
  shows "\<exists>cl. cli_get co kv_class \<lparr>cl_index = i, cl_conf = cf\<rparr> (plain_args [py_join '';'' (map fst kvs)]) =
    (cl, Inr (json_dumps (PList (map (PStr \<circ> snd) kvs))))"
proof -
  let ?f = "\<lambda>(cl :: ('b, 'h, kv_payload) conf_cli) (key, def_val).
    on_class cl (\<lambda>cf. Conf_get kv_class cf (cl_index cl) (Some key) def_val)"
  let ?I = "\<lambda>cl. cl_index cl = i \<and> (\<exists>cs'. cf_conf (cl_conf cl) = Some cs' \<and> cs_inv (doc_inv json_ok c) cs' i \<and>
    (\<forall>k. plain_key c k \<longrightarrow> cs_val kv_class cs' i k = cs_val kv_class cs i k))"
  have sp: "py_split (CHR '';'') (py_join '';'' (map fst kvs)) = map fst kvs"
    by (rule py_split_join) (use kvs assms(3) in auto)
  have z: "zip (map fst kvs) (map (\<lambda>_. PNone) kvs) = map (\<lambda>kv. (fst kv, PNone)) kvs"
    by (simp add: zip_map_map zip_same_conv_map)
  have m: "map_each ?f s (map (\<lambda>kv. (fst kv, PNone)) kvs) = map_each (\<lambda>s kv. ?f s (fst kv, PNone)) s kvs" for s
    by (induction kvs arbitrary: s) auto
  have "\<exists>cl. map_each (\<lambda>s kv. ?f s (fst kv, PNone)) \<lparr>cl_index = i, cl_conf = cf\<rparr> kvs = (cl, Inr (map (\<lambda>kv. PStr (snd kv)) kvs)) \<and> ?I cl"
  proof (rule map_each_values [where I = ?I])
    show "?I \<lparr>cl_index = i, cl_conf = cf\<rparr>" using assms(1,2) by auto
  next
    fix cl :: "('b, 'h, kv_payload) conf_cli" and kv assume kv: "kv \<in> set kvs" and inv: "?I cl"
    obtain k v where k: "kv = (k, v)" by fastforce
    obtain cs' where cs': "cf_conf (cl_conf cl) = Some cs'" "cs_inv (doc_inv json_ok c) cs' i" "cl_index cl = i"
      "\<forall>k. plain_key c k \<longrightarrow> cs_val kv_class cs' i k = cs_val kv_class cs i k" using inv by blast
    have "conf_val (cl_conf cl) i k = Inr (PStr v)" using cs' kvs [of k v] kv k assms(1) by simp
    from Conf_get_val [OF cs'(1,2) this, of PNone] obtain cs'' where
      "Conf_get kv_class (cl_conf cl) i (Some k) PNone = ((cl_conf cl)\<lparr>cf_conf := Some cs''\<rparr>, Inr (PStr v))"
      "cs_inv (doc_inv json_ok c) cs'' i" "\<forall>k. plain_key c k \<longrightarrow> cs_val kv_class cs'' i k = cs_val kv_class cs' i k" by auto
    then show "\<exists>s'. ?f cl (fst kv, PNone) = (s', Inr (PStr (snd kv))) \<and> ?I s'"
      using cs' by (intro exI [of _ "cl\<lparr>cl_conf := (cl_conf cl)\<lparr>cf_conf := Some cs''\<rparr>\<rparr>"]) (simp add: k on_class_def)
  qed
  then show ?thesis by (auto simp: cli_get_def sp z m Format_dump_def o_def)
qed

text \<open>Claim C34. After the command set of one process has returned 0, the command get of a process
  that starts afterwards prints the JSON list of the values given and returns 0.\<close>

theorem cli_set_then_get:
  assumes "fresh_conf (CHR ''>'') fs cf" "urlparse url = Inr (''json'', loc, path)"
    and "doc_sok json_ok json_load (CHR ''>'') (file_obj path ''>'' fs)" "cli_pairs kvs"
    and "cli_main sh co kv_class (kv_backend co) cf url SetCmd
      (plain_args [py_join '';'' (map (\<lambda>(k, v). k @ CHR ''='' # v) kvs)]) = (cl1, out, 0)"
    and "fresh_conf (CHR ''>'') (conf_files (cl_conf cl1)) cf2"
  shows "\<exists>cl2. cli_main sh co kv_class (kv_backend co) cf2 url GetCmd (plain_args [py_join '';'' (map fst kvs)]) =
    (cl2, Some (TextOut (json_dumps (PList (map (PStr \<circ> snd) kvs)))), 0)"
proof -
  let ?B = "kv_backend co" and ?i = "''conf_cli''" and ?kvs = "map (\<lambda>(k, v). (k, PStr v)) kvs"
  have p: "\<forall>(k, v) \<in> set kvs. CHR ''='' \<notin> set k" "?kvs \<noteq> []" "keys_apart (CHR ''>'') ?kvs"
    using assms(4) by (auto simp: cli_pairs_def)
  have sp: "py_split (CHR '';'') (py_join '';'' (map (\<lambda>(k, v). k @ CHR ''='' # v) kvs)) = map (\<lambda>(k, v). k @ CHR ''='' # v) kvs"
    by (rule py_split_join) (use assms(4) in \<open>auto simp: cli_pairs_def\<close>)
  obtain cfl u1 where l: "Conf_load ?B cf ?i url (PBool True) [] = (cfl, Inr u1)"
    and "cli_set kv_class ?B \<lparr>cl_index = ?i, cl_conf = cfl\<rparr>
      (plain_args [py_join '';'' (map (\<lambda>(k, v). k @ CHR ''='' # v) kvs)]) = (cl1, Inr ())"
    using assms(5) by (auto simp: cli_main_def run_command_def st_out_def cli_init_def on_class_def st_bind_Inr
        split: prod.splits sum.splits)
  then obtain cfa cf1 u where s: "Conf_sets kv_class cfl ?i ?kvs = (cfa, Inr u)" "Conf_save ?B cfa ?i = (cf1, Inr ())" "cl_conf cl1 = cf1"
    by (auto simp: cli_set_def arg0_def cli_set_pairs [OF p(1)] sp st_bind_Inr on_class_def Let_def split: prod.splits)
  note ready = json_load_fresh [OF assms(1-2) _ l]
  have r: "conf_ready (CHR ''>'') url ?i cfl" "fa_stores (cs_back (the (cf_conf cfl))) url = Some (JsonObj path [CHR ''>''])"
    using ready assms(3) by simp_all
  note st = Conf_sets_step [OF r(1) p(3) s(1)]
  obtain cf3 cs3 where f: "Conf_load ?B cf2 ?i url (PBool True) [] = (cf3, Inr ())" "cf_conf cf3 = Some cs3"
    "cs_inv (doc_inv json_ok (CHR ''>'')) cs3 ?i" "\<forall>k. plain_key (CHR ''>'') k \<longrightarrow> conf_val cf3 ?i k = conf_val cfa ?i k"
    using save_fresh_load [OF _ _ assms(2) _ s(2) _ disjI1 [OF refl], of "CHR ''>''" cf2 ?i] st r(2) p(2) assms(6) s(3) by auto
  have "CHR '';'' \<notin> set k \<and> plain_key (CHR ''>'') k \<and> conf_val cf3 ?i k = Inr (PStr v)" if "(k, v) \<in> set kvs" for k v
    using st that f(4) p(3) assms(4) by (force simp: cli_pairs_def keys_apart_def)
  from cli_get_vals [OF f(2,3) _ this, of kvs co] p(2) obtain cl2 where
    "cli_get co kv_class \<lparr>cl_index = ?i, cl_conf = cf3\<rparr> (plain_args [py_join '';'' (map fst kvs)]) =
      (cl2, Inr (json_dumps (PList (map (PStr \<circ> snd) kvs))))" by auto
  then show ?thesis using f(1)
    by (auto simp: cli_main_def run_command_def st_out_def cli_init_def on_class_def printed_def)
qed

definition new_process :: "file_system \<Rightarrow> (kv_world, string, kv_payload) conf_class" where
  "new_process fs = \<lparr>cf_conf = None, cf_delim = ''>'', cf_machine_id = PNone,
     cf_back = \<lparr>fa_stores = Map.empty, fa_world = fs\<rparr>, cf_id_file = Some ''id''\<rparr>"

lemma fresh_new_process: "fresh_conf (CHR ''>'') fs (new_process fs)"
  by (simp add: fresh_conf_def new_process_def)

definition quiet_shell :: "string \<Rightarrow> string \<times> string \<times> int" where
  "quiet_shell cmd = ([], [], 0)"

abbreviation cli_set_sample :: "(kv_world, string, kv_payload) conf_cli \<times> cli_out option \<times> int" where
  "cli_set_sample \<equiv> cli_main quiet_shell no_codecs kv_class (kv_backend no_codecs) (new_process Map.empty) ''json:///a''
     SetCmd (plain_args [py_join '';'' (map (\<lambda>(k, v). k @ CHR ''='' # v) [(''b>c'', ''1''), (''z'', ''v=w'')])])"

theorem cli_set_then_get_witness:
  "\<exists>cl2. cli_main quiet_shell no_codecs kv_class (kv_backend no_codecs) (new_process (conf_files (cl_conf (fst cli_set_sample))))
     ''json:///a'' GetCmd (plain_args [py_join '';'' (map fst [(''b>c'', ''1''), (''z'', ''v=w'')])]) =
    (cl2, Some (TextOut (json_dumps (PList (map (PStr \<circ> snd) [(''b>c'', ''1''), (''z'', ''v=w'')])))), 0)"
proof (rule cli_set_then_get)
  show "fresh_conf (CHR ''>'') Map.empty (new_process Map.empty)" by (rule fresh_new_process)
  show "urlparse ''json:///a'' = Inr (''json'', [], ''/a'')" by code_simp
  show "doc_sok json_ok json_load (CHR ''>'') (file_obj ''/a'' ''>'' Map.empty)" by (simp add: doc_sok_def)
  show "cli_pairs [(''b>c'', ''1''), (''z'', ''v=w'')]" by code_simp
  have "snd (snd cli_set_sample) = 0" by code_simp
  then show "cli_set_sample = (fst cli_set_sample, fst (snd cli_set_sample), 0)" by (simp add: prod_eq_iff)
qed (rule fresh_new_process)

section \<open>The command copy\<close>

text \<open>Copying changes the cached configuration and no store.\<close>

lemma copy_keys_back: "cs_back (fst (copy_keys P cs src dst ks)) = cs_back cs"
proof (induction ks arbitrary: cs)
  case (Cons k ks)
  have "cs_back (fst (copy_key P cs src dst k)) = cs_back cs"
    by (auto simp: copy_key_def on_index_def split: prod.splits option.splits sum.splits)
  then show ?case using Cons by (auto split: prod.splits sum.splits)
qed simp

lemma cs_copy_back: "cs_back (fst (cs_copy P cs src dst ks r)) = cs_back cs"
  by (auto simp: cs_copy_def cs_get_keys_def on_index_def copy_keys_back split: prod.splits option.splits sum.splits)

definition files_now :: "(kv_world, string, kv_payload) conf_class \<Rightarrow> file_system" where
  "files_now cf = fa_world (case cf_conf cf of None \<Rightarrow> cf_back cf | Some cs \<Rightarrow> cs_back cs)"

lemma fst_exc_result [simp]: "fst (exc_result x) = fst x"
  by (simp add: exc_result_def split: prod.splits option.splits)

lemma on_conf_files:
  assumes "\<And>cs. cf_conf cf = Some cs \<Longrightarrow> fa_world (cs_back (fst (f cs))) = fa_world (cs_back cs)"
  shows "files_now (fst (on_conf cf f)) = files_now cf"
  using assms by (cases "cf_conf cf") (auto simp: on_conf_def files_now_def split: prod.splits)

lemma on_class_conf [simp]: "cl_conf (fst (on_class cl f)) = fst (f (cl_conf cl))" "cl_index (fst (on_class cl f)) = cl_index cl"
  by (simp_all add: on_class_def split: prod.splits)

text \<open>A URL of a JSON file that is there: loading it writes nothing.\<close>

definition json_file_url :: "file_system \<Rightarrow> string \<Rightarrow> bool" where
  "json_file_url fs url \<longleftrightarrow> (\<exists>loc path. urlparse url = Inr (''json'', loc, path) \<and> fs path \<noteq> None)"

lemma load_writes_nothing:
  assumes "json_file_url (files_now cf) url"
  shows "files_now (fst (Conf_load (kv_backend co) cf i url r kw)) = files_now cf"
proof -
  have inst: "fa_world (fst (be_instance (kv_backend co) b url d)) = fa_world b" if "fa_world b = files_now cf" for b d
    using assms that
    by (auto simp: kv_backend_def get_instance_def kv_table_def json_store_init_def Let_def json_file_url_def)
  have ld: "fa_world (fst (be_load (kv_backend co) b h x)) = fa_world b" for b h x
    by (simp add: kv_backend_def kv_obj_load_def)
  have cc: "fa_world (fst (cc_init (kv_backend co) b h d x)) = fa_world b" for b h d x
    using ld [of b h x] by (auto simp: cc_init_def split: prod.splits sum.splits)
  have cs: "fa_world (cs_back (fst (cs_load (kv_backend co) cs i url kw))) = fa_world (cs_back cs)"
    if w: "fa_world (cs_back cs) = files_now cf" for cs kw
  proof -
    obtain cb a where k: "load_kwargs i kw \<lparr>la_fail = PBool True, la_skip = PBool False, la_recurse = PBool True\<rparr> (cs_callbacks cs) = (cb, a)"
      by fastforce
    obtain b1 h where i1: "be_instance (kv_backend co) (cs_back cs) url (cs_delim cs) = (b1, h)" by fastforce
    have b1: "fa_world b1 = fa_world (cs_back cs)" using inst [OF w, of "cs_delim cs"] i1 by simp
    have "fa_world b2 = fa_world b1" if "cc_init (kv_backend co) b1 h' d x = (b2, y)" for h' d x b2 y
      using cc [of b1 h' d x] that by simp
    then show ?thesis by (auto simp: cs_load_def k i1 Let_def b1 split: prod.splits sum.splits)
  qed
  have ini: "files_now (fst (Conf_init cf [])) = files_now cf"
    by (auto simp: Conf_init_def files_now_def cs_init_def split: option.splits)
  have "files_now (fst (on_conf cf' (\<lambda>cs. exc_result (cs_load (kv_backend co) cs i url kw')))) = files_now cf"
    if "files_now cf' = files_now cf" for cf' kw'
    using that cs by (subst on_conf_files) (auto simp: files_now_def)
  with ini show ?thesis
    by (auto simp: Conf_load_def split: prod.splits sum.splits)
qed

text \<open>The command copy writes no file: when the files of both URLs are there, all files
  are after it, whether it succeeds or fails, as they were before.\<close>

lemma cli_copy_writes_nothing:
  assumes "fresh_conf c fs cf" "json_file_url fs url" "json_file_url fs (ar_url2 args)"
  shows "files_now (cl_conf (fst (cli_main sh co kv_class (kv_backend co) cf url CopyCmd args))) = fs"
proof -
  have fs: "files_now cf = fs" using assms(1) by (simp add: files_now_def fresh_conf_def)
  have l: "files_now (cl_conf (fst (cli_load (kv_backend co) cl u i))) = fs"
    if "files_now (cl_conf cl) = fs" "json_file_url fs u" for cl u i
    using that by (simp add: cli_load_def load_writes_nothing)
  have c: "files_now (fst (Conf_copy kv_class cf i j ks r)) = files_now cf" for cf i j ks r
    by (simp add: Conf_copy_def on_conf_files cs_copy_back)
  have b: "files_now (cl_conf (fst (st_bind x f))) = fs"
    if "files_now (cl_conf (fst x)) = fs" "\<And>cl a. files_now (cl_conf cl) = fs \<Longrightarrow> files_now (cl_conf (fst (f cl a))) = fs"
    for x :: "(kv_world, string, kv_payload) conf_cli \<times> (pyexc + 'x)" and f :: "_ \<Rightarrow> 'x \<Rightarrow> _ \<times> (pyexc + 'y)"
    using that by (auto simp: st_bind_def split: prod.splits sum.splits)
  have "files_now (cl_conf (fst (cli_init (kv_backend co) \<lparr>cl_index = ''conf_cli'', cl_conf = cf\<rparr> url))) = fs"
    using fs assms(2) by (simp add: cli_init_def load_writes_nothing)
  moreover have "files_now (cl_conf (fst (run_command sh co kv_class (kv_backend co) cl CopyCmd args))) = fs"
    if "files_now (cl_conf cl) = fs" for cl
    unfolding run_command_def st_out_def cli_copy_def Let_def conf_command.case using that assms(3) by (intro b) (simp_all add: l c)
  ultimately have "files_now (cl_conf (fst (st_bind (cli_init (kv_backend co) \<lparr>cl_index = ''conf_cli'', cl_conf = cf\<rparr> url)
      (\<lambda>cl _. run_command sh co kv_class (kv_backend co) cl CopyCmd args)))) = fs" by (rule b)
  then show ?thesis by (auto simp: cli_main_def split: prod.splits sum.splits)
qed

theorem cli_copy_writes_nothing_witness:
  "files_now (cl_conf (fst (cli_main quiet_shell no_codecs kv_class (kv_backend no_codecs)
     (new_process [''/a'' \<mapsto> ''{}'', ''/b'' \<mapsto> ''{}'']) ''json:///a'' CopyCmd (plain_args []\<lparr>ar_url2 := ''json:///b''\<rparr>)))) =
   [''/a'' \<mapsto> ''{}'', ''/b'' \<mapsto> ''{}'']"
proof (rule cli_copy_writes_nothing)
  have "urlparse ''json:///a'' = Inr (''json'', [], ''/a'')" "urlparse ''json:///b'' = Inr (''json'', [], ''/b'')" by code_simp+
  then show "json_file_url [''/a'' \<mapsto> ''{}'', ''/b'' \<mapsto> ''{}''] ''json:///a''"
    "json_file_url [''/a'' \<mapsto> ''{}'', ''/b'' \<mapsto> ''{}''] (ar_url2 (plain_args []\<lparr>ar_url2 := ''json:///b''\<rparr>))"
    by (simp_all add: json_file_url_def)
qed (rule fresh_new_process)

end
