(* ===== verification/SchemaDoc.thy ===== *)
theory SchemaDoc
  imports ConfCli PyOps
begin

text \<open>
  The documents and payloads of src/py-utils/src/utils/schema/payload.py and the class Conf of
  src/py-utils/src/utils/schema/conf.py, an older configuration than that of conf_store.

  A document is its class with its source: a path, a dict or a JSON text. The text formats of
  yaml, toml and configparser are parameters (\<open>doc_codecs\<close>). Directories are not modelled:
  a path exists if it is a file, and creating the directory of a path changes nothing.
  The class Tar is left out.
\<close>

section \<open>Documents\<close>

record doc_codecs =
  dc_codecs :: codecs
  dc_ini_load :: "string \<Rightarrow> pyval option"
  dc_ini_dump :: "pyval \<Rightarrow> string \<times> pyexc option"
  dc_toml_method :: "string \<times> pyexc option"
  dc_yaml_method :: "string \<times> pyexc option"

datatype doc = TomlDoc string | JsonDoc string | YamlDoc string | IniDoc string | TextDoc string
  | DictDoc pyval | JsonMessage string

text \<open>What is passed to \<open>dump\<close>: a value, or a bound method. What the packages toml and yaml
  write for a bound method are parameters too.\<close>

datatype doc_data = Value pyval | LoadMethod

text \<open>\<open>str(doc)\<close>.\<close>

fun doc_str :: "doc \<Rightarrow> string" where
  "doc_str (TomlDoc p) = p"
| "doc_str (JsonDoc p) = p"
| "doc_str (YamlDoc p) = p"
| "doc_str (IniDoc p) = p"
| "doc_str (TextDoc p) = p"
| "doc_str (DictDoc v) = py_str v"
| "doc_str (JsonMessage s) = s"

definition read_doc :: "file_system \<Rightarrow> string \<Rightarrow> (string \<Rightarrow> pyval option) \<Rightarrow> pyexc + pyval" where
  "read_doc fs path dec = (case fs path of
      None \<Rightarrow> Inl (OSError ENOENT)
    | Some t \<Rightarrow> (case dec t of None \<Rightarrow> Inl ValueError | Some v \<Rightarrow> Inr v))"

text \<open>\<open>_load\<close> of the file classes. configparser reads a missing file as an empty one.\<close>

fun doc_load_file :: "doc_codecs \<Rightarrow> file_system \<Rightarrow> doc \<Rightarrow> pyexc + pyval" where
  "doc_load_file dc fs (TomlDoc p) = read_doc fs p (co_toml_load (dc_codecs dc))"
| "doc_load_file dc fs (JsonDoc p) = read_doc fs p json_load"
| "doc_load_file dc fs (YamlDoc p) = read_doc fs p (co_yaml_load (dc_codecs dc))"
| "doc_load_file dc fs (IniDoc p) = (case dc_ini_load dc (case fs p of None \<Rightarrow> [] | Some t \<Rightarrow> t) of
      None \<Rightarrow> Inl ValueError | Some v \<Rightarrow> Inr v)"
| "doc_load_file dc fs (TextDoc p) = read_doc fs p (\<lambda>t. Some (PStr t))"
| "doc_load_file dc fs _ = Inl AttributeError"

text \<open>\<open>Doc.load\<close>, with the overriding methods of Dict and JsonMessage.\<close>

fun doc_load :: "doc_codecs \<Rightarrow> file_system \<Rightarrow> doc \<Rightarrow> pyexc + pyval" where
  "doc_load dc fs (DictDoc v) = Inr v"
| "doc_load dc fs (JsonMessage s) = (case json_load s of None \<Rightarrow> Inl ValueError | Some v \<Rightarrow> Inr v)"
| "doc_load dc fs d = (if fs (doc_str d) = None then Inr (PDict [])
     else case doc_load_file dc fs d of Inl e \<Rightarrow> Inl (PyException ''Exception'') | Inr v \<Rightarrow> Inr v)"

text \<open>\<open>_dump\<close> of the file classes: the file is emptied when it is opened, then filled up to the
  point where the format raises.\<close>

definition write_doc :: "file_system \<Rightarrow> string \<Rightarrow> string \<times> pyexc option \<Rightarrow> file_system \<times> (pyexc + unit)" where
  "write_doc fs path r = (fs(path \<mapsto> fst r), case snd r of None \<Rightarrow> Inr () | Some e \<Rightarrow> Inl e)"

fun doc_dump_file :: "doc_codecs \<Rightarrow> file_system \<Rightarrow> doc \<Rightarrow> doc_data \<Rightarrow> file_system \<times> (pyexc + unit)" where
  "doc_dump_file dc fs (TomlDoc p) (Value v) = write_doc fs p (co_toml_dump (dc_codecs dc) v)"
| "doc_dump_file dc fs (JsonDoc p) (Value v) = write_doc fs p (json_dump 0 v, None)"
| "doc_dump_file dc fs (YamlDoc p) (Value v) = write_doc fs p (co_yaml_dump (dc_codecs dc) v)"
| "doc_dump_file dc fs (IniDoc p) (Value v) = write_doc fs p (dc_ini_dump dc v)"
| "doc_dump_file dc fs (TextDoc p) (Value v) = (case v of
      PStr s \<Rightarrow> write_doc fs p (s, None) | _ \<Rightarrow> write_doc fs p ([], Some TypeError))"
| "doc_dump_file dc fs (IniDoc p) LoadMethod = write_doc fs p ([], Some AttributeError)"
| "doc_dump_file dc fs (JsonDoc p) LoadMethod = write_doc fs p ([], Some TypeError)"
| "doc_dump_file dc fs (TextDoc p) LoadMethod = write_doc fs p ([], Some TypeError)"
| "doc_dump_file dc fs (TomlDoc p) LoadMethod = write_doc fs p (dc_toml_method dc)"
| "doc_dump_file dc fs (YamlDoc p) LoadMethod = write_doc fs p (dc_yaml_method dc)"
| "doc_dump_file dc fs d _ = (fs, Inl AttributeError)"

definition ext_of :: "string \<Rightarrow> string" where
  "ext_of path = (let base = last (py_split (CHR ''/'') path); r = rev base;
       ext = takeWhile (\<lambda>c. c \<noteq> CHR ''.'') r; before = dropWhile (\<lambda>c. c \<noteq> CHR ''.'') r in
     if list_all (\<lambda>c. c = CHR ''.'') before then [] else CHR ''.'' # rev ext)"

section \<open>CommonPayload\<close>

definition doc_class :: "string \<Rightarrow> (string \<Rightarrow> doc) option" where
  "doc_class ext = map_of [(''json'', JsonDoc), (''toml'', TomlDoc), (''yaml'', YamlDoc), (''ini'', IniDoc),
     (''yml'', YamlDoc), (''txt'', TextDoc)] ext"

definition get_doc_type :: "string \<Rightarrow> pyexc + doc" where
  "get_doc_type source = (let e = map to_lower (py_strip (drop 1 (ext_of source)));
       ext = (if e = [] then ''txt'' else e) in
     case doc_class ext of None \<Rightarrow> Inl KeyError | Some mk \<Rightarrow> Inr (mk source))"

definition common_load :: "doc_codecs \<Rightarrow> file_system \<Rightarrow> string \<Rightarrow> pyexc + pyval" where
  "common_load dc fs source = err_bind (get_doc_type source) (doc_load_file dc fs)"

definition common_dump :: "doc_codecs \<Rightarrow> file_system \<Rightarrow> string \<Rightarrow> pyval \<Rightarrow> file_system \<times> (pyexc + unit)" where
  "common_dump dc fs source data = (case get_doc_type source of
      Inl e \<Rightarrow> (fs, Inl e) | Inr d \<Rightarrow> doc_dump_file dc fs d (Value data))"

section \<open>Payload\<close>

record payload =
  py_dirty :: bool
  py_doc :: doc
  py_data :: doc_data

text \<open>\<open>load\<close> stores the method \<open>self._doc.load\<close> and not what it returns.\<close>

definition payload_load :: "payload \<Rightarrow> payload \<times> (pyexc + doc_data)" where
  "payload_load p = (if py_dirty p then (p, Inl (PyException ''Exception''))
     else (p\<lparr>py_data := LoadMethod\<rparr>, Inr LoadMethod))"

definition payload_init :: "doc \<Rightarrow> payload" where
  "payload_init d = fst (payload_load \<lparr>py_dirty = False, py_doc = d, py_data = LoadMethod\<rparr>)"

text \<open>Dumping a Dict or a JsonMessage changes the document, the others write a file.\<close>

definition payload_dump :: "doc_codecs \<Rightarrow> file_system \<Rightarrow> payload \<Rightarrow> file_system \<times> payload \<times> (pyexc + unit)" where
  "payload_dump dc fs p = (case (py_doc p, py_data p) of
      (DictDoc _, Value v) \<Rightarrow> (fs, p\<lparr>py_doc := DictDoc v, py_dirty := False\<rparr>, Inr ())
    | (JsonMessage _, Value v) \<Rightarrow> (fs, p\<lparr>py_doc := JsonMessage (json_dumps v), py_dirty := False\<rparr>, Inr ())
    | (JsonMessage _, LoadMethod) \<Rightarrow> (fs, p, Inl TypeError)
    | (DictDoc _, LoadMethod) \<Rightarrow> (fs, p\<lparr>py_dirty := False\<rparr>, Inr ())
    | (d, x) \<Rightarrow> (case doc_dump_file dc fs d x of
          (fs', Inl e) \<Rightarrow> (fs', p, Inl e)
        | (fs', Inr _) \<Rightarrow> (fs', p\<lparr>py_dirty := False\<rparr>, Inr ())))"

function payload_get_in :: "string \<Rightarrow> pyval \<Rightarrow> pyexc + pyval" where
  "payload_get_in key data = (case data of
      PDict d \<Rightarrow> (case split1 (CHR ''.'') key of
          (k, None) \<Rightarrow> (case map_of d k of None \<Rightarrow> Inr PNone | Some v \<Rightarrow> Inr v)
        | (k, Some rest) \<Rightarrow> (case map_of d k of None \<Rightarrow> Inr PNone | Some v \<Rightarrow> payload_get_in rest v))
    | _ \<Rightarrow> Inl AttributeError)"
  by pat_completeness auto
termination
  by (relation "measure (\<lambda>(key, data). length key)") (auto dest!: split1_rest_shorter [OF sym])

declare payload_get_in.simps [simp del]

definition payload_get :: "payload \<Rightarrow> string \<Rightarrow> pyexc + pyval" where
  "payload_get p key = (case py_data p of LoadMethod \<Rightarrow> Inl AttributeError | Value v \<Rightarrow> payload_get_in key v)"

function payload_set_in :: "string \<Rightarrow> pyval \<Rightarrow> pyval \<Rightarrow> pyval \<times> (pyexc + unit)" where
  "payload_set_in key v data = (case split1 (CHR ''.'') key of
      (k, None) \<Rightarrow> (case data of
          PDict d \<Rightarrow> (PDict (AList.update k v d), Inr ())
        | _ \<Rightarrow> (data, Inl TypeError))
    | (k, Some rest) \<Rightarrow> (case data of
          PDict d \<Rightarrow> (let sub = (case map_of d k of Some (PDict e) \<Rightarrow> PDict e | _ \<Rightarrow> PDict []) in
            case payload_set_in rest v sub of (sub', r) \<Rightarrow> (PDict (AList.update k sub' d), r))
        | _ \<Rightarrow> (data, Inl AttributeError)))"
  by pat_completeness auto
termination
  by (relation "measure (\<lambda>(key, v, data). length key)") (auto dest!: split1_rest_shorter [OF sym])

declare payload_set_in.simps [simp del]

definition payload_set :: "payload \<Rightarrow> string \<Rightarrow> pyval \<Rightarrow> payload \<times> (pyexc + unit)" where
  "payload_set p key v = (case py_data p of
      LoadMethod \<Rightarrow> (p, Inl (if snd (split1 (CHR ''.'') key) = None then TypeError else AttributeError))
    | Value data \<Rightarrow> (case payload_set_in key v data of
          (data', Inl e) \<Rightarrow> (p\<lparr>py_data := Value data'\<rparr>, Inl e)
        | (data', Inr _) \<Rightarrow> (p\<lparr>py_data := Value data', py_dirty := True\<rparr>, Inr ())))"

fun payload_convert :: "payload \<Rightarrow> (string \<times> string) list \<Rightarrow> payload \<Rightarrow> payload \<times> (pyexc + unit)" where
  "payload_convert p [] target = (target, Inr ())"
| "payload_convert p ((key, key') # dict_map) target = (case payload_get p key of
      Inl e \<Rightarrow> (target, Inl e)
    | Inr v \<Rightarrow> (case payload_set target key' v of
          (t, Inl e) \<Rightarrow> (t, Inl e)
        | (t, Inr _) \<Rightarrow> payload_convert p dict_map t))"

section \<open>Conf\<close>

type_synonym schema_conf = "string \<rightharpoonup> payload"

text \<open>\<open>save\<close> iterates over the characters of the index it is given; without an index it names
  a variable that does not exist.\<close>

fun save_chars :: "doc_codecs \<Rightarrow> file_system \<Rightarrow> schema_conf \<Rightarrow> string \<Rightarrow> file_system \<times> schema_conf \<times> (pyexc + unit)" where
  "save_chars dc fs cf [] = (fs, cf, Inr ())"
| "save_chars dc fs cf (c # cs) = (case cf [c] of
      None \<Rightarrow> (fs, cf, Inl KeyError)
    | Some p \<Rightarrow> (case payload_dump dc fs p of
          (fs', p', Inl e) \<Rightarrow> (fs', cf([c] \<mapsto> p'), Inl e)
        | (fs', p', Inr _) \<Rightarrow> save_chars dc fs' (cf([c] \<mapsto> p')) cs))"

definition sconf_save :: "doc_codecs \<Rightarrow> file_system \<Rightarrow> schema_conf \<Rightarrow> string option \<Rightarrow>
    file_system \<times> schema_conf \<times> (pyexc + unit)" where
  "sconf_save dc fs cf index = (case index of
      None \<Rightarrow> (fs, cf, Inl NameError) | Some i \<Rightarrow> save_chars dc fs cf i)"

definition sconf_load :: "doc_codecs \<Rightarrow> file_system \<Rightarrow> schema_conf \<Rightarrow> string \<Rightarrow> doc \<Rightarrow> bool \<Rightarrow>
    file_system \<times> schema_conf \<times> (pyexc + unit)" where
  "sconf_load dc fs cf index d force =
     (if fs (doc_str d) = None then (fs, cf, Inl (PyException ''Exception''))
      else if cf index \<noteq> None \<and> \<not> force then (fs, cf, Inl (PyException ''Exception''))
      else case (if cf index \<noteq> None then sconf_save dc fs cf (Some index) else (fs, cf, Inr ())) of
        (fs1, cf1, Inl e) \<Rightarrow> (fs1, cf1, Inl e)
      | (fs1, cf1, Inr _) \<Rightarrow> (fs1, cf1(index \<mapsto> payload_init d), Inr ()))"

definition sconf_get :: "schema_conf \<Rightarrow> string \<Rightarrow> string \<Rightarrow> pyval \<Rightarrow> pyexc + pyval" where
  "sconf_get cf index key dflt = (case cf index of
      None \<Rightarrow> Inl KeyError
    | Some p \<Rightarrow> err_bind (payload_get p key) (\<lambda>v. Inr (if v = PNone then dflt else v)))"

definition sconf_set :: "schema_conf \<Rightarrow> string \<Rightarrow> string \<Rightarrow> pyval \<Rightarrow> schema_conf \<times> (pyexc + unit)" where
  "sconf_set cf index key v = (case cf index of
      None \<Rightarrow> (cf, Inl KeyError)
    | Some p \<Rightarrow> (case payload_set p key v of (p', r) \<Rightarrow> (cf(index \<mapsto> p'), r)))"

section \<open>Nothing can be read or set\<close>

text \<open>The operations on a Payload.\<close>

inductive payload_reach :: "doc_codecs \<Rightarrow> doc \<Rightarrow> payload \<Rightarrow> bool" for dc d where
  init: "payload_reach dc d (payload_init d)"
| load: "payload_reach dc d p \<Longrightarrow> payload_reach dc d (fst (payload_load p))"
| set: "payload_reach dc d p \<Longrightarrow> payload_reach dc d (fst (payload_set p key v))"
| dump: "payload_reach dc d p \<Longrightarrow> payload_reach dc d (fst (snd (payload_dump dc fs p)))"

lemma payload_method: "payload_reach dc d p \<Longrightarrow> py_data p = LoadMethod"
proof (induction rule: payload_reach.induct)
  case (dump p fs)
  then show ?case by (auto simp: payload_dump_def split: doc.splits prod.splits sum.splits)
qed (auto simp: payload_init_def payload_load_def payload_set_def)

text \<open>Whatever is done to a Payload, get and set on it raise an exception (load keeps the
  method of the document instead of the data), nothing is ever changed, and dump on a
  JSON file leaves the file empty and raises a TypeError.\<close>

theorem payload_unusable:
  assumes "payload_reach dc d p"
  shows "payload_get p key = Inl AttributeError \<and>
    payload_set p key v = (p, Inl (if CHR ''.'' \<in> set key then AttributeError else TypeError)) \<and>
    (py_doc p = JsonDoc path \<longrightarrow> payload_dump dc fs p = (fs(path \<mapsto> []), p, Inl TypeError))"
proof -
  have "snd (split1 (CHR ''.'') key) = None \<longleftrightarrow> CHR ''.'' \<notin> set key"
    by (induction key) (auto simp: split1_Cons)
  then show ?thesis using payload_method [OF assms]
    by (simp add: payload_get_def payload_set_def payload_dump_def write_doc_def)
qed

theorem payload_unusable_witness:
  "payload_get (payload_init (JsonDoc ''/a'')) ''x.y'' = Inl AttributeError \<and>
   payload_dump \<lparr>dc_codecs = no_codecs, dc_ini_load = (\<lambda>_. None), dc_ini_dump = (\<lambda>_. ([], None)),
     dc_toml_method = ([], Some TypeError), dc_yaml_method = ([], None)\<rparr>
     [''/a'' \<mapsto> ''{}''] (payload_init (JsonDoc ''/a'')) = ([''/a'' \<mapsto> []], payload_init (JsonDoc ''/a''), Inl TypeError)"
proof -
  let ?dc = "\<lparr>dc_codecs = no_codecs, dc_ini_load = (\<lambda>_. None), dc_ini_dump = (\<lambda>_. ([], None)),
     dc_toml_method = ([], Some TypeError), dc_yaml_method = ([], None)\<rparr>"
  have "py_doc (payload_init (JsonDoc ''/a'')) = JsonDoc ''/a''" by code_simp
  with payload_unusable [OF payload_reach.init, where dc = ?dc and d = "JsonDoc ''/a''" and key = "''x.y''"
      and path = "''/a''" and fs = "[''/a'' \<mapsto> ''{}'']"] show ?thesis by simp
qed

section \<open>CommonPayload reads what it wrote\<close>

lemma common_json:
  assumes "get_doc_type source = Inr (JsonDoc source)" "json_ok v" "common_dump dc fs source v = (fs', r)"
  shows "r = Inr () \<and> common_load dc fs' source = Inr v"
  using assms json_load_dump [OF assms(2)]
  by (auto simp: common_dump_def common_load_def write_doc_def read_doc_def)

end
