(* ===== verification/HaCompile.thy ===== *)
theory HaCompile
  imports PyOps Json TextStores
begin

text \<open>
  The compiler of HA specifications: src/py-utils/src/utils/ha/hac/validation.py and
  src/py-utils/src/utils/ha/hac/compile.py. A specification is a JSON document with comment lines;
  its resources name other resources as predecessors, colocated resources and related
  resources. The package networkx is used for one question, the simple cycles of a
  directed graph, which is the parameter \<open>simple_cycles\<close> on the list of its edges. Writing the compiled
  document with its four-blank indentation and drawing the graphs are left out.
\<close>

section \<open>SyntaxValidator\<close>

definition ha_modes :: "pyval list" where
  "ha_modes = [PStr ''active_passive'', PStr ''active_active'', PStr ''primary_secondary'']"

text \<open>\<open>_is_valid_json\<close>: the lines that are no comments are written to a file beside the
  specification and read as JSON.\<close>

definition spec_text :: "string \<Rightarrow> string" where
  "spec_text t = concat (filter (\<lambda>l. \<not> starts_with (py_strip l) ''#'') (py_readlines t))"

definition is_valid_json :: "file_system \<Rightarrow> string \<Rightarrow> file_system \<times> (pyexc + pyval)" where
  "is_valid_json fs path = (case fs path of
      None \<Rightarrow> (fs, Inl (PyException ''Exception''))
    | Some t \<Rightarrow> (fs(path @ ''.parse'' \<mapsto> spec_text t), case json_load (spec_text t) of
          None \<Rightarrow> Inl (PyException ''Exception'') | Some v \<Rightarrow> Inr v))"

definition is_file :: "file_system \<Rightarrow> string \<Rightarrow> pyexc + unit" where
  "is_file fs path = (if fs path = None then Inl (PyException ''Exception'') else Inr ())"

text \<open>The loops over the components of the document and their resources.\<close>

definition each_resource :: "pyval \<Rightarrow> (string \<Rightarrow> string \<Rightarrow> pyval \<Rightarrow> pyexc + unit) \<Rightarrow> pyexc + unit" where
  "each_resource schema f = err_bind (py_keys schema) (err_each (\<lambda>component.
     err_bind (py_item schema component) (\<lambda>rs. err_bind (py_keys rs) (err_each (\<lambda>resource.
       err_bind (py_item rs resource) (f component resource))))))"

definition validate_mode :: "pyval \<Rightarrow> pyexc + unit" where
  "validate_mode schema = each_resource schema (\<lambda>component resource v.
     err_bind (py_items v [''ha'', ''mode'']) (\<lambda>mode.
       if mode \<in> set ha_modes then Inr () else Inl (PyException ''Exception'')))"

text \<open>A group that is not known only prints a warning.\<close>

definition validate_component_group :: "pyval \<Rightarrow> pyexc + unit" where
  "validate_component_group schema = each_resource schema (\<lambda>component resource v.
     err_bind (py_item v ''group'') (\<lambda>_. Inr ()))"

text \<open>\<open>SyntaxValidator(filename).execute()\<close>: the validations run in the order of their names.\<close>

definition verify_ha_spec_schema :: "file_system \<Rightarrow> string \<Rightarrow> file_system \<times> (pyexc + pyval)" where
  "verify_ha_spec_schema fs path = (case is_file fs path of
      Inl e \<Rightarrow> (fs, Inl e)
    | Inr _ \<Rightarrow> (case is_valid_json fs path of
          (fs', Inl e) \<Rightarrow> (fs', Inl e)
        | (fs', Inr schema) \<Rightarrow> (fs', err_bind (validate_component_group schema) (\<lambda>_.
            err_bind (validate_mode schema) (\<lambda>_. Inr schema)))))"

section \<open>Compiler\<close>

record compiled_schema =
  cp_predecessors :: "(pyval \<times> string) list"
  cp_colocation :: "(pyval \<times> string) list"
  cp_isolate :: "pyval list"
  cp_resources :: pydict

definition empty_schema :: compiled_schema where
  "empty_schema = \<lparr>cp_predecessors = [], cp_colocation = [], cp_isolate = [], cp_resources = []\<rparr>"

text \<open>A resource that is already defined: the message of the exception names a variable that
  does not exist.\<close>

fun add_resources :: "string \<Rightarrow> pyval \<Rightarrow> string list \<Rightarrow> compiled_schema \<Rightarrow> compiled_schema \<times> (pyexc + unit)" where
  "add_resources component rs [] cs = (cs, Inr ())"
| "add_resources component rs (r # names) cs =
     (if map_of (cp_resources cs) r \<noteq> None then (cs, Inl NameError)
      else case py_item rs r of
        Inr (PDict d) \<Rightarrow> add_resources component rs names
          (cs\<lparr>cp_resources := cp_resources cs @ [(r, PDict (AList.update ''component'' (PStr component) d))]\<rparr>)
      | Inr v \<Rightarrow> (cs\<lparr>cp_resources := cp_resources cs @ [(r, v)]\<rparr>, Inl TypeError)
      | Inl e \<Rightarrow> (cs, Inl e))"

fun add_components :: "pyval \<Rightarrow> string list \<Rightarrow> compiled_schema \<Rightarrow> compiled_schema \<times> (pyexc + unit)" where
  "add_components doc [] cs = (cs, Inr ())"
| "add_components doc (c # comps) cs = (case err_bind (py_item doc c) (\<lambda>rs. err_bind (py_keys rs) (\<lambda>ks. Inr (rs, ks))) of
      Inl e \<Rightarrow> (cs, Inl e)
    | Inr (rs, ks) \<Rightarrow> (case add_resources c rs ks cs of
          (cs', Inl e) \<Rightarrow> (cs', Inl e)
        | (cs', Inr _) \<Rightarrow> add_components doc comps cs'))"

text \<open>\<open>_create_parse_file\<close>: all names are taken relative to the source path.\<close>

fun create_parse_file :: "string \<Rightarrow> string list \<Rightarrow> file_system \<Rightarrow> compiled_schema \<Rightarrow>
    file_system \<times> compiled_schema \<times> (pyexc + unit)" where
  "create_parse_file src [] fs cs = (fs, cs, Inr ())"
| "create_parse_file src (f # fnames) fs cs =
     (if \<not> starts_with (rev f) (rev ''json'') then create_parse_file src fnames fs cs
      else case verify_ha_spec_schema fs (src @ f) of
        (fs1, Inl e) \<Rightarrow> (fs1, cs, Inl e)
      | (fs1, Inr doc) \<Rightarrow> (case py_keys doc of
            Inl e \<Rightarrow> (fs1, cs, Inl e)
          | Inr comps \<Rightarrow> (case add_components doc comps cs of
                (cs1, Inl e) \<Rightarrow> (fs1, cs1, Inl e)
              | (cs1, Inr _) \<Rightarrow> create_parse_file src fnames fs1 cs1)))"

text \<open>\<open>parse_files\<close>, on the lists of file names that \<open>os.walk(source_path)\<close> gives.\<close>

fun parse_files :: "string \<Rightarrow> string list list \<Rightarrow> file_system \<Rightarrow> compiled_schema \<Rightarrow>
    file_system \<times> compiled_schema \<times> (pyexc + unit)" where
  "parse_files src [] fs cs = (fs, cs, Inr ())"
| "parse_files src (names # walk) fs cs = (case create_parse_file src names fs cs of
      (fs1, cs1, Inl e) \<Rightarrow> (fs1, cs1, Inl e)
    | (fs1, cs1, Inr _) \<Rightarrow> parse_files src walk fs1 cs1)"

text \<open>\<open>_update_dependencies\<close>: an edge from each dependency to the resource.\<close>

definition update_dependencies :: "pyval \<Rightarrow> string \<Rightarrow> pyexc + (pyval \<times> string) list" where
  "update_dependencies dependencies resource = err_bind (py_iter dependencies) (\<lambda>xs. Inr (map (\<lambda>x. (x, resource)) xs))"

text \<open>\<open>list(set(edges))\<close>: each edge once, in no particular order; a name that is a list or a dict
  is not hashable.\<close>

fun add_new :: "(pyval \<times> string) list \<Rightarrow> (pyval \<times> string) list \<Rightarrow> (pyval \<times> string) list" where
  "add_new [] acc = acc"
| "add_new (e # es) acc = (if list_ex (\<lambda>x. py_eq (fst x) (fst e) \<and> snd x = snd e) acc then add_new es acc else add_new es (acc @ [e]))"

definition edge_set :: "(pyval \<times> string) list \<Rightarrow> pyexc + (pyval \<times> string) list" where
  "edge_set es = (if list_ex (is_list_dict \<circ> fst) es then Inl TypeError else Inr (add_new es []))"

fun py_remove :: "pyval \<Rightarrow> pyval list \<Rightarrow> pyval list" where
  "py_remove x [] = []"
| "py_remove x (y # ys) = (if py_eq y x then ys else y # py_remove x ys)"

definition isolate :: "(pyval \<times> string) list \<Rightarrow> pyval list \<Rightarrow> pyval list" where
  "isolate edges rs = fold (\<lambda>(a, b) rs. py_remove (PStr b) (py_remove a rs)) edges rs"

text \<open>The three lists of one resource.\<close>

definition resource_edges :: "string \<times> pyval \<Rightarrow> pyexc + (pyval \<times> string) list \<times> (pyval \<times> string) list \<times> pyval list" where
  "resource_edges r = (case r of (res, v) \<Rightarrow>
     err_bind (py_items v [''dependencies'', ''predecessors'']) (\<lambda>p. err_bind (update_dependencies p res) (\<lambda>pe.
     err_bind (py_items v [''dependencies'', ''colocation'']) (\<lambda>c. err_bind (update_dependencies c res) (\<lambda>ce.
     err_bind (py_items v [''dependencies'', ''relation'']) (\<lambda>r. err_bind (py_iter r) (\<lambda>re. Inr (pe, ce, re))))))))"

definition compile_graph :: "compiled_schema \<Rightarrow> compiled_schema \<times> (pyexc + unit)" where
  "compile_graph cs = (case err_map resource_edges (cp_resources cs) of
      Inl e \<Rightarrow> (cs, Inl e)
    | Inr es \<Rightarrow> (case edge_set (concat (map fst es)) of
          Inl e \<Rightarrow> (cs, Inl e)
        | Inr pe \<Rightarrow> (case edge_set (concat (map (fst \<circ> snd) es)) of
              Inl e \<Rightarrow> (cs\<lparr>cp_predecessors := pe\<rparr>, Inl e)
            | Inr ce \<Rightarrow> (cs\<lparr>cp_predecessors := pe, cp_colocation := ce,
                cp_isolate := isolate pe (concat (map (snd \<circ> snd) es))\<rparr>, Inr ()))))"

section \<open>SymanticValidator\<close>

text \<open>The validations of the names: the message is built from the names that are not
  resources.\<close>

definition invalid_name :: "pydict \<Rightarrow> pyval \<Rightarrow> pyval \<Rightarrow> pyexc + bool" where
  "invalid_name rs v x = (case x of
      PStr s \<Rightarrow> if map_of rs s \<noteq> None then Inr False
        else err_bind (py_item v ''component'') (\<lambda>c. case c of PStr _ \<Rightarrow> Inr True | _ \<Rightarrow> Inl TypeError)
    | _ \<Rightarrow> Inl TypeError)"

definition invalid_names :: "string \<Rightarrow> pydict \<Rightarrow> string \<times> pyval \<Rightarrow> pyexc + bool list" where
  "invalid_names field rs r = err_bind (py_items (snd r) [''dependencies'', field]) (\<lambda>ns.
     err_bind (py_iter ns) (err_map (invalid_name rs (snd r))))"

definition validate_names :: "string \<Rightarrow> pydict \<Rightarrow> pyexc + unit" where
  "validate_names field rs = err_bind (err_map (invalid_names field rs) rs)
     (\<lambda>bad. if True \<in> set (concat bad) then Inl (PyException ''Exception'') else Inr ())"

definition validate_cycle :: "((pyval \<times> pyval) list \<Rightarrow> pyval list list) \<Rightarrow> compiled_schema \<Rightarrow> pyexc + unit" where
  "validate_cycle simple_cycles cs =
     (if simple_cycles (map (\<lambda>(a, b). (a, PStr b)) (cp_predecessors cs)) \<noteq> [] then Inl (PyException ''Exception'') else Inr ())"

definition verify_schema :: "((pyval \<times> pyval) list \<Rightarrow> pyval list list) \<Rightarrow> compiled_schema \<Rightarrow> pyexc + unit" where
  "verify_schema simple_cycles cs = err_bind (validate_cycle simple_cycles cs) (\<lambda>_.
     err_bind (validate_names ''colocation'' (cp_resources cs)) (\<lambda>_.
     err_bind (validate_names ''predecessors'' (cp_resources cs)) (\<lambda>_.
     validate_names ''relation'' (cp_resources cs))))"

text \<open>The steps that \<open>hac --compile\<close> takes before it writes the result.\<close>

definition compile_specs :: "((pyval \<times> pyval) list \<Rightarrow> pyval list list) \<Rightarrow> string \<Rightarrow> string list list \<Rightarrow> file_system \<Rightarrow>
    file_system \<times> compiled_schema \<times> (pyexc + unit)" where
  "compile_specs simple_cycles src walk fs = (case parse_files src walk fs empty_schema of
      (fs1, cs1, Inl e) \<Rightarrow> (fs1, cs1, Inl e)
    | (fs1, cs1, Inr _) \<Rightarrow> (case compile_graph cs1 of
          (cs2, Inl e) \<Rightarrow> (fs1, cs2, Inl e)
        | (cs2, Inr _) \<Rightarrow> (fs1, cs2, verify_schema simple_cycles cs2)))"

section \<open>What a compiled schema promises\<close>

lemma err_map_mem: "err_map f xs = Inr ys \<Longrightarrow> x \<in> set xs \<Longrightarrow> \<exists>y \<in> set ys. f x = Inr y"
  by (induction xs arbitrary: ys) (auto simp: err_bind_Inr)

lemma err_map_mem_rev: "err_map f xs = Inr ys \<Longrightarrow> y \<in> set ys \<Longrightarrow> \<exists>x \<in> set xs. f x = Inr y"
  by (induction xs arbitrary: ys) (auto simp: err_bind_Inr)

text \<open>The names in one of the lists of a resource.\<close>

definition dep_names :: "string \<Rightarrow> pyval \<Rightarrow> pyval list" where
  "dep_names field v = (case err_bind (py_items v [''dependencies'', field]) py_iter of Inl _ \<Rightarrow> [] | Inr xs \<Rightarrow> xs)"

definition names_closed :: "string \<Rightarrow> pydict \<Rightarrow> bool" where
  "names_closed field rs \<longleftrightarrow> (\<forall>(r, v) \<in> set rs. \<forall>x \<in> set (dep_names field v). \<exists>s \<in> fst ` set rs. x = PStr s)"

lemma validate_names_closed:
  assumes "validate_names field rs = Inr ()"
  shows "names_closed field rs"
  unfolding names_closed_def
proof (intro ballI, clarify)
  fix r v x assume rv: "(r, v) \<in> set rs" and x: "x \<in> set (dep_names field v)"
  obtain bad where bad: "err_map (invalid_names field rs) rs = Inr bad" "True \<notin> set (concat bad)"
    using assms by (auto simp: validate_names_def err_bind_Inr split: if_splits)
  obtain bs ns xs where bs: "bs \<in> set bad" "py_items v [''dependencies'', field] = Inr ns" "py_iter ns = Inr xs"
    "err_map (invalid_name rs v) xs = Inr bs"
    using err_map_mem [OF bad(1) rv] by (auto simp: invalid_names_def err_bind_Inr simp del: py_items.simps)
  have "x \<in> set xs" using x bs(2,3) by (simp add: dep_names_def del: py_items.simps)
  then obtain b where b: "b \<in> set bs" "invalid_name rs v x = Inr b" using err_map_mem [OF bs(4)] by blast
  have "b \<noteq> True" using b(1) bs(1) bad(2) by auto
  have one: "(case c of PStr _ \<Rightarrow> Inr True | _ \<Rightarrow> Inl TypeError) = Inr b' \<Longrightarrow> b'" for c b' by (cases c) auto
  obtain s where "x = PStr s" "map_of rs s \<noteq> None"
    using b(2) \<open>b \<noteq> True\<close> by (cases x) (auto simp: invalid_name_def err_bind_Inr split: if_splits dest!: one)
  then show "\<exists>s \<in> fst ` set rs. x = PStr s" by (metis map_of_eq_None_iff)
qed

lemma set_add_new:
  assumes "\<forall>e \<in> set es \<union> set acc. \<exists>s. fst e = PStr s"
  shows "set (add_new es acc) = set acc \<union> set es"
  using assms
proof (induction es arbitrary: acc)
  case (Cons e es)
  have "e \<in> set acc" if "list_ex (\<lambda>x. py_eq (fst x) (fst e) \<and> snd x = snd e) acc"
  proof -
    from that obtain x where x: "x \<in> set acc" "py_eq (fst x) (fst e)" "snd x = snd e" by (auto simp: list_ex_iff)
    moreover obtain s where "fst x = PStr s" using Cons.prems x(1) by auto
    ultimately have "x = e" by (simp add: prod_eq_iff)
    with x(1) show ?thesis by simp
  qed
  then show ?case using Cons.IH [of acc] Cons.IH [of "acc @ [e]"] Cons.prems by auto
qed simp

lemma compile_graph_edges:
  assumes "compile_graph cs = (cs', Inr ())" "names_closed ''predecessors'' (cp_resources cs)"
  shows "cp_resources cs' = cp_resources cs"
    "set (cp_predecessors cs') = {(x, r) | x r v. (r, v) \<in> set (cp_resources cs) \<and> x \<in> set (dep_names ''predecessors'' v)}"
proof -
  obtain es pe where es: "err_map resource_edges (cp_resources cs) = Inr es" "edge_set (concat (map fst es)) = Inr pe"
    "cp_resources cs' = cp_resources cs" "cp_predecessors cs' = pe"
    using assms(1) by (auto simp: compile_graph_def split: sum.splits)
  have r: "resource_edges (r, v) = Inr y \<Longrightarrow> set (fst y) = {(x, r) | x. x \<in> set (dep_names ''predecessors'' v)}" for r v y
    by (auto simp: resource_edges_def err_bind_Inr update_dependencies_def dep_names_def simp del: py_items.simps)
  let ?E = "{(x, r) | x r v. (r, v) \<in> set (cp_resources cs) \<and> x \<in> set (dep_names ''predecessors'' v)}"
  have "set (concat (map fst es)) = ?E"
  proof (intro set_eqI iffI)
    fix e assume "e \<in> set (concat (map fst es))"
    then obtain y where "y \<in> set es" "e \<in> set (fst y)" by auto
    moreover from this(1) obtain rv where "rv \<in> set (cp_resources cs)" "resource_edges rv = Inr y"
      using err_map_mem_rev [OF es(1)] by blast
    ultimately show "e \<in> ?E" using r [of "fst rv" "snd rv" y] by (cases rv) auto
  next
    fix e assume "e \<in> ?E"
    then obtain x q v where e: "e = (x, q)" "(q, v) \<in> set (cp_resources cs)" "x \<in> set (dep_names ''predecessors'' v)" by blast
    then obtain y where "y \<in> set es" "resource_edges (q, v) = Inr y" using err_map_mem [OF es(1)] by blast
    with r [of q v y] e show "e \<in> set (concat (map fst es))" by auto
  qed
  moreover have "\<exists>s. fst e = PStr s" if "e \<in> ?E" for e using that assms(2) by (fastforce simp: names_closed_def)
  ultimately have "set pe = ?E"
    using es(2) set_add_new [of "concat (map fst es)" "[]"] by (auto simp: edge_set_def split: if_splits)
  then show "cp_resources cs' = cp_resources cs" "set (cp_predecessors cs') = ?E" using es by simp_all
qed

lemma add_resources_distinct: "add_resources c rs ks cs = (cs', r) \<Longrightarrow> distinct (map fst (cp_resources cs)) \<Longrightarrow>
    distinct (map fst (cp_resources cs'))"
proof (induction ks arbitrary: cs)
  case (Cons k ks)
  show ?case
  proof (cases "map_of (cp_resources cs) k")
    case None
    then have "k \<notin> fst ` set (cp_resources cs)" by (simp add: map_of_eq_None_iff)
    then have d: "distinct (map fst (cp_resources cs @ [(k, v)]))" for v using Cons.prems(2) by auto
    show ?thesis
    proof (cases "\<exists>d. py_item rs k = Inr (PDict d)")
      case True
      then obtain dd where dd: "py_item rs k = Inr (PDict dd)" by blast
      show ?thesis by (rule Cons.IH) (use Cons.prems(1) None dd d in auto)
    next
      case False
      with Cons.prems None d show ?thesis by (auto split: sum.splits pyval.splits)
    qed
  qed (use Cons.prems in auto)
qed auto

lemma add_components_distinct: "add_components doc comps cs = (cs', r) \<Longrightarrow> distinct (map fst (cp_resources cs)) \<Longrightarrow>
    distinct (map fst (cp_resources cs'))"
  by (induction comps arbitrary: cs)
    (auto split: sum.splits prod.splits dest: add_resources_distinct)

lemma create_parse_file_distinct: "create_parse_file src fnames fs cs = (fs', cs', r) \<Longrightarrow>
    distinct (map fst (cp_resources cs)) \<Longrightarrow> distinct (map fst (cp_resources cs'))"
  by (induction fnames arbitrary: fs cs)
    (auto split: sum.splits prod.splits if_splits dest: add_components_distinct)

lemma parse_files_distinct: "parse_files src walk fs cs = (fs', cs', r) \<Longrightarrow>
    distinct (map fst (cp_resources cs)) \<Longrightarrow> distinct (map fst (cp_resources cs'))"
  by (induction walk arbitrary: fs cs)
    (auto split: sum.splits prod.splits dest: create_parse_file_distinct)

text \<open>Claim C10. When the specifications compile without an exception, every resource is defined once,
  every name in its lists is that of a resource, the predecessor edges are exactly those
  that the resources name, and they have no cycle, if the cycles that networkx lists are
  none only for a graph without one.\<close>

theorem hac_compile_sound:
  assumes "\<forall>es. simple_cycles es = [] \<longrightarrow> acyclic (set es)"
    and "compile_specs simple_cycles src walk fs = (fs', cs, Inr ())"
  shows "distinct (map fst (cp_resources cs)) \<and>
    (\<forall>field \<in> {''predecessors'', ''colocation'', ''relation''}. names_closed field (cp_resources cs)) \<and>
    set (cp_predecessors cs) = {(x, r) | x r v. (r, v) \<in> set (cp_resources cs) \<and> x \<in> set (dep_names ''predecessors'' v)} \<and>
    acyclic {(x, PStr r) | x r v. (r, v) \<in> set (cp_resources cs) \<and> x \<in> set (dep_names ''predecessors'' v)}"
proof -
  obtain cs1 fs1 where c: "parse_files src walk fs empty_schema = (fs1, cs1, Inr ())" "compile_graph cs1 = (cs, Inr ())"
    and v: "verify_schema simple_cycles cs = Inr ()"
    using assms(2) by (auto simp: compile_specs_def split: prod.splits sum.splits)
  have res: "cp_resources cs = cp_resources cs1"
    using c(2) by (auto simp: compile_graph_def split: sum.splits)
  have nc: "names_closed field (cp_resources cs)" if "field \<in> {''predecessors'', ''colocation'', ''relation''}" for field
    by (rule validate_names_closed) (use v that in \<open>auto simp: verify_schema_def err_bind_Inr\<close>)
  have "distinct (map fst (cp_resources cs))"
    using parse_files_distinct [OF c(1)] by (simp add: res empty_schema_def)
  moreover have e: "set (cp_predecessors cs) = {(x, r) | x r v. (r, v) \<in> set (cp_resources cs) \<and> x \<in> set (dep_names ''predecessors'' v)}"
    using compile_graph_edges(2) [OF c(2)] nc [of "''predecessors''"] by (simp add: res)
  moreover have "acyclic (set (map (\<lambda>(a, b). (a, PStr b)) (cp_predecessors cs)))"
    using v assms(1) by (auto simp: verify_schema_def validate_cycle_def err_bind_Inr split: if_splits)
  moreover have "set (map (\<lambda>(a, b). (a, PStr b)) (cp_predecessors cs)) =
      {(x, PStr r) | x r v. (r, v) \<in> set (cp_resources cs) \<and> x \<in> set (dep_names ''predecessors'' v)}"
    unfolding set_map e by auto
  ultimately show ?thesis using nc by simp
qed

text \<open>A function that the parameter may be: edges whose source no edge enters are dropped until
  nothing is left or nothing can be dropped.\<close>

definition peel :: "(pyval \<times> pyval) list \<Rightarrow> (pyval \<times> pyval) list" where
  "peel es = filter (\<lambda>e. fst e \<in> snd ` set es) es"

definition some_cycles :: "(pyval \<times> pyval) list \<Rightarrow> pyval list list" where
  "some_cycles es = (let left = (peel ^^ length es) es in if left = [] then [] else [map fst left])"

lemma trancl_entered: "(y, x) \<in> r\<^sup>+ \<Longrightarrow> y \<in> Range r \<Longrightarrow> (y, x) \<in> {(a, b) \<in> r. a \<in> Range r}\<^sup>+"
proof (induction rule: converse_trancl_induct)
  case (step y z)
  then have "(z, x) \<in> {(a, b) \<in> r. a \<in> Range r}\<^sup>+" by blast
  moreover have "(y, z) \<in> {(a, b) \<in> r. a \<in> Range r}" using step by blast
  ultimately show ?case by (meson trancl_into_trancl2)
qed blast

lemma acyclic_peel: "acyclic (set (peel es)) \<Longrightarrow> acyclic (set es)"
proof -
  have "set (peel es) = {(a, b) \<in> set es. a \<in> Range (set es)}" by (force simp: peel_def)
  moreover have "x \<in> Range (set es)" if "(x, x) \<in> (set es)\<^sup>+" for x using that by (metis Range.intros tranclD2)
  ultimately show "acyclic (set (peel es)) \<Longrightarrow> acyclic (set es)"
    unfolding acyclic_def using trancl_entered [of _ _ "set es"] by metis
qed

lemma some_cycles_ok: "\<forall>es. some_cycles es = [] \<longrightarrow> acyclic (set es)"
proof -
  have "acyclic (set ((peel ^^ n) es)) \<Longrightarrow> acyclic (set es)" for n es
    by (induction n arbitrary: es) (simp, metis acyclic_peel funpow_simps_right(2) o_apply)
  moreover have "acyclic (set ((peel ^^ length es) es))" if "some_cycles es = []" for es
    using that by (auto simp: some_cycles_def Let_def acyclic_def split: if_splits)
  ultimately show ?thesis by blast
qed

definition spec_doc :: pyval where
  "spec_doc = PDict [(''csm'', PDict [
     (''agent'', PDict [(''group'', PStr ''management''), (''ha'', PDict [(''mode'', PStr ''active_passive'')]),
        (''dependencies'', PDict [(''predecessors'', PList [PStr ''web'']), (''colocation'', PList [PStr ''web'']), (''relation'', PList [])])]),
     (''web'', PDict [(''group'', PStr ''io''), (''ha'', PDict [(''mode'', PStr ''active_active'')]),
        (''dependencies'', PDict [(''predecessors'', PList []), (''colocation'', PList [PStr ''agent'']), (''relation'', PList [PStr ''agent''])])])])]"

abbreviation spec_fs :: file_system where
  "spec_fs \<equiv> [''/s/csm.json'' \<mapsto> json_dump 0 spec_doc]"

lemma spec_parsed: "verify_ha_spec_schema spec_fs ''/s/csm.json'' =
    (spec_fs(''/s/csm.json.parse'' \<mapsto> json_dump 0 spec_doc), Inr spec_doc)"
proof -
  have "spec_text (json_dump 0 spec_doc) = json_dump 0 spec_doc" by code_simp
  moreover have "json_ok spec_doc" by code_simp
  then have "json_load (json_dump 0 spec_doc) = Some spec_doc" by (rule json_load_dump)
  moreover have "validate_component_group spec_doc = Inr ()" "validate_mode spec_doc = Inr ()" by code_simp+
  ultimately show ?thesis by (simp add: verify_ha_spec_schema_def is_file_def is_valid_json_def)
qed

definition spec_compiled :: compiled_schema where
  "spec_compiled = fst (compile_graph (fst (add_components spec_doc [''csm''] empty_schema)))"

lemma spec_compiles: "\<exists>fs'. compile_specs some_cycles ''/s/'' [[''csm.json'', ''notes'']] spec_fs = (fs', spec_compiled, Inr ())"
proof -
  obtain cs where cs: "cs = fst (add_components spec_doc [''csm''] empty_schema)" by blast
  have "snd (add_components spec_doc [''csm''] empty_schema) = Inr ()" "py_keys spec_doc = Inr [''csm'']" by code_simp+
  then have a: "add_components spec_doc [''csm''] empty_schema = (cs, Inr ())" "py_keys spec_doc = Inr [''csm'']"
    by (simp_all add: cs prod_eq_iff)
  have "snd (compile_graph (fst (add_components spec_doc [''csm''] empty_schema))) = Inr ()" "verify_schema some_cycles spec_compiled = Inr ()"
    by code_simp+
  then have g: "compile_graph cs = (spec_compiled, Inr ())" "verify_schema some_cycles spec_compiled = Inr ()"
    by (simp_all add: spec_compiled_def cs prod_eq_iff)
  have e: "starts_with (rev ''csm.json'') (rev ''json'')" "\<not> starts_with (rev ''notes'') (rev ''json'')" by code_simp+
  show ?thesis
    using spec_parsed a g e by (simp add: compile_specs_def del: add_components.simps rev.simps)
qed

theorem hac_compile_sound_witness:
  "names_closed ''colocation'' (cp_resources spec_compiled) \<and> set (cp_predecessors spec_compiled) = {(PStr ''web'', ''agent'')}"
proof -
  obtain fs' where "compile_specs some_cycles ''/s/'' [[''csm.json'', ''notes'']] spec_fs = (fs', spec_compiled, Inr ())"
    using spec_compiles by blast
  note s = hac_compile_sound [OF some_cycles_ok this]
  have "cp_predecessors spec_compiled = [(PStr ''web'', ''agent'')]" by code_simp
  with s show ?thesis by simp
qed

end
