(* ===== verification/HaGenerate.thy ===== *)
theory HaGenerate
  imports HaCompile Effects "HOL-Library.Multiset"
begin

text \<open>
  The generators of src/py-utils/src/utils/ha/hac/generate.py, from the compiled document on: the
  script of pcs commands, the Kubernetes script, and the restriction of the document to
  some resources and what they depend on. The state is the text of the script so far.
  The substitution of variables in the document (by regular expressions on the printed
  document and \<open>ast.literal_eval\<close>) and the assignments at the head of the script are left out.
\<close>

section \<open>Names and commands\<close>

definition get_clone_name :: "pyval \<Rightarrow> pyval \<Rightarrow> pyexc + string" where
  "get_clone_name rs resource = err_bind (res_item rs resource) (\<lambda>v. err_bind (py_items v [''ha'', ''mode'']) (\<lambda>mode.
     Inr (if mode \<noteq> PStr ''active_passive''
          then py_str resource @ (if mode = PStr ''active_active'' then ''-clone'' else ''_Primary'')
          else py_str resource)))"

text \<open>Numbers in the templates are substituted as texts.\<close>

type_synonym seconds = string
type_synonym instances = string

definition order_cmd :: "string \<Rightarrow> string \<Rightarrow> string \<Rightarrow> string" where
  "order_cmd cfg res1 res2 = ''echo $pcs_status | grep -q '' @ [CHR 0x27] @ ''start '' @ res1 @ '' then start '' @ res2 @ [CHR 0x27] @
     '' || pcs -f '' @ cfg @ '' constraint order '' @ res1 @ '' then '' @ res2"

definition colocation_cmd :: "string \<Rightarrow> string \<Rightarrow> string \<Rightarrow> string" where
  "colocation_cmd cfg res1 res2 = ''echo $pcs_status | grep -q '' @ [CHR 0x27] @ ''set '' @ res1 @ '' '' @ res2 @ [CHR 0x27] @
     '' || pcs -f '' @ cfg @ '' constraint colocation set '' @ res1 @ '' '' @ res2"

definition location_cmd :: "string \<Rightarrow> string \<Rightarrow> string \<Rightarrow> string \<Rightarrow> string" where
  "location_cmd cfg resource node score = ''echo $pcs_location | grep -q '' @ resource @ '' || pcs -f '' @ cfg @
     '' constraint location '' @ resource @ '' prefers '' @ node @ ''='' @ score"

definition create_cmd :: "string \<Rightarrow> string \<Rightarrow> string \<Rightarrow> string \<Rightarrow>
  seconds \<Rightarrow> seconds \<Rightarrow> seconds \<Rightarrow> seconds \<Rightarrow> seconds \<Rightarrow> string" where
  "create_cmd cfg resource provider param fail_tout mon_tout mon_in sta_tout sto_tout =
     ''echo $pcs_status | grep -q '' @ resource @ '' || pcs -f '' @ cfg @ '' resource create '' @ resource @ '' '' @ provider @ '' '' @
     param @ '' meta failure-timeout='' @ fail_tout @ '' op monitor timeout='' @ mon_tout @ '' interval='' @ mon_in @
     '' op start timeout='' @ sta_tout @ '' op stop timeout='' @ sto_tout"

definition clone_cmd :: "string \<Rightarrow> string \<Rightarrow> string \<Rightarrow> string \<Rightarrow> string \<Rightarrow> string" where
  "clone_cmd cfg resource clone_max clone_node_max param = ''echo $pcs_status | grep -q '' @ resource @ '' || pcs -f '' @ cfg @
     '' resource clone '' @ resource @ '' clone-max='' @ clone_max @ '' clone-node-max='' @ clone_node_max @ '' '' @ param"

definition primary_cmd :: "string \<Rightarrow> string \<Rightarrow> string \<Rightarrow> instances \<Rightarrow> instances \<Rightarrow> instances \<Rightarrow>
  instances \<Rightarrow> string \<Rightarrow> string" where
  "primary_cmd cfg primary resource clone_max clone_node_max primary_max primary_node_max param =
     ''echo $pcs_status | grep -q '' @ resource @ '' || pcs -f '' @ cfg @ '' resource master '' @ primary @ '' '' @ resource @
     '' clone-max='' @ clone_max @ '' clone-node-max='' @ clone_node_max @ '' master-max='' @ primary_max @
     '' master-node-max='' @ primary_node_max @ '' '' @ param"

section \<open>PCSGenerator\<close>

definition put_line :: "string \<Rightarrow> string \<Rightarrow> string \<times> (pyexc + unit)" where
  "put_line script t = (script @ t @ [CHR 0x0A], Inr ())"

text \<open>The text of the parameters: \<open>parameter + "=" + value + " "\<close>, values are strings.\<close>

definition param_text :: "pyval \<Rightarrow> pyexc + string" where
  "param_text v = err_bind (py_keys v) (\<lambda>ks. err_bind (err_map (\<lambda>k. err_bind (py_item v k) (\<lambda>x. case x of
       PStr s \<Rightarrow> Inr (k @ ''='' @ s @ '' '') | _ \<Rightarrow> Inl TypeError)) ks) (\<lambda>ts. Inr (concat ts)))"

definition res_params :: "pyval \<Rightarrow> pyexc + string" where
  "res_params v = err_bind (py_keys v) (\<lambda>ks. if ''parameters'' \<in> set ks then err_bind (py_item v ''parameters'') param_text else Inr [])"

text \<open>\<open>int(x.replace("s", "")) * 2\<close> for each timeout.\<close>

definition timeouts2 :: "pyval \<Rightarrow> pyexc + int list" where
  "timeouts2 v = err_bind (py_iter v) (err_map (\<lambda>x. case x of
      PStr s \<Rightarrow> err_bind (py_int (PStr (filter (\<lambda>c. c \<noteq> CHR ''s'') s))) (\<lambda>i. Inr (2 * i))
    | _ \<Rightarrow> Inl AttributeError))"

text \<open>The clone parameters are looked up under the name of the resource twice.\<close>

definition clone_params :: "pyval \<Rightarrow> string \<Rightarrow> pyexc + string" where
  "clone_params v res = err_bind (py_items v [''ha'', ''clones'']) (\<lambda>cl. err_bind (py_keys cl) (\<lambda>ks.
     if ''parameters'' \<in> set ks then
       err_bind (py_items v [res, ''ha'', ''clones'', ''parameters'']) (\<lambda>p. err_bind (py_keys p) (\<lambda>names.
         err_bind (err_map (\<lambda>k. err_bind (py_items cl [''parameters'', k]) (\<lambda>x. case x of
             PStr s \<Rightarrow> Inr (k @ ''='' @ s @ '' '') | _ \<Rightarrow> Inl TypeError)) names) (\<lambda>ts. Inr (concat ts))))
     else Inr []))"

definition item_str :: "pyval \<Rightarrow> string list \<Rightarrow> nat \<Rightarrow> pyexc + string" where
  "item_str v path i = err_bind (py_items v path) (\<lambda>x. err_bind (py_at x i) (\<lambda>y. Inr (py_str y)))"

definition create_clone :: "string \<Rightarrow> string \<Rightarrow> pyval \<Rightarrow> pyexc + string" where
  "create_clone cfg res v = err_bind (clone_params v res) (\<lambda>param.
     err_bind (item_str v [''ha'', ''clones'', ''active''] 1) (\<lambda>mx. err_bind (item_str v [''ha'', ''clones'', ''active''] 0) (\<lambda>nd.
       Inr (clone_cmd cfg res mx nd param))))"

definition create_primary :: "string \<Rightarrow> string \<Rightarrow> pyval \<Rightarrow> pyexc + string" where
  "create_primary cfg res v = err_bind (clone_params v res) (\<lambda>param.
     err_bind (item_str v [''ha'', ''clones'', ''active''] 1) (\<lambda>mx. err_bind (item_str v [''ha'', ''clones'', ''active''] 0) (\<lambda>nd.
     err_bind (item_str v [''ha'', ''clones'', ''primary''] 1) (\<lambda>pmx. err_bind (item_str v [''ha'', ''clones'', ''primary''] 0) (\<lambda>pnd.
       Inr (primary_cmd cfg (res @ ''_Primary'') res mx nd pmx pnd param))))))"

definition lift_line :: "string \<Rightarrow> pyexc + string \<Rightarrow> string \<times> (pyexc + unit)" where
  "lift_line script t = (case t of Inl e \<Rightarrow> (script, Inl e) | Inr l \<Rightarrow> put_line script l)"

definition create_mode :: "string \<Rightarrow> string \<Rightarrow> pyval \<Rightarrow> pyval \<Rightarrow> string \<Rightarrow> string \<times> (pyexc + unit)" where
  "create_mode cfg res v mode script =
     (if mode = PStr ''active_passive'' then (script, Inr ())
      else if mode = PStr ''active_active'' then lift_line script (create_clone cfg res v)
      else if mode = PStr ''primary_secondary'' then lift_line script (create_primary cfg res v)
      else (script, Inl (if is_list_dict mode then TypeError else KeyError)))"

definition res_command :: "string \<Rightarrow> string \<Rightarrow> pyval \<Rightarrow> pyexc + string" where
  "res_command cfg res v = err_bind (res_params v) (\<lambda>param. err_bind (py_items v [''provider'', ''timeouts'']) (\<lambda>ts.
     err_bind (timeouts2 ts) (\<lambda>t2. err_bind (py_items v [''provider'', ''name'']) (\<lambda>provider.
     err_bind (py_at ts 1) (\<lambda>mon. err_bind (py_items v [''provider'', ''interval'']) (\<lambda>int.
     err_bind (py_at ts 0) (\<lambda>sta. err_bind (py_at ts 2) (\<lambda>sto.
       Inr (create_cmd cfg res (py_str provider) param (show_int (Max (set t2)) @ ''s'') (py_str mon) (py_str int)
         (py_str sta) (py_str sto))))))))))"

definition res_create :: "string \<Rightarrow> string \<Rightarrow> pyval \<Rightarrow> pyval \<Rightarrow> string \<Rightarrow> string \<times> (pyexc + unit)" where
  "res_create cfg res v mode script = st_bind (lift_line script (res_command cfg res v)) (\<lambda>script _.
     st_bind (create_mode cfg res v mode script) (\<lambda>script _. (script @ [CHR 0x0A], Inr ())))"

text \<open>\<open>_create_order\<close> and \<open>_create_colocation\<close>.\<close>

definition edge_line :: "(string \<Rightarrow> string \<Rightarrow> string) \<Rightarrow> pyval \<Rightarrow> string \<Rightarrow> pyval \<Rightarrow> string \<times> (pyexc + unit)" where
  "edge_line cmd rs script edge = lift_line script
     (err_bind (py_at edge 0) (\<lambda>a. err_bind (get_clone_name rs a) (\<lambda>r0.
      err_bind (py_at edge 1) (\<lambda>b. err_bind (get_clone_name rs b) (\<lambda>r1. Inr (cmd r0 r1))))))"

definition create_edges :: "(string \<Rightarrow> string \<Rightarrow> string) \<Rightarrow> pyval \<Rightarrow> pyval \<Rightarrow> string \<Rightarrow> string \<Rightarrow> string \<times> (pyexc + unit)" where
  "create_edges cmd doc rs key script = (case err_bind (py_item doc key) py_iter of
      Inl e \<Rightarrow> (script, Inl e)
    | Inr es \<Rightarrow> for_each (edge_line cmd rs) script es)"

definition create_order :: "string \<Rightarrow> pyval \<Rightarrow> pyval \<Rightarrow> string \<Rightarrow> string \<times> (pyexc + unit)" where
  "create_order cfg doc rs script = create_edges (order_cmd cfg) doc rs ''predecessors_edge'' script"

definition create_colocation :: "string \<Rightarrow> pyval \<Rightarrow> pyval \<Rightarrow> string \<Rightarrow> string \<times> (pyexc + unit)" where
  "create_colocation cfg doc rs script = create_edges (colocation_cmd cfg) doc rs ''colocation_edges'' script"

definition create_location :: "string \<Rightarrow> pyval \<Rightarrow> string \<Rightarrow> string \<Rightarrow> string \<times> (pyexc + unit)" where
  "create_location cfg rs res script =
     (case err_bind (get_clone_name rs (PStr res)) (\<lambda>c. err_bind (py_items rs [res, ''ha'', ''location'']) (\<lambda>loc.
             err_bind (py_keys loc) (\<lambda>nodes. Inr (c, loc, nodes)))) of
        Inl e \<Rightarrow> (script, Inl e)
      | Inr (c, loc, nodes) \<Rightarrow> for_each (\<lambda>script node. lift_line script (err_bind (py_item loc node) (\<lambda>score.
          Inr (location_cmd cfg c node (py_str score))))) script nodes)"

definition resource_step :: "pyval \<Rightarrow> (string \<Rightarrow> pyval \<Rightarrow> pyval \<Rightarrow> string \<Rightarrow> string \<times> (pyexc + unit)) \<Rightarrow> string \<Rightarrow> string \<Rightarrow>
    string \<times> (pyexc + unit)" where
  "resource_step rs f script res = (case err_bind (py_item rs res) (\<lambda>v. err_bind (py_items v [''ha'', ''mode'']) (\<lambda>mode. Inr (v, mode))) of
      Inl e \<Rightarrow> (script, Inl e) | Inr (v, mode) \<Rightarrow> f res v mode script)"

text \<open>\<open>_cluster_create\<close>; whatever is raised in it becomes an Exception.\<close>

definition wrap_exception :: "'s \<times> (pyexc + 'a) \<Rightarrow> 's \<times> (pyexc + 'a)" where
  "wrap_exception x = (case x of (s, Inl e) \<Rightarrow> (s, Inl (PyException ''Exception'')) | (s, Inr a) \<Rightarrow> (s, Inr a))"

definition cluster_create :: "string \<Rightarrow> pyval \<Rightarrow> string \<Rightarrow> string \<times> (pyexc + unit)" where
  "cluster_create cfg doc script = wrap_exception (case err_bind (py_item doc ''resources'') (\<lambda>rs. err_bind (py_keys rs) (\<lambda>ks. Inr (rs, ks))) of
      Inl e \<Rightarrow> (script, Inl e)
    | Inr (rs, ks) \<Rightarrow>
        st_bind (for_each (resource_step rs (res_create cfg)) script ks) (\<lambda>script _.
        st_bind (for_each (resource_step rs (\<lambda>res v mode. create_location cfg rs res)) (script @ [CHR 0x0A, CHR 0x0A] @ ''#Location'' @ [CHR 0x0A]) ks) (\<lambda>script _.
        st_bind (create_order cfg doc rs (script @ [CHR 0x0A, CHR 0x0A] @ ''#Order'' @ [CHR 0x0A])) (\<lambda>script _.
        st_bind (create_colocation cfg doc rs (script @ [CHR 0x0A, CHR 0x0A] @ ''#Colocation'' @ [CHR 0x0A])) (\<lambda>script _.
        st_bind (put_line script (''pcs cluster verify -V '' @ cfg)) (\<lambda>script _.
        put_line script (''pcs cluster cib-push '' @ cfg)))))))"

text \<open>\<open>KubernetesGenerator.create_script\<close>.\<close>

definition k8s_script :: "pyval \<Rightarrow> string \<times> (pyexc + unit)" where
  "k8s_script doc = (let head = ''#!/bin/bash'' @ [CHR 0x0A, CHR 0x0A] @ ''# Create Pod'' @ [CHR 0x0A] in
     case err_bind (py_item doc ''resources'') py_keys of
       Inl e \<Rightarrow> (head, Inl e)
     | Inr ks \<Rightarrow> for_each (\<lambda>script r. put_line script (''kubectl deploy pod '' @ r @ ''.yaml'')) head ks)"

section \<open>PCSGeneratorResource\<close>

text \<open>The dependencies of a resource: its predecessors, then its colocated resources.\<close>

definition dependencies_of :: "pyval \<Rightarrow> pyval \<Rightarrow> pyexc + pyval list" where
  "dependencies_of doc resource = err_bind (py_item doc ''resources'') (\<lambda>rs. err_bind (res_item rs resource) (\<lambda>v.
     err_bind (py_items v [''dependencies'', ''predecessors'']) (\<lambda>p. err_bind (py_items v [''dependencies'', ''colocation'']) (\<lambda>c.
     err_bind (py_iter p) (\<lambda>ps. err_bind (py_iter c) (\<lambda>cs. Inr (ps @ cs)))))))"

text \<open>\<open>_search_recursive\<close>: the loop runs over a list that its body extends. None is a loop that
  never ends.\<close>

partial_function (option) search_from :: "(pyval \<Rightarrow> pyexc + pyval list) \<Rightarrow> nat \<Rightarrow> pyval list \<Rightarrow> (pyexc + pyval list) option" where
  "search_from deps i xs = (if length xs \<le> i then Some (Inr xs)
     else case deps (xs ! i) of
       Inl e \<Rightarrow> Some (Inl e)
     | Inr ds \<Rightarrow> search_from deps (Suc i) (xs @ ds))"

definition search_recursive :: "pyval \<Rightarrow> pyval list \<Rightarrow> (pyexc + pyval list) option" where
  "search_recursive doc resources = map_option (\<lambda>r. case r of Inl e \<Rightarrow> Inl e | Inr xs \<Rightarrow> Inr (remdups xs))
     (search_from (dependencies_of doc) 0 resources)"

text \<open>The resources, the edges and the isolated resources that stay.\<close>

definition keep_resources :: "pyval list \<Rightarrow> pydict \<Rightarrow> pydict" where
  "keep_resources names rs = filter (\<lambda>(r, v). PStr r \<in> set names) rs"

fun keep_edges :: "pyval list \<Rightarrow> pyval list \<Rightarrow> pyval list \<Rightarrow> pyexc + pyval list" where
  "keep_edges names [] left = Inr left"
| "keep_edges names (e # es) left = err_bind (py_at e 0) (\<lambda>a.
     if a \<notin> set names then keep_edges names es (py_remove e left)
     else err_bind (py_at e 1) (\<lambda>b. keep_edges names es (if b \<notin> set names then py_remove e left else left)))"

definition keep_isolated :: "pyval list \<Rightarrow> pyval list \<Rightarrow> pyval list" where
  "keep_isolated names rs = fold (\<lambda>r left. if r \<notin> set names then py_remove r left else left) rs rs"

text \<open>The edge lists of a compiled document are lists.\<close>

definition doc_list :: "pyval \<Rightarrow> string \<Rightarrow> pyexc + pyval list" where
  "doc_list doc key = err_bind (py_item doc key) (\<lambda>v. case v of PList xs \<Rightarrow> Inr xs | _ \<Rightarrow> Inl AttributeError)"

definition restrict_doc :: "pydict \<Rightarrow> pydict \<Rightarrow> pyval list \<Rightarrow> pyexc + pyval" where
  "restrict_doc d rs found =
     err_bind (doc_list (PDict d) ''predecessors_edge'') (\<lambda>ps. err_bind (keep_edges found ps ps) (\<lambda>ps'.
     err_bind (doc_list (PDict d) ''colocation_edges'') (\<lambda>cs. err_bind (keep_edges found cs cs) (\<lambda>cs'.
     err_bind (doc_list (PDict d) ''isolate_resources'') (\<lambda>is.
       Inr (PDict (AList.update ''isolate_resources'' (PList (keep_isolated found is))
         (AList.update ''colocation_edges'' (PList cs') (AList.update ''predecessors_edge'' (PList ps')
         (AList.update ''resources'' (PDict (keep_resources found rs)) d))))))))))"

definition modify_schema :: "pydict \<Rightarrow> string list option \<Rightarrow> (pyexc + pyval) option" where
  "modify_schema d resources = (case resources of
      None \<Rightarrow> Some (Inr (PDict d))
    | Some names \<Rightarrow> (case py_item (PDict d) ''resources'' of
          Inl e \<Rightarrow> Some (Inl e)
        | Inr (PDict rs) \<Rightarrow>
            if \<not> set names \<subseteq> fst ` set rs then Some (Inl (PyException ''Exception''))
            else map_option (\<lambda>r. err_bind r (restrict_doc d rs)) (search_recursive (PDict d) (map PStr names))
        | Inr _ \<Rightarrow> Some (Inl AttributeError)))"

section \<open>The search ends exactly on well-founded dependencies\<close>

definition dep_rel :: "(pyval \<Rightarrow> pyexc + pyval list) \<Rightarrow> (pyval \<times> pyval) set" where
  "dep_rel deps = {(d, x) | d x ds. deps x = Inr ds \<and> d \<in> set ds}"

lemma search_step: "i < length xs \<Longrightarrow> deps (xs ! i) = Inr ds \<Longrightarrow> search_from deps i xs = search_from deps (Suc i) (xs @ ds)"
  by (subst search_from.simps) simp

lemma search_done: "length xs \<le> i \<Longrightarrow> search_from deps i xs = Some (Inr xs)"
  by (subst search_from.simps) simp

text \<open>A search that returns has seen only resources below which every chain of dependencies
  ends.\<close>

lemma acc_dep: "deps x = Inr ds \<Longrightarrow> (\<And>d. d \<in> set ds \<Longrightarrow> d \<in> Wellfounded.acc (dep_rel deps)) \<Longrightarrow> x \<in> Wellfounded.acc (dep_rel deps)"
  by (rule accI) (auto simp: dep_rel_def)

lemma search_acc:
  assumes "search_from deps i xs = Some r"
  shows "\<forall>ys. r = Inr ys \<longrightarrow> set (drop i xs) \<subseteq> Wellfounded.acc (dep_rel deps)"
proof (rule search_from.raw_induct [where P = "\<lambda>deps i xs r. \<forall>ys. r = Inr ys \<longrightarrow> set (drop i xs) \<subseteq> Wellfounded.acc (dep_rel deps)"])
  show "search_from deps i xs = Some r" by (rule assms)
next
  fix search deps i xs and r :: "pyexc + pyval list"
  assume 1: "\<And>deps i xs r. search deps i xs = Some r \<Longrightarrow> \<forall>ys. r = Inr ys \<longrightarrow> set (drop i xs) \<subseteq> Wellfounded.acc (dep_rel deps)"
    "(if length xs \<le> i then Some (Inr xs) else case deps (xs ! i) of Inl e \<Rightarrow> Some (Inl e)
      | Inr ds \<Rightarrow> search deps (Suc i) (xs @ ds)) = Some r"
  show "\<forall>ys. r = Inr ys \<longrightarrow> set (drop i xs) \<subseteq> Wellfounded.acc (dep_rel deps)"
  proof (cases "length xs \<le> i")
    case False
    show ?thesis
    proof (intro allI impI)
      fix ys assume r: "r = Inr ys"
      obtain ds where ds: "deps (xs ! i) = Inr ds" "search deps (Suc i) (xs @ ds) = Some r"
        using 1(2) False r by (auto split: sum.splits)
      have "set (drop (Suc i) (xs @ ds)) \<subseteq> Wellfounded.acc (dep_rel deps)" using 1(1) [of deps "Suc i" "xs @ ds" r] ds(2) r by blast
      then have d: "set (drop (Suc i) xs) \<subseteq> Wellfounded.acc (dep_rel deps)" "set ds \<subseteq> Wellfounded.acc (dep_rel deps)"
        using False by simp_all
      have "xs ! i \<in> Wellfounded.acc (dep_rel deps)" using acc_dep [of deps, OF ds(1)] d(2) by blast
      moreover have "drop i xs = xs ! i # drop (Suc i) xs" using False by (simp add: Cons_nth_drop_Suc)
      ultimately show "set (drop i xs) \<subseteq> Wellfounded.acc (dep_rel deps)" using d(1) by simp
    qed
  qed simp
qed

text \<open>What resources need: everything below them.\<close>

definition needs :: "(pyval \<Rightarrow> pyexc + pyval list) \<Rightarrow> pyval set \<Rightarrow> pyval set" where
  "needs deps S = ((dep_rel deps)\<inverse>)\<^sup>* `` S"

lemma needs_self: "S \<subseteq> needs deps S"
  by (auto simp: needs_def)

lemma needs_Un [simp]: "needs deps (S \<union> T) = needs deps S \<union> needs deps T"
  by (auto simp: needs_def)

lemma needs_single: "deps x = Inr ds \<Longrightarrow> needs deps {x} = insert x (needs deps (set ds))"
proof (intro equalityI subsetI)
  fix y assume d: "deps x = Inr ds" and "y \<in> needs deps {x}"
  then have "(x, y) \<in> ((dep_rel deps)\<inverse>)\<^sup>*" by (simp add: needs_def)
  then show "y \<in> insert x (needs deps (set ds))"
    by (cases rule: converse_rtranclE) (use d in \<open>auto simp: needs_def dep_rel_def\<close>)
next
  fix y assume d: "deps x = Inr ds" and "y \<in> insert x (needs deps (set ds))"
  moreover have "z \<in> set ds \<Longrightarrow> (x, z) \<in> (dep_rel deps)\<inverse>" for z using d by (auto simp: dep_rel_def)
  ultimately show "y \<in> needs deps {x}" by (auto simp: needs_def intro: converse_rtrancl_into_rtrancl)
qed

lemma search_result:
  assumes "search_from deps i xs = Some r"
  shows "\<forall>ys. r = Inr ys \<longrightarrow> set ys = set xs \<union> needs deps (set (drop i xs))"
proof (rule search_from.raw_induct [where P = "\<lambda>deps i xs r. \<forall>ys. r = Inr ys \<longrightarrow> set ys = set xs \<union> needs deps (set (drop i xs))"])
  show "search_from deps i xs = Some r" by (rule assms)
next
  fix search deps i xs and r :: "pyexc + pyval list"
  assume 1: "\<And>deps i xs r. search deps i xs = Some r \<Longrightarrow> \<forall>ys. r = Inr ys \<longrightarrow> set ys = set xs \<union> needs deps (set (drop i xs))"
    "(if length xs \<le> i then Some (Inr xs) else case deps (xs ! i) of Inl e \<Rightarrow> Some (Inl e)
      | Inr ds \<Rightarrow> search deps (Suc i) (xs @ ds)) = Some r"
  show "\<forall>ys. r = Inr ys \<longrightarrow> set ys = set xs \<union> needs deps (set (drop i xs))"
  proof (cases "length xs \<le> i")
    case True
    then show ?thesis using 1(2) by (auto simp: needs_def)
  next
    case False
    show ?thesis
    proof (intro allI impI)
      fix ys assume r: "r = Inr ys"
      obtain ds where ds: "deps (xs ! i) = Inr ds" "search deps (Suc i) (xs @ ds) = Some r"
        using 1(2) False r by (auto split: sum.splits)
      have ys: "set ys = set (xs @ ds) \<union> needs deps (set (drop (Suc i) (xs @ ds)))"
        using 1(1) [of deps "Suc i" "xs @ ds" r] ds(2) r by blast
      have "set (drop (Suc i) (xs @ ds)) = set (drop (Suc i) xs) \<union> set ds" using False by simp
      then have ys: "set ys = set (xs @ ds) \<union> (needs deps (set (drop (Suc i) xs)) \<union> needs deps (set ds))"
        using ys by (simp only: needs_Un)
      have "set (drop i xs) = {xs ! i} \<union> set (drop (Suc i) xs)" using False by (simp flip: Cons_nth_drop_Suc)
      then have "needs deps (set (drop i xs)) = insert (xs ! i) (needs deps (set ds)) \<union> needs deps (set (drop (Suc i) xs))"
        by (simp only: needs_Un needs_single [of deps "xs ! i" ds, OF ds(1)])
      moreover have "xs ! i \<in> set xs" "set ds \<subseteq> needs deps (set ds)" using False needs_self by simp_all
      ultimately show "set ys = set xs \<union> needs deps (set (drop i xs))" using ys by auto
    qed
  qed
qed

text \<open>On resources that are all known and below which every chain ends, the search returns: the
  list that is still to be handled decreases in the multiset order.\<close>

definition known :: "(pyval \<Rightarrow> pyexc + pyval list) \<Rightarrow> pyval set \<Rightarrow> bool" where
  "known deps A \<longleftrightarrow> (\<forall>x \<in> A. \<exists>ds. deps x = Inr ds \<and> set ds \<subseteq> A)"

definition acc_part :: "('a \<times> 'a) set \<Rightarrow> ('a \<times> 'a) set" where
  "acc_part r = {(d, x) \<in> r. x \<in> Wellfounded.acc r}"

lemma acc_part_self: "x \<in> Wellfounded.acc r \<Longrightarrow> x \<in> Wellfounded.acc (acc_part r)"
proof (induction rule: acc.induct)
  case (accI x)
  then show ?case by - (rule acc.accI, auto simp: acc_part_def)
qed

lemma wf_acc_part: "wf (acc_part r)"
proof (rule acc_wfI, rule allI)
  fix x show "x \<in> Wellfounded.acc (acc_part r)"
  proof (cases "x \<in> Wellfounded.acc r")
    case True
    then show ?thesis by (rule acc_part_self)
  next
    case False
    then show ?thesis by - (rule acc.accI, auto simp: acc_part_def)
  qed
qed

lemma search_returns:
  assumes k: "known deps A" and s: "set (drop i xs) \<subseteq> A" "set (drop i xs) \<subseteq> Wellfounded.acc (dep_rel deps)"
  shows "\<exists>ys. search_from deps i xs = Some (Inr ys)"
  using s
proof (induction "mset (drop i xs)" arbitrary: i xs rule: wf_induct_rule [OF wf_mult [OF wf_acc_part [of "dep_rel deps"]]])
  case (1 i xs)
  show ?case
  proof (cases "length xs \<le> i")
    case True
    then show ?thesis by (simp add: search_done)
  next
    case False
    have sp: "drop i xs = xs ! i # drop (Suc i) xs" using False by (simp add: Cons_nth_drop_Suc)
    have x: "xs ! i \<in> A" "xs ! i \<in> Wellfounded.acc (dep_rel deps)" using 1(2,3) sp by auto
    obtain ds where ds: "deps (xs ! i) = Inr ds" "set ds \<subseteq> A" using k x(1) by (auto simp: known_def)
    have below: "(d, xs ! i) \<in> acc_part (dep_rel deps)" if "d \<in> set ds" for d
      using that ds(1) x(2) by (auto simp: acc_part_def dep_rel_def)
    have dacc: "set ds \<subseteq> Wellfounded.acc (dep_rel deps)"
      using below x(2) by (auto simp: acc_part_def intro: acc_downward)
    have dr: "drop (Suc i) (xs @ ds) = drop (Suc i) xs @ ds" using False by simp
    have e1: "mset (drop (Suc i) (xs @ ds)) = mset (drop (Suc i) xs) + mset ds" by (simp only: dr mset_append)
    have e2: "mset (drop i xs) = mset (drop (Suc i) xs) + {#xs ! i#}" by (subst sp) simp
    have "(mset (drop (Suc i) xs) + mset ds, mset (drop (Suc i) xs) + {#xs ! i#}) \<in> mult (acc_part (dep_rel deps))"
      by (rule one_step_implies_mult) (use below in auto)
    then have m: "(mset (drop (Suc i) (xs @ ds)), mset (drop i xs)) \<in> mult (acc_part (dep_rel deps))"
      by (simp only: e1 e2)
    have "\<exists>ys. search_from deps (Suc i) (xs @ ds) = Some (Inr ys)"
      by (rule 1(1) [OF m]) (use 1(2,3) ds(2) dacc in \<open>auto simp only: sp dr set_append list.set\<close>)
    then show ?thesis using search_step [of i xs deps ds] False ds(1) by simp
  qed
qed

text \<open>With finitely many known resources, every chain ends when no resource that is needed
  depends on itself.\<close>

definition cyclic :: "(pyval \<Rightarrow> pyexc + pyval list) \<Rightarrow> pyval \<Rightarrow> bool" where
  "cyclic deps x \<longleftrightarrow> (x, x) \<in> (dep_rel deps)\<^sup>+"

lemma acc_not_cyclic: "x \<in> Wellfounded.acc r \<Longrightarrow> (x, x) \<notin> r\<^sup>+"
proof (induction rule: acc.induct)
  case (accI x)
  show ?case
  proof
    assume "(x, x) \<in> r\<^sup>+"
    then obtain y where "(x, y) \<in> r\<^sup>*" "(y, x) \<in> r" by (auto dest: tranclD2)
    then show False using accI by (metis rtrancl_into_trancl2)
  qed
qed

lemma needs_closed: "x \<in> needs deps S \<Longrightarrow> (d, x) \<in> dep_rel deps \<Longrightarrow> d \<in> needs deps S"
  by (auto simp: needs_def intro: rtrancl_into_rtrancl)

lemma needs_known: "known deps A \<Longrightarrow> S \<subseteq> A \<Longrightarrow> needs deps S \<subseteq> A"
proof
  fix y assume k: "known deps A" "S \<subseteq> A" and "y \<in> needs deps S"
  then obtain x where x: "x \<in> S" "(x, y) \<in> ((dep_rel deps)\<inverse>)\<^sup>*" by (auto simp: needs_def)
  from x(2) show "y \<in> A"
    by (induction rule: rtrancl_induct) (use k x(1) in \<open>auto simp: known_def dep_rel_def, fastforce\<close>)
qed

lemma acc_needs: "S \<subseteq> Wellfounded.acc (dep_rel deps) \<Longrightarrow> needs deps S \<subseteq> Wellfounded.acc (dep_rel deps)"
  by (auto simp: needs_def rtrancl_converse dest: acc_downwards)

lemma acc_if_acyclic:
  assumes f: "finite (needs deps S)" and c: "\<forall>x \<in> needs deps S. \<not> cyclic deps x"
  shows "S \<subseteq> Wellfounded.acc (dep_rel deps)"
proof -
  let ?q = "dep_rel deps \<inter> (needs deps S \<times> needs deps S)"
  have "(x, x) \<notin> ?q\<^sup>+" for x
  proof
    assume a: "(x, x) \<in> ?q\<^sup>+"
    then have "x \<in> needs deps S" by (auto dest: tranclD)
    moreover have "cyclic deps x" unfolding cyclic_def by (rule trancl_mono [OF a]) auto
    ultimately show False using c by blast
  qed
  then have "wf ?q" using f by (intro finite_acyclic_wf) (auto simp: acyclic_def)
  then have "x \<in> needs deps S \<longrightarrow> x \<in> Wellfounded.acc (dep_rel deps)" for x
  proof (induction x)
    case (less x)
    show ?case
    proof
      assume x: "x \<in> needs deps S"
      show "x \<in> Wellfounded.acc (dep_rel deps)"
        by (rule acc.accI) (use x less needs_closed in blast)
    qed
  qed
  then show ?thesis using needs_self by blast
qed

lemma search_known:
  assumes "search_from deps i xs = Some r"
  shows "\<forall>A. known deps A \<and> set (drop i xs) \<subseteq> A \<longrightarrow> (\<exists>ys. r = Inr ys)"
proof (rule search_from.raw_induct [where P = "\<lambda>deps i xs r. \<forall>A. known deps A \<and> set (drop i xs) \<subseteq> A \<longrightarrow> (\<exists>ys. r = Inr ys)"])
  show "search_from deps i xs = Some r" by (rule assms)
next
  fix search deps i xs and r :: "pyexc + pyval list"
  assume 1: "\<And>deps i xs r. search deps i xs = Some r \<Longrightarrow> \<forall>A. known deps A \<and> set (drop i xs) \<subseteq> A \<longrightarrow> (\<exists>ys. r = Inr ys)"
    "(if length xs \<le> i then Some (Inr xs) else case deps (xs ! i) of Inl e \<Rightarrow> Some (Inl e)
      | Inr ds \<Rightarrow> search deps (Suc i) (xs @ ds)) = Some r"
  show "\<forall>A. known deps A \<and> set (drop i xs) \<subseteq> A \<longrightarrow> (\<exists>ys. r = Inr ys)"
  proof (intro allI impI)
    fix A assume k: "known deps A \<and> set (drop i xs) \<subseteq> A"
    show "\<exists>ys. r = Inr ys"
    proof (cases "length xs \<le> i")
      case False
      have sp: "drop i xs = xs ! i # drop (Suc i) xs" using False by (simp add: Cons_nth_drop_Suc)
      obtain ds where ds: "deps (xs ! i) = Inr ds" "set ds \<subseteq> A" using k sp by (auto simp: known_def)
      have "search deps (Suc i) (xs @ ds) = Some r" using 1(2) False ds(1) by simp
      moreover have "set (drop (Suc i) (xs @ ds)) \<subseteq> A" using k sp ds(2) False by simp
      ultimately show ?thesis using 1(1) [of deps "Suc i" "xs @ ds" r] k by blast
    qed (use 1(2) in auto)
  qed
qed

definition reaches_cycle :: "pyval \<Rightarrow> pyval set \<Rightarrow> bool" where
  "reaches_cycle doc S \<longleftrightarrow> (\<exists>x \<in> needs (dependencies_of doc) S. cyclic (dependencies_of doc) x)"

text \<open>Claim C11. Restricting a compiled document to some resources: when every dependency names a
  resource of the document, the search for what the resources need never fails, and it
  ends exactly when none of the needed resources depends on itself, through predecessors or
  colocation; it then finds every needed resource once and no other. (The compiler rejects
  cycles of predecessors only: two resources that name each other under colocation compile,
  and the search on them never ends.)\<close>

theorem hac_search_ends:
  assumes "finite A" "known (dependencies_of doc) A" "set rs \<subseteq> A"
  shows "case search_recursive doc rs of
      None \<Rightarrow> reaches_cycle doc (set rs)
    | Some (Inl e) \<Rightarrow> False
    | Some (Inr found) \<Rightarrow> \<not> reaches_cycle doc (set rs) \<and> distinct found \<and> set found = needs (dependencies_of doc) (set rs)"
proof -
  let ?d = "dependencies_of doc"
  have fin: "finite (needs ?d (set rs))" using needs_known [OF assms(2,3)] assms(1) by (rule finite_subset)
  show ?thesis
  proof (cases "search_from ?d 0 rs")
    case None
    then have "\<not> set rs \<subseteq> Wellfounded.acc (dep_rel ?d)" using search_returns [OF assms(2), of 0 rs] assms(3) by auto
    then show ?thesis using acc_if_acyclic [OF fin] None by (auto simp: search_recursive_def reaches_cycle_def)
  next
    case (Some r)
    then obtain ys where r: "r = Inr ys" using search_known [OF Some] assms by auto
    have "set rs \<subseteq> Wellfounded.acc (dep_rel ?d)" using search_acc [OF Some] r by simp
    from acc_needs [OF this] have "\<not> cyclic ?d x" if "x \<in> needs ?d (set rs)" for x
      unfolding cyclic_def using that by (intro acc_not_cyclic) (rule subsetD)
    then have "\<not> reaches_cycle doc (set rs)" by (simp add: reaches_cycle_def)
    moreover have "set ys = needs ?d (set rs)" using search_result [OF Some] r needs_self by auto
    ultimately show ?thesis by (simp add: search_recursive_def Some r)
  qed
qed

definition colocated_doc :: pyval where
  "colocated_doc = PDict [(''resources'', PDict
     [(''a'', PDict [(''dependencies'', PDict [(''predecessors'', PList []), (''colocation'', PList [PStr ''b''])])]),
      (''b'', PDict [(''dependencies'', PDict [(''predecessors'', PList []), (''colocation'', PList [PStr ''a''])])]),
      (''c'', PDict [(''dependencies'', PDict [(''predecessors'', PList [PStr ''d'']), (''colocation'', PList [])])]),
      (''d'', PDict [(''dependencies'', PDict [(''predecessors'', PList []), (''colocation'', PList [])])])])]"

lemma colocated_deps:
  "dependencies_of colocated_doc (PStr ''a'') = Inr [PStr ''b'']"
  "dependencies_of colocated_doc (PStr ''b'') = Inr [PStr ''a'']"
  "dependencies_of colocated_doc (PStr ''c'') = Inr [PStr ''d'']"
  "dependencies_of colocated_doc (PStr ''d'') = Inr []"
  by code_simp+

theorem hac_search_ends_witness:
  "search_recursive colocated_doc [PStr ''a''] = None
   \<and> (\<exists>found. search_recursive colocated_doc [PStr ''c''] = Some (Inr found))"
proof -
  let ?d = "dependencies_of colocated_doc"
  let ?A = "{PStr ''a'', PStr ''b'', PStr ''c'', PStr ''d''}"
  have k: "known ?d ?A" by (simp add: known_def colocated_deps)
  have ab: "(PStr ''b'', PStr ''a'') \<in> dep_rel ?d" "(PStr ''a'', PStr ''b'') \<in> dep_rel ?d"
    by (auto simp: dep_rel_def colocated_deps)
  have "cyclic ?d (PStr ''a'')" unfolding cyclic_def by (rule trancl_into_trancl2 [OF ab(2)]) (use ab(1) in blast)
  then have "reaches_cycle colocated_doc (set [PStr ''a''])" by (auto simp: reaches_cycle_def needs_def)
  then have "search_recursive colocated_doc [PStr ''a''] = None"
    using hac_search_ends [OF _ k, of "[PStr ''a'']"] by (auto split: option.splits sum.splits)
  moreover have "search_from ?d 0 [PStr ''c''] = Some (Inr [PStr ''c'', PStr ''d''])"
    by (subst search_from.simps, simp add: colocated_deps, subst search_from.simps, simp add: colocated_deps, simp add: search_done)
  then have "\<exists>found. search_recursive colocated_doc [PStr ''c''] = Some (Inr found)" by (simp add: search_recursive_def)
  ultimately show ?thesis ..
qed

end
