(* ===== verification/DataAccess.thy ===== *)
theory DataAccess
  imports PyOps
begin

text \<open>
  Filters, queries and models of src/py-utils/src/utils/data/access, and the evaluation of a filter
  on the objects of a collection, as GenericQueryConverter (data/db/generic_storage.py) and
  ConsulQueryConverterWithData (data/db/consul_db/storage.py) do it. The package schematics,
  which the models come from, is the record \<open>model_class\<close> of what the code uses of it.
\<close>

section \<open>Values of the fields\<close>

text \<open>A field of a model holds a Python value or, for a DateTimeType, a date.\<close>

datatype native = NVal pyval | NTime int

text \<open>\<open>a < b\<close> of Python.\<close>

fun chars_less :: "string \<Rightarrow> string \<Rightarrow> bool" where
  "chars_less s [] = False"
| "chars_less [] (d # t) = True"
| "chars_less (c # s) (d # t) = (if c = d then chars_less s t else (of_char c :: nat) < of_char d)"

fun py_less :: "pyval \<Rightarrow> pyval \<Rightarrow> pyexc + bool"
  and less_list :: "pyval list \<Rightarrow> pyval list \<Rightarrow> pyexc + bool" where
  "py_less (PStr s) w = (case w of PStr t \<Rightarrow> Inr (chars_less s t) | _ \<Rightarrow> Inl TypeError)"
| "py_less (PList xs) w = (case w of PList ys \<Rightarrow> less_list xs ys | _ \<Rightarrow> Inl TypeError)"
| "py_less v w = (case (py_num v, py_num w) of (Some a, Some b) \<Rightarrow> Inr (a < b) | _ \<Rightarrow> Inl TypeError)"
| "less_list xs [] = Inr False"
| "less_list [] (y # ys) = Inr True"
| "less_list (x # xs) (y # ys) = (if py_eq x y then less_list xs ys else py_less x y)"

definition native_eq :: "native \<Rightarrow> native \<Rightarrow> bool" where
  "native_eq a b = (case (a, b) of (NVal v, NVal w) \<Rightarrow> py_eq v w | (NTime s, NTime t) \<Rightarrow> s = t | _ \<Rightarrow> False)"

definition native_less :: "native \<Rightarrow> native \<Rightarrow> pyexc + bool" where
  "native_less a b = (case (a, b) of (NVal v, NVal w) \<Rightarrow> py_less v w | (NTime s, NTime t) \<Rightarrow> Inr (s < t) | _ \<Rightarrow> Inl TypeError)"

definition native_leq :: "native \<Rightarrow> native \<Rightarrow> pyexc + bool" where
  "native_leq a b = err_bind (native_less a b) (\<lambda>l. Inr (l \<or> native_eq a b))"

text \<open>\<open>operator.contains(a, b)\<close>, that is \<open>b in a\<close>.\<close>

definition native_contains :: "native \<Rightarrow> native \<Rightarrow> pyexc + bool" where
  "native_contains a b = (case (a, b) of
      (NVal (PStr s), NVal (PStr t)) \<Rightarrow> Inr (str_in t s)
    | (NVal (PList xs), NVal v) \<Rightarrow> Inr (list_ex (\<lambda>x. py_eq x v) xs)
    | (NVal (PList xs), NTime _) \<Rightarrow> Inr False
    | (NVal (PDict d), NVal (PStr t)) \<Rightarrow> Inr (t \<in> fst ` set d)
    | (NVal (PDict d), NVal v) \<Rightarrow> if is_list_dict v then Inl TypeError else Inr False
    | (NVal (PDict d), NTime _) \<Rightarrow> Inr False
    | _ \<Rightarrow> Inl TypeError)"

section \<open>Filters\<close>

datatype comparison = OPERATION_GT | OPERATION_LT | OPERATION_EQ | OPERATION_LEQ | OPERATION_GEQ
  | OPERATION_NE | OPERATION_LIKE

definition from_standard_representation :: "string \<Rightarrow> pyexc + comparison" where
  "from_standard_representation opr = (case map_of [(''='', OPERATION_EQ), (''>'', OPERATION_GT), (''<'', OPERATION_LT),
       (''>='', OPERATION_GEQ), (''<='', OPERATION_LEQ), (''!='', OPERATION_NE), (''like'', OPERATION_LIKE)] opr of
      Some c \<Rightarrow> Inr c | None \<Rightarrow> Inl MalformedQueryError)"

text \<open>The left operand of a comparison: the name of a field, a field object of a model, or
  something else.\<close>

datatype operand = FieldName string | Field string | NoField

datatype ifilter =
    FilterOperationAnd "ifilter list"
  | FilterOperationOr "ifilter list"
  | FilterOperationCompare operand comparison native

text \<open>The functions \<open>And\<close>, \<open>Or\<close> and \<open>Compare\<close> with the checks of the constructors they call.\<close>

definition new_filter :: "(ifilter list \<Rightarrow> ifilter) \<Rightarrow> ifilter list \<Rightarrow> pyexc + ifilter" where
  "new_filter mk args = (if length args < 2 then Inl MalformedQueryError else Inr (mk args))"

definition nested :: "(ifilter list \<Rightarrow> ifilter) \<Rightarrow> ifilter list \<Rightarrow> pyexc + ifilter" where
  "nested mk args = (if args = [] then Inl MalformedQueryError
     else if length args = 1 then Inr (args ! 0)
     else new_filter mk args)"

definition And_filter :: "ifilter list \<Rightarrow> pyexc + ifilter" where
  "And_filter args = nested FilterOperationAnd args"

definition Or_filter :: "ifilter list \<Rightarrow> pyexc + ifilter" where
  "Or_filter args = nested FilterOperationOr args"

definition Compare_filter :: "operand \<Rightarrow> string \<Rightarrow> native \<Rightarrow> pyexc + ifilter" where
  "Compare_filter left operation right = err_bind (from_standard_representation operation)
     (\<lambda>opr. Inr (FilterOperationCompare left opr right))"

section \<open>Queries\<close>

datatype sort_order = ASC | DESC

record order_by =
  ob_field :: operand
  ob_order :: sort_order
  ob_kwargs :: "(string \<times> pyval) list"

record query =
  q_order_by :: "order_by option"
  q_filter_by :: "ifilter option"
  q_limit :: "int option"
  q_offset :: "int option"

definition Query :: query where
  "Query = \<lparr>q_order_by = None, q_filter_by = None, q_limit = None, q_offset = None\<rparr>"

definition query_order_by :: "query \<Rightarrow> operand \<Rightarrow> sort_order \<Rightarrow> (string \<times> pyval) list \<Rightarrow> query" where
  "query_order_by q by_field by_order kwargs =
     q\<lparr>q_order_by := Some \<lparr>ob_field = by_field, ob_order = by_order, ob_kwargs = kwargs\<rparr>\<rparr>"

definition query_filter_by :: "query \<Rightarrow> ifilter \<Rightarrow> query" where
  "query_filter_by q by_filter = q\<lparr>q_filter_by := Some by_filter\<rparr>"

definition query_limit :: "query \<Rightarrow> int \<Rightarrow> query" where
  "query_limit q limit = q\<lparr>q_limit := Some limit\<rparr>"

definition query_offset :: "query \<Rightarrow> int \<Rightarrow> query" where
  "query_offset q offset = q\<lparr>q_offset := Some offset\<rparr>"

section \<open>Models\<close>

type_synonym model_obj = "string \<Rightarrow> native option"

text \<open>What the code uses of a class of schematics: its fields with whether one is a StringType,
  the name of the primary key (\<open>_id\<close>), \<open>to_native\<close> of a field (None is a ConversionError), the
  constructor from the values of a dict, \<open>validate\<close> with the conversions it makes (None is a
  ValidationError or a ConversionError), \<open>to_primitive\<close> and the text of a date.\<close>

record model_class =
  mc_fields :: "string list"
  mc_is_string :: "string \<Rightarrow> bool"
  mc_key :: "string option"
  mc_native :: "string \<Rightarrow> native \<Rightarrow> native option"
  mc_make :: "pyval \<Rightarrow> pyexc + model_obj"
  mc_validate :: "model_obj \<Rightarrow> model_obj option"
  mc_primitive :: "model_obj \<Rightarrow> pyval"
  mc_time_str :: "int \<Rightarrow> string"

text \<open>\<open>getattr\<close> of a class and of an instance.\<close>

definition class_field :: "model_class \<Rightarrow> string \<Rightarrow> pyexc + string" where
  "class_field M f = (if f \<in> set (mc_fields M) then Inr f else Inl AttributeError)"

definition get_field :: "model_obj \<Rightarrow> string \<Rightarrow> pyexc + native" where
  "get_field x f = (case x f of None \<Rightarrow> Inl AttributeError | Some v \<Rightarrow> Inr v)"

text \<open>The descriptors \<open>PrimaryKey\<close> and \<open>PrimaryKeyValue\<close>.\<close>

definition primary_key :: "model_class \<Rightarrow> pyexc + string" where
  "primary_key M = (case mc_key M of None \<Rightarrow> Inl TypeError | Some k \<Rightarrow> Inr k)"

definition primary_key_val :: "model_class \<Rightarrow> model_obj \<Rightarrow> pyexc + native" where
  "primary_key_val M x = err_bind (primary_key M) (get_field x)"

section \<open>Evaluation of a filter\<close>

definition field_to_str :: "operand \<Rightarrow> pyexc + string" where
  "field_to_str f = (case f of FieldName s \<Rightarrow> Inr s | Field s \<Rightarrow> Inr s | NoField \<Rightarrow> Inl DataAccessInternalError)"

text \<open>The table \<open>_operator\<close>.\<close>

fun operator_of :: "comparison \<Rightarrow> native \<Rightarrow> native \<Rightarrow> pyexc + bool" where
  "operator_of OPERATION_EQ a b = Inr (native_eq a b)"
| "operator_of OPERATION_NE a b = Inr (\<not> native_eq a b)"
| "operator_of OPERATION_GEQ a b = native_leq b a"
| "operator_of OPERATION_LEQ a b = native_leq a b"
| "operator_of OPERATION_GT a b = native_less b a"
| "operator_of OPERATION_LT a b = native_less a b"
| "operator_of OPERATION_LIKE a b = native_contains a b"

fun err_filter :: "('a \<Rightarrow> pyexc + bool) \<Rightarrow> 'a list \<Rightarrow> pyexc + 'a list" where
  "err_filter p [] = Inr []"
| "err_filter p (x # xs) = err_bind (p x) (\<lambda>b. err_bind (err_filter p xs) (\<lambda>ys. Inr (if b then x # ys else ys)))"

text \<open>\<open>handle_compare\<close>: the keys of the objects that pass. The field is the first operand of
  \<open>like\<close> and the second one of all other operations.\<close>

definition compare_object :: "string \<Rightarrow> comparison \<Rightarrow> native \<Rightarrow> model_obj \<Rightarrow> pyexc + bool" where
  "compare_object f opr right x = err_bind (get_field x f) (\<lambda>v.
     if opr = OPERATION_LIKE then operator_of opr v right else operator_of opr right v)"

definition handle_compare :: "model_class \<Rightarrow> (string \<times> model_obj) list \<Rightarrow> operand \<Rightarrow> comparison \<Rightarrow> native \<Rightarrow> pyexc + string list" where
  "handle_compare M objs left opr right = err_bind (field_to_str left) (\<lambda>s. err_bind (class_field M s) (\<lambda>f.
     case mc_native M f right of
       None \<Rightarrow> Inl DataAccessInternalError
     | Some r \<Rightarrow> err_bind (err_filter (\<lambda>kx. compare_object f opr r (snd kx)) objs) (\<lambda>kxs. Inr (map fst kxs))))"

text \<open>\<open>accept_visitor\<close> with \<open>handle_and\<close> and \<open>handle_or\<close>: intersections and unions of sets of keys,
  here lists.\<close>

fun visit :: "model_class \<Rightarrow> (string \<times> model_obj) list \<Rightarrow> ifilter \<Rightarrow> pyexc + string list"
  and visit_each :: "model_class \<Rightarrow> (string \<times> model_obj) list \<Rightarrow> ifilter list \<Rightarrow> pyexc + string list list" where
  "visit M objs (FilterOperationCompare left opr right) = handle_compare M objs left opr right"
| "visit M objs (FilterOperationAnd fs) = (if length fs < 2 then Inl (PyException ''Exception'')
     else err_bind (visit_each M objs fs) (\<lambda>rs. Inr (fold (\<lambda>r ret. filter (\<lambda>k. k \<in> set r) ret) (tl rs) (hd rs))))"
| "visit M objs (FilterOperationOr fs) = (if length fs < 2 then Inl (PyException ''Exception'')
     else err_bind (visit_each M objs fs) (\<lambda>rs. Inr (fold (\<lambda>r ret. ret @ filter (\<lambda>k. k \<notin> set ret) r) (tl rs) (hd rs))))"
| "visit_each M objs [] = Inr []"
| "visit_each M objs (f # fs) = err_bind (visit M objs f) (\<lambda>r. err_bind (visit_each M objs fs) (\<lambda>rs. Inr (r # rs)))"

section \<open>What a filter selects\<close>

text \<open>The documented meaning of a filter on one object: the order relation holds between the
  field and the operand; all or one of the nested conditions hold.\<close>

fun holds :: "comparison \<Rightarrow> native \<Rightarrow> native \<Rightarrow> bool" where
  "holds OPERATION_EQ v r = native_eq r v"
| "holds OPERATION_NE v r = (\<not> native_eq r v)"
| "holds OPERATION_GT v r = (native_less r v = Inr True)"
| "holds OPERATION_LT v r = (native_less v r = Inr True)"
| "holds OPERATION_GEQ v r = (native_leq r v = Inr True)"
| "holds OPERATION_LEQ v r = (native_leq v r = Inr True)"
| "holds OPERATION_LIKE v r = (native_contains v r = Inr True)"

fun sat :: "model_class \<Rightarrow> ifilter \<Rightarrow> model_obj \<Rightarrow> bool" where
  "sat M (FilterOperationCompare left opr right) x = (case field_to_str left of
      Inl e \<Rightarrow> False
    | Inr f \<Rightarrow> (case (mc_native M f right, x f) of
          (Some r, Some v) \<Rightarrow> holds opr v r
        | _ \<Rightarrow> False))"
| "sat M (FilterOperationAnd fs) x = list_all (\<lambda>f. sat M f x) fs"
| "sat M (FilterOperationOr fs) x = list_ex (\<lambda>f. sat M f x) fs"

text \<open>The same filter with each order relation turned round.\<close>

fun flip_op :: "comparison \<Rightarrow> comparison" where
  "flip_op OPERATION_GT = OPERATION_LT"
| "flip_op OPERATION_LT = OPERATION_GT"
| "flip_op OPERATION_GEQ = OPERATION_LEQ"
| "flip_op OPERATION_LEQ = OPERATION_GEQ"
| "flip_op opr = opr"

fun turned :: "ifilter \<Rightarrow> ifilter" where
  "turned (FilterOperationCompare left opr right) = FilterOperationCompare left (flip_op opr) right"
| "turned (FilterOperationAnd fs) = FilterOperationAnd (map turned fs)"
| "turned (FilterOperationOr fs) = FilterOperationOr (map turned fs)"

text \<open>The filter is well formed and its comparisons are defined on the objects.\<close>

fun filter_ok :: "model_class \<Rightarrow> model_obj set \<Rightarrow> ifilter \<Rightarrow> bool" where
  "filter_ok M X (FilterOperationCompare left opr right) = (case field_to_str left of
      Inl e \<Rightarrow> False
    | Inr f \<Rightarrow> f \<in> set (mc_fields M) \<and> (case mc_native M f right of
          None \<Rightarrow> False
        | Some r \<Rightarrow> \<forall>x \<in> X. \<not> isl (compare_object f opr r x)))"
| "filter_ok M X (FilterOperationAnd fs) = (2 \<le> length fs \<and> list_all (filter_ok M X) fs)"
| "filter_ok M X (FilterOperationOr fs) = (2 \<le> length fs \<and> list_all (filter_ok M X) fs)"

lemma filter_ok_mono: "filter_ok M X f \<Longrightarrow> Y \<subseteq> X \<Longrightarrow> filter_ok M Y f"
  by (induction f) (auto simp: list_all_iff split: sum.splits option.splits)

lemma compare_object_turned:
  "compare_object f opr r x = Inr True \<longleftrightarrow> (\<exists>v. x f = Some v \<and> holds (flip_op opr) v r)"
  by (cases opr) (auto simp: compare_object_def get_field_def split: option.splits)

lemma err_filter_total: "list_all (\<lambda>x. \<not> isl (p x)) xs \<Longrightarrow> err_filter p xs = Inr (filter (\<lambda>x. p x = Inr True) xs)"
proof (induction xs)
  case (Cons x xs)
  then show ?case by (cases "p x") auto
qed simp

lemma set_fold_inter: "set (fold (\<lambda>r ret. filter (\<lambda>k. k \<in> set r) ret) rs a) = set a \<inter> (\<Inter>r \<in> set rs. set r)"
  by (induction rs arbitrary: a) auto

lemma set_fold_union: "set (fold (\<lambda>r ret. ret @ filter (\<lambda>k. k \<notin> set ret) r) rs a) = set a \<union> (\<Union>r \<in> set rs. set r)"
  by (induction rs arbitrary: a) auto

definition picked :: "model_class \<Rightarrow> (string \<times> model_obj) list \<Rightarrow> ifilter \<Rightarrow> string set" where
  "picked M objs f = {k. \<exists>x. (k, x) \<in> set objs \<and> sat M (turned f) x}"

lemma visit_compare:
  assumes "filter_ok M (snd ` set objs) (FilterOperationCompare left opr right)"
  shows "\<exists>ks. visit M objs (FilterOperationCompare left opr right) = Inr ks \<and> set ks = picked M objs (FilterOperationCompare left opr right)"
proof -
  obtain f where f: "field_to_str left = Inr f" "f \<in> set (mc_fields M)" using assms by (cases "field_to_str left") auto
  obtain r where r: "mc_native M f right = Some r" "list_all (\<lambda>kx. \<not> isl (compare_object f opr r (snd kx))) objs"
    using assms f by (auto simp: list_all_iff split: option.splits)
  have "picked M objs (FilterOperationCompare left opr right) =
      {k. \<exists>x. (k, x) \<in> set objs \<and> compare_object f opr r x = Inr True}"
    using f r by (auto simp: picked_def compare_object_turned split: option.splits)
  then show ?thesis using f r by (force simp: handle_compare_def class_field_def err_filter_total)
qed

lemma picked_and:
  assumes d: "distinct (map fst objs)" and ne: "fs \<noteq> []"
  shows "(\<Inter>f \<in> set fs. picked M objs f) = picked M objs (FilterOperationAnd fs)"
proof (intro equalityI subsetI)
  fix k assume k: "k \<in> (\<Inter>f \<in> set fs. picked M objs f)"
  then obtain x where x: "(k, x) \<in> set objs" using ne by (cases fs) (auto simp: picked_def)
  have "sat M (turned f) x" if "f \<in> set fs" for f
    using k that x d by (auto simp: picked_def dest: eq_key_imp_eq_value)
  then show "k \<in> picked M objs (FilterOperationAnd fs)" using x by (auto simp: picked_def list_all_iff)
qed (auto simp: picked_def list_all_iff)

lemma visit_picks:
  "distinct (map fst objs) \<Longrightarrow> filter_ok M (snd ` set objs) f \<Longrightarrow> \<exists>ks. visit M objs f = Inr ks \<and> set ks = picked M objs f"
  "distinct (map fst objs) \<Longrightarrow> list_all (filter_ok M (snd ` set objs)) fs \<Longrightarrow> \<exists>rs. visit_each M objs fs = Inr rs \<and> map set rs = map (picked M objs) fs"
proof (induction M objs f and M objs fs rule: visit_visit_each.induct)
  case (1 M objs left opr right)
  then show ?case by (intro visit_compare)
next
  case (2 M objs fs)
  then obtain rs where rs: "visit_each M objs fs = Inr rs" "map set rs = map (picked M objs) fs" by auto
  have "rs \<noteq> []" using rs(2) 2(3) by (cases rs) auto
  then have "set (hd rs) \<inter> (\<Inter>r \<in> set (tl rs). set r) = (\<Inter>r \<in> set rs. set r)" by (cases rs) auto
  also have "\<dots> = \<Inter> (set (map set rs))" by simp
  also have "\<dots> = (\<Inter>f \<in> set fs. picked M objs f)" unfolding rs(2) by simp
  also have "\<dots> = picked M objs (FilterOperationAnd fs)"
    by (rule picked_and) (use 2(2,3) in auto)
  finally show ?case using 2(3) rs(1) by (simp add: set_fold_inter)
next
  case (3 M objs fs)
  then obtain rs where rs: "visit_each M objs fs = Inr rs" "map set rs = map (picked M objs) fs" by auto
  have "rs \<noteq> []" using rs(2) 3(3) by (cases rs) auto
  then have "set (hd rs) \<union> (\<Union>r \<in> set (tl rs). set r) = (\<Union>r \<in> set rs. set r)" by (cases rs) auto
  also have "\<dots> = \<Union> (set (map set rs))" by simp
  also have "\<dots> = (\<Union>f \<in> set fs. picked M objs f)" unfolding rs(2) by simp
  also have "\<dots> = picked M objs (FilterOperationOr fs)"
    by (auto simp: picked_def list_ex_iff)
  finally show ?case using 3(3) rs(1) by (simp add: set_fold_union)
qed auto

text \<open>Claim C26. Evaluating a filter over a collection with sets of keys gives the keys of the objects
  that satisfy it one by one, for every nesting of AND and OR, with each order relation
  turned round: a comparison with '>' selects the objects whose field is less than the
  operand. Filters of '=', '!=' and 'like' select what they say.\<close>

theorem filter_selects:
  assumes "distinct (map fst objs)" "filter_ok M (snd ` set objs) f"
  shows "\<exists>ks. visit M objs f = Inr ks \<and> (\<forall>k x. map_of objs k = Some x \<longrightarrow> (k \<in> set ks \<longleftrightarrow> sat M (turned f) x))
    \<and> set ks \<subseteq> fst ` set objs"
proof -
  obtain ks where ks: "visit M objs f = Inr ks" "set ks = picked M objs f" using visit_picks(1) [OF assms] by blast
  have "k \<in> picked M objs f \<longleftrightarrow> sat M (turned f) x" if "map_of objs k = Some x" for k x
    using that assms(1) by (auto simp: picked_def dest: map_of_SomeD eq_key_imp_eq_value)
  moreover have "picked M objs f \<subseteq> fst ` set objs" by (force simp: picked_def)
  ultimately show ?thesis using ks by auto
qed

text \<open>A model with a name and an integer, as an example.\<close>

definition count_obj :: "string \<Rightarrow> int \<Rightarrow> model_obj" where
  "count_obj n c = [''name'' \<mapsto> NVal (PStr n), ''count'' \<mapsto> NVal (PInt c)]"

definition count_model :: model_class where
  "count_model = \<lparr>mc_fields = [''name'', ''count''], mc_is_string = (\<lambda>f. f = ''name''), mc_key = Some ''name'',
     mc_native = (\<lambda>f v. Some v),
     mc_make = (\<lambda>v. case v of PDict d \<Rightarrow> Inr (\<lambda>f. map_option NVal (map_of d f)) | _ \<Rightarrow> Inl (PyException ''DataError'')),
     mc_validate = (\<lambda>x. case (x ''name'', x ''count'') of (Some (NVal (PStr n)), Some (NVal (PInt c))) \<Rightarrow> Some (count_obj n c) | _ \<Rightarrow> None),
     mc_primitive = (\<lambda>x. PDict (map (\<lambda>f. (f, case x f of Some (NVal v) \<Rightarrow> v | _ \<Rightarrow> PNone)) [''name'', ''count''])), mc_time_str = show_int\<rparr>"

theorem filter_selects_witness:
  "\<exists>ks. visit count_model [(''k1'', count_obj ''a'' 1), (''k5'', count_obj ''b'' 5)]
     (FilterOperationCompare (Field ''count'') OPERATION_GT (NVal (PInt 3))) = Inr ks \<and> set ks = {''k1''}"
proof -
  let ?objs = "[(''k1'', count_obj ''a'' 1), (''k5'', count_obj ''b'' 5)]"
  let ?f = "FilterOperationCompare (Field ''count'') OPERATION_GT (NVal (PInt 3))"
  have "filter_ok count_model (snd ` set ?objs) ?f"
    by (simp add: field_to_str_def count_model_def compare_object_def get_field_def count_obj_def native_less_def)
  then obtain ks where ks: "visit count_model ?objs ?f = Inr ks"
      "\<forall>k x. map_of ?objs k = Some x \<longrightarrow> (k \<in> set ks \<longleftrightarrow> sat count_model (turned ?f) x)" "set ks \<subseteq> {''k1'', ''k5''}"
    using filter_selects [of ?objs count_model ?f] by auto
  have "''k1'' \<in> set ks" "''k5'' \<notin> set ks"
    using ks(2) [rule_format, of "''k1''"] ks(2) [rule_format, of "''k5''"]
    by (simp_all add: field_to_str_def count_model_def count_obj_def native_less_def)
  then show ?thesis using ks by blast
qed

end
