(* ===== verification/ConsulDb.thy ===== *)
theory ConsulDb
  imports DataAccess Effects JsonDumps KvFactory
begin

text \<open>
  The storage of objects in Consul, src/py-utils/src/utils/data/db/consul_db/storage.py, with the
  generic operations of src/py-utils/src/utils/data/db/generic_storage.py. The client of the
  Consul server is the record \<open>consul_kv\<close> of the calls the code makes; \<open>consul_serves\<close> is
  what the server documents of them while it can be reached. The operations are
  coroutines of one event loop; each is modelled as running without another one
  in between.
\<close>

section \<open>The client of the server\<close>

text \<open>\<open>kv.get(key)[1]\<close> is None or a dict whose value may be None; \<open>kv.get(prefix, recurse=True)[1]\<close>
  and \<open>kv.get(prefix, keys=True)[1]\<close> are None or a list; \<open>kv.delete(key, recurse)\<close>.\<close>

record 's consul_kv =
  kv_get :: "string \<Rightarrow> 's \<Rightarrow> 's \<times> (pyexc + string option option)"
  kv_recurse :: "string \<Rightarrow> 's \<Rightarrow> 's \<times> (pyexc + (string \<times> string option) list option)"
  kv_keys :: "string \<Rightarrow> 's \<Rightarrow> 's \<times> (pyexc + string list option)"
  kv_put :: "string \<Rightarrow> string \<Rightarrow> 's \<Rightarrow> 's \<times> (pyexc + bool)"
  kv_delete :: "string \<Rightarrow> bool \<Rightarrow> 's \<Rightarrow> 's \<times> (pyexc + bool)"

section \<open>Keys and schema\<close>

record consul_db =
  cd_collection :: string
  cd_scheme :: pyval

definition ConsulDB :: "string \<Rightarrow> consul_db" where
  "ConsulDB collection = \<lparr>cd_collection = map to_lower collection, cd_scheme = PDict []\<rparr>"

text \<open>The templates of ConsulKeyTemplate, for collections without a dollar sign.\<close>

definition get_object_root :: "consul_db \<Rightarrow> string" where
  "get_object_root db = ''cortx/base/'' @ cd_collection db"

definition get_object_dir :: "consul_db \<Rightarrow> string" where
  "get_object_dir db = get_object_root db @ ''/obj''"

definition get_object_path :: "consul_db \<Rightarrow> string \<Rightarrow> string" where
  "get_object_path db uuid = get_object_dir db @ ''/'' @ uuid"

text \<open>\<open>_create_obj_dir\<close>. The message of its exception uses the variable \<open>creation_time\<close>, which is
  set only when the root did not exist.\<close>

definition create_obj_dir :: "'s consul_kv \<Rightarrow> model_class \<Rightarrow> bool \<Rightarrow> consul_db \<Rightarrow> 's \<Rightarrow> 's \<times> (pyexc + consul_db)" where
  "create_obj_dir K M root_is_new db s = st_bind (kv_get K (get_object_dir db) s) (\<lambda>s1 d. case d of
      None \<Rightarrow> (let scheme = PDict (map (\<lambda>f. (f, PNone)) (mc_fields M)) in
        st_bind (kv_put K (get_object_dir db) (json_dumps scheme) s1) (\<lambda>s2 response.
          (s2, if response then Inr (db\<lparr>cd_scheme := scheme\<rparr>)
               else Inl (if root_is_new then DataAccessExternalError else NameError))))
    | Some None \<Rightarrow> (s1, Inl TypeError)
    | Some (Some t) \<Rightarrow> (s1, case json_load t of None \<Rightarrow> Inl ValueError | Some v \<Rightarrow> Inr (db\<lparr>cd_scheme := v\<rparr>)))"

text \<open>\<open>creation_time\<close> is the text of the current date.\<close>

definition create_object_root :: "'s consul_kv \<Rightarrow> model_class \<Rightarrow> string \<Rightarrow> consul_db \<Rightarrow> 's \<Rightarrow> 's \<times> (pyexc + consul_db)" where
  "create_object_root K M creation_time db s = st_bind (kv_get K (get_object_root db) s) (\<lambda>s1 d.
     if d \<noteq> None then create_obj_dir K M False db s1
     else st_bind (kv_put K (get_object_root db) creation_time s1) (\<lambda>s2 response.
       if response then create_obj_dir K M True db s2 else (s2, Inl DataAccessExternalError)))"

definition create_database :: "'s consul_kv \<Rightarrow> model_class \<Rightarrow> string \<Rightarrow> string \<Rightarrow> bool \<Rightarrow> 's \<Rightarrow> 's \<times> (pyexc + consul_db)" where
  "create_database K M creation_time collection create_schema s =
     (if \<not> create_schema then (s, Inr (ConsulDB collection))
      else case create_object_root K M creation_time (ConsulDB collection) s of
        (s1, Inr db) \<Rightarrow> (s1, Inr db)
      | (s1, Inl e) \<Rightarrow> (s1, Inl (if e = PyException ''ClientConnectorError'' then DataAccessExternalError else DataAccessError)))"

section \<open>Storing\<close>

definition scheme_keys :: "consul_db \<Rightarrow> pyexc + string list" where
  "scheme_keys db = (case cd_scheme db of PDict d \<Rightarrow> Inr (map fst d) | _ \<Rightarrow> Inl AttributeError)"

text \<open>\<open>GenericDataBase.store\<close>: the object with the conversions of its validation.\<close>

definition generic_store :: "model_class \<Rightarrow> consul_db \<Rightarrow> model_obj \<Rightarrow> pyexc + model_obj" where
  "generic_store M db obj = (case mc_validate M obj of
      None \<Rightarrow> Inl DataAccessInternalError
    | Some x \<Rightarrow> err_bind (scheme_keys db) (\<lambda>ks.
        if \<not> set ks \<subseteq> set (mc_fields M) then Inl DataAccessInternalError
        else if \<not> set (mc_fields M) \<subseteq> set ks then Inl DataAccessInternalError
        else Inr x))"

definition key_text :: "model_class \<Rightarrow> native \<Rightarrow> string" where
  "key_text M v = (case v of NVal w \<Rightarrow> py_str w | NTime t \<Rightarrow> mc_time_str M t)"

definition db_store :: "'s consul_kv \<Rightarrow> model_class \<Rightarrow> consul_db \<Rightarrow> model_obj \<Rightarrow> 's \<Rightarrow> 's \<times> (pyexc + unit)" where
  "db_store K M db obj s = (case err_bind (generic_store M db obj) (\<lambda>x. err_bind (primary_key_val M x) (\<lambda>k. Inr (x, k))) of
      Inl e \<Rightarrow> (s, Inl e)
    | Inr (x, k) \<Rightarrow> st_bind (kv_put K (map to_lower (get_object_path db (key_text M k))) (json_dumps (mc_primitive M x)) s)
        (\<lambda>s1 response. (s1, if response then Inr () else Inl DataAccessExternalError)))"

section \<open>Reading\<close>

definition get_all_raw :: "'s consul_kv \<Rightarrow> consul_db \<Rightarrow> 's \<Rightarrow> 's \<times> (pyexc + (string \<times> string option) list)" where
  "get_all_raw K db s = st_bind (kv_recurse K (map to_lower (get_object_dir db) @ ''/'') s)
     (\<lambda>s1 d. (s1, Inr (case d of None \<Rightarrow> [] | Some es \<Rightarrow> es)))"

text \<open>\<open>self._model(json.loads(entry["Value"]))\<close>.\<close>

definition load_obj :: "model_class \<Rightarrow> string \<times> string option \<Rightarrow> pyexc + model_obj" where
  "load_obj M entry = (case snd entry of None \<Rightarrow> Inl TypeError
     | Some t \<Rightarrow> (case json_load t of None \<Rightarrow> Inl ValueError | Some v \<Rightarrow> mc_make M v))"

definition query_converter_build :: "model_class \<Rightarrow> ifilter \<Rightarrow> (string \<times> string option) list \<Rightarrow> pyexc + (string \<times> string option) list" where
  "query_converter_build M f raw =
     err_bind (err_map (\<lambda>e. err_bind (load_obj M e) (\<lambda>x. Inr (fst e, x))) raw) (\<lambda>objs.
     err_bind (visit M objs f) (\<lambda>ks. Inr (filter (\<lambda>e. fst e \<in> set ks) raw)))"

text \<open>\<open>sorted(models, key=key, reverse=reverse)\<close>, which is stable in both directions. Two keys that
  cannot be compared are a TypeError.\<close>

fun insert_by :: "native \<times> 'a \<Rightarrow> (native \<times> 'a) list \<Rightarrow> (native \<times> 'a) list" where
  "insert_by x [] = [x]"
| "insert_by x (y # ys) = (if native_less (fst y) (fst x) = Inr True then y # insert_by x ys else x # y # ys)"

definition py_sorted :: "bool \<Rightarrow> (native \<times> 'a) list \<Rightarrow> pyexc + 'a list" where
  "py_sorted reverse xs =
     (if 2 \<le> length xs \<and> list_ex (\<lambda>a. list_ex (\<lambda>b. isl (native_less (fst a) (fst b))) xs) xs then Inl TypeError
      else Inr (map snd (if reverse then rev (foldr insert_by (rev xs) []) else foldr insert_by xs [])))"

definition sorted_key :: "model_class \<Rightarrow> string \<Rightarrow> model_obj \<Rightarrow> pyexc + native \<times> model_obj" where
  "sorted_key M f x = err_bind (get_field x f) (\<lambda>v.
     if mc_is_string M f then (case v of NVal (PStr s) \<Rightarrow> Inr (NVal (PStr (map to_lower s)), x) | _ \<Rightarrow> Inl TypeError)
     else Inr (v, x))"

definition ordered :: "model_class \<Rightarrow> query \<Rightarrow> model_obj list \<Rightarrow> pyexc + model_obj list" where
  "ordered M q xs = (if q_order_by q = None \<and> q_offset q \<in> {None, Some 0} then Inr xs
     else err_bind (case q_order_by q of
         Some ob \<Rightarrow> field_to_str (ob_field ob)
       | None \<Rightarrow> err_bind (primary_key M) (class_field M)) (\<lambda>s. err_bind (class_field M s) (\<lambda>f.
     err_bind (err_map (sorted_key M f) xs)
       (py_sorted (case q_order_by q of Some ob \<Rightarrow> ob_order ob = DESC | None \<Rightarrow> False)))))"

definition query_slice :: "query \<Rightarrow> model_obj list \<Rightarrow> pyexc + model_obj list" where
  "query_slice q xs = (let offset = (case q_offset q of None \<Rightarrow> 0 | Some n \<Rightarrow> n);
       limit = (case q_limit q of Some l \<Rightarrow> offset + l | None \<Rightarrow> int (length xs)) in
     if offset < 0 \<or> limit < 0 then Inl DataAccessInternalError
     else Inr (drop (nat offset) (take (nat limit) xs)))"

definition query_result :: "model_class \<Rightarrow> query \<Rightarrow> (string \<times> string option) list \<Rightarrow> pyexc + model_obj list" where
  "query_result M q raw = (if raw = [] then Inr []
     else err_bind (case q_filter_by q of None \<Rightarrow> Inr raw | Some f \<Rightarrow> query_converter_build M f raw) (\<lambda>es.
       err_bind (err_map (load_obj M) es) (\<lambda>xs. err_bind (ordered M q xs) (query_slice q))))"

definition db_get :: "'s consul_kv \<Rightarrow> model_class \<Rightarrow> consul_db \<Rightarrow> query \<Rightarrow> 's \<Rightarrow> 's \<times> (pyexc + model_obj list)" where
  "db_get K M db q s = st_bind (get_all_raw K db s) (\<lambda>s1 raw. (s1, query_result M q raw))"

text \<open>The filter on the primary key, of \<open>get_by_id\<close> and \<open>update_by_id\<close>.\<close>

definition id_filter :: "model_class \<Rightarrow> native \<Rightarrow> pyexc + ifilter" where
  "id_filter M obj_id = err_bind (primary_key M) (\<lambda>k. err_bind (class_field M k) (\<lambda>f. case mc_native M f obj_id of
      None \<Rightarrow> Inl DataAccessInternalError
    | Some v \<Rightarrow> Compare_filter (FieldName k) ''='' v))"

definition db_get_by_id :: "'s consul_kv \<Rightarrow> model_class \<Rightarrow> consul_db \<Rightarrow> native \<Rightarrow> 's \<Rightarrow> 's \<times> (pyexc + model_obj option)" where
  "db_get_by_id K M db obj_id s = (case id_filter M obj_id of
      Inl e \<Rightarrow> (s, Inl e)
    | Inr f \<Rightarrow> st_bind (db_get K M db (query_filter_by Query f) s) (\<lambda>s1 xs. (s1, Inr (if xs = [] then None else Some (last xs)))))"

section \<open>Updating, deleting, counting\<close>

definition generic_update :: "model_class \<Rightarrow> consul_db \<Rightarrow> (string \<times> native) list \<Rightarrow> pyexc + (string \<times> native) list" where
  "generic_update M db to_update = err_bind (scheme_keys db) (\<lambda>ks.
     if \<not> fst ` set to_update \<subseteq> set ks then Inl DataAccessInternalError
     else err_map (\<lambda>(k, v). err_bind (class_field M k) (\<lambda>f. case mc_native M f v of
         None \<Rightarrow> Inl DataAccessInternalError | Some w \<Rightarrow> Inr (k, w))) to_update)"

definition set_attrs :: "(string \<times> native) list \<Rightarrow> model_obj \<Rightarrow> model_obj" where
  "set_attrs us x = fold (\<lambda>(k, v) x. x(k \<mapsto> v)) us x"

definition db_update :: "'s consul_kv \<Rightarrow> model_class \<Rightarrow> consul_db \<Rightarrow> ifilter \<Rightarrow> (string \<times> native) list \<Rightarrow> 's \<Rightarrow> 's \<times> (pyexc + nat)" where
  "db_update K M db f to_update s = (case generic_update M db to_update of
      Inl e \<Rightarrow> (s, Inl e)
    | Inr us \<Rightarrow> st_bind (get_all_raw K db s) (\<lambda>s1 raw. if raw = [] then (s1, Inr 0)
        else case err_bind (query_converter_build M f raw) (err_map (load_obj M)) of
          Inl e \<Rightarrow> (s1, Inl e)
        | Inr xs \<Rightarrow> st_bind (for_each (\<lambda>s x. db_store K M db (set_attrs us x) s) s1 xs) (\<lambda>s2 _. (s2, Inr (length xs)))))"

definition db_update_by_id :: "'s consul_kv \<Rightarrow> model_class \<Rightarrow> consul_db \<Rightarrow> native \<Rightarrow> (string \<times> native) list \<Rightarrow> 's \<Rightarrow> 's \<times> (pyexc + bool)" where
  "db_update_by_id K M db obj_id to_update s = (case id_filter M obj_id of
      Inl e \<Rightarrow> (s, Inl e)
    | Inr f \<Rightarrow> st_bind (db_update K M db f to_update s) (\<lambda>s1 n. (s1, Inr (0 < n))))"

text \<open>The deletions run as tasks that are all awaited; then their results are looked at.\<close>

fun delete_tasks :: "'s consul_kv \<Rightarrow> string list \<Rightarrow> 's \<Rightarrow> 's \<times> (pyexc + bool) list" where
  "delete_tasks K [] s = (s, [])"
| "delete_tasks K (k # ks) s = (case kv_delete K k False s of (s1, r) \<Rightarrow> (case delete_tasks K ks s1 of (s2, rs) \<Rightarrow> (s2, r # rs)))"

definition task_results :: "(pyexc + bool) list \<Rightarrow> pyexc + unit" where
  "task_results rs = err_bind (err_map (\<lambda>r. err_bind r (\<lambda>ok. if ok then Inr () else Inl DataAccessInternalError)) rs) (\<lambda>_. Inr ())"

definition db_delete :: "'s consul_kv \<Rightarrow> model_class \<Rightarrow> consul_db \<Rightarrow> ifilter \<Rightarrow> 's \<Rightarrow> 's \<times> (pyexc + nat)" where
  "db_delete K M db f s = st_bind (get_all_raw K db s) (\<lambda>s1 raw. if raw = [] then (s1, Inr 0)
     else case query_converter_build M f raw of
       Inl e \<Rightarrow> (s1, Inl e)
     | Inr es \<Rightarrow> if es = [] then (s1, Inr 0)
         else (case delete_tasks K (map fst es) s1 of (s2, rs) \<Rightarrow> (s2, err_bind (task_results rs) (\<lambda>_. Inr (length es)))))"

definition db_delete_by_id :: "'s consul_kv \<Rightarrow> consul_db \<Rightarrow> string \<Rightarrow> 's \<Rightarrow> 's \<times> (pyexc + unit)" where
  "db_delete_by_id K db obj_id s = st_bind (kv_delete K (map to_lower (get_object_path db obj_id)) False s)
     (\<lambda>s1 response. (s1, if response then Inr () else Inl DataAccessExternalError))"

definition db_count :: "'s consul_kv \<Rightarrow> model_class \<Rightarrow> consul_db \<Rightarrow> ifilter option \<Rightarrow> 's \<Rightarrow> 's \<times> (pyexc + nat)" where
  "db_count K M db fo s = st_bind (get_all_raw K db s) (\<lambda>s1 raw. (s1, if raw = [] then Inr 0
     else case fo of None \<Rightarrow> Inr (length raw)
       | Some f \<Rightarrow> err_bind (query_converter_build M f raw) (\<lambda>es. Inr (length es))))"

section \<open>What the server promises\<close>

text \<open>\<open>view\<close> is what the server holds: a key has a value or an empty value.\<close>

locale consul_server =
  fixes K :: "'s consul_kv"
    and view :: "'s \<Rightarrow> string \<Rightarrow> string option option"
  assumes get_law: "kv_get K k s = (s, Inr (view s k))"
    and recurse_law: "\<exists>es. kv_recurse K p s = (s, Inr (if es = [] then None else Some es)) \<and> distinct (map fst es)
      \<and> (\<forall>k v. (k, v) \<in> set es \<longleftrightarrow> view s k = Some v \<and> starts_with k p)"
    and keys_law: "\<exists>ks. kv_keys K p s = (s, Inr (if ks = [] then None else Some ks)) \<and> distinct ks
      \<and> (\<forall>k. k \<in> set ks \<longleftrightarrow> view s k \<noteq> None \<and> starts_with k p)"
    and put_law: "\<exists>s'. kv_put K k v s = (s', Inr True) \<and> view s' = (view s)(k \<mapsto> Some v)"
    and delete_law: "\<exists>s'. kv_delete K k False s = (s', Inr True) \<and> view s' = (view s)(k := None)"
    and delete_tree_law: "\<exists>s'. kv_delete K k True s = (s', Inr True) \<and>
      view s' = (\<lambda>k'. if starts_with k' k then None else view s k')"
begin

lemma delete_tasks_view: "\<exists>s'. delete_tasks K ks s = (s', map (\<lambda>_. Inr True) ks) \<and> view s' = (\<lambda>k. if k \<in> set ks then None else view s k)"
proof (induction ks arbitrary: s)
  case (Cons k ks)
  obtain s1 where s1: "kv_delete K k False s = (s1, Inr True)" "view s1 = (view s)(k := None)" using delete_law by blast
  obtain s2 where "delete_tasks K ks s1 = (s2, map (\<lambda>_. Inr True) ks)" "view s2 = (\<lambda>k. if k \<in> set ks then None else view s1 k)"
    using Cons by blast
  with s1 show ?case by auto
qed simp

end

lemma task_results_ok: "task_results (map (\<lambda>_. Inr True) ks) = Inr ()"
  by (simp add: task_results_def err_map_Inr [where g = "\<lambda>_. ()"])

section \<open>The collection as a map of objects\<close>

definition coll_prefix :: "consul_db \<Rightarrow> string" where
  "coll_prefix db = map to_lower (get_object_dir db) @ ''/''"

definition objs_at :: "model_class \<Rightarrow> consul_db \<Rightarrow> (string \<Rightarrow> string option option) \<Rightarrow> string \<Rightarrow> model_obj option" where
  "objs_at M db m k = (if starts_with k (coll_prefix db) then (case m k of
      None \<Rightarrow> None
    | Some v \<Rightarrow> (case load_obj M (k, v) of Inr x \<Rightarrow> Some x | Inl _ \<Rightarrow> None)) else None)"

text \<open>Every entry of the collection is the text of an object.\<close>

definition loads :: "model_class \<Rightarrow> consul_db \<Rightarrow> (string \<Rightarrow> string option option) \<Rightarrow> bool" where
  "loads M db m \<longleftrightarrow> (\<forall>k v. m k = Some v \<and> starts_with k (coll_prefix db) \<longrightarrow> (\<exists>x. load_obj M (k, v) = Inr x))"

text \<open>What is written of a validated object is read as the same object.\<close>

definition model_laws :: "model_class \<Rightarrow> bool" where
  "model_laws M \<longleftrightarrow> (\<forall>x y. mc_validate M x = Some y \<longrightarrow> json_ok (mc_primitive M y) \<and> mc_make M (mc_primitive M y) = Inr y)"

definition obj_key :: "model_class \<Rightarrow> consul_db \<Rightarrow> native \<Rightarrow> string" where
  "obj_key M db k = coll_prefix db @ map to_lower (key_text M k)"

lemma path_key: "map to_lower (get_object_path db i) = coll_prefix db @ map to_lower i"
proof -
  have "to_lower (CHR ''/'') = CHR ''/''" by code_simp
  then show ?thesis by (simp add: get_object_path_def coll_prefix_def)
qed

lemma starts_prefix [simp]: "starts_with (coll_prefix db @ i) (coll_prefix db)"
  by simp

text \<open>The keys of the objects that a filter selects.\<close>

definition matching :: "model_class \<Rightarrow> consul_db \<Rightarrow> (string \<Rightarrow> string option option) \<Rightarrow> ifilter \<Rightarrow> string set" where
  "matching M db m f = {k. \<exists>x. objs_at M db m k = Some x \<and> sat M (turned f) x}"

context consul_server
begin

lemma raw_entries: "\<exists>es. get_all_raw K db s = (s, Inr es) \<and> distinct (map fst es)
    \<and> (\<forall>k v. (k, v) \<in> set es \<longleftrightarrow> view s k = Some v \<and> starts_with k (coll_prefix db))"
proof -
  obtain es where es: "kv_recurse K (coll_prefix db) s = (s, Inr (if es = [] then None else Some es))" "distinct (map fst es)"
      "\<forall>k v. (k, v) \<in> set es \<longleftrightarrow> view s k = Some v \<and> starts_with k (coll_prefix db)"
    using recurse_law by blast
  then have "get_all_raw K db s = (s, Inr es)" by (simp add: get_all_raw_def coll_prefix_def)
  with es show ?thesis by blast
qed

text \<open>The objects of the entries, and the entries that a filter leaves.\<close>

lemma raw_objs:
  assumes "loads M db (view s)" and es: "\<forall>k v. (k, v) \<in> set es \<longleftrightarrow> view s k = Some v \<and> starts_with k (coll_prefix db)"
  shows "err_map (load_obj M) es = Inr (map (\<lambda>e. the (objs_at M db (view s) (fst e))) es)"
    "e \<in> set es \<Longrightarrow> \<exists>x. load_obj M e = Inr x \<and> objs_at M db (view s) (fst e) = Some x"
    "objs_at M db (view s) k = Some x \<Longrightarrow> \<exists>v. (k, v) \<in> set es"
proof -
  show r: "\<exists>x. load_obj M e = Inr x \<and> objs_at M db (view s) (fst e) = Some x" if "e \<in> set es" for e
  proof -
    obtain k v where e: "e = (k, v)" by (cases e)
    have kv: "view s k = Some v" "starts_with k (coll_prefix db)" using that es e by auto
    then obtain x where "load_obj M (k, v) = Inr x" using assms(1) unfolding loads_def by blast
    then show ?thesis using kv e by (simp add: objs_at_def)
  qed
  then show "err_map (load_obj M) es = Inr (map (\<lambda>e. the (objs_at M db (view s) (fst e))) es)"
    by (intro err_map_Inr) fastforce
  show "objs_at M db (view s) k = Some x \<Longrightarrow> \<exists>v. (k, v) \<in> set es"
    using es by (auto simp: objs_at_def split: if_splits option.splits)
qed

lemma build_entries:
  assumes l: "loads M db (view s)" and es: "\<forall>k v. (k, v) \<in> set es \<longleftrightarrow> view s k = Some v \<and> starts_with k (coll_prefix db)"
    and d: "distinct (map fst es)" and f: "filter_ok M (ran (objs_at M db (view s))) f"
  shows "query_converter_build M f es = Inr (filter (\<lambda>e. sat M (turned f) (the (objs_at M db (view s) (fst e)))) es)"
proof -
  let ?o = "\<lambda>k. the (objs_at M db (view s) k)"
  let ?objs = "map (\<lambda>e. (fst e, ?o (fst e))) es"
  have objs: "err_map (\<lambda>e. err_bind (load_obj M e) (\<lambda>x. Inr (fst e, x))) es = Inr ?objs"
    using raw_objs(2) [OF l es] by (intro err_map_Inr) fastforce
  have "snd ` set ?objs \<subseteq> ran (objs_at M db (view s))" using raw_objs(2) [OF l es] by (force simp: ran_def)
  then have fo: "filter_ok M (snd ` set ?objs) f" using f filter_ok_mono by blast
  have do: "distinct (map fst ?objs)" using d by (simp add: comp_def)
  obtain ks where ks: "visit M ?objs f = Inr ks" "set ks = picked M ?objs f" using visit_picks(1) [OF do fo] by blast
  have "fst e \<in> set ks \<longleftrightarrow> sat M (turned f) (?o (fst e))" if "e \<in> set es" for e
    using that unfolding ks(2) by (auto simp: picked_def)
  then have "filter (\<lambda>e. fst e \<in> set ks) es = filter (\<lambda>e. sat M (turned f) (?o (fst e))) es"
    by (intro filter_cong) auto
  then show ?thesis by (simp only: query_converter_build_def objs ks(1) err_bind.simps)
qed

lemma store_objs:
  assumes l: "loads M db (view s)" and m: "model_laws M" and g: "generic_store M db obj = Inr x" "primary_key_val M x = Inr k"
  shows "\<exists>s'. db_store K M db obj s = (s', Inr ()) \<and> loads M db (view s')
    \<and> objs_at M db (view s') = (objs_at M db (view s))(obj_key M db k \<mapsto> x)"
proof -
  let ?t = "json_dumps (mc_primitive M x)"
  obtain s' where s': "kv_put K (obj_key M db k) ?t s = (s', Inr True)" "view s' = (view s)(obj_key M db k \<mapsto> Some ?t)"
    using put_law by blast
  have "mc_validate M obj = Some x" using g(1) by (auto simp: generic_store_def err_bind_Inr split: option.splits if_splits)
  then have t: "load_obj M (k', Some ?t) = Inr x" for k' using m by (simp add: model_laws_def load_obj_def json_load_dumps)
  have "db_store K M db obj s = (s', Inr ())" using s'(1) g by (simp add: db_store_def path_key obj_key_def)
  moreover have "loads M db (view s')" using l t by (auto simp: loads_def s'(2))
  moreover have "objs_at M db (view s') = (objs_at M db (view s))(obj_key M db k \<mapsto> x)"
    by (rule ext) (simp add: objs_at_def s'(2) t obj_key_def)
  ultimately show ?thesis by blast
qed

lemma filtered_entries:
  assumes l: "loads M db (view s)" and f: "filter_ok M (ran (objs_at M db (view s))) f"
  shows "\<exists>es es'. get_all_raw K db s = (s, Inr es) \<and> query_converter_build M f es = Inr es' \<and> distinct (map fst es')
    \<and> fst ` set es' = matching M db (view s) f
    \<and> err_map (load_obj M) es' = Inr (map (\<lambda>k. the (objs_at M db (view s) k)) (map fst es')) \<and> (es = [] \<longrightarrow> es' = [])"
proof -
  obtain es where es: "get_all_raw K db s = (s, Inr es)" "distinct (map fst es)"
      "\<forall>k v. (k, v) \<in> set es \<longleftrightarrow> view s k = Some v \<and> starts_with k (coll_prefix db)"
    using raw_entries by blast
  let ?p = "\<lambda>e. sat M (turned f) (the (objs_at M db (view s) (fst e)))"
  note b = build_entries [OF l es(3) es(2) f]
  note o = raw_objs(2) [OF l es(3)]
  have "err_map (load_obj M) (filter ?p es) = Inr (map (\<lambda>e. the (objs_at M db (view s) (fst e))) (filter ?p es))"
    using o by (intro err_map_Inr) fastforce
  moreover have "fst ` set (filter ?p es) = matching M db (view s) f"
  proof (intro equalityI subsetI)
    fix k assume "k \<in> fst ` set (filter ?p es)"
    then show "k \<in> matching M db (view s) f" using o by (fastforce simp: matching_def)
  next
    fix k assume "k \<in> matching M db (view s) f"
    then obtain x where x: "objs_at M db (view s) k = Some x" "sat M (turned f) x" by (auto simp: matching_def)
    then obtain v where "(k, v) \<in> set es" using raw_objs(3) [OF l es(3)] by blast
    then show "k \<in> fst ` set (filter ?p es)" using x by force
  qed
  ultimately show ?thesis using es b distinct_map_filter [OF es(2)] by (auto simp: comp_def)
qed

lemma get_objs:
  assumes l: "loads M db (view s)" and f: "filter_ok M (ran (objs_at M db (view s))) f" and q: "q_filter_by q = Some f"
  shows "\<exists>ks. distinct ks \<and> set ks = matching M db (view s) f
    \<and> (db_get K M db q s = (s, Inr []) \<and> ks = [] \<or>
       db_get K M db q s = (s, err_bind (ordered M q (map (\<lambda>k. the (objs_at M db (view s) k)) ks)) (query_slice q)))"
proof -
  obtain es es' where e: "get_all_raw K db s = (s, Inr es)" "query_converter_build M f es = Inr es'" "distinct (map fst es')"
      "fst ` set es' = matching M db (view s) f" "err_map (load_obj M) es' = Inr (map (\<lambda>k. the (objs_at M db (view s) k)) (map fst es'))"
      "es = [] \<longrightarrow> es' = []"
    using filtered_entries [OF l f] by blast
  have "set (map fst es') = matching M db (view s) f" using e(4) by simp
  moreover have "db_get K M db q s = (s, Inr []) \<and> map fst es' = [] \<or>
       db_get K M db q s = (s, err_bind (ordered M q (map (\<lambda>k. the (objs_at M db (view s) k)) (map fst es'))) (query_slice q))"
    using e(1,2,5,6) q by (cases "es = []") (auto simp: db_get_def query_result_def)
  ultimately show ?thesis using e(3) by blast
qed

lemma delete_objs:
  assumes l: "loads M db (view s)" and f: "filter_ok M (ran (objs_at M db (view s))) f"
  shows "\<exists>s'. db_delete K M db f s = (s', Inr (card (matching M db (view s) f))) \<and> loads M db (view s')
    \<and> objs_at M db (view s') = (\<lambda>k. if k \<in> matching M db (view s) f then None else objs_at M db (view s) k)"
proof -
  obtain es es' where e: "get_all_raw K db s = (s, Inr es)" "query_converter_build M f es = Inr es'" "distinct (map fst es')"
      "fst ` set es' = matching M db (view s) f" "es = [] \<longrightarrow> es' = []"
    using filtered_entries [OF l f] by blast
  have c: "card (matching M db (view s) f) = length es'" using distinct_card [OF e(3)] e(4) by simp
  obtain s' where s': "delete_tasks K (map fst es') s = (s', map (\<lambda>_. Inr True) (map fst es'))"
      "view s' = (\<lambda>k. if k \<in> set (map fst es') then None else view s k)"
    using delete_tasks_view by blast
  have v: "view s' k = (if k \<in> matching M db (view s) f then None else view s k)" for k using s'(2) e(4) by simp
  have "db_delete K M db f s = (s', Inr (card (matching M db (view s) f))) \<or> (es' = [] \<and> db_delete K M db f s = (s, Inr 0))"
    using e(1,2,5) s'(1) c task_results_ok [of "map fst es'"] by (auto simp: db_delete_def)
  moreover have "loads M db (view s')" using l by (auto simp: loads_def v)
  moreover have "objs_at M db (view s') = (\<lambda>k. if k \<in> matching M db (view s) f then None else objs_at M db (view s) k)"
    by (rule ext) (simp add: objs_at_def v)
  moreover have "objs_at M db (view s) = (\<lambda>k. if k \<in> matching M db (view s) f then None else objs_at M db (view s) k)" if "es' = []"
    using e(4) that by auto
  ultimately show ?thesis using l c by (metis list.size(3))
qed

end

section \<open>A server that keeps its entries in a map\<close>

text \<open>Finitely many entries, as an association list with distinct keys.\<close>

definition list_server :: "((string \<times> string option) list) consul_kv" where
  "list_server = \<lparr>
     kv_get = (\<lambda>k s. (s, Inr (map_of s k))),
     kv_recurse = (\<lambda>p s. (s, Inr (let es = filter (\<lambda>e. starts_with (fst e) p) (AList.clearjunk s) in if es = [] then None else Some es))),
     kv_keys = (\<lambda>p s. (s, Inr (let ks = filter (\<lambda>k. starts_with k p) (map fst (AList.clearjunk s)) in if ks = [] then None else Some ks))),
     kv_put = (\<lambda>k v s. (AList.update k (Some v) s, Inr True)),
     kv_delete = (\<lambda>k recurse s. (filter (\<lambda>e. \<not> (if recurse then starts_with (fst e) k else fst e = k)) s, Inr True))\<rparr>"

lemma map_of_filter_keys: "map_of (filter (\<lambda>e. P (fst e)) s) k = (if P k then map_of s k else None)"
  by (induction s) auto

interpretation ls: consul_server list_server map_of
proof
  fix k s show "kv_get list_server k s = (s, Inr (map_of s k))" by (simp add: list_server_def)
next
  fix p and s :: "(string \<times> string option) list"
  let ?es = "filter (\<lambda>e. starts_with (fst e) p) (AList.clearjunk s)"
  have "kv_recurse list_server p s = (s, Inr (if ?es = [] then None else Some ?es))" by (simp add: list_server_def Let_def)
  moreover have "distinct (map fst ?es)" by (rule distinct_map_filter) (rule AList.distinct_clearjunk)
  moreover have "(k, v) \<in> set ?es \<longleftrightarrow> map_of s k = Some v \<and> starts_with k p" for k v
    using map_of_eq_Some_iff [OF AList.distinct_clearjunk [of s], of k v] by (auto simp: AList.map_of_clearjunk)
  ultimately show "\<exists>es. kv_recurse list_server p s = (s, Inr (if es = [] then None else Some es)) \<and> distinct (map fst es)
      \<and> (\<forall>k v. (k, v) \<in> set es \<longleftrightarrow> map_of s k = Some v \<and> starts_with k p)" by blast
next
  fix p and s :: "(string \<times> string option) list"
  let ?ks = "filter (\<lambda>k. starts_with k p) (map fst (AList.clearjunk s))"
  have "kv_keys list_server p s = (s, Inr (if ?ks = [] then None else Some ?ks))" by (simp add: list_server_def Let_def)
  moreover have "distinct ?ks" by (rule distinct_filter) (rule AList.distinct_clearjunk)
  moreover have "k \<in> set ?ks \<longleftrightarrow> map_of s k \<noteq> None \<and> starts_with k p" for k
    by (auto simp: map_of_eq_None_iff AList.dom_clearjunk image_iff)
  ultimately show "\<exists>ks. kv_keys list_server p s = (s, Inr (if ks = [] then None else Some ks)) \<and> distinct ks
      \<and> (\<forall>k. k \<in> set ks \<longleftrightarrow> map_of s k \<noteq> None \<and> starts_with k p)" by blast
next
  fix k v s show "\<exists>s'. kv_put list_server k v s = (s', Inr True) \<and> map_of s' = (map_of s)(k \<mapsto> Some v)"
    by (simp add: list_server_def AList.update_conv')
next
  fix k s show "\<exists>s'. kv_delete list_server k False s = (s', Inr True) \<and> map_of s' = (map_of s)(k := None)"
    by (auto simp: list_server_def map_of_filter_keys [where P = "\<lambda>x. x \<noteq> k"])
next
  fix k s show "\<exists>s'. kv_delete list_server k True s = (s', Inr True) \<and>
      map_of s' = (\<lambda>k'. if starts_with k' k then None else map_of s k')"
    by (auto simp: list_server_def map_of_filter_keys [where P = "\<lambda>x. \<not> starts_with x k"])
qed

section \<open>The storage as a map of objects\<close>

text \<open>Claim C6. On a server that works, a collection of the storage is a map of objects: storing a
  valid object writes it at its lower-case key and touches nothing else; a query returns, once
  each, exactly the objects that its filter selects, in the sense of \<open>filter_selects\<close> of DataAccess: the order
  relations are turned, a field greater than x is one that is less; a delete removes exactly these and returns
  their number. Every operation leaves a collection in which each entry is an object.\<close>

theorem consul_db_refines:
  assumes "consul_server K view" "model_laws M" "loads M db (view s)"
    and "generic_store M db obj = Inr x" "primary_key_val M x = Inr k" "filter_ok M (ran (objs_at M db (view s))) f"
  shows "(\<exists>s'. db_store K M db obj s = (s', Inr ()) \<and> loads M db (view s')
      \<and> objs_at M db (view s') = (objs_at M db (view s))(obj_key M db k \<mapsto> x))
    \<and> (\<exists>ks. distinct ks \<and> set ks = matching M db (view s) f
      \<and> db_get K M db (query_filter_by Query f) s = (s, Inr (map (\<lambda>k. the (objs_at M db (view s) k)) ks)))
    \<and> (\<exists>s'. db_delete K M db f s = (s', Inr (card (matching M db (view s) f))) \<and> loads M db (view s')
      \<and> objs_at M db (view s') = (\<lambda>k. if k \<in> matching M db (view s) f then None else objs_at M db (view s) k))"
proof (intro conjI)
  let ?q = "query_filter_by Query f"
  have q: "q_filter_by ?q = Some f" "ordered M ?q xs = Inr xs" "query_slice ?q xs = Inr xs" for xs
    by (simp_all add: query_filter_by_def Query_def ordered_def query_slice_def)
  show "\<exists>ks. distinct ks \<and> set ks = matching M db (view s) f
      \<and> db_get K M db ?q s = (s, Inr (map (\<lambda>k. the (objs_at M db (view s) k)) ks))"
    using consul_server.get_objs [OF assms(1,3,6) q(1)] by (auto simp: q)
qed (rule consul_server.store_objs [OF assms(1,3,2,4,5)], rule consul_server.delete_objs [OF assms(1,3,6)])

definition count_db :: consul_db where
  "count_db = \<lparr>cd_collection = ''counts'', cd_scheme = PDict [(''name'', PNone), (''count'', PNone)]\<rparr>"

lemma count_class: "mc_fields count_model = [''name'', ''count'']" "mc_native count_model f v = Some v"
  by (simp_all add: count_model_def)

lemma count_validate:
  "mc_validate count_model x = Some y \<Longrightarrow> \<exists>n c. y = count_obj n c"
  by (auto simp: count_model_def split: option.splits native.splits pyval.splits)

lemma count_primitive: "mc_primitive count_model (count_obj n c) = PDict [(''name'', PStr n), (''count'', PInt c)]"
  by (simp add: count_model_def count_obj_def)

lemma count_make: "mc_make count_model (PDict [(''name'', PStr n), (''count'', PInt c)]) = Inr (count_obj n c)"
  by (auto simp: count_model_def count_obj_def)

lemma count_laws: "model_laws count_model"
  unfolding model_laws_def using count_validate count_primitive count_make by fastforce

lemma count_load: "load_obj count_model (k, Some (json_dumps (mc_primitive count_model (count_obj n c)))) = Inr (count_obj n c)"
  by (simp add: load_obj_def count_primitive json_load_dumps count_make del: json_dumps.simps)

definition count_state :: "(string \<times> string option) list" where
  "count_state = [(coll_prefix count_db @ ''b'', Some (json_dumps (mc_primitive count_model (count_obj ''b'' 7))))]"

lemma count_objs: "objs_at count_model count_db (map_of count_state) = [coll_prefix count_db @ ''b'' \<mapsto> count_obj ''b'' 7]"
  by (rule ext) (simp add: objs_at_def count_state_def count_load)

theorem consul_db_refines_witness:
  "(\<exists>s'. db_store list_server count_model count_db (count_obj ''A'' 5) count_state = (s', Inr ())
    \<and> objs_at count_model count_db (map_of s') =
      [coll_prefix count_db @ ''b'' \<mapsto> count_obj ''b'' 7, coll_prefix count_db @ ''a'' \<mapsto> count_obj ''A'' 5])
   \<and> (\<exists>s'. db_delete list_server count_model count_db (FilterOperationCompare (Field ''count'') OPERATION_EQ (NVal (PInt 7))) count_state
     = (s', Inr 1))"
proof -
  let ?f = "FilterOperationCompare (Field ''count'') OPERATION_EQ (NVal (PInt 7))"
  have l: "loads count_model count_db (map_of count_state)" using count_load by (auto simp: loads_def count_state_def split: if_splits)
  have g: "generic_store count_model count_db (count_obj ''A'' 5) = Inr (count_obj ''A'' 5)"
    by (simp add: generic_store_def count_model_def count_obj_def scheme_keys_def count_db_def)
  have k: "primary_key_val count_model (count_obj ''A'' 5) = Inr (NVal (PStr ''A''))"
    by (simp add: primary_key_val_def primary_key_def count_model_def get_field_def count_obj_def)
  have f: "filter_ok count_model (ran (objs_at count_model count_db (map_of count_state))) ?f"
    by (auto simp: count_objs field_to_str_def count_class compare_object_def get_field_def count_obj_def ran_def)
  have ok: "obj_key count_model count_db (NVal (PStr ''A'')) = coll_prefix count_db @ ''a''"
  proof -
    have "to_lower (CHR ''A'') = CHR ''a''" by code_simp
    then show ?thesis by (simp add: obj_key_def key_text_def)
  qed
  have m: "matching count_model count_db (map_of count_state) ?f = {coll_prefix count_db @ ''b''}"
    by (auto simp: matching_def count_objs field_to_str_def count_class count_obj_def native_eq_def split: if_splits)
  note r = consul_db_refines [OF ls.consul_server_axioms count_laws l g k f, unfolded ok m count_objs]
  from r have "\<exists>s'. db_store list_server count_model count_db (count_obj ''A'' 5) count_state = (s', Inr ())
    \<and> objs_at count_model count_db (map_of s') =
      [coll_prefix count_db @ ''b'' \<mapsto> count_obj ''b'' 7, coll_prefix count_db @ ''a'' \<mapsto> count_obj ''A'' 5]" by blast
  moreover from r have "\<exists>s'. db_delete list_server count_model count_db ?f count_state = (s', Inr 1)" by auto
  ultimately show ?thesis by blast
qed

end
