(* ===== verification/HaDecision.thy ===== *)
theory HaDecision
  imports ConsulDb TextStores
begin

text \<open>
  The HA decision manager: the rule engine and the decision maker of
  src/py-utils/src/utils/ha/dm/decision_maker.py, the repository of decisions
  (repository/decisiondb.py, models/decisiondb.py) and the decision monitor
  (decision_monitor.py). Decisions are objects of the Consul storage; the class
  DecisionModel, made by schematics from its declaration, is a parameter with the laws
  \<open>decision_laws\<close>. The database behind the repository is the one that was created.
\<close>

section \<open>RuleEngine\<close>

text \<open>\<open>v.get(key)\<close> for a key that need not be a string.\<close>

definition py_get_of :: "pyval \<Rightarrow> pyval \<Rightarrow> pyexc + pyval" where
  "py_get_of v key = (case (v, key) of
      (PDict d, PStr s) \<Rightarrow> py_get v s PNone
    | (PDict d, _) \<Rightarrow> if is_list_dict key then Inl TypeError else Inr PNone
    | _ \<Rightarrow> Inl AttributeError)"

fun py_gets :: "pyval \<Rightarrow> string list \<Rightarrow> pyexc + pyval" where
  "py_gets v [] = Inr v"
| "py_gets v (k # ks) = err_bind (py_get v k PNone) (\<lambda>w. py_gets w ks)"

text \<open>\<open>_load_rules\<close>: a file that cannot be read only logs an error.\<close>

definition load_rules :: "file_system \<Rightarrow> string option \<Rightarrow> pyexc + pyval" where
  "load_rules fs rule_file = (case rule_file of
      None \<Rightarrow> Inr PNone
    | Some path \<Rightarrow> (case fs path of
          None \<Rightarrow> Inr PNone
        | Some t \<Rightarrow> if t = [] then Inr PNone else (case json_load t of None \<Rightarrow> Inl ValueError | Some v \<Rightarrow> Inr v)))"

text \<open>The conditions on one rule.\<close>

definition rule_matches :: "bool \<Rightarrow> pyval \<Rightarrow> pyval \<Rightarrow> pyval \<Rightarrow> pyval \<Rightarrow> pyval \<Rightarrow> pyexc + bool" where
  "rule_matches iem alert_type severity component_var module_var item =
     err_bind (py_item item ''alert_type'') (\<lambda>a. if \<not> py_eq alert_type a then Inr False
     else err_bind (py_item item ''severity'') (\<lambda>sv. if \<not> py_eq severity sv then Inr False
     else if \<not> iem then Inr True
     else err_bind (py_item item ''component_id'') (\<lambda>c. if \<not> py_eq component_var c then Inr False
     else err_bind (py_item item ''module_id'') (\<lambda>m. Inr (py_eq module_var m)))))"

fun scan_rules :: "(pyval \<Rightarrow> pyexc + bool) \<Rightarrow> pyval list \<Rightarrow> pyval \<Rightarrow> pyexc + pyval" where
  "scan_rules matches [] action = Inr action"
| "scan_rules matches (item # items) action = err_bind (matches item) (\<lambda>b.
     if b then err_bind (py_item item ''action'') (scan_rules matches items) else scan_rules matches items action)"

definition evaluate_alert :: "pyval \<Rightarrow> pyval \<Rightarrow> pyexc + pyval" where
  "evaluate_alert rules alert = (if \<not> py_truth rules then Inr PNone
     else err_bind (py_gets alert [''message'', ''sensor_response_type'']) (\<lambda>sr.
       err_bind (py_gets sr [''info'', ''resource_type'']) (\<lambda>res_type. if res_type = PNone then Inr PNone
       else err_bind (py_get sr ''alert_type'' PNone) (\<lambda>alert_type. err_bind (py_get sr ''severity'' PNone) (\<lambda>severity.
         let iem = (res_type = PStr ''iem'') in
         err_bind (if iem then py_gets sr [''specific_info'', ''component''] else Inr (PStr [])) (\<lambda>component_var.
         err_bind (if iem then py_gets sr [''specific_info'', ''module''] else Inr (PStr [])) (\<lambda>module_var.
         err_bind (res_item rules res_type) (\<lambda>res_type_data. if res_type_data = PNone then Inr PNone
         else err_bind (py_iter res_type_data) (\<lambda>items.
           scan_rules (rule_matches iem alert_type severity component_var module_var) items PNone)))))))))"

section \<open>DecisionDB\<close>

definition create_decision_id :: "pyval list \<Rightarrow> pyexc + string" where
  "create_decision_id decision_payload =
     err_bind (err_map (\<lambda>v. case v of PStr s \<Rightarrow> Inr s | _ \<Rightarrow> Inl TypeError) decision_payload) (\<lambda>ss. Inr (py_join ''/'' ss))"

definition instantiate_decision :: "string \<Rightarrow> pyval \<Rightarrow> pyval \<Rightarrow> model_obj" where
  "instantiate_decision decision_id action alert_time =
     [''decision_id'' \<mapsto> NVal (PStr decision_id), ''action'' \<mapsto> NVal action, ''alert_time'' \<mapsto> NVal alert_time]"

definition store_event :: "'s consul_kv \<Rightarrow> model_class \<Rightarrow> consul_db \<Rightarrow> pyval \<Rightarrow> pyval \<Rightarrow> pyval \<Rightarrow> pyval \<Rightarrow> pyval \<Rightarrow> pyval \<Rightarrow>
    's \<Rightarrow> 's \<times> (pyexc + unit)" where
  "store_event K M db entity entity_id component component_id alert_time action s =
     (case create_decision_id [entity, entity_id, component, component_id, alert_time] of
        Inl e \<Rightarrow> (s, Inl e)
      | Inr decision_id \<Rightarrow> db_store K M db (instantiate_decision decision_id action alert_time) s)"

definition id_query :: "string \<Rightarrow> string \<Rightarrow> pyexc + query" where
  "id_query opr decision_id = err_bind (Compare_filter (Field ''decision_id'') opr (NVal (PStr decision_id)))
     (\<lambda>f. Inr (query_filter_by Query f))"

definition get_event :: "'s consul_kv \<Rightarrow> model_class \<Rightarrow> consul_db \<Rightarrow> pyval \<Rightarrow> pyval \<Rightarrow> pyval \<Rightarrow> pyval \<Rightarrow> pyval \<Rightarrow>
    's \<Rightarrow> 's \<times> (pyexc + model_obj list)" where
  "get_event K M db entity entity_id component component_id alert_time s =
     (case err_bind (create_decision_id [entity, entity_id, component, component_id, alert_time]) (id_query ''='') of
        Inl e \<Rightarrow> (s, Inl e)
      | Inr q \<Rightarrow> db_get K M db q s)"

definition get_event_time :: "'s consul_kv \<Rightarrow> model_class \<Rightarrow> consul_db \<Rightarrow> pyval \<Rightarrow> pyval \<Rightarrow> pyval \<Rightarrow> pyval \<Rightarrow>
    (operand \<times> sort_order) option \<Rightarrow> 's \<Rightarrow> 's \<times> (pyexc + model_obj list)" where
  "get_event_time K M db entity entity_id component component_id sort_by s =
     (case err_bind (create_decision_id [entity, entity_id, component, component_id]) (id_query ''like'') of
        Inl e \<Rightarrow> (s, Inl e)
      | Inr q \<Rightarrow> db_get K M db (case sort_by of None \<Rightarrow> q | Some (f, ord) \<Rightarrow> query_order_by q f ord []) s)"

definition delete_event :: "'s consul_kv \<Rightarrow> model_class \<Rightarrow> consul_db \<Rightarrow> pyval \<Rightarrow> pyval \<Rightarrow> pyval \<Rightarrow> pyval \<Rightarrow> 's \<Rightarrow> 's \<times> (pyexc + nat)" where
  "delete_event K M db entity entity_id component component_id s =
     (case err_bind (create_decision_id [entity, entity_id, component, component_id])
         (\<lambda>i. Compare_filter (Field ''decision_id'') ''like'' (NVal (PStr i))) of
        Inl e \<Rightarrow> (s, Inl e)
      | Inr f \<Rightarrow> db_delete K M db f s)"

section \<open>DecisionMaker\<close>

definition get_host_id :: "pyval \<Rightarrow> pyval \<Rightarrow> pyexc + pyval" where
  "get_host_id conf node_id = (if py_truth conf then err_bind (py_get conf ''nodes'' PNone) (\<lambda>ns. py_get_of ns node_id)
     else Inr (PStr []))"

definition get_nw_interface :: "string \<Rightarrow> pyval \<Rightarrow> pyval \<Rightarrow> pyexc + pyval" where
  "get_nw_interface iface conf host_id = (if py_truth conf
     then err_bind (py_get conf ''network'' PNone) (\<lambda>nw. err_bind (py_get_of nw host_id) (\<lambda>h. py_get h iface PNone))
     else Inr (PList []))"

definition get_data_nw_interface :: "pyval \<Rightarrow> pyval \<Rightarrow> pyexc + pyval" where
  "get_data_nw_interface = get_nw_interface ''data_iface''"

definition get_mgmt_nw_interface :: "pyval \<Rightarrow> pyval \<Rightarrow> pyexc + pyval" where
  "get_mgmt_nw_interface = get_nw_interface ''mgmt_iface''"

definition get_component_id_for_nic :: "pyval \<Rightarrow> pyval \<Rightarrow> pyval \<Rightarrow> pyexc + string" where
  "get_component_id_for_nic conf host_id resource_id =
     err_bind (get_data_nw_interface conf host_id) (\<lambda>nw. err_bind (native_contains (NVal nw) (NVal resource_id)) (\<lambda>b.
     if b then Inr ''data''
     else err_bind (get_mgmt_nw_interface conf host_id) (\<lambda>nw. err_bind (native_contains (NVal nw) (NVal resource_id)) (\<lambda>b.
       Inr (if b then ''mgmt'' else [])))))"

text \<open>\<open>_set_db_key_info\<close>: entity, entity id, component and component id of the alert. First the entity with
  what an IEM alert gives at once, then the entity id and the component, then the component id.\<close>

definition info_entity :: "pyval \<Rightarrow> string \<Rightarrow> pyval \<Rightarrow> pyexc + pydict" where
  "info_entity sr resource_type event_time =
     (if resource_type = ''iem'' then err_bind (py_gets sr [''specific_info'', ''component'']) (\<lambda>c.
        Inr [(''event_time'', event_time), (''entity'', PStr ''node''), (''component'', PStr ''iem''), (''component_id'', c)])
      else Inr [(''event_time'', event_time), (''entity'', PStr (hd (py_split (CHR '':'') resource_type)))])"

definition info_component :: "string \<Rightarrow> pyval \<Rightarrow> pydict \<Rightarrow> pydict" where
  "info_component resource_type host_id d =
     (let res_list = py_split (CHR '':'') resource_type;
          d1 = AList.update ''entity_id'' (if map_of d ''entity'' = Some (PStr ''node'') then host_id else PStr ''0'') d in
      if 1 < length res_list then AList.update ''component'' (PStr (last res_list)) d1
      else if map_of d1 ''entity'' = Some (PStr ''enclosure'')
        then AList.update ''component_id'' host_id (AList.update ''component'' (PStr ''connectivity'') d1)
      else d1)"

definition info_component_id :: "pyval \<Rightarrow> string \<Rightarrow> pyval \<Rightarrow> pyval \<Rightarrow> pydict \<Rightarrow> pyexc + pydict" where
  "info_component_id conf resource_type resource_id host_id d = err_bind (py_item (PDict d) ''component'') (\<lambda>c.
     if c = PStr ''controller'' then Inr (AList.update ''component_id'' host_id d)
     else if resource_type \<in> {''node:interface:nw'', ''node:interface:nw:cable''}
       then err_bind (get_component_id_for_nic conf host_id resource_id) (\<lambda>i.
         Inr (if i \<noteq> [] then AList.update ''component_id'' (PStr i) d else []))
     else if resource_type \<notin> {''iem'', ''enclosure''} then Inr (AList.update ''component_id'' resource_id d)
     else Inr d)"

definition set_db_key_info :: "pyval \<Rightarrow> pyval \<Rightarrow> pyexc + pydict" where
  "set_db_key_info conf sr = err_bind (py_get sr ''info'' PNone) (\<lambda>info.
     err_bind (py_get info ''resource_type'' PNone) (\<lambda>rt. err_bind (py_get info ''resource_id'' PNone) (\<lambda>resource_id.
     err_bind (py_get info ''node_id'' PNone) (\<lambda>node_id. err_bind (get_host_id conf node_id) (\<lambda>host_id.
     err_bind (py_get info ''event_time'' PNone) (\<lambda>event_time. case rt of
         PStr resource_type \<Rightarrow> err_bind (info_entity sr resource_type event_time) (\<lambda>d.
           info_component_id conf resource_type resource_id host_id (info_component resource_type host_id d))
       | _ \<Rightarrow> Inl AttributeError))))))"

text \<open>\<open>_store_action\<close> and \<open>handle_alert\<close> log every exception and return None.\<close>

definition store_action :: "'s consul_kv \<Rightarrow> model_class \<Rightarrow> consul_db \<Rightarrow> pyval \<Rightarrow> pyval \<Rightarrow> pyval \<Rightarrow> 's \<Rightarrow> 's" where
  "store_action K M db conf alert action s =
     (case err_bind (py_gets alert [''message'', ''sensor_response_type'']) (set_db_key_info conf) of
        Inl e \<Rightarrow> s
      | Inr d \<Rightarrow> if d = [] then s
          else (case err_map (py_item (PDict d)) [''entity'', ''entity_id'', ''component'', ''component_id'', ''event_time''] of
            Inr [en, ei, c, ci, et] \<Rightarrow> fst (store_event K M db en ei c ci et action s)
          | _ \<Rightarrow> s))"

definition handle_alert :: "'s consul_kv \<Rightarrow> model_class \<Rightarrow> consul_db \<Rightarrow> pyval \<Rightarrow> pyval \<Rightarrow> pyval \<Rightarrow> 's \<Rightarrow> 's" where
  "handle_alert K M db rules conf alert s = (if alert = PNone then s
     else case evaluate_alert rules alert of
       Inl e \<Rightarrow> s
     | Inr action \<Rightarrow> if action = PNone then s else store_action K M db conf alert action s)"

section \<open>DecisionMonitor\<close>

definition Action_FAILED :: pyval where "Action_FAILED = PStr ''failed''"
definition Action_RESOLVED :: pyval where "Action_RESOLVED = PStr ''resolved''"
definition Action_OK :: pyval where "Action_OK = PStr ''ok''"

text \<open>\<open>f(**resource_key)\<close>: the four arguments; \<open>extra\<close> says that the function takes other
  arguments too, except ones named self or \<open>sort_by\<close>.\<close>

definition key_args :: "bool \<Rightarrow> pyval \<Rightarrow> pyexc + pyval list" where
  "key_args extra rk = (case rk of
      PDict d \<Rightarrow> if (if extra then ''sort_by'' \<notin> fst ` set d \<and> ''self'' \<notin> fst ` set d
                     else fst ` set d \<subseteq> {''entity'', ''entity_id'', ''component'', ''component_id''})
        then (case err_map (py_item rk) [''entity'', ''entity_id'', ''component'', ''component_id''] of
            Inl e \<Rightarrow> Inl TypeError | Inr vs \<Rightarrow> Inr vs)
        else Inl TypeError
    | _ \<Rightarrow> Inl TypeError)"

definition resource_key :: "pyval \<Rightarrow> pyval \<Rightarrow> pyexc + pyval" where
  "resource_key resource_file resource = err_bind (py_get resource_file ''resources'' (PDict [])) (\<lambda>rs. case (rs, resource) of
      (PDict d, PStr r) \<Rightarrow> py_get rs r (PDict [])
    | (PDict d, _) \<Rightarrow> if is_list_dict resource then Inl TypeError else Inr (PDict [])
    | _ \<Rightarrow> Inl AttributeError)"

text \<open>The calls of ConsulCallHandler with their key.\<close>

definition call_get :: "'s consul_kv \<Rightarrow> model_class \<Rightarrow> consul_db \<Rightarrow> pyval \<Rightarrow> 's \<Rightarrow> 's \<times> (pyexc + model_obj list)" where
  "call_get K M db rk s = (case key_args True rk of
      Inr [en, ei, c, ci] \<Rightarrow> get_event_time K M db en ei c ci (Some (Field ''alert_time'', DESC)) s
    | Inr _ \<Rightarrow> (s, Inl TypeError)
    | Inl e \<Rightarrow> (s, Inl e))"

definition call_delete :: "'s consul_kv \<Rightarrow> model_class \<Rightarrow> consul_db \<Rightarrow> pyval \<Rightarrow> 's \<Rightarrow> 's \<times> (pyexc + nat)" where
  "call_delete K M db rk s = (case key_args False rk of
      Inr [en, ei, c, ci] \<Rightarrow> delete_event K M db en ei c ci s
    | Inr _ \<Rightarrow> (s, Inl TypeError)
    | Inl e \<Rightarrow> (s, Inl e))"

definition get_resource_status :: "'s consul_kv \<Rightarrow> model_class \<Rightarrow> consul_db \<Rightarrow> pyval \<Rightarrow> pyval \<Rightarrow> 's \<Rightarrow> 's \<times> (pyexc + native)" where
  "get_resource_status K M db rf resource s = (case resource_key rf resource of
      Inl e \<Rightarrow> (s, Inl e)
    | Inr rk \<Rightarrow> (case call_get K M db rk s of
          (s1, Inl e) \<Rightarrow> (s1, Inr (NVal Action_OK))
        | (s1, Inr []) \<Rightarrow> (s1, Inr (NVal Action_OK))
        | (s1, Inr (x # xs)) \<Rightarrow> (s1, get_field x ''action'')))"

text \<open>The loop of \<open>get_resource_group_status\<close>; a failed resource ends it.\<close>

fun group_loop :: "'s consul_kv \<Rightarrow> model_class \<Rightarrow> consul_db \<Rightarrow> pyval \<Rightarrow> pyval list \<Rightarrow> native list \<Rightarrow> 's \<Rightarrow> 's \<times> (pyexc + native)" where
  "group_loop K M db rf [] group_status s =
     (s, Inr (NVal (if NVal Action_RESOLVED \<in> set group_status then Action_RESOLVED else Action_OK)))"
| "group_loop K M db rf (r # rs) group_status s = st_bind (get_resource_status K M db rf r s) (\<lambda>s1 status.
     if status = NVal Action_FAILED then (s1, Inr status) else group_loop K M db rf rs (group_status @ [status]) s1)"

definition group_resources :: "pyval \<Rightarrow> string \<Rightarrow> pyexc + pyval list" where
  "group_resources rf resource_group = err_bind (py_get rf ''resource_groups'' (PDict [])) (\<lambda>gs.
     err_bind (py_get gs resource_group (PList [])) py_iter)"

definition get_resource_group_status :: "'s consul_kv \<Rightarrow> model_class \<Rightarrow> consul_db \<Rightarrow> pyval \<Rightarrow> string \<Rightarrow> 's \<Rightarrow> 's \<times> (pyexc + native)" where
  "get_resource_group_status K M db rf resource_group s = (case group_resources rf resource_group of
      Inl e \<Rightarrow> (s, Inl e)
    | Inr rs \<Rightarrow> group_loop K M db rf rs [] s)"

definition acknowledge_resource :: "'s consul_kv \<Rightarrow> model_class \<Rightarrow> consul_db \<Rightarrow> pyval \<Rightarrow> pyval \<Rightarrow> bool \<Rightarrow> 's \<Rightarrow> 's \<times> (pyexc + unit)" where
  "acknowledge_resource K M db rf resource force s = (case resource_key rf resource of
      Inl e \<Rightarrow> (s, Inl e)
    | Inr rk \<Rightarrow> if force then (fst (call_delete K M db rk s), Inr ())
        else (case get_resource_status K M db rf resource s of
            (s1, Inl e) \<Rightarrow> (s1, Inr ())
          | (s1, Inr status) \<Rightarrow> (if status = NVal Action_FAILED then s1 else fst (call_delete K M db rk s1), Inr ())))"

definition acknowledge_resource_group :: "'s consul_kv \<Rightarrow> model_class \<Rightarrow> consul_db \<Rightarrow> pyval \<Rightarrow> string \<Rightarrow> 's \<Rightarrow> 's \<times> (pyexc + unit)" where
  "acknowledge_resource_group K M db rf resource_group s = (case group_resources rf resource_group of
      Inl e \<Rightarrow> (s, Inl e)
    | Inr rs \<Rightarrow> for_each (\<lambda>s r. acknowledge_resource K M db rf r False s) s rs)"

section \<open>The latest decision\<close>

text \<open>What is needed of the class DecisionModel, and of the objects of its collection.\<close>

definition decision_laws :: "model_class \<Rightarrow> bool" where
  "decision_laws M \<longleftrightarrow> mc_fields M = [''decision_id'', ''action'', ''alert_time''] \<and> mc_key M = Some ''decision_id''
     \<and> \<not> mc_is_string M ''alert_time'' \<and> (\<forall>i. mc_native M ''decision_id'' (NVal (PStr i)) = Some (NVal (PStr i)))"

definition is_decision :: "string \<Rightarrow> pyval \<Rightarrow> int \<Rightarrow> model_obj \<Rightarrow> bool" where
  "is_decision i a n x \<longleftrightarrow> x ''decision_id'' = Some (NVal (PStr i)) \<and> x ''action'' = Some (NVal a) \<and> x ''alert_time'' = Some (NTime n)"

definition all_decisions :: "model_class \<Rightarrow> consul_db \<Rightarrow> (string \<Rightarrow> string option option) \<Rightarrow> bool" where
  "all_decisions M db m \<longleftrightarrow> (\<forall>x \<in> ran (objs_at M db m). \<exists>i a n. is_decision i a n x)"

definition like_filter :: "string \<Rightarrow> ifilter" where
  "like_filter i = FilterOperationCompare (Field ''decision_id'') OPERATION_LIKE (NVal (PStr i))"

lemma id_query_like: "id_query ''like'' i = Inr (query_filter_by Query (like_filter i))"
  by (simp add: id_query_def Compare_filter_def from_standard_representation_def like_filter_def)

lemma like_ok: "decision_laws M \<Longrightarrow> all_decisions M db m \<Longrightarrow> filter_ok M (ran (objs_at M db m)) (like_filter i)"
  by (fastforce simp: like_filter_def field_to_str_def decision_laws_def all_decisions_def is_decision_def compare_object_def
      get_field_def native_contains_def)

lemma like_sat: "decision_laws M \<Longrightarrow> is_decision j a n x \<Longrightarrow> sat M (turned (like_filter i)) x \<longleftrightarrow> str_in i j"
  by (simp add: like_filter_def field_to_str_def decision_laws_def is_decision_def native_contains_def)

text \<open>The last element of a list sorted by time.\<close>

lemma insert_by_not_empty [simp]: "insert_by x ys \<noteq> []"
  by (cases ys) auto

lemma last_insert_by: "last (insert_by x ys) = (if \<forall>y \<in> set ys. native_less (fst y) (fst x) = Inr True then x else last ys)"
  by (induction ys) auto

lemma set_insert_by: "set (insert_by x ys) = insert x (set ys)"
  by (induction ys) auto

lemma set_sort_by: "set (foldr insert_by xs []) = set xs"
  by (induction xs) (auto simp: set_insert_by)

lemma last_sort_by:
  assumes "m \<in> set xs" "fst m = NTime n" "\<forall>y \<in> set xs. y = m \<or> (\<exists>t. fst y = NTime t \<and> t < n)"
  shows "last (foldr insert_by xs []) = m"
  using assms
proof (induction xs)
  case (Cons x xs)
  let ?r = "foldr insert_by xs []"
  show ?case
  proof (cases "m \<in> set xs")
    case True
    then have l: "last ?r = m" using Cons by simp
    have "m \<in> set ?r" using True by (simp add: set_sort_by)
    moreover have "x = m \<or> native_less (fst m) (fst x) \<noteq> Inr True" using Cons.prems by (auto simp: native_less_def)
    ultimately show ?thesis using l by (auto simp: last_insert_by)
  next
    case False
    then have "x = m" using Cons.prems(1) by simp
    moreover have "\<forall>y \<in> set ?r. native_less (fst y) (fst m) = Inr True"
      unfolding set_sort_by using Cons.prems(2,3) False by (fastforce simp: native_less_def)
    ultimately show ?thesis by (simp add: last_insert_by)
  qed
qed simp

lemma sorted_latest:
  assumes "m \<in> set xs" "fst m = NTime n" "\<forall>y \<in> set xs. y = m \<or> (\<exists>t. fst y = NTime t \<and> t < n)"
  shows "\<exists>ys. py_sorted True xs = Inr (snd m # ys)"
proof -
  have c: "\<not> isl (native_less (fst a) (fst b))" if "a \<in> set xs" "b \<in> set xs" for a b
    using assms(2,3) that by (auto simp: native_less_def split: native.splits)
  have "last (foldr insert_by (rev xs) []) = m" by (rule last_sort_by) (use assms in auto)
  moreover have "foldr insert_by (rev xs) [] \<noteq> []" using assms(1) set_sort_by [of "rev xs"] by auto
  ultimately obtain zs where "rev (foldr insert_by (rev xs) []) = m # zs" by (metis rev_is_Nil_conv list.collapse hd_rev)
  then show ?thesis using c by (auto simp: py_sorted_def list_ex_iff)
qed

definition decision_key :: "string \<Rightarrow> string \<Rightarrow> string \<Rightarrow> string \<Rightarrow> string" where
  "decision_key en ei c ci = py_join ''/'' [en, ei, c, ci]"

abbreviation latest_first :: "(operand \<times> sort_order) option" where
  "latest_first \<equiv> Some (Field ''alert_time'', DESC)"

lemma event_time_query:
  "get_event_time K M db (PStr en) (PStr ei) (PStr c) (PStr ci) latest_first s =
     db_get K M db (query_order_by (query_filter_by Query (like_filter (decision_key en ei c ci))) (Field ''alert_time'') DESC []) s"
  by (simp add: get_event_time_def create_decision_id_def id_query_like decision_key_def)

lemma events_latest:
  assumes K: "consul_server K view" and l: "loads M db (view s)" and d: "decision_laws M" and a: "all_decisions M db (view s)"
    and x: "objs_at M db (view s) k = Some x" "is_decision j act n x" "str_in (decision_key en ei c ci) j"
    and older: "\<And>k' y j' b t. objs_at M db (view s) k' = Some y \<Longrightarrow> is_decision j' b t y \<Longrightarrow>
      str_in (decision_key en ei c ci) j' \<Longrightarrow> y = x \<or> t < n"
  shows "\<exists>ys. get_event_time K M db (PStr en) (PStr ei) (PStr c) (PStr ci) latest_first s = (s, Inr (x # ys))"
proof -
  let ?i = "decision_key en ei c ci"
  let ?q = "query_order_by (query_filter_by Query (like_filter ?i)) (Field ''alert_time'') DESC []"
  let ?o = "\<lambda>k. the (objs_at M db (view s) k)"
  have q: "q_filter_by ?q = Some (like_filter ?i)" by (simp add: query_order_by_def query_filter_by_def)
  obtain ks where ks: "distinct ks" "set ks = matching M db (view s) (like_filter ?i)"
      "db_get K M db ?q s = (s, Inr []) \<and> ks = [] \<or> db_get K M db ?q s = (s, err_bind (ordered M ?q (map ?o ks)) (query_slice ?q))"
    using consul_server.get_objs [OF K l like_ok [OF d a] q] by blast
  have k: "k \<in> set ks" unfolding ks(2) matching_def using x like_sat [OF d x(2)] by blast
  have el: "\<exists>t. ?o k' ''alert_time'' = Some (NTime t) \<and> (?o k' = x \<or> t < n)" if k': "k' \<in> set ks" for k'
  proof -
    obtain y where y: "objs_at M db (view s) k' = Some y" "sat M (turned (like_filter ?i)) y"
      using k' unfolding ks(2) matching_def by blast
    then obtain j' b t where dec: "is_decision j' b t y" using a by (auto simp: all_decisions_def ran_def)
    then have "y = x \<or> t < n" using older y like_sat [OF d dec] by blast
    then show ?thesis using y(1) dec by (auto simp: is_decision_def)
  qed
  let ?ps = "map (\<lambda>k'. (the (?o k' ''alert_time''), ?o k')) ks"
  have "err_map (sorted_key M ''alert_time'') (map ?o ks) = Inr (map (\<lambda>y. (the (y ''alert_time''), y)) (map ?o ks))"
    by (rule err_map_Inr) (use el d in \<open>force simp: sorted_key_def get_field_def decision_laws_def\<close>)
  then have "ordered M ?q (map ?o ks) = py_sorted True ?ps"
    using d by (simp add: ordered_def query_order_by_def field_to_str_def class_field_def decision_laws_def comp_def)
  moreover have "\<exists>ys. py_sorted True ?ps = Inr (snd (NTime n, x) # ys)"
  proof (rule sorted_latest)
    show "(NTime n, x) \<in> set ?ps" using k x(1,2) by (force simp: is_decision_def)
    show "\<forall>y \<in> set ?ps. y = (NTime n, x) \<or> (\<exists>t. fst y = NTime t \<and> t < n)" using el x(2) by (force simp: is_decision_def)
  qed simp
  moreover have "query_slice ?q ys = Inr ys" for ys by (simp add: query_slice_def query_order_by_def query_filter_by_def Query_def)
  ultimately show ?thesis using ks(3) k by (auto simp: event_time_query)
qed

lemma events_none:
  assumes K: "consul_server K view" and l: "loads M db (view s)" and d: "decision_laws M" and a: "all_decisions M db (view s)"
    and n: "matching M db (view s) (like_filter (decision_key en ei c ci)) = {}"
  shows "get_event_time K M db (PStr en) (PStr ei) (PStr c) (PStr ci) latest_first s = (s, Inr [])"
proof -
  let ?q = "query_order_by (query_filter_by Query (like_filter (decision_key en ei c ci))) (Field ''alert_time'') DESC []"
  have q: "q_filter_by ?q = Some (like_filter (decision_key en ei c ci))" by (simp add: query_order_by_def query_filter_by_def)
  have "ordered M ?q [] = Inr []" "query_slice ?q [] = Inr []"
    using d by (simp_all add: ordered_def query_order_by_def field_to_str_def class_field_def decision_laws_def py_sorted_def
        query_slice_def query_filter_by_def Query_def)
  then show ?thesis using consul_server.get_objs [OF K l like_ok [OF d a] q] n by (auto simp: event_time_query)
qed

lemma key_extends: "str_in (decision_key en ei c ci) (py_join ''/'' [en, ei, c, ci, tm])"
  unfolding str_in_iff by (rule exI [of _ "[]"], rule exI [of _ "''/'' @ tm"]) (simp add: decision_key_def)

text \<open>Storing a decision.\<close>

lemma store_decision:
  assumes K: "consul_server K view" and m: "model_laws M" and d: "decision_laws M"
    and l: "loads M db (view s)" "all_decisions M db (view s)"
    and g: "generic_store M db (instantiate_decision (py_join ''/'' [en, ei, c, ci, tm]) act (PStr tm)) = Inr x"
    and x: "is_decision (py_join ''/'' [en, ei, c, ci, tm]) act n x"
  shows "\<exists>s' k. store_event K M db (PStr en) (PStr ei) (PStr c) (PStr ci) (PStr tm) act s = (s', Inr ())
    \<and> loads M db (view s') \<and> all_decisions M db (view s') \<and> objs_at M db (view s') = (objs_at M db (view s))(k \<mapsto> x)"
proof -
  let ?j = "py_join ''/'' [en, ei, c, ci, tm]"
  have p: "primary_key_val M x = Inr (NVal (PStr ?j))"
    using d x by (simp add: primary_key_val_def primary_key_def decision_laws_def get_field_def is_decision_def)
  obtain s' where s': "db_store K M db (instantiate_decision ?j act (PStr tm)) s = (s', Inr ())" "loads M db (view s')"
      "objs_at M db (view s') = (objs_at M db (view s))(obj_key M db (NVal (PStr ?j)) \<mapsto> x)"
    using consul_server.store_objs [OF K l(1) m g p] by blast
  have "all_decisions M db (view s')"
    using l(2) x unfolding all_decisions_def s'(3) by (auto simp: ran_def)
  with s' show ?thesis by (auto simp: store_event_def create_decision_id_def)
qed

text \<open>Claim C7. An alert that a rule answers with an action is what the monitor reports from then on: the
  alert is evaluated, its decision is stored under the entity and component derived from it, and
  the status of a resource with this key is the action, if no decision under the key is as recent.\<close>

theorem decision_latest_wins:
  assumes K: "consul_server K view" and m: "model_laws M" and d: "decision_laws M"
    and l: "loads M db (view s)" "all_decisions M db (view s)"
    and ev: "evaluate_alert rules alert = Inr act" "act \<noteq> PNone"
    and info: "err_bind (py_gets alert [''message'', ''sensor_response_type'']) (set_db_key_info conf) = Inr kinfo" "kinfo \<noteq> []"
      "err_map (py_item (PDict kinfo)) [''entity'', ''entity_id'', ''component'', ''component_id'', ''event_time'']
        = Inr [PStr en, PStr ei, PStr c, PStr ci, PStr tm]"
    and g: "generic_store M db (instantiate_decision (py_join ''/'' [en, ei, c, ci, tm]) act (PStr tm)) = Inr x"
    and x: "is_decision (py_join ''/'' [en, ei, c, ci, tm]) act n x"
    and older: "\<forall>k y i b t. objs_at M db (view s) k = Some y \<and> is_decision i b t y \<and> str_in (decision_key en ei c ci) i \<longrightarrow> t < n"
    and rk: "resource_key rf r = Inr rk" "key_args True rk = Inr [PStr en, PStr ei, PStr c, PStr ci]"
  shows "get_resource_status K M db rf r (handle_alert K M db rules conf alert s) =
    (handle_alert K M db rules conf alert s, Inr (NVal act))"
proof -
  obtain s' k where s': "store_event K M db (PStr en) (PStr ei) (PStr c) (PStr ci) (PStr tm) act s = (s', Inr ())"
      "loads M db (view s')" "all_decisions M db (view s')" "objs_at M db (view s') = (objs_at M db (view s))(k \<mapsto> x)"
    using store_decision [OF K m d l g x] by blast
  have "alert \<noteq> PNone" using info(1) by (auto simp: err_bind_Inr)
  then have h: "handle_alert K M db rules conf alert s = s'"
    using ev info s'(1) by (simp add: handle_alert_def store_action_def)
  have "\<exists>ys. get_event_time K M db (PStr en) (PStr ei) (PStr c) (PStr ci) latest_first s' = (s', Inr (x # ys))"
  proof (rule events_latest [OF K s'(2) d s'(3) _ x key_extends])
    show "objs_at M db (view s') k = Some x" using s'(4) by simp
    fix k' y i b t assume y: "objs_at M db (view s') k' = Some y" "is_decision i b t y" "str_in (decision_key en ei c ci) i"
    show "y = x \<or> t < n"
    proof (cases "k' = k")
      case False
      then show ?thesis using older y unfolding s'(4) by (metis fun_upd_other)
    qed (use y s'(4) in simp)
  qed
  then show ?thesis using rk x unfolding h by (auto simp: get_resource_status_def call_get_def get_field_def is_decision_def)
qed

lemma status_state:
  assumes "consul_server K view"
  shows "fst (get_resource_status K M db rf r s) = s"
proof -
  have g: "\<exists>v. db_get K M db q s = (s, v)" for q
    using consul_server.raw_entries [OF assms, of db s] by (auto simp: db_get_def)
  have e: "\<exists>v. get_event_time K M db a b c e sb s = (s, v)" for a b c e sb
    using g by (auto simp: get_event_time_def split: sum.splits)
  have "\<exists>v. call_get K M db rk s = (s, v)" for rk
    using e by (auto simp: call_get_def split: sum.splits list.splits)
  then have c: "fst (call_get K M db rk s) = s" for rk by (metis fst_conv)
  show ?thesis using c by (auto simp: get_resource_status_def split: sum.splits prod.splits list.splits) (metis fst_conv)+
qed

lemma group_loop_statuses:
  assumes K: "consul_server K view" and st: "\<forall>r \<in> set rs. snd (get_resource_status K M db rf r s) = Inr (st r)"
  shows "group_loop K M db rf rs acc s = (s, Inr (if NVal Action_FAILED \<in> st ` set rs then NVal Action_FAILED
    else if NVal Action_RESOLVED \<in> set acc \<union> st ` set rs then NVal Action_RESOLVED else NVal Action_OK))"
  using st
proof (induction rs arbitrary: acc)
  case (Cons r rs)
  have r: "get_resource_status K M db rf r s = (s, Inr (st r))"
    using Cons.prems status_state [OF K, of M db rf r s] by (auto simp: prod_eq_iff)
  show ?case using Cons by (auto simp: r)
qed simp

text \<open>The status of a resource group is failed if one of its resources is failed, else
  resolved if one of them is resolved, else ok; asking changes nothing in the database.\<close>

lemma resource_group_status:
  assumes "consul_server K view" "group_resources rf g = Inr rs" "\<forall>r \<in> set rs. snd (get_resource_status K M db rf r s) = Inr (st r)"
  shows "get_resource_group_status K M db rf g s = (s, Inr (if NVal Action_FAILED \<in> st ` set rs then NVal Action_FAILED
    else if NVal Action_RESOLVED \<in> st ` set rs then NVal Action_RESOLVED else NVal Action_OK))"
  using group_loop_statuses [OF assms(1,3), of "[]"] assms(2) by (simp add: get_resource_group_status_def)

text \<open>Claim C35. Acknowledging a resource that is not failed (or any resource, when forced) clears it: its status
  is ok afterwards. It removes the decisions whose id contains the key of the resource, and no
  other.\<close>

theorem acknowledge_clears:
  assumes K: "consul_server K view" and d: "decision_laws M" and l: "loads M db (view s)" "all_decisions M db (view s)"
    and rk: "resource_key rf r = Inr rk" "key_args False rk = Inr [PStr en, PStr ei, PStr c, PStr ci]"
      "key_args True rk = Inr [PStr en, PStr ei, PStr c, PStr ci]"
    and st: "force \<or> (\<exists>a. snd (get_resource_status K M db rf r s) = Inr a \<and> a \<noteq> NVal Action_FAILED)"
  shows "\<exists>s'. acknowledge_resource K M db rf r force s = (s', Inr ()) \<and> get_resource_status K M db rf r s' = (s', Inr (NVal Action_OK))
    \<and> (\<forall>k. objs_at M db (view s') k = (case objs_at M db (view s) k of None \<Rightarrow> None
        | Some x \<Rightarrow> (case x ''decision_id'' of Some (NVal (PStr i)) \<Rightarrow> if str_in (decision_key en ei c ci) i then None else Some x
          | _ \<Rightarrow> Some x)))"
proof -
  let ?f = "like_filter (decision_key en ei c ci)"
  have fo: "filter_ok M (ran (objs_at M db (view s))) ?f" by (rule like_ok [OF d l(2)])
  obtain s' where s': "db_delete K M db ?f s = (s', Inr (card (matching M db (view s) ?f)))" "loads M db (view s')"
      "objs_at M db (view s') = (\<lambda>k. if k \<in> matching M db (view s) ?f then None else objs_at M db (view s) k)"
    using consul_server.delete_objs [OF K l(1) fo] by blast
  have "fst (call_delete K M db rk s) = s'"
    using rk(2) s'(1) by (simp add: call_delete_def delete_event_def create_decision_id_def Compare_filter_def
        from_standard_representation_def like_filter_def decision_key_def)
  then have ack: "acknowledge_resource K M db rf r force s = (s', Inr ())"
    using st rk(1) status_state [OF K, of M db rf r s]
    by (auto simp: acknowledge_resource_def split: prod.splits sum.splits)
  have all: "all_decisions M db (view s')" using l(2) by (auto simp: all_decisions_def s'(3) ran_def split: if_splits)
  have none: "matching M db (view s') ?f = {}" by (auto simp: matching_def s'(3) split: if_splits)
  have "get_event_time K M db (PStr en) (PStr ei) (PStr c) (PStr ci) latest_first s' = (s', Inr [])"
    by (rule events_none [OF K s'(2) d all none])
  then have "get_resource_status K M db rf r s' = (s', Inr (NVal Action_OK))"
    using rk by (simp add: get_resource_status_def call_get_def)
  moreover have "objs_at M db (view s') k = (case objs_at M db (view s) k of None \<Rightarrow> None
        | Some x \<Rightarrow> (case x ''decision_id'' of Some (NVal (PStr i)) \<Rightarrow> if str_in (decision_key en ei c ci) i then None else Some x
          | _ \<Rightarrow> Some x))" for k
  proof (cases "objs_at M db (view s) k")
    case (Some x)
    then obtain i a n where x: "is_decision i a n x" using l(2) by (auto simp: all_decisions_def ran_def)
    then show ?thesis using Some like_sat [OF d x] by (simp add: s'(3) matching_def is_decision_def)
  qed (simp add: s'(3))
  ultimately show ?thesis using ack by blast
qed

section \<open>An example\<close>

text \<open>A class of decisions whose dates are numbers of seconds, written as their digits.\<close>

definition dec :: "string \<Rightarrow> string \<Rightarrow> nat \<Rightarrow> model_obj" where
  "dec i a n = [''decision_id'' \<mapsto> NVal (PStr i), ''action'' \<mapsto> NVal (PStr a), ''alert_time'' \<mapsto> NTime (int n)]"

definition dec_model :: model_class where
  "dec_model = \<lparr>mc_fields = [''decision_id'', ''action'', ''alert_time''], mc_is_string = (\<lambda>f. f \<noteq> ''alert_time''),
     mc_key = Some ''decision_id'', mc_native = (\<lambda>f v. Some v),
     mc_make = (\<lambda>v. case v of
         PDict d \<Rightarrow> Inr (\<lambda>f. case map_of d f of None \<Rightarrow> None
           | Some (PStr t) \<Rightarrow> Some (if f = ''alert_time'' then NTime (int (read_nat t)) else NVal (PStr t))
           | Some w \<Rightarrow> Some (NVal w))
       | _ \<Rightarrow> Inl (PyException ''DataError'')),
     mc_validate = (\<lambda>x. case (x ''decision_id'', x ''action'', x ''alert_time'') of
         (Some (NVal (PStr i)), Some (NVal (PStr a)), Some (NVal (PStr t))) \<Rightarrow> Some (dec i a (read_nat t))
       | (Some (NVal (PStr i)), Some (NVal (PStr a)), Some (NTime n)) \<Rightarrow> Some (dec i a (nat n))
       | _ \<Rightarrow> None),
     mc_primitive = (\<lambda>x. PDict [(''decision_id'', case x ''decision_id'' of Some (NVal v) \<Rightarrow> v | _ \<Rightarrow> PNone),
       (''action'', case x ''action'' of Some (NVal v) \<Rightarrow> v | _ \<Rightarrow> PNone),
       (''alert_time'', case x ''alert_time'' of Some (NTime n) \<Rightarrow> PStr (show_nat (nat n)) | _ \<Rightarrow> PNone)]),
     mc_time_str = show_int\<rparr>"

definition dec_db :: consul_db where
  "dec_db = \<lparr>cd_collection = ''decisions'', cd_scheme = PDict [(''decision_id'', PNone), (''action'', PNone), (''alert_time'', PNone)]\<rparr>"

lemma dec_decision: "is_decision i (PStr a) (int n) (dec i a n)"
  by (simp add: is_decision_def dec_def)

lemma dec_primitive: "mc_primitive dec_model (dec i a n) = PDict [(''decision_id'', PStr i), (''action'', PStr a), (''alert_time'', PStr (show_nat n))]"
  by (simp add: dec_model_def dec_def)

lemma dec_make: "mc_make dec_model (PDict [(''decision_id'', PStr i), (''action'', PStr a), (''alert_time'', PStr (show_nat n))]) = Inr (dec i a n)"
  by (auto simp: dec_model_def dec_def)

lemma dec_validate: "mc_validate dec_model x = Some y \<Longrightarrow> \<exists>i a n. y = dec i a n"
  by (auto simp: dec_model_def split: option.splits native.splits pyval.splits)

lemma dec_laws: "model_laws dec_model" "decision_laws dec_model"
  subgoal unfolding model_laws_def using dec_validate dec_primitive dec_make by fastforce
  subgoal by (simp add: decision_laws_def dec_model_def)
  done

lemma dec_load: "load_obj dec_model (k, Some (json_dumps (mc_primitive dec_model (dec i a n)))) = Inr (dec i a n)"
  by (simp add: load_obj_def dec_primitive json_load_dumps dec_make del: json_dumps.simps)

lemma dec_store: "generic_store dec_model dec_db (instantiate_decision i (PStr a) (PStr t)) = Inr (dec i a (read_nat t))"
  by (simp add: generic_store_def instantiate_decision_def dec_model_def scheme_keys_def dec_db_def)

text \<open>A fan that fails, the rule for it and the monitor's key of it.\<close>

definition fan_alert :: pyval where
  "fan_alert = PDict [(''message'', PDict [(''sensor_response_type'', PDict [(''alert_type'', PStr ''fault''), (''severity'', PStr ''critical''),
     (''info'', PDict [(''resource_type'', PStr ''enclosure:fru:fan''), (''resource_id'', PStr ''3''), (''node_id'', PStr ''n1''),
       (''event_time'', PStr ''50'')])])])]"

definition fan_rules :: pyval where
  "fan_rules = PDict [(''enclosure:fru:fan'', PList [PDict [(''alert_type'', PStr ''fault''), (''severity'', PStr ''critical''), (''action'', PStr ''failed'')]])]"

definition fan_file :: pyval where
  "fan_file = PDict [(''resources'', PDict [(''fan3'', PDict [(''entity'', PStr ''enclosure''), (''entity_id'', PStr ''0''),
     (''component'', PStr ''fan''), (''component_id'', PStr ''3'')])]), (''resource_groups'', PDict [(''fans'', PList [PStr ''fan3''])])]"

lemma fan_key:
  "\<exists>rk. resource_key fan_file (PStr ''fan3'') = Inr rk \<and> key_args True rk = Inr [PStr ''enclosure'', PStr ''0'', PStr ''fan'', PStr ''3'']
    \<and> key_args False rk = Inr [PStr ''enclosure'', PStr ''0'', PStr ''fan'', PStr ''3'']"
  by (simp add: resource_key_def fan_file_def key_args_def)

theorem decision_latest_wins_witness:
  "snd (get_resource_status list_server dec_model dec_db fan_file (PStr ''fan3'')
     (handle_alert list_server dec_model dec_db fan_rules PNone fan_alert [])) = Inr (NVal (PStr ''failed''))"
proof -
  obtain rk where rk: "resource_key fan_file (PStr ''fan3'') = Inr rk"
      "key_args True rk = Inr [PStr ''enclosure'', PStr ''0'', PStr ''fan'', PStr ''3'']" using fan_key by blast
  have ev: "evaluate_alert fan_rules fan_alert = Inr (PStr ''failed'')" by code_simp
  have inf1: "err_bind (py_gets fan_alert [''message'', ''sensor_response_type'']) (set_db_key_info PNone) =
      Inr [(''event_time'', PStr ''50''), (''entity'', PStr ''enclosure''), (''entity_id'', PStr ''0''), (''component'', PStr ''fan''),
        (''component_id'', PStr ''3'')]" by code_simp
  have s0: "loads dec_model dec_db (map_of [])" "all_decisions dec_model dec_db (map_of [])"
    "\<forall>k y i b t. objs_at dec_model dec_db (map_of []) k = Some y \<and> is_decision i b t y \<and>
      str_in (decision_key ''enclosure'' ''0'' ''fan'' ''3'') i \<longrightarrow> t < int (read_nat ''50'')"
    by (auto simp: loads_def all_decisions_def objs_at_def ran_def split: if_splits)
  show ?thesis
    using decision_latest_wins [OF ls.consul_server_axioms dec_laws s0(1,2) ev _ inf1 _ _ dec_store dec_decision s0(3) rk] by simp
qed

theorem resource_group_status_witness:
  "get_resource_group_status list_server dec_model dec_db fan_file ''fans'' [] = ([], Inr (NVal Action_OK))"
proof -
  have "group_resources fan_file ''fans'' = Inr [PStr ''fan3'']" by (simp add: group_resources_def fan_file_def)
  moreover have "snd (get_resource_status list_server dec_model dec_db fan_file (PStr ''fan3'') []) = Inr (NVal Action_OK)" by code_simp
  ultimately show ?thesis
    using resource_group_status [OF ls.consul_server_axioms, of fan_file "''fans''" "[PStr ''fan3'']" dec_model dec_db "[]" "\<lambda>_. NVal Action_OK"]
    by (simp add: Action_OK_def Action_FAILED_def Action_RESOLVED_def)
qed

definition fan_state :: "(string \<times> string option) list" where
  "fan_state = [(coll_prefix dec_db @ ''enclosure/0/fan/3/50'', Some (json_dumps (mc_primitive dec_model (dec ''enclosure/0/fan/3/50'' ''failed'' 50))))]"

lemma fan_objs: "objs_at dec_model dec_db (map_of fan_state) = [coll_prefix dec_db @ ''enclosure/0/fan/3/50'' \<mapsto> dec ''enclosure/0/fan/3/50'' ''failed'' 50]"
  by (rule ext) (simp add: objs_at_def fan_state_def dec_load)

theorem acknowledge_clears_witness:
  "\<exists>s'. acknowledge_resource list_server dec_model dec_db fan_file (PStr ''fan3'') True fan_state = (s', Inr ())
    \<and> objs_at dec_model dec_db (map_of s') = Map.empty"
proof -
  obtain rk where rk: "resource_key fan_file (PStr ''fan3'') = Inr rk"
      "key_args False rk = Inr [PStr ''enclosure'', PStr ''0'', PStr ''fan'', PStr ''3'']"
      "key_args True rk = Inr [PStr ''enclosure'', PStr ''0'', PStr ''fan'', PStr ''3'']" using fan_key by blast
  have l: "loads dec_model dec_db (map_of fan_state)" using dec_load by (auto simp: loads_def fan_state_def split: if_splits)
  have a: "all_decisions dec_model dec_db (map_of fan_state)" 
    using dec_decision [of "''enclosure/0/fan/3/50''" "''failed''" 50] by (auto simp: all_decisions_def fan_objs ran_def)
  have i: "str_in (decision_key ''enclosure'' ''0'' ''fan'' ''3'') ''enclosure/0/fan/3/50''" by code_simp
  show ?thesis
    using acknowledge_clears [OF ls.consul_server_axioms dec_laws(2) l a rk, of True] i
    by (auto simp: fan_objs dec_def fun_eq_iff)
qed

end
