(* ===== verification/ConsulStore.thy ===== *)
theory ConsulStore
  imports ConsulDb Payload
begin

text \<open>
  The decorator ExponentialBackoff of src/py-utils/src/utils/common/common.py, and the payload of a
  Consul store, ConsulKvPayload with ConsulKVStore, of
  src/py-utils/src/utils/kv_store/kv_store_collection.py. Time passes through the parameter
  \<open>sleep\<close>, which maps a number of seconds to a change of the world.
\<close>

section \<open>ExponentialBackoff\<close>

text \<open>The loop of \<open>wrap\<close>: \<open>retried\<close> are the exceptions that lead to another attempt. Sleeping a
  negative time is a ValueError.\<close>

function backoff :: "(pyexc \<Rightarrow> bool) \<Rightarrow> int \<Rightarrow> int \<Rightarrow> (int \<Rightarrow> 's \<Rightarrow> 's) \<Rightarrow> ('s \<Rightarrow> 's \<times> (pyexc + 'a)) \<Rightarrow> int \<Rightarrow> int \<Rightarrow>
    's \<Rightarrow> 's \<times> (pyexc + 'a)" where
  "backoff retried cap mult sleep f max_tries max_delay s = (if max_tries > 1
     then (case f s of
         (s1, Inr a) \<Rightarrow> (s1, Inr a)
       | (s1, Inl e) \<Rightarrow> if \<not> retried e then (s1, Inl e)
           else if min cap max_delay < 0 then (s1, Inl ValueError)
           else backoff retried cap mult sleep f (max_tries - 1) (max_delay * mult) (sleep (min cap max_delay) s1))
     else f s)"
  by pat_completeness auto
termination
  by (relation "measure (\<lambda>(_, _, _, _, _, n, _, _). nat n)") auto

declare backoff.simps [simp del]

lemma backoff_ok: "f s = (s', Inr a) \<Longrightarrow> backoff retried cap mult sleep f n d s = (s', Inr a)"
  by (subst backoff.simps) simp

text \<open>The state before attempt \<open>i\<close>, counted from 0: after each failure the code sleeps.\<close>

fun attempt :: "int \<Rightarrow> int \<Rightarrow> (int \<Rightarrow> 's \<Rightarrow> 's) \<Rightarrow> ('s \<Rightarrow> 's \<times> (pyexc + 'a)) \<Rightarrow> int \<Rightarrow> 's \<Rightarrow> nat \<Rightarrow> 's" where
  "attempt cap mult sleep f d s 0 = s"
| "attempt cap mult sleep f d s (Suc i) = sleep (min cap (d * mult ^ i)) (fst (f (attempt cap mult sleep f d s i)))"

definition is_retried :: "(pyexc \<Rightarrow> bool) \<Rightarrow> pyexc + 'a \<Rightarrow> bool" where
  "is_retried retried r = (case r of Inl e \<Rightarrow> retried e | Inr _ \<Rightarrow> False)"

lemma attempt_shift: "attempt cap mult sleep f d s (Suc i) = attempt cap mult sleep f (d * mult) (sleep (min cap d) (fst (f s))) i"
  by (induction i) (simp_all add: mult.assoc)

lemma backoff_attempts:
  assumes "0 \<le> cap" "0 \<le> mult" "0 \<le> d" "int n < tries" "\<forall>i < n. is_retried retried (snd (f (attempt cap mult sleep f d s i)))"
    and "int n = tries - 1 \<or> \<not> is_retried retried (snd (f (attempt cap mult sleep f d s n)))"
  shows "backoff retried cap mult sleep f tries d s = f (attempt cap mult sleep f d s n)"
  using assms
proof (induction n arbitrary: tries d s)
  case 0
  show ?case
  proof (cases "tries = 1")
    case False
    then have "tries > 1" "\<not> is_retried retried (snd (f s))" using 0 by auto
    then show ?thesis by (subst backoff.simps) (auto simp: is_retried_def split: prod.splits sum.splits)
  qed (simp add: backoff.simps)
next
  case (Suc n)
  obtain s1 e where fs: "f s = (s1, Inl e)" "retried e"
    using Suc.prems(5) [rule_format, of 0] by (cases "f s"; cases "snd (f s)") (auto simp: is_retried_def)
  let ?s2 = "sleep (min cap d) s1"
  have sh: "attempt cap mult sleep f d s (Suc i) = attempt cap mult sleep f (d * mult) ?s2 i" for i
    unfolding attempt_shift by (simp add: fs)
  have "backoff retried cap mult sleep f tries d s = backoff retried cap mult sleep f (tries - 1) (d * mult) ?s2"
    using fs Suc.prems by (subst backoff.simps) (simp add: min_def)
  also have "\<dots> = f (attempt cap mult sleep f (d * mult) ?s2 n)"
  proof (rule Suc.IH)
    show "\<forall>i < n. is_retried retried (snd (f (attempt cap mult sleep f (d * mult) ?s2 i)))"
      using Suc.prems(5) sh by (metis Suc_mono)
    show "int n = tries - 1 - 1 \<or> \<not> is_retried retried (snd (f (attempt cap mult sleep f (d * mult) ?s2 n)))"
      using Suc.prems(6) sh by auto
  qed (use Suc.prems in auto)
  finally show ?case by (simp only: sh)
qed

lemma attempt_clock:
  assumes "0 \<le> cap" "0 \<le> mult" "0 \<le> d" "\<forall>t s. 0 \<le> t \<longrightarrow> clock (sleep t s) = clock s + t" "\<forall>s. clock (fst (f s)) = clock s"
  shows "clock (attempt cap mult sleep f d s n) = clock s + (\<Sum>i < n. min cap (d * mult ^ i))"
  using assms by (induction n) (simp_all add: min_def)

text \<open>Claim C23. A decorated call returns what its first attempt returns that does not raise one of the listed
  exceptions, if there is one within the number of tries, and else what the last try returns or
  raises. The time it sleeps before attempt \<open>n\<close> is the sum of the capped delays, at most
  \<open>n\<close> times the cap.\<close>

theorem backoff_first_success:
  assumes "0 \<le> cap" "0 \<le> mult" "0 \<le> d" "int n < tries"
    and "\<forall>i < n. is_retried retried (snd (f (attempt cap mult sleep f d s i)))"
    and "int n = tries - 1 \<or> \<not> is_retried retried (snd (f (attempt cap mult sleep f d s n)))"
    and "\<forall>t s. 0 \<le> t \<longrightarrow> clock (sleep t s) = clock s + t" "\<forall>s. clock (fst (f s)) = clock s"
  shows "backoff retried cap mult sleep f tries d s = f (attempt cap mult sleep f d s n)
    \<and> clock (fst (backoff retried cap mult sleep f tries d s)) - clock s = (\<Sum>i < n. min cap (d * mult ^ i))
    \<and> (\<Sum>i < n. min cap (d * mult ^ i)) \<le> int n * cap"
proof (intro conjI)
  show b: "backoff retried cap mult sleep f tries d s = f (attempt cap mult sleep f d s n)"
    by (rule backoff_attempts [OF assms(1-6)])
  show "clock (fst (backoff retried cap mult sleep f tries d s)) - clock s = (\<Sum>i < n. min cap (d * mult ^ i))"
    using attempt_clock [OF assms(1-3,7,8)] assms(8) by (simp add: b)
  have "(\<Sum>i < n. min cap (d * mult ^ i)) \<le> (\<Sum>i < n. cap)" by (rule sum_mono) simp
  then show "(\<Sum>i < n. min cap (d * mult ^ i)) \<le> int n * cap" by simp
qed

text \<open>A server that refuses the first two calls; the world is the number of calls with the
  seconds slept.\<close>

definition flaky_call :: "nat \<times> int \<Rightarrow> (nat \<times> int) \<times> (pyexc + string)" where
  "flaky_call w = ((Suc (fst w), snd w), if fst w < 2 then Inl (PyException ''ConsulException'') else Inr ''up'')"

theorem backoff_first_success_witness:
  "backoff (\<lambda>e. e = PyException ''ConsulException'') 120 2 (\<lambda>t w. (fst w, snd w + t)) flaky_call 4 1 (0, 0) = ((3, 3), Inr ''up'')"
proof -
  let ?sl = "\<lambda>t w. (fst w :: nat, snd w + t :: int)"
  have a: "attempt 120 2 ?sl flaky_call 1 (0, 0) 0 = (0, 0)" "attempt 120 2 ?sl flaky_call 1 (0, 0) 1 = (1, 1)"
    "attempt 120 2 ?sl flaky_call 1 (0, 0) 2 = (2, 3)"
    by (simp_all add: flaky_call_def numeral_2_eq_2)
  have "backoff (\<lambda>e. e = PyException ''ConsulException'') 120 2 ?sl flaky_call 4 1 (0, 0) =
      flaky_call (attempt 120 2 ?sl flaky_call 1 (0, 0) 2)"
    by (rule conjunct1 [OF backoff_first_success [where clock = snd]])
      (use a in \<open>auto simp: is_retried_def flaky_call_def less_2_cases_iff\<close>)
  then show ?thesis by (simp add: a flaky_call_def)
qed

section \<open>ConsulKvPayload\<close>

record 's consul_payload =
  cp_delim :: string
  cp_path :: string
  cp_keys :: "string list"
  cp_world :: 's

definition consul_retried :: "pyexc \<Rightarrow> bool" where
  "consul_retried e \<longleftrightarrow> e \<in> {PyException ''ConsulException'', PyException ''HTTPError'', PyException ''RequestException''}"

text \<open>The decorator of every method: four tries, one second at first, twice as long each time, at
  most 120.\<close>

definition retry :: "(int \<Rightarrow> 's \<Rightarrow> 's) \<Rightarrow> ('s \<Rightarrow> 's \<times> (pyexc + 'a)) \<Rightarrow> 's \<Rightarrow> 's \<times> (pyexc + 'a)" where
  "retry sleep f s = backoff consul_retried 120 2 sleep f 4 1 s"

definition ck_get :: "'s consul_kv \<Rightarrow> (int \<Rightarrow> 's \<Rightarrow> 's) \<Rightarrow> string \<Rightarrow> string \<Rightarrow> 's \<Rightarrow> 's \<times> (pyexc + pyval)" where
  "ck_get K sleep path key = retry sleep (\<lambda>s. st_bind (kv_get K (path @ key) s) (\<lambda>s1 data.
     (s1, Inr (case data of None \<Rightarrow> PNone | Some None \<Rightarrow> PStr [] | Some (Some v) \<Rightarrow> PStr v))))"

definition ck_set :: "'s consul_kv \<Rightarrow> (int \<Rightarrow> 's \<Rightarrow> 's) \<Rightarrow> string \<Rightarrow> string \<Rightarrow> pyval \<Rightarrow> 's \<Rightarrow> 's \<times> (pyexc + bool)" where
  "ck_set K sleep path key val = retry sleep (kv_put K (path @ key) (py_str val))"

definition ck_delete :: "'s consul_kv \<Rightarrow> (int \<Rightarrow> 's \<Rightarrow> 's) \<Rightarrow> string \<Rightarrow> string \<Rightarrow> bool \<Rightarrow> 's \<Rightarrow> 's \<times> (pyexc + bool)" where
  "ck_delete K sleep path key force = retry sleep (kv_delete K (path @ key) force)"

text \<open>\<open>get_data\<close> reads the whole store, whatever the path.\<close>

definition ck_get_data :: "'s consul_kv \<Rightarrow> (int \<Rightarrow> 's \<Rightarrow> 's) \<Rightarrow> 's \<Rightarrow> 's \<times> (pyexc + pydict)" where
  "ck_get_data K sleep = retry sleep (\<lambda>s. st_bind (kv_recurse K [] s) (\<lambda>s1 kvs. (s1, case kvs of
      None \<Rightarrow> Inl TypeError
    | Some es \<Rightarrow> Inr (fold (\<lambda>(k, v) d. AList.update k (PStr (case v of None \<Rightarrow> [] | Some t \<Rightarrow> t)) d) es []))))"

text \<open>\<open>each_key.split(self._store_path)[1]\<close>.\<close>

definition strip_path :: "string \<Rightarrow> string \<Rightarrow> pyexc + string" where
  "strip_path path k = (let parts = split_str path k in if length parts < 2 then Inl IndexError else Inr (parts ! 1))"

definition ck_get_keys :: "'s consul_kv \<Rightarrow> (int \<Rightarrow> 's \<Rightarrow> 's) \<Rightarrow> string \<Rightarrow> string \<Rightarrow> 's \<Rightarrow> 's \<times> (pyexc + string list)" where
  "ck_get_keys K sleep path prefix = retry sleep (\<lambda>s. st_bind (kv_keys K (path @ prefix) s) (\<lambda>s1 key_list. (s1, case key_list of
      None \<Rightarrow> Inr []
    | Some ks \<Rightarrow> if path \<noteq> [] then err_map (strip_path path) ks else Inr ks)))"

definition ck_search_key :: "'s consul_kv \<Rightarrow> (int \<Rightarrow> 's \<Rightarrow> 's) \<Rightarrow> string \<Rightarrow> string \<Rightarrow> string \<Rightarrow> string \<Rightarrow> pyval \<Rightarrow> 's \<Rightarrow> string \<Rightarrow>
    's \<times> (pyexc + string list)" where
  "ck_search_key K sleep path delim parent_key search_key search_val s key = (case delim of
      [] \<Rightarrow> (s, Inl ValueError)
    | c # _ \<Rightarrow> if last (py_split c key) \<noteq> search_key then (s, Inr [])
        else if \<not> py_truth search_val then (s, Inr [key])
        else st_bind (if parent_key \<noteq> [] then ck_get K sleep path key s else (s, Inr (PStr []))) (\<lambda>s1 value.
          (s1, Inr (if py_eq value search_val then [key] else []))))"

definition ck_search :: "'s consul_kv \<Rightarrow> (int \<Rightarrow> 's \<Rightarrow> 's) \<Rightarrow> string \<Rightarrow> string \<Rightarrow> string \<Rightarrow> string \<Rightarrow> pyval \<Rightarrow> 's \<Rightarrow> 's \<times> (pyexc + string list)" where
  "ck_search K sleep path delim parent_key search_key search_val = retry sleep (\<lambda>s.
     st_bind (ck_get_keys K sleep path parent_key s) (\<lambda>s1 keys.
     st_bind (map_each (ck_search_key K sleep path delim parent_key search_key search_val) s1 keys) (\<lambda>s2 ks. (s2, Inr (concat ks)))))"

section \<open>The methods of the object\<close>

text \<open>\<open>set\<close> and \<open>delete\<close> are those of KvPayload, over the \<open>_set\<close> and \<open>_delete\<close> of this class.\<close>

definition consul_set :: "'s consul_kv \<Rightarrow> (int \<Rightarrow> 's \<Rightarrow> 's) \<Rightarrow> 's consul_payload \<Rightarrow> string \<Rightarrow> pyval \<Rightarrow> 's consul_payload \<times> (pyexc + unit)" where
  "consul_set K sleep p key val = (case ck_set K sleep (cp_path p) key val (cp_world p) of
      (s, Inl e) \<Rightarrow> (p\<lparr>cp_world := s\<rparr>, Inl e)
    | (s, Inr _) \<Rightarrow> (p\<lparr>cp_world := s, cp_keys := add_key key (cp_keys p)\<rparr>, Inr ()))"

definition consul_delete :: "'s consul_kv \<Rightarrow> (int \<Rightarrow> 's \<Rightarrow> 's) \<Rightarrow> 's consul_payload \<Rightarrow> string \<Rightarrow> bool \<Rightarrow> 's consul_payload \<times> (pyexc + bool)" where
  "consul_delete K sleep p key force = (case ck_delete K sleep (cp_path p) key force (cp_world p) of
      (s, Inl e) \<Rightarrow> (p\<lparr>cp_world := s\<rparr>, Inl e)
    | (s, Inr b) \<Rightarrow> (p\<lparr>cp_world := s, cp_keys := (if b then remove1 key (cp_keys p) else cp_keys p)\<rparr>, Inr b))"

text \<open>The keys with an index go to a dict payload, which counts them; the keys it adds are set, in
  no particular order.\<close>

fun set_indexed :: "kv_payload \<Rightarrow> string list \<Rightarrow> pyexc + kv_payload" where
  "set_indexed kp [] = Inr kp"
| "set_indexed kp (k # ks) = (if length (key_index_split k) > 1
     then (case kp_set kp k (PStr ''_'') of (kp', None) \<Rightarrow> set_indexed kp' ks | (_, Some e) \<Rightarrow> Inl e)
     else set_indexed kp ks)"

definition num_keys_of :: "string list \<Rightarrow> pyexc + (string \<times> pyval) list" where
  "num_keys_of keys = err_bind (set_indexed \<lparr>kp_data = PDict [], kp_delim = ''>'', kp_keys = []\<rparr> keys) (\<lambda>kp.
     err_bind (kp_get_keys kp [] True True) (\<lambda>without. let kp1 = kp_add_num_keys kp in
     err_bind (kp_get_keys kp1 [] True True) (\<lambda>with_nums.
     err_map (\<lambda>k. err_bind (kp_get kp1 k True) (\<lambda>v. Inr (k, v))) (map the (filter (\<lambda>k. k \<notin> set without) (remdups with_nums))))))"

definition consul_add_num_keys :: "'s consul_kv \<Rightarrow> (int \<Rightarrow> 's \<Rightarrow> 's) \<Rightarrow> 's consul_payload \<Rightarrow> 's consul_payload \<times> (pyexc + unit)" where
  "consul_add_num_keys K sleep = retry (\<lambda>t p. p\<lparr>cp_world := sleep t (cp_world p)\<rparr>) (\<lambda>p.
     case ck_get_keys K sleep (cp_path p) [] (cp_world p) of
       (s, Inl e) \<Rightarrow> (p\<lparr>cp_world := s\<rparr>, Inl e)
     | (s, Inr keys) \<Rightarrow> (case num_keys_of keys of
           Inl e \<Rightarrow> (p\<lparr>cp_world := s\<rparr>, Inl e)
         | Inr kvs \<Rightarrow> for_each (\<lambda>p (k, v). consul_set K sleep p k v) (p\<lparr>cp_world := s\<rparr>) kvs))"

definition with_world :: "'s consul_payload \<Rightarrow> 's \<times> 'a \<Rightarrow> 's consul_payload \<times> 'a" where
  "with_world p r = (p\<lparr>cp_world := fst r\<rparr>, snd r)"

definition consul_class :: "'s consul_kv \<Rightarrow> (int \<Rightarrow> 's \<Rightarrow> 's) \<Rightarrow> 's consul_payload payload_class" where
  "consul_class K sleep = \<lparr>
     pl_get = (\<lambda>p k. with_world p (ck_get K sleep (cp_path p) k (cp_world p))),
     pl_set = (\<lambda>p k v. case consul_set K sleep p k v of (p', Inl e) \<Rightarrow> (p', Some e) | (p', Inr _) \<Rightarrow> (p', None)),
     pl_delete = consul_delete K sleep,
     pl_keys = (\<lambda>p b. with_world p (ck_get_keys K sleep (cp_path p) [] (cp_world p))),
     pl_search = (\<lambda>p parent skey sval. with_world p (ck_search K sleep (cp_path p) (cp_delim p) parent skey sval (cp_world p))),
     pl_add_num_keys = (\<lambda>p. case consul_add_num_keys K sleep p of (p', Inl e) \<Rightarrow> (p', Some e) | (p', Inr _) \<Rightarrow> (p', None))\<rparr>"

text \<open>The constructor and ConsulKVStore.\<close>

definition consul_path :: "string \<Rightarrow> string" where
  "consul_path store_path = (if store_path = [] then []
     else let sp = (if hd store_path = CHR ''/'' then tl store_path else store_path) in
       if sp \<noteq> [] \<and> last sp = CHR ''/'' then sp else sp @ ''/'')"

definition ConsulKvPayload :: "'s consul_kv \<Rightarrow> (int \<Rightarrow> 's \<Rightarrow> 's) \<Rightarrow> string \<Rightarrow> string \<Rightarrow> 's \<Rightarrow> 's \<times> (pyexc + 's consul_payload)" where
  "ConsulKvPayload K sleep store_path delim s = (if length delim > 1 then (s, Inl (KvError EINVAL))
     else st_bind (ck_get_keys K sleep (consul_path store_path) [] s) (\<lambda>s1 ks.
       (s1, Inr \<lparr>cp_delim = delim, cp_path = consul_path store_path, cp_keys = ks, cp_world = s1\<rparr>)))"

definition store_host :: "string \<Rightarrow> pyexc + string \<times> string" where
  "store_host store_loc = (let loc = (if store_loc = [] then ''127.0.0.1:8500'' else if CHR '':'' \<in> set store_loc then store_loc else store_loc @ '':8500'') in
     case py_split (CHR '':'') loc of [host, port] \<Rightarrow> Inr (host, port) | _ \<Rightarrow> Inl ValueError)"

text \<open>\<open>Consul(host, port)\<close> is the parameter \<open>connect\<close>.\<close>

definition ConsulKVStore :: "(string \<Rightarrow> string \<Rightarrow> pyexc + 's consul_kv) \<Rightarrow> (int \<Rightarrow> 's \<Rightarrow> 's) \<Rightarrow> string \<Rightarrow> string \<Rightarrow> string \<Rightarrow> 's \<Rightarrow>
    's \<times> (pyexc + 's consul_payload)" where
  "ConsulKVStore connect sleep store_loc store_path delim s = (case store_host store_loc of
      Inl e \<Rightarrow> (s, Inl e)
    | Inr (host, port) \<Rightarrow> (case connect host port of
          Inl e \<Rightarrow> (s, Inl (KvError 111))
        | Inr K \<Rightarrow> (case ConsulKvPayload K sleep store_path delim s of
              (s1, Inl e) \<Rightarrow> (s1, Inl (KvError 111))
            | (s1, Inr p) \<Rightarrow> (s1, Inr p))))"

section \<open>A Consul payload keeps the laws of payloads\<close>

lemma retry_ok: "f s = (s', Inr a) \<Longrightarrow> retry sleep f s = (s', Inr a)"
  by (simp add: retry_def backoff_ok)

definition ck_indep :: "string \<Rightarrow> string \<Rightarrow> bool" where
  "ck_indep k k' \<longleftrightarrow> \<not> starts_with k' k"

definition ck_value :: "string option option \<Rightarrow> pyval" where
  "ck_value d = (case d of None \<Rightarrow> PNone | Some None \<Rightarrow> PStr [] | Some (Some v) \<Rightarrow> PStr v)"

lemma starts_same_prefix [simp]: "starts_with (p @ k') (p @ k) \<longleftrightarrow> starts_with k' k"
  by (simp add: starts_with_def)

locale consul_client = consul_server K view
  for K :: "'s consul_kv" and view :: "'s \<Rightarrow> string \<Rightarrow> string option option" +
  fixes sleep :: "int \<Rightarrow> 's \<Rightarrow> 's"
begin

lemma get_view: "ck_get K sleep path k s = (s, Inr (ck_value (view s (path @ k))))"
  unfolding ck_get_def by (rule retry_ok) (simp add: get_law ck_value_def)

lemma set_view: "\<exists>s'. ck_set K sleep path k v s = (s', Inr True) \<and> view s' = (view s)(path @ k \<mapsto> Some (py_str v))"
proof -
  obtain s' where "kv_put K (path @ k) (py_str v) s = (s', Inr True)" "view s' = (view s)(path @ k \<mapsto> Some (py_str v))"
    using put_law by blast
  then show ?thesis unfolding ck_set_def using retry_ok by fastforce
qed

lemma delete_view: "\<exists>s'. ck_delete K sleep path k f s = (s', Inr True) \<and> view s' (path @ k) = None
    \<and> (\<forall>k'. ck_indep k k' \<longrightarrow> view s' (path @ k') = view s (path @ k'))"
proof -
  have "\<exists>s'. kv_delete K (path @ k) f s = (s', Inr True) \<and>
      view s' = (if f then (\<lambda>k'. if starts_with k' (path @ k) then None else view s k') else (view s)(path @ k := None))"
    using delete_law delete_tree_law by (cases f) auto
  then obtain s' where s': "kv_delete K (path @ k) f s = (s', Inr True)"
      "view s' = (if f then (\<lambda>k'. if starts_with k' (path @ k) then None else view s k') else (view s)(path @ k := None))" by blast
  have "starts_with k k" by (simp add: starts_with_def)
  then have "view s' (path @ k) = None" "\<forall>k'. ck_indep k k' \<longrightarrow> view s' (path @ k') = view s (path @ k')"
    using s'(2) by (auto simp: ck_indep_def split: if_splits)
  then show ?thesis unfolding ck_delete_def using retry_ok [of "kv_delete K (path @ k) f", OF s'(1)] by blast
qed

lemma class_get: "pl_get (consul_class K sleep) p k = (p, Inr (ck_value (view (cp_world p) (cp_path p @ k))))"
  by (simp add: consul_class_def with_world_def get_view)

lemma class_set: "\<exists>s'. pl_set (consul_class K sleep) p k v = (p\<lparr>cp_world := s', cp_keys := add_key k (cp_keys p)\<rparr>, None)
    \<and> view s' = (view (cp_world p))(cp_path p @ k \<mapsto> Some (py_str v))"
  using set_view [of "cp_path p" k v "cp_world p"] by (auto simp: consul_class_def consul_set_def)

lemma class_delete: "\<exists>s'. pl_delete (consul_class K sleep) p k f = (p\<lparr>cp_world := s', cp_keys := remove1 k (cp_keys p)\<rparr>, Inr True)
    \<and> view s' (cp_path p @ k) = None \<and> (\<forall>k'. ck_indep k k' \<longrightarrow> view s' (cp_path p @ k') = view (cp_world p) (cp_path p @ k'))"
  using delete_view [of "cp_path p" k f "cp_world p"] by (auto simp: consul_class_def consul_delete_def)

end

sublocale consul_client \<subseteq> cl: payload_laws "consul_class K sleep" "\<lambda>p. True" "\<lambda>k. True" "\<lambda>v. \<exists>s. v = PStr s" ck_indep
proof
  fix p p' k k' v f b
  show "snd (pl_get (consul_class K sleep) (fst (pl_get (consul_class K sleep) p k)) k') = snd (pl_get (consul_class K sleep) p k')"
    by (simp add: class_get)
  { assume v: "\<exists>s. v = PStr s" and "pl_set (consul_class K sleep) p k v = (p', None)"
    then show "snd (pl_get (consul_class K sleep) p' k) = Inr v"
      using class_set [of p k v] by (auto simp: class_get ck_value_def) }
  { assume "ck_indep k k'"
    then have "k' \<noteq> k" by (auto simp: ck_indep_def starts_with_def)
    then show "snd (pl_get (consul_class K sleep) (fst (pl_set (consul_class K sleep) p k v)) k') = snd (pl_get (consul_class K sleep) p k')"
      using class_set [of p k v] by (auto simp: class_get) }
  { assume "pl_delete (consul_class K sleep) p k f = (p', Inr b)"
    then show "snd (pl_get (consul_class K sleep) p' k) = Inr PNone"
      using class_delete [of p k f] by (auto simp: class_get ck_value_def) }
  { assume "ck_indep k k'"
    then show "snd (pl_get (consul_class K sleep) (fst (pl_delete (consul_class K sleep) p k f)) k') = snd (pl_get (consul_class K sleep) p k')"
      using class_delete [of p k f] by (auto simp: class_get) }
qed simp_all

text \<open>The laws hold for the client of a server that keeps its entries in a list.\<close>

interpretation lc: consul_client list_server map_of sleep for sleep
  by unfold_locales

lemma consul_set_set:
  assumes "\<not> starts_with k k'" "consul_set list_server sleep p k (PStr v) = (p1, Inr ())"
    "consul_set list_server sleep p1 k' (PStr v') = (p2, Inr ())"
  shows "snd (ck_get list_server sleep (cp_path p2) k (cp_world p2)) = Inr (PStr v)"
    "snd (ck_get list_server sleep (cp_path p2) k' (cp_world p2)) = Inr (PStr v')"
proof -
  have "pl_set (consul_class list_server sleep) p k (PStr v) = (p1, None)" "pl_set (consul_class list_server sleep) p1 k' (PStr v') = (p2, None)"
    using assms(2,3) by (simp_all add: consul_class_def)
  then show "snd (ck_get list_server sleep (cp_path p2) k (cp_world p2)) = Inr (PStr v)"
    "snd (ck_get list_server sleep (cp_path p2) k' (cp_world p2)) = Inr (PStr v')"
    using lc.cl.set_set [where p = p and k = k and k' = k' and v = "PStr v" and v' = "PStr v'" and ?p1.0 = p1 and ?p2.0 = p2] assms(1)
    by (auto simp: ck_indep_def consul_class_def with_world_def)
qed

end
