(* ===== verification/ActivityTracker.thy ===== *)
theory ActivityTracker
  imports DocStores DataAccess Effects JsonDumps KvFactory
begin

text \<open>
  The activity tracker: ActivityEntry and Activity of
  src/py-utils/src/utils/activity_tracker/activity_store.py and the calls that ActivityCli
  (activity_cli.py) makes. The store is any class of KvStore with its payload class; the
  current time and the new identifier are arguments.
\<close>

section \<open>ActivityEntry\<close>

record activity_entry =
  ae_id :: pyval
  ae_payload :: kv_payload

definition new_payload :: kv_payload where
  "new_payload = \<lparr>kp_data = PDict [], kp_delim = ''>'', kp_keys = []\<rparr>"

definition start_fields :: "pyval \<Rightarrow> pyval \<Rightarrow> pyval \<Rightarrow> string \<Rightarrow> int \<Rightarrow> pydict" where
  "start_fields name resource_path description uid now =
     [(''id'', PStr uid), (''name'', name), (''resource_path'', resource_path), (''description'', description),
      (''pct_progress'', PInt 0), (''status'', PStr ''NEW''), (''status_description'', PStr ''An activity has been created''),
      (''created_time'', PInt now)]"

text \<open>The assignments \<open>self._payload[key] = value\<close> of the methods, in their order.\<close>

definition put_fields :: "activity_entry \<Rightarrow> pydict \<Rightarrow> activity_entry \<times> (pyexc + unit)" where
  "put_fields e kvs = (case set_all kv_class (ae_payload e) kvs of
      (p, None) \<Rightarrow> (e\<lparr>ae_payload := p\<rparr>, Inr ())
    | (p, Some x) \<Rightarrow> (e\<lparr>ae_payload := p\<rparr>, Inl x))"

definition entry_of :: "pyval \<Rightarrow> pydict \<Rightarrow> pyexc + activity_entry" where
  "entry_of i kvs = (case put_fields \<lparr>ae_id = i, ae_payload = new_payload\<rparr> kvs of (e, Inl x) \<Rightarrow> Inl x | (e, Inr _) \<Rightarrow> Inr e)"

definition entry_start :: "pydict \<Rightarrow> string \<Rightarrow> int \<Rightarrow> pyexc + activity_entry" where
  "entry_start kwargs uid now = (case (map_of kwargs ''name'', map_of kwargs ''resource_path'', map_of kwargs ''description'') of
      (Some n, Some r, Some d) \<Rightarrow> if n = PNone \<or> r = PNone \<or> d = PNone then Inl (ActivityError EINVAL)
        else entry_of (PStr uid) (start_fields n r d uid now)
    | _ \<Rightarrow> Inl (ActivityError EINVAL))"

definition ActivityEntry :: "pydict \<Rightarrow> string \<Rightarrow> int \<Rightarrow> pyexc + activity_entry" where
  "ActivityEntry kwargs uid now = (case map_of kwargs ''id'' of
      Some i \<Rightarrow> if i = PNone then entry_start kwargs uid now else entry_of i kwargs
    | None \<Rightarrow> entry_start kwargs uid now)"

definition entry_set_attr :: "activity_entry \<Rightarrow> string \<Rightarrow> pyval \<Rightarrow> activity_entry \<times> (pyexc + unit)" where
  "entry_set_attr e attr val = put_fields e [(attr, val)]"

definition set_progress :: "activity_entry \<Rightarrow> pyval \<Rightarrow> pyval \<Rightarrow> int \<Rightarrow> activity_entry \<times> (pyexc + unit)" where
  "set_progress e pct status_desc now =
     (case err_bind (py_less pct (PInt 0)) (\<lambda>b. if b then Inr True else py_less (PInt 99) pct) of
        Inl x \<Rightarrow> (e, Inl x)
      | Inr True \<Rightarrow> (e, Inl (ActivityError EINVAL))
      | Inr False \<Rightarrow> put_fields e [(''pct_progress'', pct), (''status'', PStr ''IN_PROGRESS''),
          (''status_description'', status_desc), (''updated_time'', PInt now)])"

definition entry_finish :: "activity_entry \<Rightarrow> pyval \<Rightarrow> pyval \<Rightarrow> int \<Rightarrow> activity_entry \<times> (pyexc + unit)" where
  "entry_finish e rc status_desc now = put_fields e [(''pct_progress'', PInt 100), (''status'', PStr ''COMPLETED''),
     (''status_description'', status_desc), (''updated_time'', PInt now), (''rc'', rc)]"

definition entry_suspend :: "activity_entry \<Rightarrow> pyval \<Rightarrow> int \<Rightarrow> activity_entry \<times> (pyexc + unit)" where
  "entry_suspend e status_desc now = put_fields e [(''status'', PStr ''SUSPENDED''), (''status_description'', status_desc),
     (''updated_time'', PInt now)]"

section \<open>Activity\<close>

text \<open>\<open>payload.json\<close>, and the text read again.\<close>

definition entry_json :: "activity_entry \<Rightarrow> string" where
  "entry_json e = json_dumps (kp_data (ae_payload e))"

definition entry_data :: "activity_entry \<Rightarrow> pyexc + pyval" where
  "entry_data e = (case json_load (entry_json e) of None \<Rightarrow> Inl ValueError | Some v \<Rightarrow> Inr v)"

definition is_complete :: "pyval \<Rightarrow> pyexc + bool" where
  "is_complete activity_data = err_bind (py_get activity_data ''status'' PNone) (\<lambda>st. Inr (st = PStr ''COMPLETED''))"

text \<open>\<open>_kv_store.set([activity.id], [activity.payload.json])\<close>. An id that is no string has no
  method split.\<close>

definition save_entry :: "'p payload_class \<Rightarrow> ('s, 'p) store_class \<Rightarrow> activity_entry \<Rightarrow> 's \<Rightarrow> 's \<times> (pyexc + unit)" where
  "save_entry P C e s = (case ae_id e of
      PStr i \<Rightarrow> (case ks_set P C s [i] [PStr (entry_json e)] of (s1, None) \<Rightarrow> (s1, Inr ()) | (s1, Some x) \<Rightarrow> (s1, Inl x))
    | _ \<Rightarrow> (case sc_load C s True of (s1, Inl x) \<Rightarrow> (s1, Inl x) | (s1, Inr _) \<Rightarrow> (s1, Inl AttributeError)))"

definition act_create :: "'p payload_class \<Rightarrow> ('s, 'p) store_class \<Rightarrow> pyval \<Rightarrow> pyval \<Rightarrow> pyval \<Rightarrow> string \<Rightarrow> int \<Rightarrow> 's \<Rightarrow>
    's \<times> (pyexc + activity_entry)" where
  "act_create P C name resource_path description uid now s =
     (case ActivityEntry [(''name'', name), (''resource_path'', resource_path), (''description'', description)] uid now of
        Inl x \<Rightarrow> (s, Inl x)
      | Inr e \<Rightarrow> st_bind (save_entry P C e s) (\<lambda>s1 _. (s1, Inr e)))"

text \<open>The operations change the entry that they are given and store it: the state is the entry with
  the store.\<close>

definition then_save :: "'p payload_class \<Rightarrow> ('s, 'p) store_class \<Rightarrow> activity_entry \<times> (pyexc + unit) \<Rightarrow> 's \<Rightarrow>
    (activity_entry \<times> 's) \<times> (pyexc + unit)" where
  "then_save P C r s = (case r of
      (e, Inl x) \<Rightarrow> ((e, s), Inl x)
    | (e, Inr _) \<Rightarrow> (case save_entry P C e s of (s1, q) \<Rightarrow> ((e, s1), q)))"

definition act_update :: "'p payload_class \<Rightarrow> ('s, 'p) store_class \<Rightarrow> pyval \<Rightarrow> pyval \<Rightarrow> int \<Rightarrow> activity_entry \<times> 's \<Rightarrow>
    (activity_entry \<times> 's) \<times> (pyexc + unit)" where
  "act_update P C pct status_desc now es = (case es of (e, s) \<Rightarrow>
     (case err_bind (entry_data e) (\<lambda>data. err_bind (is_complete data) (\<lambda>b.
         if b then Inl (ActivityError EINVAL)
         else err_bind (py_get data ''pct_progress'' PNone) (py_less pct))) of
        Inl x \<Rightarrow> (es, Inl x)
      | Inr True \<Rightarrow> (es, Inl (ActivityError EINVAL))
      | Inr False \<Rightarrow> then_save P C (set_progress e pct status_desc now) s))"

definition act_finish :: "'p payload_class \<Rightarrow> ('s, 'p) store_class \<Rightarrow> pyval \<Rightarrow> pyval \<Rightarrow> int \<Rightarrow> activity_entry \<times> 's \<Rightarrow>
    (activity_entry \<times> 's) \<times> (pyexc + unit)" where
  "act_finish P C rc status_desc now es = (case es of (e, s) \<Rightarrow> then_save P C (entry_finish e rc status_desc now) s)"

definition act_suspend :: "'p payload_class \<Rightarrow> ('s, 'p) store_class \<Rightarrow> pyval \<Rightarrow> int \<Rightarrow> activity_entry \<times> 's \<Rightarrow>
    (activity_entry \<times> 's) \<times> (pyexc + unit)" where
  "act_suspend P C status_desc now es = (case es of (e, s) \<Rightarrow>
     (case err_bind (entry_data e) is_complete of
        Inl x \<Rightarrow> (es, Inl x)
      | Inr True \<Rightarrow> (es, Inl (ActivityError EINVAL))
      | Inr False \<Rightarrow> then_save P C (entry_suspend e status_desc now) s))"

definition act_get :: "'p payload_class \<Rightarrow> ('s, 'p) store_class \<Rightarrow> string \<Rightarrow> string \<Rightarrow> int \<Rightarrow> 's \<Rightarrow> 's \<times> (pyexc + activity_entry)" where
  "act_get P C activity_id uid now s = st_bind (ks_get P C s [activity_id]) (\<lambda>s1 val. (s1,
     if val = [] \<or> hd val = PNone then Inl (ActivityError EINVAL)
     else case hd val of
         PStr t \<Rightarrow> (case json_load t of
             None \<Rightarrow> Inl ValueError
           | Some (PDict d) \<Rightarrow> ActivityEntry d uid now
           | Some _ \<Rightarrow> Inl TypeError)
       | _ \<Rightarrow> Inl TypeError))"

text \<open>\<open>search\<close>: the conditions \<open>field == 'value'\<close> on the data of an activity.\<close>

definition filter_field :: "string \<Rightarrow> string" where
  "filter_field f = takeWhile (\<lambda>c. is_alpha c \<or> c = CHR ''_'') f"

fun filters_match :: "pydict \<Rightarrow> string list \<Rightarrow> pyexc + bool" where
  "filters_match data [] = Inr True"
| "filters_match data (f # fs) = (case map_of data (filter_field f) of
      None \<Rightarrow> Inr False
    | Some v \<Rightarrow> (case split_str ''=='' f of
          [_, r] \<Rightarrow> if py_str v \<noteq> filter (\<lambda>c. c \<noteq> CHR 0x27) (py_strip r) then Inr False else filters_match data fs
        | _ \<Rightarrow> Inl ValueError))"

definition search_one :: "'p payload_class \<Rightarrow> ('s, 'p) store_class \<Rightarrow> string list \<Rightarrow> 's \<Rightarrow> string \<Rightarrow> 's \<times> (pyexc + string list)" where
  "search_one P C filters s activity_id = st_bind (ks_get P C s [activity_id]) (\<lambda>s1 val. (s1,
     case val of
         PStr t # _ \<Rightarrow> (case json_load t of
             None \<Rightarrow> Inl ValueError
           | Some v \<Rightarrow> if filters = [] then Inr [activity_id]
               else (case v of PDict d \<Rightarrow> err_bind (filters_match d filters) (\<lambda>b. Inr (if b then [activity_id] else []))
                 | _ \<Rightarrow> Inl AttributeError))
       | _ \<Rightarrow> Inl TypeError))"

definition act_search :: "'p payload_class \<Rightarrow> ('s, 'p) store_class \<Rightarrow> string \<Rightarrow> string list \<Rightarrow> 's \<Rightarrow> 's \<times> (pyexc + string list)" where
  "act_search P C resource_path filters s = st_bind (ks_get_keys P C s resource_path) (\<lambda>s1 activity_list.
     st_bind (map_each (search_one P C filters) s1 activity_list) (\<lambda>s2 out_list. (s2, Inr (concat out_list))))"

section \<open>The command line\<close>

text \<open>The commands on their arguments. \<open>create\<close> and \<open>finish\<close> call a method with an argument too few,
  \<open>start\<close> one that does not exist; \<open>update\<close> passes the progress as a string.\<close>

definition arg :: "string list \<Rightarrow> nat \<Rightarrow> pyexc + string" where
  "arg args i = (if i < length args then Inr (args ! i) else Inl IndexError)"

definition acli_create :: "string list \<Rightarrow> 's \<Rightarrow> 's \<times> (pyexc + string)" where
  "acli_create args s = (s, Inl (if length args < 2 then ActivityError EINVAL else TypeError))"

definition acli_update :: "'p payload_class \<Rightarrow> ('s, 'p) store_class \<Rightarrow> string list \<Rightarrow> string \<Rightarrow> int \<Rightarrow> 's \<Rightarrow> 's \<times> (pyexc + unit)" where
  "acli_update P C args uid now s = (case err_bind (arg args 0) (\<lambda>i. err_bind (arg args 1) (\<lambda>p. err_bind (arg args 2) (\<lambda>st. Inr (i, p, st)))) of
      Inl x \<Rightarrow> (s, Inl x)
    | Inr (i, p, st) \<Rightarrow> st_bind (act_get P C i uid now s) (\<lambda>s1 e.
        case act_update P C (PStr p) (PStr st) now (e, s1) of ((_, s2), r) \<Rightarrow> (s2, r)))"

definition acli_by_id :: "'p payload_class \<Rightarrow> ('s, 'p) store_class \<Rightarrow> (activity_entry \<Rightarrow> pyexc + 'r) \<Rightarrow> string list \<Rightarrow> string \<Rightarrow> int \<Rightarrow> 's \<Rightarrow>
    's \<times> (pyexc + 'r)" where
  "acli_by_id P C f args uid now s = (case arg args 0 of
      Inl x \<Rightarrow> (s, Inl x)
    | Inr i \<Rightarrow> st_bind (act_get P C i uid now s) (\<lambda>s1 e. (s1, f e)))"

definition acli_start :: "'p payload_class \<Rightarrow> ('s, 'p) store_class \<Rightarrow> string list \<Rightarrow> string \<Rightarrow> int \<Rightarrow> 's \<Rightarrow> 's \<times> (pyexc + unit)" where
  "acli_start P C = acli_by_id P C (\<lambda>e. Inl AttributeError)"

definition acli_show :: "'p payload_class \<Rightarrow> ('s, 'p) store_class \<Rightarrow> string list \<Rightarrow> string \<Rightarrow> int \<Rightarrow> 's \<Rightarrow> 's \<times> (pyexc + string)" where
  "acli_show P C = acli_by_id P C (\<lambda>e. Inr (entry_json e))"

definition acli_finish :: "'p payload_class \<Rightarrow> ('s, 'p) store_class \<Rightarrow> string list \<Rightarrow> string \<Rightarrow> int \<Rightarrow> 's \<Rightarrow> 's \<times> (pyexc + unit)" where
  "acli_finish P C = acli_by_id P C (\<lambda>e. Inl TypeError)"

definition acli_search :: "'p payload_class \<Rightarrow> ('s, 'p) store_class \<Rightarrow> string list \<Rightarrow> 's \<Rightarrow> 's \<times> (pyexc + string list)" where
  "acli_search P C args s = (case err_bind (arg args 0) (\<lambda>r. err_bind (arg args 1) (\<lambda>f. Inr (r, f))) of
      Inl x \<Rightarrow> (s, Inl x)
    | Inr (r, f) \<Rightarrow> act_search P C r (py_split (CHR '','') f) s)"

section \<open>Progress\<close>

lemma kv_set_plain: "CHR ''>'' \<notin> set k \<Longrightarrow> CHR ''['' \<notin> set k \<Longrightarrow> kv_set (CHR ''>'') k v (PDict d) = (PDict (AList.update k v d), None)"
  by (subst kv_set.simps) (simp add: split1_no_sep key_index_split_plain Let_def)

definition plain_name :: "string \<Rightarrow> bool" where
  "plain_name k \<longleftrightarrow> CHR ''>'' \<notin> set k \<and> CHR ''['' \<notin> set k"

lemma set_all_plain:
  assumes "kp_delim p = ''>''" "kp_data p = PDict d" "list_all (plain_name \<circ> fst) kvs"
  shows "\<exists>p'. set_all kv_class p kvs = (p', None) \<and> kp_delim p' = ''>'' \<and> kp_data p' = PDict (dict_update d kvs)"
  using assms
proof (induction kvs arbitrary: p d)
  case (Cons kv kvs)
  obtain k v where kv: "kv = (k, v)" by (cases kv)
  let ?p = "p\<lparr>kp_data := PDict (AList.update k v d), kp_keys := add_key k (kp_keys p)\<rparr>"
  have s: "pl_set kv_class p k v = (?p, None)"
    using Cons.prems kv by (simp add: kv_class_def kp_set_def plain_name_def kv_set_plain)
  have "\<exists>p'. set_all kv_class ?p kvs = (p', None) \<and> kp_delim p' = ''>'' \<and> kp_data p' = PDict (dict_update (AList.update k v d) kvs)"
    by (rule Cons.IH) (use Cons.prems in simp_all)
  then show ?case by (simp add: kv s)
qed auto

text \<open>The data of an entry: written as JSON it is read back, its progress is between 0 and 100, and it is 100
  exactly when the activity is complete.\<close>

definition act_data :: "pydict \<Rightarrow> bool" where
  "act_data d \<longleftrightarrow> json_ok (PDict d) \<and> (\<exists>n. map_of d ''pct_progress'' = Some (PInt n) \<and> 0 \<le> n \<and> n \<le> 100
     \<and> (n = 100 \<longleftrightarrow> map_of d ''status'' = Some (PStr ''COMPLETED'')))"

definition act_inv :: "activity_entry \<Rightarrow> bool" where
  "act_inv e \<longleftrightarrow> kp_delim (ae_payload e) = ''>'' \<and> (\<exists>d. kp_data (ae_payload e) = PDict d \<and> act_data d)"

definition progress :: "activity_entry \<Rightarrow> int" where
  "progress e = (case kp_data (ae_payload e) of PDict d \<Rightarrow> (case map_of d ''pct_progress'' of Some (PInt n) \<Rightarrow> n | _ \<Rightarrow> 0) | _ \<Rightarrow> 0)"

definition completed :: "activity_entry \<Rightarrow> bool" where
  "completed e \<longleftrightarrow> is_complete (kp_data (ae_payload e)) = Inr True"

datatype act_op = OpUpdate int pyval int | OpFinish pyval pyval int | OpSuspend pyval int

fun run_op :: "'p payload_class \<Rightarrow> ('s, 'p) store_class \<Rightarrow> act_op \<Rightarrow> activity_entry \<times> 's \<Rightarrow> activity_entry \<times> 's" where
  "run_op P C (OpUpdate pct desc now) es = fst (act_update P C (PInt pct) desc now es)"
| "run_op P C (OpFinish rc desc now) es = fst (act_finish P C rc desc now es)"
| "run_op P C (OpSuspend desc now) es = fst (act_suspend P C desc now es)"

fun op_ok :: "act_op \<Rightarrow> bool" where
  "op_ok (OpUpdate pct desc now) = json_ok desc"
| "op_ok (OpFinish rc desc now) = (json_ok rc \<and> json_ok desc)"
| "op_ok (OpSuspend desc now) = json_ok desc"

definition run_ops :: "'p payload_class \<Rightarrow> ('s, 'p) store_class \<Rightarrow> act_op list \<Rightarrow> activity_entry \<times> 's \<Rightarrow> activity_entry \<times> 's" where
  "run_ops P C ops es = fold (run_op P C) ops es"

lemma json_ok_update: "json_ok (PDict d) \<Longrightarrow> json_ok v \<Longrightarrow> json_ok (PDict (AList.update k v d))"
proof -
  have "json_ok_dict d \<Longrightarrow> json_ok v \<Longrightarrow> json_ok_dict (AList.update k v d)"
    by (induction d) auto
  then show "json_ok (PDict d) \<Longrightarrow> json_ok v \<Longrightarrow> json_ok (PDict (AList.update k v d))" by (simp add: AList.distinct_update)
qed

lemma json_ok_updates: "json_ok (PDict d) \<Longrightarrow> list_all (json_ok \<circ> snd) kvs \<Longrightarrow> json_ok (PDict (dict_update d kvs))"
  by (induction kvs arbitrary: d) (auto simp: json_ok_update simp del: json_ok.simps)

lemma put_fields_data:
  assumes "kp_delim (ae_payload e) = ''>''" "kp_data (ae_payload e) = PDict d" "list_all (plain_name \<circ> fst) kvs"
  shows "\<exists>p'. put_fields e kvs = (e\<lparr>ae_payload := p'\<rparr>, Inr ()) \<and> kp_delim p' = ''>'' \<and> kp_data p' = PDict (dict_update d kvs)"
  using set_all_plain [OF assms] by (auto simp: put_fields_def)

lemma then_save_entry: "fst (fst (then_save P C r s)) = fst r"
  by (auto simp: then_save_def split: prod.splits sum.splits)

lemma entry_data_eq: "act_inv e \<Longrightarrow> entry_data e = Inr (kp_data (ae_payload e))"
  by (auto simp: act_inv_def act_data_def entry_data_def entry_json_def json_load_dumps simp del: json_ok.simps json_dumps.simps)

lemma act_inv_put:
  assumes e: "act_inv e" "kp_data (ae_payload e) = PDict d" and k: "list_all (plain_name \<circ> fst) kvs" "list_all (json_ok \<circ> snd) kvs"
    and n: "map_of (dict_update d kvs) ''pct_progress'' = Some (PInt n)" "0 \<le> n" "n \<le> 100"
      "n = 100 \<longleftrightarrow> map_of (dict_update d kvs) ''status'' = Some (PStr ''COMPLETED'')"
  shows "act_inv (fst (put_fields e kvs)) \<and> progress (fst (put_fields e kvs)) = n"
proof -
  have d: "kp_delim (ae_payload e) = ''>''" "json_ok (PDict d)" using e by (auto simp: act_inv_def act_data_def)
  obtain p' where "put_fields e kvs = (e\<lparr>ae_payload := p'\<rparr>, Inr ())" "kp_delim p' = ''>''" "kp_data p' = PDict (dict_update d kvs)"
    using put_fields_data [OF d(1) e(2) k(1)] by blast
  moreover have "json_ok (PDict (dict_update d kvs))" by (rule json_ok_updates [OF d(2) k(2)])
  ultimately show ?thesis using n by (simp add: act_inv_def act_data_def progress_def del: json_ok.simps)
qed

lemma plain_fields [simp]: "plain_name ''pct_progress''" "plain_name ''status''" "plain_name ''status_description''"
  "plain_name ''updated_time''" "plain_name ''rc''" "plain_name ''id''" "plain_name ''name''" "plain_name ''resource_path''"
  "plain_name ''description''" "plain_name ''created_time''"
  by (simp_all add: plain_name_def)

lemma run_op_progress:
  assumes e: "act_inv e" and ok: "op_ok opr"
  shows "act_inv (fst (run_op P C opr (e, s))) \<and> progress e \<le> progress (fst (run_op P C opr (e, s)))"
proof -
  obtain d n where d: "kp_data (ae_payload e) = PDict d" "map_of d ''pct_progress'' = Some (PInt n)" "0 \<le> n" "n \<le> 100"
      "n = 100 \<longleftrightarrow> map_of d ''status'' = Some (PStr ''COMPLETED'')" "json_ok (PDict d)"
    using e by (auto simp: act_inv_def act_data_def)
  have pn: "progress e = n" by (simp add: progress_def d)
  have c: "is_complete (PDict d) = Inr (n = 100)"
    using d(5) by (cases "map_of d ''status''") (auto simp: is_complete_def)
  note put = act_inv_put [OF e d(1)]
  show ?thesis
  proof (cases opr)
    case (OpFinish rc desc now)
    have "act_inv (fst (entry_finish e rc desc now)) \<and> progress (fst (entry_finish e rc desc now)) = 100"
      unfolding entry_finish_def by (rule put) (use ok OpFinish in \<open>simp_all add: AList.update_conv'\<close>)
    then show ?thesis using OpFinish d(4) by (simp add: act_finish_def then_save_entry pn)
  next
    case (OpSuspend desc now)
    show ?thesis
    proof (cases "n = 100")
      case True
      then show ?thesis using OpSuspend e d(1) c by (simp add: act_suspend_def entry_data_eq)
    next
      case False
      have "act_inv (fst (entry_suspend e desc now)) \<and> progress (fst (entry_suspend e desc now)) = n"
        unfolding entry_suspend_def by (rule put) (use ok OpSuspend d False in \<open>simp_all add: AList.update_conv'\<close>)
      then show ?thesis using OpSuspend False e d(1) c by (simp add: act_suspend_def entry_data_eq then_save_entry pn)
    qed
  next
    case (OpUpdate k desc now)
    show ?thesis
    proof (cases "n = 100 \<or> k < n \<or> k < 0 \<or> 99 < k")
      case True
      then have "fst (act_update P C (PInt k) desc now (e, s)) = (e, s)"
        using e d(1,2) c by (auto simp: act_update_def entry_data_eq set_progress_def then_save_def split: bool.splits)
      then show ?thesis using OpUpdate e by simp
    next
      case False
      have "act_inv (fst (set_progress e (PInt k) desc now)) \<and> progress (fst (set_progress e (PInt k) desc now)) = k"
        unfolding set_progress_def using False
        by (simp, intro put) (use ok OpUpdate False in \<open>simp_all add: AList.update_conv'\<close>)
      then show ?thesis using OpUpdate False e d(1,2) c by (simp add: act_update_def entry_data_eq then_save_entry pn)
    qed
  qed
qed

lemma run_ops_progress:
  "act_inv e \<Longrightarrow> list_all op_ok ops \<Longrightarrow>
     act_inv (fst (run_ops P C ops (e, s))) \<and> progress e \<le> progress (fst (run_ops P C ops (e, s)))"
proof (induction ops arbitrary: e s)
  case (Cons opr ops)
  obtain e1 s1 where r: "run_op P C opr (e, s) = (e1, s1)" by fastforce
  have "act_inv e1 \<and> progress e \<le> progress e1" using run_op_progress [of e opr P C s] Cons.prems r by simp
  moreover have "act_inv (fst (run_ops P C ops (e1, s1))) \<and> progress e1 \<le> progress (fst (run_ops P C ops (e1, s1)))"
    by (rule Cons.IH) (use Cons.prems calculation in auto)
  ultimately show ?case by (auto simp: run_ops_def r)
qed (simp add: run_ops_def)

lemma created_inv:
  assumes "ActivityEntry [(''name'', nm), (''resource_path'', rp), (''description'', ds)] uid now = Inr e"
    and "json_ok nm" "json_ok rp" "json_ok ds"
  shows "act_inv e \<and> progress e = 0"
proof -
  let ?f = "start_fields nm rp ds uid now"
  have "entry_of (PStr uid) ?f = Inr e"
    using assms(1) by (auto simp: ActivityEntry_def entry_start_def split: if_splits)
  then have e: "put_fields \<lparr>ae_id = PStr uid, ae_payload = new_payload\<rparr> ?f = (e, Inr ())"
    by (auto simp: entry_of_def split: prod.splits sum.splits)
  have f: "list_all (plain_name \<circ> fst) ?f" "list_all (json_ok \<circ> snd) ?f" using assms(2-4) by (simp_all add: start_fields_def)
  obtain p' where "put_fields \<lparr>ae_id = PStr uid, ae_payload = new_payload\<rparr> ?f = (\<lparr>ae_id = PStr uid, ae_payload = p'\<rparr>, Inr ())"
      "kp_delim p' = ''>''" "kp_data p' = PDict (dict_update [] ?f)"
    using put_fields_data [of "\<lparr>ae_id = PStr uid, ae_payload = new_payload\<rparr>" "[]" ?f] f(1) by (auto simp: new_payload_def)
  moreover have "json_ok (PDict (dict_update [] ?f))" by (rule json_ok_updates) (use f(2) in simp_all)
  ultimately show ?thesis using e
    by (auto simp: act_inv_def act_data_def progress_def start_fields_def AList.update_conv' simp del: json_ok.simps)
qed

text \<open>Claim C12. From its creation on, whatever updates, suspensions and completions an activity goes through, refused
  ones and ones the store fails on included, its progress stays between 0 and 100, never
  goes back, and is 100 exactly when the activity is complete; a complete activity stays so.\<close>

theorem activity_progress:
  assumes "ActivityEntry [(''name'', nm), (''resource_path'', rp), (''description'', ds)] uid now = Inr e"
    and "json_ok nm" "json_ok rp" "json_ok ds" "list_all op_ok ops1" "list_all op_ok ops2"
    and "e1 = fst (run_ops P C ops1 (e, s))" "e2 = fst (run_ops P C (ops1 @ ops2) (e, s))"
  shows "0 \<le> progress e1 \<and> progress e1 \<le> progress e2 \<and> progress e2 \<le> 100
    \<and> (completed e1 \<longleftrightarrow> progress e1 = 100) \<and> (completed e1 \<longrightarrow> completed e2)"
proof -
  have e: "act_inv e" "progress e = 0" using created_inv [OF assms(1-4)] by auto
  obtain s1 where r1: "run_ops P C ops1 (e, s) = (e1, s1)" using assms(7) by (metis prod.collapse)
  have r2: "e2 = fst (run_ops P C ops2 (e1, s1))" using assms(8) r1 by (simp add: run_ops_def)
  have i1: "act_inv e1" "0 \<le> progress e1" using run_ops_progress [OF e(1) assms(5), of P C s] r1 e(2) by auto
  have i2: "act_inv e2" "progress e1 \<le> progress e2" using run_ops_progress [OF i1(1) assms(6), of P C s1] r2 by auto
  have c: "act_inv x \<Longrightarrow> progress x \<le> 100 \<and> (completed x \<longleftrightarrow> progress x = 100)" for x
    by (auto simp: act_inv_def act_data_def progress_def completed_def is_complete_def split: option.splits)
  show ?thesis using i1 i2 c [OF i1(1)] c [OF i2(1)] by auto
qed

definition act_file :: file_store where
  "act_file = \<lparr>fs_path = ''/a.json'', fs_delim = ''>'', fs_files = [''/a.json'' \<mapsto> ''{}'']\<rparr>"

theorem activity_progress_witness:
  "\<exists>e. ActivityEntry [(''name'', PStr ''copy''), (''resource_path'', PStr ''disk''), (''description'', PStr ''d'')] ''u1'' 5 = Inr e
    \<and> progress (fst (run_ops kv_class json_class
        [OpUpdate 40 (PStr ''x'') 6, OpUpdate 30 (PStr ''y'') 7] (e, act_file))) \<in> {0..100}"
proof -
  have "\<not> isl (ActivityEntry [(''name'', PStr ''copy''), (''resource_path'', PStr ''disk''), (''description'', PStr ''d'')] ''u1'' 5)"
    by code_simp
  then obtain e where e: "ActivityEntry [(''name'', PStr ''copy''), (''resource_path'', PStr ''disk''), (''description'', PStr ''d'')] ''u1'' 5 = Inr e"
    by (metis isl_def sum.collapse(2))
  have "0 \<le> progress (fst (run_ops kv_class json_class [OpUpdate 40 (PStr ''x'') 6, OpUpdate 30 (PStr ''y'') 7] (e, act_file))) \<and>
      progress (fst (run_ops kv_class json_class ([OpUpdate 40 (PStr ''x'') 6, OpUpdate 30 (PStr ''y'') 7] @ []) (e, act_file))) \<le> 100"
    using activity_progress [OF e _ _ _ _ _ refl refl, where ?ops1.0 = "[OpUpdate 40 (PStr ''x'') 6, OpUpdate 30 (PStr ''y'') 7]"
        and ?ops2.0 = "[]" and P = kv_class and C = json_class and s = act_file] by simp
  with e show ?thesis by auto
qed

end
