(* ===== verification/MessageBroker.thy ===== *)
theory MessageBroker
  imports Effects PyOps
begin

text \<open>
  The message brokers of src/py-utils/src/utils/message_bus: MessageBrokerFactory.get_server_list
  and MessageBroker (message_broker.py) and KafkaMessageBroker (message_broker_collection.py). The
  client library of Kafka is the record \<open>kafka\<close> of the calls the code makes on it, over a
  state of the servers and of the clock; a client object is a value of the type \<open>'c\<close>.
  Texts are what UTF-8 decodes of the bytes that are sent.
\<close>

abbreviation EINTR :: int where "EINTR \<equiv> 4"
abbreviation E2BIG :: int where "E2BIG \<equiv> 7"
abbreviation ETIMEDOUT :: int where "ETIMEDOUT \<equiv> 110"
abbreviation ENOKEY :: int where "ENOKEY \<equiv> 126"
abbreviation ERR_OP_FAILED :: int where "ERR_OP_FAILED \<equiv> 0x1100"
abbreviation ERR_INVALID_CLIENT_TYPE :: int where "ERR_INVALID_CLIENT_TYPE \<equiv> 0x1501"
abbreviation ERR_INVALID_SERVICE_NAME :: int where "ERR_INVALID_SERVICE_NAME \<equiv> 0x1502"
abbreviation ERR_SERVICE_UNAVAILABLE :: int where "ERR_SERVICE_UNAVAILABLE \<equiv> 0x1503"
abbreviation ERR_SERVICE_NOT_INITIALIZED :: int where "ERR_SERVICE_NOT_INITIALIZED \<equiv> 0x1504"
abbreviation ERR_NOT_INITIALIZED :: int where "ERR_NOT_INITIALIZED \<equiv> 0x1505"

section \<open>The client library\<close>

text \<open>What \<open>Consumer.poll\<close> returns: None, a message with an error, or a message with a value.\<close>

datatype polled = NoMessage | ErrorMessage | MessageValue string

text \<open>The topics come with their numbers of partitions. The admin calls on topics return a
  task for each, which fails with an exception or not; \<open>alter_configs\<close> tells whether the
  result of its first task is something else than None. \<open>flush\<close> and the \<open>poll\<close> of a
  producer serve delivery reports, of which True is an error.\<close>

record ('c, 's) kafka =
  kf_AdminClient :: "pydict \<Rightarrow> 's \<Rightarrow> 's \<times> (pyexc + 'c)"
  kf_Producer :: "pydict \<Rightarrow> 's \<Rightarrow> 's \<times> (pyexc + 'c)"
  kf_Consumer :: "pydict \<Rightarrow> 's \<Rightarrow> 's \<times> (pyexc + 'c)"
  kf_list_topics :: "'c \<Rightarrow> pyval \<Rightarrow> 's \<Rightarrow> 's \<times> (pyexc + (string \<times> int) list)"
  kf_create_topics :: "'c \<Rightarrow> (string \<times> int) list \<Rightarrow> 's \<Rightarrow> 's \<times> (pyexc + pyexc option list)"
  kf_delete_topics :: "'c \<Rightarrow> string list \<Rightarrow> 's \<Rightarrow> 's \<times> (pyexc + pyexc option list)"
  kf_create_partitions :: "'c \<Rightarrow> (string \<times> int) list \<Rightarrow> 's \<Rightarrow> 's \<times> (pyexc + pyexc option list)"
  kf_describe_configs :: "'c \<Rightarrow> string \<Rightarrow> 's \<Rightarrow> 's \<times> (pyexc + pydict)"
  kf_alter_configs :: "'c \<Rightarrow> string \<Rightarrow> pydict \<Rightarrow> 's \<Rightarrow> 's \<times> (pyexc + bool)"
  kf_subscribe :: "'c \<Rightarrow> string list \<Rightarrow> 's \<Rightarrow> 's \<times> (pyexc + unit)"
  kf_produce :: "'c \<Rightarrow> string \<Rightarrow> string \<Rightarrow> 's \<Rightarrow> 's \<times> (pyexc + unit)"
  kf_flush :: "'c \<Rightarrow> 's \<Rightarrow> 's \<times> (pyexc + bool list)"
  kf_serve :: "'c \<Rightarrow> pyval \<Rightarrow> 's \<Rightarrow> 's \<times> (pyexc + bool list)"
  kf_poll :: "'c \<Rightarrow> pyval \<Rightarrow> 's \<Rightarrow> 's \<times> (pyexc + polled)"
  kf_commit :: "'c \<Rightarrow> 's \<Rightarrow> 's \<times> (pyexc + unit)"
  kf_sleep :: "int \<Rightarrow> 's \<Rightarrow> 's"

section \<open>Addresses of the servers\<close>

text \<open>One turn of the loop of \<open>get_server_list\<close>: the address that it writes into the dict
  \<open>server_info\<close>. Every exception becomes a MessageBusError.\<close>

definition server_address :: "string \<Rightarrow> pyexc + string \<times> string" where
  "server_address server = (if CHR '':'' \<in> set server
     then (case split_str ''//'' server of
         _ # endpoints # _ \<Rightarrow> (case py_split (CHR '':'') endpoints of
             [fqdn, port] \<Rightarrow> Inr (fqdn, port)
           | _ \<Rightarrow> Inl (MessageBusError EINVAL))
       | _ \<Rightarrow> Inl (MessageBusError EINVAL))
     else Inr (server, ''9092''))"

definition server_info :: "string \<times> string \<Rightarrow> pyval" where
  "server_info a = PDict [(''server'', PStr (fst a)), (''port'', PStr (snd a))]"

text \<open>The list holds the one dict \<open>server_info\<close> once for every endpoint: what it shows in
  the end is the address that was written last.\<close>

fun server_loop :: "string list \<Rightarrow> nat \<Rightarrow> string \<times> string \<Rightarrow> pyexc + pyval list" where
  "server_loop [] n info = Inr (replicate n (server_info info))"
| "server_loop (server # servers) n info = err_bind (server_address server) (server_loop servers (Suc n))"

text \<open>The endpoints are strings; anything else in their place makes the loop raise.\<close>

definition str_endpoint :: "pyval \<Rightarrow> pyexc + string" where
  "str_endpoint v = (case v of PStr s \<Rightarrow> Inr s | _ \<Rightarrow> Inl (MessageBusError EINVAL))"

definition get_server_list :: "pyval \<Rightarrow> pyexc + pyval list" where
  "get_server_list message_server_endpoints = (case py_iter message_server_endpoints of
      Inl e \<Rightarrow> Inl (MessageBusError EINVAL)
    | Inr servers \<Rightarrow> err_bind (err_map str_endpoint servers) (\<lambda>ss. server_loop ss 0 ([], [])))"

section \<open>The broker\<close>

text \<open>\<open>_resource\<close> with the entries set on it, and \<open>_saved_retention\<close>, do not exist before a
  producer has been made.\<close>

record 'c broker =
  br_servers :: string
  br_admin :: "string \<rightharpoonup> 'c"
  br_producer :: "string \<rightharpoonup> 'c"
  br_consumer :: "string \<rightharpoonup> 'c"
  br_receive_timeout :: pyval
  br_socket_timeout :: pyval
  br_send_timeout :: pyval
  br_admin_api_timeout :: pyval
  br_resource :: "(string \<times> pydict) option"
  br_saved_retention :: "int option"

definition broker_server :: "pyval \<Rightarrow> pyexc + string" where
  "broker_server x = err_bind (py_item x ''server'') (\<lambda>s. case s of
      PStr server \<Rightarrow> err_bind (py_item x ''port'') (\<lambda>p. case p of
          PStr port \<Rightarrow> Inr (server @ '':'' @ port)
        | _ \<Rightarrow> Inl TypeError)
    | _ \<Rightarrow> Inl TypeError)"

definition MessageBroker_init :: "pyval \<Rightarrow> pyexc + string" where
  "MessageBroker_init broker_conf = err_bind (py_item broker_conf ''cluster'') (\<lambda>cluster.
     err_bind (py_iter cluster) (\<lambda>xs. err_bind (err_map broker_server xs) (\<lambda>ss. Inr (py_join '','' ss))))"

definition KafkaMessageBroker_init :: "pyval \<Rightarrow> pyexc + 'c broker" where
  "KafkaMessageBroker_init broker_conf = err_bind (MessageBroker_init broker_conf) (\<lambda>servers.
     err_bind (py_items broker_conf [''message_bus'', ''receive_timeout'']) (\<lambda>recv.
     err_bind (py_items broker_conf [''message_bus'', ''socket_timeout'']) (\<lambda>sock.
     err_bind (py_items broker_conf [''message_bus'', ''send_timeout'']) (\<lambda>send.
     err_bind (py_items broker_conf [''message_bus'', ''admin_api_timeout'']) (\<lambda>adm.
     Inr \<lparr>br_servers = servers, br_admin = Map.empty, br_producer = Map.empty, br_consumer = Map.empty,
       br_receive_timeout = recv, br_socket_timeout = sock, br_send_timeout = send, br_admin_api_timeout = adm,
       br_resource = None, br_saved_retention = None\<rparr>)))))"

section \<open>Clients\<close>

text \<open>The keyword arguments that the clients of the message bus pass.\<close>

record client_conf =
  cl_client_id :: "string option"
  cl_message_type :: "string option"
  cl_method :: "string option option"
  cl_message_types :: "string list option"
  cl_consumer_group :: "pyval option"
  cl_auto_ack :: "pyval option"
  cl_offset :: "pyval option"

definition conf_item :: "'a option \<Rightarrow> pyexc + 'a" where
  "conf_item v = (case v of None \<Rightarrow> Inl KeyError | Some a \<Rightarrow> Inr a)"

text \<open>A call of the library on the servers behind a broker.\<close>

definition on_kafka :: "('s \<Rightarrow> 's \<times> (pyexc + 'a)) \<Rightarrow> 'c broker \<times> 's \<Rightarrow> ('c broker \<times> 's) \<times> (pyexc + 'a)" where
  "on_kafka f bs = (case f (snd bs) of (s, r) \<Rightarrow> ((fst bs, s), r))"

definition pure_result :: "pyexc + 'a \<Rightarrow> 's \<Rightarrow> 's \<times> (pyexc + 'a)" where
  "pure_result r s = (s, r)"

text \<open>A client that exists is used again, if its message types are listed.\<close>

definition check_client :: "('c, 's) kafka \<Rightarrow> 'c \<Rightarrow> string \<Rightarrow> client_conf \<Rightarrow> 's \<Rightarrow> 's \<times> (pyexc + unit)" where
  "check_client K client client_type cf s = st_bind (kf_list_topics K client PNone s) (\<lambda>s1 topics.
     (s1, if client_type = ''producer'' then err_bind (conf_item (cl_message_type cf)) (\<lambda>t.
            if t \<notin> fst ` set topics then Inl (MessageBusError EINVAL) else Inr ())
          else if client_type = ''consumer'' then err_bind (conf_item (cl_message_types cf)) (\<lambda>ts.
            if \<not> list_ex (\<lambda>t. t \<in> fst ` set topics) ts then Inl (MessageBusError EINVAL) else Inr ())
          else Inr ()))"

text \<open>The settings of a client, here without the callback \<open>_error_cb\<close>.\<close>

definition kafka_conf :: "'c broker \<Rightarrow> string \<Rightarrow> pydict" where
  "kafka_conf b client_id = [(''bootstrap.servers'', PStr (br_servers b)), (''client.id'', PStr client_id)]"

definition error_cb :: "bool \<Rightarrow> pyexc + unit" where
  "error_cb all_brokers_down = (if all_brokers_down then Inl (MessageBusError ERR_SERVICE_UNAVAILABLE) else Inr ())"

definition admin_conf :: "'c broker \<Rightarrow> string \<Rightarrow> pydict" where
  "admin_conf b client_id = kafka_conf b client_id @ [(''socket.timeout.ms'', br_socket_timeout b)]"

definition init_admin :: "('c, 's) kafka \<Rightarrow> string \<Rightarrow> 'c broker \<times> 's \<Rightarrow> ('c broker \<times> 's) \<times> (pyexc + 'c)" where
  "init_admin K client_id bs = st_bind (on_kafka (kf_AdminClient K (admin_conf (fst bs) client_id)) bs) (\<lambda>(b, s) admin.
     ((b\<lparr>br_admin := (br_admin b)(client_id \<mapsto> admin)\<rparr>, s), Inr admin))"

definition init_producer :: "('c, 's) kafka \<Rightarrow> string \<Rightarrow> client_conf \<Rightarrow> 'c \<Rightarrow> 'c broker \<times> 's \<Rightarrow>
    ('c broker \<times> 's) \<times> (pyexc + unit)" where
  "init_producer K client_id cf admin bs =
     st_bind (on_kafka (kf_Producer K (admin_conf (fst bs) client_id @ [(''message.timeout.ms'', br_send_timeout (fst bs))])) bs)
      (\<lambda>(b, s) producer. let b1 = b\<lparr>br_producer := (br_producer b)(client_id \<mapsto> producer)\<rparr> in
     st_bind (pure_result (conf_item (cl_message_type cf)) (b1, s)) (\<lambda>_ message_type.
       let b2 = b1\<lparr>br_resource := Some (message_type, [])\<rparr> in
     st_bind (on_kafka (kf_describe_configs K admin message_type) (b2, s)) (\<lambda>(b3, s3) configs.
     case map_of configs ''retention.ms'' of
       None \<Rightarrow> ((b3, s3), Inl (MessageBusError ENOKEY))
     | Some v \<Rightarrow> (case py_int v of
           Inl e \<Rightarrow> ((b3, s3), Inl e)
         | Inr n \<Rightarrow> ((b3\<lparr>br_saved_retention := Some (if n = 1 then 604800000 else n)\<rparr>, s3), Inr ())))))"

definition init_consumer :: "('c, 's) kafka \<Rightarrow> string \<Rightarrow> client_conf \<Rightarrow> 'c broker \<times> 's \<Rightarrow> ('c broker \<times> 's) \<times> (pyexc + unit)" where
  "init_consumer K client_id cf bs = (case (cl_offset cf, cl_consumer_group cf, cl_message_types cf, cl_auto_ack cf) of
      (Some offset, Some group_id, Some message_types, Some auto_ack) \<Rightarrow>
        st_bind (on_kafka (kf_Consumer K (kafka_conf (fst bs) client_id @ [(''enable.auto.commit'', auto_ack),
            (''auto.offset.reset'', offset), (''group.id'', group_id)])) bs) (\<lambda>bs1 consumer.
        st_bind (on_kafka (kf_subscribe K consumer message_types) bs1) (\<lambda>(b, s) _.
        ((b\<lparr>br_consumer := (br_consumer b)(client_id \<mapsto> consumer)\<rparr>, s), Inr ())))
    | _ \<Rightarrow> (bs, Inl (MessageBusError ENOENT)))"

text \<open>\<open>self._clients[client_type]\<close>.\<close>

definition clients_of :: "'c broker \<Rightarrow> string \<Rightarrow> (string \<rightharpoonup> 'c) option" where
  "clients_of b client_type = map_of [(''admin'', br_admin b), (''producer'', br_producer b), (''consumer'', br_consumer b)] client_type"

definition init_client :: "('c, 's) kafka \<Rightarrow> string \<Rightarrow> client_conf \<Rightarrow> 'c broker \<times> 's \<Rightarrow> ('c broker \<times> 's) \<times> (pyexc + unit)" where
  "init_client K client_type cf bs = (case clients_of (fst bs) client_type of
      None \<Rightarrow> (bs, Inl (MessageBusError ERR_INVALID_CLIENT_TYPE))
    | Some clients \<Rightarrow> (case cl_client_id cf of
          None \<Rightarrow> (bs, Inl KeyError)
        | Some client_id \<Rightarrow> (case clients client_id of
              Some client \<Rightarrow> on_kafka (check_client K client client_type cf) bs
            | None \<Rightarrow>
                if client_type = ''admin'' then st_bind (init_admin K client_id bs) (\<lambda>bs1 _. (bs1, Inr ()))
                else if client_type = ''producer'' then st_bind (init_admin K client_id bs) (\<lambda>bs1 admin. init_producer K client_id cf admin bs1)
                else init_consumer K client_id cf bs)))"

section \<open>Administration\<close>

definition the_client :: "(string \<rightharpoonup> 'c) \<Rightarrow> string \<Rightarrow> pyexc + 'c" where
  "the_client clients client_id = (case clients client_id of None \<Rightarrow> Inl KeyError | Some client \<Rightarrow> Inr client)"

definition task_status :: "pyexc option list \<Rightarrow> pyexc + unit" where
  "task_status tasks = err_each (\<lambda>t. case t of None \<Rightarrow> Inr () | Some _ \<Rightarrow> Inl (MessageBusError ERR_OP_FAILED)) tasks"

text \<open>\<open>_get_metadata\<close>: \<open>except Exception\<close> does not catch a KeyboardInterrupt.\<close>

abbreviation KeyboardInterrupt :: pyexc where "KeyboardInterrupt \<equiv> PyException ''KeyboardInterrupt''"

definition get_metadata :: "('c, 's) kafka \<Rightarrow> 'c broker \<Rightarrow> 'c \<Rightarrow> 's \<Rightarrow> 's \<times> (pyexc + (string \<times> int) list)" where
  "get_metadata K b admin s = (case kf_list_topics K admin (br_admin_api_timeout b) s of
      (s1, Inl e) \<Rightarrow> (s1, Inl (if e = KeyboardInterrupt then e else MessageBusError ERR_OP_FAILED))
    | (s1, Inr topics) \<Rightarrow> (s1, Inr topics))"

definition list_message_types :: "('c, 's) kafka \<Rightarrow> 'c broker \<Rightarrow> string \<Rightarrow> 's \<Rightarrow> 's \<times> (pyexc + string list)" where
  "list_message_types K b admin_id s = st_bind (s, the_client (br_admin b) admin_id) (\<lambda>s1 admin.
     st_bind (get_metadata K b admin s1) (\<lambda>s2 topics. (s2, Inr (map fst topics))))"

text \<open>\<open>for list_retry in range(1, 17)\<close>: as long as \<open>again\<close> holds the loop sleeps \<open>list_retry\<close>
  seconds; the sixteenth time it raises.\<close>

fun retry_loop :: "('c, 's) kafka \<Rightarrow> ('s \<Rightarrow> 's \<times> (pyexc + bool)) \<Rightarrow> pyexc \<Rightarrow> int list \<Rightarrow> 's \<Rightarrow> 's \<times> (pyexc + unit)" where
  "retry_loop K again e [] s = (s, Inr ())"
| "retry_loop K again e (list_retry # rs) s = st_bind (again s) (\<lambda>s1 b.
     if \<not> b then (s1, Inr ())
     else if list_retry > 15 then (s1, Inl e)
     else retry_loop K again e rs (kf_sleep K list_retry s1))"

definition listed :: "('c, 's) kafka \<Rightarrow> 'c broker \<Rightarrow> 'c \<Rightarrow> string \<Rightarrow> 's \<Rightarrow> 's \<times> (pyexc + bool)" where
  "listed K b admin message_type s = st_bind (get_metadata K b admin s) (\<lambda>s1 topics.
     (s1, Inr (message_type \<in> fst ` set topics)))"

definition not_listed :: "('c, 's) kafka \<Rightarrow> 'c broker \<Rightarrow> 'c \<Rightarrow> string \<Rightarrow> 's \<Rightarrow> 's \<times> (pyexc + bool)" where
  "not_listed K b admin message_type s = st_bind (listed K b admin message_type s) (\<lambda>s1 l. (s1, Inr (\<not> l)))"

definition register_message_type :: "('c, 's) kafka \<Rightarrow> 'c broker \<Rightarrow> string \<Rightarrow> string list \<Rightarrow> int \<Rightarrow> 's \<Rightarrow> 's \<times> (pyexc + unit)" where
  "register_message_type K b admin_id message_types partitions s = st_bind (s, the_client (br_admin b) admin_id) (\<lambda>s admin.
     st_bind (kf_create_topics K admin (map (\<lambda>t. (t, partitions)) message_types) s) (\<lambda>s1 tasks.
     st_bind (s1, task_status tasks) (\<lambda>s2 _.
     for_each (\<lambda>s t. retry_loop K (not_listed K b admin t) (MessageBusError ETIMEDOUT) [1..16] s) s2 message_types)))"

definition deregister_message_type :: "('c, 's) kafka \<Rightarrow> 'c broker \<Rightarrow> string \<Rightarrow> string list \<Rightarrow> 's \<Rightarrow> 's \<times> (pyexc + unit)" where
  "deregister_message_type K b admin_id message_types s = st_bind (s, the_client (br_admin b) admin_id) (\<lambda>s admin.
     st_bind (kf_delete_topics K admin message_types s) (\<lambda>s1 tasks.
     st_bind (s1, task_status tasks) (\<lambda>s2 _.
     for_each (\<lambda>s t. retry_loop K (listed K b admin t) (MessageBusError ETIMEDOUT) [1..16] s) s2 message_types)))"

definition partitions_differ :: "('c, 's) kafka \<Rightarrow> 'c broker \<Rightarrow> 'c \<Rightarrow> string \<Rightarrow> int \<Rightarrow> 's \<Rightarrow> 's \<times> (pyexc + bool)" where
  "partitions_differ K b admin message_type count s = st_bind (get_metadata K b admin s) (\<lambda>s1 topics.
     (s1, case map_of topics message_type of None \<Rightarrow> Inl KeyError | Some n \<Rightarrow> Inr (count \<noteq> n)))"

definition add_concurrency :: "('c, 's) kafka \<Rightarrow> 'c broker \<Rightarrow> string \<Rightarrow> string \<Rightarrow> int \<Rightarrow> 's \<Rightarrow> 's \<times> (pyexc + unit)" where
  "add_concurrency K b admin_id message_type concurrency_count s = st_bind (s, the_client (br_admin b) admin_id) (\<lambda>s admin.
     st_bind (kf_create_partitions K admin [(message_type, concurrency_count)] s) (\<lambda>s1 tasks.
     st_bind (s1, task_status tasks) (\<lambda>s2 _.
     retry_loop K (partitions_differ K b admin message_type concurrency_count) (MessageBusError E2BIG) [1..16] s2)))"

section \<open>Sending\<close>

definition delivery_callback :: "bool \<Rightarrow> pyexc + unit" where
  "delivery_callback err = (if err then Inl (MessageBusError ETIMEDOUT) else Inr ())"

definition send_one :: "('c, 's) kafka \<Rightarrow> 'c \<Rightarrow> string \<Rightarrow> string option \<Rightarrow> pyval \<Rightarrow> 's \<Rightarrow> string \<Rightarrow> 's \<times> (pyexc + unit)" where
  "send_one K producer message_type method timeout s message =
     st_bind (kf_produce K producer message_type message s) (\<lambda>s1 _.
     st_bind (if method = Some ''sync'' then kf_flush K producer s1 else kf_serve K producer timeout s1) (\<lambda>s2 reports.
     (s2, err_each delivery_callback reports)))"

definition broker_send :: "('c, 's) kafka \<Rightarrow> 'c broker \<Rightarrow> string \<Rightarrow> string \<Rightarrow> string option \<Rightarrow> string list \<Rightarrow> 's \<Rightarrow> 's \<times> (pyexc + unit)" where
  "broker_send K b producer_id message_type method messages s =
     st_bind (s, the_client (br_producer b) producer_id) (\<lambda>s producer.
     for_each (send_one K producer message_type method (PFloat (1 / 10))) s messages)"

section \<open>Deleting the messages of a type\<close>

text \<open>\<open>self._resource.set_config(key, value)\<close>.\<close>

definition set_config :: "string \<Rightarrow> pyval \<Rightarrow> 'c broker \<times> 's \<Rightarrow> ('c broker \<times> 's) \<times> (pyexc + string \<times> pydict)" where
  "set_config key v bs = (case br_resource (fst bs) of
      None \<Rightarrow> (bs, Inl AttributeError)
    | Some (topic, entries) \<Rightarrow> (let r = (topic, AList.update key v entries) in
        (((fst bs)\<lparr>br_resource := Some r\<rparr>, snd bs), Inr r)))"

text \<open>A loop of \<open>delete\<close> over \<open>range(3)\<close>: \<open>value\<close> is what it sets as the retention.\<close>

fun alter_loop :: "('c, 's) kafka \<Rightarrow> 'c \<Rightarrow> ('c broker \<Rightarrow> pyexc + pyval) \<Rightarrow> pyexc \<Rightarrow> int list \<Rightarrow> 'c broker \<times> 's \<Rightarrow>
    ('c broker \<times> 's) \<times> (pyexc + unit)" where
  "alter_loop K admin val e [] bs = (bs, Inr ())"
| "alter_loop K admin val e (retry # rs) bs =
     (if br_resource (fst bs) = None then (bs, Inl AttributeError)
      else st_bind (pure_result (val (fst bs)) bs) (\<lambda>bs v.
      st_bind (set_config ''retention.ms'' v bs) (\<lambda>bs1 r.
      st_bind (on_kafka (kf_alter_configs K admin (fst r) (snd r)) bs1) (\<lambda>bs2 failed.
      if \<not> failed then (bs2, Inr ())
      else if retry > 1 then (bs2, Inl e)
      else alter_loop K admin val e rs bs2))))"

definition saved_retention :: "'c broker \<Rightarrow> pyexc + pyval" where
  "saved_retention b = (case br_saved_retention b of None \<Rightarrow> Inl AttributeError | Some n \<Rightarrow> Inr (PInt n))"

definition broker_delete :: "('c, 's) kafka \<Rightarrow> string \<Rightarrow> string \<Rightarrow> 'c broker \<times> 's \<Rightarrow> ('c broker \<times> 's) \<times> (pyexc + int)" where
  "broker_delete K admin_id message_type bs = st_bind (bs, the_client (br_admin (fst bs)) admin_id) (\<lambda>bs admin.
     st_bind (alter_loop K admin (\<lambda>_. Inr (PInt 1)) (MessageBusError ERR_OP_FAILED) [0..2] bs) (\<lambda>(b, s) _.
     st_bind (alter_loop K admin saved_retention (MessageBusError ENOKEY) [0..2] (b, kf_sleep K 1 s)) (\<lambda>bs2 _.
     (bs2, Inr 0))))"

section \<open>Receiving\<close>

text \<open>The loop of \<open>receive\<close> need not end when it blocks: it is None then.\<close>

partial_function (option) receive_loop :: "('c, 's) kafka \<Rightarrow> 'c \<Rightarrow> pyval \<Rightarrow> bool \<Rightarrow> 's \<Rightarrow> ('s \<times> (pyexc + string option)) option" where
  "receive_loop K consumer timeout blocking s = (case kf_poll K consumer timeout s of
      (s1, Inl e) \<Rightarrow> Some (s1, Inl (if e = KeyboardInterrupt then MessageBusError EINTR else e))
    | (s1, Inr NoMessage) \<Rightarrow> if \<not> blocking then Some (s1, Inr None) else receive_loop K consumer timeout blocking s1
    | (s1, Inr ErrorMessage) \<Rightarrow> Some (s1, Inl (MessageBusError ERR_OP_FAILED))
    | (s1, Inr (MessageValue v)) \<Rightarrow> Some (s1, Inr (Some v)))"

definition broker_receive :: "('c, 's) kafka \<Rightarrow> 'c broker \<Rightarrow> string \<Rightarrow> pyval \<Rightarrow> 's \<Rightarrow> ('s \<times> (pyexc + string option)) option" where
  "broker_receive K b consumer_id timeout s = (case the_client (br_consumer b) consumer_id of
      Inl e \<Rightarrow> Some (s, Inl e)
    | Inr consumer \<Rightarrow> (let t = (if timeout = PNone then br_receive_timeout b else timeout) in
        if py_eq t (PInt 0) then receive_loop K consumer (br_receive_timeout b) True s
        else receive_loop K consumer t False s))"

definition broker_ack :: "('c, 's) kafka \<Rightarrow> 'c broker \<Rightarrow> string \<Rightarrow> 's \<Rightarrow> 's \<times> (pyexc + unit)" where
  "broker_ack K b consumer_id s = st_bind (s, the_client (br_consumer b) consumer_id) (\<lambda>s consumer. kf_commit K consumer s)"

section \<open>Settings of a message type\<close>

definition config_prop_map :: "(string \<times> string) list" where
  "config_prop_map = [(''expire_time_ms'', ''retention.ms''), (''data_limit_bytes'', ''segment.bytes''),
     (''file_delete_ms'', ''file.delete.delay.ms'')]"

fun set_configs :: "pydict \<Rightarrow> pydict \<Rightarrow> pyexc + pydict" where
  "set_configs [] entries = Inr entries"
| "set_configs ((key, v) # kwargs) entries = (case map_of config_prop_map key of
      None \<Rightarrow> Inl (MessageBusError EINVAL)
    | Some name \<Rightarrow> set_configs kwargs (AList.update name v entries))"

fun configure_loop :: "('c, 's) kafka \<Rightarrow> 'c \<Rightarrow> string \<Rightarrow> pydict \<Rightarrow> int list \<Rightarrow> pydict \<Rightarrow> 's \<Rightarrow> 's \<times> (pyexc + unit)" where
  "configure_loop K admin message_type kwargs [] entries s = (s, Inr ())"
| "configure_loop K admin message_type kwargs (tuned_retry # rs) entries s =
     st_bind (s, set_configs kwargs entries) (\<lambda>s entries1.
     st_bind (kf_alter_configs K admin message_type entries1 s) (\<lambda>s1 failed.
     if \<not> failed then (s1, Inr ())
     else if tuned_retry > 1 then (s1, Inl (MessageBusError ERR_OP_FAILED))
     else configure_loop K admin message_type kwargs rs entries1 s1))"

definition configure_message_type :: "('c, 's) kafka \<Rightarrow> 'c broker \<Rightarrow> string \<Rightarrow> string \<Rightarrow> pydict \<Rightarrow> 's \<Rightarrow> 's \<times> (pyexc + int)" where
  "configure_message_type K b admin_id message_type kwargs s = st_bind (s, the_client (br_admin b) admin_id) (\<lambda>s admin.
     st_bind (list_message_types K b admin_id s) (\<lambda>s1 message_type_list.
     if message_type \<notin> set message_type_list then (s1, Inl (MessageBusError ENOENT))
     else st_bind (configure_loop K admin message_type kwargs [0..2] [] s1) (\<lambda>s2 _. (s2, Inr 0))))"

definition set_message_type_expire :: "('c, 's) kafka \<Rightarrow> 'c broker \<Rightarrow> string \<Rightarrow> string \<Rightarrow> pydict \<Rightarrow> 's \<Rightarrow> 's \<times> (pyexc + int)" where
  "set_message_type_expire K b admin_id message_type kwargs s =
     (if \<not> {''expire_time_ms'', ''data_limit_bytes''} \<subseteq> fst ` set kwargs then (s, Inl (MessageBusError EINVAL))
      else configure_message_type K b admin_id message_type (AList.update ''file_delete_ms'' (PInt 1) kwargs) s)"

section \<open>Addresses\<close>

lemma server_loop_addresses:
  assumes "\<forall>s \<in> set servers. server_address s = Inr (addr s)"
  shows "server_loop servers n info = Inr (replicate (n + length servers) (server_info (last (info # map addr servers))))"
  using assms by (induction servers arbitrary: n info) simp_all

lemma str_endpoints [simp]: "err_map str_endpoint (map PStr ss) = Inr ss"
  by (induction ss) (simp_all add: str_endpoint_def)

lemma get_server_list_addresses:
  assumes "\<forall>s \<in> set servers. server_address s = Inr (addr s)" "servers \<noteq> []"
  shows "get_server_list (PList (map PStr servers)) = Inr (replicate (length servers) (server_info (addr (last servers))))"
  using server_loop_addresses [OF assms(1), of 0 "([], [])"] assms(2) by (simp add: get_server_list_def last_map)

lemma join_replicate_item: "err_map broker_server (replicate n (server_info a)) = Inr (replicate n (fst a @ '':'' @ snd a))"
  by (induction n) (simp_all add: broker_server_def server_info_def)

text \<open>The list of the servers has an entry for every endpoint, and all of them show the address
  of the last endpoint; so do the bootstrap servers of a broker made of this list.\<close>

lemma server_list_last:
  assumes "\<forall>s \<in> set endpoints. server_address s = Inr (addr s)" "endpoints \<noteq> []"
    and "py_item conf ''cluster'' = Inr (PList cluster)" "get_server_list (PList (map PStr endpoints)) = Inr cluster"
  shows "cluster = replicate (length endpoints) (server_info (addr (last endpoints)))
    \<and> MessageBroker_init conf = Inr (py_join '','' (replicate (length endpoints)
         (fst (addr (last endpoints)) @ '':'' @ snd (addr (last endpoints)))))"
proof -
  have "cluster = replicate (length endpoints) (server_info (addr (last endpoints)))"
    using get_server_list_addresses [OF assms(1,2)] assms(4) by simp
  then show ?thesis using assms(3) by (simp add: MessageBroker_init_def join_replicate_item)
qed

theorem server_list_last_witness:
  "\<exists>cluster. get_server_list (PList [PStr ''tcp://a:1'', PStr ''b'']) = Inr cluster \<and>
     MessageBroker_init (PDict [(''cluster'', PList cluster)]) = Inr ''b:9092,b:9092''"
proof -
  define addr :: "string \<Rightarrow> string \<times> string" where "addr s = (if s = ''b'' then (''b'', ''9092'') else (''a'', ''1''))" for s
  have a: "server_address ''tcp://a:1'' = Inr (''a'', ''1'')" "server_address ''b'' = Inr (''b'', ''9092'')" by code_simp+
  obtain cluster where c: "get_server_list (PList (map PStr [''tcp://a:1'', ''b''])) = Inr cluster"
    by (auto simp: get_server_list_def str_endpoint_def a)
  have "MessageBroker_init (PDict [(''cluster'', PList cluster)]) = Inr ''b:9092,b:9092''"
    using server_list_last [of "[''tcp://a:1'', ''b'']" addr "PDict [(''cluster'', PList cluster)]", OF _ _ _ c] a
    by (auto simp: addr_def numeral_2_eq_2)
  then show ?thesis using c [unfolded list.map] by blast
qed

section \<open>Waiting for the list of types\<close>

text \<open>The seconds that the loop still sleeps when its counter is \<open>j\<close>.\<close>

definition wait_left :: "int \<Rightarrow> int" where
  "wait_left j = (\<Sum>i \<in> {j..15}. i)"

lemma wait_left_step: "j \<le> 15 \<Longrightarrow> wait_left j = j + wait_left (j + 1)"
proof -
  assume "j \<le> 15"
  then have "{j..15} = insert j {j + 1..15}" by auto
  then show ?thesis by (simp add: wait_left_def)
qed

lemma wait_left_nonneg: "0 \<le> j \<Longrightarrow> 0 \<le> wait_left j"
  by (auto simp: wait_left_def intro!: sum_nonneg)

text \<open>Sleeping advances the clock and keeps the states of \<open>I\<close>.\<close>

definition sleeps :: "('c, 's) kafka \<Rightarrow> ('s \<Rightarrow> int) \<Rightarrow> ('s \<Rightarrow> bool) \<Rightarrow> bool" where
  "sleeps K clock I \<longleftrightarrow> (\<forall>t s. 0 \<le> t \<and> I s \<longrightarrow> clock (kf_sleep K t s) = clock s + t \<and> I (kf_sleep K t s))"

lemma retry_loop_time:
  assumes "\<forall>s. I s \<longrightarrow> again s = (s, Inr (P (clock s)))" "sleeps K clock I"
    and "\<forall>t t'. t \<le> t' \<longrightarrow> P t' \<longrightarrow> P t" "I s" "1 \<le> j" "j \<le> 16"
  shows "\<exists>s' r. retry_loop K again e [j..16] s = (s', r) \<and> clock s \<le> clock s' \<and> clock s' \<le> clock s + wait_left j \<and>
    r = (if P (clock s + wait_left j) then Inl e else Inr ()) \<and> (r = Inr () \<longrightarrow> \<not> P (clock s')) \<and> I s'"
  using assms(4-6)
proof (induction "nat (16 - j)" arbitrary: j s)
  case 0
  then have j: "j = 16" by simp
  then show ?case using assms(1) 0(2) by (simp add: wait_left_def)
next
  case (Suc n)
  then have j: "j \<le> 15" "[j..16] = j # [j + 1..16]" by (auto simp: upto_rec1)
  show ?case
  proof (cases "P (clock s)")
    case False
    then have "\<not> P (clock s + wait_left j)" 
      using assms(3) [rule_format, of "clock s" "clock s + wait_left j"] wait_left_nonneg [of j] Suc.prems(2) by auto
    with False j assms(1) Suc.prems(1) show ?thesis using wait_left_nonneg [of j] Suc.prems(2) by simp
  next
    case True
    have c: "clock (kf_sleep K j s) = clock s + j" "I (kf_sleep K j s)" using assms(2) Suc.prems by (auto simp: sleeps_def)
    have n: "n = nat (16 - (j + 1))" using Suc.hyps(2) by simp
    have "\<exists>s' r. retry_loop K again e [j + 1..16] (kf_sleep K j s) = (s', r) \<and> clock (kf_sleep K j s) \<le> clock s' \<and>
        clock s' \<le> clock (kf_sleep K j s) + wait_left (j + 1) \<and>
        r = (if P (clock (kf_sleep K j s) + wait_left (j + 1)) then Inl e else Inr ()) \<and> (r = Inr () \<longrightarrow> \<not> P (clock s')) \<and> I s'"
      by (rule Suc.hyps(1) [OF n c(2)]) (use Suc.prems(2) j(1) in simp_all)
    then obtain s' r where ih: "retry_loop K again e [j + 1..16] (kf_sleep K j s) = (s', r)" "clock (kf_sleep K j s) \<le> clock s'"
      "clock s' \<le> clock (kf_sleep K j s) + wait_left (j + 1)"
      "r = (if P (clock (kf_sleep K j s) + wait_left (j + 1)) then Inl e else Inr ())" "r = Inr () \<longrightarrow> \<not> P (clock s')" "I s'" by blast
    have "retry_loop K again e [j..16] s = (s', r)" using True j assms(1) Suc.prems(1) ih(1) by simp
    moreover have "clock s + wait_left j = clock (kf_sleep K j s) + wait_left (j + 1)" using c(1) wait_left_step [OF j(1)] by simp
    ultimately show ?thesis using ih(2-6) c(1) Suc.prems(2) by (intro exI [of _ s'] exI [of _ r]) (auto simp: add.assoc)
  qed
qed

lemma wait_left_1: "wait_left 1 = 120"
  by code_simp

lemma register_loop_time:
  assumes "\<forall>s. I s \<longrightarrow> kf_list_topics K admin (br_admin_api_timeout b) s = (s, Inr (T (clock s)))"
    and "sleeps K clock I"
    and "\<forall>t t'. t \<le> t' \<longrightarrow> fst ` set (T t) \<subseteq> fst ` set (T t')"
    and "I s" and "for_each (\<lambda>s t. retry_loop K (not_listed K b admin t) (MessageBusError ETIMEDOUT) [1..16] s) s ts = (s', r)"
  shows "clock s \<le> clock s' \<and> clock s' \<le> clock s + 120 * int (length ts) \<and>
    (r = Inr () \<longrightarrow> set ts \<subseteq> fst ` set (T (clock s'))) \<and> (r \<noteq> Inr () \<longrightarrow> r = Inl (MessageBusError ETIMEDOUT)) \<and>
    (set ts \<subseteq> fst ` set (T (clock s + 120)) \<longrightarrow> r = Inr ())"
  using assms(4,5)
proof (induction ts arbitrary: s)
  case (Cons t ts)
  let ?P = "\<lambda>c. t \<notin> fst ` set (T c)"
  have g: "\<forall>s. I s \<longrightarrow> not_listed K b admin t s = (s, Inr (?P (clock s)))"
    using assms(1) by (simp add: not_listed_def listed_def get_metadata_def)
  have mono: "\<forall>c c'. c \<le> c' \<longrightarrow> ?P c' \<longrightarrow> ?P c" using assms(3) by blast
  obtain s1 r1 where 1: "retry_loop K (not_listed K b admin t) (MessageBusError ETIMEDOUT) [1..16] s = (s1, r1)"
    "clock s \<le> clock s1" "clock s1 \<le> clock s + 120"
    "r1 = (if ?P (clock s + 120) then Inl (MessageBusError ETIMEDOUT) else Inr ())" "r1 = Inr () \<longrightarrow> \<not> ?P (clock s1)" "I s1"
    using retry_loop_time [OF g assms(2) mono Cons.prems(1), of 1 "MessageBusError ETIMEDOUT"] by (auto simp: wait_left_1)
  show ?case
  proof (cases "?P (clock s + 120)")
    case True
    with 1 Cons.prems show ?thesis by auto
  next
    case False
    then have r1: "r1 = Inr ()" using 1(4) by simp
    have rest: "for_each (\<lambda>s t. retry_loop K (not_listed K b admin t) (MessageBusError ETIMEDOUT) [1..16] s) s1 ts = (s', r)"
      using Cons.prems(2) 1(1) r1 by simp
    note ih = Cons.IH [OF 1(6) rest]
    have "fst ` set (T (clock s1)) \<subseteq> fst ` set (T (clock s'))" using ih assms(3) by blast
    moreover have "fst ` set (T (clock s + 120)) \<subseteq> fst ` set (T (clock s1 + 120))" using 1(2) assms(3) by simp
    ultimately have "set ts \<subseteq> fst ` set (T (clock s + 120)) \<longrightarrow> r = Inr ()"
      "r = Inr () \<longrightarrow> t \<in> fst ` set (T (clock s'))" using ih 1(5) r1 by blast+
    then show ?thesis using ih 1(2,3) by auto
  qed
qed simp

text \<open>A registration that Kafka accepts waits until every message type is listed. It returns if they
  all are within 120 seconds, and then they are listed; otherwise it raises a timeout error. It
  never waits longer than 120 seconds for each type.\<close>

lemma register_waits:
  assumes "br_admin b admin_id = Some admin"
    and "kf_create_topics K admin (map (\<lambda>t. (t, partitions)) message_types) s = (s1, Inr tasks)" "\<forall>t \<in> set tasks. t = None"
    and "\<forall>s. I s \<longrightarrow> kf_list_topics K admin (br_admin_api_timeout b) s = (s, Inr (T (clock s)))"
    and "sleeps K clock I"
    and "\<forall>t t'. t \<le> t' \<longrightarrow> fst ` set (T t) \<subseteq> fst ` set (T t')"
    and "register_message_type K b admin_id message_types partitions s = (s', r)" "I s1"
  shows "clock s1 \<le> clock s' \<and> clock s' \<le> clock s1 + 120 * int (length message_types) \<and>
    (r = Inr () \<longrightarrow> set message_types \<subseteq> fst ` set (T (clock s'))) \<and>
    (r \<noteq> Inr () \<longrightarrow> r = Inl (MessageBusError ETIMEDOUT)) \<and>
    (set message_types \<subseteq> fst ` set (T (clock s1 + 120)) \<longrightarrow> r = Inr ())"
proof -
  have "task_status tasks = Inr ()" using assms(3) by (auto simp: task_status_def err_each_Inr)
  then have "for_each (\<lambda>s t. retry_loop K (not_listed K b admin t) (MessageBusError ETIMEDOUT) [1..16] s) s1 message_types = (s', r)"
    using assms(1,2,7) by (simp add: register_message_type_def the_client_def)
  then show ?thesis by (rule register_loop_time [OF assms(4-6,8)])
qed

section \<open>Deleting\<close>

lemma alter_loop_inv:
  assumes "\<And>s entries s' r. I s \<Longrightarrow> kf_alter_configs K admin topic entries s = (s', r) \<Longrightarrow> I s'"
    and "I s" "map_option fst (br_resource b) = Some topic" "alter_loop K admin val e rs (b, s) = ((b', s'), r)"
  shows "I s' \<and> map_option fst (br_resource b') = Some topic \<and> br_saved_retention b' = br_saved_retention b"
  using assms(2-4)
proof (induction rs arbitrary: b s)
  case (Cons retry rs)
  obtain es where es: "br_resource b = Some (topic, es)" using Cons.prems(2) by auto
  show ?case
  proof (cases "val b")
    case (Inl x)
    with Cons.prems es show ?thesis by (auto simp: pure_result_def)
  next
    case (Inr v)
    let ?es = "AList.update ''retention.ms'' v es" and ?b = "b\<lparr>br_resource := Some (topic, AList.update ''retention.ms'' v es)\<rparr>"
    obtain s1 r1 where a: "kf_alter_configs K admin topic ?es s = (s1, r1)" by fastforce
    have I1: "I s1" using assms(1) [OF Cons.prems(1) a] .
    show ?thesis
    proof (cases "r1 = Inr True \<and> \<not> retry > 1")
      case True
      then have "alter_loop K admin val e rs (?b, s1) = ((b', s'), r)"
        using Cons.prems(3) es Inr a by (simp add: pure_result_def set_config_def on_kafka_def Let_def)
      from Cons.IH [OF I1 _ this] show ?thesis by simp
    next
      case False
      with Cons.prems(3) es Inr a I1 show ?thesis
        by (auto simp: pure_result_def set_config_def on_kafka_def Let_def st_bind_def split: sum.splits if_splits)
    qed
  qed
qed auto

text \<open>What the code relies on when it deletes: \<open>alter_configs\<close> of a topic leaves the settings of the other
  topics, and a successful one replaces all settings of its topic by those given (so it is
  documented). Nobody else changes settings while the process sleeps. Nothing is assumed of when
  the servers remove messages.\<close>

definition alter_laws :: "('c, 's) kafka \<Rightarrow> ('s \<Rightarrow> string \<Rightarrow> string \<rightharpoonup> pyval) \<Rightarrow> bool" where
  "alter_laws K settings \<longleftrightarrow>
     (\<forall>c t es s s' r. kf_alter_configs K c t es s = (s', r) \<longrightarrow> (\<forall>u. u \<noteq> t \<longrightarrow> settings s' u = settings s u) \<and>
        (r = Inr False \<longrightarrow> settings s' t = map_of es)) \<and>
     (\<forall>n s. settings (kf_sleep K n s) = settings s)"

lemma alter_loop_sets:
  assumes "alter_laws K settings" "\<And>b'. br_saved_retention b' = br_saved_retention b \<Longrightarrow> val b' = Inr v"
    and "br_resource b = Some (topic, es)" "set es \<subseteq> {''retention.ms''} \<times> UNIV" "length es \<le> 1"
    and "alter_loop K admin val e rs (b, s) = ((b', s'), r)" "rs \<noteq> []" "last rs > 1"
  shows "(\<forall>u. u \<noteq> topic \<longrightarrow> settings s' u = settings s u) \<and> br_saved_retention b' = br_saved_retention b \<and>
    br_resource b' = Some (topic, [(''retention.ms'', v)]) \<and> (r = Inr () \<longrightarrow> settings s' topic = [''retention.ms'' \<mapsto> v])"
  using assms(2-)
proof (induction rs arbitrary: b s es)
  case (Cons retry rs)
  let ?es = "[(''retention.ms'', v)]"
  have es: "AList.update ''retention.ms'' v es = ?es" using Cons.prems(3,4) by (cases es) auto
  let ?b = "b\<lparr>br_resource := Some (topic, ?es)\<rparr>"
  obtain s1 r1 where a: "kf_alter_configs K admin topic ?es s = (s1, r1)" by fastforce
  have v: "val b = Inr v" using Cons.prems(1) by simp
  have l: "\<forall>u. u \<noteq> topic \<longrightarrow> settings s1 u = settings s u" "r1 = Inr False \<longrightarrow> settings s1 topic = map_of ?es"
    using assms(1) a unfolding alter_laws_def by blast+
  show ?case
  proof (cases "r1 = Inr True \<and> \<not> retry > 1")
    case True
    then have loop: "alter_loop K admin val e rs (?b, s1) = ((b', s'), r)" "rs \<noteq> []"
      using Cons.prems es v a by (auto simp: pure_result_def set_config_def on_kafka_def Let_def)
    with Cons.IH [OF _ _ _ _ loop(1), of ?es] Cons.prems(1,7) l(1) show ?thesis by simp
  next
    case False
    then have "(b', s', r) = (?b, s1, case r1 of Inl x \<Rightarrow> Inl x | Inr f \<Rightarrow> if f then Inl e else Inr ())"
      using Cons.prems(2,5) es v a by (auto simp: pure_result_def set_config_def on_kafka_def Let_def split: sum.splits)
    with l show ?thesis by (auto split: sum.splits if_splits)
  qed
qed simp

text \<open>What a new producer leaves: its topic as the resource, with the retention that the servers told, or seven
  days if that was 1.\<close>

definition retention_told :: "('c, 's) kafka \<Rightarrow> string \<Rightarrow> 's \<Rightarrow> int \<Rightarrow> bool" where
  "retention_told K t s saved \<longleftrightarrow> (\<exists>c s0 told v n. kf_describe_configs K c t s0 = (s, Inr told) \<and>
     map_of told ''retention.ms'' = Some v \<and> py_int v = Inr n \<and> saved = (if n = 1 then 604800000 else n))"

lemma init_producer_resource:
  assumes "init_client K ''producer'' cf bs = (bs', Inr ())" "cl_client_id cf = Some client_id" "br_producer (fst bs) client_id = None"
  shows "\<exists>t n. cl_message_type cf = Some t \<and> br_resource (fst bs') = Some (t, []) \<and> br_saved_retention (fst bs') = Some n \<and>
    retention_told K t (snd bs') n"
proof -
  have "st_bind (init_admin K client_id bs) (\<lambda>bs1 admin. init_producer K client_id cf admin bs1) = (bs', Inr ())"
    using assms by (simp add: init_client_def clients_of_def)
  then obtain bs1 admin where "init_producer K client_id cf admin bs1 = (bs', Inr ())"
    by (auto simp: st_bind_Inr)
  then show ?thesis
    by (cases bs1) (force simp: init_producer_def st_bind_Inr on_kafka_def pure_result_def conf_item_def Let_def retention_told_def
        split: option.splits prod.splits sum.splits)
qed

text \<open>Claim C19. Once a new producer of type t has been made, a deletion changes settings of t only, whatever type
  it is asked for and whether it succeeds or not. If it succeeds, the second in which the messages
  are to be removed passes while the retention of t is 1 and all others are as before, that of the type
  it was asked for as well; in the end t has the retention that the servers told when the producer was made,
  and no other setting.\<close>

theorem delete_last_producer:
  assumes "alter_laws K settings"
    and "init_client K ''producer'' cf bs = ((b1, s1), Inr ())" "cl_client_id cf = Some client_id" "br_producer (fst bs) client_id = None"
    and "broker_delete K admin_id message_type (b1, s1) = ((b2, s2), r)"
  shows "\<exists>t saved. cl_message_type cf = Some t \<and> retention_told K t s1 saved \<and>
    (\<forall>u. u \<noteq> t \<longrightarrow> settings s2 u = settings s1 u) \<and>
    (\<forall>n. r = Inr n \<longrightarrow> (\<exists>admin b s. alter_loop K admin (\<lambda>_. Inr (PInt 1)) (MessageBusError ERR_OP_FAILED) [0..2] (b1, s1) = ((b, s), Inr ()) \<and>
        alter_loop K admin saved_retention (MessageBusError ENOKEY) [0..2] (b, kf_sleep K 1 s) = ((b2, s2), Inr ()) \<and>
        settings s = (settings s1)(t := [''retention.ms'' \<mapsto> PInt 1])) \<and>
      settings s2 = (settings s1)(t := [''retention.ms'' \<mapsto> PInt saved]))"
proof -
  obtain t saved where t: "cl_message_type cf = Some t" "br_resource b1 = Some (t, [])" "br_saved_retention b1 = Some saved"
    "retention_told K t s1 saved" using init_producer_resource [OF assms(2-4)] by auto
  have rs: "[0..2] \<noteq> []" "last [0..2] > (1 :: int)" by code_simp+
  show ?thesis
  proof (cases "br_admin b1 admin_id")
    case None
    then have "s2 = s1 \<and> isl r" using assms(5) by (auto simp: broker_delete_def the_client_def)
    with t(1,4) show ?thesis by auto
  next
    case (Some admin)
    obtain b s r1 where 1: "alter_loop K admin (\<lambda>_. Inr (PInt 1)) (MessageBusError ERR_OP_FAILED) [0..2] (b1, s1) = ((b, s), r1)"
      by (metis prod.exhaust)
    have a: "\<forall>u. u \<noteq> t \<longrightarrow> settings s u = settings s1 u" "br_resource b = Some (t, [(''retention.ms'', PInt 1)])"
      "br_saved_retention b = Some saved" "r1 = Inr () \<longrightarrow> settings s t = [''retention.ms'' \<mapsto> PInt 1]"
      using alter_loop_sets [OF assms(1) _ t(2) _ _ 1 rs, of "PInt 1"] t(3) by auto
    show ?thesis
    proof (cases r1)
      case (Inl x)
      then have "s2 = s \<and> isl r" using assms(5) Some 1 by (auto simp: broker_delete_def the_client_def)
      with t(1,4) a(1) show ?thesis by auto
    next
      case (Inr u)
      obtain b3 s3 r2 where 2: "alter_loop K admin saved_retention (MessageBusError ENOKEY) [0..2] (b, kf_sleep K 1 s) = ((b3, s3), r2)"
        by (metis prod.exhaust)
      have sl: "settings (kf_sleep K 1 s) = settings s" using assms(1) by (simp add: alter_laws_def)
      have c: "\<forall>u. u \<noteq> t \<longrightarrow> settings s3 u = settings s u" "r2 = Inr () \<longrightarrow> settings s3 t = [''retention.ms'' \<mapsto> PInt saved]"
        using alter_loop_sets [OF assms(1) _ a(2) _ _ 2 rs, of "PInt saved"] a(3) sl by (auto simp: saved_retention_def)
      have e: "b2 = b3 \<and> s2 = s3 \<and> (r = Inr n \<longrightarrow> r2 = Inr ())" for n
        using assms(5) Some 1 Inr 2 by (cases r2) (auto simp: broker_delete_def the_client_def)
      have low: "settings s = (settings s1)(t := [''retention.ms'' \<mapsto> PInt 1])" using a(1,4) Inr by (auto simp: fun_eq_iff)
      have ok: "alter_loop K admin (\<lambda>_. Inr (PInt 1)) (MessageBusError ERR_OP_FAILED) [0..2] (b1, s1) = ((b, s), Inr ()) \<and>
          alter_loop K admin saved_retention (MessageBusError ENOKEY) [0..2] (b, kf_sleep K 1 s) = ((b2, s2), Inr ()) \<and>
          settings s2 = (settings s1)(t := [''retention.ms'' \<mapsto> PInt saved])" if "r = Inr n" for n
        using 1 2 Inr a(1) c e [of n] that by (auto simp: fun_eq_iff)
      have "\<forall>u. u \<noteq> t \<longrightarrow> settings s2 u = settings s1 u" using a(1) c(1) e by simp
      note frame = this
      have "\<exists>admin b s. alter_loop K admin (\<lambda>_. Inr (PInt 1)) (MessageBusError ERR_OP_FAILED) [0..2] (b1, s1) = ((b, s), Inr ()) \<and>
          alter_loop K admin saved_retention (MessageBusError ENOKEY) [0..2] (b, kf_sleep K 1 s) = ((b2, s2), Inr ()) \<and>
          settings s = (settings s1)(t := [''retention.ms'' \<mapsto> PInt 1])" if "r = Inr n" for n
        by (rule exI [of _ admin], rule exI [of _ b], rule exI [of _ s]) (use ok [OF that] low in simp)
      with t(1,4) frame ok show ?thesis by (intro exI [of _ t] exI [of _ saved] conjI allI impI) simp_all
    qed
  qed
qed

section \<open>Receiving\<close>

text \<open>The state after \<open>n\<close> polls, and what the next poll gives.\<close>

fun after_polls :: "('c, 's) kafka \<Rightarrow> 'c \<Rightarrow> pyval \<Rightarrow> 's \<Rightarrow> nat \<Rightarrow> 's" where
  "after_polls K c t s 0 = s"
| "after_polls K c t s (Suc n) = after_polls K c t (fst (kf_poll K c t s)) n"

abbreviation poll_result :: "('c, 's) kafka \<Rightarrow> 'c \<Rightarrow> pyval \<Rightarrow> 's \<Rightarrow> nat \<Rightarrow> pyexc + polled" where
  "poll_result K c t s n \<equiv> snd (kf_poll K c t (after_polls K c t s n))"

text \<open>What \<open>receive\<close> makes of a poll that is not empty.\<close>

definition poll_outcome :: "pyexc + polled \<Rightarrow> pyexc + string option" where
  "poll_outcome r = (case r of
      Inl e \<Rightarrow> Inl (if e = KeyboardInterrupt then MessageBusError EINTR else e)
    | Inr NoMessage \<Rightarrow> Inr None
    | Inr ErrorMessage \<Rightarrow> Inl (MessageBusError ERR_OP_FAILED)
    | Inr (MessageValue v) \<Rightarrow> Inr (Some v))"

lemma receive_loop_once:
  "poll_result K c t s 0 \<noteq> Inr NoMessage \<or> \<not> blocking \<Longrightarrow>
    receive_loop K c t blocking s = Some (fst (kf_poll K c t s), poll_outcome (poll_result K c t s 0))"
  by (subst receive_loop.simps) (auto simp: poll_outcome_def split: prod.splits sum.splits polled.splits)

lemma receive_loop_first:
  assumes "\<forall>i < n. poll_result K c t s i = Inr NoMessage" "poll_result K c t s n \<noteq> Inr NoMessage"
  shows "receive_loop K c t True s = Some (after_polls K c t s (Suc n), poll_outcome (poll_result K c t s n))"
  using assms
proof (induction n arbitrary: s)
  case 0
  then show ?case using receive_loop_once [of K c t s True] by simp
next
  case (Suc n)
  obtain s1 where s1: "kf_poll K c t s = (s1, Inr NoMessage)"
    using Suc.prems(1) [rule_format, of 0] by (cases "kf_poll K c t s") auto
  have "receive_loop K c t True s = receive_loop K c t True s1" by (subst receive_loop.simps) (simp add: s1)
  also have "\<dots> = Some (after_polls K c t s1 (Suc n), poll_outcome (poll_result K c t s1 n))"
    by (rule Suc.IH) (use Suc.prems s1 in \<open>auto dest: spec [of _ "Suc _"]\<close>)
  finally show ?case by (simp add: s1)
qed

lemma receive_loop_ends:
  assumes "receive_loop K c t True s = Some y"
  shows "\<exists>n. poll_result K c t s n \<noteq> Inr NoMessage"
proof -
  have "True \<longrightarrow> (\<exists>n. poll_result K c t s n \<noteq> Inr NoMessage)"
  proof (rule receive_loop.raw_induct [where P = "\<lambda>K c t b s y. b \<longrightarrow> (\<exists>n. poll_result K c t s n \<noteq> Inr NoMessage)"])
    fix rl K c t b s y
    assume ih: "\<And>K c t b s y. rl K c t b s = Some y \<Longrightarrow> b \<longrightarrow> (\<exists>n. poll_result K c t s n \<noteq> Inr NoMessage)"
      and y: "(case kf_poll K c t s of
          (s1, Inl e) \<Rightarrow> Some (s1, Inl (if e = KeyboardInterrupt then MessageBusError EINTR else e))
        | (s1, Inr NoMessage) \<Rightarrow> if \<not> b then Some (s1, Inr None) else rl K c t b s1
        | (s1, Inr ErrorMessage) \<Rightarrow> Some (s1, Inl (MessageBusError ERR_OP_FAILED))
        | (s1, Inr (MessageValue v)) \<Rightarrow> Some (s1, Inr (Some v))) = Some y"
    show "b \<longrightarrow> (\<exists>n. poll_result K c t s n \<noteq> Inr NoMessage)"
    proof
      assume b
      show "\<exists>n. poll_result K c t s n \<noteq> Inr NoMessage"
      proof (cases "snd (kf_poll K c t s) = Inr NoMessage")
        case True
        then obtain s1 where s1: "kf_poll K c t s = (s1, Inr NoMessage)" by (cases "kf_poll K c t s") auto
        with y \<open>b\<close> have "rl K c t b s1 = Some y" by simp
        with ih \<open>b\<close> obtain n where "poll_result K c t s1 n \<noteq> Inr NoMessage" by blast
        then have "poll_result K c t s (Suc n) \<noteq> Inr NoMessage" by (simp add: s1)
        then show ?thesis by blast
      next
        case False
        then show ?thesis by (auto intro!: exI [of _ 0])
      qed
    qed
  qed (rule assms)
  then show ?thesis by simp
qed

text \<open>Claim C36. A receive with timeout 0 gives what the first poll that is not empty gives: the value of the
  message, or an error. It does not return if all polls are empty. A receive with another timeout polls
  once.\<close>

theorem receive_blocks:
  assumes "br_consumer b consumer_id = Some c" "timeout \<noteq> PNone" "\<not> py_eq timeout (PInt 0)"
  shows "broker_receive K b consumer_id (PInt 0) s =
      (if \<exists>n. poll_result K c (br_receive_timeout b) s n \<noteq> Inr NoMessage
       then let n = (LEAST n. poll_result K c (br_receive_timeout b) s n \<noteq> Inr NoMessage) in
         Some (after_polls K c (br_receive_timeout b) s (Suc n), poll_outcome (poll_result K c (br_receive_timeout b) s n))
       else None) \<and>
    broker_receive K b consumer_id timeout s = Some (after_polls K c timeout s 1, poll_outcome (poll_result K c timeout s 0))"
proof -
  let ?t = "br_receive_timeout b"
  have r: "broker_receive K b consumer_id (PInt 0) s = receive_loop K c ?t True s"
    "broker_receive K b consumer_id timeout s = receive_loop K c timeout False s"
    using assms by (simp_all add: broker_receive_def the_client_def Let_def)
  have "receive_loop K c ?t True s = (let n = (LEAST n. poll_result K c ?t s n \<noteq> Inr NoMessage) in
      Some (after_polls K c ?t s (Suc n), poll_outcome (poll_result K c ?t s n)))" if "\<exists>n. poll_result K c ?t s n \<noteq> Inr NoMessage"
  proof -
    let ?n = "LEAST n. poll_result K c ?t s n \<noteq> Inr NoMessage"
    have "poll_result K c ?t s ?n \<noteq> Inr NoMessage" using that by (rule LeastI_ex)
    moreover have "\<forall>i < ?n. poll_result K c ?t s i = Inr NoMessage" using not_less_Least by blast
    ultimately show ?thesis using receive_loop_first [of ?n K c ?t s] by (simp add: Let_def)
  qed
  moreover have "receive_loop K c ?t True s = None" if "\<not> (\<exists>n. poll_result K c ?t s n \<noteq> Inr NoMessage)"
    using receive_loop_ends [of K c ?t s] that by (cases "receive_loop K c ?t True s") blast+
  moreover have "receive_loop K c timeout False s = Some (after_polls K c timeout s 1, poll_outcome (poll_result K c timeout s 0))"
    using receive_loop_once [of K c "timeout" s False] by simp
  ultimately show ?thesis unfolding r by presburger
qed

section \<open>A server in memory\<close>

text \<open>A Kafka server small enough to evaluate: a topic is listed two seconds after it was created, the
  messages of a topic with retention 1 are gone at the next sleep, and a client is known by its id.\<close>

record mem_server =
  ms_clock :: int
  ms_topics :: "(string \<times> int) list"
  ms_msgs :: "string \<Rightarrow> string list"
  ms_conf :: "string \<Rightarrow> string \<rightharpoonup> pyval"
  ms_sub :: "string \<Rightarrow> string list"
  ms_pos :: "string \<Rightarrow> nat"

definition mem_client :: "pydict \<Rightarrow> mem_server \<Rightarrow> mem_server \<times> (pyexc + string)" where
  "mem_client conf s = (s, case map_of conf ''client.id'' of Some (PStr c) \<Rightarrow> Inr c | _ \<Rightarrow> Inl KeyError)"

definition mem_poll :: "string \<Rightarrow> pyval \<Rightarrow> mem_server \<Rightarrow> mem_server \<times> (pyexc + polled)" where
  "mem_poll c t s = (let ms = concat (map (ms_msgs s) (ms_sub s c)); i = ms_pos s c in
     if i < length ms then (s\<lparr>ms_pos := (ms_pos s)(c := Suc i)\<rparr>, Inr (MessageValue (ms ! i))) else (s, Inr NoMessage))"

definition mem_kafka :: "(string, mem_server) kafka" where
  "mem_kafka = \<lparr>kf_AdminClient = mem_client, kf_Producer = mem_client, kf_Consumer = mem_client,
     kf_list_topics = (\<lambda>c t s. (s, Inr (map (\<lambda>x. (fst x, 1)) (filter (\<lambda>x. snd x \<le> ms_clock s) (ms_topics s))))),
     kf_create_topics = (\<lambda>c ts s. (s\<lparr>ms_topics := map (\<lambda>x. (fst x, ms_clock s + 2)) ts @ ms_topics s\<rparr>, Inr (map (\<lambda>_. None) ts))),
     kf_delete_topics = (\<lambda>c ts s. (s\<lparr>ms_topics := filter (\<lambda>x. fst x \<notin> set ts) (ms_topics s)\<rparr>, Inr (map (\<lambda>_. None) ts))),
     kf_create_partitions = (\<lambda>c ts s. (s, Inr (map (\<lambda>_. None) ts))),
     kf_describe_configs = (\<lambda>c t s. (s, Inr (case ms_conf s t ''retention.ms'' of None \<Rightarrow> [] | Some v \<Rightarrow> [(''retention.ms'', v)]))),
     kf_alter_configs = (\<lambda>c t es s. (s\<lparr>ms_conf := (ms_conf s)(t := map_of es)\<rparr>, Inr False)),
     kf_subscribe = (\<lambda>c ts s. (s\<lparr>ms_sub := (ms_sub s)(c := ts)\<rparr>, Inr ())),
     kf_produce = (\<lambda>c t m s. (s\<lparr>ms_msgs := (ms_msgs s)(t := ms_msgs s t @ [m])\<rparr>, Inr ())),
     kf_flush = (\<lambda>c s. (s, Inr [])), kf_serve = (\<lambda>c t s. (s, Inr [])), kf_poll = mem_poll, kf_commit = (\<lambda>c s. (s, Inr ())),
     kf_sleep = (\<lambda>n s. s\<lparr>ms_clock := ms_clock s + n, ms_msgs := (\<lambda>t. if ms_conf s t ''retention.ms'' = Some (PInt 1) then [] else ms_msgs s t)\<rparr>)\<rparr>"

definition mem_start :: mem_server where
  "mem_start = \<lparr>ms_clock = 0, ms_topics = [], ms_msgs = (\<lambda>t. if t = ''a'' then [''m''] else if t = ''b'' then [''n''] else []),
     ms_conf = (\<lambda>_. [''retention.ms'' \<mapsto> PInt 5000]), ms_sub = (\<lambda>_. []), ms_pos = (\<lambda>_. 0)\<rparr>"

definition mem_broker :: "string broker" where
  "mem_broker = \<lparr>br_servers = ''h:9092'', br_admin = [''x'' \<mapsto> ''x''], br_producer = Map.empty, br_consumer = [''y'' \<mapsto> ''y''],
     br_receive_timeout = PInt 2, br_socket_timeout = PInt 15000, br_send_timeout = PInt 5000, br_admin_api_timeout = PInt 60,
     br_resource = None, br_saved_retention = None\<rparr>"

definition producer_conf :: "string \<Rightarrow> string \<Rightarrow> client_conf" where
  "producer_conf i t = \<lparr>cl_client_id = Some i, cl_message_type = Some t, cl_method = Some (Some ''sync''), cl_message_types = None,
     cl_consumer_group = None, cl_auto_ack = None, cl_offset = None\<rparr>"

theorem register_waits_witness:
  "snd (register_message_type mem_kafka mem_broker ''x'' [''a'', ''c''] 1 mem_start) = Inr ()"
proof -
  obtain s' r where r: "register_message_type mem_kafka mem_broker ''x'' [''a'', ''c''] 1 mem_start = (s', r)" by fastforce
  let ?s1 = "mem_start\<lparr>ms_topics := [(''a'', 2), (''c'', 2)]\<rparr>"
  let ?I = "\<lambda>s. ms_topics s = [(''a'', 2), (''c'', 2)]"
  let ?T = "\<lambda>t. if t < 2 then [] else [(''a'', 1), (''c'', 1)] :: (string \<times> int) list"
  have "r = Inr ()"
    using register_waits [where T = ?T and clock = ms_clock and I = ?I, OF _ _ _ _ _ _ r, of "''x''" ?s1 "[None, None]"]
    by (simp add: mem_broker_def mem_kafka_def mem_start_def sleeps_def)
  with r show ?thesis by simp
qed

lemma mem_alter: "alter_laws mem_kafka ms_conf"
  by (auto simp: alter_laws_def mem_kafka_def)

text \<open>Asked to delete the messages of a, after a producer of b was made.\<close>

theorem delete_last_producer_witness:
  "\<exists>b1 s1 b2 s2. init_client mem_kafka ''producer'' (producer_conf ''p'' ''b'') (mem_broker, mem_start) = ((b1, s1), Inr ()) \<and>
     broker_delete mem_kafka ''x'' ''a'' (b1, s1) = ((b2, s2), Inr 0) \<and> ms_conf s2 ''a'' = ms_conf s1 ''a'' \<and>
     (\<exists>n. ms_conf s2 ''b'' = [''retention.ms'' \<mapsto> PInt n])"
proof -
  let ?i = "init_client mem_kafka ''producer'' (producer_conf ''p'' ''b'') (mem_broker, mem_start)"
  obtain b1 s1 where i: "?i = ((b1, s1), Inr ())" "s1 = mem_start" "br_admin b1 ''x'' = Some ''x''"
    "br_resource b1 = Some (''b'', [])" "br_saved_retention b1 = Some 5000"
    by (simp add: init_client_def clients_of_def producer_conf_def mem_broker_def mem_kafka_def mem_start_def init_admin_def on_kafka_def
        init_producer_def mem_client_def admin_conf_def kafka_conf_def pure_result_def conf_item_def)
  have up: "[0..2] = [0, 1, 2 :: int]" by code_simp
  obtain b2 s2 where d: "broker_delete mem_kafka ''x'' ''a'' (b1, s1) = ((b2, s2), Inr 0)"
    by (simp add: i broker_delete_def the_client_def up pure_result_def set_config_def on_kafka_def mem_kafka_def saved_retention_def Let_def)
  have p: "cl_client_id (producer_conf ''p'' ''b'') = Some ''p''" "br_producer (fst (mem_broker, mem_start)) ''p'' = None"
    "cl_message_type (producer_conf ''p'' ''b'') = Some ''b''" by (simp_all add: producer_conf_def mem_broker_def)
  obtain saved where "\<forall>u. u \<noteq> ''b'' \<longrightarrow> ms_conf s2 u = ms_conf s1 u" "ms_conf s2 = (ms_conf s1)(''b'' := [''retention.ms'' \<mapsto> PInt saved])"
    using delete_last_producer [OF mem_alter i(1) p(1,2) d] p(3) by auto
  then have "ms_conf s2 ''a'' = ms_conf s1 ''a''" "ms_conf s2 ''b'' = [''retention.ms'' \<mapsto> PInt saved]" by simp_all
  with i(1) d show ?thesis by blast
qed

theorem receive_blocks_witness:
  "\<exists>s. broker_receive mem_kafka mem_broker ''y'' (PInt 0) (mem_start\<lparr>ms_sub := (\<lambda>_. [''b''])\<rparr>) = Some (s, Inr (Some ''n''))"
proof -
  let ?s = "mem_start\<lparr>ms_sub := (\<lambda>_. [''b''])\<rparr>"
  let ?P = "\<lambda>n. poll_result mem_kafka ''y'' (br_receive_timeout mem_broker) ?s n \<noteq> Inr NoMessage"
  have p: "poll_result mem_kafka ''y'' (br_receive_timeout mem_broker) ?s 0 = Inr (MessageValue ''n'')"
    by (simp add: mem_kafka_def mem_poll_def mem_start_def)
  then have "?P 0" by simp
  then have "(LEAST n. ?P n) = 0" "\<exists>n. ?P n" by (auto intro!: Least_equality simp del: after_polls.simps)
  with p receive_blocks [of mem_broker "''y''" "''y''" "PInt 1" mem_kafka ?s] show ?thesis
    by (simp add: mem_broker_def poll_outcome_def Let_def)
qed

end
