(* ===== verification/MessageBus.thy ===== *)
theory MessageBus
  imports MessageBroker ConfApi JsonDumps
begin

text \<open>
  The message bus of src/py-utils/src/utils/message_bus: MessageBus (message_bus.py) with the cache
  of brokers of MessageBrokerFactory (message_broker.py), and its clients
  (message_bus_client.py). The settings pass through the process-wide configuration, the
  class Conf of the theory ConfApi.
\<close>

section \<open>MessageBus\<close>

text \<open>The brokers of the factory by their types, and the type of the one that MessageBus uses: the
  two classes refer to the same object.\<close>

record ('c, 's, 'f) bus =
  mb_conf :: 'f
  mb_brokers :: "string \<rightharpoonup> 'c broker"
  mb_broker :: "string option"
  mb_kafka :: 's

type_synonym ('c, 's, 'b, 'h, 'p) conf_bus = "('c, 's, ('b, 'h, 'p) conf_class) bus"

text \<open>The one class that \<open>inspect.getmembers\<close> finds is KafkaMessageBroker.\<close>

definition broker_instance :: "string \<Rightarrow> pyval \<Rightarrow> ('c, 's, 'f) bus \<Rightarrow> ('c, 's, 'f) bus \<times> (pyexc + string)" where
  "broker_instance broker_type broker_conf mb =
     (if mb_brokers mb broker_type \<noteq> None then (mb, Inr broker_type)
      else if broker_type = ''kafka'' then (case KafkaMessageBroker_init broker_conf of
          Inl e \<Rightarrow> (mb, Inl e)
        | Inr b \<Rightarrow> (mb\<lparr>mb_brokers := (mb_brokers mb)(broker_type \<mapsto> b)\<rparr>, Inr broker_type))
      else (mb, Inl (MessageBusError ERR_INVALID_SERVICE_NAME)))"

record bus_params =
  bp_broker_type :: "string option"
  bp_receive_timeout :: "pyval option"
  bp_socket_timeout :: "pyval option"
  bp_send_timeout :: "pyval option"
  bp_admin_api_timeout :: "pyval option"

definition no_params :: bus_params where
  "no_params = \<lparr>bp_broker_type = None, bp_receive_timeout = None, bp_socket_timeout = None, bp_send_timeout = None,
     bp_admin_api_timeout = None\<rparr>"

definition or_default :: "'a \<Rightarrow> 'a option \<Rightarrow> 'a" where
  "or_default d v = (case v of None \<Rightarrow> d | Some a \<Rightarrow> a)"

abbreviation utils_index :: string where "utils_index \<equiv> ''utils_ind''"

definition bus_settings :: "bus_params \<Rightarrow> pyval list \<Rightarrow> (string \<times> pyval) list" where
  "bus_settings params endpoints = [
     (''message_broker>type'', PStr (or_default ''kafka'' (bp_broker_type params))),
     (''message_broker>cluster'', PList endpoints),
     (''message_broker>message_bus>receive_timeout'', or_default (PInt 2) (bp_receive_timeout params)),
     (''message_broker>message_bus>socket_timeout'', or_default (PInt 15000) (bp_socket_timeout params)),
     (''message_broker>message_bus>send_timeout'', or_default (PInt 5000) (bp_send_timeout params)),
     (''message_broker>message_bus>admin_api_timeout'', or_default (PInt 60) (bp_admin_api_timeout params))]"

definition on_conf_of :: "('f \<Rightarrow> 'f \<times> (pyexc + 'a)) \<Rightarrow> ('c, 's, 'f) bus \<Rightarrow> ('c, 's, 'f) bus \<times> (pyexc + 'a)" where
  "on_conf_of f mb = (case f (mb_conf mb) of (cf, r) \<Rightarrow> (mb\<lparr>mb_conf := cf\<rparr>, r))"

definition bus_init :: "'p payload_class \<Rightarrow> ('b, 'h, 'p) backend \<Rightarrow> pyval \<Rightarrow> bus_params \<Rightarrow>
    ('c, 's, 'b, 'h, 'p) conf_bus \<Rightarrow> ('c, 's, 'b, 'h, 'p) conf_bus \<times> (pyexc + unit)" where
  "bus_init P B message_server_endpoints params mb =
     st_bind (on_conf_of (\<lambda>cf. Conf_load B cf utils_index ''dict:{}'' (PBool True) [(''skip_reload'', PBool True)]) mb) (\<lambda>mb1 _.
     st_bind (mb1, get_server_list message_server_endpoints) (\<lambda>mb2 endpoints.
     st_bind (on_conf_of (\<lambda>cf. for_each (\<lambda>cf kv. Conf_set P cf utils_index (fst kv) (snd kv)) cf (bus_settings params endpoints)) mb2) (\<lambda>mb3 _.
     st_bind (on_conf_of (\<lambda>cf. Conf_save B cf utils_index) mb3) (\<lambda>mb4 _.
     st_bind (on_conf_of (\<lambda>cf. Conf_get P cf utils_index (Some ''message_broker'') PNone) mb4) (\<lambda>mb5 broker_conf.
     if broker_conf = PNone then (mb5, Inl (MessageBusError EINVAL))
     else st_bind (broker_instance (or_default ''kafka'' (bp_broker_type params)) broker_conf mb5) (\<lambda>mb6 t.
       (mb6\<lparr>mb_broker := Some t\<rparr>, Inr ())))))))"

text \<open>A call on the broker. Before \<open>init\<close> it is None, which has no such attribute; only \<open>init_client\<close>
  tests for that.\<close>

definition the_broker :: "('c, 's, 'f) bus \<Rightarrow> pyexc + 'c broker" where
  "the_broker mb = (case mb_broker mb of None \<Rightarrow> Inl AttributeError | Some t \<Rightarrow>
     (case mb_brokers mb t of None \<Rightarrow> Inl AttributeError | Some b \<Rightarrow> Inr b))"

definition with_broker :: "('c broker \<Rightarrow> 's \<Rightarrow> 's \<times> (pyexc + 'a)) \<Rightarrow> ('c, 's, 'f) bus \<Rightarrow> ('c, 's, 'f) bus \<times> (pyexc + 'a)" where
  "with_broker f mb = st_bind (mb, the_broker mb) (\<lambda>mb b. case f b (mb_kafka mb) of (s, r) \<Rightarrow> (mb\<lparr>mb_kafka := s\<rparr>, r))"

definition change_broker :: "('c broker \<times> 's \<Rightarrow> ('c broker \<times> 's) \<times> (pyexc + 'a)) \<Rightarrow> ('c, 's, 'f) bus \<Rightarrow> ('c, 's, 'f) bus \<times> (pyexc + 'a)" where
  "change_broker f mb = st_bind (mb, the_broker mb) (\<lambda>mb b. case f (b, mb_kafka mb) of
      ((b1, s), r) \<Rightarrow> (mb\<lparr>mb_kafka := s, mb_brokers := (mb_brokers mb)(the (mb_broker mb) \<mapsto> b1)\<rparr>, r))"

definition bus_init_client :: "('c, 's) kafka \<Rightarrow> string \<Rightarrow> client_conf \<Rightarrow> ('c, 's, 'f) bus \<Rightarrow> ('c, 's, 'f) bus \<times> (pyexc + unit)" where
  "bus_init_client K client_type cf mb = (if mb_broker mb = None then (mb, Inl (MessageBusError ERR_NOT_INITIALIZED))
     else change_broker (init_client K client_type cf) mb)"

definition bus_list_message_types :: "('c, 's) kafka \<Rightarrow> string \<Rightarrow> ('c, 's, 'f) bus \<Rightarrow> ('c, 's, 'f) bus \<times> (pyexc + string list)" where
  "bus_list_message_types K client_id = with_broker (\<lambda>b. list_message_types K b client_id)"

definition bus_register :: "('c, 's) kafka \<Rightarrow> string \<Rightarrow> string list \<Rightarrow> int \<Rightarrow> ('c, 's, 'f) bus \<Rightarrow> ('c, 's, 'f) bus \<times> (pyexc + unit)" where
  "bus_register K client_id message_types partitions = with_broker (\<lambda>b. register_message_type K b client_id message_types partitions)"

definition bus_deregister :: "('c, 's) kafka \<Rightarrow> string \<Rightarrow> string list \<Rightarrow> ('c, 's, 'f) bus \<Rightarrow> ('c, 's, 'f) bus \<times> (pyexc + unit)" where
  "bus_deregister K client_id message_types = with_broker (\<lambda>b. deregister_message_type K b client_id message_types)"

definition bus_add_concurrency :: "('c, 's) kafka \<Rightarrow> string \<Rightarrow> string \<Rightarrow> int \<Rightarrow> ('c, 's, 'f) bus \<Rightarrow> ('c, 's, 'f) bus \<times> (pyexc + unit)" where
  "bus_add_concurrency K client_id message_type n = with_broker (\<lambda>b. add_concurrency K b client_id message_type n)"

definition bus_send :: "('c, 's) kafka \<Rightarrow> string \<Rightarrow> string \<Rightarrow> string option \<Rightarrow> string list \<Rightarrow> ('c, 's, 'f) bus \<Rightarrow> ('c, 's, 'f) bus \<times> (pyexc + unit)" where
  "bus_send K client_id message_type method messages = with_broker (\<lambda>b. broker_send K b client_id message_type method messages)"

definition bus_delete :: "('c, 's) kafka \<Rightarrow> string \<Rightarrow> string \<Rightarrow> ('c, 's, 'f) bus \<Rightarrow> ('c, 's, 'f) bus \<times> (pyexc + int)" where
  "bus_delete K client_id message_type = change_broker (broker_delete K client_id message_type)"

definition bus_receive :: "('c, 's) kafka \<Rightarrow> string \<Rightarrow> pyval \<Rightarrow> ('c, 's, 'f) bus \<Rightarrow> (('c, 's, 'f) bus \<times> (pyexc + string option)) option" where
  "bus_receive K client_id timeout mb = (case the_broker mb of
      Inl e \<Rightarrow> Some (mb, Inl e)
    | Inr b \<Rightarrow> map_option (\<lambda>(s, r). (mb\<lparr>mb_kafka := s\<rparr>, r)) (broker_receive K b client_id timeout (mb_kafka mb)))"

definition bus_ack :: "('c, 's) kafka \<Rightarrow> string \<Rightarrow> ('c, 's, 'f) bus \<Rightarrow> ('c, 's, 'f) bus \<times> (pyexc + unit)" where
  "bus_ack K client_id = with_broker (\<lambda>b. broker_ack K b client_id)"

definition bus_set_expire :: "('c, 's) kafka \<Rightarrow> string \<Rightarrow> string \<Rightarrow> pydict \<Rightarrow> ('c, 's, 'f) bus \<Rightarrow> ('c, 's, 'f) bus \<times> (pyexc + int)" where
  "bus_set_expire K client_id message_type kwargs = with_broker (\<lambda>b. set_message_type_expire K b client_id message_type kwargs)"

section \<open>MessageBusClient\<close>

text \<open>A client is the configuration that its class passes on.\<close>

definition MessageBusClient :: "('c, 's) kafka \<Rightarrow> string \<Rightarrow> client_conf \<Rightarrow> ('c, 's, 'f) bus \<Rightarrow> ('c, 's, 'f) bus \<times> (pyexc + client_conf)" where
  "MessageBusClient K client_type cf mb = st_bind (bus_init_client K client_type cf mb) (\<lambda>mb1 _. (mb1, Inr cf))"

definition MessageBusAdmin :: "string \<Rightarrow> client_conf" where
  "MessageBusAdmin admin_id = \<lparr>cl_client_id = Some admin_id, cl_message_type = None, cl_method = None, cl_message_types = None,
     cl_consumer_group = None, cl_auto_ack = None, cl_offset = None\<rparr>"

definition MessageProducer :: "string \<Rightarrow> string \<Rightarrow> string option \<Rightarrow> client_conf" where
  "MessageProducer producer_id message_type method = \<lparr>cl_client_id = Some producer_id, cl_message_type = Some message_type,
     cl_method = Some method, cl_message_types = None, cl_consumer_group = None, cl_auto_ack = None, cl_offset = None\<rparr>"

definition MessageConsumer :: "string \<Rightarrow> pyval \<Rightarrow> pyval \<Rightarrow> string list \<Rightarrow> pyval \<Rightarrow> client_conf" where
  "MessageConsumer consumer_id consumer_group auto_ack message_types offset = \<lparr>cl_client_id = Some consumer_id, cl_message_type = None,
     cl_method = None, cl_message_types = Some message_types, cl_consumer_group = Some consumer_group, cl_auto_ack = Some auto_ack,
     cl_offset = Some offset\<rparr>"

definition get_conf :: "'a option \<Rightarrow> pyexc + 'a" where
  "get_conf v = (case v of None \<Rightarrow> Inl (MessageBusError ENOENT) | Some a \<Rightarrow> Inr a)"

text \<open>A method that reads the client id and then calls the bus.\<close>

definition with_id :: "client_conf \<Rightarrow> (string \<Rightarrow> ('c, 's, 'f) bus \<Rightarrow> ('c, 's, 'f) bus \<times> (pyexc + 'a)) \<Rightarrow> ('c, 's, 'f) bus \<Rightarrow>
    ('c, 's, 'f) bus \<times> (pyexc + 'a)" where
  "with_id cf f mb = st_bind (mb, get_conf (cl_client_id cf)) (\<lambda>mb client_id. f client_id mb)"

definition client_list_message_types :: "('c, 's) kafka \<Rightarrow> client_conf \<Rightarrow> ('c, 's, 'f) bus \<Rightarrow> ('c, 's, 'f) bus \<times> (pyexc + string list)" where
  "client_list_message_types K cf = with_id cf (bus_list_message_types K)"

definition client_register :: "('c, 's) kafka \<Rightarrow> client_conf \<Rightarrow> string list \<Rightarrow> int \<Rightarrow> ('c, 's, 'f) bus \<Rightarrow> ('c, 's, 'f) bus \<times> (pyexc + unit)" where
  "client_register K cf message_types partitions = with_id cf (\<lambda>i. bus_register K i message_types partitions)"

definition client_deregister :: "('c, 's) kafka \<Rightarrow> client_conf \<Rightarrow> string list \<Rightarrow> ('c, 's, 'f) bus \<Rightarrow> ('c, 's, 'f) bus \<times> (pyexc + unit)" where
  "client_deregister K cf message_types = with_id cf (\<lambda>i. bus_deregister K i message_types)"

definition client_add_concurrency :: "('c, 's) kafka \<Rightarrow> client_conf \<Rightarrow> string \<Rightarrow> int \<Rightarrow> ('c, 's, 'f) bus \<Rightarrow> ('c, 's, 'f) bus \<times> (pyexc + unit)" where
  "client_add_concurrency K cf message_type n = with_id cf (\<lambda>i. bus_add_concurrency K i message_type n)"

datatype message = PayloadMessage kv_payload | StrMessage string | OtherMessage

definition str_message :: "message \<Rightarrow> pyexc + string" where
  "str_message m = (case m of PayloadMessage p \<Rightarrow> Inr (json_dumps (kp_data p)) | StrMessage s \<Rightarrow> Inr s
     | OtherMessage \<Rightarrow> Inl (MessageBusError EINVAL))"

definition get_str_message_list :: "message list \<Rightarrow> pyexc + string list" where
  "get_str_message_list messages = err_map str_message messages"

definition client_send :: "('c, 's) kafka \<Rightarrow> client_conf \<Rightarrow> message list \<Rightarrow> ('c, 's, 'f) bus \<Rightarrow> ('c, 's, 'f) bus \<times> (pyexc + unit)" where
  "client_send K cf messages mb = st_bind (mb, get_conf (cl_message_type cf)) (\<lambda>mb message_type.
     st_bind (mb, get_conf (cl_method cf)) (\<lambda>mb method.
     st_bind (mb, get_conf (cl_client_id cf)) (\<lambda>mb client_id.
     st_bind (mb, get_str_message_list messages) (\<lambda>mb texts. bus_send K client_id message_type method texts mb))))"

definition client_delete :: "('c, 's) kafka \<Rightarrow> client_conf \<Rightarrow> ('c, 's, 'f) bus \<Rightarrow> ('c, 's, 'f) bus \<times> (pyexc + int)" where
  "client_delete K cf mb = st_bind (mb, get_conf (cl_message_type cf)) (\<lambda>mb message_type.
     with_id cf (\<lambda>i. bus_delete K i message_type) mb)"

definition client_set_expire :: "('c, 's) kafka \<Rightarrow> client_conf \<Rightarrow> string \<Rightarrow> pydict \<Rightarrow> ('c, 's, 'f) bus \<Rightarrow> ('c, 's, 'f) bus \<times> (pyexc + int)" where
  "client_set_expire K cf message_type kwargs = with_id cf (\<lambda>i. bus_set_expire K i message_type kwargs)"

definition client_receive :: "('c, 's) kafka \<Rightarrow> client_conf \<Rightarrow> pyval \<Rightarrow> ('c, 's, 'f) bus \<Rightarrow> (('c, 's, 'f) bus \<times> (pyexc + string option)) option" where
  "client_receive K cf timeout mb = (case get_conf (cl_client_id cf) of
      Inl e \<Rightarrow> Some (mb, Inl e)
    | Inr client_id \<Rightarrow> bus_receive K client_id timeout mb)"

definition client_ack :: "('c, 's) kafka \<Rightarrow> client_conf \<Rightarrow> ('c, 's, 'f) bus \<Rightarrow> ('c, 's, 'f) bus \<times> (pyexc + unit)" where
  "client_ack K cf = with_id cf (bus_ack K)"

section \<open>The settings in the configuration\<close>

lemma kv_set_leaf:
  assumes "split1 c key = (key, None)" "length (key_index_split key) \<le> 1"
  shows "kv_set c key v (PDict d) = (PDict (AList.update key v d), None)"
  using assms by (subst kv_set.simps) (simp add: Let_def)

lemma kv_set_sub:
  assumes "split1 c key = (k, Some r)" "length (key_index_split k) \<le> 1"
    and "(case map_of d k of None \<Rightarrow> PDict [] | Some w \<Rightarrow> w) = PDict d'" "kv_set c r v (PDict d') = (s, e)"
  shows "kv_set c key v (PDict d) = (PDict (AList.update k s d), e)"
  using assms by (subst kv_set.simps) (auto simp: Let_def split: option.splits)

lemma bus_keys:
  "split1 (CHR ''>'') ''message_broker>type'' = (''message_broker'', Some ''type'')"
  "split1 (CHR ''>'') ''message_broker>cluster'' = (''message_broker'', Some ''cluster'')"
  "split1 (CHR ''>'') ''message_broker>message_bus>receive_timeout'' = (''message_broker'', Some ''message_bus>receive_timeout'')"
  "split1 (CHR ''>'') ''message_broker>message_bus>socket_timeout'' = (''message_broker'', Some ''message_bus>socket_timeout'')"
  "split1 (CHR ''>'') ''message_broker>message_bus>send_timeout'' = (''message_broker'', Some ''message_bus>send_timeout'')"
  "split1 (CHR ''>'') ''message_broker>message_bus>admin_api_timeout'' = (''message_broker'', Some ''message_bus>admin_api_timeout'')"
  "split1 (CHR ''>'') ''message_bus>receive_timeout'' = (''message_bus'', Some ''receive_timeout'')"
  "split1 (CHR ''>'') ''message_bus>socket_timeout'' = (''message_bus'', Some ''socket_timeout'')"
  "split1 (CHR ''>'') ''message_bus>send_timeout'' = (''message_bus'', Some ''send_timeout'')"
  "split1 (CHR ''>'') ''message_bus>admin_api_timeout'' = (''message_bus'', Some ''admin_api_timeout'')"
  "split1 (CHR ''>'') ''type'' = (''type'', None)" "split1 (CHR ''>'') ''cluster'' = (''cluster'', None)"
  "split1 (CHR ''>'') ''receive_timeout'' = (''receive_timeout'', None)" "split1 (CHR ''>'') ''socket_timeout'' = (''socket_timeout'', None)"
  "split1 (CHR ''>'') ''send_timeout'' = (''send_timeout'', None)" "split1 (CHR ''>'') ''admin_api_timeout'' = (''admin_api_timeout'', None)"
  "split1 (CHR ''>'') ''message_broker'' = (''message_broker'', None)"
  by code_simp+

lemma bus_names:
  "length (key_index_split ''message_broker'') = 1" "length (key_index_split ''message_bus'') = 1" "length (key_index_split ''type'') = 1"
  "length (key_index_split ''cluster'') = 1" "length (key_index_split ''receive_timeout'') = 1" "length (key_index_split ''socket_timeout'') = 1"
  "length (key_index_split ''send_timeout'') = 1" "length (key_index_split ''admin_api_timeout'') = 1"
  by code_simp+

text \<open>The data of the configuration after the settings, over what it held before.\<close>

definition broker_conf :: "bus_params \<Rightarrow> pyval list \<Rightarrow> pyval" where
  "broker_conf params endpoints = PDict [
     (''type'', PStr (or_default ''kafka'' (bp_broker_type params))), (''cluster'', PList endpoints),
     (''message_bus'', PDict [(''receive_timeout'', or_default (PInt 2) (bp_receive_timeout params)),
       (''socket_timeout'', or_default (PInt 15000) (bp_socket_timeout params)),
       (''send_timeout'', or_default (PInt 5000) (bp_send_timeout params)),
       (''admin_api_timeout'', or_default (PInt 60) (bp_admin_api_timeout params))])]"

fun kp_sets :: "kv_payload \<Rightarrow> (string \<times> pyval) list \<Rightarrow> kv_payload" where
  "kp_sets p [] = p"
| "kp_sets p (kv # kvs) = kp_sets (fst (kp_set p (fst kv) (snd kv))) kvs"

lemma kp_sets_delim [simp]: "kp_delim (kp_sets p kvs) = kp_delim p"
  by (induction kvs arbitrary: p) (simp_all add: kp_set_def split: list.splits prod.splits)

lemma bus_sets:
  assumes "kp_delim p = ''>''" "kp_data p = PDict []"
  shows "kp_data (kp_sets p (bus_settings params endpoints)) = PDict [(''message_broker'', broker_conf params endpoints)]"
  using assms
  by (simp add: bus_settings_def kp_set_def kv_set_sub [OF bus_keys(1)] kv_set_sub [OF bus_keys(2)] kv_set_sub [OF bus_keys(3)]
      kv_set_sub [OF bus_keys(4)] kv_set_sub [OF bus_keys(5)] kv_set_sub [OF bus_keys(6)] kv_set_sub [OF bus_keys(7)]
      kv_set_sub [OF bus_keys(8)] kv_set_sub [OF bus_keys(9)] kv_set_sub [OF bus_keys(10)] kv_set_leaf bus_keys bus_names broker_conf_def)

fun kp_sets_ok :: "kv_payload \<Rightarrow> (string \<times> pyval) list \<Rightarrow> bool" where
  "kp_sets_ok p [] = True"
| "kp_sets_ok p (kv # kvs) = (snd (kp_set p (fst kv) (snd kv)) = None \<and> kp_sets_ok (fst (kp_set p (fst kv) (snd kv))) kvs)"

lemma bus_sets_ok:
  assumes "kp_delim p = ''>''" "kp_data p = PDict []"
  shows "kp_sets_ok p (bus_settings params endpoints)"
  using assms
  by (simp add: bus_settings_def kp_set_def kv_set_sub [OF bus_keys(1)] kv_set_sub [OF bus_keys(2)] kv_set_sub [OF bus_keys(3)]
      kv_set_sub [OF bus_keys(4)] kv_set_sub [OF bus_keys(5)] kv_set_sub [OF bus_keys(6)] kv_set_sub [OF bus_keys(7)]
      kv_set_sub [OF bus_keys(8)] kv_set_sub [OF bus_keys(9)] kv_set_sub [OF bus_keys(10)] kv_set_leaf bus_keys bus_names)

text \<open>The configuration holds the payload \<open>p\<close>, of a dict store.\<close>

definition dict_conf :: "string \<Rightarrow> (kv_world, string, kv_payload) conf_class \<Rightarrow> kv_payload \<Rightarrow> bool" where
  "dict_conf i cf p \<longleftrightarrow> (\<exists>cs cc v. cf_conf cf = Some cs \<and> cs_cache cs i = Some cc \<and> cc_data cc = p \<and>
     cc_store cc = ''dict:{}'' \<and> fa_stores (cs_back cs) ''dict:{}'' = Some (DictObj v ''>''))"

lemma dict_conf_sets:
  assumes "dict_conf i cf p" "kp_sets_ok p kvs"
  shows "\<exists>cf'. for_each (\<lambda>cf kv. Conf_set kv_class cf i (fst kv) (snd kv)) cf kvs = (cf', Inr ()) \<and> dict_conf i cf' (kp_sets p kvs)"
  using assms
proof (induction kvs arbitrary: cf p)
  case (Cons kv kvs)
  obtain p' where p': "kp_set p (fst kv) (snd kv) = (p', None)" using Cons.prems(2) by (cases "kp_set p (fst kv) (snd kv)") auto
  obtain cf1 where "Conf_set kv_class cf i (fst kv) (snd kv) = (cf1, Inr ())" "dict_conf i cf1 p'"
    using Cons.prems(1) p'
    by (auto simp: dict_conf_def Conf_set_def on_conf_def cs_set_def on_index_def cc_set_def kv_class_def exc_result_def)
  with Cons.IH [of cf1 p'] Cons.prems(2) p' show ?case by simp
qed auto

lemma dict_conf_load:
  assumes "fresh_conf (CHR ''>'') fs cf"
  shows "\<exists>cf'. Conf_load (kv_backend co) cf i ''dict:{}'' (PBool True) [(''skip_reload'', PBool True)] = (cf', Inr ()) \<and>
    dict_conf i cf' \<lparr>kp_data = PDict [], kp_delim = ''>'', kp_keys = []\<rparr>"
proof -
  have u: "urlparse ''dict:{}'' = Inr (''dict'', [], ''{}'')" "json_load ''{}'' = Some (PDict [])" by code_simp+
  show ?thesis using assms
    by (auto simp: fresh_conf_def Conf_load_def Conf_init_def cs_init_def on_conf_def cs_load_def cc_init_def exc_result_def
        kv_backend_def get_instance_def u kv_table_def kv_obj_load_def dict_store_load_def kp_init_def dict_conf_def Let_def)
qed

lemma dict_conf_save:
  assumes "dict_conf i cf p"
  shows "\<exists>cf'. Conf_save (kv_backend co) cf i = (cf', Inr ()) \<and> dict_conf i cf' p"
  using assms
  by (auto simp: dict_conf_def Conf_save_def on_conf_def cs_save_def cc_dump_def exc_result_def kv_backend_def kv_obj_dump_def
      dict_store_dump_def)

lemma dict_conf_get:
  assumes "dict_conf i cf p" "kp_delim p = ''>''" "kp_data p = PDict [(''message_broker'', PDict d)]"
  shows "\<exists>cf'. Conf_get kv_class cf i (Some ''message_broker'') PNone = (cf', Inr (PDict d))"
proof -
  have k: "key_index_split ''message_broker'' = [''message_broker'']" "py_strip ''message_broker'' \<noteq> []" by code_simp+
  have "kp_get p ''message_broker'' True = Inr (PDict d)"
    using assms(2,3) by (simp add: kp_get_def kv_get.simps bus_keys kv_get_leaf_def k Let_def)
  with assms(1) show ?thesis
    by (auto simp: dict_conf_def Conf_get_def on_conf_def cs_get_def on_index_def cc_get_def kv_class_def)
qed

section \<open>The broker of the bus\<close>

text \<open>A broker once made stays the one of its type.\<close>

lemma st_bind_keeps: "I (fst x) \<Longrightarrow> (\<And>s a. I s \<Longrightarrow> I (fst (f s a))) \<Longrightarrow> I (fst (st_bind x f))"
  by (cases x; cases "snd x") auto

lemma bus_init_keeps:
  assumes "mb_brokers mb t = Some b"
  shows "mb_brokers (fst (bus_init P B endpoints params mb)) t = Some b"
proof -
  let ?I = "\<lambda>mb. mb_brokers mb t = Some b"
  have c: "?I x \<Longrightarrow> ?I (fst (on_conf_of f x))" for f x by (auto simp: on_conf_of_def split: prod.splits)
  have i: "?I x \<Longrightarrow> ?I (fst (broker_instance ty conf x))" for ty conf x
    by (auto simp: broker_instance_def split: sum.splits)
  show ?thesis unfolding bus_init_def
    by (intro st_bind_keeps [where I = ?I]) (auto intro!: c i st_bind_keeps [where I = ?I] simp: assms)
qed

text \<open>The first initialisation of a process makes a broker whose bootstrap servers are the last endpoint,
  as many times as there are endpoints, with the given or default timeouts and no clients. Every later
  initialisation leaves this broker in place, whatever endpoints and timeouts it gets.\<close>

lemma bus_init_first:
  fixes mb :: "('c, 's, kv_world, string, kv_payload) conf_bus"
  assumes "fresh_conf (CHR ''>'') fs (mb_conf mb)" "mb_brokers mb = Map.empty"
    and "\<forall>s \<in> set endpoints. server_address s = Inr (addr s)" "endpoints \<noteq> []" "or_default ''kafka'' (bp_broker_type params) = ''kafka''"
  shows "\<exists>mb' b. bus_init kv_class (kv_backend co) (PList (map PStr endpoints)) params mb = (mb', Inr ()) \<and> the_broker mb' = Inr b \<and>
    br_servers b = py_join '','' (replicate (length endpoints) (fst (addr (last endpoints)) @ '':'' @ snd (addr (last endpoints)))) \<and>
    br_receive_timeout b = or_default (PInt 2) (bp_receive_timeout params) \<and>
    br_admin b = Map.empty \<and> br_producer b = Map.empty \<and> br_consumer b = Map.empty \<and> mb_kafka mb' = mb_kafka mb \<and>
    (\<forall>P B es ps. mb_brokers (fst (bus_init P B es ps mb')) ''kafka'' = Some b)"
proof -
  let ?p = "\<lparr>kp_data = PDict [], kp_delim = ''>'', kp_keys = []\<rparr>"
  let ?srv = "replicate (length endpoints) (server_info (addr (last endpoints)))"
  obtain cf1 where 1: "Conf_load (kv_backend co) (mb_conf mb) utils_index ''dict:{}'' (PBool True) [(''skip_reload'', PBool True)] = (cf1, Inr ())"
    "dict_conf utils_index cf1 ?p" using dict_conf_load [OF assms(1)] by blast
  have s: "get_server_list (PList (map PStr endpoints)) = Inr ?srv" by (rule get_server_list_addresses [OF assms(3,4)])
  define q where "q = kp_sets ?p (bus_settings params ?srv)"
  have q: "kp_data q = PDict [(''message_broker'', broker_conf params ?srv)]" unfolding q_def by (rule bus_sets) simp_all
  obtain cf2 where 2: "for_each (\<lambda>cf kv. Conf_set kv_class cf utils_index (fst kv) (snd kv)) cf1 (bus_settings params ?srv) = (cf2, Inr ())"
    "dict_conf utils_index cf2 q" using dict_conf_sets [OF 1(2) bus_sets_ok] unfolding q_def by fastforce
  obtain cf3 where 3: "Conf_save (kv_backend co) cf2 utils_index = (cf3, Inr ())" "dict_conf utils_index cf3 q"
    using dict_conf_save [OF 2(2)] by blast
  have dl: "kp_delim q = ''>''" by (simp add: q_def)
  obtain cf4 where 4: "Conf_get kv_class cf3 utils_index (Some ''message_broker'') PNone = (cf4, Inr (broker_conf params ?srv))"
    using dict_conf_get [OF 3(2) dl] q by (auto simp: broker_conf_def)
  define b :: "'c broker" where "b = \<lparr>br_servers = py_join '','' (replicate (length endpoints) (fst (addr (last endpoints)) @ '':'' @ snd (addr (last endpoints)))),
     br_admin = Map.empty, br_producer = Map.empty, br_consumer = Map.empty,
     br_receive_timeout = or_default (PInt 2) (bp_receive_timeout params), br_socket_timeout = or_default (PInt 15000) (bp_socket_timeout params),
     br_send_timeout = or_default (PInt 5000) (bp_send_timeout params), br_admin_api_timeout = or_default (PInt 60) (bp_admin_api_timeout params),
     br_resource = None, br_saved_retention = None\<rparr>"
  have k: "KafkaMessageBroker_init (broker_conf params ?srv) = Inr b"
    by (simp add: KafkaMessageBroker_init_def MessageBroker_init_def broker_conf_def join_replicate_item b_def)
  define mb' where "mb' = mb\<lparr>mb_conf := cf4, mb_brokers := [''kafka'' \<mapsto> b], mb_broker := Some ''kafka''\<rparr>"
  have "bus_init kv_class (kv_backend co) (PList (map PStr endpoints)) params mb = (mb', Inr ())"
    by (simp add: bus_init_def on_conf_of_def 1 s 2(1) 3(1) 4 broker_instance_def k assms(2,5) mb'_def)
       (simp add: broker_conf_def)
  moreover have "the_broker mb' = Inr b" by (simp add: the_broker_def mb'_def)
  moreover have "mb_brokers (fst (bus_init P B es ps mb')) ''kafka'' = Some b" for P B es ps
    by (rule bus_init_keeps) (simp add: mb'_def)
  ultimately show ?thesis by (intro exI [of _ mb'] exI [of _ b]) (simp add: b_def mb'_def)
qed

definition first_bus :: "(string, mem_server, kv_world, string, kv_payload) conf_bus" where
  "first_bus = \<lparr>mb_conf = \<lparr>cf_conf = None, cf_delim = ''>'', cf_machine_id = PNone,
       cf_back = \<lparr>fa_stores = Map.empty, fa_world = Map.empty\<rparr>, cf_id_file = None\<rparr>,
     mb_brokers = Map.empty, mb_broker = None, mb_kafka = mem_start\<rparr>"

theorem bus_init_first_witness:
  "\<exists>mb' b. bus_init kv_class (kv_backend no_codecs) (PList [PStr ''tcp://a:1'', PStr ''b'']) no_params first_bus = (mb', Inr ()) \<and>
     the_broker mb' = Inr b \<and> br_servers b = ''b:9092,b:9092''"
proof -
  define addr :: "string \<Rightarrow> string \<times> string" where "addr s = (if s = ''b'' then (''b'', ''9092'') else (''a'', ''1''))" for s
  have a: "server_address ''tcp://a:1'' = Inr (''a'', ''1'')" "server_address ''b'' = Inr (''b'', ''9092'')" by code_simp+
  have "fresh_conf (CHR ''>'') Map.empty (mb_conf first_bus)" by (simp add: fresh_conf_def first_bus_def)
  from bus_init_first [OF this, of "[''tcp://a:1'', ''b'']" addr no_params no_codecs] a show ?thesis
    by (auto simp: first_bus_def addr_def no_params_def or_default_def numeral_2_eq_2)
qed

end
