(* ===== verification/Iem.thy ===== *)
theory Iem
  imports MessageBus
begin

text \<open>
  Events on the message bus, src/py-utils/src/utils/iem_framework: the class EventMessage
  (event_message.py) that sends and receives alerts as JSON texts, and its command line
  (iem_cli.py).
\<close>

abbreviation EPERM :: int where "EPERM \<equiv> 1"

section \<open>EventMessage\<close>

text \<open>The attributes of the class with the bus it works on. Those that \<open>init\<close> sets do not matter
  before it has made the producer.\<close>

record ('c, 's, 'f) event_message =
  em_producer :: "client_conf option"
  em_consumer :: "client_conf option"
  em_component :: pyval
  em_source :: pyval
  em_site_id :: pyval
  em_rack_id :: pyval
  em_node_id :: pyval
  em_cluster_id :: pyval
  em_bus :: "('c, 's, 'f) bus"

type_synonym ('c, 's, 'b, 'h, 'p) conf_event_message = "('c, 's, ('b, 'h, 'p) conf_class) event_message"

definition SEVERITY_LEVELS :: "(string \<times> string) list" where
  "SEVERITY_LEVELS = [(''A'', ''alert''), (''X'', ''critical''), (''E'', ''error''), (''W'', ''warning''), (''N'', ''notice''),
     (''C'', ''configuration''), (''I'', ''informational''), (''D'', ''detail''), (''B'', ''debug'')]"

definition SOURCE :: "(string \<times> string) list" where
  "SOURCE = [(''H'', ''Hardware''), (''S'', ''Software''), (''F'', ''Firmware''), (''O'', ''OS'')]"

definition on_bus :: "(('c, 's, 'f) bus \<Rightarrow> ('c, 's, 'f) bus \<times> (pyexc + 'a)) \<Rightarrow> ('c, 's, 'f) event_message \<Rightarrow>
    ('c, 's, 'f) event_message \<times> (pyexc + 'a)" where
  "on_bus f em = (case f (em_bus em) of (mb, r) \<Rightarrow> (em\<lparr>em_bus := mb\<rparr>, r))"

definition known_source :: "pyval \<Rightarrow> pyexc + unit" where
  "known_source source = (case source of
      PStr s \<Rightarrow> if s \<in> fst ` set SOURCE then Inr () else Inl (EventMessageError EINVAL)
    | _ \<Rightarrow> if is_list_dict source then Inl TypeError else Inl (EventMessageError EINVAL))"

definition em_init :: "('c, 's) kafka \<Rightarrow> 'p payload_class \<Rightarrow> ('b, 'h, 'p) backend \<Rightarrow> pyval \<Rightarrow> pyval \<Rightarrow> pyval \<Rightarrow> pyval \<Rightarrow>
    bus_params \<Rightarrow> ('c, 's, 'b, 'h, 'p) conf_event_message \<Rightarrow> ('c, 's, 'b, 'h, 'p) conf_event_message \<times> (pyexc + unit)" where
  "em_init K P B component source cluster_id message_server_endpoints params em =
     st_bind (on_bus (on_conf_of Conf_machine_id)
        (em\<lparr>em_component := component, em_source := source, em_site_id := PInt 1, em_rack_id := PInt 1\<rparr>)) (\<lambda>em1 node_id.
     let em2 = em1\<lparr>em_node_id := node_id, em_cluster_id := cluster_id\<rparr> in
     if component = PNone then (em2, Inl (EventMessageError EINVAL))
     else st_bind (em2, known_source source) (\<lambda>em2 _.
       st_bind (on_bus (bus_init P B message_server_endpoints params) em2) (\<lambda>em3 _.
       st_bind (on_bus (MessageBusClient K ''producer'' (MessageProducer ''event_producer'' ''IEM'' (Some ''sync''))) em3) (\<lambda>em4 producer.
       (em4\<lparr>em_producer := Some producer\<rparr>, Inr ())))))"

text \<open>The arguments of \<open>send\<close>; None is PNone.\<close>

record event_args =
  ea_module :: pyval
  ea_event_id :: pyval
  ea_severity :: pyval
  ea_message_blob :: pyval
  ea_cluster_id :: pyval
  ea_site_id :: pyval
  ea_rack_id :: pyval
  ea_node_id :: pyval
  ea_host :: pyval
  ea_event_time :: pyval

definition if_none :: "pyval \<Rightarrow> pyval \<Rightarrow> pyval" where
  "if_none v dflt = (if v = PNone then dflt else v)"

definition severity_name :: "pyval \<Rightarrow> pyexc + string" where
  "severity_name severity = (case severity of
      PStr s \<Rightarrow> (case map_of SEVERITY_LEVELS s of None \<Rightarrow> Inl (EventMessageError EINVAL) | Some n \<Rightarrow> Inr n)
    | _ \<Rightarrow> if is_list_dict severity then Inl TypeError else Inl (EventMessageError EINVAL))"

text \<open>The alert of the arguments; \<open>sender_host\<close> and \<open>now\<close> are the name of the host and the time.\<close>

definition em_alert :: "('c, 's, 'f) event_message \<Rightarrow> string \<Rightarrow> pyval \<Rightarrow> event_args \<Rightarrow> string \<Rightarrow> string \<Rightarrow> pyval" where
  "em_alert em sender_host now a severity source_type = PDict [(''iem'', PDict [
     (''version'', PStr ''1''),
     (''info'', PDict [(''severity'', PStr severity), (''type'', PStr source_type), (''event_time'', if_none (ea_event_time a) now)]),
     (''location'', PDict [(''cluster_id'', if_none (ea_cluster_id a) (em_cluster_id em)), (''site_id'', if_none (ea_site_id a) (em_site_id em)),
        (''rack_id'', if_none (ea_rack_id a) (em_rack_id em)), (''node_id'', if_none (ea_node_id a) (em_node_id em)),
        (''host'', if_none (ea_host a) (PStr sender_host))]),
     (''source'', PDict [(''site_id'', em_site_id em), (''rack_id'', em_rack_id em), (''node_id'', em_node_id em),
        (''component'', em_component em), (''module'', ea_module a)]),
     (''contents'', PDict [(''event'', ea_event_id a), (''message'', ea_message_blob a)])])]"

definition required_attributes :: "('c, 's, 'f) event_message \<Rightarrow> event_args \<Rightarrow> pyval list" where
  "required_attributes em a = [ea_module a, ea_event_id a, ea_message_blob a, if_none (ea_site_id a) (em_site_id em),
     if_none (ea_rack_id a) (em_rack_id em), if_none (ea_node_id a) (em_node_id em), if_none (ea_cluster_id a) (em_cluster_id em)]"

definition source_name :: "('c, 's, 'f) event_message \<Rightarrow> pyexc + string" where
  "source_name em = (case em_source em of
      PStr s \<Rightarrow> (case map_of SOURCE s of None \<Rightarrow> Inl KeyError | Some n \<Rightarrow> Inr n)
    | _ \<Rightarrow> if is_list_dict (em_source em) then Inl TypeError else Inl KeyError)"

definition em_send :: "('c, 's) kafka \<Rightarrow> string \<Rightarrow> pyval \<Rightarrow> event_args \<Rightarrow> ('c, 's, 'f) event_message \<Rightarrow>
    ('c, 's, 'f) event_message \<times> (pyexc + unit)" where
  "em_send K sender_host now a em = (case em_producer em of
      None \<Rightarrow> (em, Inl (EventMessageError ERR_SERVICE_NOT_INITIALIZED))
    | Some producer \<Rightarrow>
        if PNone \<in> set (required_attributes em a) then (em, Inl (EventMessageError EINVAL))
        else st_bind (em, severity_name (ea_severity a)) (\<lambda>em severity.
          st_bind (em, source_name em) (\<lambda>em source_type.
          on_bus (client_send K producer [StrMessage (json_dumps (em_alert em sender_host now a severity source_type))]) em)))"

definition em_subscribe :: "('c, 's) kafka \<Rightarrow> 'p payload_class \<Rightarrow> ('b, 'h, 'p) backend \<Rightarrow> pyval \<Rightarrow> pyval \<Rightarrow> bus_params \<Rightarrow>
    ('c, 's, 'b, 'h, 'p) conf_event_message \<Rightarrow> ('c, 's, 'b, 'h, 'p) conf_event_message \<times> (pyexc + unit)" where
  "em_subscribe K P B component message_server_endpoints params em =
     (if component = PNone then (em, Inl (EventMessageError EINVAL))
      else st_bind (on_bus (bus_init P B message_server_endpoints params) em) (\<lambda>em1 _.
        st_bind (on_bus (MessageBusClient K ''consumer''
            (MessageConsumer ''event_consumer'' component (PBool True) [''IEM''] (PStr ''earliest''))) em1) (\<lambda>em2 consumer.
        (em2\<lparr>em_consumer := Some consumer\<rparr>, Inr ()))))"

definition em_parse :: "string option \<Rightarrow> pyexc + pyval" where
  "em_parse alert = (case alert of
      None \<Rightarrow> Inr PNone
    | Some t \<Rightarrow> (case json_load t of None \<Rightarrow> Inl (EventMessageError EPERM) | Some v \<Rightarrow> Inr v))"

definition em_receive :: "('c, 's) kafka \<Rightarrow> ('c, 's, 'f) event_message \<Rightarrow> (('c, 's, 'f) event_message \<times> (pyexc + pyval)) option" where
  "em_receive K em = (case em_consumer em of
      None \<Rightarrow> Some (em, Inl (EventMessageError ERR_SERVICE_NOT_INITIALIZED))
    | Some consumer \<Rightarrow> map_option (\<lambda>(mb, r). (em\<lparr>em_bus := mb\<rparr>, err_bind r em_parse)) (client_receive K consumer PNone (em_bus em)))"

section \<open>The command line\<close>

text \<open>The arguments that argparse leaves; None is an option not given.\<close>

record iem_args =
  ia_source :: "string option"
  ia_info :: "string option"
  ia_contents :: "string option"
  ia_location :: "string option"
  ia_file :: "string option"
  ia_config :: "string option"

record send_args =
  sa_component :: string
  sa_source_type :: string
  sa_event :: event_args
  sa_cluster_conf :: "string option"

text \<open>\<open>a, b = s.split(":")\<close>, where an option not given has no method split, and the exceptions that
  become an EventMessageError.\<close>

definition split_pair :: "string option \<Rightarrow> pyexc + string \<times> string" where
  "split_pair s = (case s of None \<Rightarrow> Inl AttributeError
     | Some t \<Rightarrow> (case py_split (CHR '':'') t of [a, b] \<Rightarrow> Inr (a, b) | _ \<Rightarrow> Inl (EventMessageError EINVAL)))"

definition contents_pair :: "file_system \<Rightarrow> iem_args \<Rightarrow> pyexc + pyval \<times> pyval" where
  "contents_pair fs args = (case ia_contents args of
      None \<Rightarrow> Inl TypeError
    | Some c \<Rightarrow>
        if CHR '':'' \<in> set c then err_bind (split_pair (Some c)) (\<lambda>(e, m). Inr (PStr e, PStr m))
        else (case ia_file args of
            None \<Rightarrow> Inr (PNone, PNone)
          | Some f \<Rightarrow> if f = [] then Inr (PNone, PNone)
              else (case fs f of None \<Rightarrow> Inl (OSError ENOENT) | Some t \<Rightarrow> Inr (PStr c, PStr t))))"

definition parse_send_args :: "file_system \<Rightarrow> iem_args \<Rightarrow> pyexc + send_args" where
  "parse_send_args fs args = err_bind (split_pair (ia_source args)) (\<lambda>(component, module).
     err_bind (split_pair (ia_info args)) (\<lambda>(source_type, severity).
     err_bind (contents_pair fs args) (\<lambda>(event_id, message).
     let ea = \<lparr>ea_module = PStr module, ea_event_id = event_id, ea_severity = PStr severity, ea_message_blob = message,
           ea_cluster_id = PNone, ea_site_id = PNone, ea_rack_id = PNone, ea_node_id = PNone, ea_host = PNone, ea_event_time = PNone\<rparr>;
         sa = \<lparr>sa_component = component, sa_source_type = source_type, sa_event = ea, sa_cluster_conf = ia_config args\<rparr> in
     (case ia_location args of
        None \<Rightarrow> Inr sa
      | Some l \<Rightarrow> if l = [] then Inr sa else (case py_split (CHR '':'') l of
            [cluster_id, site_id, node_id, rack_id, host] \<Rightarrow> Inr (sa\<lparr>sa_event := ea\<lparr>ea_cluster_id := PStr cluster_id, ea_site_id := PStr site_id,
              ea_node_id := PStr node_id, ea_rack_id := PStr rack_id, ea_host := PStr host\<rparr>\<rparr>)
          | _ \<Rightarrow> Inl ValueError)))))"

text \<open>\<open>_get_cluster_data\<close>. A configuration URL that is not given is None, which has no scheme, like the
  empty one.\<close>

definition get_cluster_data :: "'p payload_class \<Rightarrow> ('b, 'h, 'p) backend \<Rightarrow> string option \<Rightarrow> ('b, 'h, 'p) conf_class \<Rightarrow>
    ('b, 'h, 'p) conf_class \<times> (pyexc + pyval \<times> pyval)" where
  "get_cluster_data P B config_path cf =
     st_bind (Conf_load B cf ''cluster_conf'' (or_default [] config_path) (PBool True) []) (\<lambda>cf1 _.
     st_bind (Conf_get P cf1 ''cluster_conf'' (Some ''cortx>utils>message_bus_backend'') PNone) (\<lambda>cf2 backend.
     st_bind (Conf_get P cf2 ''cluster_conf'' (Some (''cortx>external>'' @ py_str backend @ ''>endpoints'')) PNone) (\<lambda>cf3 endpoints.
     st_bind (Conf_get P cf3 ''cluster_conf'' (Some ''cluster>id'') PNone) (\<lambda>cf4 cluster_id.
     (cf4, Inr (endpoints, cluster_id))))))"

definition iem_send :: "('c, 's) kafka \<Rightarrow> 'p payload_class \<Rightarrow> ('b, 'h, 'p) backend \<Rightarrow> file_system \<Rightarrow> string \<Rightarrow> pyval \<Rightarrow> iem_args \<Rightarrow>
    ('c, 's, 'b, 'h, 'p) conf_event_message \<Rightarrow> ('c, 's, 'b, 'h, 'p) conf_event_message \<times> (pyexc + unit)" where
  "iem_send K P B fs sender_host now args em = st_bind (em, parse_send_args fs args) (\<lambda>em sa.
     st_bind (on_bus (on_conf_of (get_cluster_data P B (sa_cluster_conf sa))) em) (\<lambda>em1 (endpoints, cluster_id).
     st_bind (em_init K P B (PStr (sa_component sa)) (PStr (sa_source_type sa)) cluster_id endpoints no_params em1) (\<lambda>em2 _.
     em_send K sender_host now (sa_event sa) em2)))"

text \<open>The loop \<open>while event\<close>: it goes on as long as there are alerts, and need not end.\<close>

partial_function (option) receive_events :: "('c, 's) kafka \<Rightarrow> string \<Rightarrow> ('c, 's, 'f) event_message \<Rightarrow>
    (('c, 's, 'f) event_message \<times> (pyexc + string)) option" where
  "receive_events K rec_data em = (case em_receive K em of
      None \<Rightarrow> None
    | Some (em1, Inl e) \<Rightarrow> Some (em1, Inl (if e = KeyboardInterrupt then e else EventMessageError EINVAL))
    | Some (em1, Inr event) \<Rightarrow>
        if py_truth event then receive_events K (rec_data @ json_dumps event @ [CHR 0x0A]) em1
        else Some (em1, Inr (rec_data @ [CHR 0x0A])))"

text \<open>What \<open>receive\<close> returns, and what it appends to a file.\<close>

definition iem_receive :: "('c, 's) kafka \<Rightarrow> 'p payload_class \<Rightarrow> ('b, 'h, 'p) backend \<Rightarrow> file_system \<Rightarrow> iem_args \<Rightarrow>
    ('c, 's, 'b, 'h, 'p) conf_event_message \<Rightarrow> (file_system \<times> ('c, 's, 'b, 'h, 'p) conf_event_message \<times> (pyexc + string)) option" where
  "iem_receive K P B fs args em =
     (case st_bind (on_bus (on_conf_of (get_cluster_data P B (ia_config args))) em) (\<lambda>em1 (endpoints, _).
        em_subscribe K P B (case ia_source args of None \<Rightarrow> PNone | Some c \<Rightarrow> PStr c) endpoints no_params em1) of
        (em2, Inl e) \<Rightarrow> Some (fs, em2, Inl e)
      | (em2, Inr _) \<Rightarrow> (case receive_events K [] em2 of
            None \<Rightarrow> None
          | Some (em3, Inl e) \<Rightarrow> Some (fs, em3, Inl e)
          | Some (em3, Inr rec_data) \<Rightarrow> (case ia_file args of
                Some f \<Rightarrow> if f \<noteq> [] then Some (fs(f \<mapsto> (case fs f of None \<Rightarrow> [] | Some t \<Rightarrow> t) @ rec_data), em3, Inr [])
                  else Some (fs, em3, Inr rec_data)
              | None \<Rightarrow> Some (fs, em3, Inr rec_data))))"


section \<open>Events arrive\<close>

text \<open>What Kafka does for one producer \<open>p\<close> and one consumer \<open>c\<close> of the type IEM: the messages that \<open>c\<close> has
  not read yet are a queue, and a message sent is delivered.\<close>

definition iem_channel :: "('c, 's) kafka \<Rightarrow> 'c \<Rightarrow> 'c \<Rightarrow> pyval \<Rightarrow> ('s \<Rightarrow> string list) \<Rightarrow> bool" where
  "iem_channel K p c t queue \<longleftrightarrow>
     (\<forall>m s. \<exists>s1. kf_produce K p ''IEM'' m s = (s1, Inr ()) \<and> queue s1 = queue s @ [m]) \<and>
     (\<forall>s. \<exists>s1 rs. kf_flush K p s = (s1, Inr rs) \<and> True \<notin> set rs \<and> queue s1 = queue s) \<and>
     (\<forall>s m ms. queue s = m # ms \<longrightarrow> (\<exists>s1. kf_poll K c t s = (s1, Inr (MessageValue m)) \<and> queue s1 = ms))"

definition em_connected :: "('c, 's, 'f) event_message \<Rightarrow> 'c \<Rightarrow> 'c \<Rightarrow> pyval \<Rightarrow> bool" where
  "em_connected em p c t \<longleftrightarrow> em_producer em = Some (MessageProducer ''event_producer'' ''IEM'' (Some ''sync'')) \<and>
     (\<exists>cf. em_consumer em = Some cf \<and> cl_client_id cf = Some ''event_consumer'') \<and> (\<exists>s \<in> fst ` set SOURCE. em_source em = PStr s) \<and>
     (\<exists>b. the_broker (em_bus em) = Inr b \<and> br_producer b ''event_producer'' = Some p \<and>
        br_consumer b ''event_consumer'' = Some c \<and> br_receive_timeout b = t \<and> \<not> py_eq t (PInt 0))"

text \<open>The two sides differ in the state of Kafka only.\<close>

definition em_same :: "('c, 's, 'f) event_message \<Rightarrow> ('c, 's, 'f) event_message \<Rightarrow> bool" where
  "em_same em em' \<longleftrightarrow> (\<exists>s. em' = em\<lparr>em_bus := (em_bus em)\<lparr>mb_kafka := s\<rparr>\<rparr>)"

abbreviation em_queue :: "('s \<Rightarrow> string list) \<Rightarrow> ('c, 's, 'f) event_message \<Rightarrow> string list" where
  "em_queue queue em \<equiv> queue (mb_kafka (em_bus em))"

lemma em_same_connected: "em_same em em' \<Longrightarrow> em_connected em p c t \<Longrightarrow> em_connected em' p c t"
  by (auto simp: em_same_def em_connected_def the_broker_def split: option.splits)

lemma em_same_trans: "em_same a b \<Longrightarrow> em_same b c \<Longrightarrow> em_same a c"
  by (auto simp: em_same_def)

lemma em_same_fields: "em_same em em' \<Longrightarrow> em_alert em' = em_alert em \<and> required_attributes em' = required_attributes em \<and> source_name em' = source_name em"
  by (auto simp: em_same_def em_alert_def required_attributes_def source_name_def fun_eq_iff)

text \<open>An event that \<open>send\<close> accepts at the time \<open>now\<close>, and its alert. Its values are such that JSON keeps them:
  integers, strings, and floats that print without an exponent, as \<open>time.time()\<close> does.\<close>

definition event_ok :: "('c, 's, 'f) event_message \<Rightarrow> string \<Rightarrow> pyval \<Rightarrow> event_args \<Rightarrow> pyval \<Rightarrow> bool" where
  "event_ok em host now a alert \<longleftrightarrow> PNone \<notin> set (required_attributes em a) \<and> json_ok alert \<and>
     (\<exists>sv st. severity_name (ea_severity a) = Inr sv \<and> source_name em = Inr st \<and> alert = em_alert em host now a sv st)"

lemma time_plain: "1000 \<le> n \<Longrightarrow> n < 10 ^ 23 \<Longrightarrow> plain_float (of_nat n / 10 ^ 7)"
proof -
  assume n: "1000 \<le> n" "n < 10 ^ 23"
  have "\<bar>of_nat n / 10 ^ 7\<bar> * 10 ^ 20 = (of_nat (n * 10 ^ 13) :: rat)" by simp
  then have "of_int \<lfloor>\<bar>of_nat n / 10 ^ 7\<bar> * 10 ^ 20 :: rat\<rfloor> = \<bar>of_nat n / 10 ^ 7\<bar> * (10 ^ 20 :: rat)" by (simp only: floor_of_nat of_int_of_nat_eq)
  moreover have "(1000 :: rat) \<le> of_nat n" "(of_nat n :: rat) < of_nat (10 ^ 23)" using n by (simp_all only: of_nat_less_iff)
  ultimately show ?thesis by (simp add: plain_float_def field_simps)
qed

lemma em_send_step:
  assumes "iem_channel K p c t queue" "em_connected em p c t" "event_ok em host now a alert"
  shows "\<exists>em'. em_send K host now a em = (em', Inr ()) \<and> em_same em em' \<and> em_queue queue em' = em_queue queue em @ [json_dumps alert]"
proof -
  obtain sv st where sv: "PNone \<notin> set (required_attributes em a)" "severity_name (ea_severity a) = Inr sv" "source_name em = Inr st"
    "alert = em_alert em host now a sv st" using assms(3) by (auto simp: event_ok_def)
  obtain b where b: "the_broker (em_bus em) = Inr b" "br_producer b ''event_producer'' = Some p"
    "em_producer em = Some (MessageProducer ''event_producer'' ''IEM'' (Some ''sync''))"
    using assms(2) by (auto simp: em_connected_def)
  let ?s = "mb_kafka (em_bus em)"
  obtain s1 where s1: "kf_produce K p ''IEM'' (json_dumps alert) ?s = (s1, Inr ())" "queue s1 = queue ?s @ [json_dumps alert]"
    using assms(1) unfolding iem_channel_def by blast
  obtain s2 rs where s2: "kf_flush K p s1 = (s2, Inr rs)" "True \<notin> set rs" "queue s2 = queue s1"
    using assms(1) unfolding iem_channel_def by metis
  have "err_each delivery_callback rs = Inr ()"
    unfolding err_each_Inr using s2(2) by (auto simp: delivery_callback_def)
  then have "broker_send K b ''event_producer'' ''IEM'' (Some ''sync'') [json_dumps alert] ?s = (s2, Inr ())"
    using b(2) s1(1) s2(1) by (simp add: broker_send_def the_client_def send_one_def del: json_dumps.simps)
  then have "em_send K host now a em = (em\<lparr>em_bus := (em_bus em)\<lparr>mb_kafka := s2\<rparr>\<rparr>, Inr ())"
    using sv b by (simp add: em_send_def client_send_def MessageProducer_def get_conf_def get_str_message_list_def str_message_def
        bus_send_def with_broker_def on_bus_def del: json_dumps.simps)
  then show ?thesis using s1(2) s2(3) by (auto simp: em_same_def simp del: json_dumps.simps)
qed

lemma em_receive_step:
  assumes "iem_channel K p c t queue" "em_connected em p c t" "em_queue queue em = json_dumps alert # ms" "json_ok alert"
  shows "\<exists>em'. em_receive K em = Some (em', Inr alert) \<and> em_same em em' \<and> em_queue queue em' = ms"
proof -
  obtain b cf where b: "the_broker (em_bus em) = Inr b" "br_consumer b ''event_consumer'' = Some c" "br_receive_timeout b = t"
    "\<not> py_eq t (PInt 0)" "em_consumer em = Some cf" "cl_client_id cf = Some ''event_consumer''"
    using assms(2) by (auto simp: em_connected_def)
  obtain s1 where s1: "kf_poll K c t (mb_kafka (em_bus em)) = (s1, Inr (MessageValue (json_dumps alert)))" "queue s1 = ms"
    using assms(1,3) unfolding iem_channel_def by blast
  have "receive_loop K c t False (mb_kafka (em_bus em)) = Some (s1, Inr (Some (json_dumps alert)))"
    by (subst receive_loop.simps) (simp add: s1 del: json_dumps.simps)
  then have "em_receive K em = Some (em\<lparr>em_bus := (em_bus em)\<lparr>mb_kafka := s1\<rparr>\<rparr>, Inr alert)"
    using b json_load_dumps [OF assms(4)]
    by (simp add: em_receive_def client_receive_def get_conf_def bus_receive_def broker_receive_def the_client_def em_parse_def Let_def
        del: json_dumps.simps)
  with s1(2) show ?thesis by (auto simp: em_same_def)
qed

text \<open>Several receives after each other.\<close>

fun em_receives :: "('c, 's) kafka \<Rightarrow> nat \<Rightarrow> ('c, 's, 'f) event_message \<Rightarrow> (('c, 's, 'f) event_message \<times> (pyexc + pyval list)) option" where
  "em_receives K 0 em = Some (em, Inr [])"
| "em_receives K (Suc n) em = (case em_receive K em of
      None \<Rightarrow> None
    | Some (em1, Inl e) \<Rightarrow> Some (em1, Inl e)
    | Some (em1, Inr v) \<Rightarrow> map_option (\<lambda>(em2, r). (em2, err_bind r (\<lambda>vs. Inr (v # vs)))) (em_receives K n em1))"

lemma em_sends:
  assumes "iem_channel K p c t queue" "em_connected em p c t" "list_all2 (\<lambda>e. event_ok em host (fst e) (snd e)) evs alerts"
  shows "\<exists>em'. for_each (\<lambda>em e. em_send K host (fst e) (snd e) em) em evs = (em', Inr ()) \<and> em_same em em' \<and>
    em_queue queue em' = em_queue queue em @ map json_dumps alerts"
  using assms(2,3)
proof (induction evs arbitrary: em alerts)
  case Nil
  then show ?case by (auto simp: em_same_def intro!: exI [of _ "mb_kafka (em_bus em)"])
next
  case (Cons e evs)
  let ?E = "\<lambda>em e. event_ok em host (fst e) (snd e)"
  obtain alert as where as: "alerts = alert # as" "event_ok em host (fst e) (snd e) alert" "list_all2 (\<lambda>e. event_ok em host (fst e) (snd e)) evs as"
    using Cons.prems(2) by (auto simp: list_all2_Cons1)
  obtain em1 where em1: "em_send K host (fst e) (snd e) em = (em1, Inr ())" "em_same em em1" "em_queue queue em1 = em_queue queue em @ [json_dumps alert]"
    using em_send_step [OF assms(1) Cons.prems(1) as(2)] by blast
  have "?E em1 = ?E em"
    using em_same_fields [OF em1(2)] by (simp add: event_ok_def fun_eq_iff)
  with as(3) have l: "list_all2 (?E em1) evs as" by simp
  obtain em2 where "for_each (\<lambda>em e. em_send K host (fst e) (snd e) em) em1 evs = (em2, Inr ())" "em_same em1 em2"
      "em_queue queue em2 = em_queue queue em1 @ map json_dumps as"
    using Cons.IH [OF em_same_connected [OF em1(2) Cons.prems(1)] l] by blast
  then show ?case using em1 em_same_trans as(1) by fastforce
qed

lemma em_receives_queue:
  assumes "iem_channel K p c t queue" "em_connected em p c t" "em_queue queue em = map json_dumps alerts" "list_all json_ok alerts"
  shows "\<exists>em'. em_receives K (length alerts) em = Some (em', Inr alerts)"
  using assms(2-)
proof (induction alerts arbitrary: em)
  case (Cons a alerts)
  obtain em1 where em1: "em_receive K em = Some (em1, Inr a)" "em_same em em1" "em_queue queue em1 = map json_dumps alerts"
    using em_receive_step [OF assms(1) Cons.prems(1), of a "map json_dumps alerts"] Cons.prems(2,3)
    by (auto simp del: json_dumps.simps json_ok.simps)
  then obtain em2 where "em_receives K (length alerts) em1 = Some (em2, Inr alerts)"
    using Cons.IH [OF em_same_connected [OF em1(2) Cons.prems(1)] em1(3)] Cons.prems(3) by auto
  with em1(1) show ?case by simp
qed simp

text \<open>Claim C20. The events that a process sends are what as many receives return afterwards, in their order, each
  as the dict of its alert: severity and source in words, the problem location or else the location
  of the sender, the host or else the sending one, and the time or else the present: each event is
  sent with the time of its own sending, a float in seconds.\<close>

theorem iem_events_arrive:
  assumes "iem_channel K p c t queue" "em_connected em p c t" "list_all2 (\<lambda>e. event_ok em host (fst e) (snd e)) evs alerts" "em_queue queue em = []"
  shows "\<exists>em1 em2. for_each (\<lambda>em e. em_send K host (fst e) (snd e) em) em evs = (em1, Inr ()) \<and>
    em_receives K (length evs) em1 = Some (em2, Inr alerts)"
proof -
  obtain em1 where em1: "for_each (\<lambda>em e. em_send K host (fst e) (snd e) em) em evs = (em1, Inr ())" "em_same em em1"
    "em_queue queue em1 = map json_dumps alerts" using em_sends [OF assms(1-3)] assms(4) by auto
  have "list_all json_ok alerts" using assms(3) by (auto simp: list_all2_conv_all_nth list_all_length event_ok_def)
  then obtain em2 where "em_receives K (length alerts) em1 = Some (em2, Inr alerts)"
    using em_receives_queue [OF assms(1) em_same_connected [OF em1(2) assms(2)] em1(3)] by blast
  with em1(1) assms(3) show ?thesis by (auto dest: list_all2_lengthD)
qed

text \<open>A Kafka that is one queue.\<close>

definition queue_kafka :: "(unit, string list) kafka" where
  "queue_kafka = \<lparr>kf_AdminClient = (\<lambda>conf s. (s, Inr ())), kf_Producer = (\<lambda>conf s. (s, Inr ())), kf_Consumer = (\<lambda>conf s. (s, Inr ())),
     kf_list_topics = (\<lambda>c t s. (s, Inr [(''IEM'', 1)])), kf_create_topics = (\<lambda>c ts s. (s, Inr [])), kf_delete_topics = (\<lambda>c ts s. (s, Inr [])),
     kf_create_partitions = (\<lambda>c ts s. (s, Inr [])), kf_describe_configs = (\<lambda>c t s. (s, Inr [(''retention.ms'', PInt 9)])),
     kf_alter_configs = (\<lambda>c t es s. (s, Inr False)), kf_subscribe = (\<lambda>c ts s. (s, Inr ())),
     kf_produce = (\<lambda>c t m s. (s @ [m], Inr ())), kf_flush = (\<lambda>c s. (s, Inr [False])), kf_serve = (\<lambda>c t s. (s, Inr [])),
     kf_poll = (\<lambda>c t s. case s of [] \<Rightarrow> (s, Inr NoMessage) | m # ms \<Rightarrow> (ms, Inr (MessageValue m))),
     kf_commit = (\<lambda>c s. (s, Inr ())), kf_sleep = (\<lambda>n s. s)\<rparr>"

definition sample_em :: "(unit, string list, unit) event_message" where
  "sample_em = \<lparr>em_producer = Some (MessageProducer ''event_producer'' ''IEM'' (Some ''sync'')),
     em_consumer = Some (MessageConsumer ''event_consumer'' (PStr ''g'') (PBool True) [''IEM''] (PStr ''earliest'')),
     em_component = PStr ''SSPL'', em_source = PStr ''H'', em_site_id = PInt 1, em_rack_id = PInt 1, em_node_id = PStr ''n'', em_cluster_id = PStr ''cl'',
     em_bus = \<lparr>mb_conf = (), mb_brokers = [''kafka'' \<mapsto> \<lparr>br_servers = ''h:9092'', br_admin = Map.empty, br_producer = [''event_producer'' \<mapsto> ()],
         br_consumer = [''event_consumer'' \<mapsto> ()], br_receive_timeout = PInt 2, br_socket_timeout = PInt 15000, br_send_timeout = PInt 5000,
         br_admin_api_timeout = PInt 60, br_resource = None, br_saved_retention = None\<rparr>],
       mb_broker = Some ''kafka'', mb_kafka = []\<rparr>\<rparr>"

definition sample_event :: event_args where
  "sample_event = \<lparr>ea_module = PStr ''fan'', ea_event_id = PStr ''7'', ea_severity = PStr ''E'', ea_message_blob = PStr ''hot'', ea_cluster_id = PNone,
     ea_site_id = PInt 3, ea_rack_id = PNone, ea_node_id = PNone, ea_host = PNone, ea_event_time = PNone\<rparr>"

abbreviation sample_alert :: "rat \<Rightarrow> pyval" where
  "sample_alert now \<equiv> em_alert sample_em ''h'' (PFloat now) sample_event ''error'' ''Hardware''"

text \<open>Two events, sent without a time at 1600000000.25 and at 1600000000.5.\<close>

theorem iem_events_arrive_witness:
  "\<exists>em1 em2. for_each (\<lambda>em e. em_send queue_kafka ''h'' (fst e) (snd e) em) sample_em
       [(PFloat (6400000001 / 4), sample_event), (PFloat (3200000001 / 2), sample_event)] = (em1, Inr ()) \<and>
     em_receives queue_kafka 2 em1 = Some (em2, Inr [sample_alert (6400000001 / 4), sample_alert (3200000001 / 2)])"
proof -
  have c: "iem_channel queue_kafka () () (PInt 2) id" by (simp add: iem_channel_def queue_kafka_def)
  have e: "em_connected sample_em () () (PInt 2)"
    by (simp add: em_connected_def sample_em_def SOURCE_def the_broker_def MessageConsumer_def)
  have "severity_name (ea_severity sample_event) = Inr ''error''" "source_name sample_em = Inr ''Hardware''" by code_simp+
  moreover have "PNone \<notin> set (required_attributes sample_em sample_event)"
    by (simp add: required_attributes_def sample_em_def sample_event_def if_none_def)
  moreover have "json_ok (sample_alert now)" if "plain_float now" for now
    using that by (simp add: em_alert_def sample_em_def sample_event_def if_none_def)
  ultimately have "event_ok sample_em ''h'' (PFloat now) sample_event (sample_alert now)" if "plain_float now" for now
    using that by (simp add: event_ok_def)
  moreover have "plain_float (6400000001 / 4)" "plain_float (3200000001 / 2)"
    using time_plain [of 16000000002500000] time_plain [of 16000000005000000] by simp_all
  ultimately show ?thesis
    using iem_events_arrive [OF c e, of "''h''" "[(PFloat (6400000001 / 4), sample_event), (PFloat (3200000001 / 2), sample_event)]"
        "[sample_alert (6400000001 / 4), sample_alert (3200000001 / 2)]"]
    by (simp add: sample_em_def numeral_2_eq_2)
qed

end
