(* ===== verification/RestServer.thy ===== *)
theory RestServer
  imports Iem
begin

text \<open>
  The REST interfaces of the message bus, of events and of the audit log
  (src/py-utils/src/utils/message_bus/message_bus_server.py, iem_framework/iem_server.py,
  audit_log/audit_log_server.py) with the errors of utils_server/error.py. A request is what the
  handler reads of it; the JSON body is an argument that may be an exception. The texts of
  the error messages are not kept.
\<close>

section \<open>Responses\<close>

datatype rest_body = Success pydict | Failure int string

record rest_response =
  rr_status :: int
  rr_body :: rest_body

text \<open>\<open>type(e).__name__\<close> of the exceptions that matter.\<close>

definition exc_name :: "pyexc \<Rightarrow> string" where
  "exc_name e = (case e of KeyError \<Rightarrow> ''KeyError'' | PyException s \<Rightarrow> s | _ \<Rightarrow> ''Exception'')"

text \<open>The map of \<open>RestServerError\<close>: a pair for two names, and the number 500 for all others.\<close>

definition http_error :: "string \<Rightarrow> pyval" where
  "http_error name = (if name = ''KeyError'' then PList [PInt 418, PStr ''Wrong Key in payload!'']
     else if name = ''KafkaException'' then PList [PInt 514, PStr ''MessageBus backend error!'']
     else PInt 500)"

text \<open>The frame of the handlers. \<open>own\<close> tells the error number of the exception class the handler knows.
  The \<open>return\<close> in \<open>finally\<close> drops any exception under way; if no response was made it raises itself, since
  \<open>response_obj\<close> is not bound then. \<open>unbound\<close> is whether the log message of the handler uses a
  variable that has no value yet.\<close>

definition answer :: "(pyexc \<Rightarrow> int option) \<Rightarrow> string \<Rightarrow> bool \<Rightarrow> pyexc + pydict \<Rightarrow> pyexc + rest_response" where
  "answer own name unbound r = (case r of
      Inr obj \<Rightarrow> Inr \<lparr>rr_status = 200, rr_body = Success obj\<rparr>
    | Inl e \<Rightarrow> (case own e of
          Some rc \<Rightarrow> Inr \<lparr>rr_status = rc, rr_body = Failure rc name\<rparr>
        | None \<Rightarrow> (case py_at (http_error (exc_name e)) 0 of
              Inr (PInt n) \<Rightarrow> if unbound then Inl UnboundLocalError
                else Inr \<lparr>rr_status = n, rr_body = Failure n (exc_name e)\<rparr>
            | _ \<Rightarrow> Inl UnboundLocalError)))"

definition bus_rc :: "pyexc \<Rightarrow> int option" where
  "bus_rc e = (case e of MessageBusError rc \<Rightarrow> Some rc | _ \<Rightarrow> None)"

definition event_rc :: "pyexc \<Rightarrow> int option" where
  "event_rc e = (case e of EventMessageError rc \<Rightarrow> Some rc | _ \<Rightarrow> None)"

definition succeeded :: pydict where
  "succeeded = [(''status_code'', PInt 200), (''status'', PStr ''success'')]"

section \<open>Messages\<close>

text \<open>The elements of \<open>payload["messages"]\<close>.\<close>

definition rest_message :: "pyval \<Rightarrow> message" where
  "rest_message v = (case v of PStr s \<Rightarrow> StrMessage s | _ \<Rightarrow> OtherMessage)"

text \<open>\<open>producer.send(messages)\<close> for a value from a JSON text.\<close>

definition send_values :: "('c, 's) kafka \<Rightarrow> client_conf \<Rightarrow> pyval \<Rightarrow> ('c, 's, 'f) bus \<Rightarrow> ('c, 's, 'f) bus \<times> (pyexc + unit)" where
  "send_values K producer messages mb = st_bind (mb, py_iter messages) (\<lambda>mb vs. client_send K producer (map rest_message vs) mb)"

definition bus_rest_send :: "('c, 's) kafka \<Rightarrow> string \<Rightarrow> pyexc + pyval \<Rightarrow> ('c, 's, 'f) bus \<Rightarrow> ('c, 's, 'f) bus \<times> (pyexc + rest_response)" where
  "bus_rest_send K message_type body mb =
     (case st_bind (mb, err_bind body (\<lambda>payload. py_item payload ''messages'')) (\<lambda>mb messages.
         st_bind (MessageBusClient K ''producer'' (MessageProducer ''rest_producer'' message_type (Some ''sync'')) mb) (\<lambda>mb1 producer.
         send_values K producer messages mb1)) of
        (mb2, r) \<Rightarrow> (mb2, answer bus_rc ''MessageBusError'' False (err_bind r (\<lambda>_. Inr succeeded))))"

text \<open>\<open>str(b)\<close> of a bytes object, here of the UTF-8 bytes of a text.\<close>

definition utf8_bytes :: "char \<Rightarrow> nat list" where
  "utf8_bytes c = (let n = of_char c in if n < 128 then [n] else [192 + n div 64, 128 + n mod 64])"

definition hex_char :: "nat \<Rightarrow> char" where
  "hex_char n = (if n < 10 then char_of (48 + n) else char_of (87 + n))"

definition byte_repr :: "char \<Rightarrow> nat \<Rightarrow> string" where
  "byte_repr quote n = (if n = 92 \<or> n = of_char quote then [char_of (92 :: nat), char_of n]
     else if n = 9 then [char_of (92 :: nat), CHR ''t''] else if n = 10 then [char_of (92 :: nat), CHR ''n'']
     else if n = 13 then [char_of (92 :: nat), CHR ''r'']
     else if 32 \<le> n \<and> n < 127 then [char_of n]
     else [char_of (92 :: nat), CHR ''x'', hex_char (n div 16), hex_char (n mod 16)])"

definition bytes_repr :: "string \<Rightarrow> string" where
  "bytes_repr s = (let bs = concat (map utf8_bytes s); quote = (if 39 \<in> set bs \<and> 34 \<notin> set bs then CHR 0x22 else CHR 0x27) in
     CHR ''b'' # quote # concat (map (byte_repr quote) bs) @ [quote])"

definition bus_rest_receive :: "('c, 's) kafka \<Rightarrow> string \<Rightarrow> string option \<Rightarrow> ('c, 's, 'f) bus \<Rightarrow>
    (('c, 's, 'f) bus \<times> (pyexc + rest_response)) option" where
  "bus_rest_receive K message_type consumer_group mb =
     (let message_types = py_split (CHR ''&'') message_type in
      case st_bind (mb, conf_item consumer_group) (\<lambda>mb g.
        MessageBusClient K ''consumer'' (MessageConsumer ''rest_consumer'' (PStr g) (PBool True) message_types (PStr ''latest'')) mb) of
        (mb1, Inl e) \<Rightarrow> Some (mb1, answer bus_rc ''MessageBusError'' False (Inl e))
      | (mb1, Inr consumer) \<Rightarrow> map_option (\<lambda>(mb2, r). (mb2, answer bus_rc ''MessageBusError'' False
            (err_bind r (\<lambda>m. Inr [(''messages'', PStr (case m of None \<Rightarrow> ''None'' | Some t \<Rightarrow> bytes_repr t))]))))
          (client_receive K consumer PNone mb1))"

section \<open>Events\<close>

text \<open>The call \<open>EventMessage.send(**payload)\<close>: a name that is no parameter, and a parameter without default that
  is missing, are TypeErrors.\<close>

definition event_args_of :: "pydict \<Rightarrow> pyexc + event_args" where
  "event_args_of d = (let opt = (\<lambda>k. case map_of d k of None \<Rightarrow> PNone | Some v \<Rightarrow> v) in
     if \<not> fst ` set d \<subseteq> {''module'', ''event_id'', ''severity'', ''message_blob'', ''problem_cluster_id'', ''problem_site_id'',
          ''problem_rack_id'', ''problem_node_id'', ''problem_host'', ''event_time''}
        \<or> \<not> {''module'', ''event_id'', ''severity'', ''message_blob''} \<subseteq> fst ` set d then Inl TypeError
     else Inr \<lparr>ea_module = opt ''module'', ea_event_id = opt ''event_id'', ea_severity = opt ''severity'',
       ea_message_blob = opt ''message_blob'', ea_cluster_id = opt ''problem_cluster_id'', ea_site_id = opt ''problem_site_id'',
       ea_rack_id = opt ''problem_rack_id'', ea_node_id = opt ''problem_node_id'', ea_host = opt ''problem_host'',
       ea_event_time = opt ''event_time''\<rparr>)"

text \<open>The class attributes that the server sets.\<close>

record iem_handler =
  ih_cluster_id :: pyval
  ih_endpoints :: pyval

definition iem_rest_send :: "('c, 's) kafka \<Rightarrow> 'p payload_class \<Rightarrow> ('b, 'h, 'p) backend \<Rightarrow> iem_handler \<Rightarrow> string \<Rightarrow> pyval \<Rightarrow>
    pyexc + pyval \<Rightarrow> ('c, 's, 'b, 'h, 'p) conf_event_message \<Rightarrow> ('c, 's, 'b, 'h, 'p) conf_event_message \<times> (pyexc + rest_response)" where
  "iem_rest_send K P B h sender_host now body em =
     (let component = err_bind body (\<lambda>payload. py_item payload ''component'') in
      case st_bind (em, component) (\<lambda>em c.
        st_bind (em, err_bind body (\<lambda>payload. py_item payload ''source'')) (\<lambda>em source.
        st_bind (em_init K P B c source (ih_cluster_id h) (ih_endpoints h) no_params em) (\<lambda>em1 _.
        st_bind (em1, err_bind body (\<lambda>payload. case payload of
            PDict d \<Rightarrow> event_args_of (AList.delete ''source'' (AList.delete ''component'' d)) | _ \<Rightarrow> Inl TypeError)) (\<lambda>em1 a.
        em_send K sender_host now a em1)))) of
        (em2, r) \<Rightarrow> (em2, answer event_rc ''EventMessageError'' (isl component) (err_bind r (\<lambda>_. Inr succeeded))))"

text \<open>A request without a component fails before the handler's \<open>try\<close>. An alert that is None makes the log message
  of the success raise, after the response was made.\<close>

definition iem_rest_receive :: "('c, 's) kafka \<Rightarrow> 'p payload_class \<Rightarrow> ('b, 'h, 'p) backend \<Rightarrow> iem_handler \<Rightarrow> string option \<Rightarrow>
    ('c, 's, 'b, 'h, 'p) conf_event_message \<Rightarrow> (('c, 's, 'b, 'h, 'p) conf_event_message \<times> (pyexc + rest_response)) option" where
  "iem_rest_receive K P B h component em = (case component of
      None \<Rightarrow> Some (em, Inl KeyError)
    | Some c \<Rightarrow> (case em_subscribe K P B (PStr c) (ih_endpoints h) no_params em of
          (em1, Inl e) \<Rightarrow> Some (em1, answer event_rc ''EventMessageError'' False (Inl e))
        | (em1, Inr _) \<Rightarrow> map_option (\<lambda>(em2, r). (em2, answer event_rc ''EventMessageError'' False
              (err_bind r (\<lambda>alert. Inr [(''alert'', alert)])))) (em_receive K em1)))"

section \<open>Audit log\<close>

text \<open>The class attribute \<open>webhook_info\<close>, the producer that the module makes when it is loaded, and the bus. \<open>post\<close>
  is \<open>requests.post\<close> of a text to a URL, which gives the status code.\<close>

record ('c, 's, 'f) audit_log =
  al_webhook_info :: pyval
  al_producer :: client_conf
  al_bus :: "('c, 's, 'f) bus"

definition audit_log_init :: "('c, 's) kafka \<Rightarrow> ('c, 's, 'f) bus \<Rightarrow> ('c, 's, 'f) bus \<times> (pyexc + client_conf)" where
  "audit_log_init K = MessageBusClient K ''producer'' (MessageProducer ''audit_log_send'' ''audit_messages'' (Some ''sync''))"

definition audit_send :: "('c, 's) kafka \<Rightarrow> (pyval \<Rightarrow> string \<Rightarrow> 's \<Rightarrow> 's \<times> (pyexc + int)) \<Rightarrow> pyexc + pyval \<Rightarrow> ('c, 's, 'f) audit_log \<Rightarrow>
    ('c, 's, 'f) audit_log \<times> (pyexc + rest_response)" where
  "audit_send K post body al =
     (let mb = al_bus al;
        r = st_bind (mb, err_bind body (\<lambda>payload. py_item payload ''messages'')) (\<lambda>mb messages.
          if py_truth (al_webhook_info al)
          then st_bind (case post (al_webhook_info al) (json_dumps (PDict [(''messages'', messages)])) (mb_kafka mb) of
                (s, res) \<Rightarrow> (mb\<lparr>mb_kafka := s\<rparr>, res)) (\<lambda>mb1 status.
              if status \<noteq> 200 then send_values K (al_producer al) messages mb1 else (mb1, Inr ()))
          else send_values K (al_producer al) messages mb) in
      (al\<lparr>al_bus := fst r\<rparr>, answer (\<lambda>_. None) ''AuditLogError'' False (err_bind (snd r) (\<lambda>_. Inr succeeded))))"

definition send_webhook_info :: "pyexc + pyval \<Rightarrow> ('c, 's, 'f) audit_log \<Rightarrow> ('c, 's, 'f) audit_log \<times> (pyexc + rest_response)" where
  "send_webhook_info body al = (case body of
      Inr v \<Rightarrow> (al\<lparr>al_webhook_info := v\<rparr>, answer (\<lambda>_. None) ''AuditLogError'' False (Inr succeeded))
    | Inl e \<Rightarrow> (al, answer (\<lambda>_. None) ''AuditLogError'' False (Inl e)))"

section \<open>What a client sees\<close>

text \<open>The answer to a failure, by its exception.\<close>

fun failure_answer :: "pyexc \<Rightarrow> pyexc + rest_response" where
  "failure_answer (MessageBusError rc) = Inr \<lparr>rr_status = rc, rr_body = Failure rc ''MessageBusError''\<rparr>"
| "failure_answer KeyError = Inr \<lparr>rr_status = 418, rr_body = Failure 418 ''KeyError''\<rparr>"
| "failure_answer (PyException s) = (if s = ''KeyError'' then Inr \<lparr>rr_status = 418, rr_body = Failure 418 s\<rparr>
     else if s = ''KafkaException'' then Inr \<lparr>rr_status = 514, rr_body = Failure 514 s\<rparr> else Inl UnboundLocalError)"
| "failure_answer _ = Inl UnboundLocalError"

lemma answer_failure: "answer bus_rc ''MessageBusError'' False (Inl e) = failure_answer e"
  by (cases e) (simp_all add: answer_def bus_rc_def exc_name_def http_error_def)

text \<open>A post of messages is answered: with 200 only if they were sent, with the error number of the
  message bus if that refuses them, with 418 if the body has no messages, and with 514 for an error of the Kafka
  library. Any other exception, as for a body that is no dict, ends in an UnboundLocalError.\<close>

lemma rest_send_answers:
  "bus_rest_send K message_type (Inl e) mb = (mb, failure_answer e) \<and>
   bus_rest_send K message_type (Inr (PDict d)) mb = (case map_of d ''messages'' of
      None \<Rightarrow> (mb, Inr \<lparr>rr_status = 418, rr_body = Failure 418 ''KeyError''\<rparr>)
    | Some messages \<Rightarrow> (case st_bind (MessageBusClient K ''producer'' (MessageProducer ''rest_producer'' message_type (Some ''sync'')) mb)
            (\<lambda>mb1 producer. send_values K producer messages mb1) of
          (mb1, Inr _) \<Rightarrow> (mb1, Inr \<lparr>rr_status = 200, rr_body = Success succeeded\<rparr>)
        | (mb1, Inl e) \<Rightarrow> (mb1, failure_answer e))) \<and>
   bus_rest_send K message_type (Inr (PList vs)) mb = (mb, Inl UnboundLocalError)"
proof -
  have ok: "answer bus_rc n u (Inr succeeded) = Inr \<lparr>rr_status = 200, rr_body = Success succeeded\<rparr>" for n u
    by (simp add: answer_def)
  show ?thesis
    by (auto simp: bus_rest_send_def answer_failure ok split: option.splits prod.splits sum.splits)
qed

end
