(* ===== verification/DbProvider.thy ===== *)
theory DbProvider
  imports DataAccess
begin

text \<open>
  Storages made on first use, src/py-utils/src/utils/data/db/db_provider.py: the class AsyncDataBase with
  the calls that go through ProxyStorageCallDecorator, and DataBaseProvider. The calls are
  coroutines of one event loop and are interleaved where they await: the steps of the relation
  \<open>db_step\<close> are the pieces of code between two awaits. The event that the callers wait for is
  ThreadSafeEvent (synchronization.py), whose methods go through the queue of the loop, its \<open>wait\<close> twice:
  \<open>run_coroutine_threadsafe\<close> queues a callback, which makes a task, whose first step is queued again.
\<close>

section \<open>AsyncDataBase\<close>

datatype service_status = NOT_CREATED | IN_PROGRESS | READY

text \<open>Where a call is: inside \<open>create_database\<close> of the driver, with its \<open>wait\<close> or the task of it in the queue of
  the loop, with a registered waiter, with the wait over, at the storage, or at its end.\<close>

datatype caller = Creating | Waiting | Registered | Resumed | Serving | Finished | Raised pyexc

text \<open>What is in the queue of the event loop: the methods \<open>set\<close> and \<open>clear\<close> of the event, the callback that
  makes a task of the \<open>wait\<close> of a caller, and the first step of such a task.\<close>

datatype callback = SetEvent | ClearEvent | WaitEvent nat | WaitTask nat

record 'd async_db =
  ad_status :: service_status
  ad_database :: "'d option"
  ad_flag :: bool
  ad_queue :: "callback list"
  ad_caller :: "nat \<Rightarrow> caller option"

definition set_caller :: "nat \<Rightarrow> caller \<Rightarrow> 'd async_db \<Rightarrow> 'd async_db" where
  "set_caller i c s = s\<lparr>ad_caller := (ad_caller s)(i \<mapsto> c)\<rparr>"

definition enqueue :: "callback \<Rightarrow> 'd async_db \<Rightarrow> 'd async_db" where
  "enqueue c s = s\<lparr>ad_queue := ad_queue s @ [c]\<rparr>"

text \<open>The loop of \<open>_wait_db_creation\<close> up to its next await, with what follows the loop.\<close>

definition wait_db_creation :: "nat \<Rightarrow> 'd async_db \<Rightarrow> 'd async_db" where
  "wait_db_creation i s = (case ad_status s of
      READY \<Rightarrow> set_caller i (if ad_database s = None then Raised DataAccessInternalError else Serving) s
    | NOT_CREATED \<Rightarrow> set_caller i Creating (s\<lparr>ad_status := IN_PROGRESS\<rparr>)
    | IN_PROGRESS \<Rightarrow> set_caller i Waiting (enqueue (WaitEvent i) s))"

text \<open>The end of \<open>create_database\<close>, where \<open>r\<close> is what the driver returned or raised.\<close>

definition is_data_access_error :: "pyexc \<Rightarrow> bool" where
  "is_data_access_error e \<longleftrightarrow> e \<in> {DataAccessError, DataAccessInternalError, DataAccessExternalError, MalformedQueryError,
     PyException ''MalformedConfigurationError'', PyException ''StorageNotFoundError''}"

definition create_done :: "nat \<Rightarrow> pyexc + 'd \<Rightarrow> 'd async_db \<Rightarrow> 'd async_db" where
  "create_done i r s = (case r of
      Inr d \<Rightarrow> wait_db_creation i (enqueue SetEvent (s\<lparr>ad_database := Some d, ad_status := READY\<rparr>))
    | Inl e \<Rightarrow> set_caller i (Raised (if is_data_access_error e then e else DataAccessError))
        (enqueue SetEvent (s\<lparr>ad_status := NOT_CREATED\<rparr>)))"

text \<open>\<open>set\<close> wakes all registered waiters; the task of a \<open>wait\<close> does not block if the event is set when its
  first step runs.\<close>

fun run_callback :: "callback \<Rightarrow> 'd async_db \<Rightarrow> 'd async_db" where
  "run_callback SetEvent s = (if ad_flag s then s
     else s\<lparr>ad_flag := True, ad_caller := (\<lambda>i. if ad_caller s i = Some Registered then Some Resumed else ad_caller s i)\<rparr>)"
| "run_callback ClearEvent s = s\<lparr>ad_flag := False\<rparr>"
| "run_callback (WaitEvent i) s = enqueue (WaitTask i) s"
| "run_callback (WaitTask i) s = set_caller i (if ad_flag s then Resumed else Registered) s"

text \<open>A new call, the end of a creation, a callback, the return of a wait (which clears the event), and the call of
  the storage.\<close>

inductive db_step :: "'d async_db \<Rightarrow> 'd async_db \<Rightarrow> bool" where
  call: "ad_caller s i = None \<Longrightarrow> db_step s (wait_db_creation i s)"
| created: "ad_caller s i = Some Creating \<Longrightarrow> db_step s (create_done i r s)"
| callback: "ad_queue s = c # cs \<Longrightarrow> db_step s (run_callback c (s\<lparr>ad_queue := cs\<rparr>))"
| resume: "ad_caller s i = Some Resumed \<Longrightarrow> db_step s (wait_db_creation i (enqueue ClearEvent s))"
| serve: "ad_caller s i = Some Serving \<Longrightarrow> db_step s (set_caller i Finished s)"

definition AsyncDataBase :: "'d async_db" where
  "AsyncDataBase = \<lparr>ad_status = NOT_CREATED, ad_database = None, ad_flag = False, ad_queue = [], ad_caller = Map.empty\<rparr>"

abbreviation db_reachable :: "'d async_db \<Rightarrow> bool" where
  "db_reachable s \<equiv> db_step\<^sup>*\<^sup>* AsyncDataBase s"

section \<open>The provider\<close>

text \<open>The configuration: the drivers of the databases, and for each model its class, its database and the
  settings of the model for the databases.\<close>

record db_model =
  dm_import_path :: string
  dm_database :: string
  dm_config :: "string \<rightharpoonup> string \<times> bool"

record general_config =
  gc_databases :: "string \<rightharpoonup> string"
  gc_models :: "db_model list"

text \<open>The constructor of AsyncDataBase. \<open>self._db_config\<close> may be None.\<close>

definition db_modules :: "(string \<times> string) list" where
  "db_modules = [(''ConsulDB'', ''consul_db''), (''ElasticSearchDB'', ''elasticsearch_db''), (''OpenLdap'', ''openldap'')]"

definition new_async_db :: "general_config \<Rightarrow> db_model \<Rightarrow> pyexc + 'd async_db" where
  "new_async_db gc dm = (case gc_databases gc (dm_database dm) of
      None \<Rightarrow> Inl AttributeError
    | Some db_type \<Rightarrow> if db_type \<in> fst ` set db_modules then Inr AsyncDataBase else Inl DataAccessError)"

text \<open>\<open>__init__\<close>: \<open>locate\<close> gives the class of an import path, or None, and \<open>is_model\<close> whether it is a subclass of
  BaseModel. Classes are known by their names.\<close>

abbreviation MalformedConfigurationError :: pyexc where "MalformedConfigurationError \<equiv> PyException ''MalformedConfigurationError''"

fun provider_models :: "(string \<Rightarrow> string option) \<Rightarrow> (string \<Rightarrow> bool) \<Rightarrow> db_model list \<Rightarrow> (string \<rightharpoonup> db_model) \<Rightarrow>
    pyexc + (string \<rightharpoonup> db_model)" where
  "provider_models locate is_model [] ms = Inr ms"
| "provider_models locate is_model (dm # dms) ms = (case locate (dm_import_path dm) of
      None \<Rightarrow> Inl MalformedConfigurationError
    | Some cls \<Rightarrow> if is_model cls then provider_models locate is_model dms (ms(cls \<mapsto> dm)) else Inl MalformedConfigurationError)"

text \<open>\<open>get_storage\<close>: the storages are cached for all providers of the process.\<close>

definition get_storage :: "general_config \<Rightarrow> (string \<rightharpoonup> db_model) \<Rightarrow> string \<Rightarrow> (string \<rightharpoonup> 'd async_db) \<Rightarrow>
    (string \<rightharpoonup> 'd async_db) \<times> (pyexc + 'd async_db)" where
  "get_storage gc model_settings model cached = (case model_settings model of
      None \<Rightarrow> (cached, Inl MalformedConfigurationError)
    | Some dm \<Rightarrow> (case dm_config dm (dm_database dm) of
          None \<Rightarrow> (cached, Inl MalformedConfigurationError)
        | Some _ \<Rightarrow> (case cached model of
              Some s \<Rightarrow> (cached, Inr s)
            | None \<Rightarrow> (case new_async_db gc dm of
                  Inl e \<Rightarrow> (cached, Inl e)
                | Inr s \<Rightarrow> (cached(model \<mapsto> s), Inr s)))))"

section \<open>Invariants\<close>

text \<open>A creation is under way exactly if the status says so, by one caller, and a database that is ready is there.\<close>

definition creator_inv :: "'d async_db \<Rightarrow> bool" where
  "creator_inv s \<longleftrightarrow> (\<exists>c. (ad_status s = IN_PROGRESS \<longleftrightarrow> c \<noteq> None) \<and> (\<forall>i. ad_caller s i = Some Creating \<longleftrightarrow> c = Some i)) \<and>
     (ad_status s = READY \<longrightarrow> ad_database s \<noteq> None)"

text \<open>A caller whose wait or task is queued is in the queue once.\<close>

fun waits_of :: "callback list \<Rightarrow> nat list" where
  "waits_of [] = []"
| "waits_of (WaitEvent i # q) = i # waits_of q"
| "waits_of (WaitTask i # q) = i # waits_of q"
| "waits_of (c # q) = waits_of q"

definition queue_inv :: "'d async_db \<Rightarrow> bool" where
  "queue_inv s \<longleftrightarrow> distinct (waits_of (ad_queue s)) \<and> (\<forall>i. ad_caller s i = Some Waiting \<longleftrightarrow> i \<in> set (waits_of (ad_queue s)))"

definition db_inv :: "'d async_db \<Rightarrow> bool" where
  "db_inv s \<longleftrightarrow> creator_inv s \<and> queue_inv s"

abbreviation idle :: "caller option \<Rightarrow> bool" where
  "idle c \<equiv> c \<notin> {Some Creating, Some Waiting, Some Registered}"

lemma waits_append [simp]: "waits_of (p @ q) = waits_of p @ waits_of q"
  by (induction p rule: waits_of.induct) auto

lemma waits_mem: "i \<in> set (waits_of q) \<longleftrightarrow> WaitEvent i \<in> set q \<or> WaitTask i \<in> set q"
  by (induction q rule: waits_of.induct) auto

lemma queue_idle:
  assumes "queue_inv s" "idle (ad_caller s i)" "c \<noteq> Waiting"
  shows "queue_inv (set_caller i c s)"
  using assms by (auto simp: queue_inv_def set_caller_def)

lemma creator_idle:
  assumes "creator_inv s" "ad_caller s i \<noteq> Some Creating" "c \<noteq> Creating"
  shows "creator_inv (set_caller i c s)"
proof -
  obtain k where "ad_status s = IN_PROGRESS \<longleftrightarrow> k \<noteq> None" "\<forall>i. ad_caller s i = Some Creating \<longleftrightarrow> k = Some i"
    "ad_status s = READY \<longrightarrow> ad_database s \<noteq> None" using assms(1) by (auto simp: creator_inv_def)
  with assms(2,3) show ?thesis by (auto simp: creator_inv_def set_caller_def intro!: exI [of _ k])
qed

lemma inv_head:
  assumes "db_inv s" "idle (ad_caller s i)"
  shows "db_inv (wait_db_creation i s)"
proof (cases "ad_status s")
  case NOT_CREATED
  have "creator_inv (set_caller i Creating (s\<lparr>ad_status := IN_PROGRESS\<rparr>))"
    using assms NOT_CREATED by (auto simp: db_inv_def creator_inv_def set_caller_def)
  moreover have "queue_inv (set_caller i Creating (s\<lparr>ad_status := IN_PROGRESS\<rparr>))"
    by (rule queue_idle) (use assms in \<open>auto simp: db_inv_def queue_inv_def\<close>)
  ultimately show ?thesis using NOT_CREATED by (simp add: wait_db_creation_def db_inv_def)
next
  case IN_PROGRESS
  have "creator_inv (enqueue (WaitEvent i) s)" using assms(1) by (simp add: db_inv_def creator_inv_def enqueue_def)
  then have "creator_inv (set_caller i Waiting (enqueue (WaitEvent i) s))"
    by (rule creator_idle) (use assms(2) in \<open>auto simp: enqueue_def\<close>)
  moreover have "queue_inv (set_caller i Waiting (enqueue (WaitEvent i) s))"
    using assms by (auto simp: db_inv_def queue_inv_def set_caller_def enqueue_def)
  ultimately show ?thesis using IN_PROGRESS by (simp add: wait_db_creation_def db_inv_def)
next
  case READY
  then show ?thesis using assms by (auto simp: wait_db_creation_def db_inv_def queue_idle creator_idle)
qed

lemma creator_finish:
  assumes "creator_inv s" "ad_caller s i = Some Creating" "c \<noteq> Creating" "st \<noteq> IN_PROGRESS" "st = READY \<longrightarrow> d \<noteq> None"
  shows "creator_inv (set_caller i c (enqueue SetEvent (s\<lparr>ad_database := d, ad_status := st\<rparr>)))"
  using assms by (auto simp: creator_inv_def set_caller_def enqueue_def intro!: exI [of _ None])

lemma inv_created:
  assumes "db_inv s" "ad_caller s i = Some Creating"
  shows "db_inv (create_done i r s)"
proof -
  have w: "queue_inv (set_caller i c (enqueue SetEvent (s\<lparr>ad_database := d, ad_status := st\<rparr>)))" if "c \<noteq> Waiting" for c st d
    using assms that by (auto simp: db_inv_def queue_inv_def set_caller_def enqueue_def) (metis caller.distinct option.inject)
  show ?thesis
  proof (cases r)
    case (Inl e)
    have c: "creator_inv (set_caller i (Raised x) (enqueue SetEvent (s\<lparr>ad_database := ad_database s, ad_status := NOT_CREATED\<rparr>)))" for x
      by (rule creator_finish) (use assms in \<open>auto simp: db_inv_def\<close>)
    have "s\<lparr>ad_database := ad_database s\<rparr> = s" by (cases s) simp
    with c w [where st = NOT_CREATED and d = "ad_database s"] show ?thesis by (simp add: Inl create_done_def db_inv_def)
  next
    case (Inr d)
    have "creator_inv (set_caller i Serving (enqueue SetEvent (s\<lparr>ad_database := Some d, ad_status := READY\<rparr>)))"
      by (rule creator_finish) (use assms in \<open>auto simp: db_inv_def\<close>)
    with w [where c = Serving and st = READY and d = "Some d"] show ?thesis
      by (simp add: Inr create_done_def db_inv_def wait_db_creation_def enqueue_def)
  qed
qed

lemma inv_callback:
  assumes "db_inv s" "ad_queue s = c # cs"
  shows "db_inv (run_callback c (s\<lparr>ad_queue := cs\<rparr>))"
proof -
  have cr: "creator_inv (s\<lparr>ad_queue := cs\<rparr>)" using assms(1) by (simp add: db_inv_def creator_inv_def)
  have w: "queue_inv s" using assms(1) by (simp add: db_inv_def)
  show ?thesis
  proof (cases c)
    case SetEvent
    obtain k where "ad_status s = IN_PROGRESS \<longleftrightarrow> k \<noteq> None" "\<forall>i. ad_caller s i = Some Creating \<longleftrightarrow> k = Some i"
      "ad_status s = READY \<longrightarrow> ad_database s \<noteq> None" using cr by (auto simp: creator_inv_def)
    then have "creator_inv (run_callback c (s\<lparr>ad_queue := cs\<rparr>))" using SetEvent
      by (auto simp: creator_inv_def intro!: exI [of _ k]) (metis caller.distinct(3) option.inject)+
    moreover have "queue_inv (run_callback c (s\<lparr>ad_queue := cs\<rparr>))"
      using w assms(2) SetEvent by (auto simp: queue_inv_def) (metis caller.distinct option.inject)
    ultimately show ?thesis by (simp add: db_inv_def)
  next
    case (WaitTask i)
    have "ad_caller s i = Some Waiting" using w assms(2) WaitTask by (auto simp: queue_inv_def)
    then have "creator_inv (run_callback c (s\<lparr>ad_queue := cs\<rparr>))"
      unfolding WaitTask run_callback.simps by (intro creator_idle [OF cr]) auto
    then show ?thesis using w assms(2) WaitTask by (auto simp: db_inv_def queue_inv_def set_caller_def)
  qed (use cr w assms(2) in \<open>auto simp: db_inv_def queue_inv_def creator_inv_def enqueue_def\<close>)
qed

lemma db_step_inv:
  assumes "db_step s s'" "db_inv s"
  shows "db_inv s'"
  using assms
proof (induction rule: db_step.induct)
  case (resume s i)
  have "db_inv (enqueue ClearEvent s)" using resume by (auto simp: db_inv_def queue_inv_def creator_inv_def enqueue_def)
  then show ?case by (rule inv_head) (use resume in \<open>auto simp: enqueue_def\<close>)
next
  case (serve s i)
  then show ?case by (auto simp: db_inv_def queue_idle creator_idle)
qed (auto simp: inv_head inv_created inv_callback)

lemma db_start_inv: "db_inv AsyncDataBase"
  by (simp add: db_inv_def creator_inv_def queue_inv_def AsyncDataBase_def)

lemma db_reachable_inv: "db_reachable s \<Longrightarrow> db_inv s"
proof (induction rule: rtranclp_induct)
  case (step s s')
  show ?case by (rule db_step_inv [OF step(2,3)])
qed (rule db_start_inv)

section \<open>Properties\<close>

text \<open>Claim C16. However calls, creations and wake-ups are interleaved: at most one creation is under way, exactly
  while the status says so; a database that is ready is there, and it stays ready and the same.\<close>

theorem db_created_once:
  assumes "db_reachable s"
  shows "(\<forall>i j. ad_caller s i = Some Creating \<and> ad_caller s j = Some Creating \<longrightarrow> i = j) \<and>
    (ad_status s = IN_PROGRESS \<longleftrightarrow> (\<exists>i. ad_caller s i = Some Creating)) \<and>
    (ad_status s = READY \<longrightarrow> ad_database s \<noteq> None) \<and>
    (\<forall>s'. ad_status s = READY \<and> db_step s s' \<longrightarrow> ad_status s' = READY \<and> ad_database s' = ad_database s)"
proof -
  obtain k where k: "ad_status s = IN_PROGRESS \<longleftrightarrow> k \<noteq> None" "\<forall>i. ad_caller s i = Some Creating \<longleftrightarrow> k = Some i"
    "ad_status s = READY \<longrightarrow> ad_database s \<noteq> None" using db_reachable_inv [OF assms] by (auto simp: db_inv_def creator_inv_def)
  have "ad_status s' = READY \<and> ad_database s' = ad_database s" if "db_step s s'" "ad_status s = READY" for s'
    using that(1)
  proof cases
    case (created i r)
    then show ?thesis using k that(2) by auto
  next
    case (callback c cs)
    then show ?thesis using that(2) by (cases c) (auto simp: set_caller_def enqueue_def)
  qed (use that(2) in \<open>auto simp: wait_db_creation_def set_caller_def enqueue_def\<close>)
  with k show ?thesis by auto
qed

section \<open>Runs in which no creation fails\<close>

text \<open>A creation fails where the status goes back.\<close>

definition good_step :: "'d async_db \<Rightarrow> 'd async_db \<Rightarrow> bool" where
  "good_step s s' \<longleftrightarrow> db_step s s' \<and> \<not> (ad_status s = IN_PROGRESS \<and> ad_status s' = NOT_CREATED)"

abbreviation good_reachable :: "'d async_db \<Rightarrow> bool" where
  "good_reachable s \<equiv> good_step\<^sup>*\<^sup>* AsyncDataBase s"

lemma good_db_reachable: "good_reachable s \<Longrightarrow> db_reachable s"
  by (rule mono_rtranclp [rule_format, of good_step db_step]) (simp_all add: good_step_def)

text \<open>Before the database is ready the event is not touched. Then either the \<open>set\<close> of its creation is still
  queued, behind every \<open>wait\<close>, or it has run, and every task of a \<open>wait\<close> comes before the first \<open>clear\<close>.\<close>

definition set_ahead :: "'d async_db \<Rightarrow> bool" where
  "set_ahead s \<longleftrightarrow> (\<exists>xs ys. ad_queue s = xs @ SetEvent # ys \<and> (\<forall>i. WaitEvent i \<notin> set ys) \<and> SetEvent \<notin> set xs \<and> SetEvent \<notin> set ys) \<and>
     ClearEvent \<notin> set (ad_queue s) \<and> \<not> ad_flag s \<and> (\<forall>i. ad_caller s i \<noteq> Some Resumed)"

definition set_over :: "'d async_db \<Rightarrow> bool" where
  "set_over s \<longleftrightarrow> (\<forall>i. ad_caller s i \<noteq> Some Registered) \<and>
     (\<exists>is n. ad_queue s = map WaitTask is @ replicate n ClearEvent \<and> (is \<noteq> [] \<longrightarrow> ad_flag s))"

definition wake_inv :: "'d async_db \<Rightarrow> bool" where
  "wake_inv s \<longleftrightarrow> (if ad_status s = READY then set_ahead s \<or> set_over s
     else set (ad_queue s) \<inter> {SetEvent, ClearEvent} = {} \<and> \<not> ad_flag s \<and> (\<forall>i. ad_caller s i \<noteq> Some Resumed))"

lemma set_ahead_caller: "set_ahead s \<Longrightarrow> c \<noteq> Resumed \<Longrightarrow> set_ahead (set_caller i c s)"
  by (simp add: set_ahead_def set_caller_def)

lemma set_over_caller: "set_over s \<Longrightarrow> c \<noteq> Registered \<Longrightarrow> set_over (set_caller i c s)"
  by (auto simp: set_over_def set_caller_def)

lemma set_over_clear:
  assumes "set_over s"
  shows "set_over (enqueue ClearEvent s)"
proof -
  obtain js n where "ad_queue s = map WaitTask js @ replicate n ClearEvent" "js \<noteq> [] \<longrightarrow> ad_flag s"
    using assms by (auto simp: set_over_def)
  then show ?thesis using assms
    by (auto simp: set_over_def enqueue_def replicate_append_same intro!: exI [of _ js] exI [of _ "Suc n"])
qed

lemma set_caller_fields [simp]: "ad_status (set_caller i c s) = ad_status s" "ad_queue (set_caller i c s) = ad_queue s"
  "ad_flag (set_caller i c s) = ad_flag s"
  by (simp_all add: set_caller_def)

lemma wake_ready:
  assumes "wake_inv s" "ad_status s = READY" "c \<notin> {Registered, Resumed}"
  shows "wake_inv (set_caller i c s)"
  using assms set_ahead_caller [of s c i] set_over_caller [of s c i] by (auto simp: wake_inv_def)

lemma wake_head:
  assumes "wake_inv s"
  shows "wake_inv (wait_db_creation i s)"
proof (cases "ad_status s = READY")
  case True
  with assms wake_ready [of s] show ?thesis by (simp add: wait_db_creation_def)
next
  case False
  with assms show ?thesis by (cases "ad_status s") (auto simp: wake_inv_def wait_db_creation_def set_caller_def enqueue_def)
qed

lemma wake_created:
  assumes "wake_inv s" "ad_status s = IN_PROGRESS"
  shows "wake_inv (create_done i (Inr d) s)"
proof -
  have "set_ahead (set_caller i Serving (enqueue SetEvent (s\<lparr>ad_database := Some d, ad_status := READY\<rparr>)))"
    using assms by (force simp: wake_inv_def set_ahead_def set_caller_def enqueue_def)
  then show ?thesis by (simp add: wake_inv_def create_done_def wait_db_creation_def set_caller_def enqueue_def)
qed

lemma wake_callback:
  assumes "wake_inv s" "ad_queue s = c # cs"
  shows "wake_inv (run_callback c (s\<lparr>ad_queue := cs\<rparr>))"
proof (cases "ad_status s = READY")
  case False
  with assms show ?thesis by (cases c) (auto simp: wake_inv_def set_caller_def enqueue_def)
next
  case True
  then consider "set_ahead s" | "set_over s" using assms(1) by (auto simp: wake_inv_def)
  then have "set_ahead (run_callback c (s\<lparr>ad_queue := cs\<rparr>)) \<or> set_over (run_callback c (s\<lparr>ad_queue := cs\<rparr>))"
  proof cases
    case 1
    then obtain xs ys where q: "ad_queue s = xs @ SetEvent # ys" "\<forall>i. WaitEvent i \<notin> set ys" "SetEvent \<notin> set xs" "SetEvent \<notin> set ys"
      "ClearEvent \<notin> set (ad_queue s)" "\<not> ad_flag s" "\<forall>i. ad_caller s i \<noteq> Some Resumed" by (auto simp: set_ahead_def)
    show ?thesis
    proof (cases xs)
      case Nil
      have "\<exists>is. ys = map WaitTask is" using q(2,4,5) q(1)
      proof -
        have "\<forall>c \<in> set ys. \<exists>i. c = WaitTask i" using q(1,2,4,5) by (metis UnCI callback.exhaust list.set_intros(2) set_append)
        then show ?thesis by (metis ex_map_conv)
      qed
      then obtain js where "cs = map WaitTask js @ replicate 0 ClearEvent" using Nil q(1) assms(2) by auto
      moreover have "c = SetEvent" using Nil q(1) assms(2) by simp
      ultimately have "set_over (run_callback c (s\<lparr>ad_queue := cs\<rparr>))" unfolding set_over_def using q(6)
        by (intro conjI exI [of _ js] exI [of _ "0::nat"]) auto
      then show ?thesis ..
    next
      case (Cons c' xs')
      then have c: "c = c'" "cs = xs' @ SetEvent # ys" "c \<noteq> SetEvent" "c \<noteq> ClearEvent" using q assms(2) by auto
      have "set_ahead (run_callback c (s\<lparr>ad_queue := cs\<rparr>))"
      proof (cases c)
        case (WaitEvent i)
        have "set_ahead (s\<lparr>ad_queue := xs' @ SetEvent # (ys @ [WaitTask i])\<rparr>)"
          unfolding set_ahead_def using q Cons by (intro conjI exI [of _ xs'] exI [of _ "ys @ [WaitTask i]"]) auto
        with WaitEvent c(2) show ?thesis by (simp add: enqueue_def)
      next
        case (WaitTask i)
        have "set_ahead (s\<lparr>ad_queue := cs\<rparr>)" unfolding set_ahead_def using q Cons c(2) by (intro conjI exI [of _ xs'] exI [of _ ys]) auto
        with WaitTask q(6) show ?thesis by (simp add: set_ahead_caller)
      qed (use c in auto)
      then show ?thesis ..
    qed
  next
    case 2
    then obtain js n where q: "ad_queue s = map WaitTask js @ replicate n ClearEvent" "js \<noteq> [] \<longrightarrow> ad_flag s"
      "\<forall>i. ad_caller s i \<noteq> Some Registered" by (auto simp: set_over_def)
    have "set_over (run_callback c (s\<lparr>ad_queue := cs\<rparr>))"
    proof (cases js)
      case Nil
      with q assms(2) obtain m where "n = Suc m" "c = ClearEvent" "cs = replicate m ClearEvent" by (cases n) auto
      with q show ?thesis by (auto simp: set_over_def intro: exI [of _ "[]"])
    next
      case (Cons j js')
      with q assms(2) have "set_over (s\<lparr>ad_queue := cs\<rparr>)" "c = WaitTask j" by (auto simp: set_over_def)
      with q(2) Cons show ?thesis by (simp add: set_over_caller)
    qed
    then show ?thesis ..
  qed
  moreover have "ad_status (run_callback c (s\<lparr>ad_queue := cs\<rparr>)) = READY" using True by (cases c) (simp_all add: set_caller_def enqueue_def)
  ultimately show ?thesis by (simp add: wake_inv_def)
qed

lemma good_step_wake:
  assumes "good_step s s'" "wake_inv s" "db_inv s"
  shows "wake_inv s'"
proof -
  have "db_step s s'" using assms(1) by (simp add: good_step_def)
  then show ?thesis
  proof cases
    case (created i r)
    have st: "ad_status s = IN_PROGRESS" using assms(3) created(2) by (auto simp: db_inv_def creator_inv_def)
    with assms(1) created(1) obtain d where "r = Inr d"
      by (cases r) (auto simp: good_step_def create_done_def set_caller_def enqueue_def)
    with created(1) wake_created [OF assms(2) st] show ?thesis by simp
  next
    case (resume i)
    have "ad_status s = READY" "set_over s" using assms(2) resume(2) by (auto simp: wake_inv_def set_ahead_def split: if_splits)
    then have "wake_inv (enqueue ClearEvent s)" using set_over_clear [of s] by (simp add: wake_inv_def) (simp add: enqueue_def)
    with resume(1) wake_head show ?thesis by blast
  next
    case (serve i)
    show ?thesis
    proof (cases "ad_status s = READY")
      case True
      with serve(1) assms(2) wake_ready show ?thesis by blast
    next
      case False
      with serve(1) assms(2) show ?thesis by (auto simp: wake_inv_def set_caller_def)
    qed
  qed (use assms(2) wake_head wake_callback in blast)+
qed

lemma good_reachable_wake: "good_reachable s \<Longrightarrow> wake_inv s"
proof (induction rule: rtranclp_induct)
  case base
  show ?case by (simp add: wake_inv_def AsyncDataBase_def)
next
  case (step s s')
  show ?case by (rule good_step_wake [OF step(2,3)]) (rule db_reachable_inv [OF good_db_reachable [OF step(1)]])
qed

text \<open>The event loop runs what is in its queue, at most \<open>n\<close> callbacks.\<close>

fun loop_run :: "nat \<Rightarrow> 'd async_db \<Rightarrow> 'd async_db" where
  "loop_run 0 s = s"
| "loop_run (Suc n) s = (case ad_queue s of [] \<Rightarrow> s | c # cs \<Rightarrow> loop_run n (run_callback c (s\<lparr>ad_queue := cs\<rparr>)))"

fun queue_work :: "callback list \<Rightarrow> nat" where
  "queue_work [] = 0"
| "queue_work (WaitEvent i # q) = 2 + queue_work q"
| "queue_work (c # q) = 1 + queue_work q"

lemma queue_work_append [simp]: "queue_work (p @ q) = queue_work p + queue_work q"
  by (induction p rule: queue_work.induct) auto

lemma queue_work_le: "queue_work q \<le> 2 * length q"
  by (induction q rule: queue_work.induct) auto

lemma run_callback_fields [simp]:
  "ad_status (run_callback c s) = ad_status s" "ad_database (run_callback c s) = ad_database s"
  by (cases c; simp add: set_caller_def enqueue_def)+

abbreviation waiting :: "caller option \<Rightarrow> bool" where
  "waiting c \<equiv> c \<in> {Some Waiting, Some Registered, Some Resumed}"

lemma loop_run_good:
  assumes "good_reachable s" "queue_work (ad_queue s) \<le> n"
  shows "good_step\<^sup>*\<^sup>* s (loop_run n s) \<and> ad_status (loop_run n s) = ad_status s \<and> ad_queue (loop_run n s) = [] \<and>
    (\<forall>i. waiting (ad_caller s i) \<longrightarrow> waiting (ad_caller (loop_run n s) i))"
  using assms
proof (induction n arbitrary: s)
  case 0
  then show ?case by (cases "ad_queue s" rule: queue_work.cases) auto
next
  case (Suc n)
  show ?case
  proof (cases "ad_queue s")
    case (Cons c cs)
    let ?s = "run_callback c (s\<lparr>ad_queue := cs\<rparr>)"
    have st: "good_step s ?s" using Cons db_step.callback [of s c cs] by (auto simp: good_step_def)
    have w: "queue_work (ad_queue ?s) \<le> n" using Suc.prems(2) Cons by (cases c) (simp_all add: set_caller_def enqueue_def)
    have k: "\<forall>i. waiting (ad_caller s i) \<longrightarrow> waiting (ad_caller ?s i)" by (cases c) (auto simp: set_caller_def enqueue_def)
    have "good_reachable ?s" using Suc.prems(1) st by (rule rtranclp.rtrancl_into_rtrancl)
    from Suc.IH [OF this w] st k Cons show ?thesis by (auto intro: converse_rtranclp_into_rtranclp)
  qed simp
qed

text \<open>Claim C17. As long as no creation has failed, no wake-up is lost: once the database is ready, however the
  calls were interleaved, the event loop runs out of callbacks (after at most two for each one it has), and then
  every caller that was waiting has been woken, and uses the database in its next step. (After a failed creation
  wake-ups can be lost: \<open>db_wakeup_lost\<close>.)\<close>

theorem db_waiters_wake:
  assumes "good_reachable s" "ad_status s = READY"
  shows "let s' = loop_run (2 * length (ad_queue s)) s in
    good_step\<^sup>*\<^sup>* s s' \<and> ad_status s' = READY \<and> ad_queue s' = [] \<and>
    (\<forall>i. ad_caller s' i \<notin> {Some Waiting, Some Registered}) \<and>
    (\<forall>i. ad_caller s i \<in> {Some Waiting, Some Registered, Some Resumed} \<longrightarrow> ad_caller s' i = Some Resumed \<and>
       ad_caller (wait_db_creation i (enqueue ClearEvent s')) i = Some Serving)"
proof -
  let ?s = "loop_run (2 * length (ad_queue s)) s"
  note l = loop_run_good [OF assms(1) queue_work_le]
  have r: "good_reachable ?s" using assms(1) l by (meson rtranclp_trans)
  have "\<forall>i. ad_caller ?s i \<noteq> Some Registered" using good_reachable_wake [OF r] l assms(2) by (auto simp: wake_inv_def set_ahead_def set_over_def)
  moreover have i: "db_inv ?s" using db_reachable_inv good_db_reachable r by blast
  then have "\<forall>i. ad_caller ?s i \<noteq> Some Waiting" using l by (simp add: db_inv_def queue_inv_def)
  moreover have "ad_caller (wait_db_creation i (enqueue ClearEvent ?s)) i = Some Serving" for i
    using i l assms(2) by (auto simp: wait_db_creation_def enqueue_def set_caller_def db_inv_def creator_inv_def)
  ultimately show ?thesis using l assms(2) by (auto simp: Let_def)
qed

section \<open>After a failed creation\<close>

text \<open>A run: caller 0 starts the creation, 1 and 2 wait for it, and it fails. Woken, 1 queues its \<open>clear\<close> and starts
  the next creation, 3 queues its \<open>wait\<close>, the creation is done before the loop gets to the queue, and 2 queues its
  \<open>clear\<close> as well. The task of 3 is queued when its \<open>wait\<close> is run, behind that second \<open>clear\<close>.\<close>

abbreviation run_first :: "'d async_db \<Rightarrow> 'd async_db" where
  "run_first s \<equiv> run_callback (hd (ad_queue s)) (s\<lparr>ad_queue := tl (ad_queue s)\<rparr>)"

abbreviation go_on :: "nat \<Rightarrow> 'd async_db \<Rightarrow> 'd async_db" where
  "go_on i s \<equiv> wait_db_creation i (enqueue ClearEvent s)"

abbreviation db_state where
  "db_state st d f q m \<equiv> \<lparr>ad_status = st, ad_database = d, ad_flag = f, ad_queue = q, ad_caller = m\<rparr>"

definition stuck_state :: "nat async_db" where
  "stuck_state = db_state READY (Some 7) False []
     [0 \<mapsto> Raised DataAccessError, 1 \<mapsto> Serving, 2 \<mapsto> Serving, 3 \<mapsto> Registered]"

lemma step_call: "db_reachable s \<Longrightarrow> ad_caller s i = None \<Longrightarrow> db_reachable (wait_db_creation i s)"
  by (meson rtranclp.rtrancl_into_rtrancl db_step.call)

lemma step_created: "db_reachable s \<Longrightarrow> ad_caller s i = Some Creating \<Longrightarrow> db_reachable (create_done i r s)"
  by (meson rtranclp.rtrancl_into_rtrancl db_step.created)

lemma step_first: "db_reachable s \<Longrightarrow> ad_queue s \<noteq> [] \<Longrightarrow> db_reachable (run_first s)"
  by (metis rtranclp.rtrancl_into_rtrancl db_step.callback list.collapse)

lemma step_first_to: "db_reachable s \<Longrightarrow> ad_queue s \<noteq> [] \<Longrightarrow> run_first s = s' \<Longrightarrow> db_reachable s'"
  using step_first by blast

lemma step_go_on: "db_reachable s \<Longrightarrow> ad_caller s i = Some Resumed \<Longrightarrow> db_reachable (go_on i s)"
  by (meson rtranclp.rtrancl_into_rtrancl db_step.resume)

lemmas run_simps = AsyncDataBase_def wait_db_creation_def set_caller_def enqueue_def create_done_def is_data_access_error_def

lemma stuck_reachable: "db_reachable stuck_state"
proof -
  let ?E = "Raised DataAccessError"
  have "db_reachable (db_state IN_PROGRESS None False [] [0 \<mapsto> Creating] :: nat async_db)"
    using step_call [OF rtranclp.rtrancl_refl, of 0] by (simp add: run_simps)
  from step_call [OF step_call [OF this, of 1], of 2]
  have "db_reachable (db_state IN_PROGRESS None False [WaitEvent 1, WaitEvent 2] [0 \<mapsto> Creating, 1 \<mapsto> Waiting, 2 \<mapsto> Waiting] :: nat async_db)"
    by (simp add: run_simps)
  from step_first [OF step_first [OF this]]
  have "db_reachable (db_state IN_PROGRESS None False [WaitTask 1, WaitTask 2] [0 \<mapsto> Creating, 1 \<mapsto> Waiting, 2 \<mapsto> Waiting] :: nat async_db)"
    by (simp add: run_simps)
  from step_first [OF step_first [OF this]]
  have "db_reachable (db_state IN_PROGRESS None False [] [0 \<mapsto> Creating, 1 \<mapsto> Registered, 2 \<mapsto> Registered] :: nat async_db)"
    by (simp add: run_simps)
  from step_created [OF this, of 0 "Inl DataAccessError"]
  have "db_reachable (db_state NOT_CREATED None False [SetEvent] [0 \<mapsto> ?E, 1 \<mapsto> Registered, 2 \<mapsto> Registered] :: nat async_db)"
    by (simp add: run_simps fun_upd_twist)
  then have "db_reachable (db_state NOT_CREATED None True [] [0 \<mapsto> ?E, 1 \<mapsto> Resumed, 2 \<mapsto> Resumed] :: nat async_db)"
    by (rule step_first_to) (simp_all add: fun_eq_iff)
  from step_go_on [OF this, of 1]
  have "db_reachable (db_state IN_PROGRESS None True [ClearEvent] [0 \<mapsto> ?E, 1 \<mapsto> Creating, 2 \<mapsto> Resumed] :: nat async_db)"
    by (simp add: run_simps fun_upd_twist)
  from step_created [OF step_call [OF this, of 3], of 1 "Inr 7"]
  have "db_reachable (db_state READY (Some 7) True [ClearEvent, WaitEvent 3, SetEvent]
      [0 \<mapsto> ?E, 1 \<mapsto> Serving, 2 \<mapsto> Resumed, 3 \<mapsto> Waiting] :: nat async_db)" by (simp add: run_simps fun_upd_twist)
  from step_go_on [OF this, of 2]
  have "db_reachable (db_state READY (Some 7) True [ClearEvent, WaitEvent 3, SetEvent, ClearEvent]
      [0 \<mapsto> ?E, 1 \<mapsto> Serving, 2 \<mapsto> Serving, 3 \<mapsto> Waiting] :: nat async_db)" by (simp add: run_simps fun_upd_twist)
  from step_first [OF step_first [OF this]]
  have "db_reachable (db_state READY (Some 7) False [SetEvent, ClearEvent, WaitTask 3]
      [0 \<mapsto> ?E, 1 \<mapsto> Serving, 2 \<mapsto> Serving, 3 \<mapsto> Waiting] :: nat async_db)" by (simp add: run_simps)
  then have "db_reachable (db_state READY (Some 7) True [ClearEvent, WaitTask 3]
      [0 \<mapsto> ?E, 1 \<mapsto> Serving, 2 \<mapsto> Serving, 3 \<mapsto> Waiting] :: nat async_db)"
    by (rule step_first_to) (simp_all add: fun_eq_iff)
  from step_first [OF step_first [OF this]] show ?thesis by (simp add: run_simps stuck_state_def)
qed

lemma stuck_end: "ad_status stuck_state = READY \<and> ad_queue stuck_state = [] \<and> ad_caller stuck_state 3 = Some Registered"
  by (simp add: stuck_state_def)

text \<open>Nobody sets the event of a database that is ready.\<close>

lemma stuck_step:
  assumes "db_step s s'" "db_inv s" "ad_status s = READY" "SetEvent \<notin> set (ad_queue s)" "ad_caller s i = Some Registered"
  shows "ad_status s' = READY \<and> SetEvent \<notin> set (ad_queue s') \<and> ad_caller s' i = Some Registered"
  using assms(1)
proof cases
  case (callback c cs)
  then have "i \<noteq> j" if "c = WaitTask j" for j
    using assms(2,5) that by (auto simp: db_inv_def queue_inv_def) (metis caller.distinct option.inject)
  with callback assms show ?thesis by (cases c) (auto simp: set_caller_def enqueue_def)
qed (use assms in \<open>auto simp: wait_db_creation_def set_caller_def enqueue_def db_inv_def creator_inv_def\<close>)

text \<open>After a failed creation a wake-up can be lost: the database is ready, nothing is left to run, and a caller
  waits for ever, whatever is called later.\<close>

lemma db_wakeup_lost:
  "\<exists>s :: nat async_db. db_reachable s \<and> ad_status s = READY \<and> ad_queue s = [] \<and>
     (\<forall>s'. db_step\<^sup>*\<^sup>* s s' \<longrightarrow> ad_caller s' 3 = Some Registered)"
proof -
  have "ad_status s' = READY \<and> SetEvent \<notin> set (ad_queue s') \<and> ad_caller s' 3 = Some Registered \<and> db_inv s'"
    if "db_step\<^sup>*\<^sup>* stuck_state s'" for s'
    using that
  proof (induction rule: rtranclp_induct)
    case base
    show ?case using stuck_end db_reachable_inv [OF stuck_reachable] by simp
  next
    case (step s s')
    then show ?case using stuck_step [OF step(2)] db_step_inv by blast
  qed
  with stuck_reachable stuck_end show ?thesis by blast
qed

section \<open>Witnesses\<close>

text \<open>Two calls, of which the first one creates the database.\<close>

definition two_calls :: "nat async_db" where
  "two_calls = create_done 0 (Inr 7) (wait_db_creation 1 (wait_db_creation 0 AsyncDataBase))"

lemma two_calls_good: "good_reachable two_calls"
proof -
  let ?a = "wait_db_creation 0 AsyncDataBase :: nat async_db" and ?b = "wait_db_creation 1 (wait_db_creation 0 AsyncDataBase) :: nat async_db"
  have "good_step AsyncDataBase ?a" unfolding good_step_def by (intro conjI db_step.call) (simp_all add: AsyncDataBase_def)
  moreover have "good_step ?a ?b" unfolding good_step_def
    by (intro conjI db_step.call) (simp_all add: AsyncDataBase_def wait_db_creation_def set_caller_def enqueue_def)
  moreover have "good_step ?b two_calls" unfolding two_calls_def good_step_def
    by (intro conjI db_step.created) (simp_all add: AsyncDataBase_def wait_db_creation_def set_caller_def enqueue_def create_done_def)
  ultimately show ?thesis by (meson rtranclp.rtrancl_into_rtrancl rtranclp.rtrancl_refl)
qed

lemma two_calls_state: "ad_status two_calls = READY" "ad_caller two_calls 1 = Some Waiting" "ad_database two_calls = Some 7"
  "ad_queue two_calls = [WaitEvent 1, SetEvent]"
  by (simp_all add: two_calls_def create_done_def AsyncDataBase_def wait_db_creation_def set_caller_def enqueue_def)

theorem db_created_once_witness: "ad_database two_calls \<noteq> None"
  using db_created_once [OF good_db_reachable [OF two_calls_good]] two_calls_state(1) by simp

theorem db_waiters_wake_witness: "ad_caller (loop_run 4 two_calls) 1 = Some Resumed"
  using db_waiters_wake [OF two_calls_good] two_calls_state(1,2,4) by (simp add: Let_def)

end
