(* ===== verification/ElasticStore.thy ===== *)
theory ElasticStore
  imports ConsulDb
begin

text \<open>
  The storage of objects in Elasticsearch, src/py-utils/src/utils/data/db/elasticsearch_db/storage.py,
  with the generic operations of src/py-utils/src/utils/data/db/generic_storage.py. The client of
  the server (the packages elasticsearch and elasticsearch_dsl) is the record \<open>es_client\<close> of the calls
  the code makes; \<open>es_server\<close> is what is documented of them. The operations are coroutines; each
  is modelled as running without another one in between.
\<close>

section \<open>Queries of the server\<close>

text \<open>The query objects the converter makes with \<open>Q("match", ...)\<close>, \<open>Q("range", ...)\<close>, \<open>&\<close> and \<open>|\<close>.\<close>

datatype es_query =
    Q_match string native
  | Q_range string string native
  | Q_and es_query es_query
  | Q_or es_query es_query

definition match_query :: "string \<Rightarrow> native \<Rightarrow> es_query" where
  "match_query f target = Q_match f target"

definition range_generator :: "string \<Rightarrow> string \<Rightarrow> native \<Rightarrow> es_query" where
  "range_generator op_string f target = Q_range f op_string target"

text \<open>The table \<open>comparison_conversion\<close>: it has no entry for \<open>!=\<close> and \<open>like\<close>.\<close>

fun comparison_conversion :: "comparison \<Rightarrow> pyexc + (string \<Rightarrow> native \<Rightarrow> es_query)" where
  "comparison_conversion OPERATION_EQ = Inr match_query"
| "comparison_conversion OPERATION_LT = Inr (range_generator ''lt'')"
| "comparison_conversion OPERATION_GT = Inr (range_generator ''gt'')"
| "comparison_conversion OPERATION_LEQ = Inr (range_generator ''lte'')"
| "comparison_conversion OPERATION_GEQ = Inr (range_generator ''gte'')"
| "comparison_conversion opr = Inl KeyError"

text \<open>The operand is converted by the field of the comparison, or by the field of the model
  that has the name.\<close>

definition es_handle_compare :: "model_class \<Rightarrow> operand \<Rightarrow> comparison \<Rightarrow> native \<Rightarrow> pyexc + es_query" where
  "es_handle_compare M left opr right = err_bind (field_to_str left) (\<lambda>s.
     err_bind (case left of FieldName n \<Rightarrow> class_field M s | _ \<Rightarrow> Inr s) (\<lambda>f. case mc_native M f right of
       None \<Rightarrow> Inl DataAccessInternalError
     | Some r \<Rightarrow> err_bind (comparison_conversion opr) (\<lambda>mk. Inr (mk s r))))"

text \<open>\<open>build\<close> with \<open>handle_and\<close> and \<open>handle_or\<close>.\<close>

fun es_build :: "model_class \<Rightarrow> ifilter \<Rightarrow> pyexc + es_query"
  and es_build_each :: "model_class \<Rightarrow> ifilter list \<Rightarrow> pyexc + es_query list" where
  "es_build M (FilterOperationCompare left opr right) = es_handle_compare M left opr right"
| "es_build M (FilterOperationAnd fs) = (if length fs < 2 then Inl (PyException ''Exception'')
     else err_bind (es_build_each M fs) (\<lambda>qs. Inr (fold (\<lambda>q ret. Q_and ret q) (tl qs) (hd qs))))"
| "es_build M (FilterOperationOr fs) = (if length fs < 2 then Inl (PyException ''Exception'')
     else err_bind (es_build_each M fs) (\<lambda>qs. Inr (fold (\<lambda>q ret. Q_or ret q) (tl qs) (hd qs))))"
| "es_build_each M [] = Inr []"
| "es_build_each M (f # fs) = err_bind (es_build M f) (\<lambda>q. err_bind (es_build_each M fs) (\<lambda>qs. Inr (q # qs)))"

section \<open>The mapping of an index\<close>

definition LOWERCASE_NORMALIZER :: string where
  "LOWERCASE_NORMALIZER = ''lowercase_normalizer''"

text \<open>The value of \<open>INDEX_SETTINGS\<close> when the module is loaded.\<close>

definition INDEX_SETTINGS :: "(string \<times> pyval) list" where
  "INDEX_SETTINGS = [(''analysis'', PDict [(''normalizer'', PDict [(LOWERCASE_NORMALIZER,
     PDict [(''type'', PStr ''custom''), (''char_filter'', PList []), (''filter'', PList [PStr ''lowercase''])])])])]"

text \<open>The keys of \<open>DATA_MAP\<close> are the classes of the fields, here their names.\<close>

definition DATA_MAP :: "(string \<times> string) list" where
  "DATA_MAP = [(''StringType'', ''keyword''), (''IntType'', ''integer''), (''DateType'', ''date''),
     (''BooleanType'', ''boolean''), (''DateTimeType'', ''date''), (''UTCDateTimeType'', ''date''),
     (''DecimalType'', ''keyword''), (''FloatType'', ''float''), (''LongType'', ''long''),
     (''NumberType'', ''short''), (''ListType'', ''nested'')]"

definition add_property :: "string \<Rightarrow> string \<Rightarrow> (string \<times> pyval) list \<Rightarrow> pyexc + (string \<times> pyval) list" where
  "add_property name property_type properties =
     (if name \<in> fst ` set properties then Inl (PyException ''InternalError'')
      else case map_of DATA_MAP property_type of
        None \<Rightarrow> Inl KeyError
      | Some t \<Rightarrow> Inr (properties @ [(name, PDict ((''type'', PStr t) #
          (if t = ''keyword'' then [(''normalizer'', PStr LOWERCASE_NORMALIZER)] else [])))]))"

fun add_properties :: "(string \<Rightarrow> string) \<Rightarrow> string list \<Rightarrow> (string \<times> pyval) list \<Rightarrow> pyexc + (string \<times> pyval) list" where
  "add_properties fclass [] properties = Inr properties"
| "add_properties fclass (name # names) properties =
     err_bind (add_property name (fclass name) properties) (add_properties fclass names)"

text \<open>\<open>build_index_mappings\<close>: the replication is written into the dict of the module, which the
  mapping holds.\<close>

definition with_replication :: "int \<Rightarrow> (string \<times> pyval) list \<Rightarrow> (string \<times> pyval) list" where
  "with_replication replication settings = (if 0 < replication then
     AList.update ''auto_expand_replicas'' (PStr (show_int replication @ ''-all''))
       (AList.update ''number_of_replicas'' (PStr (show_int replication)) settings) else settings)"

definition build_index_mappings :: "model_class \<Rightarrow> (string \<Rightarrow> string) \<Rightarrow> int \<Rightarrow> (string \<times> pyval) list
    \<Rightarrow> (string \<times> pyval) list \<times> (pyexc + pyval)" where
  "build_index_mappings M fclass replication settings =
     (case add_properties fclass (mc_fields M) [] of
        Inl e \<Rightarrow> (settings, Inl e)
      | Inr properties \<Rightarrow> (let settings' = with_replication replication settings in
          (settings', Inr (PDict [(''mappings'', PDict [(''properties'', PDict properties)]), (''settings'', PDict settings')]))))"

section \<open>The client of the server\<close>

type_synonym es_doc = "(string \<times> native) list"

text \<open>What \<open>search_by_query\<close> puts into a Search object.\<close>

record es_search =
  sr_query :: "es_query option"
  sr_from :: "int option"
  sr_size :: "int option"
  sr_sort :: "(string \<times> string) option"

text \<open>The calls of the client; the first argument of each is the name of the index. A search
  gives the documents of its hits, an update and a delete by query the numbers of documents.\<close>

record 's es_client =
  es_get_alias :: "string \<Rightarrow> 's \<Rightarrow> 's \<times> (pyexc + (string \<times> pyval) list)"
  es_create :: "string \<Rightarrow> pyval \<Rightarrow> 's \<Rightarrow> 's \<times> (pyexc + unit)"
  es_get_index :: "string \<Rightarrow> 's \<Rightarrow> 's \<times> (pyexc + pyval)"
  es_index :: "string \<Rightarrow> string \<times> es_doc \<Rightarrow> 's \<Rightarrow> 's \<times> (pyexc + pyval)"
  es_refresh :: "string \<Rightarrow> 's \<Rightarrow> 's \<times> (pyexc + unit)"
  es_execute :: "string \<Rightarrow> es_search \<Rightarrow> 's \<Rightarrow> 's \<times> (pyexc + pyval list)"
  es_update_by_query :: "string \<Rightarrow> es_query \<times> string \<Rightarrow> 's \<Rightarrow> 's \<times> (pyexc + nat)"
  es_delete_by_query :: "string \<Rightarrow> es_query \<Rightarrow> 's \<Rightarrow> 's \<times> (pyexc + nat)"
  es_count :: "string \<Rightarrow> es_query option \<Rightarrow> 's \<Rightarrow> 's \<times> (pyexc + nat)"

section \<open>Creating a database\<close>

text \<open>The attributes of the class \<open>ElasticSearchDB\<close> and the module's settings; \<open>eg_clients\<close> counts the
  clients that were constructed.\<close>

record es_globals =
  eg_elastic_instance :: bool
  eg_thread_pool :: bool
  eg_loop :: bool
  eg_pool :: bool
  eg_clients :: nat
  eg_settings :: "(string \<times> pyval) list"

definition es_globals_init :: es_globals where
  "es_globals_init = \<lparr>eg_elastic_instance = False, eg_thread_pool = False, eg_loop = False, eg_pool = False,
     eg_clients = 0, eg_settings = INDEX_SETTINGS\<rparr>"

text \<open>The first lines of \<open>create_database\<close>: the pool is assigned to \<open>pool\<close>, \<open>thread_pool\<close> is tested.\<close>

definition es_connect :: "es_globals \<Rightarrow> es_globals" where
  "es_connect g = (if eg_elastic_instance g \<and> eg_thread_pool g \<and> eg_loop g then g
     else g\<lparr>eg_elastic_instance := True, eg_clients := Suc (eg_clients g), eg_pool := True, eg_loop := True\<rparr>)"

text \<open>An object of the class: its collection, which is also its index, and \<open>_model_scheme\<close>, which
  is None until the index is attached.\<close>

definition ElasticSearchDB :: "string \<Rightarrow> consul_db" where
  "ElasticSearchDB collection = \<lparr>cd_collection = collection, cd_scheme = PNone\<rparr>"

definition lower_scheme :: "pyval \<Rightarrow> pyexc + pyval" where
  "lower_scheme v = (case v of PDict d \<Rightarrow> Inr (PDict (fold (\<lambda>(k, v) e. AList.update (map to_lower k) v e) d [])) | _ \<Rightarrow> Inl AttributeError)"

definition ensure_index :: "'s es_client \<Rightarrow> model_class \<Rightarrow> (string \<Rightarrow> string) \<Rightarrow> int \<Rightarrow> string
    \<Rightarrow> (es_globals \<times> 's) \<Rightarrow> (es_globals \<times> 's) \<times> (pyexc + unit)" where
  "ensure_index E M fclass replication index gs = (case gs of (g, s) \<Rightarrow>
     (case es_get_alias E index s of
        (s1, Inl e) \<Rightarrow> ((g, s1), Inl (if e = PyException ''ConnectionError'' then DataAccessExternalError else e))
      | (s1, Inr indices) \<Rightarrow> if map_of indices index \<notin> {None, Some PNone} then ((g, s1), Inr ())
          else (case build_index_mappings M fclass replication (eg_settings g) of
              (st, Inl e) \<Rightarrow> ((g\<lparr>eg_settings := st\<rparr>, s1), Inl e)
            | (st, Inr body) \<Rightarrow> (case es_create E index body s1 of (s2, r) \<Rightarrow> ((g\<lparr>eg_settings := st\<rparr>, s2), r)))))"

definition attach_to_index :: "'s es_client \<Rightarrow> model_class \<Rightarrow> (string \<Rightarrow> string) \<Rightarrow> int \<Rightarrow> consul_db
    \<Rightarrow> (es_globals \<times> 's) \<Rightarrow> (es_globals \<times> 's) \<times> (pyexc + consul_db)" where
  "attach_to_index E M fclass replication db gs =
     st_bind (ensure_index E M fclass replication (cd_collection db) gs) (\<lambda>gs1 _.
       case es_get_index E (cd_collection db) (snd gs1) of
         (s2, Inl e) \<Rightarrow> ((fst gs1, s2), Inl e)
       | (s2, Inr info) \<Rightarrow> ((fst gs1, s2),
           err_bind (py_items info [cd_collection db, ''mappings'', ''properties'']) (\<lambda>v.
           err_bind (lower_scheme v) (\<lambda>scheme. Inr (db\<lparr>cd_scheme := scheme\<rparr>)))))"

definition es_create_database :: "'s es_client \<Rightarrow> model_class \<Rightarrow> (string \<Rightarrow> string) \<Rightarrow> int \<Rightarrow> string \<Rightarrow> bool
    \<Rightarrow> (es_globals \<times> 's) \<Rightarrow> (es_globals \<times> 's) \<times> (pyexc + consul_db)" where
  "es_create_database E M fclass replication collection create_schema gs =
     (let gs1 = (es_connect (fst gs), snd gs); db = ElasticSearchDB collection in
      if \<not> create_schema then (gs1, Inr db)
      else case attach_to_index E M fclass replication db gs1 of
        (gs2, Inr db) \<Rightarrow> (gs2, Inr db)
      | (gs2, Inl e) \<Rightarrow> (gs2, Inl DataAccessExternalError))"

section \<open>Storing\<close>

text \<open>The items of a list are copied by \<open>items()\<close>, which they must have.\<close>

definition nested_items :: "native \<Rightarrow> pyexc + native" where
  "nested_items v = (case v of
      NVal (PList xs) \<Rightarrow> if list_all (\<lambda>x. case x of PDict d \<Rightarrow> True | _ \<Rightarrow> False) xs then Inr v else Inl AttributeError
    | _ \<Rightarrow> Inr v)"

definition es_doc_of :: "string list \<Rightarrow> model_obj \<Rightarrow> pyexc + es_doc" where
  "es_doc_of ks x = err_map (\<lambda>k. err_bind (get_field x k) (\<lambda>v. err_bind (nested_items v) (\<lambda>w. Inr (k, w)))) ks"

definition es_store :: "'s es_client \<Rightarrow> model_class \<Rightarrow> consul_db \<Rightarrow> model_obj \<Rightarrow> 's \<Rightarrow> 's \<times> (pyexc + pyval)" where
  "es_store E M db obj s =
     (case err_bind (generic_store M db obj) (\<lambda>x. err_bind (scheme_keys db) (\<lambda>ks. err_bind (es_doc_of ks x) (\<lambda>doc.
         err_bind (primary_key_val M x) (\<lambda>k. Inr (key_text M k, doc))))) of
        Inl e \<Rightarrow> (s, Inl e)
      | Inr (i, doc) \<Rightarrow> st_bind (es_index E (cd_collection db) (i, doc) s) (\<lambda>s1 result.
          st_bind (es_refresh E (cd_collection db) s1) (\<lambda>s2 _. (s2, Inr result))))"

section \<open>Reading\<close>

definition sort_by :: "model_class \<Rightarrow> order_by \<Rightarrow> pyexc + string \<times> string" where
  "sort_by M ob = (let direction = (if ob_order ob = ASC then ''asc'' else ''desc'') in
     case map_of (ob_kwargs ob) ''string_field_type'' of
       Some v \<Rightarrow> if v \<noteq> PNone \<and> (case ob_field ob of Field f \<Rightarrow> mc_is_string M f | _ \<Rightarrow> False)
         then err_bind (field_to_str (ob_field ob)) (\<lambda>s. Inr (s @ ''.'' @ py_str v, direction))
         else err_bind (field_to_str (ob_field ob)) (\<lambda>s. Inr (s, direction))
     | None \<Rightarrow> err_bind (field_to_str (ob_field ob)) (\<lambda>s. Inr (s, direction)))"

definition search_by_query :: "model_class \<Rightarrow> query \<Rightarrow> pyexc + es_search" where
  "search_by_query M q =
     err_bind (case q_filter_by q of None \<Rightarrow> Inr None | Some f \<Rightarrow> err_bind (es_build M f) (\<lambda>b. Inr (Some b))) (\<lambda>fq.
     err_bind (case q_order_by q of None \<Rightarrow> Inr None | Some ob \<Rightarrow> err_bind (sort_by M ob) (\<lambda>b. Inr (Some b))) (\<lambda>srt.
       Inr \<lparr>sr_query = fq, sr_from = q_offset q, sr_size = q_limit q, sr_sort = srt\<rparr>))"

definition es_get :: "'s es_client \<Rightarrow> model_class \<Rightarrow> consul_db \<Rightarrow> query \<Rightarrow> 's \<Rightarrow> 's \<times> (pyexc + model_obj list)" where
  "es_get E M db q s = (case search_by_query M q of
      Inl e \<Rightarrow> (s, Inl e)
    | Inr search \<Rightarrow> st_bind (es_execute E (cd_collection db) search s) (\<lambda>s1 hits. (s1, err_map (mc_make M) hits)))"

text \<open>The operations by the primary key that the storage inherits.\<close>

definition es_get_by_id :: "'s es_client \<Rightarrow> model_class \<Rightarrow> consul_db \<Rightarrow> native \<Rightarrow> 's \<Rightarrow> 's \<times> (pyexc + model_obj option)" where
  "es_get_by_id E M db obj_id s = (case id_filter M obj_id of
      Inl e \<Rightarrow> (s, Inl e)
    | Inr f \<Rightarrow> st_bind (es_get E M db (query_filter_by Query f) s) (\<lambda>s1 xs. (s1, Inr (if xs = [] then None else Some (last xs)))))"

section \<open>Updating, deleting, counting\<close>

text \<open>\<open>dict_to_source\<close>: a boolean or a number is written as it is, any other value between quotes.
  \<open>time_text\<close> is \<open>strftime\<close> of the default date format.\<close>

definition assign_text :: "(int \<Rightarrow> string) \<Rightarrow> string \<times> native \<Rightarrow> string" where
  "assign_text time_text kv = ''ctx._source.'' @ fst kv @ '' = '' @ (case snd kv of
      NVal (PBool b) \<Rightarrow> (if b then ''true'' else ''false'')
    | NVal (PInt i) \<Rightarrow> py_str (PInt i)
    | NVal (PFloat r) \<Rightarrow> py_str (PFloat r)
    | NVal v \<Rightarrow> [CHR 0x27] @ py_str v @ [CHR 0x27]
    | NTime t \<Rightarrow> [CHR 0x27] @ time_text t @ [CHR 0x27]) @ '';''"

definition dict_to_source :: "(int \<Rightarrow> string) \<Rightarrow> (string \<times> native) list \<Rightarrow> string" where
  "dict_to_source time_text to_update = py_join '' '' (map (assign_text time_text) to_update)"

definition es_update :: "'s es_client \<Rightarrow> model_class \<Rightarrow> (int \<Rightarrow> string) \<Rightarrow> consul_db \<Rightarrow> ifilter \<times> (string \<times> native) list
    \<Rightarrow> 's \<Rightarrow> 's \<times> (pyexc + nat)" where
  "es_update E M time_text db fu s =
     (case err_bind (generic_update M db (snd fu)) (\<lambda>us. err_bind (es_build M (fst fu)) (\<lambda>q. Inr (q, dict_to_source time_text us))) of
        Inl e \<Rightarrow> (s, Inl e)
      | Inr qs \<Rightarrow> st_bind (es_update_by_query E (cd_collection db) qs s) (\<lambda>s1 updated.
          st_bind (es_refresh E (cd_collection db) s1) (\<lambda>s2 _. (s2, Inr updated))))"

definition es_update_by_id :: "'s es_client \<Rightarrow> model_class \<Rightarrow> (int \<Rightarrow> string) \<Rightarrow> consul_db \<Rightarrow> native \<times> (string \<times> native) list
    \<Rightarrow> 's \<Rightarrow> 's \<times> (pyexc + bool)" where
  "es_update_by_id E M time_text db iu s = (case id_filter M (fst iu) of
      Inl e \<Rightarrow> (s, Inl e)
    | Inr f \<Rightarrow> st_bind (es_update E M time_text db (f, snd iu) s) (\<lambda>s1 n. (s1, Inr (0 < n))))"

definition es_delete :: "'s es_client \<Rightarrow> model_class \<Rightarrow> consul_db \<Rightarrow> ifilter \<Rightarrow> 's \<Rightarrow> 's \<times> (pyexc + nat)" where
  "es_delete E M db f s = (case es_build M f of
      Inl e \<Rightarrow> (s, Inl e)
    | Inr q \<Rightarrow> st_bind (es_refresh E (cd_collection db) s) (\<lambda>s1 _.
        case es_delete_by_query E (cd_collection db) q s1 of
          (s2, Inl e) \<Rightarrow> (s2, Inl (if e = PyException ''ConflictError'' then DataAccessExternalError else e))
        | (s2, Inr deleted) \<Rightarrow> (s2, Inr deleted)))"

definition es_delete_by_id :: "'s es_client \<Rightarrow> model_class \<Rightarrow> consul_db \<Rightarrow> native \<Rightarrow> 's \<Rightarrow> 's \<times> (pyexc + bool)" where
  "es_delete_by_id E M db obj_id s = (case id_filter M obj_id of
      Inl e \<Rightarrow> (s, Inl e)
    | Inr f \<Rightarrow> st_bind (es_delete E M db f s) (\<lambda>s1 n. (s1, Inr (0 < n))))"

definition es_db_count :: "'s es_client \<Rightarrow> model_class \<Rightarrow> consul_db \<Rightarrow> ifilter option \<Rightarrow> 's \<Rightarrow> 's \<times> (pyexc + nat)" where
  "es_db_count E M db fo s =
     (case (case fo of None \<Rightarrow> Inr None | Some f \<Rightarrow> err_bind (es_build M f) (\<lambda>q. Inr (Some q))) of
        Inl e \<Rightarrow> (s, Inl e)
      | Inr q \<Rightarrow> es_count E (cd_collection db) q s)"

section \<open>What a query selects\<close>

text \<open>The term of a value in the index: the normalizer of the mapping writes a text in lower case.\<close>

definition es_term :: "(string \<times> pyval) list \<Rightarrow> string \<Rightarrow> native \<Rightarrow> native" where
  "es_term properties f v = (case (map_of properties f, v) of
      (Some (PDict p), NVal (PStr t)) \<Rightarrow>
        if map_of p ''normalizer'' = Some (PStr LOWERCASE_NORMALIZER) then NVal (PStr (map to_lower t)) else v
    | _ \<Rightarrow> v)"

definition in_range :: "string \<Rightarrow> native \<Rightarrow> native \<Rightarrow> bool" where
  "in_range op_string v w = ((if op_string = ''lt'' then native_less w v
     else if op_string = ''gt'' then native_less v w
     else if op_string = ''lte'' then native_leq w v
     else native_leq v w) = Inr True)"

text \<open>The documented meaning of the queries, on the terms \<open>T\<close> of a document.\<close>

fun es_holds :: "(string \<Rightarrow> native \<Rightarrow> native) \<Rightarrow> es_query \<Rightarrow> model_obj \<Rightarrow> bool" where
  "es_holds T (Q_match f v) x = (case x f of None \<Rightarrow> False | Some w \<Rightarrow> native_eq (T f v) (T f w))"
| "es_holds T (Q_range f opr v) x = (case x f of None \<Rightarrow> False | Some w \<Rightarrow> in_range opr (T f v) (T f w))"
| "es_holds T (Q_and p q) x = (es_holds T p x \<and> es_holds T q x)"
| "es_holds T (Q_or p q) x = (es_holds T p x \<or> es_holds T q x)"

text \<open>The same view of a model and of an object: every value is replaced by its term.\<close>

definition term_class :: "(string \<Rightarrow> native \<Rightarrow> native) \<Rightarrow> model_class \<Rightarrow> model_class" where
  "term_class T M = M\<lparr>mc_native := (\<lambda>f v. map_option (T f) (mc_native M f v))\<rparr>"

definition term_obj :: "(string \<Rightarrow> native \<Rightarrow> native) \<Rightarrow> model_obj \<Rightarrow> model_obj" where
  "term_obj T x = (\<lambda>f. map_option (T f) (x f))"

text \<open>The filters that can be converted.\<close>

fun es_ok :: "model_class \<Rightarrow> ifilter \<Rightarrow> bool" where
  "es_ok M (FilterOperationCompare left opr right) = (opr \<notin> {OPERATION_NE, OPERATION_LIKE} \<and> (case left of
      FieldName f \<Rightarrow> f \<in> set (mc_fields M) \<and> mc_native M f right \<noteq> None
    | Field f \<Rightarrow> mc_native M f right \<noteq> None
    | NoField \<Rightarrow> False))"
| "es_ok M (FilterOperationAnd fs) = (2 \<le> length fs \<and> list_all (es_ok M) fs)"
| "es_ok M (FilterOperationOr fs) = (2 \<le> length fs \<and> list_all (es_ok M) fs)"

lemma holds_fold_and: "es_holds T (fold (\<lambda>q ret. Q_and ret q) qs q) x \<longleftrightarrow> es_holds T q x \<and> list_all (\<lambda>q. es_holds T q x) qs"
  by (induction qs arbitrary: q) auto

lemma holds_fold_or: "es_holds T (fold (\<lambda>q ret. Q_or ret q) qs q) x \<longleftrightarrow> es_holds T q x \<or> list_ex (\<lambda>q. es_holds T q x) qs"
  by (induction qs arbitrary: q) auto

lemma compare_ok: "isl (es_handle_compare M left opr right) \<longleftrightarrow> \<not> es_ok M (FilterOperationCompare left opr right)"
  by (cases left; cases opr) (auto simp: es_handle_compare_def field_to_str_def class_field_def split: option.splits)

lemma compare_holds:
  "es_handle_compare M left opr right = Inr q \<Longrightarrow>
     es_holds T q x \<longleftrightarrow> sat (term_class T M) (FilterOperationCompare left opr right) (term_obj T x)"
  by (cases left; cases opr)
    (auto simp: es_handle_compare_def field_to_str_def class_field_def term_class_def term_obj_def match_query_def
      range_generator_def in_range_def split: option.splits if_splits)

lemma build_ok:
  "isl (es_build M f) \<longleftrightarrow> \<not> es_ok M f"
  "isl (es_build_each M fs) \<longleftrightarrow> \<not> list_all (es_ok M) fs"
proof (induction M f and M fs rule: es_build_es_build_each.induct)
  case (1 M left opr right)
  show ?case using compare_ok by simp
next
  case (2 M fs)
  then show ?case by (cases "es_build_each M fs") auto
next
  case (3 M fs)
  then show ?case by (cases "es_build_each M fs") auto
next
  case (5 M f fs)
  then show ?case by (cases "es_build M f"; cases "es_build_each M fs") auto
qed simp

lemma build_holds:
  "es_build M f = Inr q \<Longrightarrow> es_holds T q x \<longleftrightarrow> sat (term_class T M) f (term_obj T x)"
  "es_build_each M fs = Inr qs \<Longrightarrow> map (\<lambda>q. es_holds T q x) qs = map (\<lambda>f. sat (term_class T M) f (term_obj T x)) fs"
proof (induction M f and M fs arbitrary: q and qs rule: es_build_es_build_each.induct)
  case (1 M left opr right)
  then show ?case by (intro compare_holds) simp
next
  case (2 M fs)
  then obtain qs where qs: "es_build_each M fs = Inr qs" "q = fold (\<lambda>q ret. Q_and ret q) (tl qs) (hd qs)" "2 \<le> length fs"
    by (auto simp: err_bind_Inr split: if_splits)
  have m: "map (\<lambda>q. es_holds T q x) qs = map (\<lambda>f. sat (term_class T M) f (term_obj T x)) fs" using 2 qs by auto
  then have "qs \<noteq> []" using qs(3) by auto
  then have "es_holds T q x \<longleftrightarrow> list_all id (map (\<lambda>q. es_holds T q x) qs)"
    unfolding qs(2) holds_fold_and by (cases qs) (auto simp: list_all_iff)
  then show ?case unfolding m by (simp add: list_all_iff)
next
  case (3 M fs)
  then obtain qs where qs: "es_build_each M fs = Inr qs" "q = fold (\<lambda>q ret. Q_or ret q) (tl qs) (hd qs)" "2 \<le> length fs"
    by (auto simp: err_bind_Inr split: if_splits)
  have m: "map (\<lambda>q. es_holds T q x) qs = map (\<lambda>f. sat (term_class T M) f (term_obj T x)) fs" using 3 qs by auto
  then have "qs \<noteq> []" using qs(3) by auto
  then have "es_holds T q x \<longleftrightarrow> list_ex id (map (\<lambda>q. es_holds T q x) qs)"
    unfolding qs(2) holds_fold_or by (cases qs) (auto simp: list_ex_iff)
  then show ?case unfolding m by (simp add: list_ex_iff)
qed (auto simp: err_bind_Inr)

text \<open>Claim C37. The converter makes a query of a filter exactly if the nested conditions have two
  operands at least, each field is one of the model and its operand can be converted, and no
  comparison is '!=' or 'like', for which its table has no entry. The query selects exactly the
  objects that the filter describes when every value is replaced by its term in the index, for
  every nesting of AND and OR. The order relations keep their direction here, unlike in the
  evaluation of filters over the entries of Consul.\<close>

theorem es_query_selects:
  "(isl (es_build M f) \<longleftrightarrow> \<not> es_ok M f)
    \<and> (\<forall>q x. es_build M f = Inr q \<longrightarrow> (es_holds T q x \<longleftrightarrow> sat (term_class T M) f (term_obj T x)))"
  using build_ok(1) build_holds(1) by blast

theorem es_query_selects_witness:
  "\<exists>q. es_build count_model (FilterOperationCompare (Field ''count'') OPERATION_GT (NVal (PInt 3))) = Inr q
    \<and> es_holds (\<lambda>_ v. v) q (count_obj ''b'' 5) \<and> \<not> es_holds (\<lambda>_ v. v) q (count_obj ''a'' 1)"
proof -
  let ?f = "FilterOperationCompare (Field ''count'') OPERATION_GT (NVal (PInt 3))"
  note c = es_query_selects [of count_model ?f "\<lambda>_ v. v"]
  have "es_ok count_model ?f" by (simp add: count_model_def)
  then obtain q where q: "es_build count_model ?f = Inr q" using c by (cases "es_build count_model ?f") auto
  have "es_holds (\<lambda>_ v. v) q x \<longleftrightarrow> sat (term_class (\<lambda>_ v. v) count_model) ?f (term_obj (\<lambda>_ v. v) x)" for x
    using c q by blast
  then show ?thesis using q
    by (simp add: field_to_str_def term_class_def term_obj_def count_class count_obj_def native_less_def)
qed

text \<open>The terms of the mapping that the code writes: a field whose class is mapped to a keyword is
  compared without regard to case, all others as they are.\<close>

lemma add_properties_props:
  "add_properties fclass fs ps = Inr ps' \<Longrightarrow> map fst ps' = map fst ps @ fs
    \<and> (\<forall>f v. map_of ps f = Some v \<longrightarrow> map_of ps' f = Some v)
    \<and> (\<forall>f \<in> set fs. \<exists>t. map_of DATA_MAP (fclass f) = Some t \<and>
        map_of ps' f = Some (PDict ((''type'', PStr t) # (if t = ''keyword'' then [(''normalizer'', PStr LOWERCASE_NORMALIZER)] else []))))"
proof (induction fs arbitrary: ps)
  case (Cons f fs)
  then obtain ps1 where ps1: "add_property f (fclass f) ps = Inr ps1" "add_properties fclass fs ps1 = Inr ps'" by (auto simp: err_bind_Inr)
  then obtain t where t: "map_of DATA_MAP (fclass f) = Some t" "f \<notin> fst ` set ps"
      "ps1 = ps @ [(f, PDict ((''type'', PStr t) # (if t = ''keyword'' then [(''normalizer'', PStr LOWERCASE_NORMALIZER)] else [])))]"
    by (auto simp: add_property_def split: if_splits option.splits)
  have n: "map_of ps f = None" using t(2) by (simp add: map_of_eq_None_iff)
  then have keep: "map_of ps g = Some v \<Longrightarrow> map_of ps1 g = Some v" for g v by (auto simp: t(3) map_add_def)
  have new: "map_of ps1 f = Some (PDict ((''type'', PStr t) # (if t = ''keyword'' then [(''normalizer'', PStr LOWERCASE_NORMALIZER)] else [])))"
    using n by (simp add: t(3) map_add_def)
  note ih = Cons.IH [OF ps1(2)]
  have k: "map fst ps' = map fst ps @ f # fs" using ih by (simp add: t(3))
  moreover have "map_of ps g = Some v \<Longrightarrow> map_of ps' g = Some v" for g v using ih keep by blast
  moreover have "\<exists>t. map_of DATA_MAP (fclass g) = Some t \<and>
        map_of ps' g = Some (PDict ((''type'', PStr t) # (if t = ''keyword'' then [(''normalizer'', PStr LOWERCASE_NORMALIZER)] else [])))"
    if g: "g \<in> set (f # fs)" for g
  proof (cases "g = f")
    case True
    then show ?thesis using ih new t(1) by blast
  next
    case False
    then show ?thesis using ih g by simp
  qed
  ultimately show ?case by blast
qed simp

lemma mapping_terms:
  assumes "add_properties fclass (mc_fields M) [] = Inr ps" "f \<in> set (mc_fields M)"
  shows "es_term ps f (NVal (PStr t)) = NVal (PStr (if map_of DATA_MAP (fclass f) = Some ''keyword'' then map to_lower t else t))"
proof -
  obtain ty where ty: "map_of DATA_MAP (fclass f) = Some ty"
      "map_of ps f = Some (PDict ((''type'', PStr ty) # (if ty = ''keyword'' then [(''normalizer'', PStr LOWERCASE_NORMALIZER)] else [])))"
    using add_properties_props [OF assms(1)] assms(2) by blast
  then show ?thesis by (simp add: es_term_def)
qed

section \<open>What the server promises\<close>

text \<open>An index: its properties, its documents and the documents that searches see, which are
  those of the last refresh.\<close>

record es_ix =
  ix_props :: "(string \<times> pyval) list"
  ix_docs :: "string \<Rightarrow> es_doc option"
  ix_seen :: "string \<Rightarrow> es_doc option"

abbreviation ix_term :: "es_ix \<Rightarrow> string \<Rightarrow> native \<Rightarrow> native" where
  "ix_term ix \<equiv> es_term (ix_props ix)"

definition es_ids :: "(string \<Rightarrow> native \<Rightarrow> native) \<Rightarrow> es_query option \<Rightarrow> (string \<Rightarrow> es_doc option) \<Rightarrow> string set" where
  "es_ids T q m = {i. \<exists>d. m i = Some d \<and> (case q of None \<Rightarrow> True | Some p \<Rightarrow> es_holds T p (map_of d))}"

text \<open>A query with a null operand is refused by the server.\<close>

fun no_null :: "es_query \<Rightarrow> bool" where
  "no_null (Q_match f v) = (v \<noteq> NVal PNone)"
| "no_null (Q_range f opr v) = (v \<noteq> NVal PNone)"
| "no_null (Q_and p q) = (no_null p \<and> no_null q)"
| "no_null (Q_or p q) = (no_null p \<and> no_null q)"

text \<open>A search gives 10 hits unless it asks for another number, and reaches the first 10000.\<close>

definition hits_from :: "es_search \<Rightarrow> nat" where
  "hits_from sr = (case sr_from sr of None \<Rightarrow> 0 | Some n \<Rightarrow> nat n)"

definition hits_size :: "es_search \<Rightarrow> nat" where
  "hits_size sr = (case sr_size sr of None \<Rightarrow> 10 | Some n \<Rightarrow> nat n)"

definition search_ok :: "(string \<times> pyval) list \<Rightarrow> es_search \<Rightarrow> bool" where
  "search_ok properties sr \<longleftrightarrow> pred_option no_null (sr_query sr) \<and> pred_option ((\<le>) 0) (sr_from sr) \<and>
     pred_option ((\<le>) 0) (sr_size sr) \<and> hits_from sr + hits_size sr \<le> 10000 \<and>
     pred_option (\<lambda>(f, d). f \<in> fst ` set properties) (sr_sort sr)"

locale es_server =
  fixes E :: "'s es_client"
    and view :: "'s \<Rightarrow> string \<Rightarrow> es_ix option"
    and accepts :: "string \<Rightarrow> bool"
    and source :: "es_doc \<Rightarrow> pyval"
  assumes alias_law: "\<exists>al. es_get_alias E i s = (s, Inr al) \<and> (map_of al i \<notin> {None, Some PNone} \<longleftrightarrow> view s i \<noteq> None)"
    and create_law: "view s i = None \<Longrightarrow> accepts i \<Longrightarrow>
      \<exists>s'. es_create E i (PDict [(''mappings'', PDict [(''properties'', PDict ps)]), (''settings'', PDict st)]) s = (s', Inr ())
        \<and> view s' = (view s)(i \<mapsto> \<lparr>ix_props = ps, ix_docs = Map.empty, ix_seen = Map.empty\<rparr>)"
    and info_law: "view s i = Some ix \<Longrightarrow> ix_props ix \<noteq> [] \<Longrightarrow>
      \<exists>r. es_get_index E i s = (s, Inr r) \<and> py_items r [i, ''mappings'', ''properties''] = Inr (PDict (ix_props ix))"
    and index_law: "view s i = Some ix \<Longrightarrow> fst ` set d \<subseteq> fst ` set (ix_props ix) \<Longrightarrow>
      \<exists>s' r. es_index E i (k, d) s = (s', Inr r) \<and> view s' = (view s)(i \<mapsto> ix\<lparr>ix_docs := (ix_docs ix)(k \<mapsto> d)\<rparr>)"
    and refresh_law: "view s i = Some ix \<Longrightarrow>
      \<exists>s'. es_refresh E i s = (s', Inr ()) \<and> view s' = (view s)(i \<mapsto> ix\<lparr>ix_seen := ix_docs ix\<rparr>)"
    and search_law: "view s i = Some ix \<Longrightarrow> search_ok (ix_props ix) sr \<Longrightarrow>
      \<exists>ks. distinct ks \<and> set ks = es_ids (ix_term ix) (sr_query sr) (ix_seen ix) \<and> es_execute E i sr s =
        (s, Inr (map (\<lambda>k. source (the (ix_seen ix k))) (take (hits_size sr) (drop (hits_from sr) ks))))"
    and count_law: "view s i = Some ix \<Longrightarrow> pred_option no_null q \<Longrightarrow>
      \<exists>ks. distinct ks \<and> set ks = es_ids (ix_term ix) q (ix_seen ix) \<and> es_count E i q s = (s, Inr (length ks))"
    and delete_law: "view s i = Some ix \<Longrightarrow> ix_seen ix = ix_docs ix \<Longrightarrow> no_null p \<Longrightarrow>
      \<exists>s' ks seen. distinct ks \<and> set ks = es_ids (ix_term ix) (Some p) (ix_docs ix) \<and>
        es_delete_by_query E i p s = (s', Inr (length ks)) \<and>
        seen \<in> {ix_docs ix, (\<lambda>k. if k \<in> set ks then None else ix_docs ix k)} \<and>
        view s' = (view s)(i \<mapsto> ix\<lparr>ix_docs := (\<lambda>k. if k \<in> set ks then None else ix_docs ix k), ix_seen := seen\<rparr>)"

section \<open>An index as a map of objects\<close>

definition es_objs :: "(string \<Rightarrow> es_doc option) \<Rightarrow> string \<Rightarrow> model_obj option" where
  "es_objs m i = map_option map_of (m i)"

definition es_matching :: "model_class \<Rightarrow> es_ix \<Rightarrow> ifilter \<Rightarrow> (string \<Rightarrow> es_doc option) \<Rightarrow> string set" where
  "es_matching M ix f m = {i. \<exists>x. es_objs m i = Some x \<and> sat (term_class (ix_term ix) M) f (term_obj (ix_term ix) x)}"

text \<open>The database is attached to an index of the fields of the model.\<close>

definition es_attached :: "model_class \<Rightarrow> consul_db \<Rightarrow> es_ix \<Rightarrow> bool" where
  "es_attached M db ix \<longleftrightarrow> (\<exists>d. cd_scheme db = PDict d \<and> distinct (map fst d) \<and>
     set (map fst d) = set (mc_fields M)) \<and> fst ` set (ix_props ix) = set (mc_fields M)"

lemma ids_matching: "es_build M f = Inr q \<Longrightarrow> es_ids (ix_term ix) (Some q) m = es_matching M ix f m"
  using build_holds(1) [of M f q "ix_term ix"] by (auto simp: es_ids_def es_matching_def es_objs_def)

text \<open>The document of an object has its fields.\<close>

lemma err_map_doc: "err_map (\<lambda>k. err_bind (get_field x k) (\<lambda>v. err_bind (nested_items v) (\<lambda>w. Inr (k, w)))) ks = Inr d \<Longrightarrow>
    map fst d = ks \<and> (\<forall>k \<in> set ks. map_of d k = x k)"
proof (induction ks arbitrary: d)
  case (Cons k ks)
  then obtain v d' where d: "x k = Some v" "nested_items v = Inr v" "d = (k, v) # d'"
      "err_map (\<lambda>k. err_bind (get_field x k) (\<lambda>v. err_bind (nested_items v) (\<lambda>w. Inr (k, w)))) ks = Inr d'"
    by (auto simp: err_bind_Inr get_field_def nested_items_def split: option.splits native.splits pyval.splits if_splits)
  then show ?case using Cons.IH [OF d(4)] by auto
qed simp

lemma doc_map: "es_doc_of ks x = Inr d \<Longrightarrow> fst ` set d = set ks \<and> map_of d = x |` set ks"
proof -
  assume "es_doc_of ks x = Inr d"
  then have d: "map fst d = ks" "\<forall>k \<in> set ks. map_of d k = x k" using err_map_doc unfolding es_doc_of_def by blast+
  have "map_of d k = (x |` set ks) k" for k
  proof (cases "k \<in> set ks")
    case False
    then have "k \<notin> fst ` set d" using d(1) by (metis set_map)
    then show ?thesis using False by (simp add: map_of_eq_None_iff restrict_map_def)
  qed (use d in simp)
  then show ?thesis using d(1) by (metis set_map ext)
qed

context es_server
begin

lemma store_doc:
  assumes v: "view s (cd_collection db) = Some ix" and a: "es_attached M db ix"
    and g: "generic_store M db obj = Inr x" "primary_key_val M x = Inr k" "\<not> isl (es_doc_of (mc_fields M) x)"
  shows "\<exists>s' r ix'. es_store E M db obj s = (s', Inr r) \<and> view s' = (view s)(cd_collection db \<mapsto> ix')
    \<and> ix_props ix' = ix_props ix \<and> ix_seen ix' = ix_docs ix'
    \<and> es_objs (ix_docs ix') = (es_objs (ix_docs ix))(key_text M k \<mapsto> x |` set (mc_fields M))"
proof -
  obtain sc where sc: "cd_scheme db = PDict sc" "set (map fst sc) = set (mc_fields M)" "fst ` set (ix_props ix) = set (mc_fields M)"
    using a by (auto simp: es_attached_def)
  have items: "\<exists>w. x f = Some w \<and> nested_items w = Inr w" if "f \<in> set fs" "\<not> isl (es_doc_of fs x)" for f fs
    using that
  proof (induction fs)
    case (Cons g fs)
    then obtain d where "es_doc_of (g # fs) x = Inr d" by (cases "es_doc_of (g # fs) x") auto
    then obtain w d' where w: "x g = Some w" "nested_items w = Inr w" "es_doc_of fs x = Inr d'"
      by (auto simp: es_doc_of_def err_bind_Inr get_field_def nested_items_def split: option.splits native.splits pyval.splits if_splits)
    then show ?case using Cons by (cases "f = g") auto
  qed simp
  have "es_doc_of (map fst sc) x = Inr (map (\<lambda>f. (f, the (x f))) (map fst sc))"
    unfolding es_doc_of_def
  proof (intro err_map_Inr ballI)
    fix f assume "f \<in> set (map fst sc)"
    then obtain w where "x f = Some w" "nested_items w = Inr w" using items [of f "mc_fields M"] g(3) sc(2) by blast
    then show "err_bind (get_field x f) (\<lambda>v. err_bind (nested_items v) (\<lambda>w. Inr (f, w))) = Inr (f, the (x f))"
      by (simp add: get_field_def)
  qed
  then obtain d where d: "es_doc_of (map fst sc) x = Inr d" by blast
  note dm = doc_map [OF d]
  obtain s1 r where s1: "es_index E (cd_collection db) (key_text M k, d) s = (s1, Inr r)"
      "view s1 = (view s)(cd_collection db \<mapsto> ix\<lparr>ix_docs := (ix_docs ix)(key_text M k \<mapsto> d)\<rparr>)"
    using index_law [OF v, of d "key_text M k"] dm sc by auto
  obtain s2 where s2: "es_refresh E (cd_collection db) s1 = (s2, Inr ())"
      "view s2 = (view s1)(cd_collection db \<mapsto> ix\<lparr>ix_docs := (ix_docs ix)(key_text M k \<mapsto> d), ix_seen := (ix_docs ix)(key_text M k \<mapsto> d)\<rparr>)"
    using refresh_law [of s1 "cd_collection db"] s1(2) by fastforce
  let ?ix = "ix\<lparr>ix_docs := (ix_docs ix)(key_text M k \<mapsto> d), ix_seen := (ix_docs ix)(key_text M k \<mapsto> d)\<rparr>"
  have "es_store E M db obj s = (s2, Inr r)"
    using g(1,2) d sc(1) s1(1) s2(1) by (simp add: es_store_def scheme_keys_def)
  moreover have "view s2 = (view s)(cd_collection db \<mapsto> ?ix)" using s1(2) s2(2) by simp
  moreover have "es_objs (ix_docs ?ix) = (es_objs (ix_docs ix))(key_text M k \<mapsto> x |` set (mc_fields M))"
    using dm sc(2) by (auto simp: es_objs_def)
  ultimately show ?thesis by (intro exI [of _ s2] exI [of _ r] exI [of _ ?ix]) simp
qed

end

context es_server
begin

lemma matching_finite:
  assumes v: "view s i = Some ix" and b: "es_build M f = Inr q" and n: "no_null q"
  shows "finite (es_matching M ix f (ix_seen ix))"
proof -
  obtain ks where "set ks = es_ids (ix_term ix) (Some q) (ix_seen ix)" using count_law [OF v, of "Some q"] n by auto
  then show ?thesis using ids_matching [OF b] by (metis finite_set)
qed

lemma count_docs:
  assumes v: "view s (cd_collection db) = Some ix" and b: "es_build M f = Inr q" and n: "no_null q"
  shows "es_db_count E M db (Some f) s = (s, Inr (card (es_matching M ix f (ix_seen ix))))"
proof -
  obtain ks where ks: "distinct ks" "set ks = es_ids (ix_term ix) (Some q) (ix_seen ix)"
      "es_count E (cd_collection db) (Some q) s = (s, Inr (length ks))"
    using count_law [OF v, of "Some q"] n by auto
  then show ?thesis using b ids_matching [OF b, of ix] distinct_card [OF ks(1)] by (simp add: es_db_count_def)
qed

lemma get_docs:
  assumes v: "view s (cd_collection db) = Some ix" and b: "es_build M f = Inr q" and n: "no_null q"
    and l: "pred_option (\<lambda>n. 0 \<le> n \<and> n \<le> 10000) l"
    and r: "\<forall>d \<in> ran (ix_seen ix). mc_make M (source d) = Inr (map_of d)"
  shows "\<exists>ks. distinct ks \<and> set ks = es_matching M ix f (ix_seen ix) \<and>
    es_get E M db ((query_filter_by Query f)\<lparr>q_limit := l\<rparr>) s =
      (s, Inr (map (\<lambda>k. the (es_objs (ix_seen ix) k)) (take (case l of None \<Rightarrow> 10 | Some n \<Rightarrow> nat n) ks)))"
proof -
  let ?sr = "\<lparr>sr_query = Some q, sr_from = None, sr_size = l, sr_sort = None\<rparr>"
  have ok: "search_ok (ix_props ix) ?sr" using n l by (cases l) (auto simp: search_ok_def hits_from_def hits_size_def)
  obtain ks where ks: "distinct ks" "set ks = es_ids (ix_term ix) (Some q) (ix_seen ix)"
      "es_execute E (cd_collection db) ?sr s = (s, Inr (map (\<lambda>k. source (the (ix_seen ix k))) (take (hits_size ?sr) (drop (hits_from ?sr) ks))))"
    using search_law [OF v ok] by auto
  have mk: "err_map (mc_make M) (map (\<lambda>k. source (the (ix_seen ix k))) js) = Inr (map (\<lambda>k. the (es_objs (ix_seen ix) k)) js)"
    if "set js \<subseteq> set ks" for js
    using that
  proof (induction js)
    case (Cons k js)
    then obtain d where "ix_seen ix k = Some d" using ks(2) by (auto simp: es_ids_def)
    then show ?case using Cons r by (auto simp: es_objs_def ran_def)
  qed simp
  have "search_by_query M ((query_filter_by Query f)\<lparr>q_limit := l\<rparr>) = Inr ?sr"
    using b by (simp add: search_by_query_def query_filter_by_def Query_def)
  then have "es_get E M db ((query_filter_by Query f)\<lparr>q_limit := l\<rparr>) s =
      (s, Inr (map (\<lambda>k. the (es_objs (ix_seen ix) k)) (take (case l of None \<Rightarrow> 10 | Some n \<Rightarrow> nat n) ks)))"
    using ks(3) mk [OF set_take_subset]
    by (simp add: es_get_def hits_from_def hits_size_def)
  then show ?thesis using ks(1,2) ids_matching [OF b] by auto
qed

lemma delete_docs:
  assumes v: "view s (cd_collection db) = Some ix" and b: "es_build M f = Inr q" and n: "no_null q"
  shows "\<exists>s' ix'. es_delete E M db f s = (s', Inr (card (es_matching M ix f (ix_docs ix))))
    \<and> view s' = (view s)(cd_collection db \<mapsto> ix') \<and> ix_props ix' = ix_props ix
    \<and> ix_seen ix' \<in> {ix_docs ix, ix_docs ix'}
    \<and> es_objs (ix_docs ix') = (\<lambda>k. if k \<in> es_matching M ix f (ix_docs ix) then None else es_objs (ix_docs ix) k)"
proof -
  let ?i = "cd_collection db" and ?ix1 = "ix\<lparr>ix_seen := ix_docs ix\<rparr>"
  obtain s1 where s1: "es_refresh E ?i s = (s1, Inr ())" "view s1 = (view s)(?i \<mapsto> ?ix1)" using refresh_law [OF v] by blast
  have v1: "view s1 ?i = Some ?ix1" "ix_seen ?ix1 = ix_docs ?ix1" using s1(2) by simp_all
  obtain s2 ks seen where d: "distinct ks" "set ks = es_ids (ix_term ?ix1) (Some q) (ix_docs ?ix1)"
      "es_delete_by_query E ?i q s1 = (s2, Inr (length ks))"
      "seen \<in> {ix_docs ?ix1, (\<lambda>k. if k \<in> set ks then None else ix_docs ?ix1 k)}"
      "view s2 = (view s1)(?i \<mapsto> ?ix1\<lparr>ix_docs := (\<lambda>k. if k \<in> set ks then None else ix_docs ?ix1 k), ix_seen := seen\<rparr>)"
    using delete_law [OF v1 n] by blast
  have docs: "ix_docs ?ix1 = ix_docs ix" "ix_term ?ix1 = ix_term ix" by simp_all
  note s2 = d [unfolded docs]
  have m: "set ks = es_matching M ix f (ix_docs ix)" unfolding s2(2) by (rule ids_matching [OF b])
  let ?ix = "?ix1\<lparr>ix_docs := (\<lambda>k. if k \<in> set ks then None else ix_docs ix k), ix_seen := seen\<rparr>"
  have "es_delete E M db f s = (s2, Inr (card (es_matching M ix f (ix_docs ix))))"
    using b s1(1) s2(3) distinct_card [OF s2(1)] by (simp add: es_delete_def m)
  moreover have "view s2 = (view s)(?i \<mapsto> ?ix)" using s1(2) s2(5) by simp
  moreover have "es_objs (ix_docs ?ix) = (\<lambda>k. if k \<in> es_matching M ix f (ix_docs ix) then None else es_objs (ix_docs ix) k)"
    by (auto simp: es_objs_def m)
  ultimately show ?thesis using s2(4) by (intro exI [of _ s2] exI [of _ ?ix]) simp
qed

end

text \<open>The scheme that a database takes from an index has the names of the fields in lower case.\<close>

lemma set_update_key: "fst ` set (AList.update k v e) = insert k (fst ` set e)"
  by (induction e) auto

lemma lower_scheme_keys:
  "lower_scheme (PDict d) = Inr v \<Longrightarrow> \<exists>e. v = PDict e \<and> distinct (map fst e) \<and> set (map fst e) = map to_lower ` fst ` set d"
proof -
  have f: "distinct (map fst e) \<Longrightarrow> distinct (map fst (fold (\<lambda>(k, v) e. AList.update (map to_lower k) v e) d e)) \<and>
      fst ` set (fold (\<lambda>(k, v) e. AList.update (map to_lower k) v e) d e) = fst ` set e \<union> map to_lower ` fst ` set d" for e :: "(string \<times> pyval) list"
  proof (induction d arbitrary: e)
    case (Cons kv d)
    obtain k v where kv: "kv = (k, v)" by fastforce
    have "distinct (map fst (AList.update (map to_lower k) v e))" using Cons.prems by (rule AList.distinct_update)
    from Cons.IH [OF this] show ?case by (auto simp: kv set_update_key)
  qed simp
  assume "lower_scheme (PDict d) = Inr v"
  then show ?thesis using f [of "[]"] by (auto simp: lower_scheme_def)
qed

text \<open>A database made on a new index is attached to it and has no documents. A model with an
  upper-case letter in the name of a field is accepted too, and no object of it can be stored.\<close>

lemma create_attaches:
  assumes "es_server E view accepts source" "view s c = None" "accepts c"
    and "add_properties fclass (mc_fields M) [] = Inr ps" "mc_fields M \<noteq> []" "\<forall>f \<in> set (mc_fields M). map to_lower f = f"
  shows "\<exists>g' s' db ix. es_create_database E M fclass n c True (g, s) = ((g', s'), Inr db) \<and> cd_collection db = c
    \<and> view s' = (view s)(c \<mapsto> ix) \<and> es_attached M db ix \<and> ix_docs ix = Map.empty \<and> ix_seen ix = Map.empty \<and> ix_props ix = ps"
proof -
  have names: "map fst ps = mc_fields M" using add_properties_props [OF assms(4)] by simp
  obtain al where al: "es_get_alias E c s = (s, Inr al)" "map_of al c \<in> {None, Some PNone}"
    using es_server.alias_law [OF assms(1), of c s] assms(2) by auto
  define gs where "gs = with_replication n (eg_settings (es_connect g))"
  obtain s1 where s1: "es_create E c (PDict [(''mappings'', PDict [(''properties'', PDict ps)]), (''settings'', PDict gs)]) s = (s1, Inr ())"
      "view s1 = (view s)(c \<mapsto> \<lparr>ix_props = ps, ix_docs = Map.empty, ix_seen = Map.empty\<rparr>)"
    using es_server.create_law [OF assms(1,2,3)] by blast
  have "ps \<noteq> []" using names assms(5) by auto
  then obtain r where r: "es_get_index E c s1 = (s1, Inr r)" "py_items r [c, ''mappings'', ''properties''] = Inr (PDict ps)"
    using es_server.info_law [OF assms(1), of s1 c] s1(2) by fastforce
  obtain v where v: "lower_scheme (PDict ps) = Inr v" by (simp add: lower_scheme_def)
  obtain e where e: "v = PDict e" "distinct (map fst e)" "set (map fst e) = map to_lower ` fst ` set ps"
    using lower_scheme_keys [OF v] by blast
  have ns: "fst ` set ps = set (mc_fields M)" using names by (metis set_map)
  have "map to_lower ` set (mc_fields M) = set (mc_fields M)" using assms(6) by force
  then have ke: "set (map fst e) = set (mc_fields M)" using e(3) ns by simp
  let ?g = "(es_connect g)\<lparr>eg_settings := gs\<rparr>" and ?db = "(ElasticSearchDB c)\<lparr>cd_scheme := v\<rparr>"
  let ?ix = "\<lparr>ix_props = ps, ix_docs = Map.empty, ix_seen = Map.empty\<rparr>"
  have en: "ensure_index E M fclass n c (es_connect g, s) = ((?g, s1), Inr ())"
    using al(1) s1(1) assms(4) al(2) by (auto simp: ensure_index_def build_index_mappings_def Let_def gs_def)
  have "attach_to_index E M fclass n (ElasticSearchDB c) (es_connect g, s) = ((?g, s1), Inr ?db)"
    using en r v by (simp add: attach_to_index_def ElasticSearchDB_def del: py_items.simps)
  then have "es_create_database E M fclass n c True (g, s) = ((?g, s1), Inr ?db)"
    by (simp add: es_create_database_def Let_def)
  moreover have "es_attached M ?db ?ix" using e ke ns by (auto simp: es_attached_def)
  ultimately show ?thesis using s1(2)
    by (intro exI [of _ ?g] exI [of _ s1] exI [of _ ?db] exI [of _ ?ix]) (simp add: ElasticSearchDB_def)
qed

lemma upper_case_fields:
  assumes "cd_scheme db = PDict e" "set (map fst e) = map to_lower ` set (mc_fields M)"
    "f \<in> set (mc_fields M)" "map to_lower f \<notin> set (mc_fields M)"
  shows "\<exists>e. es_store E M db obj s = (s, Inl e)"
proof -
  have "map to_lower f \<in> set (map fst e)" unfolding assms(2) using assms(3) by blast
  then have "\<not> set (map fst e) \<subseteq> set (mc_fields M)" using assms(4) by blast
  then show ?thesis using assms(1) by (auto simp: es_store_def generic_store_def scheme_keys_def split: option.splits)
qed

text \<open>Each call constructs another client, because \<open>thread_pool\<close> stays unset, and a replication
  that was asked for stays in the settings of all indices that are created later.\<close>

lemma connect_each_time: "\<not> eg_thread_pool g \<Longrightarrow> eg_clients (es_connect g) = Suc (eg_clients g) \<and> \<not> eg_thread_pool (es_connect g)"
  by (simp add: es_connect_def)

lemma replication_stays:
  "\<exists>st b. build_index_mappings count_model (\<lambda>_. ''IntType'') 2 INDEX_SETTINGS = (st, Inr b)
    \<and> (\<exists>b'. build_index_mappings count_model (\<lambda>_. ''IntType'') 0 st = (st, Inr b')
      \<and> py_items b' [''settings'', ''number_of_replicas''] = Inr (PStr ''2''))"
proof -
  have "show_int 2 = ''2''" by code_simp
  then show ?thesis
    by (simp add: build_index_mappings_def count_model_def add_property_def DATA_MAP_def with_replication_def INDEX_SETTINGS_def
      LOWERCASE_NORMALIZER_def Let_def)
qed

text \<open>A text is put between quotes as it is. The script of an update of one field is the script of
  an update of two fields, if the text holds the end of the quote.\<close>

lemma script_injection:
  "dict_to_source T [(''name'', NVal (PStr (''x'' @ [CHR 0x27] @ ''; ctx._source.role = '' @ [CHR 0x27] @ ''admin'')))]
     = dict_to_source T [(''name'', NVal (PStr ''x'')), (''role'', NVal (PStr ''admin''))]"
  by (simp add: dict_to_source_def assign_text_def py_str_def)

section \<open>A server that keeps its indices in lists\<close>

record es_cell =
  ce_props :: "(string \<times> pyval) list"
  ce_docs :: "(string \<times> es_doc) list"
  ce_seen :: "(string \<times> es_doc) list"

type_synonym es_cells = "(string \<times> es_cell) list"

definition cell_view :: "es_cells \<Rightarrow> string \<Rightarrow> es_ix option" where
  "cell_view s i = map_option (\<lambda>c. \<lparr>ix_props = ce_props c, ix_docs = map_of (ce_docs c), ix_seen = map_of (ce_seen c)\<rparr>) (map_of s i)"

definition on_cell :: "string \<Rightarrow> (es_cell \<Rightarrow> es_cell \<times> 'a) \<Rightarrow> es_cells \<Rightarrow> es_cells \<times> (pyexc + 'a)" where
  "on_cell i f s = (case map_of s i of None \<Rightarrow> (s, Inl (PyException ''NotFoundError''))
     | Some c \<Rightarrow> (case f c of (c', a) \<Rightarrow> (AList.update i c' s, Inr a)))"

definition of_cell :: "string \<Rightarrow> (es_cell \<Rightarrow> 'a) \<Rightarrow> es_cells \<Rightarrow> es_cells \<times> (pyexc + 'a)" where
  "of_cell i f s = (s, case map_of s i of None \<Rightarrow> Inl (PyException ''NotFoundError'') | Some c \<Rightarrow> Inr (f c))"

definition doc_hits :: "es_cell \<Rightarrow> es_query option \<Rightarrow> (string \<times> es_doc) list \<Rightarrow> string list" where
  "doc_hits c q ds = filter (\<lambda>k. case map_of ds k of None \<Rightarrow> False
     | Some d \<Rightarrow> (case q of None \<Rightarrow> True | Some p \<Rightarrow> es_holds (es_term (ce_props c)) p (map_of d))) (remdups (map fst ds))"

definition plain_source :: "es_doc \<Rightarrow> pyval" where
  "plain_source d = PDict (map (\<lambda>(k, v). (k, case v of NVal w \<Rightarrow> w | NTime t \<Rightarrow> PInt t)) d)"

definition list_es :: "es_cells es_client" where
  "list_es = \<lparr>
     es_get_alias = (\<lambda>i s. (s, Inr (map (\<lambda>(j, c). (j, PDict [])) s))),
     es_create = (\<lambda>i body s. case py_items body [''mappings'', ''properties''] of
         Inr (PDict ps) \<Rightarrow> (AList.update i \<lparr>ce_props = ps, ce_docs = [], ce_seen = []\<rparr> s, Inr ())
       | _ \<Rightarrow> (s, Inl (PyException ''RequestError''))),
     es_get_index = (\<lambda>i. of_cell i (\<lambda>c. PDict [(i, PDict [(''mappings'', PDict [(''properties'', PDict (ce_props c))])])])),
     es_index = (\<lambda>i (k, d). on_cell i (\<lambda>c. (c\<lparr>ce_docs := AList.update k d (ce_docs c)\<rparr>, PNone))),
     es_refresh = (\<lambda>i. on_cell i (\<lambda>c. (c\<lparr>ce_seen := ce_docs c\<rparr>, ()))),
     es_execute = (\<lambda>i sr. of_cell i (\<lambda>c. map (\<lambda>k. plain_source (the (map_of (ce_seen c) k)))
       (take (hits_size sr) (drop (hits_from sr) (doc_hits c (sr_query sr) (ce_seen c)))))),
     es_update_by_query = (\<lambda>i qs. of_cell i (\<lambda>c. 0)),
     es_delete_by_query = (\<lambda>i q. on_cell i (\<lambda>c. let ks = doc_hits c (Some q) (ce_docs c) in
       (c\<lparr>ce_docs := filter (\<lambda>e. fst e \<notin> set ks) (ce_docs c)\<rparr>, length ks))),
     es_count = (\<lambda>i q. of_cell i (\<lambda>c. length (doc_hits c q (ce_seen c))))\<rparr>"

lemma doc_hits_ids: "distinct (doc_hits c q ds)" "set (doc_hits c q ds) = es_ids (es_term (ce_props c)) q (map_of ds)"
proof -
  have "map_of ds k = Some d \<Longrightarrow> k \<in> fst ` set ds" for k d by (metis domI dom_map_of_conv_image_fst)
  then show "set (doc_hits c q ds) = es_ids (es_term (ce_props c)) q (map_of ds)"
    by (auto simp: doc_hits_def es_ids_def split: option.splits)
qed (simp add: doc_hits_def)

lemma cell_view_Some: "cell_view s i = Some ix \<longleftrightarrow>
    (\<exists>c. map_of s i = Some c \<and> ix = \<lparr>ix_props = ce_props c, ix_docs = map_of (ce_docs c), ix_seen = map_of (ce_seen c)\<rparr>)"
  by (auto simp: cell_view_def)

lemma cell_view_update: "cell_view (AList.update i c s) = (cell_view s)(i \<mapsto>
    \<lparr>ix_props = ce_props c, ix_docs = map_of (ce_docs c), ix_seen = map_of (ce_seen c)\<rparr>)"
  by (rule ext) (simp add: cell_view_def AList.update_conv')

interpretation le: es_server list_es cell_view "\<lambda>_. True" plain_source
proof
  fix i and s :: es_cells
  have "map_of (map (\<lambda>(j, c). (j, PDict [])) s) i = map_option (\<lambda>_. PDict []) (map_of s i)" by (induction s) auto
  then show "\<exists>al. es_get_alias list_es i s = (s, Inr al) \<and> (map_of al i \<notin> {None, Some PNone} \<longleftrightarrow> cell_view s i \<noteq> None)"
    by (auto simp: list_es_def cell_view_def)
next
  fix s i ps st
  show "\<exists>s'. es_create list_es i (PDict [(''mappings'', PDict [(''properties'', PDict ps)]), (''settings'', PDict st)]) s = (s', Inr ())
        \<and> cell_view s' = (cell_view s)(i \<mapsto> \<lparr>ix_props = ps, ix_docs = Map.empty, ix_seen = Map.empty\<rparr>)"
    by (simp add: list_es_def cell_view_update)
next
  fix s i ix assume "cell_view s i = Some ix"
  then show "\<exists>r. es_get_index list_es i s = (s, Inr r) \<and> py_items r [i, ''mappings'', ''properties''] = Inr (PDict (ix_props ix))"
    by (auto simp: list_es_def cell_view_Some of_cell_def)
next
  fix s i ix k and d :: es_doc assume "cell_view s i = Some ix"
  then show "\<exists>s' r. es_index list_es i (k, d) s = (s', Inr r) \<and> cell_view s' = (cell_view s)(i \<mapsto> ix\<lparr>ix_docs := (ix_docs ix)(k \<mapsto> d)\<rparr>)"
    by (auto simp: list_es_def cell_view_Some on_cell_def cell_view_update AList.update_conv')
next
  fix s i ix assume "cell_view s i = Some ix"
  then show "\<exists>s'. es_refresh list_es i s = (s', Inr ()) \<and> cell_view s' = (cell_view s)(i \<mapsto> ix\<lparr>ix_seen := ix_docs ix\<rparr>)"
    by (auto simp: list_es_def cell_view_Some on_cell_def cell_view_update)
next
  fix s i ix sr assume "cell_view s i = Some ix"
  then obtain c where c: "map_of s i = Some c" "ix = \<lparr>ix_props = ce_props c, ix_docs = map_of (ce_docs c), ix_seen = map_of (ce_seen c)\<rparr>"
    by (auto simp: cell_view_Some)
  then show "\<exists>ks. distinct ks \<and> set ks = es_ids (ix_term ix) (sr_query sr) (ix_seen ix) \<and> es_execute list_es i sr s =
        (s, Inr (map (\<lambda>k. plain_source (the (ix_seen ix k))) (take (hits_size sr) (drop (hits_from sr) ks))))"
    by (intro exI [of _ "doc_hits c (sr_query sr) (ce_seen c)"]) (simp add: list_es_def of_cell_def doc_hits_ids)
next
  fix s i ix q assume "cell_view s i = Some ix"
  then obtain c where c: "map_of s i = Some c" "ix = \<lparr>ix_props = ce_props c, ix_docs = map_of (ce_docs c), ix_seen = map_of (ce_seen c)\<rparr>"
    by (auto simp: cell_view_Some)
  then show "\<exists>ks. distinct ks \<and> set ks = es_ids (ix_term ix) q (ix_seen ix) \<and> es_count list_es i q s = (s, Inr (length ks))"
    by (intro exI [of _ "doc_hits c q (ce_seen c)"]) (simp add: list_es_def of_cell_def doc_hits_ids)
next
  fix s i ix q assume a: "cell_view s i = Some ix" "ix_seen ix = ix_docs ix"
  then obtain c where c: "map_of s i = Some c" "ix = \<lparr>ix_props = ce_props c, ix_docs = map_of (ce_docs c), ix_seen = map_of (ce_seen c)\<rparr>"
    by (auto simp: cell_view_Some)
  let ?ks = "doc_hits c (Some q) (ce_docs c)"
  have "map_of (filter (\<lambda>e. fst e \<notin> set ?ks) (ce_docs c)) = (\<lambda>k. if k \<in> set ?ks then None else map_of (ce_docs c) k)"
    by (rule ext) (simp add: map_of_filter_keys [where P = "\<lambda>k. k \<notin> set ?ks"])
  then show "\<exists>s' ks seen. distinct ks \<and> set ks = es_ids (ix_term ix) (Some q) (ix_docs ix) \<and>
        es_delete_by_query list_es i q s = (s', Inr (length ks)) \<and>
        seen \<in> {ix_docs ix, (\<lambda>k. if k \<in> set ks then None else ix_docs ix k)} \<and>
        cell_view s' = (cell_view s)(i \<mapsto> ix\<lparr>ix_docs := (\<lambda>k. if k \<in> set ks then None else ix_docs ix k), ix_seen := seen\<rparr>)"
    using a(2) c(1) unfolding c(2) by (intro exI [of _ "fst (es_delete_by_query list_es i q s)"] exI [of _ ?ks] exI [of _ "map_of (ce_docs c)"])
      (simp add: list_es_def on_cell_def Let_def doc_hits_ids cell_view_update cong: if_cong)
qed

section \<open>The storage as a map of objects\<close>

text \<open>Claim C13. On a server that works, an index to which a database is attached is a map of objects
  by the texts of their primary keys. Storing a valid object writes its fields at its key,
  changes nothing else, and makes every document visible to searches. A query returns objects
  that its filter selects, each once: as many as its limit says, and only ten when it has none.
  Counting counts the visible documents that match. A delete removes exactly the documents that
  match, those not yet visible too, and returns their number; it leaves the searches as they were
  or refreshed, so that a query after it may still return what was deleted.\<close>

theorem es_db_refines:
  assumes "es_server E view accepts source" "view s (cd_collection db) = Some ix" "es_attached M db ix"
    and "generic_store M db obj = Inr x" "primary_key_val M x = Inr k" "\<not> isl (es_doc_of (mc_fields M) x)"
    and "es_build M f = Inr q" "no_null q" "pred_option (\<lambda>n. 0 \<le> n \<and> n \<le> 10000) l"
    and "\<forall>d \<in> ran (ix_seen ix). mc_make M (source d) = Inr (map_of d)"
  shows "(\<exists>s' r ix'. es_store E M db obj s = (s', Inr r) \<and> view s' = (view s)(cd_collection db \<mapsto> ix')
      \<and> ix_props ix' = ix_props ix \<and> ix_seen ix' = ix_docs ix'
      \<and> es_objs (ix_docs ix') = (es_objs (ix_docs ix))(key_text M k \<mapsto> x |` set (mc_fields M)))
    \<and> (\<exists>ks. distinct ks \<and> set ks = es_matching M ix f (ix_seen ix)
      \<and> es_get E M db ((query_filter_by Query f)\<lparr>q_limit := l\<rparr>) s =
        (s, Inr (map (\<lambda>k. the (es_objs (ix_seen ix) k)) (take (case l of None \<Rightarrow> 10 | Some n \<Rightarrow> nat n) ks))))
    \<and> es_db_count E M db (Some f) s = (s, Inr (card (es_matching M ix f (ix_seen ix))))
    \<and> (\<exists>s' ix'. es_delete E M db f s = (s', Inr (card (es_matching M ix f (ix_docs ix))))
      \<and> view s' = (view s)(cd_collection db \<mapsto> ix') \<and> ix_props ix' = ix_props ix
      \<and> ix_seen ix' \<in> {ix_docs ix, ix_docs ix'}
      \<and> es_objs (ix_docs ix') = (\<lambda>k. if k \<in> es_matching M ix f (ix_docs ix) then None else es_objs (ix_docs ix) k))"
  by (intro conjI es_server.store_doc [OF assms(1-6)] es_server.get_docs [OF assms(1,2,7-10)]
      es_server.count_docs [OF assms(1,2,7,8)] es_server.delete_docs [OF assms(1,2,7,8)])

definition count_doc :: "string \<Rightarrow> int \<Rightarrow> es_doc" where
  "count_doc n c = [(''name'', NVal (PStr n)), (''count'', NVal (PInt c))]"

definition count_cell :: es_cell where
  "count_cell = \<lparr>ce_props = [(''name'', PDict [(''type'', PStr ''keyword'')]), (''count'', PDict [(''type'', PStr ''integer'')])],
     ce_docs = [(''b'', count_doc ''b'' 7)], ce_seen = [(''b'', count_doc ''b'' 7)]\<rparr>"

theorem es_db_refines_witness:
  "(\<exists>s' r. es_store list_es count_model count_db (count_obj ''A'' 5) [(''counts'', count_cell)] = (s', Inr r))
    \<and> es_db_count list_es count_model count_db (Some (FilterOperationCompare (Field ''count'') OPERATION_EQ (NVal (PInt 7))))
        [(''counts'', count_cell)] = ([(''counts'', count_cell)], Inr 1)
    \<and> (\<exists>s'. es_delete list_es count_model count_db (FilterOperationCompare (Field ''count'') OPERATION_EQ (NVal (PInt 7)))
        [(''counts'', count_cell)] = (s', Inr 1))"
proof -
  let ?f = "FilterOperationCompare (Field ''count'') OPERATION_EQ (NVal (PInt 7))" and ?s = "[(''counts'', count_cell)]"
  define ix where "ix = \<lparr>ix_props = ce_props count_cell, ix_docs = map_of (ce_docs count_cell), ix_seen = map_of (ce_seen count_cell)\<rparr>"
  have v: "cell_view ?s (cd_collection count_db) = Some ix" by (simp add: cell_view_def count_db_def ix_def)
  have a: "es_attached count_model count_db ix" by (simp add: es_attached_def count_db_def count_model_def ix_def count_cell_def)
  have g: "generic_store count_model count_db (count_obj ''A'' 5) = Inr (count_obj ''A'' 5)"
    by (simp add: generic_store_def count_model_def count_obj_def scheme_keys_def count_db_def)
  have k: "primary_key_val count_model (count_obj ''A'' 5) = Inr (NVal (PStr ''A''))"
    by (simp add: primary_key_val_def primary_key_def count_model_def get_field_def count_obj_def)
  have d: "\<not> isl (es_doc_of (mc_fields count_model) (count_obj ''A'' 5))"
    by (simp add: es_doc_of_def count_class get_field_def count_obj_def nested_items_def)
  have b: "es_build count_model ?f = Inr (Q_match ''count'' (NVal (PInt 7)))"
    by (simp add: es_handle_compare_def field_to_str_def count_class match_query_def)
  have n: "no_null (Q_match ''count'' (NVal (PInt 7)))" "pred_option (\<lambda>n. 0 \<le> n \<and> n \<le> 10000) (None :: int option)" by simp_all
  have o: "map_of (count_doc ''b'' 7) = count_obj ''b'' 7" by (rule ext) (simp add: count_doc_def count_obj_def)
  have "plain_source (count_doc ''b'' 7) = PDict [(''name'', PStr ''b''), (''count'', PInt 7)]" by (simp add: plain_source_def count_doc_def)
  then have r: "\<forall>d \<in> ran (ix_seen ix). mc_make count_model (plain_source d) = Inr (map_of d)"
    by (auto simp: ix_def count_cell_def count_make o ran_def split: if_splits)
  have m: "es_matching count_model ix ?f (ix_docs ix) = {''b''}" "es_matching count_model ix ?f (ix_seen ix) = {''b''}"
    by (auto simp: es_matching_def es_objs_def ix_def count_cell_def o field_to_str_def term_class_def term_obj_def
        count_class count_obj_def es_term_def native_eq_def split: if_splits)
  note t = es_db_refines [OF le.es_server_axioms, OF v, OF a, OF g, OF k, OF d, OF b, OF n, OF r, unfolded m]
  from t have "\<exists>s' r. es_store list_es count_model count_db (count_obj ''A'' 5) ?s = (s', Inr r)" by blast
  moreover from t have "es_db_count list_es count_model count_db (Some ?f) ?s = (?s, Inr 1)" by simp
  moreover from t have "\<exists>s'. es_delete list_es count_model count_db ?f ?s = (s', Inr 1)" by auto
  ultimately show ?thesis by blast
qed

text \<open>A delete leaves what a search sees: on this server the count after it is still one.\<close>

lemma count_after_delete:
  "\<exists>s'. es_delete list_es count_model count_db (FilterOperationCompare (Field ''count'') OPERATION_EQ (NVal (PInt 7)))
       [(''counts'', count_cell)] = (s', Inr 1)
    \<and> es_db_count list_es count_model count_db (Some (FilterOperationCompare (Field ''count'') OPERATION_EQ (NVal (PInt 7)))) s' = (s', Inr 1)"
  by (simp add: es_delete_def es_db_count_def es_handle_compare_def field_to_str_def count_class match_query_def list_es_def
      on_cell_def of_cell_def count_db_def count_cell_def doc_hits_def count_doc_def es_term_def native_eq_def)

end
