(* ===== verification/DirStore.thy ===== *)
theory DirStore
  imports PyOps KvPayload PyText
begin

text \<open>
  The directory store of src/py-utils/src/utils/kv_store/kv_store_collection.py: DirKvPayload and
  DirKvStore keep one file per key below a directory. The directory is a tree; its entries are in
  the order in which the system lists them. The parts of a key are names of files: not empty,
  without a slash, and not one or two dots, which \<open>os.path.join\<close> would take as other paths.
\<close>

section \<open>Directories\<close>

datatype fnode = File string | Dir "(string \<times> fnode) list"

abbreviation EISDIR :: int where "EISDIR \<equiv> 21"
abbreviation ENOTDIR :: int where "ENOTDIR \<equiv> 20"

fun node_at :: "fnode \<Rightarrow> string list \<Rightarrow> fnode option" where
  "node_at n [] = Some n"
| "node_at (File s) (p # ps) = None"
| "node_at (Dir es) (p # ps) = (case map_of es p of None \<Rightarrow> None | Some n \<Rightarrow> node_at n ps)"

definition is_dir :: "fnode option \<Rightarrow> bool" where
  "is_dir n = (case n of Some (Dir es) \<Rightarrow> True | _ \<Rightarrow> False)"

definition is_file :: "fnode option \<Rightarrow> bool" where
  "is_file n = (case n of Some (File s) \<Rightarrow> True | _ \<Rightarrow> False)"

text \<open>\<open>os.makedirs(path, exist_ok=True)\<close>: None where a part of the path is a file.\<close>

fun make_dirs :: "string list \<Rightarrow> fnode \<Rightarrow> fnode option" where
  "make_dirs ps (File s) = None"
| "make_dirs [] (Dir es) = Some (Dir es)"
| "make_dirs (p # ps) (Dir es) = map_option (\<lambda>n. Dir (AList.update p n es))
     (make_dirs ps (case map_of es p of None \<Rightarrow> Dir [] | Some n \<Rightarrow> n))"

text \<open>Writing a file whose directory exists, and \<open>os.remove\<close> or \<open>shutil.rmtree\<close> of an entry.\<close>

fun put_file :: "string list \<Rightarrow> string \<Rightarrow> fnode \<Rightarrow> fnode" where
  "put_file [] s n = File s"
| "put_file (p # ps) s (File t) = File t"
| "put_file (p # ps) s (Dir es) =
     Dir (AList.update p (put_file ps s (case map_of es p of None \<Rightarrow> File [] | Some n \<Rightarrow> n)) es)"

fun remove_at :: "string list \<Rightarrow> fnode \<Rightarrow> fnode" where
  "remove_at [p] (Dir es) = Dir (AList.delete p es)"
| "remove_at (p # q # ps) (Dir es) = (case map_of es p of
      None \<Rightarrow> Dir es
    | Some n \<Rightarrow> Dir (AList.update p (remove_at (q # ps) n) es))"
| "remove_at ps n = n"

text \<open>\<open>os.walk\<close>: for each directory, the parts of its path and the names of its files.\<close>

definition file_names :: "(string \<times> fnode) list \<Rightarrow> string list" where
  "file_names es = map fst (filter (\<lambda>e. is_file (Some (snd e))) es)"

fun walk :: "string list \<Rightarrow> fnode \<Rightarrow> (string list \<times> string list) list" where
  "walk d (File s) = []"
| "walk d (Dir es) = (d, file_names es) # concat (map (\<lambda>e. walk (d @ [fst e]) (snd e)) es)"

section \<open>DirKvPayload\<close>

text \<open>The tree below the directory with the list \<open>_keys\<close>, as the other payloads have it.\<close>

type_synonym dir_payload = "fnode \<times> string list"

text \<open>\<open>_key_to_path\<close>, for the parts below the directory, and \<open>_path_to_key\<close>, which works on the text
  of the path. Only for a key of which every part is the name of a file does \<open>os.path.join\<close> give the
  path that has the parts of the key as its own (\<open>file_key\<close>).\<close>

definition file_key :: "char \<Rightarrow> string \<Rightarrow> bool" where
  "file_key c key \<longleftrightarrow> (\<forall>p \<in> set (py_split c key). p \<noteq> [] \<and> p \<noteq> ''.'' \<and> p \<noteq> ''..'' \<and> CHR ''/'' \<notin> set p)"

definition key_to_path :: "char \<Rightarrow> string option \<Rightarrow> string list" where
  "key_to_path c key = (case key of None \<Rightarrow> [] | Some k \<Rightarrow> py_split c k)"

definition path_text :: "string \<Rightarrow> string list \<Rightarrow> string" where
  "path_text base ps = py_join ''/'' (base # ps)"

definition path_to_key :: "char \<Rightarrow> string \<Rightarrow> string \<Rightarrow> string" where
  "path_to_key c base path = py_join [c] (py_split (CHR ''/'') (py_join [] (split_str (base @ ''/'') path)))"

text \<open>The part of \<open>_set\<close> that DirKvStore has in its \<open>set\<close> too. The file is emptied before a value
  that is not a text is refused.\<close>

definition dir_set :: "char \<Rightarrow> string \<Rightarrow> pyval \<Rightarrow> fnode \<Rightarrow> fnode \<times> pyexc option" where
  "dir_set c key val t = (let path = key_to_path c (Some key) in case make_dirs (butlast path) t of
      None \<Rightarrow> (t, Some (KvError EACCES))
    | Some t1 \<Rightarrow> if is_dir (node_at t1 path) then (t1, Some (KvError EINVAL))
        else (case val of
            PStr s \<Rightarrow> (put_file path s t1, None)
          | _ \<Rightarrow> (put_file path [] t1, Some TypeError)))"

definition dp_set :: "char \<Rightarrow> string \<Rightarrow> pyval \<Rightarrow> dir_payload \<Rightarrow> dir_payload \<times> pyexc option" where
  "dp_set c key val p = (case dir_set c key val (fst p) of
      (t, e) \<Rightarrow> ((t, if e = None then add_key key (snd p) else snd p), e))"

text \<open>A file is read as text, which turns the other line ends into newlines.\<close>

definition dp_get :: "char \<Rightarrow> string \<Rightarrow> fnode \<Rightarrow> pyexc + pyval" where
  "dp_get c key t = (case node_at t (key_to_path c (Some key)) of
      Some (Dir es) \<Rightarrow> Inl KeyError
    | None \<Rightarrow> Inr PNone
    | Some (File s) \<Rightarrow> Inr (PStr (universal_nl s)))"

text \<open>\<open>_delete\<close> returns None, so that \<open>delete\<close> returns it and never takes the key off the list. A directory
  is to be removed with \<open>shutil\<close>, which the module does not import.\<close>

definition dp_delete :: "char \<Rightarrow> string \<Rightarrow> bool \<Rightarrow> dir_payload \<Rightarrow> dir_payload \<times> (pyexc + pyval)" where
  "dp_delete c key force p = (let path = key_to_path c (Some key) in case node_at (fst p) path of
      None \<Rightarrow> (p, Inr PNone)
    | Some (Dir es) \<Rightarrow> (p, Inl (if force then NameError else KeyError))
    | Some (File s) \<Rightarrow> ((remove_at path (fst p), snd p), Inr PNone))"

definition dp_get_keys :: "char \<Rightarrow> string \<Rightarrow> string option \<Rightarrow> fnode \<Rightarrow> string list" where
  "dp_get_keys c base key_prefix t = (let path = key_to_path c key_prefix in case node_at t path of
      None \<Rightarrow> []
    | Some (File s) \<Rightarrow> [path_to_key c base (path_text base path)]
    | Some (Dir es) \<Rightarrow> concat (map (\<lambda>(d, fs). map (\<lambda>f. path_to_key c base (path_text base (d @ [f]))) fs) (walk path (Dir es))))"

text \<open>\<open>key.endswith(search_key)\<close>; an exception of \<open>get\<close> ends the search.\<close>

definition ends_with :: "string \<Rightarrow> string \<Rightarrow> bool" where
  "ends_with s t = starts_with (rev s) (rev t)"

fun search_keys :: "char \<Rightarrow> string list \<Rightarrow> string \<times> pyval \<Rightarrow> fnode \<Rightarrow> pyexc + string list" where
  "search_keys c [] kv t = Inr []"
| "search_keys c (k # ks) kv t = (if ends_with k (fst kv) then err_bind (dp_get c k t) (\<lambda>v. err_bind (search_keys c ks kv t) (\<lambda>r.
       Inr (if py_eq (snd kv) v then k # r else r))) else search_keys c ks kv t)"

definition dp_search :: "char \<Rightarrow> string \<Rightarrow> string \<Rightarrow> string \<times> pyval \<Rightarrow> fnode \<Rightarrow> pyexc + string list" where
  "dp_search c base parent_key kv t = search_keys c (dp_get_keys c base (Some parent_key) t) kv t"

section \<open>DirKvStore\<close>

fun dir_sets :: "char \<Rightarrow> (string \<times> pyval) list \<Rightarrow> fnode \<Rightarrow> fnode \<times> pyexc option" where
  "dir_sets c [] t = (t, None)"
| "dir_sets c ((k, v) # kvs) t = (case dir_set c k v t of
      (t1, Some e) \<Rightarrow> (t1, Some e)
    | (t1, None) \<Rightarrow> dir_sets c kvs t1)"

definition ds_set :: "char \<Rightarrow> string list \<Rightarrow> pyval list \<Rightarrow> fnode \<Rightarrow> fnode \<times> pyexc option" where
  "ds_set c keys vals t = (if length keys \<noteq> length vals then (t, Some (KvError EINVAL)) else dir_sets c (zip keys vals) t)"

definition ds_get :: "char \<Rightarrow> string list \<Rightarrow> fnode \<Rightarrow> pyval list" where
  "ds_get c keys t = map (\<lambda>key. case node_at t (key_to_path c (Some key)) of Some (File s) \<Rightarrow> PStr (universal_nl s) | _ \<Rightarrow> PNone) keys"

text \<open>\<open>os.remove\<close> fails with ENOTDIR below a file, with EISDIR for a directory and with ENOENT, which is
  passed over, for a path that does not exist.\<close>

fun below_file :: "fnode \<Rightarrow> string list \<Rightarrow> bool" where
  "below_file n [] = False"
| "below_file (File s) (p # ps) = True"
| "below_file (Dir es) (p # ps) = (case map_of es p of None \<Rightarrow> False | Some n \<Rightarrow> below_file n ps)"

fun ds_delete :: "char \<Rightarrow> string list \<Rightarrow> fnode \<Rightarrow> fnode \<times> pyexc option" where
  "ds_delete c [] t = (t, None)"
| "ds_delete c (key # keys) t = (let path = key_to_path c (Some key) in case node_at t path of
      Some (File s) \<Rightarrow> ds_delete c keys (remove_at path t)
    | Some (Dir es) \<Rightarrow> (t, Some (KvError EISDIR))
    | None \<Rightarrow> if below_file t path then (t, Some (KvError ENOTDIR)) else ds_delete c keys t)"

text \<open>\<open>get_keys\<close>: the list is made anew for each directory of the walk; a list has no \<open>join\<close>.\<close>

definition ds_dir_keys :: "char \<Rightarrow> string option \<Rightarrow> string \<Rightarrow> string \<times> string list \<Rightarrow> string list" where
  "ds_dir_keys c key_prefix key_file rf = (case rf of (base, fs) \<Rightarrow>
     let pre = (case key_prefix of None \<Rightarrow> [] | Some k \<Rightarrow> k @ [c]);
         path = (if base \<noteq> key_file then py_join [] (split_str (key_file @ ''/'') base) @ [c] else []) in
     map (\<lambda>f. pre @ path @ f) fs)"

definition ds_get_keys :: "char \<Rightarrow> string \<Rightarrow> string option \<Rightarrow> fnode \<Rightarrow> pyexc + string list" where
  "ds_get_keys c base key_prefix t = (let path = key_to_path c key_prefix in case node_at t path of
      None \<Rightarrow> Inr []
    | Some (File s) \<Rightarrow> Inl AttributeError
    | Some (Dir es) \<Rightarrow> Inr (fold (\<lambda>(d, fs) keys. ds_dir_keys c key_prefix (path_text base path) (path_text base d, fs))
        (walk path (Dir es)) []))"

text \<open>\<open>get_data\<close> calls \<open>get\<close> with the key where a list of keys is wanted: it takes the characters.\<close>

definition ds_get_data :: "char \<Rightarrow> string \<Rightarrow> fnode \<Rightarrow> pyexc + (string \<times> pyval) list" where
  "ds_get_data c base t = err_bind (ds_get_keys c base None t) (\<lambda>keys.
     Inr (fold (\<lambda>key kv. AList.update key (PList (ds_get c (map (\<lambda>x. [x]) key) t)) kv) keys []))"

text \<open>\<open>dump\<close> and \<open>set_data\<close> of the payload that \<open>load\<close> gives, whose delimiter is the default one.\<close>

definition ds_dump :: "char \<Rightarrow> string \<Rightarrow> fnode \<Rightarrow> fnode \<times> pyexc option" where
  "ds_dump c base t = (let keys = dp_get_keys (CHR ''>'') base None t in
     case err_map (\<lambda>k. dp_get (CHR ''>'') k t) keys of
       Inl e \<Rightarrow> (t, Some e)
     | Inr vals \<Rightarrow> ds_set c keys vals t)"

section \<open>The tree as a map of files\<close>

definition files_of :: "fnode \<Rightarrow> string list \<Rightarrow> string option" where
  "files_of t ps = (case node_at t ps of Some (File s) \<Rightarrow> Some s | _ \<Rightarrow> None)"

fun wf_tree :: "fnode \<Rightarrow> bool" where
  "wf_tree (File s) = True"
| "wf_tree (Dir es) = (distinct (map fst es) \<and> list_all (\<lambda>e. wf_tree (snd e)) es)"

lemma files_of_simps [simp]:
  "files_of (File s) (p # ps) = None"
  "files_of (File s) [] = Some s"
  "files_of (Dir es) [] = None"
  "files_of (Dir es) (p # ps) = (case map_of es p of None \<Rightarrow> None | Some n \<Rightarrow> files_of n ps)"
  by (auto simp: files_of_def split: option.splits)

lemma is_dir_simps [simp]: "is_dir (Some (Dir es))" "\<not> is_dir (Some (File s))" "\<not> is_dir None"
  by (simp_all add: is_dir_def)

lemma list_all_update: "list_all (\<lambda>e. P (snd e)) es \<Longrightarrow> P v \<Longrightarrow> list_all (\<lambda>e. P (snd e)) (AList.update k v es)"
  by (induction es) auto

lemma wf_empty [simp]: "wf_tree (Dir [])"
  by simp

lemma wf_update: "wf_tree (Dir es) \<Longrightarrow> wf_tree n \<Longrightarrow> wf_tree (Dir (AList.update p n es))"
  by (simp add: AList.distinct_update list_all_update)

lemma wf_delete: "wf_tree (Dir es) \<Longrightarrow> wf_tree (Dir (AList.delete p es))"
proof -
  assume w: "wf_tree (Dir es)"
  have "set (AList.delete p es) \<subseteq> set es" by (auto simp: AList.delete_eq)
  then show ?thesis using w AList.distinct_delete [of es p] by (auto simp: list_all_iff)
qed

lemma wf_entry: "wf_tree (Dir es) \<Longrightarrow> map_of es p = Some n \<Longrightarrow> wf_tree n"
  by (auto simp: list_all_iff dest: map_of_SomeD)

declare wf_tree.simps(2) [simp del]

lemma make_dirs_files: "make_dirs ps t = Some t1 \<Longrightarrow> files_of t1 = files_of t \<and> is_dir (node_at t1 ps)
    \<and> (is_dir (node_at t1 (ps @ [p])) \<longleftrightarrow> is_dir (node_at t (ps @ [p]))) \<and> (wf_tree t \<longrightarrow> wf_tree t1)"
proof (induction ps t arbitrary: t1 rule: make_dirs.induct)
  case (3 q qs es)
  let ?n = "case map_of es q of None \<Rightarrow> Dir [] | Some n \<Rightarrow> n"
  obtain n1 where n1: "make_dirs qs ?n = Some n1" "t1 = Dir (AList.update q n1 es)" using 3(2) by auto
  note ih = 3(1) [OF n1(1)]
  have "files_of t1 rs = files_of (Dir es) rs" for rs
  proof (cases rs)
    case (Cons r rs')
    have e: "files_of (Dir []) rs' = None" by (cases rs') auto
    have "files_of n1 rs' = files_of ?n rs'" using ih by simp
    then show ?thesis using e Cons n1(2) by (auto simp: AList.update_conv' split: option.splits)
  qed (simp add: n1(2))
  moreover have "is_dir (node_at t1 ((q # qs) @ [p])) \<longleftrightarrow> is_dir (node_at (Dir es) ((q # qs) @ [p]))"
  proof -
    have "\<not> is_dir (node_at (Dir []) (qs @ [p]))" by (cases qs) auto
    then show ?thesis using ih n1(2) by (auto simp: AList.update_conv' split: option.splits)
  qed
  moreover have "wf_tree (Dir es) \<longrightarrow> wf_tree t1"
  proof
    assume w: "wf_tree (Dir es)"
    then have "wf_tree ?n" by (auto split: option.splits dest: wf_entry)
    then show "wf_tree t1" using ih w n1(2) by (simp only: wf_update)
  qed
  moreover have "is_dir (node_at t1 (q # qs))" using ih n1(2) by (simp add: AList.update_conv')
  ultimately show ?case by blast
qed auto

lemma make_dirs_None: "make_dirs ps t = None \<longleftrightarrow> (\<exists>k s. node_at t (take k ps) = Some (File s))"
proof (induction ps t rule: make_dirs.induct)
  case (1 ps s)
  have "node_at (File s) (take 0 ps) = Some (File s)" by simp
  then show ?case by (metis make_dirs.simps(1))
next
  case (3 p ps es)
  have "(\<exists>k s. node_at (Dir es) (take k (p # ps)) = Some (File s)) \<longleftrightarrow>
      (\<exists>k s n. map_of es p = Some n \<and> node_at n (take k ps) = Some (File s))"
  proof
    assume "\<exists>k s. node_at (Dir es) (take k (p # ps)) = Some (File s)"
    then obtain k s where k: "node_at (Dir es) (take k (p # ps)) = Some (File s)" by blast
    then show "\<exists>k s n. map_of es p = Some n \<and> node_at n (take k ps) = Some (File s)" by (cases k) (auto split: option.splits)
  next
    assume "\<exists>k s n. map_of es p = Some n \<and> node_at n (take k ps) = Some (File s)"
    then obtain k s n where "map_of es p = Some n" "node_at n (take k ps) = Some (File s)" by blast
    then have "node_at (Dir es) (take (Suc k) (p # ps)) = Some (File s)" by simp
    then show "\<exists>k s. node_at (Dir es) (take k (p # ps)) = Some (File s)" by blast
  qed
  moreover have "node_at (Dir []) (take k ps) \<noteq> Some (File s)" for k s by (cases "take k ps") auto
  ultimately show ?case using 3 by (auto split: option.splits)
qed auto

lemma put_file_files:
  assumes "is_dir (node_at t (butlast ps))" "ps \<noteq> []" "\<not> is_dir (node_at t ps)"
  shows "files_of (put_file ps s t) = (files_of t)(ps \<mapsto> s) \<and> (wf_tree t \<longrightarrow> wf_tree (put_file ps s t))"
  using assms
proof (induction ps s t rule: put_file.induct)
  case (2 p ps s u)
  then show ?case by (cases ps) auto
next
  case (3 p ps s es)
  let ?n = "case map_of es p of None \<Rightarrow> File [] | Some n \<Rightarrow> n"
  show ?case
  proof (cases "ps = []")
    case True
    have "files_of (Dir (AList.update p (File s) es)) qs = ((files_of (Dir es))([p] \<mapsto> s)) qs" for qs
    proof (cases qs)
      case (Cons q qs')
      show ?thesis
      proof (cases "q = p")
        case q: True
        have "files_of n qs' = None" if "map_of es p = Some n" "qs' \<noteq> []" for n
          using that 3(4) True by (cases n; cases qs') auto
        then show ?thesis using Cons q by (cases qs') (auto simp: AList.update_conv' split: option.splits)
      qed (use Cons in \<open>simp add: AList.update_conv'\<close>)
    qed simp
    then show ?thesis using True by (auto intro: wf_update)
  next
    case False
    then obtain n where n: "map_of es p = Some n" "is_dir (node_at n (butlast ps))" "\<not> is_dir (node_at n ps)"
      using 3(2,4) by (auto split: option.splits)
    have ih: "files_of (put_file ps s n) = (files_of n)(ps \<mapsto> s)" "wf_tree n \<longrightarrow> wf_tree (put_file ps s n)"
      using 3(1) n False by (simp_all add: fun_upd_def)
    have "files_of (put_file (p # ps) s (Dir es)) qs = ((files_of (Dir es))((p # ps) \<mapsto> s)) qs" for qs
      using n(1) ih(1) by (cases qs) (auto simp: AList.update_conv')
    then show ?thesis using ih(2) n(1) by (auto intro!: wf_update dest: wf_entry)
  qed
qed simp

lemma files_none: "is_file (node_at t ps) \<longleftrightarrow> files_of t ps \<noteq> None"
  by (auto simp: files_of_def is_file_def split: option.splits fnode.splits)

lemma remove_at_files:
  assumes "is_file (node_at t ps)" "ps \<noteq> []" "wf_tree t"
  shows "files_of (remove_at ps t) = (files_of t)(ps := None) \<and> wf_tree (remove_at ps t)"
  using assms
proof (induction ps t rule: remove_at.induct)
  case (1 p es)
  then obtain s where s: "map_of es p = Some (File s)" by (auto simp: is_file_def split: option.splits fnode.splits)
  have "files_of (Dir (AList.delete p es)) qs = ((files_of (Dir es))([p] := None)) qs" for qs
  proof (cases qs)
    case (Cons q qs')
    then show ?thesis using s by (cases qs') (auto simp: AList.delete_conv' split: option.splits)
  qed simp
  then show ?case using wf_delete [OF 1(3)] by auto
next
  case (2 p q ps es)
  then obtain n where n: "map_of es p = Some n" "is_file (node_at n (q # ps))" by (auto simp: is_file_def split: option.splits fnode.splits)
  have ih: "files_of (remove_at (q # ps) n) = (files_of n)(q # ps := None)" "wf_tree (remove_at (q # ps) n)"
    using 2(1) [OF n(1,2)] wf_entry [OF 2(4) n(1)] by (simp_all add: fun_upd_def)
  have "files_of (remove_at (p # q # ps) (Dir es)) rs = ((files_of (Dir es))(p # q # ps := None)) rs" for rs
    using n(1) ih(1) by (cases rs) (auto simp: AList.update_conv')
  then show ?case using n(1) ih(2) 2(4) by (auto intro!: wf_update)
qed (auto simp: is_file_def neq_Nil_conv split: option.splits fnode.splits)

section \<open>Listing the keys\<close>

definition walked :: "string list \<Rightarrow> fnode \<Rightarrow> string list list" where
  "walked pre t = concat (map (\<lambda>(d, fs). map (\<lambda>f. d @ [f]) fs) (walk pre t))"

lemma walked_simps [simp]:
  "walked pre (File s) = []"
  "walked pre (Dir es) = map (\<lambda>f. pre @ [f]) (file_names es) @ concat (map (\<lambda>e. walked (pre @ [fst e]) (snd e)) es)"
proof -
  have "concat (map g (concat (map h es))) = concat (map (\<lambda>e. concat (map g (h e))) es)" for g h and es :: "(string \<times> fnode) list"
    by (induction es) auto
  then show "walked pre (Dir es) = map (\<lambda>f. pre @ [f]) (file_names es) @ concat (map (\<lambda>e. walked (pre @ [fst e]) (snd e)) es)"
    by (simp add: walked_def)
qed (simp add: walked_def)

lemma file_names_set:
  assumes "wf_tree (Dir es)"
  shows "f \<in> set (file_names es) \<longleftrightarrow> (\<exists>s. map_of es f = Some (File s))"
proof -
  have "is_file (Some n) \<longleftrightarrow> (\<exists>s. n = File s)" for n by (cases n) (simp_all add: is_file_def)
  then show ?thesis using assms by (force simp: file_names_def wf_tree.simps)
qed

lemma file_names_distinct: "wf_tree (Dir es) \<Longrightarrow> distinct (file_names es)"
  by (simp add: file_names_def wf_tree.simps distinct_map_filter)

lemma walked_set: "wf_tree t \<Longrightarrow> set (walked pre t) = (\<lambda>ps. pre @ ps) ` {ps. ps \<noteq> [] \<and> files_of t ps \<noteq> None}"
proof (induction t arbitrary: pre)
  case (File s)
  have "{ps. ps \<noteq> [] \<and> files_of (File s) ps \<noteq> None} = {}" by (auto simp: neq_Nil_conv)
  then show ?case by simp
next
  case (Dir es)
  have e: "map_of es p = Some n \<longleftrightarrow> (p, n) \<in> set es" for p n
    using Dir.prems by (auto simp: wf_tree.simps)
  have ih: "set (walked (pre @ [p]) n) = (\<lambda>ps. pre @ [p] @ ps) ` {ps. ps \<noteq> [] \<and> files_of n ps \<noteq> None}" if "map_of es p = Some n" for p n
  proof -
    have m: "(p, n) \<in> set es" using that e by simp
    have "n \<in> Basic_BNFs.snds (p, n)" by simp
    then show ?thesis using Dir.IH [OF m _ wf_entry [OF Dir.prems that]] by auto
  qed
  show ?case
  proof (intro equalityI subsetI)
    fix qs assume "qs \<in> set (walked pre (Dir es))"
    then consider f where "f \<in> set (file_names es)" "qs = pre @ [f]" | p n where "(p, n) \<in> set es" "qs \<in> set (walked (pre @ [p]) n)" by auto
    then show "qs \<in> (\<lambda>ps. pre @ ps) ` {ps. ps \<noteq> [] \<and> files_of (Dir es) ps \<noteq> None}"
    proof cases
      case 1
      then obtain s where "map_of es f = Some (File s)" using file_names_set [OF Dir.prems] by blast
      then have "files_of (Dir es) [f] \<noteq> None" by simp
      then show ?thesis using 1(2) by blast
    next
      case 2
      then have m: "map_of es p = Some n" using e by simp
      then obtain ps where "qs = pre @ [p] @ ps" "ps \<noteq> []" "files_of n ps \<noteq> None" using ih [OF m] 2(2) by auto
      then have "qs = pre @ (p # ps)" "files_of (Dir es) (p # ps) \<noteq> None" using m by simp_all
      then show ?thesis by blast
    qed
  next
    fix qs assume "qs \<in> (\<lambda>ps. pre @ ps) ` {ps. ps \<noteq> [] \<and> files_of (Dir es) ps \<noteq> None}"
    then obtain p ps n where q: "qs = pre @ p # ps" "map_of es p = Some n" "files_of n ps \<noteq> None"
      by (auto simp: neq_Nil_conv split: option.splits)
    show "qs \<in> set (walked pre (Dir es))"
    proof (cases ps)
      case Nil
      then obtain s where "n = File s" using q(3) by (cases n) auto
      then have "p \<in> set (file_names es)" using file_names_set [OF Dir.prems] q(2) by blast
      then show ?thesis using q(1) Nil by simp
    next
      case (Cons a list)
      then have "qs \<in> set (walked (pre @ [p]) n)" unfolding ih [OF q(2)] using q by auto
      moreover have "(p, n) \<in> set es" using q(2) e by simp
      ultimately show ?thesis by force
    qed
  qed
qed

lemma walked_distinct: "wf_tree t \<Longrightarrow> distinct (walked pre t)"
proof (induction t arbitrary: pre)
  case (Dir es)
  have w: "wf_tree (snd e)" if "e \<in> set es" for e using Dir.prems that by (auto simp: wf_tree.simps list_all_iff)
  have ws: "set (walked (pre @ [fst e]) (snd e)) \<subseteq> {pre @ fst e # p # ps |p ps. True}" if "e \<in> set es" for e
    unfolding walked_set [OF w [OF that]] by (auto simp: neq_Nil_conv)
  have d: "distinct (concat (map (\<lambda>e. walked (pre @ [fst e]) (snd e)) fs))" if "set fs \<subseteq> set es" "distinct (map fst fs)" for fs
    using that
  proof (induction fs)
    case (Cons e fs)
    have "distinct (walked (pre @ [fst e]) (snd e))"
      using Dir.IH [of e "snd e" "pre @ [fst e]"] Cons.prems w [of e] by (cases e) auto
    moreover have "set (walked (pre @ [fst e]) (snd e)) \<inter> set (walked (pre @ [fst e']) (snd e')) = {}" if "e' \<in> set fs" for e'
    proof -
      have "fst e \<noteq> fst e'" using Cons.prems(2) that by auto
      moreover have "e \<in> set es" "e' \<in> set es" using Cons.prems(1) that by auto
      ultimately show ?thesis using ws [of e] ws [of e'] by blast
    qed
    ultimately show ?case using Cons by auto
  qed simp
  have "distinct (map fst es)" using Dir.prems by (simp add: wf_tree.simps)
  moreover have "distinct (map (\<lambda>f. pre @ [f]) (file_names es))" using file_names_distinct [OF Dir.prems] by (simp add: distinct_map inj_on_def)
  moreover have "set (map (\<lambda>f. pre @ [f]) (file_names es)) \<inter> set (concat (map (\<lambda>e. walked (pre @ [fst e]) (snd e)) es)) = {}"
    using ws by fastforce
  ultimately show ?case using d [of es] by simp
qed simp

text \<open>The names in a tree are plain: without slash and delimiter, and the path of the directory does
  not occur in a path below it.\<close>

definition plain_tree :: "char \<Rightarrow> string \<Rightarrow> fnode \<Rightarrow> bool" where
  "plain_tree c base t \<longleftrightarrow> (\<forall>ps. files_of t ps \<noteq> None \<longrightarrow> ps \<noteq> [] \<and> \<not> str_in (base @ ''/'') (py_join ''/'' ps) \<and>
     (\<forall>p \<in> set ps. CHR ''/'' \<notin> set p \<and> c \<notin> set p))"

lemma split_str_absent: "\<not> str_in d s \<Longrightarrow> split_str d s = [s]"
proof -
  assume "\<not> str_in d s"
  then have "cut_at d s = None" unfolding str_in_def by blast
  then show "split_str d s = [s]" by (subst split_str.simps) simp
qed

lemma dir_path_key:
  assumes "\<not> str_in (base @ ''/'') (py_join ''/'' ps)" "\<forall>p \<in> set ps. CHR ''/'' \<notin> set p" "ps \<noteq> []"
  shows "path_to_key c base (path_text base ps) = py_join [c] ps"
proof -
  have t: "path_text base ps = (base @ ''/'') @ py_join ''/'' ps" using assms(3) by (cases ps) (simp_all add: path_text_def)
  have "starts_with ((base @ ''/'') @ py_join ''/'' ps) (base @ ''/'')" by (simp add: starts_with_def)
  then have "cut_at (base @ ''/'') ((base @ ''/'') @ py_join ''/'' ps) = Some ([], py_join ''/'' ps)"
    by (cases "base") auto
  then have "split_str (base @ ''/'') ((base @ ''/'') @ py_join ''/'' ps) = [[], py_join ''/'' ps]"
    using split_str_absent [OF assms(1)] by (subst split_str.simps) simp
  then show ?thesis unfolding path_to_key_def t using py_split_join [OF assms(2,3)] by simp
qed

lemma files_below: "node_at t ps = Some n \<Longrightarrow> files_of t (ps @ qs) = files_of n qs"
  by (induction t ps rule: node_at.induct) (auto split: option.splits)

lemma take_butlast_dir:
  assumes "make_dirs (butlast ps) t = Some t1" "ps \<noteq> []"
  shows "files_of t1 = files_of t" "is_dir (node_at t1 (butlast ps))" "is_dir (node_at t1 ps) \<longleftrightarrow> is_dir (node_at t ps)"
    "wf_tree t \<Longrightarrow> wf_tree t1"
  using make_dirs_files [OF assms(1), of "last ps"] assms(2) by simp_all

lemma dir_set_cases:
  assumes "wf_tree t"
  shows "dir_set c key (PStr s) t = (t', e) \<Longrightarrow>
    (e = (if \<exists>k s. node_at t (take k (butlast (py_split c key))) = Some (File s) then Some (KvError EACCES)
       else if is_dir (node_at t (py_split c key)) then Some (KvError EINVAL) else None))
    \<and> wf_tree t' \<and> files_of t' = (if e = None then (files_of t)(py_split c key \<mapsto> s) else files_of t)"
proof -
  assume d: "dir_set c key (PStr s) t = (t', e)"
  let ?p = "py_split c key"
  have p: "?p \<noteq> []" by simp
  show ?thesis
  proof (cases "make_dirs (butlast ?p) t")
    case None
    then have "e = Some (KvError EACCES)" "t' = t" using d by (auto simp: dir_set_def key_to_path_def)
    then show ?thesis using None assms unfolding make_dirs_None by auto
  next
    case (Some t1)
    note t1 = take_butlast_dir [OF Some p]
    have n: "\<not> (\<exists>k s. node_at t (take k (butlast ?p)) = Some (File s))" using Some make_dirs_None [of "butlast ?p" t] by simp
    show ?thesis
    proof (cases "is_dir (node_at t1 ?p)")
      case True
      then show ?thesis using d Some n t1 assms by (auto simp: dir_set_def key_to_path_def)
    next
      case False
      then have "t' = put_file ?p s t1" "e = None" using d Some by (simp_all add: dir_set_def key_to_path_def)
      then show ?thesis using put_file_files [OF t1(2) p False, of s] t1 False n assms by simp
    qed
  qed
qed

lemma dp_get_files: "dp_get c key t = (if is_dir (node_at t (py_split c key)) then Inl KeyError
    else Inr (case files_of t (py_split c key) of None \<Rightarrow> PNone | Some s \<Rightarrow> PStr (universal_nl s)))"
  by (auto simp: dp_get_def key_to_path_def files_of_def is_dir_def split: option.splits fnode.splits)

lemma dp_delete_files:
  assumes "wf_tree t"
  shows "dp_delete c key False (t, ks) = ((t', ks'), r) \<Longrightarrow> ks' = ks \<and> wf_tree t'
    \<and> r = (if is_dir (node_at t (py_split c key)) then Inl KeyError else Inr PNone)
    \<and> files_of t' = (files_of t)(py_split c key := None)"
proof -
  assume d: "dp_delete c key False (t, ks) = ((t', ks'), r)"
  let ?p = "py_split c key"
  consider "node_at t ?p = None" | es where "node_at t ?p = Some (Dir es)" | s where "node_at t ?p = Some (File s)"
    by (metis fnode.exhaust option.exhaust)
  then show ?thesis
  proof cases
    case 1
    then have "files_of t ?p = None" by (simp add: files_of_def)
    then show ?thesis using d 1 assms by (auto simp: dp_delete_def key_to_path_def)
  next
    case 2
    then have "files_of t ?p = None" by (simp add: files_of_def)
    then show ?thesis using d 2 assms by (auto simp: dp_delete_def key_to_path_def)
  next
    case 3
    then have "is_file (node_at t ?p)" by (simp add: is_file_def)
    from remove_at_files [OF this _ assms] show ?thesis using d 3 by (auto simp: dp_delete_def key_to_path_def)
  qed
qed

text \<open>The keys of the files at or below a path.\<close>

definition keys_below :: "char \<Rightarrow> string list \<Rightarrow> fnode \<Rightarrow> string set" where
  "keys_below c path t = py_join [c] ` {ps. files_of t ps \<noteq> None \<and> take (length path) ps = path}"

lemma dp_get_keys_set:
  assumes w: "wf_tree t" and p: "plain_tree c base t" and d: "is_dir (Some t)"
  shows "set (dp_get_keys c base kp t) = keys_below c (key_to_path c kp) t \<and> distinct (dp_get_keys c base kp t)"
proof -
  define path where "path = key_to_path c kp"
  have key: "path_to_key c base (path_text base ps) = py_join [c] ps" if "files_of t ps \<noteq> None" for ps
    using dir_path_key [of base ps c] p that unfolding plain_tree_def by blast
  have inj: "ps = qs" if "files_of t ps \<noteq> None" "files_of t qs \<noteq> None" "py_join [c] ps = py_join [c] qs" for ps qs
    using that p py_split_join [of ps c] py_split_join [of qs c] unfolding plain_tree_def by metis
  show ?thesis unfolding path_def [symmetric]
  proof (cases "node_at t path")
    case None
    have "files_of t (path @ qs) = None" for qs
      using None by (induction t path rule: node_at.induct) (auto split: option.splits)
    then have "files_of t ps = None" if "take (length path) ps = path" for ps using that by (metis append_take_drop_id)
    then have "keys_below c path t = {}" by (auto simp: keys_below_def)
    then show "set (dp_get_keys c base kp t) = keys_below c path t \<and> distinct (dp_get_keys c base kp t)"
      using None by (simp add: dp_get_keys_def path_def)
  next
    case (Some n)
    have fb: "files_of t (path @ qs) = files_of n qs" for qs using files_below [OF Some] .
    show "set (dp_get_keys c base kp t) = keys_below c path t \<and> distinct (dp_get_keys c base kp t)"
    proof (cases n)
      case (File s)
      have "files_of n qs \<noteq> None \<longleftrightarrow> qs = []" for qs using File by (cases qs) auto
      then have "{ps. files_of t ps \<noteq> None \<and> take (length path) ps = path} = {path}"
        using fb by (auto intro: exI) (metis append_Nil2 append_take_drop_id not_None_eq)+
      then have "keys_below c path t = {py_join [c] path}" by (simp add: keys_below_def)
      moreover have "files_of t path \<noteq> None" using fb [of "[]"] File by simp
      ultimately show ?thesis using Some File key by (simp add: dp_get_keys_def path_def [symmetric] Let_def)
    next
      case (Dir es)
      have wn: "wf_tree n" using Some w by (induction t path rule: node_at.induct) (auto split: option.splits dest: wf_entry)
      have ws: "set (walked path n) = {ps. files_of t ps \<noteq> None \<and> take (length path) ps = path}"
      proof -
        have "files_of n [] = None" using Dir by simp
        then show ?thesis unfolding walked_set [OF wn] using fb
          by (auto simp: image_iff) (metis append_Nil2 append_take_drop_id option.distinct(1))
      qed
      have k: "dp_get_keys c base kp t = map (\<lambda>ps. path_to_key c base (path_text base ps)) (walked path n)"
        using Some Dir by (simp add: dp_get_keys_def path_def [symmetric] Let_def walked_def map_concat comp_def case_prod_unfold)
      have "dp_get_keys c base kp t = map (py_join [c]) (walked path n)"
        unfolding k using key ws by (intro map_cong) auto
      moreover have "inj_on (py_join [c]) (set (walked path n))" using inj ws by (auto simp: inj_on_def)
      ultimately show ?thesis using ws walked_distinct [OF wn] by (simp add: keys_below_def distinct_map)
    qed
  qed
qed

text \<open>Claim C15. A directory of files is a map from keys to texts, for keys whose parts are names of files.
  A set fails exactly where a file stands in the way of a directory or a directory at the key
  itself, and otherwise writes the text there and changes no other file; get reads what the map
  holds, with newlines for all line ends; delete removes one entry, refuses the key of a directory
  and returns None whether it removed something or not; get_keys lists, once each, exactly the
  keys of the files at or below its prefix. The names in the directory stay distinct.\<close>

theorem dir_payload_refines:
  assumes "wf_tree t" "is_dir (Some t)" "plain_tree c base t"
    and "file_key c key" "\<forall>prefix. kp = Some prefix \<longrightarrow> file_key c prefix"
  shows "(\<exists>t' ks' e. dp_set c key (PStr s) (t, ks) = ((t', ks'), e) \<and> wf_tree t'
      \<and> e = (if \<exists>k s. node_at t (take k (butlast (py_split c key))) = Some (File s) then Some (KvError EACCES)
          else if is_dir (node_at t (py_split c key)) then Some (KvError EINVAL) else None)
      \<and> files_of t' = (if e = None then (files_of t)(py_split c key \<mapsto> s) else files_of t))
    \<and> dp_get c key t = (if is_dir (node_at t (py_split c key)) then Inl KeyError
        else Inr (case files_of t (py_split c key) of None \<Rightarrow> PNone | Some s \<Rightarrow> PStr (universal_nl s)))
    \<and> (\<exists>t'. dp_delete c key False (t, ks) = ((t', ks), if is_dir (node_at t (py_split c key)) then Inl KeyError else Inr PNone)
      \<and> wf_tree t' \<and> files_of t' = (files_of t)(py_split c key := None))
    \<and> set (dp_get_keys c base kp t) = keys_below c (key_to_path c kp) t \<and> distinct (dp_get_keys c base kp t)"
proof -
  obtain t1 e1 where d: "dir_set c key (PStr s) t = (t1, e1)" by fastforce
  obtain t2 ks2 r2 where r: "dp_delete c key False (t, ks) = ((t2, ks2), r2)" by (metis prod.exhaust)
  note ds = dir_set_cases [OF assms(1) d] and dd = dp_delete_files [OF assms(1) r]
  note keys = dp_get_keys_set [OF assms(1,3,2), of kp]
  have s: "dp_set c key (PStr s) (t, ks) = ((t1, if e1 = None then add_key key ks else ks), e1)" using d by (simp add: dp_set_def)
  have del: "dp_delete c key False (t, ks) = ((t2, ks), if is_dir (node_at t (py_split c key)) then Inl KeyError else Inr PNone)"
    using r dd by simp
  show ?thesis
    by (intro conjI exI [of _ t1] exI [of _ e1] exI [of _ t2] exI [of _ "if e1 = None then add_key key ks else ks"]
        s del dp_get_files conjunct1 [OF keys] conjunct2 [OF keys]) (use ds dd in blast)+
qed

definition sample_dir :: fnode where
  "sample_dir = Dir [(''a'', Dir [(''x'', File ''1''), (''b'', Dir [(''y'', File ''2'')])]), (''z'', File ''3'')]"

lemma sample_files: "files_of sample_dir ps \<noteq> None \<Longrightarrow> ps \<in> {[''z''], [''a'', ''x''], [''a'', ''b'', ''y'']}"
proof -
  assume f: "files_of sample_dir ps \<noteq> None"
  then have "ps \<noteq> []" by (cases ps) (simp_all add: sample_dir_def)
  moreover have w: "wf_tree sample_dir" by (simp add: sample_dir_def wf_tree.simps)
  ultimately have "ps \<in> set (walked [] sample_dir)" using f walked_set [OF w, of "[]"] by auto
  moreover have "walked [] sample_dir = [[''z''], [''a'', ''x''], [''a'', ''b'', ''y'']]"
    by (simp add: sample_dir_def file_names_def is_file_def)
  ultimately show ?thesis by simp
qed

theorem dir_payload_refines_witness:
  "(\<exists>t' ks'. dp_set (CHR ''>'') ''a>n'' (PStr ''5'') (sample_dir, []) = ((t', ks'), None)
      \<and> files_of t' = (files_of sample_dir)([''a'', ''n''] \<mapsto> ''5''))
    \<and> dp_get (CHR ''>'') ''a>b'' sample_dir = Inl KeyError
    \<and> set (dp_get_keys (CHR ''>'') ''/conf'' (Some ''a'') sample_dir) = keys_below (CHR ''>'') [''a''] sample_dir"
proof -
  have w: "wf_tree sample_dir" by (simp add: sample_dir_def wf_tree.simps)
  have d: "is_dir (Some sample_dir)" by (simp add: sample_dir_def)
  have "\<not> str_in ''/conf/'' ''z''" "\<not> str_in ''/conf/'' ''a/x''" "\<not> str_in ''/conf/'' ''a/b/y''" by code_simp+
  then have p: "plain_tree (CHR ''>'') ''/conf'' sample_dir"
    unfolding plain_tree_def using sample_files by fastforce
  have s: "py_split (CHR ''>'') ''a>n'' = [''a'', ''n'']" "py_split (CHR ''>'') ''a>b'' = [''a'', ''b'']"
      "key_to_path (CHR ''>'') (Some ''a'') = [''a'']" by code_simp+
  have n: "\<not> (\<exists>k s. node_at sample_dir (take k [''a'']) = Some (File s))" "\<not> is_dir (node_at sample_dir [''a'', ''n''])"
    by (auto simp: sample_dir_def take_Cons split: nat.splits)
  have k: "file_key (CHR ''>'') ''a>n''" "\<forall>prefix. Some ''a'' = Some prefix \<longrightarrow> file_key (CHR ''>'') prefix"
    by (simp_all add: file_key_def s) code_simp?
  note t1 = dir_payload_refines [OF w d p k, where s = "''5''" and ks = "[]", unfolded s]
  have g: "dp_get (CHR ''>'') ''a>b'' sample_dir = Inl KeyError" by (simp add: dp_get_def key_to_path_def s sample_dir_def)
  from t1 n have "\<exists>t' ks'. dp_set (CHR ''>'') ''a>n'' (PStr ''5'') (sample_dir, []) = ((t', ks'), None)
      \<and> files_of t' = (files_of sample_dir)([''a'', ''n''] \<mapsto> ''5'')" by auto
  then show ?thesis using t1 g by blast
qed

text \<open>\<open>DirKvStore.get_keys\<close> gives the keys of the last directory of the walk only, with a slash in
  them; \<open>set\<close> empties the file before it refuses a value that is not a text.\<close>

lemma store_get_keys_last: "ds_get_keys (CHR ''>'') ''/conf'' None sample_dir = Inr [''a/b>y'']"
  by code_simp

lemma set_empties_file: "dir_set (CHR ''>'') ''a>x'' (PInt 5) sample_dir = (t, e) \<Longrightarrow>
    e = Some TypeError \<and> files_of t [''a'', ''x''] = Some []"
  by (auto simp: dir_set_def key_to_path_def sample_dir_def Let_def)

end
