(* ===== verification/PillarStore.thy ===== *)
theory PillarStore
  imports JsonDumps PyOps
begin

text \<open>
  SimpleProcess of src/py-utils/src/utils/process.py and PillarStore of
  src/py-utils/src/utils/kv_store/kv_store_collection.py, which reads the values of Salt with a
  command. What \<open>subprocess.run\<close> does with a command is a parameter.
\<close>

abbreviation ETIMEDOUT :: int where "ETIMEDOUT \<equiv> 110"

datatype proc_outcome =
    Completed string string int
  | TimeoutExpired
  | CalledProcessError int
  | OtherException

text \<open>Output and return code; the text of the error is kept for a process that completed.\<close>

definition simple_process_run :: "(string \<Rightarrow> proc_outcome) \<Rightarrow> string \<Rightarrow> string \<times> string \<times> int" where
  "simple_process_run spawn cmd = (case spawn cmd of
      Completed out err rc \<Rightarrow> (out, err, rc)
    | TimeoutExpired \<Rightarrow> ([], ''timed out'', ETIMEDOUT)
    | CalledProcessError rc \<Rightarrow> ([], ''failed'', rc)
    | OtherException \<Rightarrow> ([], ''SubProcess Error'', - 1))"

text \<open>The message of the last error has two places and no arguments, which is a TypeError.\<close>

definition pillar_get :: "(string \<Rightarrow> proc_outcome) \<Rightarrow> string \<Rightarrow> pyexc + pyval" where
  "pillar_get spawn key = (case simple_process_run spawn (''salt-call pillar.get '' @ key @ '' --out=json'') of
      (out, err, rc) \<Rightarrow> if rc \<noteq> 0 then Inl (KvError rc)
        else (case json_load out of
            None \<Rightarrow> Inl (KvError ENOENT)
          | Some v \<Rightarrow> (case py_item v ''local'' of
                Inl e \<Rightarrow> Inl (KvError ENOENT)
              | Inr res \<Rightarrow> if res = PNone then Inl TypeError else Inr res)))"

text \<open>A value that Salt prints is the value that is returned; a key that it does not have, for which
  it prints null, raises a TypeError.\<close>

lemma pillar_get_value:
  assumes "spawn (''salt-call pillar.get '' @ key @ '' --out=json'') = Completed (json_dumps (PDict [(''local'', v)])) [] 0" "json_ok v"
  shows "pillar_get spawn key = (if v = PNone then Inl TypeError else Inr v)"
proof -
  have "json_load (json_dumps (PDict [(''local'', v)])) = Some (PDict [(''local'', v)])"
    using assms(2) by (intro json_load_dumps) simp
  then show ?thesis using assms(1) by (simp add: pillar_get_def simple_process_run_def del: json_dumps.simps)
qed

text \<open>A command that does not exist is an exception of \<open>subprocess.run\<close>: the code is -1, not the 127
  of a shell.\<close>

lemma no_salt_command: "(\<And>cmd. spawn cmd = OtherException) \<Longrightarrow> pillar_get spawn key = Inl (KvError (- 1))"
  by (simp add: pillar_get_def simple_process_run_def)

end
