(* ===== verification/HealthEvents.thy ===== *)
theory HealthEvents
  imports KvProps KvStore
begin

text \<open>
  Events of src/py-utils/src/utils/event_framework: a KvPayload with a header and a payload. The
  time and the generated id are arguments. An event is its payload object; the method
  \<open>set\<close> of KvPayload that the classes call through \<open>super()\<close> is \<open>kp_set\<close>.
\<close>

section \<open>Copying the keys of a payload\<close>

text \<open>\<open>for key in payload.get_keys(): set(f'payload>{key}', payload.get(key))\<close>: an exception of \<open>get\<close>
  ends the loop like one of \<open>set\<close>. The prefix is \<open>payload>\<close> or \<open>payload>specific_info>\<close>.\<close>

fun copy_under :: "string \<Rightarrow> kv_payload \<Rightarrow> string list \<Rightarrow> kv_payload \<Rightarrow> kv_payload \<times> pyexc option" where
  "copy_under prefix q [] p = (p, None)"
| "copy_under prefix q (k # ks) p = (case kp_get q k True of
      Inl e \<Rightarrow> (p, Some e)
    | Inr v \<Rightarrow> (case kp_set p (prefix @ k) v of
        (p1, Some e) \<Rightarrow> (p1, Some e)
      | (p1, None) \<Rightarrow> copy_under prefix q ks p1))"

definition payload_keys :: "kv_payload \<Rightarrow> string list" where
  "payload_keys q = kv_keys (kp_delim q) True (kp_data q) None []"

section \<open>Events\<close>

definition VERSION :: string where
  "VERSION = ''1.0''"

definition event_id :: "string \<Rightarrow> string \<Rightarrow> string" where
  "event_id now uid = hd (py_split (CHR ''.'') now) @ uid"

definition new_payload_obj :: "pyval \<Rightarrow> kv_payload" where
  "new_payload_obj data = \<lparr>kp_data = data, kp_delim = ''>'', kp_keys = kv_keys ''>'' True data None []\<rparr>"

definition set_payload :: "kv_payload \<Rightarrow> kv_payload \<Rightarrow> kv_payload \<times> pyexc option" where
  "set_payload payload ev = copy_under ''payload>'' payload (payload_keys payload) ev"

definition Event_init :: "string \<Rightarrow> string \<Rightarrow> kv_payload \<Rightarrow> kv_payload \<times> pyexc option" where
  "Event_init now uid payload = (case set_all kv_class (new_payload_obj (PDict []))
        [(''header>version'', PStr VERSION), (''header>timestamp'', PStr now), (''header>event_id'', PStr (event_id now uid))] of
      (ev, Some e) \<Rightarrow> (ev, Some e)
    | (ev, None) \<Rightarrow> set_payload payload ev)"

definition set_payload_attr :: "string \<Rightarrow> pyval \<Rightarrow> kv_payload \<Rightarrow> kv_payload \<times> pyexc option" where
  "set_payload_attr key val ev = kp_set ev (''payload>'' @ key) val"

section \<open>Health events\<close>

definition health_attrs :: "string list" where
  "health_attrs = [''source'', ''cluster_id'', ''site_id'', ''rack_id'', ''storageset_id'', ''node_id'',
     ''resource_type'', ''resource_id'', ''resource_status'']"

definition HealthEvent :: "string \<Rightarrow> string \<Rightarrow> (string \<times> pyval) list \<Rightarrow> kv_payload \<times> pyexc option" where
  "HealthEvent now uid kwargs =
     (case set_all kv_class (new_payload_obj (PDict [])) (map (\<lambda>k. (k, PStr [])) health_attrs @ kwargs @ [(''specific_info'', PDict [])]) of
        (p, Some e) \<Rightarrow> (p, Some e)
      | (p, None) \<Rightarrow> Event_init now uid p)"

definition health_set :: "string \<Rightarrow> pyval \<Rightarrow> kv_payload \<Rightarrow> kv_payload \<times> pyexc option" where
  "health_set key val ev = set_payload_attr key val ev"

definition set_specific_attr :: "string \<Rightarrow> pyval \<Rightarrow> kv_payload \<Rightarrow> kv_payload \<times> pyexc option" where
  "set_specific_attr key val ev = set_payload_attr (''specific_info>'' @ key) val ev"

definition set_specific_info :: "pyval \<Rightarrow> kv_payload \<Rightarrow> kv_payload \<times> pyexc option" where
  "set_specific_info spec_info ev = (let info = new_payload_obj (if spec_info = PNone then PDict [] else spec_info) in
     copy_under ''payload>specific_info>'' info (payload_keys info) ev)"

section \<open>What is in an event\<close>

text \<open>An attribute that is set is read back, and the specific ones leave the others alone.\<close>

lemma kp_set_found: "kp_delim p = [c] \<Longrightarrow> key_ok c key \<Longrightarrow> kp_set p key v = (p', None) \<Longrightarrow> kp_get p' key True = Inr v"
  using kv_set_lookup [of c key v "kp_data p"] kp_set_delim [of p key v]
  by (auto simp: kp_set_def kp_get_def kv_get_found split: prod.splits)

lemma health_set_get:
  "kp_delim ev = ''>'' \<Longrightarrow> key_ok (CHR ''>'') (''payload>'' @ key) \<Longrightarrow> health_set key val ev = (ev', None) \<Longrightarrow>
     kp_get ev' (''payload>'' @ key) True = Inr val"
  by (auto simp: health_set_def set_payload_attr_def intro: kp_set_found)

lemma specific_attr_get:
  "kp_delim ev = ''>'' \<Longrightarrow> key_ok (CHR ''>'') (''payload>specific_info>'' @ key) \<Longrightarrow> set_specific_attr key val ev = (ev', None) \<Longrightarrow>
     kp_get ev' (''payload>specific_info>'' @ key) True = Inr val"
  by (auto simp: set_specific_attr_def set_payload_attr_def intro: kp_set_found)

text \<open>A new event has the attributes it is given and empty texts for the others. The empty dict of
  the specific information has no keys, so it is not copied into the event.\<close>

lemma new_health_event:
  "\<exists>ev. HealthEvent ''1.5'' ''ab'' [(''source'', PStr ''hw'')] = (ev, None)
    \<and> kp_get ev ''header>event_id'' True = Inr (PStr ''1ab'') \<and> kp_get ev ''payload>source'' True = Inr (PStr ''hw'')
    \<and> kp_get ev ''payload>node_id'' True = Inr (PStr []) \<and> kp_get ev ''payload>specific_info'' True = Inr PNone"
proof -
  have "snd (HealthEvent ''1.5'' ''ab'' [(''source'', PStr ''hw'')]) = None" by code_simp
  moreover have "kp_get (fst (HealthEvent ''1.5'' ''ab'' [(''source'', PStr ''hw'')])) ''header>event_id'' True = Inr (PStr ''1ab'')"
    "kp_get (fst (HealthEvent ''1.5'' ''ab'' [(''source'', PStr ''hw'')])) ''payload>source'' True = Inr (PStr ''hw'')"
    "kp_get (fst (HealthEvent ''1.5'' ''ab'' [(''source'', PStr ''hw'')])) ''payload>node_id'' True = Inr (PStr [])"
    "kp_get (fst (HealthEvent ''1.5'' ''ab'' [(''source'', PStr ''hw'')])) ''payload>specific_info'' True = Inr PNone"
    by code_simp+
  ultimately show ?thesis by (metis prod.collapse)
qed

end
