(* ===== verification/ProductFeatures.thy ===== *)
theory ProductFeatures
  imports ConsulDb Release
begin

text \<open>
  The unsupported features of components, src/py-utils/src/utils/product_features, kept as objects
  of the Consul storage. The class \<open>UnsupportedFeaturesModel\<close> is a parameter with
  \<open>feature_laws\<close>, what schematics documents of a model of three texts; the storage that the
  provider gives for it is a database that exists already.
\<close>

section \<open>Features\<close>

definition UNSUPPORTED_FEATURE :: string where
  "UNSUPPORTED_FEATURE = ''UNSUPPORTED_FEATURE''"

definition create_feature_id :: "pyval list \<Rightarrow> string" where
  "create_feature_id key_data = py_join ''/'' (map (\<lambda>each_key. map to_upper (py_str each_key)) key_data)"

definition instantiate_feature :: "string \<Rightarrow> pyval \<Rightarrow> pyval \<Rightarrow> model_obj" where
  "instantiate_feature feature_id feature_name component_name = [''feature_id'' \<mapsto> NVal (PStr feature_id),
     ''feature_name'' \<mapsto> NVal feature_name, ''component_name'' \<mapsto> NVal component_name]"

definition store_unsupported_feature :: "'s consul_kv \<Rightarrow> model_class \<Rightarrow> consul_db \<Rightarrow> pyval \<Rightarrow> pyval \<Rightarrow> 's \<Rightarrow> 's \<times> (pyexc + unit)" where
  "store_unsupported_feature K M db component_name feature_name s =
     db_store K M db (instantiate_feature (create_feature_id [component_name, PStr UNSUPPORTED_FEATURE, feature_name])
       feature_name component_name) s"

definition store_unsupported_features :: "'s consul_kv \<Rightarrow> model_class \<Rightarrow> consul_db \<Rightarrow> pyval \<Rightarrow> pyval \<Rightarrow> 's \<Rightarrow> 's \<times> (pyexc + unit)" where
  "store_unsupported_features K M db component_name features s = (case features of
      PList fs \<Rightarrow> for_each (\<lambda>s each_feature. store_unsupported_feature K M db component_name each_feature s) s fs
    | _ \<Rightarrow> (s, Inl TypeError))"

definition field_is :: "string \<Rightarrow> pyval \<Rightarrow> pyexc + ifilter" where
  "field_is f v = Compare_filter (Field f) ''='' (NVal v)"

text \<open>The query of \<open>get_unsupported_features\<close>: a second \<open>filter_by\<close> replaces the first.\<close>

definition features_query :: "pyval \<Rightarrow> pyval \<Rightarrow> pyexc + query" where
  "features_query component_name feature_name = (if \<not> py_truth component_name then Inr Query
     else err_bind (field_is ''component_name'' component_name) (\<lambda>by_component.
       let q = query_filter_by Query by_component in
       if \<not> py_truth feature_name then Inr q
       else err_bind (field_is ''feature_name'' feature_name) (\<lambda>by_name.
         err_bind (And_filter [by_name]) (\<lambda>f. Inr (query_filter_by q f)))))"

definition get_unsupported_features :: "'s consul_kv \<Rightarrow> model_class \<Rightarrow> consul_db \<Rightarrow> pyval \<Rightarrow> pyval \<Rightarrow> 's \<Rightarrow> 's \<times> (pyexc + pyval list)" where
  "get_unsupported_features K M db component_name feature_name s = (case features_query component_name feature_name of
      Inl e \<Rightarrow> (s, Inl e)
    | Inr q \<Rightarrow> st_bind (db_get K M db q s) (\<lambda>s1 feature_details. (s1, Inr (map (mc_primitive M) feature_details))))"

definition is_feature_supported :: "'s consul_kv \<Rightarrow> model_class \<Rightarrow> consul_db \<Rightarrow> pyval \<Rightarrow> pyval \<Rightarrow> 's \<Rightarrow> 's \<times> (pyexc + bool)" where
  "is_feature_supported K M db component_name feature_name s =
     (case field_is ''feature_id'' (PStr (create_feature_id [component_name, PStr UNSUPPORTED_FEATURE, feature_name])) of
        Inl e \<Rightarrow> (s, Inl e)
      | Inr f \<Rightarrow> st_bind (db_get K M db (query_filter_by Query f) s) (\<lambda>s1 feature. (s1, Inr (feature = []))))"

section \<open>Upper and lower case\<close>

lemma upper_upper [simp]: "to_upper (to_upper c) = to_upper c"
proof (cases "97 \<le> (of_char c :: nat) \<and> of_char c \<le> (122 :: nat)")
  case True
  then have "to_upper c = char_of ((of_char c :: nat) - 32)" by (simp add: to_upper_def Let_def)
  moreover have "(of_char c :: nat) - 32 < 256" using True by arith
  then have "(of_char (char_of ((of_char c :: nat) - 32) :: char) :: nat) = of_char c - 32" by simp
  ultimately show ?thesis using True by (auto simp: to_upper_def Let_def)
next
  case False
  then have "to_upper c = c" by (auto simp: to_upper_def Let_def)
  then show ?thesis by simp
qed

lemma upper_lower [simp]: "to_upper (to_lower c) = to_upper c"
proof (cases "65 \<le> (of_char c :: nat) \<and> of_char c \<le> (90 :: nat)")
  case True
  then have "to_lower c = char_of ((of_char c :: nat) + 32)" "to_upper c = c" by (auto simp: to_lower_def to_upper_def Let_def)
  moreover have "(of_char (char_of ((of_char c :: nat) + 32) :: char) :: nat) = of_char c + 32" using True by simp
  ultimately show ?thesis using True by (simp add: to_upper_def Let_def)
next
  case False
  then have "to_lower c = c" by (auto simp: to_lower_def Let_def)
  then show ?thesis by simp
qed

lemma map_upper_lower: "map to_upper (map to_lower s) = map to_upper s"
  by simp

lemma lower_upper_inj: "map to_upper s = s \<Longrightarrow> map to_upper t = t \<Longrightarrow> map to_lower s = map to_lower t \<longleftrightarrow> s = t"
  by (metis map_upper_lower)

lemma upper_slash: "to_upper (CHR ''/'') = CHR ''/''"
  by code_simp

lemma upper_feature_id: "map to_upper (create_feature_id ks) = create_feature_id ks"
proof -
  have "map to_upper (py_join ''/'' xs) = py_join ''/'' (map (map to_upper) xs)" for xs
    by (induction "''/''" xs rule: py_join.induct) (auto simp: upper_slash)
  then show ?thesis by (simp add: create_feature_id_def comp_def)
qed

section \<open>The features on record\<close>

text \<open>What is needed of the class of the model.\<close>

definition feature_laws :: "model_class \<Rightarrow> bool" where
  "feature_laws M \<longleftrightarrow> mc_fields M = [''feature_id'', ''feature_name'', ''component_name''] \<and> mc_key M = Some ''feature_id''
     \<and> (\<forall>f \<in> set (mc_fields M). \<forall>t. mc_native M f (NVal (PStr t)) = Some (NVal (PStr t)))
     \<and> (\<forall>i f c. mc_validate M (instantiate_feature i (PStr f) (PStr c)) = Some (instantiate_feature i (PStr f) (PStr c)))"

abbreviation feature_id :: "string \<Rightarrow> string \<Rightarrow> string" where
  "feature_id c f \<equiv> create_feature_id [PStr c, PStr UNSUPPORTED_FEATURE, PStr f]"

text \<open>Every object of the collection is a feature, at the key of its id.\<close>

definition features_kept :: "model_class \<Rightarrow> consul_db \<Rightarrow> (string \<Rightarrow> string option option) \<Rightarrow> bool" where
  "features_kept M db m \<longleftrightarrow> loads M db m \<and> (\<forall>k x. objs_at M db m k = Some x \<longrightarrow>
     (\<exists>i f c. x = instantiate_feature i (PStr f) (PStr c) \<and> map to_upper i = i \<and> k = obj_key M db (NVal (PStr i))))"

definition on_record :: "model_class \<Rightarrow> consul_db \<Rightarrow> (string \<Rightarrow> string option option) \<Rightarrow> string \<Rightarrow> bool" where
  "on_record M db m i \<longleftrightarrow> objs_at M db m (obj_key M db (NVal (PStr i))) \<noteq> None"

lemma obj_key_inj: "map to_upper i = i \<Longrightarrow> map to_upper j = j \<Longrightarrow> obj_key M db (NVal (PStr i)) = obj_key M db (NVal (PStr j)) \<longleftrightarrow> i = j"
  using lower_upper_inj [of i j] by (simp add: obj_key_def key_text_def py_str_def)

context consul_server
begin

lemma supported_on_record:
  assumes fl: "feature_laws M" and k: "features_kept M db (view s)"
  shows "is_feature_supported K M db (PStr c) (PStr f) s = (s, Inr (\<not> on_record M db (view s) (feature_id c f)))"
proof -
  let ?i = "feature_id c f"
  let ?f = "FilterOperationCompare (Field ''feature_id'') OPERATION_EQ (NVal (PStr ?i))"
  let ?q = "query_filter_by Query ?f"
  have n: "mc_native M ''feature_id'' (NVal (PStr t)) = Some (NVal (PStr t))" for t using fl by (simp add: feature_laws_def)
  have fi: "field_is ''feature_id'' (PStr ?i) = Inr ?f"
    by (simp add: field_is_def Compare_filter_def from_standard_representation_def)
  have ok: "filter_ok M (ran (objs_at M db (view s))) ?f"
    using fl k n by (fastforce simp: feature_laws_def features_kept_def field_to_str_def compare_object_def get_field_def
        instantiate_feature_def ran_def)
  have m: "matching M db (view s) ?f = {j. j = obj_key M db (NVal (PStr ?i)) \<and> on_record M db (view s) ?i}"
  proof (intro equalityI subsetI)
    fix j assume "j \<in> matching M db (view s) ?f"
    then obtain x where x: "objs_at M db (view s) j = Some x" "sat M (turned ?f) x" by (auto simp: matching_def)
    then obtain i g d where i: "x = instantiate_feature i (PStr g) (PStr d)" "j = obj_key M db (NVal (PStr i))"
      using k unfolding features_kept_def by blast
    then have "i = ?i" using x(2) n by (simp add: field_to_str_def instantiate_feature_def native_eq_def)
    then show "j \<in> {j. j = obj_key M db (NVal (PStr ?i)) \<and> on_record M db (view s) ?i}" using x(1) i(2) by (auto simp: on_record_def)
  next
    fix j assume j: "j \<in> {j. j = obj_key M db (NVal (PStr ?i)) \<and> on_record M db (view s) ?i}"
    then obtain x where x: "objs_at M db (view s) j = Some x" by (auto simp: on_record_def)
    then obtain i g d where i: "x = instantiate_feature i (PStr g) (PStr d)" "map to_upper i = i" "j = obj_key M db (NVal (PStr i))"
      using k unfolding features_kept_def by blast
    then have "i = ?i" using j obj_key_inj [OF i(2) upper_feature_id] by simp
    then show "j \<in> matching M db (view s) ?f" using x i(1) n by (auto simp: matching_def field_to_str_def instantiate_feature_def native_eq_def)
  qed
  have q: "q_filter_by ?q = Some ?f" "ordered M ?q xs = Inr xs" "query_slice ?q xs = Inr xs" for xs
    by (simp_all add: query_filter_by_def Query_def ordered_def query_slice_def)
  have l: "loads M db (view s)" using k by (simp add: features_kept_def)
  obtain ks where ks: "set ks = matching M db (view s) ?f"
      "db_get K M db ?q s = (s, Inr (map (\<lambda>k. the (objs_at M db (view s) k)) ks))"
    using get_objs [OF l ok q(1)] unfolding q err_bind.simps by auto
  have "set ks = (if on_record M db (view s) ?i then {obj_key M db (NVal (PStr ?i))} else {})" using ks(1) m by simp
  then have "ks = [] \<longleftrightarrow> \<not> on_record M db (view s) ?i" by (metis insert_not_empty set_empty)
  then show ?thesis using fi ks(2) by (simp add: is_feature_supported_def)
qed

lemma store_feature:
  assumes ml: "model_laws M" and fl: "feature_laws M" and k: "features_kept M db (view s)"
    and sc: "scheme_keys db = Inr ks" "set ks = set (mc_fields M)"
  shows "\<exists>s'. store_unsupported_feature K M db (PStr c) (PStr f) s = (s', Inr ()) \<and> features_kept M db (view s')
    \<and> (\<forall>i. map to_upper i = i \<longrightarrow> (on_record M db (view s') i \<longleftrightarrow> i = feature_id c f \<or> on_record M db (view s) i))"
proof -
  let ?x = "instantiate_feature (feature_id c f) (PStr f) (PStr c)" and ?k = "NVal (PStr (feature_id c f))"
  have v: "mc_validate M ?x = Some ?x" using fl by (simp add: feature_laws_def)
  have g: "generic_store M db ?x = Inr ?x" using v sc by (simp add: generic_store_def)
  have p: "primary_key_val M ?x = Inr ?k"
    using fl by (simp add: feature_laws_def primary_key_val_def primary_key_def get_field_def instantiate_feature_def)
  have l: "loads M db (view s)" using k by (simp add: features_kept_def)
  obtain s' where s': "db_store K M db ?x s = (s', Inr ())" "loads M db (view s')"
      "objs_at M db (view s') = (objs_at M db (view s))(obj_key M db ?k \<mapsto> ?x)"
    using store_objs [OF l ml g p] by blast
  have "features_kept M db (view s')" using k s'(2) upper_feature_id unfolding features_kept_def s'(3) by (auto split: if_splits)
  moreover have "on_record M db (view s') i \<longleftrightarrow> i = feature_id c f \<or> on_record M db (view s) i" if "map to_upper i = i" for i
    using obj_key_inj [OF that upper_feature_id] by (auto simp: on_record_def s'(3))
  ultimately show ?thesis using s'(1) by (auto simp: store_unsupported_feature_def)
qed

lemma store_features:
  assumes ml: "model_laws M" and fl: "feature_laws M" and k: "features_kept M db (view s)"
    and sc: "scheme_keys db = Inr ks" "set ks = set (mc_fields M)"
  shows "\<exists>s'. for_each (\<lambda>s each_feature. store_unsupported_feature K M db (PStr c) each_feature s) s (map PStr fs) = (s', Inr ())
    \<and> features_kept M db (view s')
    \<and> (\<forall>i. map to_upper i = i \<longrightarrow> (on_record M db (view s') i \<longleftrightarrow> i \<in> feature_id c ` set fs \<or> on_record M db (view s) i))"
  using k
proof (induction fs arbitrary: s)
  case (Cons f fs)
  obtain s1 where s1: "store_unsupported_feature K M db (PStr c) (PStr f) s = (s1, Inr ())" "features_kept M db (view s1)"
      "\<forall>i. map to_upper i = i \<longrightarrow> (on_record M db (view s1) i \<longleftrightarrow> i = feature_id c f \<or> on_record M db (view s) i)"
    using store_feature [OF ml fl Cons.prems sc] by blast
  obtain s2 where s2: "for_each (\<lambda>s each_feature. store_unsupported_feature K M db (PStr c) each_feature s) s1 (map PStr fs) = (s2, Inr ())"
      "features_kept M db (view s2)"
      "\<forall>i. map to_upper i = i \<longrightarrow> (on_record M db (view s2) i \<longleftrightarrow> i \<in> feature_id c ` set fs \<or> on_record M db (view s1) i)"
    using Cons.IH [OF s1(2)] by blast
  show ?case using s1 s2 by auto
qed simp

end

text \<open>Claim C38. Storing the unsupported features of a component succeeds on a collection of
  features, and then exactly these features are not supported in addition to those that were
  not before: \<open>is_feature_supported\<close> answers for every component and feature by the
  upper-case id that both make, and the collection stays one object per id.\<close>

theorem features_recorded:
  assumes "consul_server K view" "model_laws M" "feature_laws M" "features_kept M db (view s)"
    and "scheme_keys db = Inr ks" "set ks = set (mc_fields M)"
  shows "\<exists>s'. store_unsupported_features K M db (PStr c) (PList (map PStr fs)) s = (s', Inr ()) \<and> features_kept M db (view s')
    \<and> (\<forall>c' f'. is_feature_supported K M db (PStr c') (PStr f') s' = (s', Inr (feature_id c' f' \<notin> feature_id c ` set fs \<and>
         snd (is_feature_supported K M db (PStr c') (PStr f') s) = Inr True)))"
proof -
  obtain s' where s': "for_each (\<lambda>s each_feature. store_unsupported_feature K M db (PStr c) each_feature s) s (map PStr fs) = (s', Inr ())"
      "features_kept M db (view s')"
      "\<forall>i. map to_upper i = i \<longrightarrow> (on_record M db (view s') i \<longleftrightarrow> i \<in> feature_id c ` set fs \<or> on_record M db (view s) i)"
    using consul_server.store_features [OF assms(1-6)] by blast
  note sup = consul_server.supported_on_record [OF assms(1,3)]
  have "is_feature_supported K M db (PStr c') (PStr f') s' = (s', Inr (feature_id c' f' \<notin> feature_id c ` set fs \<and>
         snd (is_feature_supported K M db (PStr c') (PStr f') s) = Inr True))" for c' f'
    using s'(3) upper_feature_id [of "[PStr c', PStr UNSUPPORTED_FEATURE, PStr f']"]
    unfolding sup [OF s'(2)] sup [OF assms(4)] by auto
  then show ?thesis using s'(1,2) by (auto simp: store_unsupported_features_def)
qed

text \<open>A query for a component and a feature is the query for the feature: features of that name of
  all components are returned.\<close>

lemma query_drops_component:
  "py_truth c \<Longrightarrow> py_truth f \<Longrightarrow> features_query c f =
     Inr (query_filter_by Query (FilterOperationCompare (Field ''feature_name'') OPERATION_EQ (NVal f)))"
  by (simp add: features_query_def field_is_def Compare_filter_def from_standard_representation_def And_filter_def nested_def
      Let_def query_filter_by_def)

text \<open>A model of three texts, as an example.\<close>

definition feature_model :: model_class where
  "feature_model = \<lparr>mc_fields = [''feature_id'', ''feature_name'', ''component_name''], mc_is_string = (\<lambda>f. True), mc_key = Some ''feature_id'',
     mc_native = (\<lambda>f v. Some v),
     mc_make = (\<lambda>v. case v of PDict d \<Rightarrow> Inr (\<lambda>f. map_option NVal (map_of d f)) | _ \<Rightarrow> Inl (PyException ''DataError'')),
     mc_validate = (\<lambda>x. case (x ''feature_id'', x ''feature_name'', x ''component_name'') of
         (Some (NVal (PStr i)), Some (NVal (PStr f)), Some (NVal (PStr c))) \<Rightarrow> Some (instantiate_feature i (PStr f) (PStr c)) | _ \<Rightarrow> None),
     mc_primitive = (\<lambda>x. PDict (map (\<lambda>f. (f, case x f of Some (NVal v) \<Rightarrow> v | _ \<Rightarrow> PNone)) [''feature_id'', ''feature_name'', ''component_name''])),
     mc_time_str = show_int\<rparr>"

definition feature_db :: consul_db where
  "feature_db = \<lparr>cd_collection = ''features'', cd_scheme = PDict [(''feature_id'', PNone), (''feature_name'', PNone), (''component_name'', PNone)]\<rparr>"

lemma feature_model_validate:
  "mc_validate feature_model x = Some y \<Longrightarrow> \<exists>i f c. y = instantiate_feature i (PStr f) (PStr c)"
  by (auto simp: feature_model_def split: option.splits native.splits pyval.splits)

lemma feature_model_primitive: "mc_primitive feature_model (instantiate_feature i (PStr f) (PStr c)) =
    PDict [(''feature_id'', PStr i), (''feature_name'', PStr f), (''component_name'', PStr c)]"
  by (simp add: feature_model_def instantiate_feature_def)

lemma feature_model_make: "mc_make feature_model (PDict [(''feature_id'', PStr i), (''feature_name'', f), (''component_name'', c)])
    = Inr (instantiate_feature i f c)"
  by (auto simp: feature_model_def instantiate_feature_def)

lemma feature_model_laws: "model_laws feature_model" "feature_laws feature_model"
proof -
  show "model_laws feature_model"
    unfolding model_laws_def using feature_model_validate feature_model_primitive feature_model_make by fastforce
  show "feature_laws feature_model" by (simp add: feature_laws_def feature_model_def instantiate_feature_def)
qed

theorem features_recorded_witness:
  "\<exists>s'. store_unsupported_features list_server feature_model feature_db (PStr ''csm'') (PList [PStr ''alerts'', PStr ''ldap'']) [] = (s', Inr ())
    \<and> is_feature_supported list_server feature_model feature_db (PStr ''CSM'') (PStr ''ldap'') s' = (s', Inr False)
    \<and> is_feature_supported list_server feature_model feature_db (PStr ''csm'') (PStr ''s3'') s' = (s', Inr True)"
proof -
  have k: "features_kept feature_model feature_db (map_of [])" by (simp add: features_kept_def loads_def objs_at_def)
  have sc: "scheme_keys feature_db = Inr (mc_fields feature_model)" by (simp add: scheme_keys_def feature_db_def feature_model_def)
  obtain s' where s': "store_unsupported_features list_server feature_model feature_db (PStr ''csm'') (PList (map PStr [''alerts'', ''ldap''])) [] = (s', Inr ())"
      "\<forall>c' f'. is_feature_supported list_server feature_model feature_db (PStr c') (PStr f') s' = (s', Inr (feature_id c' f' \<notin> feature_id ''csm'' ` set [''alerts'', ''ldap''] \<and>
         snd (is_feature_supported list_server feature_model feature_db (PStr c') (PStr f') []) = Inr True))"
    using features_recorded [OF ls.consul_server_axioms feature_model_laws k sc refl, of "''csm''" "[''alerts'', ''ldap'']"] by blast
  have o: "snd (is_feature_supported list_server feature_model feature_db (PStr c') (PStr f') []) = Inr True" for c' f'
    using ls.supported_on_record [OF feature_model_laws(2) k] by (simp add: on_record_def objs_at_def)
  have i: "feature_id ''CSM'' ''ldap'' = feature_id ''csm'' ''ldap''" by code_simp
  have d: "feature_id ''csm'' ''s3'' \<notin> feature_id ''csm'' ` set [''alerts'', ''ldap'']" by code_simp
  have "is_feature_supported list_server feature_model feature_db (PStr ''CSM'') (PStr ''ldap'') s' = (s', Inr False)"
    using s'(2) i by simp
  moreover have "is_feature_supported list_server feature_model feature_db (PStr ''csm'') (PStr ''s3'') s' = (s', Inr True)"
    using s'(2) d o by simp
  ultimately show ?thesis using s'(1) by auto
qed

end
