(* ===== verification/Discovery.thy ===== *)
theory Discovery
  imports ActivityTracker KvFactory Effects
begin

text \<open>
  The discovery of resources, src/py-utils/src/utils/discovery: requests for the health or the
  manifest of a node run in threads of their own and are tracked in a register, a JSON store. The
  collected data goes to the store that \<open>Resource\<close> keeps for the URL of a request; it is a record of
  the two calls that are made, \<open>kv_resources\<close> on the stores of the development. The modules that
  collect the data are found by the import system and are a parameter, as are the clock and
  the texts of exceptions. The threads have no lock: what the others do between the steps of a request is
  a parameter of it (\<open>meanwhile\<close>), and \<open>lost_update\<close> shows what happens if the load and the dump of
  two changes of the register overlap.
\<close>

section \<open>State\<close>

record 'r discovery =
  dy_config :: file_store
  dy_register :: file_store
  dy_resources :: 'r

record 'r resource_store =
  rs_init :: "string \<Rightarrow> 'r \<Rightarrow> 'r \<times> (pyexc + unit)"
  rs_set :: "string \<Rightarrow> pyval \<Rightarrow> 'r \<Rightarrow> 'r \<times> pyexc option"

abbreviation DiscoveryError :: pyexc where
  "DiscoveryError \<equiv> PyException ''DiscoveryError''"

definition ROOT_NODE :: string where "ROOT_NODE = ''node''"
definition INPROGRESS :: string where "INPROGRESS = ''In-progress''"
definition SUCCESS :: string where "SUCCESS = ''Success''"
definition FAILED :: string where "FAILED = ''Failed''"

text \<open>\<open>Resource.init\<close> and \<open>Resource.set\<close> on the stores of the factory; \<open>_kv\<close> is None at first.\<close>

definition obj_class :: "codecs \<Rightarrow> string \<Rightarrow> (kv_world, kv_payload) store_class" where
  "obj_class co h = \<lparr>sc_load = (\<lambda>w recurse. kv_obj_load co w h recurse), sc_dump = (\<lambda>w p. kv_obj_dump co w h p), sc_share = (\<lambda>w p. w)\<rparr>"

definition resource_init :: "codecs \<Rightarrow> string \<Rightarrow> kv_world \<times> string option \<Rightarrow> (kv_world \<times> string option) \<times> (pyexc + unit)" where
  "resource_init co url r = (case get_instance kv_table (fst r) url ''>'' of
      (w, Inl e) \<Rightarrow> ((w, snd r), Inl e)
    | (w, Inr h) \<Rightarrow> (case kv_obj_load co w h True of (w1, x) \<Rightarrow> ((w1, Some h), err_bind x (\<lambda>_. Inr ()))))"

definition resource_set :: "codecs \<Rightarrow> string \<Rightarrow> pyval \<Rightarrow> kv_world \<times> string option \<Rightarrow> (kv_world \<times> string option) \<times> pyexc option" where
  "resource_set co key value r = (case snd r of
      None \<Rightarrow> (r, Some AttributeError)
    | Some h \<Rightarrow> (case ks_set kv_class (obj_class co h) (fst r) [key] [value] of (w, e) \<Rightarrow> ((w, snd r), e)))"

definition kv_resources :: "codecs \<Rightarrow> (kv_world \<times> string option) resource_store" where
  "kv_resources co = \<lparr>rs_init = resource_init co, rs_set = resource_set co\<rparr>"

section \<open>Reading the configuration and the register\<close>

text \<open>\<open>store.get([key])[0]\<close>.\<close>

definition store_value :: "file_store \<Rightarrow> string \<Rightarrow> pyexc + pyval" where
  "store_value s key = err_bind (snd (ks_get kv_class json_class s [key])) (\<lambda>vals. Inr (hd vals))"

definition register_set :: "string \<Rightarrow> pyval \<Rightarrow> 'r discovery \<Rightarrow> 'r discovery \<times> (pyexc + unit)" where
  "register_set req_id v d = (case ks_set kv_class json_class (dy_register d) [req_id] [v] of
      (s, e) \<Rightarrow> (d\<lparr>dy_register := s\<rparr>, case e of None \<Rightarrow> Inr () | Some x \<Rightarrow> Inl x))"

text \<open>\<open>os.path.join\<close> of a directory and a relative name.\<close>

definition path_join :: "pyval \<Rightarrow> string \<Rightarrow> pyexc + string" where
  "path_join dir name = (case dir of
      PStr s \<Rightarrow> Inr (if s = [] \<or> last s = CHR ''/'' then s @ name else s @ ''/'' @ name)
    | _ \<Rightarrow> Inl TypeError)"

definition data_file_map :: "string \<Rightarrow> string \<Rightarrow> (string \<times> string) list" where
  "data_file_map suffix store_type = [(''health'', ''node_health_info'' @ suffix @ ''.'' @ store_type),
     (''manifest'', ''node_manifest_info'' @ suffix @ ''.'' @ store_type)]"

text \<open>Store type and path of the file of a kind of request.\<close>

definition data_file :: "'r discovery \<Rightarrow> string \<Rightarrow> string \<Rightarrow> pyexc + string \<times> string" where
  "data_file d req_type suffix =
     err_bind (store_value (dy_config d) ''discovery>resource_map>store_type'') (\<lambda>st.
     err_bind (store_value (dy_config d) ''discovery>resource_map>location'') (\<lambda>loc.
     case map_of (data_file_map suffix (py_str st)) req_type of
       None \<Rightarrow> Inl KeyError
     | Some name \<Rightarrow> err_bind (path_join loc name) (\<lambda>path. Inr (py_str st, path))))"

definition url_of :: "string \<times> string \<Rightarrow> string" where
  "url_of sp = fst sp @ ''://'' @ snd sp"

text \<open>The first part of \<open>process\<close>: the resource path and the URL of the store. An empty text and None
  are the same here.\<close>

definition request_target :: "'r discovery \<Rightarrow> string \<times> string \<times> string \<Rightarrow> string \<Rightarrow> pyexc + string \<times> string" where
  "request_target d request req_type = (case request of (rpath, req_id, store_url) \<Rightarrow>
     if store_url = [] \<and> rpath = [] then err_bind (data_file d req_type []) (\<lambda>f. Inr (ROOT_NODE, url_of f))
     else if store_url = [] then err_bind (data_file d req_type (''_'' @ req_id)) (\<lambda>f. Inr (rpath, url_of f))
     else Inr (if rpath = [] then ROOT_NODE else rpath, store_url))"

section \<open>The register\<close>

definition add_discovery_request :: "string \<times> string \<Rightarrow> string \<Rightarrow> string \<Rightarrow> 'r discovery \<Rightarrow> 'r discovery \<times> (pyexc + unit)" where
  "add_discovery_request target req_id now d = register_set req_id (PDict [(''rpath'', PStr (fst target)),
     (''status'', PStr INPROGRESS), (''url'', PStr (snd target)), (''time'', PStr now)]) d"

definition set_request_processed :: "string \<Rightarrow> string \<Rightarrow> string \<Rightarrow> 'r discovery \<Rightarrow> 'r discovery \<times> (pyexc + unit)" where
  "set_request_processed req_id status now d = (case store_value (dy_register d) req_id of
      Inl e \<Rightarrow> (d, Inl e)
    | Inr (PDict info) \<Rightarrow> register_set req_id
        (PDict (AList.update ''time'' (PStr now) (AList.update ''status'' (PStr status) info))) d
    | Inr _ \<Rightarrow> (d, Inl AttributeError))"

section \<open>Collecting the data\<close>

text \<open>The modules: from the configured path and the product to the classes of the module, each with
  its name and its methods for health and manifest. A missing module is a ModuleNotFoundError.\<close>

type_synonym data_class = "string \<times> (string \<times> string \<Rightarrow> pyexc + pyval)"
type_synonym provider = "string \<times> string \<Rightarrow> pyexc + data_class list"

definition get_module_from_path :: "provider \<Rightarrow> string \<times> string \<Rightarrow> pyexc + data_class list" where
  "get_module_from_path prov pp = (case prov pp of
      Inl e \<Rightarrow> Inl (if e = PyException ''ModuleNotFoundError'' then DiscoveryError else e)
    | Inr cs \<Rightarrow> Inr cs)"

fun scan_classes :: "string \<Rightarrow> string \<times> string \<Rightarrow> data_class list \<Rightarrow> pyexc + pyval" where
  "scan_classes name req [] = Inl DiscoveryError"
| "scan_classes name req ((n, get) # cs) = (if n = name \<and> fst req \<in> {''health'', ''manifest''}
     then (case get req of Inl e \<Rightarrow> Inl DiscoveryError | Inr v \<Rightarrow> Inr v)
     else scan_classes name req cs)"

definition text_of :: "pyval \<Rightarrow> pyexc + string" where
  "text_of v = (case v of PStr s \<Rightarrow> Inr s | _ \<Rightarrow> Inl AttributeError)"

text \<open>\<open>Resource.get_data\<close>; \<open>req\<close> is the type of the request with the resource path.\<close>

definition get_data :: "provider \<Rightarrow> string \<Rightarrow> string \<times> string \<Rightarrow> 'r discovery \<Rightarrow> pyexc + pyval" where
  "get_data prov name req d =
     err_bind (store_value (dy_config d) ''discovery>solution_platform_monitor'') (\<lambda>m.
     err_bind (store_value (dy_config d) ''product_id'') (\<lambda>p. err_bind (text_of p) (\<lambda>product.
     err_bind (text_of m) (\<lambda>monitor_path.
     err_bind (get_module_from_path prov (monitor_path, map to_lower product)) (scan_classes name req)))))"

text \<open>The classes of resource_collection by name, with \<open>childs\<close>; \<open>ResourceFactory.get_instance\<close>.\<close>

definition resource_classes :: "(string \<times> string list) list" where
  "resource_classes = [(''node'', [''server'', ''storage'']), (''server'', []), (''storage'', [])]"

definition resource_instance :: "string \<Rightarrow> pyexc + string list" where
  "resource_instance node = (case map_of resource_classes node of None \<Rightarrow> Inl DiscoveryError | Some childs \<Rightarrow> Inr childs)"

text \<open>\<open>re.search(r"(\w+)\[([\d]+)\]|(\w+)", node)\<close>: the first word of the text and the number that
  stands in brackets behind it.\<close>

definition is_word :: "char \<Rightarrow> bool" where
  "is_word c \<longleftrightarrow> is_alpha c \<or> is_digit c \<or> c = CHR ''_''"

definition get_node_details :: "string \<Rightarrow> pyexc + string \<times> string" where
  "get_node_details node = (let t = dropWhile (Not \<circ> is_word) node; word = takeWhile is_word t; rest = dropWhile is_word t;
       inst = takeWhile is_digit (tl rest) in
     if t = [] then Inl AttributeError
     else Inr (word, if starts_with rest ''['' \<and> inst \<noteq> [] \<and> starts_with (dropWhile is_digit (tl rest)) '']'' then inst else ''*''))"

definition store_data :: "'r resource_store \<Rightarrow> provider \<Rightarrow> string \<Rightarrow> string \<times> string \<Rightarrow> 'r discovery \<Rightarrow> 'r discovery \<times> (pyexc + unit)" where
  "store_data R prov name req d = (case get_data prov name req d of
      Inl e \<Rightarrow> (d, Inl e)
    | Inr v \<Rightarrow> (case rs_set R (snd req) v (dy_resources d) of
        (r, e) \<Rightarrow> (d\<lparr>dy_resources := r\<rparr>, case e of None \<Rightarrow> Inr () | Some x \<Rightarrow> Inl x)))"

text \<open>The loop of \<open>_update_resource_map\<close> over the nodes of the path.\<close>

fun update_nodes :: "'r resource_store \<Rightarrow> provider \<Rightarrow> string \<Rightarrow> string \<times> string \<Rightarrow> string list \<Rightarrow> 'r discovery
    \<Rightarrow> 'r discovery \<times> (pyexc + unit)" where
  "update_nodes R prov leaf req [] d = (d, Inr ())"
| "update_nodes R prov leaf req (n # ns) d =
     st_bind (d, get_node_details n) (\<lambda>d nd. let node = fst nd in
     st_bind (d, resource_instance node) (\<lambda>d childs.
     st_bind (d, if node = leaf then Inr ''''  else err_bind (get_node_details (hd ns)) (\<lambda>nx. Inr (fst nx))) (\<lambda>d nx.
       if node \<noteq> leaf \<and> childs \<noteq> [] \<and> nx \<notin> set childs then (d, Inl DiscoveryError)
       else if node = leaf \<and> childs \<noteq> [] then
         for_each (\<lambda>d child. store_data R prov child (fst req, snd req @ ''>'' @ child) d) d childs
       else if node = leaf \<or> childs = [] then store_data R prov node req d
       else update_nodes R prov leaf req ns d)))"

definition update_resource_map :: "'r resource_store \<Rightarrow> provider \<Rightarrow> string \<times> string \<Rightarrow> 'r discovery \<Rightarrow> 'r discovery \<times> (pyexc + unit)" where
  "update_resource_map R prov req d = (let nodes = py_split (CHR ''>'') (py_strip (snd req)) in
     st_bind (d, get_node_details (last nodes)) (\<lambda>d leaf. update_nodes R prov (fst leaf) req nodes d))"

section \<open>Requests\<close>

text \<open>What a request takes from its environment: the times at which it is entered and ended, and the
  texts of exceptions.\<close>

record request_env =
  re_start :: string
  re_end :: string
  re_text :: "pyexc \<Rightarrow> string"

definition init_resources :: "'r resource_store \<Rightarrow> string \<Rightarrow> 'r discovery \<Rightarrow> 'r discovery \<times> (pyexc + unit)" where
  "init_resources R url d = (case rs_init R url (dy_resources d) of (r, x) \<Rightarrow> (d\<lparr>dy_resources := r\<rparr>, x))"

text \<open>What other threads do between the steps of a request: after the store was opened, after the request was
  entered, and after its data was collected. Each step of the request itself is taken as a whole.\<close>

record 'r meanwhile =
  mw_opened :: "'r discovery \<Rightarrow> 'r discovery"
  mw_entered :: "'r discovery \<Rightarrow> 'r discovery"
  mw_collected :: "'r discovery \<Rightarrow> 'r discovery"

abbreviation alone :: "'r meanwhile" where
  "alone \<equiv> \<lparr>mw_opened = (\<lambda>d. d), mw_entered = (\<lambda>d. d), mw_collected = (\<lambda>d. d)\<rparr>"

definition then_others :: "('r discovery \<Rightarrow> 'r discovery) \<Rightarrow> 'r discovery \<times> (pyexc + unit) \<Rightarrow> 'r discovery \<times> (pyexc + unit)" where
  "then_others others x = (others (fst x), snd x)"

definition process :: "'r resource_store \<Rightarrow> provider \<Rightarrow> request_env \<Rightarrow> 'r meanwhile \<Rightarrow> string \<times> string \<times> string \<Rightarrow> string \<Rightarrow> 'r discovery
    \<Rightarrow> 'r discovery \<times> (pyexc + unit)" where
  "process R prov env mw request req_type d = (case request_target d request req_type of
      Inl e \<Rightarrow> (d, Inl e)
    | Inr target \<Rightarrow> (let req_id = fst (snd request) in
        case st_bind (then_others (mw_opened mw) (init_resources R (snd target) d)) (\<lambda>d1 _.
             st_bind (then_others (mw_entered mw) (add_discovery_request target req_id (re_start env) d1)) (\<lambda>d2 _.
             st_bind (then_others (mw_collected mw) (update_resource_map R prov (req_type, fst target) d2)) (\<lambda>d3 _.
               set_request_processed req_id SUCCESS (re_end env) d3))) of
          (d', Inr _) \<Rightarrow> (d', Inr ())
        | (d', Inl e) \<Rightarrow> set_request_processed req_id (FAILED @ '' - '' @ re_text env e) (re_end env) d'))"

text \<open>The clock of a question: the seconds of now and of the last boot, the text of now, and
  \<open>strptime\<close> with \<open>mktime\<close>.\<close>

record status_env =
  se_now :: int
  se_boot :: int
  se_now_text :: string
  se_parse :: "string \<Rightarrow> int option"

text \<open>\<open>status is RequestHandler.INPROGRESS\<close>: a text that was read from a file is another object.\<close>

definition is_in_progress :: "pyval \<Rightarrow> bool" where
  "is_in_progress status = False"

definition request_expired :: "status_env \<Rightarrow> string \<Rightarrow> pyval \<Rightarrow> 'r discovery \<Rightarrow> pyexc + bool" where
  "request_expired env req_id status d =
     err_bind (err_bind (store_value (dy_config d) ''discovery>resource_map>expiry_sec'') py_int) (\<lambda>expiry_sec.
     err_bind (store_value (dy_register d) (req_id @ ''>time'')) (\<lambda>t. case t of
       PStr txt \<Rightarrow> (case se_parse env txt of
           None \<Rightarrow> Inl ValueError
         | Some req_start_time \<Rightarrow> Inr (expiry_sec < se_now env - req_start_time
             \<or> (req_start_time < se_boot env \<and> is_in_progress status)))
     | _ \<Rightarrow> Inl TypeError))"

definition get_processing_status :: "status_env \<Rightarrow> string \<Rightarrow> 'r discovery \<Rightarrow> 'r discovery \<times> (pyexc + pyval)" where
  "get_processing_status env req_id d =
     st_bind (d, store_value (dy_register d) (req_id @ ''>status'')) (\<lambda>d status.
     if \<not> py_truth status then (d, Inl DiscoveryError)
     else st_bind (d, request_expired env req_id status d) (\<lambda>d expired.
       st_bind (if expired then set_request_processed req_id ''Failed - request is expired.'' (se_now_text env) d else (d, Inr ()))
         (\<lambda>d1 _. (d1, store_value (dy_register d1) (req_id @ ''>status'')))))"

definition get_resource_map_location :: "(string \<Rightarrow> bool) \<Rightarrow> string \<Rightarrow> string \<Rightarrow> 'r discovery \<Rightarrow> pyexc + pyval" where
  "get_resource_map_location file_exists req_id req_type d = (if req_id \<noteq> [] then
       err_bind (store_value (dy_register d) (req_id @ ''>url'')) (\<lambda>url. if py_truth url then Inr url else Inl DiscoveryError)
     else err_bind (data_file d req_type []) (\<lambda>f. if file_exists (snd f) then Inr (PStr (url_of f)) else Inl DiscoveryError))"

section \<open>The interface\<close>

text \<open>\<open>Discovery\<close>: a request runs in a thread; the id, the text of the time, is returned.\<close>

definition generate_node :: "'r resource_store \<Rightarrow> provider \<Rightarrow> request_env \<Rightarrow> 'r meanwhile \<Rightarrow> string \<times> string \<times> string \<Rightarrow> string \<Rightarrow> 'r discovery
    \<Rightarrow> 'r discovery \<times> string" where
  "generate_node R prov env mw request req_type d = (fst (process R prov env mw request req_type d), fst (snd request))"

definition get_request_status :: "status_env \<Rightarrow> string \<Rightarrow> 'r discovery \<Rightarrow> 'r discovery \<times> (pyexc + pyval)" where
  "get_request_status env request_id d = (if request_id = [] then (d, Inl DiscoveryError) else get_processing_status env request_id d)"

section \<open>The register as a dict\<close>

definition reg_dict :: "file_store \<Rightarrow> pydict \<Rightarrow> bool" where
  "reg_dict s d \<longleftrightarrow> fs_delim s = ''>'' \<and> json_ok (PDict d) \<and> (\<exists>t. fs_files s (fs_path s) = Some t \<and> json_load t = Some (PDict d))"

text \<open>The ids of requests are texts of digits.\<close>

definition req_ok :: "string \<Rightarrow> bool" where
  "req_ok i \<longleftrightarrow> i \<noteq> [] \<and> list_all is_digit i"

lemma digit_plain: "is_digit c \<Longrightarrow> c \<noteq> CHR ''>'' \<and> c \<noteq> CHR ''['' \<and> \<not> is_space c"
  by (auto simp: is_digit_def is_space_def)

lemma req_plain: "req_ok i \<Longrightarrow> plain_name i \<and> py_strip i \<noteq> []"
proof -
  assume i: "req_ok i"
  then have "plain_name i" using digit_plain by (auto simp: req_ok_def plain_name_def list_all_iff)
  moreover have "py_strip i \<noteq> []"
  proof -
    obtain c r where "i = c # r" "\<not> is_space c" using i digit_plain by (cases i) (auto simp: req_ok_def)
    then show ?thesis by (simp add: py_strip_def) 
  qed
  ultimately show ?thesis by blast
qed

lemma reg_load: "reg_dict s d \<Longrightarrow> \<exists>p. json_store_load s True = (s, Inr p) \<and> kp_delim p = ''>'' \<and> kp_data p = PDict d"
  by (auto simp: reg_dict_def json_store_load_def kp_init_def)

lemma reg_set:
  assumes r: "reg_dict s d" and k: "plain_name k" and v: "json_ok v"
  shows "\<exists>s'. ks_set kv_class json_class s [k] [v] = (s', None) \<and> reg_dict s' (AList.update k v d)"
proof -
  obtain p where p: "json_store_load s True = (s, Inr p)" "kp_delim p = ''>''" "kp_data p = PDict d" using reg_load [OF r] by blast
  obtain p' where p': "set_all kv_class p [(k, v)] = (p', None)" "kp_data p' = PDict (AList.update k v d)"
    using set_all_plain [OF p(2,3), of "[(k, v)]"] k by auto
  have ok: "json_ok (PDict (AList.update k v d))" using r v by (intro json_ok_update) (simp_all add: reg_dict_def)
  let ?s = "write_file s (json_dump 0 (PDict (AList.update k v d)))"
  have "ks_set kv_class json_class s [k] [v] = (?s, None)"
    using p(1) p' by (simp add: ks_set_def json_class_def dump_after_def json_store_dump_def del: set_all.simps json_dump.simps)
  moreover have "reg_dict ?s (AList.update k v d)"
    using r ok by (simp add: reg_dict_def write_file_def json_load_dump del: json_ok.simps json_dump.simps)
  ultimately show ?thesis by blast
qed

definition entry_of_key :: "pydict \<Rightarrow> string \<Rightarrow> pyval" where
  "entry_of_key d k = (case map_of d k of None \<Rightarrow> PNone | Some v \<Rightarrow> v)"

lemma kv_get_named: "plain_name k \<Longrightarrow> py_strip k \<noteq> [] \<Longrightarrow> kv_get (CHR ''>'') k (PDict d) = Inr (entry_of_key d k)"
  by (subst kv_get.simps) (simp add: plain_name_def split1_no_sep kv_get_leaf_def key_index_split_plain Let_def entry_of_key_def
      split: option.splits)

lemma kv_get_field: "plain_name k \<Longrightarrow> py_strip k \<noteq> [] \<Longrightarrow> plain_name f \<Longrightarrow> py_strip f \<noteq> [] \<Longrightarrow> kv_get (CHR ''>'') (k @ ''>'' @ f) (PDict d) =
    Inr (case map_of d k of Some (PDict e) \<Rightarrow> entry_of_key e f | _ \<Rightarrow> PNone)"
  by (subst kv_get.simps) (simp add: plain_name_def split1_sep key_index_split_plain Let_def kv_get_named split: option.splits pyval.splits)

lemma store_value_get: "reg_dict s d \<Longrightarrow> kv_get (CHR ''>'') k (PDict d) = Inr v \<Longrightarrow> store_value s k = Inr v"
  using reg_load [of s d] by (auto simp: store_value_def ks_get_def json_class_def kv_class_def kp_get_def)

lemma register_set_dict:
  assumes "reg_dict (dy_register d) e" "plain_name k" "json_ok v"
  shows "\<exists>d'. register_set k v d = (d', Inr ()) \<and> reg_dict (dy_register d') (AList.update k v e) \<and> dy_config d' = dy_config d"
proof -
  obtain s' where "ks_set kv_class json_class (dy_register d) [k] [v] = (s', None)" "reg_dict s' (AList.update k v e)"
    using reg_set [OF assms] by blast
  then show ?thesis by (simp add: register_set_def)
qed

lemma value_entry: "reg_dict s e \<Longrightarrow> req_ok i \<Longrightarrow> store_value s i = Inr (entry_of_key e i)"
  using req_plain [of i] by (intro store_value_get) (simp_all add: kv_get_named)

lemma value_field: "reg_dict s e \<Longrightarrow> req_ok i \<Longrightarrow> plain_name f \<Longrightarrow> py_strip f \<noteq> [] \<Longrightarrow>
    store_value s (i @ ''>'' @ f) = Inr (case map_of e i of Some (PDict r) \<Rightarrow> entry_of_key r f | _ \<Rightarrow> PNone)"
  using req_plain [of i] kv_get_field [of i f e] by (intro store_value_get) simp_all

lemma request_fields [simp]: "plain_name ''status''" "plain_name ''time''" "py_strip ''status'' \<noteq> []" "py_strip ''time'' \<noteq> []"
proof -
  show "py_strip ''status'' \<noteq> []" "py_strip ''time'' \<noteq> []" by code_simp+
qed (simp_all add: plain_name_def)

text \<open>Collecting the data changes the store of the resources only.\<close>

definition same_register :: "'r discovery \<Rightarrow> 'r discovery \<Rightarrow> bool" where
  "same_register d d' \<longleftrightarrow> dy_register d' = dy_register d \<and> dy_config d' = dy_config d"

lemma store_data_register: "store_data R prov name req d = (d', r) \<Longrightarrow> same_register d d'"
  by (auto simp: store_data_def same_register_def split: sum.splits prod.splits)

lemma update_nodes_register: "update_nodes R prov leaf req ns d = (d', r) \<Longrightarrow> same_register d d'"
proof (induction R prov leaf req ns d arbitrary: d' r rule: update_nodes.induct)
  case (1 R prov leaf req d)
  then show ?case by (simp add: same_register_def)
next
  case (2 R prov leaf req n ns d)
  have loop: "same_register d d1" if "for_each (\<lambda>d child. store_data R prov child (fst req, snd req @ ''>'' @ child) d) d cs = (d1, r1)" for cs d1 r1
    by (rule for_each_inv [where I = "same_register d", OF _ _ that])
      (auto simp: same_register_def dest!: store_data_register)
  show ?case
  proof (cases "get_node_details n")
    case (Inr nd)
    show ?thesis
    proof (cases "resource_instance (fst nd)")
      case childs: (Inr childs)
      let ?nx = "if fst nd = leaf then Inr '''' else err_bind (get_node_details (hd ns)) (\<lambda>nx. Inr (fst nx))"
      show ?thesis
      proof (cases ?nx)
        case nx: (Inr nx)
        note s = 2(2) [unfolded update_nodes.simps Inr st_bind_simps Let_def childs nx]
        consider "fst nd \<noteq> leaf \<and> childs \<noteq> [] \<and> nx \<notin> set childs"
          | "fst nd = leaf" "childs \<noteq> []"
          | "\<not> (fst nd \<noteq> leaf \<and> childs \<noteq> [] \<and> nx \<notin> set childs)" "\<not> (fst nd = leaf \<and> childs \<noteq> [])" "fst nd = leaf \<or> childs = []"
          | "\<not> (fst nd \<noteq> leaf \<and> childs \<noteq> [] \<and> nx \<notin> set childs)" "\<not> (fst nd = leaf \<and> childs \<noteq> [])" "\<not> (fst nd = leaf \<or> childs = [])"
          by blast
        then show ?thesis
        proof cases
          case 1
          then show ?thesis using s by (simp add: same_register_def)
        next
          case 2
          then have "for_each (\<lambda>d child. store_data R prov child (fst req, snd req @ ''>'' @ child) d) d childs = (d', r)" using s by simp
          then show ?thesis by (rule loop)
        next
          case 3
          then have "store_data R prov (fst nd) req d = (d', r)" using s by (auto split: if_splits)
          then show ?thesis by (rule store_data_register)
        next
          case 4
          then have "update_nodes R prov leaf req ns d = (d', r)" using s by (auto split: if_splits)
          moreover have "\<And>d' r. update_nodes R prov leaf req ns d = (d', r) \<Longrightarrow> same_register d d'"
            using 2(1) [OF refl] 4 by blast
          ultimately show ?thesis by blast
        qed
      qed (use 2(2) Inr childs in \<open>auto simp: same_register_def\<close>)
    qed (use 2(2) Inr in \<open>auto simp: same_register_def\<close>)
  qed (use 2(2) in \<open>auto simp: same_register_def\<close>)
qed

lemma update_map_register: "update_resource_map R prov req d = (d', r) \<Longrightarrow> same_register d d'"
  by (cases "get_node_details (last (py_split (CHR ''>'') (py_strip (snd req))))")
    (auto simp: update_resource_map_def Let_def same_register_def dest: update_nodes_register)

section \<open>Every request ends\<close>

text \<open>The entry of a request in the register.\<close>

definition has_entry :: "pydict \<Rightarrow> string \<Rightarrow> string \<Rightarrow> string \<Rightarrow> bool" where
  "has_entry e i status time \<longleftrightarrow> (\<exists>r. map_of e i = Some (PDict r) \<and> json_ok (PDict r)
     \<and> map_of r ''status'' = Some (PStr status) \<and> map_of r ''time'' = Some (PStr time))"

lemma set_processed:
  assumes "reg_dict (dy_register d) e" "req_ok i" "has_entry e i st tm"
  shows "\<exists>d' e'. set_request_processed i status now d = (d', Inr ()) \<and> reg_dict (dy_register d') e' \<and> has_entry e' i status now
    \<and> dy_config d' = dy_config d \<and> (\<forall>j. j \<noteq> i \<longrightarrow> map_of e' j = map_of e j)"
proof -
  obtain r where r: "map_of e i = Some (PDict r)" "json_ok (PDict r)" using assms(3) by (auto simp: has_entry_def)
  let ?r = "AList.update ''time'' (PStr now) (AList.update ''status'' (PStr status) r)"
  have ok: "json_ok (PDict ?r)" by (intro json_ok_update r(2)) simp_all
  obtain d' where d': "register_set i (PDict ?r) d = (d', Inr ())" "reg_dict (dy_register d') (AList.update i (PDict ?r) e)"
      "dy_config d' = dy_config d"
    using register_set_dict [OF assms(1) _ ok] req_plain [OF assms(2)] by blast
  have "set_request_processed i status now d = (d', Inr ())"
    using value_entry [OF assms(1,2)] r(1) d'(1) by (simp add: set_request_processed_def entry_of_key_def)
  moreover have "has_entry (AList.update i (PDict ?r) e) i status now"
    using ok by (simp add: has_entry_def AList.update_conv' del: json_ok.simps)
  ultimately show ?thesis using d'(2,3) by (intro exI [of _ d'] exI [of _ "AList.update i (PDict ?r) e"]) (simp add: AList.update_conv')
qed

lemma add_request:
  assumes "reg_dict (dy_register d) e" "req_ok i"
  shows "\<exists>d' e'. add_discovery_request target i now d = (d', Inr ()) \<and> reg_dict (dy_register d') e' \<and> has_entry e' i INPROGRESS now
    \<and> dy_config d' = dy_config d \<and> (\<forall>j. j \<noteq> i \<longrightarrow> map_of e' j = map_of e j)"
proof -
  let ?r = "[(''rpath'', PStr (fst target)), (''status'', PStr INPROGRESS), (''url'', PStr (snd target)), (''time'', PStr now)]"
  have ok: "json_ok (PDict ?r)" by simp
  obtain d' where d': "register_set i (PDict ?r) d = (d', Inr ())" "reg_dict (dy_register d') (AList.update i (PDict ?r) e)"
      "dy_config d' = dy_config d"
    using register_set_dict [OF assms(1) _ ok] req_plain [OF assms(2)] by blast
  then show ?thesis
    by (intro exI [of _ d'] exI [of _ "AList.update i (PDict ?r) e"]) (simp add: add_discovery_request_def has_entry_def AList.update_conv')
qed

lemma entry_status: "reg_dict s e \<Longrightarrow> req_ok i \<Longrightarrow> has_entry e i st tm \<Longrightarrow>
    store_value s (i @ ''>status'') = Inr (PStr st) \<and> store_value s (i @ ''>time'') = Inr (PStr tm)"
  using value_field [of s e i "''status''"] value_field [of s e i "''time''"] by (auto simp: has_entry_def entry_of_key_def)

lemma status_answer:
  assumes "reg_dict (dy_register d) e" "req_ok i" "has_entry e i st tm" "st \<noteq> []"
    and "store_value (dy_config d) ''discovery>resource_map>expiry_sec'' = Inr v" "py_int v = Inr n" "se_parse q tm = Some t"
  shows "snd (get_processing_status q i d) = Inr (PStr (if n < se_now q - t then ''Failed - request is expired.'' else st))"
proof -
  note es = entry_status [OF assms(1-3)]
  have ex: "request_expired q i (PStr st) d = Inr (n < se_now q - t)"
    using es assms(5-7) by (simp add: request_expired_def is_in_progress_def)
  show ?thesis
  proof (cases "n < se_now q - t")
    case True
    obtain d' e' where d': "set_request_processed i ''Failed - request is expired.'' (se_now_text q) d = (d', Inr ())"
        "reg_dict (dy_register d') e'" "has_entry e' i ''Failed - request is expired.'' (se_now_text q)"
      using set_processed [OF assms(1-3)] by blast
    show ?thesis using es ex True d'(1) entry_status [OF d'(2) assms(2) d'(3)] assms(4) by (simp add: get_processing_status_def)
  qed (use es ex assms(4) in \<open>simp add: get_processing_status_def\<close>)
qed

text \<open>What is said of a request that has run.\<close>

definition request_outcome :: "'r resource_store \<Rightarrow> provider \<Rightarrow> request_env \<Rightarrow> string \<times> string \<Rightarrow> 'r discovery \<Rightarrow> string" where
  "request_outcome R prov env req d = (case snd (update_resource_map R prov req d) of
      Inr _ \<Rightarrow> SUCCESS
    | Inl x \<Rightarrow> FAILED @ '' - '' @ re_text env x)"

text \<open>What others do leaves the request with this id alone: the register stays readable, and the entry stays.\<close>

definition leaves :: "string \<Rightarrow> ('r discovery \<Rightarrow> 'r discovery) \<Rightarrow> bool" where
  "leaves i f \<longleftrightarrow> (\<forall>d e. reg_dict (dy_register d) e \<longrightarrow> dy_config (f d) = dy_config d \<and>
     (\<exists>e'. reg_dict (dy_register (f d)) e' \<and> map_of e' i = map_of e i))"

definition meanwhile_leaves :: "string \<Rightarrow> 'r meanwhile \<Rightarrow> bool" where
  "meanwhile_leaves i mw \<longleftrightarrow> leaves i (mw_opened mw) \<and> leaves i (mw_entered mw) \<and> leaves i (mw_collected mw)"

lemma leavesE:
  assumes "leaves i f" "reg_dict (dy_register d) e"
  obtains e' where "reg_dict (dy_register (f d)) e'" "map_of e' i = map_of e i" "dy_config (f d) = dy_config d"
  using assms unfolding leaves_def by blast

lemma leaves_id: "leaves i (\<lambda>d. d)"
  by (auto simp: leaves_def)

lemma leaves_status:
  assumes "leaves i f" "reg_dict (dy_register d) e" "req_ok i"
  shows "store_value (dy_register (f d)) (i @ ''>status'') = store_value (dy_register d) (i @ ''>status'')"
proof -
  obtain e' where "reg_dict (dy_register (f d)) e'" "map_of e' i = map_of e i" using leavesE [OF assms(1,2)] by blast
  then show ?thesis using value_field [OF _ assms(3), of _ _ "''status''"] assms(2) by simp
qed

text \<open>Claim C18. A request whose store can be opened returns and is never left in progress, whatever the
  collection of its data raises: it is entered in the register before the data is collected,
  and then ends with success exactly if nothing was raised and with the text of the exception
  otherwise. A question within the time of expiry after its end is answered with this outcome; after
  that time the answer is that the request failed, also for a request that had ended with success.
  Other requests may run meanwhile, between these steps and before the question, as long as their own
  loads and dumps of the register do not overlap with one of this request: a whole request
  with another id is such (\<open>process_leaves\<close>). The code does not ensure it, it only starts requests half a
  second apart; if they overlap, an update is lost and the request stays in progress
  (\<open>lost_update\<close>, \<open>torn_register\<close>).\<close>

theorem request_ends:
  assumes "req_ok i" "reg_dict (dy_register d) e" "request_target d (rpath, i, url) rt = Inr target"
    and "init_resources R (snd target) d = (d1, Inr ())" "meanwhile_leaves i mw" "leaves i after"
    and "store_value (dy_config d) ''discovery>resource_map>expiry_sec'' = Inr v" "py_int v = Inr n"
    and "se_parse q (re_end env) = Some t"
  shows "\<exists>d'. process R prov env mw (rpath, i, url) rt d = (d', Inr ())
    \<and> snd (get_processing_status q i (after d')) = Inr (PStr (if n < se_now q - t then ''Failed - request is expired.''
        else request_outcome R prov env (rt, fst target)
          (mw_entered mw (fst (add_discovery_request target i (re_start env) (mw_opened mw d1))))))"
proof -
  have mw: "leaves i (mw_opened mw)" "leaves i (mw_entered mw)" "leaves i (mw_collected mw)"
    using assms(5) by (simp_all add: meanwhile_leaves_def)
  have d1: "dy_register d1 = dy_register d" "dy_config d1 = dy_config d"
    using assms(4) by (auto simp: init_resources_def split: prod.splits)
  then have "reg_dict (dy_register d1) e" using assms(2) by simp
  from leavesE [OF mw(1) this] obtain e1 where r1: "reg_dict (dy_register (mw_opened mw d1)) e1" "dy_config (mw_opened mw d1) = dy_config d"
    using d1(2) by metis
  obtain d2 e2 where d2: "add_discovery_request target i (re_start env) (mw_opened mw d1) = (d2, Inr ())" "reg_dict (dy_register d2) e2"
      "has_entry e2 i INPROGRESS (re_start env)" "dy_config d2 = dy_config (mw_opened mw d1)"
    using add_request [OF r1(1) assms(1)] by blast
  obtain f2 where f2: "reg_dict (dy_register (mw_entered mw d2)) f2" "has_entry f2 i INPROGRESS (re_start env)"
      "dy_config (mw_entered mw d2) = dy_config d2"
    using leavesE [OF mw(2) d2(2)] d2(3) unfolding has_entry_def by metis
  obtain d3 x where d3: "update_resource_map R prov (rt, fst target) (mw_entered mw d2) = (d3, x)" by fastforce
  have s3: "dy_register d3 = dy_register (mw_entered mw d2)" "dy_config d3 = dy_config (mw_entered mw d2)"
    using update_map_register [OF d3] by (simp_all add: same_register_def)
  let ?st = "request_outcome R prov env (rt, fst target) (mw_entered mw d2)"
  have st: "?st \<noteq> []" by (simp add: request_outcome_def SUCCESS_def FAILED_def split: sum.splits)
  have "reg_dict (dy_register d3) f2" using f2(1) s3(1) by simp
  from leavesE [OF mw(3) this] obtain f3 where f3: "reg_dict (dy_register (mw_collected mw d3)) f3" "has_entry f3 i INPROGRESS (re_start env)"
      "dy_config (mw_collected mw d3) = dy_config d3" using f2(2) unfolding has_entry_def by metis
  obtain d' e' where d': "set_request_processed i ?st (re_end env) (mw_collected mw d3) = (d', Inr ())" "reg_dict (dy_register d') e'"
      "has_entry e' i ?st (re_end env)" "dy_config d' = dy_config (mw_collected mw d3)"
    using set_processed [OF f3(1) assms(1) f3(2)] by blast
  have "process R prov env mw (rpath, i, url) rt d = (d', Inr ())"
    using assms(3,4) d2(1) d3 d'(1) by (cases x) (simp_all add: process_def then_others_def Let_def request_outcome_def)
  moreover obtain e'' where a: "reg_dict (dy_register (after d')) e''" "has_entry e'' i ?st (re_end env)" "dy_config (after d') = dy_config d'"
    using leavesE [OF assms(6) d'(2)] d'(3) unfolding has_entry_def by metis
  have "store_value (dy_config (after d')) ''discovery>resource_map>expiry_sec'' = Inr v"
    using assms(7) a(3) d'(4) f3(3) s3(2) f2(3) d2(4) r1(2) by simp
  from status_answer [OF a(1) assms(1) a(2) st this assms(8,9)]
  have "snd (get_processing_status q i (after d')) = Inr (PStr (if n < se_now q - t then ''Failed - request is expired.'' else ?st))" .
  ultimately show ?thesis using d2(1) by auto
qed

section \<open>Requests at the same time\<close>

text \<open>A whole request leaves the requests with other ids alone.\<close>

lemma leaves_processed:
  assumes "req_ok j" "j \<noteq> i"
  shows "leaves i (\<lambda>d. fst (set_request_processed j status now d))"
  unfolding leaves_def
proof (intro allI impI)
  fix d :: "'r discovery" and e assume r: "reg_dict (dy_register d) e"
  let ?d = "fst (set_request_processed j status now d)"
  have v: "store_value (dy_register d) j = Inr (entry_of_key e j)" by (rule value_entry [OF r assms(1)])
  show "dy_config ?d = dy_config d \<and> (\<exists>e'. reg_dict (dy_register ?d) e' \<and> map_of e' i = map_of e i)"
  proof (cases "entry_of_key e j")
    case (PDict info)
    then have "map_of e j = Some (PDict info)" by (simp add: entry_of_key_def split: option.splits)
    moreover have "json_ok (PDict e)" using r by (simp add: reg_dict_def)
    ultimately have "json_ok (PDict info)" using map_of_SomeD [of e j "PDict info"] by (fastforce simp: json_ok_dict_iff [of e])
    then have ok: "json_ok (PDict (AList.update ''time'' (PStr now) (AList.update ''status'' (PStr status) info)))"
      by (intro json_ok_update) simp_all
    show ?thesis using register_set_dict [OF r _ ok, of j] req_plain [OF assms(1)] assms(2) v PDict
      by (auto simp: set_request_processed_def AList.update_conv')
  qed (use v r in \<open>auto simp: set_request_processed_def\<close>)
qed

lemma leaves_trans: "leaves i f \<Longrightarrow> leaves i g \<Longrightarrow> leaves i (\<lambda>d. g (f d))"
  unfolding leaves_def by metis

lemma leaves_added: "req_ok j \<Longrightarrow> j \<noteq> i \<Longrightarrow> leaves i (\<lambda>d. fst (add_discovery_request target j now d))"
  using add_request [of _ _ j target now] unfolding leaves_def by (metis fst_conv)

lemma leaves_same: "(\<And>d. same_register d (f d)) \<Longrightarrow> leaves i f"
  by (auto simp: leaves_def same_register_def)

lemma process_leaves:
  fixes R :: "'r resource_store"
  assumes "req_ok j" "j \<noteq> i" "meanwhile_leaves i mw"
  shows "leaves i (\<lambda>d. fst (process R prov env mw (rpath, j, url) rt d))"
  unfolding leaves_def
proof (intro allI impI)
  fix d :: "'r discovery" and e assume r: "reg_dict (dy_register d) e"
  define good where "good d' \<longleftrightarrow> dy_config d' = dy_config d \<and> (\<exists>e'. reg_dict (dy_register d') e' \<and> map_of e' i = map_of e i)" for d' :: "'r discovery"
  have mw: "leaves i (mw_opened mw)" "leaves i (mw_entered mw)" "leaves i (mw_collected mw)"
    using assms(3) by (simp_all add: meanwhile_leaves_def)
  have go: "good (f d')" if "leaves i f" "good d'" for f d' using that unfolding leaves_def good_def by metis
  show "dy_config (fst (process R prov env mw (rpath, j, url) rt d)) = dy_config d \<and>
      (\<exists>e'. reg_dict (dy_register (fst (process R prov env mw (rpath, j, url) rt d))) e' \<and> map_of e' i = map_of e i)"
  proof (cases "request_target d (rpath, j, url) rt")
    case (Inl x)
    with r show ?thesis by (auto simp: process_def)
  next
    case (Inr target)
    have g0: "good d" using r by (auto simp: good_def)
    have end_ok: "good (fst (set_request_processed j st t d'))" if "good d'" for st t d'
      by (rule go [OF leaves_processed [OF assms(1,2)] that])
    let ?i = "init_resources R (snd target) d"
    have g1: "good (mw_opened mw (fst ?i))"
      by (rule go [OF mw(1)]) (use r in \<open>auto simp: good_def init_resources_def split: prod.splits\<close>)
    have g2: "good (mw_entered mw (fst (add_discovery_request target j t d')))" if "good d'" for t d'
      by (rule go [OF mw(2)], rule go [OF leaves_added [OF assms(1,2)] that])
    have g3: "good (mw_collected mw (fst (update_resource_map R prov q d')))" if "good d'" for q d'
      by (rule go [OF mw(3)], rule go [OF leaves_same that]) (metis update_map_register prod.collapse)
    define x where "x = st_bind (then_others (mw_opened mw) ?i) (\<lambda>d1 _.
      st_bind (then_others (mw_entered mw) (add_discovery_request target j (re_start env) d1)) (\<lambda>d2 _.
      st_bind (then_others (mw_collected mw) (update_resource_map R prov (rt, fst target) d2)) (\<lambda>d3 _.
        set_request_processed j SUCCESS (re_end env) d3)))"
    have "good (fst x)" unfolding x_def then_others_def using g1 g2 g3 end_ok by (auto simp: st_bind_def split: prod.splits sum.splits)
    then have "good (fst (process R prov env mw (rpath, j, url) rt d))" using Inr end_ok [of "fst x"]
      by (auto simp: process_def Let_def x_def [symmetric] split: prod.splits sum.splits)
    then show ?thesis by (simp add: good_def)
  qed
qed

text \<open>Two changes of the register that load it before the other one dumps: the first is lost.\<close>

lemma lost_update:
  assumes "reg_dict s d" "plain_name i" "plain_name j" "json_ok v" "json_ok w" "json_store_load s True = (s, Inr p)"
  defines "s1 \<equiv> fst (dump_after json_class s (set_all kv_class p [(i, v)]))"
  shows "reg_dict s1 (AList.update i v d)"
    "reg_dict (fst (dump_after json_class s1 (set_all kv_class p [(j, w)]))) (AList.update j w d)"
proof -
  have p: "kp_delim p = ''>''" "kp_data p = PDict d" using reg_load [OF assms(1)] assms(6) by auto
  have one: "reg_dict (fst (dump_after json_class t (set_all kv_class p [(k, u)]))) (AList.update k u d)"
    if t: "fs_delim t = ''>''" and k: "plain_name k" and u: "json_ok u" for t k u
  proof -
    obtain p' where p': "set_all kv_class p [(k, u)] = (p', None)" "kp_data p' = PDict (AList.update k u d)"
      using set_all_plain [OF p, of "[(k, u)]"] k by auto
    have "json_ok (PDict (AList.update k u d))" using assms(1) u by (intro json_ok_update) (simp_all add: reg_dict_def)
    then show ?thesis using p' t by (simp add: json_class_def dump_after_def json_store_dump_def reg_dict_def write_file_def json_load_dump
          del: json_ok.simps json_dump.simps set_all.simps)
  qed
  have s: "fs_delim s = ''>''" using assms(1) by (simp add: reg_dict_def)
  show 1: "reg_dict s1 (AList.update i v d)" unfolding s1_def by (rule one [OF s assms(2,4)])
  then have "fs_delim s1 = ''>''" by (simp add: reg_dict_def)
  from one [OF this assms(3,5)] show "reg_dict (fst (dump_after json_class s1 (set_all kv_class p [(j, w)]))) (AList.update j w d)" .
qed

text \<open>A dump truncates the file before it writes: a request that ends just then cannot read the register, raises,
  and is left as it was entered.\<close>

lemma torn_register:
  assumes "fs_files (dy_register d) (fs_path (dy_register d)) = Some []"
  shows "set_request_processed i status now d = (d, Inl (KvError EINVAL))"
proof -
  have "json_load [] = None" by code_simp
  then have "json_store_load (dy_register d) True = (dy_register d, Inl (KvError EINVAL))" using assms by (simp add: json_store_load_def)
  then show ?thesis by (simp add: set_request_processed_def store_value_def ks_get_def json_class_def)
qed

text \<open>A request whose store cannot be opened is not in the register: the handler of the exception
  raises another one, and the request is not found.\<close>

lemma unopened_request_lost:
  assumes "req_ok i" "reg_dict (dy_register d) e" "map_of e i = None" "request_target d (rpath, i, url) rt = Inr target"
    and "init_resources R (snd target) d = (d1, Inl x)"
  shows "process R prov env alone (rpath, i, url) rt d = (d1, Inl AttributeError)
    \<and> snd (get_processing_status q i d1) = Inl DiscoveryError"
proof -
  have d1: "dy_register d1 = dy_register d" using assms(5) by (auto simp: init_resources_def split: prod.splits)
  then have v: "store_value (dy_register d1) i = Inr PNone" "store_value (dy_register d1) (i @ ''>status'') = Inr PNone"
    using value_entry [OF assms(2,1)] value_field [OF assms(2,1), of "''status''"] assms(3) by (simp_all add: entry_of_key_def)
  then show ?thesis using assms(4,5) by (simp add: process_def then_others_def set_request_processed_def get_processing_status_def Let_def)
qed

text \<open>A node whose server is asked for its health.\<close>

definition sample_codecs :: codecs where
  "sample_codecs = \<lparr>co_yaml_dump = (\<lambda>v. (json_dump 0 v, None)), co_yaml_load = json_load,
     co_toml_dump = (\<lambda>v. (json_dump 0 v, None)), co_toml_load = json_load\<rparr>"

definition sample_config :: pyval where
  "sample_config = PDict [(''discovery'', PDict [(''resource_map'', PDict [(''expiry_sec'', PInt 60)]),
     (''solution_platform_monitor'', PStr ''monitor'')]), (''product_id'', PStr ''LR2'')]"

definition sample_discovery :: "(kv_world \<times> string option) discovery" where
  "sample_discovery = \<lparr>dy_config = \<lparr>fs_path = ''/c'', fs_delim = ''>'', fs_files = [''/c'' \<mapsto> json_dump 0 sample_config]\<rparr>,
     dy_register = \<lparr>fs_path = ''/r'', fs_delim = ''>'', fs_files = [''/r'' \<mapsto> ''{}'']\<rparr>,
     dy_resources = (\<lparr>fa_stores = Map.empty, fa_world = Map.empty\<rparr>, None)\<rparr>"

definition sample_provider :: provider where
  "sample_provider pp = Inr [(''server'', \<lambda>req. Inr (PStr ''OK''))]"

definition sample_env :: request_env where
  "sample_env = \<lparr>re_start = ''a'', re_end = ''b'', re_text = (\<lambda>e. ''error'')\<rparr>"

definition sample_question :: "int \<Rightarrow> status_env" where
  "sample_question now = \<lparr>se_now = now, se_boot = 0, se_now_text = ''c'', se_parse = (\<lambda>s. if s = ''b'' then Some 100 else None)\<rparr>"

text \<open>Before the request 7 has its data in the store and ends, the request 8 runs.\<close>

definition sample_meanwhile :: "(kv_world \<times> string option) meanwhile" where
  "sample_meanwhile = alone\<lparr>mw_collected := (\<lambda>d. fst (process (kv_resources sample_codecs) sample_provider sample_env alone
     (''server'', ''8'', ''json:///y'') ''health'' d))\<rparr>"

theorem request_ends_witness:
  "\<exists>d'. process (kv_resources sample_codecs) sample_provider sample_env sample_meanwhile (''server'', ''7'', ''json:///x'') ''health'' sample_discovery = (d', Inr ())
    \<and> snd (get_processing_status (sample_question 150) ''7'' d') = Inr (PStr ''Success'')"
proof -
  let ?R = "kv_resources sample_codecs" and ?d = sample_discovery and ?mw = sample_meanwhile
  let ?d1 = "fst (init_resources ?R ''json:///x'' ?d)"
  have i: "req_ok ''7''" "req_ok ''8''" "''8'' \<noteq> ''7''" by code_simp+
  have l: "json_load ''{}'' = Some (PDict [])" by code_simp
  have r: "reg_dict (dy_register ?d) []" using l by (simp add: reg_dict_def sample_discovery_def)
  have t: "request_target ?d (''server'', ''7'', ''json:///x'') ''health'' = Inr (''server'', ''json:///x'')" by (simp add: request_target_def)
  have "snd (init_resources ?R ''json:///x'' ?d) = Inr ()" by code_simp
  then have in1: "init_resources ?R (snd (''server'', ''json:///x'')) ?d = (?d1, Inr ())" by (simp add: prod_eq_iff)
  have "meanwhile_leaves ''7'' (alone :: (kv_world \<times> string option) meanwhile)" by (simp add: meanwhile_leaves_def leaves_id)
  from process_leaves [OF i(2,3) this] have mw: "meanwhile_leaves ''7'' ?mw"
    by (simp add: meanwhile_leaves_def leaves_id sample_meanwhile_def)
  have v: "store_value (dy_config ?d) ''discovery>resource_map>expiry_sec'' = Inr (PInt 60)" by code_simp
  have p: "se_parse (sample_question 150) (re_end sample_env) = Some 100" by (simp add: sample_question_def sample_env_def)
  have o: "request_outcome ?R sample_provider sample_env (''health'', fst (''server'', ''json:///x''))
      (mw_entered ?mw (fst (add_discovery_request (''server'', ''json:///x'') ''7'' (re_start sample_env) (mw_opened ?mw ?d1)))) = ''Success''"
    unfolding sample_meanwhile_def meanwhile.simps by code_simp
  have n: "\<not> 60 < se_now (sample_question 150) - 100" by (simp add: sample_question_def)
  have "\<exists>d'. process ?R sample_provider sample_env ?mw (''server'', ''7'', ''json:///x'') ''health'' ?d = (d', Inr ())
    \<and> snd (get_processing_status (sample_question 150) ''7'' d') = Inr (PStr (if 60 < se_now (sample_question 150) - 100 then ''Failed - request is expired.''
        else request_outcome ?R sample_provider sample_env (''health'', fst (''server'', ''json:///x''))
          (mw_entered ?mw (fst (add_discovery_request (''server'', ''json:///x'') ''7'' (re_start sample_env) (mw_opened ?mw ?d1))))))"
    by (rule request_ends [OF i(1) r t in1 mw leaves_id v _ p]) simp
  then show ?thesis using n unfolding o by auto
qed

end
