(* ===== verification/LogFilters.thy ===== *)
theory LogFilters
  imports PyFloat PyOps Effects Release DirStore
begin

text \<open>
  FilterLog of src/py-utils/src/utils/support_framework/log_filters.py: copies of the log files of a
  directory that are limited to a number of bytes, or to the lines of a span of time. The newest
  bytes are kept; of a log in order the lines in the span are kept, up to the first log that has
  lines behind the span.
\<close>

section \<open>Directories of logs\<close>

text \<open>What the filters ask of an entry of the source directory: whether it is a file, the times of
  its last modification and of its creation, and its bytes. The entries are in the order of
  \<open>os.listdir\<close>. The destination is another directory, and None where it does not exist.\<close>

record log_entry =
  le_file :: bool
  le_mtime :: int
  le_ctime :: int
  le_data :: string

type_synonym log_dir = "(string \<times> log_entry) list"
type_synonym out_dir = "(string \<times> string) list"

definition file_text :: "out_dir \<Rightarrow> string \<Rightarrow> string" where
  "file_text d f = (case map_of d f of None \<Rightarrow> [] | Some s \<Rightarrow> s)"

text \<open>\<open>sorted(..., reverse=True)\<close> keeps the order of files with the same time.\<close>

definition newest_first :: "log_dir \<Rightarrow> log_dir" where
  "newest_first es = sort_key (\<lambda>e. - le_mtime (snd e)) (filter (\<lambda>e. le_file (snd e)) es)"

section \<open>By size\<close>

definition size_units :: "(string \<times> int) list" where
  "size_units = [(''GB'', 1024 ^ 3), (''MB'', 1024 ^ 2), (''KB'', 1024), (''B'', 1)]"

text \<open>\<open>int\<close> of a number cuts its fraction off; \<open>int('')\<close>, where no unit was found, is a ValueError.\<close>

definition trunc_int :: "rat \<Rightarrow> int" where
  "trunc_int r = (if 0 \<le> r then \<lfloor>r\<rfloor> else \<lceil>r\<rceil>)"

fun size_with :: "(string \<times> int) list \<Rightarrow> string \<Rightarrow> pyexc + int" where
  "size_with [] sz = Inl ValueError"
| "size_with ((suffix, multiplier) # us) sz = (if ends_with sz suffix
     then (case read_float (take (length sz - length suffix) sz) of
         None \<Rightarrow> Inl ValueError
       | Some num_units \<Rightarrow> Inr (trunc_int (num_units * of_int multiplier)))
     else size_with us sz)"

definition get_size_in_bytes :: "string \<Rightarrow> pyexc + int" where
  "get_size_in_bytes sz = size_with size_units sz"

text \<open>\<open>os.truncate\<close> cuts a file or fills it with zero bytes.\<close>

definition truncate_to :: "nat \<Rightarrow> string \<Rightarrow> string" where
  "truncate_to n s = take n s @ replicate (n - length s) (CHR 0x00)"

definition truncate_file_size :: "string \<Rightarrow> string \<Rightarrow> int \<Rightarrow> int \<Rightarrow> out_dir \<Rightarrow> out_dir \<times> (pyexc + unit)" where
  "truncate_file_size file_name data original_file_size required_file_size d =
     (let written = drop (nat (original_file_size - required_file_size)) data in
      if required_file_size < 0 then (AList.update file_name written d, Inl (BundleError EINVAL))
      else (AList.update file_name (truncate_to (nat required_file_size) written) d, Inr ()))"

fun size_loop :: "string \<Rightarrow> log_dir \<Rightarrow> int \<Rightarrow> out_dir \<Rightarrow> out_dir \<times> (pyexc + unit)" where
  "size_loop prefix [] required d = (d, Inr ())"
| "size_loop prefix ((f, e) # es) required d = (if starts_with f prefix
     then (let file_size = int (length (le_data e)) in
       if file_size \<le> required then size_loop prefix es (required - file_size) (AList.update f (le_data e) d)
       else truncate_file_size f (le_data e) file_size required d)
     else size_loop prefix es required d)"

definition name_prefix :: "string \<Rightarrow> string" where
  "name_prefix file_name_reg_ex = (if ends_with file_name_reg_ex ''*'' then butlast file_name_reg_ex else file_name_reg_ex)"

definition limit_size :: "log_dir option \<Rightarrow> out_dir option \<Rightarrow> string \<Rightarrow> string \<Rightarrow> out_dir option \<times> (pyexc + unit)" where
  "limit_size src dest sz file_name_reg_ex = (case src of
      None \<Rightarrow> (dest, Inl (BundleError EINVAL))
    | Some es \<Rightarrow> let d = (case dest of None \<Rightarrow> [] | Some d \<Rightarrow> d) in
        case get_size_in_bytes (map to_upper sz) of
          Inl x \<Rightarrow> (Some d, Inl x)
        | Inr n \<Rightarrow> map_prod Some id (size_loop (name_prefix file_name_reg_ex) (newest_first es) n d))"

section \<open>Times\<close>

text \<open>A datetime is the number of microseconds since the start of the year 1, in local time. The
  local zone has a fixed offset, so that the sums over time stamps are sums of these numbers.\<close>

definition leap_year :: "int \<Rightarrow> bool" where
  "leap_year y \<longleftrightarrow> y mod 4 = 0 \<and> (y mod 100 \<noteq> 0 \<or> y mod 400 = 0)"

definition month_days :: "int \<Rightarrow> nat \<Rightarrow> nat" where
  "month_days y m = (if m = 2 then (if leap_year y then 29 else 28) else if m \<in> {4, 6, 9, 11} then 30 else 31)"

definition days_before :: "int \<Rightarrow> nat \<Rightarrow> nat \<Rightarrow> int" where
  "days_before y m d = (let p = y - 1 in 365 * p + p div 4 - p div 100 + p div 400
     + sum_list (map (\<lambda>k. int (month_days y k)) [1..<m]) + int d - 1)"

definition two_digits :: "nat \<Rightarrow> nat \<Rightarrow> string \<Rightarrow> bool" where
  "two_digits lo hi s \<longleftrightarrow> s \<noteq> [] \<and> length s \<le> 2 \<and> list_all is_digit s \<and> lo \<le> read_nat s \<and> read_nat s \<le> hi"

definition date_days :: "string \<Rightarrow> int option" where
  "date_days s = (case py_split (CHR ''-'') s of
      [y, m, d] \<Rightarrow> if length y = 4 \<and> list_all is_digit y \<and> 0 < read_nat y \<and> two_digits 1 12 m
          \<and> two_digits 1 (month_days (int (read_nat y)) (read_nat m)) d
        then Some (days_before (int (read_nat y)) (read_nat m) (read_nat d)) else None
    | _ \<Rightarrow> None)"

definition time_seconds :: "string \<Rightarrow> int option" where
  "time_seconds s = (case py_split (CHR '':'') s of
      [h, mi, sec] \<Rightarrow> if two_digits 0 23 h \<and> two_digits 0 59 mi \<and> two_digits 0 59 sec
        then Some (3600 * int (read_nat h) + 60 * int (read_nat mi) + int (read_nat sec)) else None
    | _ \<Rightarrow> None)"

text \<open>\<open>strptime\<close> with the format of a date, a character and a time; None is its ValueError.\<close>

definition strptime :: "char \<Rightarrow> string \<Rightarrow> int option" where
  "strptime sep s = (case py_split sep s of
      [d, t] \<Rightarrow> (case date_days d of None \<Rightarrow> None
        | Some days \<Rightarrow> map_option (\<lambda>sec. (86400 * days + sec) * 1000000) (time_seconds t))
    | _ \<Rightarrow> None)"

text \<open>\<open>_get_delim_value\<close>: the number before a letter, and the start time before the letter P, which
  is empty where there is none.\<close>

fun get_delim_value :: "char \<Rightarrow> string \<Rightarrow> nat" where
  "get_delim_value delim [] = 0"
| "get_delim_value delim (x # xs) = (let ds = takeWhile is_digit (x # xs); r = dropWhile is_digit (x # xs) in
     if ds \<noteq> [] \<and> r \<noteq> [] \<and> hd r = delim then read_nat ds else get_delim_value delim xs)"

definition get_start_value :: "string \<Rightarrow> string" where
  "get_start_value duration = (case split1 (CHR ''P'') duration of
      (a, None) \<Rightarrow> []
    | (a, Some r) \<Rightarrow> rev (takeWhile (\<lambda>c. is_digit c \<or> c \<in> {CHR ''T'', CHR '':'', CHR ''-''}) (rev a)))"

text \<open>Datetimes end with the year 9999, and a timedelta has less than a billion days.\<close>

definition from_stamp :: "int \<Rightarrow> pyexc + int" where
  "from_stamp t = (if 0 \<le> t \<and> t < 86400 * days_before 10000 1 1 * 1000000 then Inr t else Inl ValueError)"

definition duration_seconds :: "string \<Rightarrow> int" where
  "duration_seconds duration = 86400 * int (get_delim_value (CHR ''D'') duration) + 3600 * int (get_delim_value (CHR ''H'') duration)
     + 60 * int (get_delim_value (CHR ''M'') duration) + int (get_delim_value (CHR ''S'') duration)"

definition parse_duration :: "int \<Rightarrow> string \<Rightarrow> pyexc + int \<times> int" where
  "parse_duration now duration = (let s = get_start_value duration; secs = duration_seconds duration in
     err_bind (if s = [] then Inr now else case strptime (CHR ''T'') s of None \<Rightarrow> Inl ValueError | Some t \<Rightarrow> Inr t)
       (\<lambda>t. if secs \<ge> 86400 * 1000000000 then Inl (PyException ''OverflowError'')
          else if s = [] then err_bind (from_stamp (t - secs * 1000000)) (\<lambda>b. Inr (b, t))
          else err_bind (from_stamp (t + secs * 1000000)) (\<lambda>b. Inr (t, b))))"

section \<open>By time\<close>

text \<open>The search for the default expression, where a d stands for a digit, and the default format.\<close>

definition stamp_here :: "string \<Rightarrow> bool" where
  "stamp_here s \<longleftrightarrow> list_all2 (\<lambda>p c. if p = CHR ''d'' then is_digit c else c = p) ''dddd-dd-dd dd:dd:dd'' (take 19 s)"

fun default_search :: "string \<Rightarrow> string option" where
  "default_search [] = None"
| "default_search (c # s) = (if stamp_here (c # s) then Some (take 19 (c # s)) else default_search s)"

definition default_parse :: "string \<Rightarrow> int option" where
  "default_parse s = strptime (CHR '' '') s"

text \<open>The expression and the format of a caller: how a stamp is searched in a line, and its time.\<close>

record stamp_format =
  sf_search :: "string \<Rightarrow> string option"
  sf_parse :: "string \<Rightarrow> int option"

definition default_format :: stamp_format where
  "default_format = \<lparr>sf_search = default_search, sf_parse = default_parse\<rparr>"

text \<open>The loop over the lines of a file: the flag that a line was in range, whether a line was
  written, the text of the output file; also whether the loop was left for a line behind the end.\<close>

fun scan_lines :: "stamp_format \<Rightarrow> int \<times> int \<Rightarrow> string list \<Rightarrow> bool \<times> bool \<times> string \<Rightarrow> (bool \<times> bool \<times> string) \<times> bool" where
  "scan_lines sf r [] st = (st, False)"
| "scan_lines sf r (line # ls) (incl, written, out) = (case sf_search sf line of
      None \<Rightarrow> scan_lines sf r ls (incl, written, out)
    | Some log_duration \<Rightarrow> if log_duration = [] then scan_lines sf r ls (incl, written, out)
        else (case sf_parse sf log_duration of
            None \<Rightarrow> if incl then scan_lines sf r ls (incl, True, out @ line) else scan_lines sf r ls (incl, written, out)
          | Some log_time \<Rightarrow> if fst r \<le> log_time \<and> log_time \<le> snd r then scan_lines sf r ls (True, True, out @ line)
              else if snd r < log_time \<and> incl then ((False, written, out), True)
              else scan_lines sf r ls (incl, written, out)))"

text \<open>\<open>pathlib.Path(file).suffix\<close>.\<close>

definition path_suffix :: "string \<Rightarrow> string" where
  "path_suffix f = (let ext = takeWhile (\<lambda>c. c \<noteq> CHR ''.'') (rev f); rest = dropWhile (\<lambda>c. c \<noteq> CHR ''.'') (rev f) in
     if ext = [] \<or> length rest \<le> 1 then [] else CHR ''.'' # rev ext)"

definition supported_file_types :: "string list" where
  "supported_file_types = [''.log'', ''.txt'']"

definition collect_rotated_log_file :: "string \<times> log_entry \<Rightarrow> int \<times> int \<Rightarrow> out_dir option \<Rightarrow> out_dir option \<times> (pyexc + unit)" where
  "collect_rotated_log_file fe r dest = (if fst r \<le> le_ctime (snd fe) \<and> le_ctime (snd fe) \<le> snd r
     then (case dest of None \<Rightarrow> (None, Inl (OSError ENOENT)) | Some d \<Rightarrow> (Some (AList.update (fst fe) (le_data (snd fe)) d), Inr ()))
     else (dest, Inr ()))"

text \<open>The output of a file is made under another name and appended to what is there.\<close>

definition tmp_name :: "string \<Rightarrow> string" where
  "tmp_name file = ''tmp_'' @ file"

fun time_loop :: "stamp_format \<Rightarrow> string \<Rightarrow> int \<times> int \<Rightarrow> log_dir \<Rightarrow> bool \<Rightarrow> out_dir option \<Rightarrow> out_dir option \<times> (pyexc + unit)" where
  "time_loop sf prefix r [] incl dest = (dest, Inr ())"
| "time_loop sf prefix r ((file, e) # es) incl dest = (if \<not> starts_with file prefix then time_loop sf prefix r es incl dest
     else if path_suffix file \<notin> set supported_file_types
     then st_bind (collect_rotated_log_file (file, e) r dest) (\<lambda>dest1 _. time_loop sf prefix r es incl dest1)
     else (case dest of
         None \<Rightarrow> (None, Inl (OSError ENOENT))
       | Some d \<Rightarrow> (case scan_lines sf r (py_readlines (le_data e)) (incl, False, file_text d (tmp_name file)) of
           ((incl1, written, out), log_scope_exceeded) \<Rightarrow>
             let d1 = (if written then AList.update file out (AList.delete (tmp_name file) d) else AList.delete (tmp_name file) d) in
             if log_scope_exceeded then (Some d1, Inr ()) else time_loop sf prefix r es incl1 (Some d1))))"

definition valid_duration :: "string \<Rightarrow> bool" where
  "valid_duration duration = list_all (\<lambda>c. c \<in> set ''PTDHMS-:'' \<or> is_digit c) duration"

definition limit_time :: "int \<Rightarrow> stamp_format \<Rightarrow> log_dir option \<Rightarrow> out_dir option \<Rightarrow> string \<Rightarrow> string \<Rightarrow> out_dir option \<times> (pyexc + unit)" where
  "limit_time now sf src dest duration file_name_reg_ex =
     (if \<not> valid_duration duration then (dest, Inl (BundleError EINVAL))
      else case parse_duration now duration of
          Inl x \<Rightarrow> (dest, Inl x)
        | Inr r \<Rightarrow> (case src of
            None \<Rightarrow> (dest, Inl (OSError ENOENT))
          | Some es \<Rightarrow> time_loop sf file_name_reg_ex r (newest_first es) False dest))"

section \<open>The last bytes of a log\<close>

definition last_bytes :: "nat \<Rightarrow> string \<Rightarrow> string" where
  "last_bytes n s = drop (length s - n) s"

lemma last_bytes_append:
  "last_bytes n (s @ t) = (if length t \<le> n then last_bytes (n - length t) s @ t else last_bytes n t)"
  by (simp add: last_bytes_def)

definition named_logs :: "string \<Rightarrow> log_dir \<Rightarrow> log_dir" where
  "named_logs prefix es = filter (\<lambda>e. starts_with (fst e) prefix) es"

lemma named_logs_simps [simp]:
  "named_logs prefix [] = []"
  "named_logs prefix ((f, e) # es) = (if starts_with f prefix then (f, e) # named_logs prefix es else named_logs prefix es)"
  by (simp_all add: named_logs_def)

lemma file_text_None [simp]: "map_of d f = None \<Longrightarrow> file_text d f = []"
  by (simp add: file_text_def)

lemma file_text_Some [simp]: "map_of d f = Some s \<Longrightarrow> file_text d f = s"
  by (simp add: file_text_def)

lemma named_logs_names: "f \<notin> fst ` set es \<Longrightarrow> f \<notin> fst ` set (named_logs prefix es)"
  by (auto simp: named_logs_def)

lemma no_texts: "\<forall>f \<in> fst ` set fs. map_of d f = None \<Longrightarrow> concat (map (\<lambda>e. file_text d (fst e)) fs) = []"
  by auto

lemma size_loop_tail:
  "distinct (map fst es) \<Longrightarrow> 0 \<le> n \<Longrightarrow> \<forall>f \<in> fst ` set (named_logs prefix es). map_of d f = None \<Longrightarrow>
   \<exists>d'. size_loop prefix es n d = (d', Inr ())
     \<and> concat (map (\<lambda>e. file_text d' (fst e)) (rev (named_logs prefix es)))
       = last_bytes (nat n) (concat (map (\<lambda>e. le_data (snd e)) (rev (named_logs prefix es))))
     \<and> (\<forall>f. f \<notin> fst ` set (named_logs prefix es) \<longrightarrow> map_of d' f = map_of d f)"
proof (induction es arbitrary: n d)
  case Nil
  then show ?case by (simp add: last_bytes_def)
next
  case (Cons fe es)
  obtain f e where fe: "fe = (f, e)" by (cases fe)
  let ?ms = "named_logs prefix es"
  have new: "f \<notin> fst ` set ?ms" using Cons.prems(1) fe by (intro named_logs_names) auto
  show ?case
  proof (cases "starts_with f prefix")
    case False
    then show ?thesis using Cons fe by simp
  next
    case True
    show ?thesis
    proof (cases "int (length (le_data e)) \<le> n")
      case fits: True
      have none: "\<forall>g \<in> fst ` set ?ms. map_of (AList.update f (le_data e) d) g = None"
        using Cons.prems(3) new True fe by (auto simp: update_conv')
      have "distinct (map fst es)" "0 \<le> n - int (length (le_data e))" using Cons.prems fe fits by auto
      from Cons.IH [OF this none] obtain d' where
        d': "size_loop prefix es (n - int (length (le_data e))) (AList.update f (le_data e) d) = (d', Inr ())"
        "concat (map (\<lambda>e. file_text d' (fst e)) (rev ?ms))
          = last_bytes (nat (n - int (length (le_data e)))) (concat (map (\<lambda>e. le_data (snd e)) (rev ?ms)))"
        "\<forall>g. g \<notin> fst ` set ?ms \<longrightarrow> map_of d' g = map_of (AList.update f (le_data e) d) g" by blast
      have "map_of d' f = Some (le_data e)" using d'(3) new by (simp add: update_conv')
      moreover have "nat (n - int (length (le_data e))) = nat n - length (le_data e)" using fits by simp
      ultimately show ?thesis using d' True fits fe new
        by (simp add: last_bytes_append update_conv') (simp add: nat_le_eq_zle le_nat_iff)
    next
      case False
      let ?w = "truncate_to (nat n) (drop (nat (int (length (le_data e)) - n)) (le_data e))"
      have w: "?w = last_bytes (nat n) (le_data e)"
        using False Cons.prems(2) by (simp add: truncate_to_def last_bytes_def nat_diff_distrib)
      have "\<forall>g \<in> fst ` set (rev ?ms). map_of (AList.update f ?w d) g = None"
        using Cons.prems(3) new True fe by (auto simp: update_conv')
      note none = no_texts [OF this]
      have "map_of (AList.update f ?w d) f = Some ?w" by (simp add: update_conv')
      then show ?thesis using False True fe Cons.prems(2) none w
        by (auto simp: truncate_file_size_def last_bytes_append update_conv' Let_def)
    qed
  qed
qed

lemma newest_names: "set (newest_first es) \<subseteq> set es"
  by (auto simp: newest_first_def)

lemma newest_distinct: "distinct (map fst es) \<Longrightarrow> distinct (map fst (newest_first es))"
proof -
  assume "distinct (map fst es)"
  then have "distinct es" "inj_on fst (set es)" by (simp_all add: distinct_map)
  moreover have "distinct (newest_first es)" using \<open>distinct es\<close> by (simp add: newest_first_def)
  ultimately show ?thesis using newest_names [of es] by (auto simp: distinct_map intro: inj_on_subset)
qed

text \<open>The log files that a name selects, the oldest first.\<close>

definition logs_of :: "string \<Rightarrow> log_dir \<Rightarrow> log_dir" where
  "logs_of prefix es = rev (named_logs prefix (newest_first es))"

text \<open>Claim C21. From an empty destination, limiting the logs of a name to n bytes collects exactly the
  last n bytes of the log: the copies, from the oldest file to the newest, joined, are the last n
  bytes of the files joined; no other file is touched.\<close>

theorem limit_size_tail:
  assumes es: "distinct (map fst es)" and n: "get_size_in_bytes (map to_upper sz) = Inr (int n)"
    and fresh: "\<forall>e \<in> set es. map_of d (fst e) = None"
  shows "\<exists>d'. limit_size (Some es) (Some d) sz pat = (Some d', Inr ())
    \<and> concat (map (\<lambda>e. file_text d' (fst e)) (logs_of (name_prefix pat) es))
      = last_bytes n (concat (map (\<lambda>e. le_data (snd e)) (logs_of (name_prefix pat) es)))
    \<and> (\<forall>f. f \<notin> fst ` set (logs_of (name_prefix pat) es) \<longrightarrow> map_of d' f = map_of d f)"
proof -
  have "\<forall>f \<in> fst ` set (named_logs (name_prefix pat) (newest_first es)). map_of d f = None"
    using fresh newest_names [of es] by (fastforce simp: named_logs_def)
  from size_loop_tail [OF newest_distinct [OF es] _ this, of "int n"] n show ?thesis
    by (auto simp: limit_size_def logs_of_def)
qed

definition two_logs :: log_dir where
  "two_logs = [(''a.log'', \<lparr>le_file = True, le_mtime = 5, le_ctime = 1, le_data = ''0123''\<rparr>),
     (''b.txt'', \<lparr>le_file = True, le_mtime = 7, le_ctime = 1, le_data = ''xy''\<rparr>),
     (''a.log.1'', \<lparr>le_file = True, le_mtime = 3, le_ctime = 1, le_data = ''abcdef''\<rparr>)]"

theorem limit_size_tail_witness:
  "\<exists>d'. limit_size (Some two_logs) (Some []) ''7b'' ''a.log*'' = (Some d', Inr ())
    \<and> concat (map (\<lambda>e. file_text d' (fst e)) (logs_of ''a.log'' two_logs)) = ''def0123''"
proof -
  have n: "get_size_in_bytes (map to_upper ''7b'') = Inr (int 7)"
    by code_simp
  have p: "name_prefix ''a.log*'' = ''a.log''" by code_simp
  have l: "concat (map (\<lambda>e. le_data (snd e)) (logs_of ''a.log'' two_logs)) = ''abcdef0123''" by code_simp
  have "distinct (map fst two_logs)" by code_simp
  from limit_size_tail [OF this n, of "[]" "''a.log*''"] show ?thesis
    by (auto simp: p l last_bytes_def)
qed

section \<open>The lines of a span of time\<close>

definition stamp_of :: "stamp_format \<Rightarrow> string \<Rightarrow> int option" where
  "stamp_of sf line = (case sf_search sf line of None \<Rightarrow> None | Some t \<Rightarrow> if t = [] then None else sf_parse sf t)"

definition stamp_valid :: "stamp_format \<Rightarrow> string \<Rightarrow> bool" where
  "stamp_valid sf line \<longleftrightarrow> (case sf_search sf line of None \<Rightarrow> True | Some t \<Rightarrow> t = [] \<or> sf_parse sf t \<noteq> None)"

definition in_span :: "stamp_format \<Rightarrow> int \<times> int \<Rightarrow> string \<Rightarrow> bool" where
  "in_span sf r line \<longleftrightarrow> (case stamp_of sf line of None \<Rightarrow> False | Some t \<Rightarrow> fst r \<le> t \<and> t \<le> snd r)"

definition stamps :: "stamp_format \<Rightarrow> string list \<Rightarrow> int list" where
  "stamps sf ls = List.map_filter (stamp_of sf) ls"

lemma stamps_simps [simp]:
  "stamps sf [] = []"
  "stamps sf (l # ls) = (case stamp_of sf l of None \<Rightarrow> stamps sf ls | Some t \<Rightarrow> t # stamps sf ls)"
  by (simp_all add: stamps_def map_filter_simps split: option.split)

lemma range_stamp: "l \<in> set ls \<Longrightarrow> in_span sf r l \<Longrightarrow> \<exists>t \<in> set (stamps sf ls). fst r \<le> t \<and> t \<le> snd r"
  by (induction ls) (auto simp: in_span_def split: option.splits)

lemma none_in_span: "\<forall>t \<in> set (stamps sf ls). snd r < t \<Longrightarrow> filter (in_span sf r) ls = []"
  using range_stamp [of _ ls sf r] by (fastforce simp: filter_empty_conv)

text \<open>Over sorted lines the loop writes those in range, and is left early where a later line follows.\<close>

lemma scan_sorted:
  "\<forall>l \<in> set ls. stamp_valid sf l \<Longrightarrow> sorted (stamps sf ls) \<Longrightarrow>
   scan_lines sf r ls (i, w, out) =
     (let sel = filter (in_span sf r) ls; ex = (i \<or> sel \<noteq> []) \<and> (\<exists>t \<in> set (stamps sf ls). snd r < t) in
      ((\<not> ex \<and> (i \<or> sel \<noteq> []), w \<or> sel \<noteq> [], out @ concat sel), ex))"
proof (induction ls arbitrary: i w out)
  case Nil
  then show ?case by (simp add: Let_def)
next
  case (Cons l ls)
  show ?case
  proof (cases "stamp_of sf l")
    case None
    then consider "sf_search sf l = None" | "sf_search sf l = Some []"
      using Cons.prems(1) by (auto simp: stamp_of_def stamp_valid_def split: option.splits if_splits)
    then have skip: "scan_lines sf r (l # ls) (i, w, out) = scan_lines sf r ls (i, w, out)"
      by cases simp_all
    have "\<not> in_span sf r l" using None by (simp add: in_span_def)
    then show ?thesis using Cons None by (simp add: skip del: scan_lines.simps)
  next
    case (Some t)
    then obtain d where d: "sf_search sf l = Some d" "d \<noteq> []" "sf_parse sf d = Some t"
      by (auto simp: stamp_of_def split: option.splits if_splits)
    have le: "\<forall>u \<in> set (stamps sf ls). t \<le> u" and ok: "\<forall>l \<in> set ls. stamp_valid sf l" "sorted (stamps sf ls)"
      using Cons.prems Some by auto
    note IH = Cons.IH [OF ok, unfolded Let_def]
    consider "fst r \<le> t" "t \<le> snd r" | "snd r < t" | "t < fst r" "t \<le> snd r" by linarith
    then show ?thesis
    proof cases
      case 1
      then have "in_span sf r l" using Some by (simp add: in_span_def)
      with 1 d Some show ?thesis by (simp add: IH Let_def)
    next
      case 2
      then have none: "filter (in_span sf r) ls = []" "\<not> in_span sf r l"
        using le Some by (auto intro!: none_in_span simp: in_span_def)
      with 2 d Some show ?thesis by (cases i) (simp_all add: IH Let_def)
    next
      case 3
      then have "\<not> in_span sf r l" using Some by (simp add: in_span_def)
      with 3 d Some show ?thesis by (simp add: IH Let_def)
    qed
  qed
qed

definition text_logs :: "string \<Rightarrow> log_dir \<Rightarrow> log_dir" where
  "text_logs prefix es = filter (\<lambda>e. path_suffix (fst e) \<in> set supported_file_types) (named_logs prefix es)"

lemma text_logs_simps [simp]:
  "text_logs prefix [] = []"
  "text_logs prefix ((f, e) # es) = (if starts_with f prefix \<and> path_suffix f \<in> set supported_file_types
     then (f, e) # text_logs prefix es else text_logs prefix es)"
  by (simp_all add: text_logs_def)

lemma text_logs_set: "set (text_logs prefix es) \<subseteq> set es"
  by (auto simp: text_logs_def named_logs_def)

definition log_lines :: "string \<times> log_entry \<Rightarrow> string list" where
  "log_lines e = py_readlines (le_data (snd e))"

definition selected :: "stamp_format \<Rightarrow> int \<times> int \<Rightarrow> string \<times> log_entry \<Rightarrow> string list" where
  "selected sf r e = filter (in_span sf r) (log_lines e)"

text \<open>A log with lines in range and a line behind the end of the range.\<close>

definition crosses :: "stamp_format \<Rightarrow> int \<times> int \<Rightarrow> string \<times> log_entry \<Rightarrow> bool" where
  "crosses sf r e \<longleftrightarrow> selected sf r e \<noteq> [] \<and> (\<exists>t \<in> set (stamps sf (log_lines e)). snd r < t)"

fun until :: "('a \<Rightarrow> bool) \<Rightarrow> 'a list \<Rightarrow> 'a list" where
  "until P [] = []"
| "until P (x # xs) = x # (if P x then [] else until P xs)"

lemma until_set: "set (until P xs) \<subseteq> set xs"
  by (induction xs) auto

text \<open>From the oldest log to the newest, the stamps are in order.\<close>

definition chronological :: "stamp_format \<Rightarrow> log_dir \<Rightarrow> bool" where
  "chronological sf logs \<longleftrightarrow> (\<forall>e \<in> set logs. list_all (stamp_valid sf) (log_lines e))
     \<and> sorted (concat (map (\<lambda>e. stamps sf (log_lines e)) (rev logs)))"

lemma chronological_Cons:
  "chronological sf (e # logs) \<longleftrightarrow> list_all (stamp_valid sf) (log_lines e) \<and> sorted (stamps sf (log_lines e)) \<and> chronological sf logs
     \<and> (\<forall>g \<in> set logs. \<forall>t \<in> set (stamps sf (log_lines g)). \<forall>u \<in> set (stamps sf (log_lines e)). t \<le> u)"
  by (auto simp: chronological_def sorted_append)

definition fresh_names :: "log_dir \<Rightarrow> out_dir \<Rightarrow> bool" where
  "fresh_names es d \<longleftrightarrow> (\<forall>e \<in> set es. \<not> starts_with (fst e) ''tmp_'' \<and> map_of d (fst e) = None \<and> map_of d (tmp_name (fst e)) = None)"

lemma tmp_name_simps [simp]:
  "tmp_name f = tmp_name g \<longleftrightarrow> f = g" "starts_with (tmp_name f) ''tmp_''"
  by (simp_all add: tmp_name_def starts_with_def)

lemma tmp_name_neq: "\<not> starts_with f ''tmp_'' \<Longrightarrow> f \<noteq> tmp_name g"
  by auto

lemma fresh_update: "fresh_names es d \<Longrightarrow> f \<notin> fst ` set es \<Longrightarrow> \<not> starts_with f ''tmp_'' \<Longrightarrow> fresh_names es (AList.update f s d)"
  using tmp_name_neq [of f] by (fastforce simp: fresh_names_def update_conv')

lemma fresh_delete: "fresh_names es d \<Longrightarrow> fresh_names es (AList.delete k d)"
  by (auto simp: fresh_names_def delete_conv')

lemma rotated_step:
  "collect_rotated_log_file (f, e) r (Some d) = (Some (if fst r \<le> le_ctime e \<and> le_ctime e \<le> snd r then AList.update f (le_data e) d else d), Inr ())"
  by (simp add: collect_rotated_log_file_def)

lemma text_log_step:
  assumes "starts_with f prefix" "path_suffix f \<in> set supported_file_types" "map_of d (tmp_name f) = None"
    and "list_all (stamp_valid sf) (log_lines (f, e))" "sorted (stamps sf (log_lines (f, e)))"
    and i: "i \<Longrightarrow> \<forall>t \<in> set (stamps sf (log_lines (f, e))). t \<le> snd r"
  shows "time_loop sf prefix r ((f, e) # es) i (Some d) =
    (let sel = selected sf r (f, e); d0 = AList.delete (tmp_name f) d; d1 = (if sel \<noteq> [] then AList.update f (concat sel) d0 else d0) in
     if crosses sf r (f, e) then (Some d1, Inr ()) else time_loop sf prefix r es (i \<or> sel \<noteq> []) (Some d1))"
proof -
  have "\<forall>l \<in> set (log_lines (f, e)). stamp_valid sf l" using assms(4) by (simp add: list_all_iff)
  note scan = scan_sorted [OF this assms(5), of r i False "[]"]
  have "(i \<or> selected sf r (f, e) \<noteq> []) \<and> (\<exists>t \<in> set (stamps sf (log_lines (f, e))). snd r < t) \<longleftrightarrow> crosses sf r (f, e)"
    using i by (fastforce simp: crosses_def)
  with assms(1-3) scan show ?thesis
    by (auto simp: selected_def log_lines_def Let_def)
qed

lemma time_loop_selects:
  assumes "distinct (map fst es)" "fresh_names es d" "chronological sf (text_logs prefix es)"
    and "i \<Longrightarrow> \<forall>e \<in> set (text_logs prefix es). \<forall>t \<in> set (stamps sf (log_lines e)). t \<le> snd r"
  shows "\<exists>d'. time_loop sf prefix r es i (Some d) = (Some d', Inr ())
    \<and> (\<forall>e \<in> set (text_logs prefix es). map_of d' (fst e) =
        (if e \<in> set (until (crosses sf r) (text_logs prefix es)) \<and> selected sf r e \<noteq> [] then Some (concat (selected sf r e)) else None))
    \<and> (\<forall>g. g \<notin> fst ` set es \<longrightarrow> \<not> starts_with g ''tmp_'' \<longrightarrow> map_of d' g = map_of d g)"
  using assms
proof (induction es arbitrary: i d)
  case (Cons fe es)
  obtain f e where fe: "fe = (f, e)" by (cases fe)
  have new: "f \<notin> fst ` set es" and dist: "distinct (map fst es)" using Cons.prems(1) fe by auto
  have fresh: "fresh_names es d" "map_of d f = None" "map_of d (tmp_name f) = None" "\<not> starts_with f ''tmp_''"
    using Cons.prems(2) fe by (auto simp: fresh_names_def)
  have other: "g \<in> set (text_logs prefix es) \<Longrightarrow> fst g \<noteq> f" "g \<in> set es \<Longrightarrow> \<not> starts_with (fst g) ''tmp_''" for g
    using new text_logs_set [of prefix es] fresh(1) by (auto simp: fresh_names_def)
  show ?case
  proof (cases "starts_with f prefix \<and> path_suffix f \<in> set supported_file_types")
    case False
    let ?d = "if starts_with f prefix \<and> fst r \<le> le_ctime e \<and> le_ctime e \<le> snd r then AList.update f (le_data e) d else d"
    have step: "time_loop sf prefix r (fe # es) i (Some d) = time_loop sf prefix r es i (Some ?d)"
      using False fe by (auto simp: rotated_step)
    have fr: "fresh_names es ?d" using fresh new by (simp add: fresh_update)
    have ts: "text_logs prefix (fe # es) = text_logs prefix es" using False fe by auto
    have old: "map_of ?d g = map_of d g" if "g \<noteq> f" for g using that by (simp add: update_conv')
    obtain d' where
      d': "time_loop sf prefix r es i (Some ?d) = (Some d', Inr ())"
      "\<forall>g \<in> set (text_logs prefix es). map_of d' (fst g) = (if g \<in> set (until (crosses sf r) (text_logs prefix es)) \<and> selected sf r g \<noteq> [] then Some (concat (selected sf r g)) else None)"
      "\<forall>g. g \<notin> fst ` set es \<longrightarrow> \<not> starts_with g ''tmp_'' \<longrightarrow> map_of d' g = map_of ?d g"
      using Cons.IH [OF dist fr Cons.prems(3) [unfolded ts] Cons.prems(4) [unfolded ts]] by blast
    have "\<forall>g. g \<notin> fst ` set (fe # es) \<longrightarrow> \<not> starts_with g ''tmp_'' \<longrightarrow> map_of d' g = map_of d g"
      using d'(3) old fe by auto
    with d'(1,2) show ?thesis unfolding step ts by blast
  next
    case True
    let ?ts = "text_logs prefix es" and ?sel = "selected sf r (f, e)"
    let ?d0 = "AList.delete (tmp_name f) d"
    let ?d = "if ?sel \<noteq> [] then AList.update f (concat ?sel) ?d0 else ?d0"
    have ts: "text_logs prefix (fe # es) = (f, e) # ?ts" using True fe by simp
    note chron = Cons.prems(3) [unfolded ts chronological_Cons]
    have step: "time_loop sf prefix r (fe # es) i (Some d) =
        (if crosses sf r (f, e) then (Some ?d, Inr ()) else time_loop sf prefix r es (i \<or> ?sel \<noteq> []) (Some ?d))"
      unfolding fe using text_log_step [of f prefix d sf e i r es] True fresh(3) chron Cons.prems(4) ts
      by (simp add: Let_def)
    have df: "map_of ?d f = (if ?sel \<noteq> [] then Some (concat ?sel) else None)"
      using fresh(2) by (simp add: update_conv' delete_conv')
    have fr: "fresh_names es ?d" using fresh new by (simp add: fresh_update fresh_delete)
    have old: "map_of ?d g = map_of d g" if "g \<noteq> f" "\<not> starts_with g ''tmp_''" for g
      using that tmp_name_neq [of g f] by (simp add: update_conv' delete_conv')
    show ?thesis
    proof (cases "crosses sf r (f, e)")
      case True
      have "map_of ?d (fst g) = None" if "g \<in> set ?ts" for g
        using that fr text_logs_set [of prefix es] by (auto simp: fresh_names_def)
      moreover have "(f, e) \<notin> set ?ts" using other(1) [of "(f, e)"] by auto
      ultimately have "\<forall>g \<in> set (text_logs prefix (fe # es)). map_of ?d (fst g) =
        (if g \<in> set (until (crosses sf r) (text_logs prefix (fe # es))) \<and> selected sf r g \<noteq> [] then Some (concat (selected sf r g)) else None)"
        unfolding ts using True df by (auto simp del: update_conv' delete_conv')
      moreover have "\<forall>g. g \<notin> fst ` set (fe # es) \<longrightarrow> \<not> starts_with g ''tmp_'' \<longrightarrow> map_of ?d g = map_of d g"
        using old fe by auto
      ultimately show ?thesis using step True by (intro exI [of _ ?d]) (simp only: if_True simp_thms)
    next
      case False
      have "\<forall>g \<in> set ?ts. \<forall>t \<in> set (stamps sf (log_lines g)). t \<le> snd r" if "i \<or> ?sel \<noteq> []"
      proof (cases i)
        case True
        then show ?thesis using Cons.prems(4) ts by auto
      next
        case False
        with that obtain l where "l \<in> set (log_lines (f, e))" "in_span sf r l"
          by (auto simp: selected_def filter_empty_conv)
        from range_stamp [OF this] chron show ?thesis by fastforce
      qed
      from Cons.IH [OF dist fr _ this] chron obtain d' where
        d': "time_loop sf prefix r es (i \<or> ?sel \<noteq> []) (Some ?d) = (Some d', Inr ())"
        "\<forall>g \<in> set ?ts. map_of d' (fst g) = (if g \<in> set (until (crosses sf r) ?ts) \<and> selected sf r g \<noteq> [] then Some (concat (selected sf r g)) else None)"
        "\<forall>g. g \<notin> fst ` set es \<longrightarrow> \<not> starts_with g ''tmp_'' \<longrightarrow> map_of d' g = map_of ?d g" by blast
      have "map_of d' f = map_of ?d f" using d'(3) new fresh(4) by blast
      then have "\<forall>g \<in> set (text_logs prefix (fe # es)). map_of d' (fst g) =
        (if g \<in> set (until (crosses sf r) (text_logs prefix (fe # es))) \<and> selected sf r g \<noteq> [] then Some (concat (selected sf r g)) else None)"
        unfolding ts using False d'(2) df other(1) [of "(f, e)"] by (auto simp del: update_conv' delete_conv')
      moreover have "\<forall>g. g \<notin> fst ` set (fe # es) \<longrightarrow> \<not> starts_with g ''tmp_'' \<longrightarrow> map_of d' g = map_of d g"
        using d'(3) old fe by auto
      ultimately show ?thesis using step d'(1) False by auto
    qed
  qed
qed simp

text \<open>Claim C22. Into a destination without files of these names, and when the stamps are in order from the
  oldest log to the newest, each text log is collected as its stamped lines in the span (a line without a stamp
  is dropped), and is absent where it has none, up to the newest log that has lines in
  the span and lines behind it: the logs older than that one are not looked at, though they may have
  lines in the span.\<close>

theorem limit_time_selects:
  fixes es :: log_dir
  assumes "distinct (map fst es)" "fresh_names es d" "valid_duration duration" "parse_duration now duration = Inr r"
    and "chronological sf (text_logs prefix (newest_first es))"
  shows "\<exists>d'. limit_time now sf (Some es) (Some d) duration prefix = (Some d', Inr ())
    \<and> (\<forall>e \<in> set (text_logs prefix (newest_first es)). map_of d' (fst e) =
        (if e \<in> set (until (crosses sf r) (text_logs prefix (newest_first es))) \<and> selected sf r e \<noteq> []
         then Some (concat (selected sf r e)) else None))"
proof -
  have "fresh_names (newest_first es) d" using assms(2) newest_names [of es] by (auto simp: fresh_names_def)
  from time_loop_selects [OF newest_distinct [OF assms(1)] this assms(5), of False r] assms(3,4) show ?thesis
    by (auto simp: limit_time_def)
qed

definition mar :: "string \<Rightarrow> string" where
  "mar s = ''2022-03-01 '' @ s @ [NL]"

definition old_new :: log_dir where
  "old_new = [(''s-1.log'', \<lparr>le_file = True, le_mtime = 1, le_ctime = 1, le_data = mar ''10:30:00 b''\<rparr>),
     (''s-2.log'', \<lparr>le_file = True, le_mtime = 2, le_ctime = 1, le_data = mar ''11:00:00 c'' @ mar ''12:00:01 d''\<rparr>)]"

definition ten_to_noon :: "int \<times> int" where
  "ten_to_noon = (63781725600000000, 63781732800000000)"

text \<open>A line without a stamp, behind a line in range.\<close>

lemma unstamped_line_dropped:
  "sf_search sf line = None \<Longrightarrow> scan_lines sf r (line # ls) st = scan_lines sf r ls st"
  by (cases st) simp

text \<open>The span ends inside the newer log: its line in the span is collected, and the line of half past
  ten in the older log, in the same span, is not.\<close>

lemma older_line_in_span: "in_span default_format ten_to_noon (mar ''10:30:00 b'')"
  by code_simp

theorem limit_time_selects_witness:
  "\<exists>d'. limit_time 0 default_format (Some old_new) (Some []) ''2022-03-01T10:00:00P2H'' ''s'' = (Some d', Inr ())
    \<and> map_of d' ''s-2.log'' = Some (mar ''11:00:00 c'') \<and> map_of d' ''s-1.log'' = None"
proof -
  let ?a = "old_new ! 0" and ?b = "old_new ! 1"
  have names: "fst ?a = ''s-1.log''" "fst ?b = ''s-2.log''" by code_simp+
  have t: "text_logs ''s'' (newest_first old_new) = [?b, ?a]" by code_simp
  have c: "chronological default_format [?b, ?a]"
    unfolding chronological_def by code_simp
  have h: "distinct (map fst old_new)" "fresh_names old_new []" "valid_duration ''2022-03-01T10:00:00P2H''"
    "parse_duration 0 ''2022-03-01T10:00:00P2H'' = Inr ten_to_noon" by code_simp+
  have "chronological default_format (text_logs ''s'' (newest_first old_new))" using c by (simp only: t)
  note limit_time_selects [OF h this, unfolded t]
  moreover have "crosses default_format ten_to_noon ?b" by code_simp
  moreover have "selected default_format ten_to_noon ?b = [mar ''11:00:00 c'']" by code_simp
  moreover have "?a \<noteq> ?b" by code_simp
  ultimately show ?thesis using names by auto
qed

end
