(* ===== verification/LdapStore.thy ===== *)
theory LdapStore
  imports ConsulDb
begin

text \<open>
  The OpenLDAP storage of src/py-utils/src/utils/data/db/openldap: objects as entries below a base
  name, filters as texts that the server reads, sorting and paging in the client. Keys are texts
  without a comma; the names and values of attributes compare exactly. The client of the server is
  a parameter, the laws of the server are the locale \<open>ldap_server\<close>: an entry is added below an
  entry that is there, a search needs its base, and only leaves are deleted. A list of entries
  with a reader of filter texts is a server.
\<close>

section \<open>Names and values\<close>

definition generalize_field_name :: "string \<Rightarrow> string" where
  "generalize_field_name field_name = map (\<lambda>c. if c = CHR ''_'' then CHR ''-'' else c) field_name"

definition pythonize_attr_name :: "string \<Rightarrow> string" where
  "pythonize_attr_name attr_name = map (\<lambda>c. if c = CHR ''-'' then CHR ''_'' else c) attr_name"

text \<open>What the storage uses of a model: the class with its name, which fields are dates and booleans,
  the constructor from a dict of native values, and \<open>strftime\<close> and \<open>strptime\<close> with the format of LDAP
  (None is a ValueError).\<close>

record ldap_model =
  lm_class :: model_class
  lm_name :: string
  lm_date :: "string \<Rightarrow> bool"
  lm_bool :: "string \<Rightarrow> bool"
  lm_make :: "(string \<times> native) list \<Rightarrow> pyexc + model_obj"
  lm_strftime :: "int \<Rightarrow> string"
  lm_strptime :: "string \<Rightarrow> int option"

type_synonym ldap_attrs = "(string \<times> string list) list"

definition generalize_field_value :: "ldap_model \<Rightarrow> native \<Rightarrow> string" where
  "generalize_field_value LM v = (case v of
      NTime t \<Rightarrow> lm_strftime LM t
    | NVal (PBool b) \<Rightarrow> (if b then ''TRUE'' else ''FALSE'')
    | NVal w \<Rightarrow> py_str w)"

definition strtobool :: "string \<Rightarrow> pyexc + bool" where
  "strtobool s = (let l = map to_lower s in
     if l \<in> {''y'', ''yes'', ''t'', ''true'', ''on'', ''1''} then Inr True
     else if l \<in> {''n'', ''no'', ''f'', ''false'', ''off'', ''0''} then Inr False
     else Inl ValueError)"

definition pythonize_attr_value :: "ldap_model \<Rightarrow> string \<Rightarrow> string list \<Rightarrow> pyexc + native" where
  "pythonize_attr_value LM attr_name attr_value = err_bind (class_field (lm_class LM) attr_name) (\<lambda>f. case attr_value of
      [] \<Rightarrow> Inl IndexError
    | v # vs \<Rightarrow> if lm_date LM f then (case lm_strptime LM v of None \<Rightarrow> Inl ValueError | Some t \<Rightarrow> Inr (NTime t))
        else if lm_bool LM f then err_bind (strtobool v) (\<lambda>b. Inr (NVal (PBool b)))
        else Inr (NVal (PStr v)))"

section \<open>Entries\<close>

text \<open>\<open>to_native\<close> of an object: its fields in order; a field that was not given is None.\<close>

definition to_native :: "ldap_model \<Rightarrow> model_obj \<Rightarrow> (string \<times> native) list" where
  "to_native LM x = map (\<lambda>f. (f, case x f of None \<Rightarrow> NVal PNone | Some v \<Rightarrow> v)) (mc_fields (lm_class LM))"

definition generalize_item :: "ldap_model \<Rightarrow> string \<times> native \<Rightarrow> string \<times> string list" where
  "generalize_item LM fv = (generalize_field_name (fst fv), [generalize_field_value LM (snd fv)])"

definition model_to_ldif :: "ldap_model \<Rightarrow> model_obj \<Rightarrow> ldap_attrs" where
  "model_to_ldif LM x = fold (\<lambda>fv attrs. AList.update (fst (generalize_item LM fv)) (snd (generalize_item LM fv)) attrs)
     (to_native LM x) [(''objectClass'', [lm_name LM])]"

definition pythonize_item :: "ldap_model \<Rightarrow> string \<times> string list \<Rightarrow> pyexc + string \<times> native" where
  "pythonize_item LM kv = (let f = pythonize_attr_name (fst kv) in err_bind (pythonize_attr_value LM f (snd kv)) (\<lambda>v. Inr (f, v)))"

definition ldif_to_model :: "ldap_model \<Rightarrow> ldap_attrs \<Rightarrow> pyexc + model_obj" where
  "ldif_to_model LM attrs = (if map_of attrs ''objectClass'' = None then Inl KeyError
     else err_bind (err_map (pythonize_item LM) (AList.delete ''objectClass'' attrs)) (\<lambda>kvs.
       lm_make LM (fold (\<lambda>kv d. AList.update (fst kv) (snd kv) d) kvs [])))"

section \<open>Filters\<close>

fun op_value :: "comparison \<Rightarrow> string" where
  "op_value OPERATION_GT = ''>''"
| "op_value OPERATION_LT = ''<''"
| "op_value OPERATION_EQ = ''=''"
| "op_value OPERATION_LEQ = ''<=''"
| "op_value OPERATION_GEQ = ''>=''"
| "op_value OPERATION_NE = ''!=''"
| "op_value OPERATION_LIKE = ''like''"

definition ldap_handle_compare :: "ldap_model \<Rightarrow> operand \<Rightarrow> comparison \<Rightarrow> native \<Rightarrow> pyexc + string" where
  "ldap_handle_compare LM left opr right = err_bind (field_to_str left) (\<lambda>s.
     err_bind (case left of FieldName n \<Rightarrow> class_field (lm_class LM) n | _ \<Rightarrow> Inr s) (\<lambda>f. case mc_native (lm_class LM) f right of
       None \<Rightarrow> Inl DataAccessInternalError
     | Some r \<Rightarrow> let v = generalize_field_value LM r in
         Inr (if opr = OPERATION_LIKE then generalize_field_name s @ op_value OPERATION_EQ @ ''*'' @ v @ ''*''
              else generalize_field_name s @ op_value opr @ v)))"

fun ldap_visit :: "ldap_model \<Rightarrow> ifilter \<Rightarrow> pyexc + string"
  and handle_composite :: "ldap_model \<Rightarrow> ifilter list \<Rightarrow> pyexc + string" where
  "ldap_visit LM (FilterOperationCompare left opr right) = ldap_handle_compare LM left opr right"
| "ldap_visit LM (FilterOperationAnd fs) = err_bind (handle_composite LM fs) (\<lambda>t. Inr (''&'' @ t))"
| "ldap_visit LM (FilterOperationOr fs) = err_bind (handle_composite LM fs) (\<lambda>t. Inr (''|'' @ t))"
| "handle_composite LM [] = Inr []"
| "handle_composite LM (f # fs) = err_bind (ldap_visit LM f) (\<lambda>t. err_bind (handle_composite LM fs) (\<lambda>u. Inr (''('' @ t @ '')'' @ u)))"

definition ldap_build :: "ldap_model \<Rightarrow> ifilter \<Rightarrow> pyexc + string" where
  "ldap_build LM f = err_bind (ldap_visit LM f) (\<lambda>t. Inr (''('' @ t @ '')''))"

section \<open>The client of the server\<close>

text \<open>The calls of the LDAP client. A modification is given by the attributes before and after it, from
  which \<open>modifyModlist\<close> makes the list of changes.\<close>

record 's ldap_client =
  ld_add :: "string \<Rightarrow> ldap_attrs \<Rightarrow> 's \<Rightarrow> 's \<times> (pyexc + unit)"
  ld_search :: "string \<Rightarrow> string option \<Rightarrow> 's \<Rightarrow> 's \<times> (pyexc + (string \<times> ldap_attrs) list)"
  ld_modify :: "string \<Rightarrow> ldap_attrs \<times> ldap_attrs \<Rightarrow> 's \<Rightarrow> 's \<times> (pyexc + unit)"
  ld_delete :: "string \<Rightarrow> 's \<Rightarrow> 's \<times> (pyexc + unit)"

abbreviation ALREADY_EXISTS :: pyexc where "ALREADY_EXISTS \<equiv> PyException ''ldap.ALREADY_EXISTS''"

text \<open>The exceptions of the client are named with the prefix of its module.\<close>

definition ldap_error :: "pyexc \<Rightarrow> bool" where
  "ldap_error e = (case e of PyException n \<Rightarrow> starts_with n ''ldap.'' | _ \<Rightarrow> False)"

definition external :: "'s \<times> (pyexc + 'a) \<Rightarrow> 's \<times> (pyexc + 'a)" where
  "external r = (case r of (s, Inl e) \<Rightarrow> (s, Inl (if ldap_error e then DataAccessExternalError else e)) | _ \<Rightarrow> r)"

text \<open>The attributes of the class: the address of the client, and whether the thread pool and the
  loop are set. A client that is there is used for every later database.\<close>

record ldap_globals =
  lg_client :: "string option"
  lg_ready :: bool

definition ldap_url :: "string \<Rightarrow> int \<Rightarrow> string" where
  "ldap_url host port = ''ldap://'' @ host @ '':'' @ show_int port"

definition ldap_create_database :: "(string \<Rightarrow> pyexc + unit) \<Rightarrow> string \<Rightarrow> int \<Rightarrow> ldap_globals \<Rightarrow> ldap_globals \<times> (pyexc + unit)" where
  "ldap_create_database simple_bind host port g = (if lg_client g \<noteq> None \<and> lg_ready g then (g, Inr ())
     else let g1 = g\<lparr>lg_client := Some (ldap_url host port)\<rparr> in
       case simple_bind (ldap_url host port) of
         Inl e \<Rightarrow> (g1, Inl (if ldap_error e then DataAccessExternalError else e))
       | Inr _ \<Rightarrow> (g1\<lparr>lg_ready := True\<rparr>, Inr ()))"

section \<open>The storage\<close>

definition get_object_dn :: "ldap_model \<Rightarrow> string \<Rightarrow> model_obj \<Rightarrow> pyexc + string" where
  "get_object_dn LM collection x = err_bind (primary_key (lm_class LM)) (\<lambda>k. err_bind (primary_key_val (lm_class LM) x) (\<lambda>v.
     Inr (generalize_field_name k @ ''='' @ key_text (lm_class LM) v @ '','' @ collection)))"

definition get_ldap :: "'s ldap_client \<Rightarrow> ldap_model \<Rightarrow> string \<Rightarrow> ifilter option \<Rightarrow> 's \<Rightarrow> 's \<times> (pyexc + model_obj list)" where
  "get_ldap C LM collection fo s = (case (case fo of None \<Rightarrow> Inr None | Some f \<Rightarrow> err_bind (ldap_build LM f) (\<lambda>t. Inr (Some t))) of
      Inl e \<Rightarrow> (s, Inl e)
    | Inr ldap_filter \<Rightarrow> st_bind (external (ld_search C collection ldap_filter s)) (\<lambda>s1 raw. (s1, err_map (\<lambda>e. ldif_to_model LM (snd e)) raw)))"

definition ldap_get :: "'s ldap_client \<Rightarrow> ldap_model \<Rightarrow> string \<Rightarrow> query \<Rightarrow> 's \<Rightarrow> 's \<times> (pyexc + model_obj list)" where
  "ldap_get C LM collection q s = st_bind (get_ldap C LM collection (q_filter_by q) s) (\<lambda>s1 models.
     (s1, err_bind (ordered (lm_class LM) q models) (query_slice q)))"

text \<open>The items of a dict whose value is not the object's, and a KeyError for a key it does not have.\<close>

fun distinct_items :: "(string \<times> native) list \<Rightarrow> (string \<times> native) list \<Rightarrow> pyexc + (string \<times> native) list" where
  "distinct_items obj_attrs [] = Inr []"
| "distinct_items obj_attrs ((k, v) # kvs) = (case map_of obj_attrs k of
      None \<Rightarrow> Inl KeyError
    | Some w \<Rightarrow> err_bind (distinct_items obj_attrs kvs) (\<lambda>r. Inr (if native_eq v w then r else (k, v) # r)))"

definition dict_of :: "(string \<times> 'a) list \<Rightarrow> (string \<times> 'a) list" where
  "dict_of kvs = fold (\<lambda>kv d. AList.update (fst kv) (snd kv) d) kvs []"

definition update_ldap :: "'s ldap_client \<Rightarrow> ldap_model \<Rightarrow> string \<Rightarrow> (string \<times> native) list \<Rightarrow> model_obj \<Rightarrow> 's \<Rightarrow> 's \<times> (pyexc + unit)" where
  "update_ldap C LM collection to_update x s = (let obj_attrs = to_native LM x in
     case distinct_items obj_attrs to_update of
       Inl e \<Rightarrow> (s, Inl e)
     | Inr items \<Rightarrow> let to_update_distinct = dict_of (map (generalize_item LM) items);
           old_attrs_distinct = dict_of (filter (\<lambda>kv. fst kv \<in> fst ` set to_update_distinct) (map (generalize_item LM) obj_attrs)) in
         if to_update_distinct = [] then (s, Inr ())
         else case get_object_dn LM collection x of
           Inl e \<Rightarrow> (s, Inl e)
         | Inr dn \<Rightarrow> external (ld_modify C dn (old_attrs_distinct, to_update_distinct) s))"

definition ldap_update :: "'s ldap_client \<Rightarrow> ldap_model \<Rightarrow> string \<Rightarrow> ifilter \<Rightarrow> (string \<times> native) list \<Rightarrow> 's \<Rightarrow> 's \<times> (pyexc + nat)" where
  "ldap_update C LM collection f to_update s = st_bind (get_ldap C LM collection (Some f) s) (\<lambda>s1 models.
     st_bind (for_each (\<lambda>s x. update_ldap C LM collection to_update x s) s1 models) (\<lambda>s2 _. (s2, Inr (length models))))"

definition ldap_update_by_id :: "'s ldap_client \<Rightarrow> ldap_model \<Rightarrow> string \<Rightarrow> native \<Rightarrow> (string \<times> native) list \<Rightarrow> 's \<Rightarrow> 's \<times> (pyexc + bool)" where
  "ldap_update_by_id C LM collection obj_id to_update s = (case id_filter (lm_class LM) obj_id of
      Inl e \<Rightarrow> (s, Inl e)
    | Inr f \<Rightarrow> st_bind (ldap_update C LM collection f to_update s) (\<lambda>s1 n. (s1, Inr (0 < n))))"

definition ldap_store :: "'s ldap_client \<Rightarrow> ldap_model \<Rightarrow> string \<Rightarrow> model_obj \<Rightarrow> 's \<Rightarrow> 's \<times> (pyexc + unit)" where
  "ldap_store C LM collection x s = (case get_object_dn LM collection x of
      Inl e \<Rightarrow> (s, Inl e)
    | Inr dn \<Rightarrow> (case ld_add C dn (model_to_ldif LM x) s of
        (s1, Inl e) \<Rightarrow> if e = ALREADY_EXISTS
          then (case primary_key_val (lm_class LM) x of
              Inl e \<Rightarrow> (s1, Inl e)
            | Inr k \<Rightarrow> st_bind (ldap_update_by_id C LM collection k (to_native LM x) s1) (\<lambda>s2 _. (s2, Inr ())))
          else (s1, Inl (if ldap_error e then DataAccessExternalError else e))
      | (s1, Inr _) \<Rightarrow> (s1, Inr ())))"

definition delete_entry :: "'s ldap_client \<Rightarrow> ldap_model \<Rightarrow> string \<Rightarrow> 's \<Rightarrow> model_obj \<Rightarrow> 's \<times> (pyexc + unit)" where
  "delete_entry C LM collection s x = (case get_object_dn LM collection x of
      Inl e \<Rightarrow> (s, Inl e)
    | Inr dn \<Rightarrow> external (ld_delete C dn s))"

definition ldap_delete :: "'s ldap_client \<Rightarrow> ldap_model \<Rightarrow> string \<Rightarrow> ifilter \<Rightarrow> 's \<Rightarrow> 's \<times> (pyexc + nat)" where
  "ldap_delete C LM collection f s = st_bind (get_ldap C LM collection (Some f) s) (\<lambda>s1 models.
     st_bind (for_each (delete_entry C LM collection) s1 models) (\<lambda>s2 _. (s2, Inr (length models))))"

definition ldap_count :: "'s ldap_client \<Rightarrow> ldap_model \<Rightarrow> string \<Rightarrow> ifilter option \<Rightarrow> 's \<Rightarrow> 's \<times> (pyexc + nat)" where
  "ldap_count C LM collection fo s = st_bind (get_ldap C LM collection fo s) (\<lambda>s1 models. (s1, Inr (length models)))"

definition ldap_get_by_id :: "'s ldap_client \<Rightarrow> ldap_model \<Rightarrow> string \<Rightarrow> native \<Rightarrow> 's \<Rightarrow> 's \<times> (pyexc + model_obj option)" where
  "ldap_get_by_id C LM collection obj_id s = (case id_filter (lm_class LM) obj_id of
      Inl e \<Rightarrow> (s, Inl e)
    | Inr f \<Rightarrow> st_bind (ldap_get C LM collection (query_filter_by Query f) s) (\<lambda>s1 xs. (s1, Inr (if xs = [] then None else Some (last xs)))))"

definition ldap_delete_by_id :: "'s ldap_client \<Rightarrow> ldap_model \<Rightarrow> string \<Rightarrow> native \<Rightarrow> 's \<Rightarrow> 's \<times> (pyexc + bool)" where
  "ldap_delete_by_id C LM collection obj_id s = (case id_filter (lm_class LM) obj_id of
      Inl e \<Rightarrow> (s, Inl e)
    | Inr f \<Rightarrow> st_bind (ldap_delete C LM collection f s) (\<lambda>s1 n. (s1, Inr (0 < n))))"

section \<open>An object and its entry\<close>

definition value_of :: "model_obj \<Rightarrow> string \<Rightarrow> native" where
  "value_of x f = (case x f of None \<Rightarrow> NVal PNone | Some v \<Rightarrow> v)"

text \<open>The value that is read back: dates and booleans are converted, all others stay texts.\<close>

definition as_read :: "ldap_model \<Rightarrow> string \<Rightarrow> native \<Rightarrow> native" where
  "as_read LM f v = (if lm_date LM f \<or> lm_bool LM f then v else NVal (PStr (generalize_field_value LM v)))"

definition storable :: "ldap_model \<Rightarrow> model_obj \<Rightarrow> bool" where
  "storable LM x \<longleftrightarrow> (\<forall>f \<in> set (mc_fields (lm_class LM)).
     if lm_date LM f then \<exists>t. value_of x f = NTime t \<and> lm_strptime LM (lm_strftime LM t) = Some t
     else lm_bool LM f \<longrightarrow> (\<exists>b. value_of x f = NVal (PBool b)))"

definition fields_ok :: "ldap_model \<Rightarrow> bool" where
  "fields_ok LM \<longleftrightarrow> distinct (mc_fields (lm_class LM))
     \<and> (\<forall>f \<in> set (mc_fields (lm_class LM)). CHR ''-'' \<notin> set f \<and> generalize_field_name f \<noteq> ''objectClass'')"

lemma pythonize_generalize [simp]: "CHR ''-'' \<notin> set f \<Longrightarrow> pythonize_attr_name (generalize_field_name f) = f"
  by (auto simp: pythonize_attr_name_def generalize_field_name_def intro!: map_idI)

lemma generalize_inj: "CHR ''-'' \<notin> set f \<Longrightarrow> CHR ''-'' \<notin> set g \<Longrightarrow> generalize_field_name f = generalize_field_name g \<Longrightarrow> f = g"
  using pythonize_generalize [of f] pythonize_generalize [of g] by metis

lemma fold_update_new: "distinct (map fst kvs) \<Longrightarrow> fst ` set kvs \<inter> fst ` set d = {} \<Longrightarrow>
    fold (\<lambda>kv d. AList.update (fst kv) (snd kv) d) kvs d = d @ kvs"
proof (induction kvs arbitrary: d)
  case (Cons kv kvs)
  have "AList.update (fst kv) (snd kv) d = d @ [kv]" using Cons.prems(2) by (induction d) auto
  then show ?case using Cons by auto
qed simp

lemma dict_of_distinct: "distinct (map fst kvs) \<Longrightarrow> dict_of kvs = kvs"
  by (simp add: dict_of_def fold_update_new)

lemma dict_of_map: "map_of (dict_of kvs) = map_of (rev kvs)"
proof -
  have "map_of (fold (\<lambda>kv d. AList.update (fst kv) (snd kv) d) kvs d) = map_of d ++ map_of (rev kvs)" for d
    by (induction kvs arbitrary: d) (auto simp: update_conv' map_add_def fun_eq_iff split: option.splits)
  then show ?thesis by (simp add: dict_of_def)
qed

lemma to_native_value: "to_native LM x = map (\<lambda>f. (f, value_of x f)) (mc_fields (lm_class LM))"
  by (simp add: to_native_def value_of_def)

definition field_items :: "ldap_model \<Rightarrow> model_obj \<Rightarrow> ldap_attrs" where
  "field_items LM x = map (\<lambda>f. (generalize_field_name f, [generalize_field_value LM (value_of x f)])) (mc_fields (lm_class LM))"

lemma item_names: "fields_ok LM \<Longrightarrow> distinct (map fst (field_items LM x))"
  by (auto simp: fields_ok_def field_items_def distinct_map comp_def intro!: inj_onI dest: generalize_inj)

lemma model_to_ldif_items: "fields_ok LM \<Longrightarrow> model_to_ldif LM x = (''objectClass'', [lm_name LM]) # field_items LM x"
proof -
  assume ok: "fields_ok LM"
  have "model_to_ldif LM x = fold (\<lambda>kv d. AList.update (fst kv) (snd kv) d) (field_items LM x) [(''objectClass'', [lm_name LM])]"
    by (simp add: model_to_ldif_def field_items_def to_native_value generalize_item_def fold_map comp_def)
  moreover have "fst ` set (field_items LM x) \<inter> {''objectClass''} = {}" using ok by (auto simp: fields_ok_def field_items_def)
  ultimately show ?thesis using fold_update_new [OF item_names [OF ok]] by simp
qed

definition read_items :: "ldap_model \<Rightarrow> model_obj \<Rightarrow> (string \<times> native) list" where
  "read_items LM x = map (\<lambda>f. (f, as_read LM f (value_of x f))) (mc_fields (lm_class LM))"

lemma strtobool_upper: "strtobool ''TRUE'' = Inr True" "strtobool ''FALSE'' = Inr False"
  by code_simp+

lemma read_field:
  assumes "storable LM x" "f \<in> set (mc_fields (lm_class LM))"
  shows "pythonize_attr_value LM f [generalize_field_value LM (value_of x f)] = Inr (as_read LM f (value_of x f))"
  using assms(1) [unfolded storable_def, rule_format, OF assms(2)] assms(2) strtobool_upper
  by (auto simp: pythonize_attr_value_def class_field_def as_read_def generalize_field_value_def split: if_splits)

text \<open>An entry with the attributes of an object, in any order.\<close>

lemma read_entry:
  assumes ok: "fields_ok LM" and st: "storable LM x" and d: "distinct (map fst a)" and m: "map_of a = map_of (model_to_ldif LM x)"
  shows "\<exists>kvs. ldif_to_model LM a = lm_make LM kvs \<and> distinct (map fst kvs) \<and> map_of kvs = map_of (read_items LM x)
    \<and> (a = model_to_ldif LM x \<longrightarrow> kvs = read_items LM x)"
proof -
  let ?b = "AList.delete ''objectClass'' a" and ?F = "set (mc_fields (lm_class LM))"
  let ?g = "\<lambda>kv :: string \<times> string list. (pythonize_attr_name (fst kv), as_read LM (pythonize_attr_name (fst kv)) (value_of x (pythonize_attr_name (fst kv))))"
  have no: "''objectClass'' \<notin> fst ` set (field_items LM x)" using ok by (auto simp: fields_ok_def field_items_def)
  have oc: "map_of a ''objectClass'' = Some [lm_name LM]" by (simp add: m model_to_ldif_items [OF ok])
  have db: "distinct (map fst ?b)" using d by (rule AList.distinct_delete)
  have mb: "map_of ?b = map_of (field_items LM x)"
    using no by (auto simp: delete_conv' m model_to_ldif_items [OF ok] fun_eq_iff map_of_eq_None_iff [symmetric])
  have sb: "set ?b = set (field_items LM x)"
    using map_of_eq_Some_iff [OF db] map_of_eq_Some_iff [OF item_names [OF ok, of x]] mb by auto
  have dash: "f \<in> ?F \<Longrightarrow> CHR ''-'' \<notin> set f" for f using ok by (simp add: fields_ok_def)
  have "\<forall>kv \<in> set ?b. pythonize_item LM kv = Inr (?g kv)"
    unfolding sb using read_field [OF st] dash by (auto simp: field_items_def pythonize_item_def Let_def)
  then have e: "err_map (pythonize_item LM) ?b = Inr (map ?g ?b)" by (rule err_map_Inr)
  have inj: "inj_on pythonize_attr_name (fst ` set ?b)"
    unfolding sb using dash by (auto simp: field_items_def intro!: inj_onI)
  have dk: "distinct (map fst (map ?g ?b))" using db inj by (simp add: comp_def distinct_map inj_on_def)
  have sk: "set (map ?g ?b) = set (read_items LM x)"
    unfolding set_map sb using dash by (force simp: field_items_def read_items_def)
  have dr: "distinct (map fst (read_items LM x))" using ok by (simp add: read_items_def fields_ok_def comp_def)
  have "map_of (map ?g ?b) = map_of (read_items LM x)" using map_of_inject_set [OF dk dr] sk by simp
  moreover have "map ?g ?b = read_items LM x" if "a = model_to_ldif LM x"
  proof -
    have "?b = field_items LM x" using that no by (simp add: model_to_ldif_items [OF ok] delete_id)
    then show ?thesis using dash by (simp add: field_items_def read_items_def)
  qed
  moreover have "ldif_to_model LM a = lm_make LM (map ?g ?b)"
    using oc e fold_update_new [OF dk, of "[]"] by (simp add: ldif_to_model_def)
  ultimately show ?thesis using dk by blast
qed

text \<open>The entry that is written of an object is read back field by field: dates and booleans as
  the values they were, every other value as its text; the constructor of the model gets exactly
  these fields under their own names.\<close>

lemma ldif_roundtrip:
  assumes "fields_ok LM" "storable LM x"
  shows "ldif_to_model LM (model_to_ldif LM x) = lm_make LM (map (\<lambda>(f, v). (f, as_read LM f v)) (to_native LM x))"
proof -
  have "distinct (map fst (model_to_ldif LM x))"
    using item_names [OF assms(1), of x] assms(1) by (auto simp: model_to_ldif_items fields_ok_def field_items_def)
  from read_entry [OF assms this] show ?thesis by (auto simp: read_items_def to_native_value comp_def)
qed

section \<open>What the server promises\<close>

text \<open>Attribute names, and values that stand for themselves in a filter.\<close>

definition attr_char :: "char \<Rightarrow> bool" where
  "attr_char c \<longleftrightarrow> is_digit c \<or> (let n = (of_char (to_lower c) :: nat) in 97 \<le> n \<and> n \<le> 122) \<or> c = CHR ''-''"

definition plain_attr :: "string \<Rightarrow> bool" where
  "plain_attr k \<longleftrightarrow> k \<noteq> [] \<and> list_all attr_char k"

definition plain_value :: "string \<Rightarrow> bool" where
  "plain_value v \<longleftrightarrow> list_all (\<lambda>c. c \<notin> {CHR ''('', CHR '')'', CHR ''*'', CHR 0x5C, CHR 0x00}) v"

text \<open>A value that needs no escape in a name or a filter, and that the string rules of LDAP (with or without
  case) compare as it is: small letters, digits, dashes, dots and underscores.\<close>

definition name_char :: "char \<Rightarrow> bool" where
  "name_char c \<longleftrightarrow> is_digit c \<or> (let n = (of_char c :: nat) in 97 \<le> n \<and> n \<le> 122) \<or> c \<in> {CHR ''-'', CHR ''.'', CHR ''_''}"

definition plain_name :: "string \<Rightarrow> bool" where
  "plain_name v \<longleftrightarrow> v \<noteq> [] \<and> list_all name_char v"

text \<open>A name one level below the base, a name anywhere below a name, and the attribute that names an entry.\<close>

definition child_of :: "string \<Rightarrow> string \<Rightarrow> bool" where
  "child_of base dn \<longleftrightarrow> (let r = takeWhile (\<lambda>c. c \<noteq> CHR '','') dn in dn = r @ '','' @ base)"

definition dn_below :: "string \<Rightarrow> string \<Rightarrow> bool" where
  "dn_below dn d \<longleftrightarrow> (\<exists>r. d = r @ '','' @ dn)"

definition rdn_attr :: "string \<Rightarrow> string" where
  "rdn_attr dn = takeWhile (\<lambda>c. c \<noteq> CHR ''='') dn"

text \<open>\<open>view\<close> has the entries by their names, \<open>accepts\<close> the attributes that the schema allows, spelled as in the
  schema, \<open>text_attr\<close> the attributes with one of the string rules (caseIgnoreMatch, caseExactMatch);
  \<open>parses\<close> and \<open>hit\<close> say which filters are texts of a filter and which entries they match. An entry is
  added if its parent is there and it has the attribute of its name; the values of an attribute are
  a set, so entries are added and changed with one value for each. A search needs its base, and
  gives each entry one level below it that matches. An entry with others below it is not
  deleted. Nothing is said of what the server does otherwise.\<close>

locale ldap_server =
  fixes C :: "'s ldap_client"
    and view :: "'s \<Rightarrow> string \<Rightarrow> ldap_attrs option"
    and accepts :: "(string \<Rightarrow> string list option) \<Rightarrow> bool"
    and parses :: "string option \<Rightarrow> bool"
    and hit :: "string option \<Rightarrow> ldap_attrs \<Rightarrow> bool"
    and text_attr :: "string \<Rightarrow> bool"
  assumes add_law: "view s base \<noteq> None \<Longrightarrow> plain_attr g \<Longrightarrow> text_attr g \<Longrightarrow> plain_name k \<Longrightarrow> dn = g @ ''='' @ k @ '','' @ base \<Longrightarrow>
      distinct (map fst a) \<Longrightarrow> \<forall>kv \<in> set a. length (snd kv) = 1 \<Longrightarrow> map_of a g = Some [k] \<Longrightarrow> accepts (map_of a) \<Longrightarrow> view s dn = None \<Longrightarrow>
      \<exists>s' a'. ld_add C dn a s = (s', Inr ()) \<and> distinct (map fst a') \<and> map_of a' = map_of a \<and> view s' = (view s)(dn \<mapsto> a')"
    and exists_law: "view s base \<noteq> None \<Longrightarrow> plain_attr g \<Longrightarrow> text_attr g \<Longrightarrow> plain_name k \<Longrightarrow> dn = g @ ''='' @ k @ '','' @ base \<Longrightarrow>
      map_of a g = Some [k] \<Longrightarrow> accepts (map_of a) \<Longrightarrow> view s dn \<noteq> None \<Longrightarrow> ld_add C dn a s = (s, Inl ALREADY_EXISTS)"
    and search_law: "view s base \<noteq> None \<Longrightarrow> parses fo \<Longrightarrow> \<exists>es dns. ld_search C base fo s = (s, Inr es) \<and> distinct dns
      \<and> set dns = {dn. child_of base dn \<and> (\<exists>a. view s dn = Some a \<and> hit fo a)} \<and> map snd es = map (\<lambda>dn. the (view s dn)) dns"
    and bad_law: "\<not> parses fo \<Longrightarrow> ld_search C base fo s = (s, Inl (PyException ''ldap.FILTER_ERROR''))"
    and eq_parses: "plain_attr k \<Longrightarrow> plain_name v \<Longrightarrow> parses (Some (''('' @ k @ ''='' @ v @ '')''))"
    and eq_law: "plain_attr k \<Longrightarrow> text_attr k \<Longrightarrow> plain_name v \<Longrightarrow> map_of a k = Some [w] \<Longrightarrow> plain_name w \<Longrightarrow>
      hit (Some (''('' @ k @ ''='' @ v @ '')'')) a \<longleftrightarrow> w = v"
    and order_law: "plain_attr k \<Longrightarrow> plain_value v \<Longrightarrow> CHR ''='' \<notin> set v \<Longrightarrow> opr \<in> {OPERATION_GT, OPERATION_LT, OPERATION_NE} \<Longrightarrow>
      \<not> parses (Some (''('' @ k @ op_value opr @ v @ '')''))"
    and modify_law: "view s dn = Some a \<Longrightarrow> rdn_attr dn \<notin> fst ` set new \<Longrightarrow> fst ` set old \<subseteq> fst ` set new \<Longrightarrow>
      \<forall>(k, vs) \<in> set old. map_of a k = Some vs \<Longrightarrow> distinct (map fst new) \<Longrightarrow> \<forall>kv \<in> set new. length (snd kv) = 1 \<Longrightarrow>
      accepts (map_of a ++ map_of new) \<Longrightarrow> \<exists>s' a'. ld_modify C dn (old, new) s = (s', Inr ())
      \<and> distinct (map fst a') \<and> map_of a' = map_of a ++ map_of new \<and> view s' = (view s)(dn \<mapsto> a')"
    and delete_law: "view s dn \<noteq> None \<Longrightarrow> \<forall>d. dn_below dn d \<longrightarrow> view s d = None \<Longrightarrow>
      \<exists>s'. ld_delete C dn s = (s', Inr ()) \<and> view s' = (view s)(dn := None)"

section \<open>The entries of a collection as objects\<close>

definition ldap_key :: "ldap_model \<Rightarrow> model_obj \<Rightarrow> string \<Rightarrow> bool" where
  "ldap_key LM x k \<longleftrightarrow> primary_key_val (lm_class LM) x = Inr (NVal (PStr k)) \<and> plain_name k"

text \<open>An object whose entry is read as the object.\<close>

definition valid_obj :: "ldap_model \<Rightarrow> model_obj \<Rightarrow> bool" where
  "valid_obj LM x \<longleftrightarrow> storable LM x \<and> (\<exists>k. ldap_key LM x k)
     \<and> (\<forall>kvs. distinct (map fst kvs) \<and> map_of kvs = map_of (read_items LM x) \<longrightarrow> lm_make LM kvs = Inr x)"

definition ldap_laws :: "ldap_model \<Rightarrow> string \<Rightarrow> bool" where
  "ldap_laws LM p \<longleftrightarrow> fields_ok LM \<and> mc_key (lm_class LM) = Some p \<and> p \<in> set (mc_fields (lm_class LM))
     \<and> plain_attr (generalize_field_name p) \<and> (\<forall>k. mc_native (lm_class LM) p (NVal (PStr k)) = Some (NVal (PStr k)))
     \<and> (\<forall>x y. \<forall>f \<in> set (mc_fields (lm_class LM)). valid_obj LM x \<and> valid_obj LM y
          \<longrightarrow> (native_eq (value_of x f) (value_of y f) \<longleftrightarrow> value_of x f = value_of y f))"

text \<open>The entry of the collection is there, each entry one level below it is that of a valid object, and there are
  none further below.\<close>

definition stored :: "ldap_model \<Rightarrow> string \<Rightarrow> (string \<Rightarrow> ldap_attrs option) \<Rightarrow> bool" where
  "stored LM collection m \<longleftrightarrow> m collection \<noteq> None
     \<and> (\<forall>dn d. child_of collection dn \<and> dn_below dn d \<longrightarrow> m d = None) \<and> (\<forall>dn a. m dn = Some a \<and> child_of collection dn \<longrightarrow> distinct (map fst a)
     \<and> (\<exists>y. valid_obj LM y \<and> map_of a = map_of (model_to_ldif LM y) \<and> get_object_dn LM collection y = Inr dn))"

definition ldap_objs :: "ldap_model \<Rightarrow> string \<Rightarrow> (string \<Rightarrow> ldap_attrs option) \<Rightarrow> string \<Rightarrow> model_obj option" where
  "ldap_objs LM collection m dn = (if child_of collection dn then (case m dn of
      None \<Rightarrow> None
    | Some a \<Rightarrow> (case ldif_to_model LM a of Inr y \<Rightarrow> Some y | Inl e \<Rightarrow> None)) else None)"

definition ldap_matching :: "string \<Rightarrow> (ldap_attrs \<Rightarrow> bool) \<Rightarrow> (string \<Rightarrow> ldap_attrs option) \<Rightarrow> string set" where
  "ldap_matching collection h m = {dn. child_of collection dn \<and> (\<exists>a. m dn = Some a \<and> h a)}"

lemma valid_entry:
  assumes "fields_ok LM" "valid_obj LM x" "distinct (map fst a)" "map_of a = map_of (model_to_ldif LM x)"
  shows "ldif_to_model LM a = Inr x"
  using read_entry [OF assms(1) _ assms(3,4)] assms(2) by (auto simp: valid_obj_def)

lemma key_dn:
  assumes "ldap_laws LM p" "ldap_key LM x k"
  shows "get_object_dn LM collection x = Inr (generalize_field_name p @ ''='' @ k @ '','' @ collection)" "value_of x p = NVal (PStr k)"
  using assms by (auto simp: ldap_laws_def ldap_key_def get_object_dn_def primary_key_def primary_key_val_def get_field_def key_text_def
      value_of_def split: option.splits)

lemma plain_attr_chars: "plain_attr k \<Longrightarrow> CHR '','' \<notin> set k \<and> CHR ''='' \<notin> set k"
proof -
  have "\<not> attr_char (CHR '','')" "\<not> attr_char (CHR ''='')" by code_simp+
  then show "plain_attr k \<Longrightarrow> ?thesis" by (auto simp: plain_attr_def list_all_iff)
qed

lemma key_child: "plain_attr g \<Longrightarrow> CHR '','' \<notin> set k \<Longrightarrow> child_of base (g @ ''='' @ k @ '','' @ base)"
proof -
  assume "plain_attr g" "CHR '','' \<notin> set k"
  then have "takeWhile (\<lambda>c. c \<noteq> CHR '','') (g @ ''='' @ k @ '','' @ base) = g @ ''='' @ k"
    using plain_attr_chars [of g] by (simp add: takeWhile_append takeWhile_eq_all_conv [THEN iffD2])
  then show ?thesis by (simp add: child_of_def)
qed

lemma key_rdn: "plain_attr g \<Longrightarrow> rdn_attr (g @ ''='' @ k) = g"
  using plain_attr_chars [of g] by (simp add: rdn_attr_def takeWhile_append takeWhile_eq_all_conv [THEN iffD2])

lemma plain_name_value: "plain_name k \<Longrightarrow> plain_value k \<and> CHR '','' \<notin> set k"
proof -
  have "\<not> name_char (CHR ''('')" "\<not> name_char (CHR '')'')" "\<not> name_char (CHR ''*'')" "\<not> name_char (CHR 0x5C)"
    "\<not> name_char (CHR 0x00)" "\<not> name_char (CHR '','')" by code_simp+
  then show "plain_name k \<Longrightarrow> ?thesis" by (auto simp: plain_name_def plain_value_def list_all_iff)
qed

lemma child_rdn: "child_of base dn \<Longrightarrow> \<exists>r. dn = r @ '','' @ base \<and> CHR '','' \<notin> set r"
  by (rule exI [of _ "takeWhile (\<lambda>c. c \<noteq> CHR '','') dn"]) (auto simp: child_of_def Let_def dest: set_takeWhileD)

lemma child_not_self: "\<not> child_of base base"
proof
  assume "child_of base base"
  then obtain r where "base = r @ '','' @ base" using child_rdn by blast
  from arg_cong [OF this, of length] show False by simp
qed

lemma child_not_below: "child_of base dn \<Longrightarrow> child_of base d \<Longrightarrow> \<not> dn_below dn d"
proof
  assume "child_of base dn" "child_of base d" "dn_below dn d"
  then obtain q r t where "d = t @ '','' @ base" "CHR '','' \<notin> set t" "dn = r @ '','' @ base" "d = q @ '','' @ dn"
    using child_rdn unfolding dn_below_def by metis
  then have "t = q @ '','' @ r" by simp
  with \<open>CHR '','' \<notin> set t\<close> show False by simp
qed

lemma laws_simps:
  assumes "ldap_laws LM p"
  shows "fields_ok LM" "mc_key (lm_class LM) = Some p" "p \<in> set (mc_fields (lm_class LM))" "plain_attr (generalize_field_name p)"
    "mc_native (lm_class LM) p (NVal (PStr k)) = Some (NVal (PStr k))"
  using assms by (simp_all add: ldap_laws_def)

lemma ldif_field:
  assumes "ldap_laws LM p" "f \<in> set (mc_fields (lm_class LM))"
  shows "map_of (model_to_ldif LM x) (generalize_field_name f) = Some [generalize_field_value LM (value_of x f)]"
proof -
  have ok: "fields_ok LM" using laws_simps [OF assms(1)] by blast
  have "map_of (field_items LM x) (generalize_field_name f) = Some [generalize_field_value LM (value_of x f)]"
    by (rule map_of_is_SomeI [OF item_names [OF ok]]) (use assms(2) in \<open>auto simp: field_items_def\<close>)
  then show ?thesis using ok assms(2) by (auto simp: model_to_ldif_items fields_ok_def)
qed

text \<open>The filter of the primary key.\<close>

lemma id_build:
  assumes "ldap_laws LM p"
  shows "id_filter (lm_class LM) (NVal (PStr k)) = Inr (FilterOperationCompare (FieldName p) OPERATION_EQ (NVal (PStr k)))"
    "ldap_build LM (FilterOperationCompare (FieldName p) OPERATION_EQ (NVal (PStr k))) = Inr (''('' @ generalize_field_name p @ ''='' @ k @ '')'')"
  using laws_simps [OF assms] by (simp_all add: id_filter_def primary_key_def class_field_def Compare_filter_def
      from_standard_representation_def ldap_build_def ldap_handle_compare_def field_to_str_def generalize_field_value_def Let_def)

lemma stored_obj:
  assumes "fields_ok LM" "stored LM collection m" "m dn = Some a" "child_of collection dn"
  shows "\<exists>y. ldap_objs LM collection m dn = Some y \<and> ldif_to_model LM a = Inr y \<and> valid_obj LM y \<and> distinct (map fst a)
    \<and> map_of a = map_of (model_to_ldif LM y) \<and> get_object_dn LM collection y = Inr dn"
proof -
  obtain y where y: "valid_obj LM y" "distinct (map fst a)" "map_of a = map_of (model_to_ldif LM y)" "get_object_dn LM collection y = Inr dn"
    using assms(2-4) unfolding stored_def by blast
  with valid_entry [OF assms(1) y(1-3)] assms(3,4) show ?thesis by (auto simp: ldap_objs_def)
qed

context ldap_server
begin

lemma search_objs:
  assumes ok: "fields_ok LM" and st: "stored LM collection (view s)" and b: "ldap_build LM f = Inr t" "parses (Some t)"
  shows "\<exists>dns. distinct dns \<and> set dns = ldap_matching collection (hit (Some t)) (view s)
    \<and> get_ldap C LM collection (Some f) s = (s, Inr (map (\<lambda>dn. the (ldap_objs LM collection (view s) dn)) dns))"
proof -
  have "view s collection \<noteq> None" using st by (simp add: stored_def)
  from search_law [OF this b(2)] obtain es dns where es: "ld_search C collection (Some t) s = (s, Inr es)" "distinct dns"
      "set dns = ldap_matching collection (hit (Some t)) (view s)" "map snd es = map (\<lambda>dn. the (view s dn)) dns"
    unfolding ldap_matching_def by blast
  have "ldif_to_model LM (the (view s dn)) = Inr (the (ldap_objs LM collection (view s) dn))" if "dn \<in> set dns" for dn
    using stored_obj [OF ok st, of dn] es(3) that by (auto simp: ldap_matching_def)
  then have "err_map (ldif_to_model LM) (map (\<lambda>dn. the (view s dn)) dns) = Inr (map (\<lambda>dn. the (ldap_objs LM collection (view s) dn)) dns)"
    by (induction dns) simp_all
  moreover have "err_map (\<lambda>e. ldif_to_model LM (snd e)) es = err_map (ldif_to_model LM) (map snd es)"
    by (induction es) simp_all
  ultimately have "err_map (\<lambda>e. ldif_to_model LM (snd e)) es = Inr (map (\<lambda>dn. the (ldap_objs LM collection (view s) dn)) dns)"
    by (simp only: es(4))
  then show ?thesis using es(1-3) b(1) by (intro exI [of _ dns]) (simp add: get_ldap_def external_def)
qed

lemma bad_filter:
  assumes "ldap_build LM f = Inr t" "\<not> parses (Some t)"
  shows "get_ldap C LM collection (Some f) s = (s, Inl DataAccessExternalError)"
proof -
  have "ldap_error (PyException ''ldap.FILTER_ERROR'')" by code_simp
  then show ?thesis using assms bad_law [OF assms(2)] by (simp add: get_ldap_def external_def)
qed

lemma delete_each:
  "distinct dns \<Longrightarrow> \<forall>dn \<in> set dns. view s dn \<noteq> None \<and> (\<forall>d. dn_below dn d \<longrightarrow> view s d = None) \<and> get_object_dn LM collection (g dn) = Inr dn \<Longrightarrow>
   \<exists>s'. for_each (delete_entry C LM collection) s (map g dns) = (s', Inr ()) \<and> view s' = (\<lambda>dn. if dn \<in> set dns then None else view s dn)"
proof (induction dns arbitrary: s)
  case (Cons dn dns)
  obtain s1 where s1: "ld_delete C dn s = (s1, Inr ())" "view s1 = (view s)(dn := None)" using delete_law Cons.prems(2) by force
  have "\<forall>d \<in> set dns. view s1 d \<noteq> None \<and> (\<forall>c. dn_below d c \<longrightarrow> view s1 c = None) \<and> get_object_dn LM collection (g d) = Inr d" using Cons.prems s1(2) by auto
  from Cons.IH [OF _ this] Cons.prems(1) obtain s' where
    "for_each (delete_entry C LM collection) s1 (map g dns) = (s', Inr ())" "view s' = (\<lambda>dn. if dn \<in> set dns then None else view s1 dn)" by auto
  moreover have "delete_entry C LM collection s (g dn) = (s1, Inr ())"
    using s1(1) Cons.prems(2) by (simp add: delete_entry_def external_def)
  ultimately show ?case using s1(2) by (auto simp: fun_eq_iff)
qed simp

lemma delete_objs:
  assumes ok: "fields_ok LM" and st: "stored LM collection (view s)" and b: "ldap_build LM f = Inr t" "parses (Some t)"
  shows "\<exists>s'. ldap_delete C LM collection f s = (s', Inr (card (ldap_matching collection (hit (Some t)) (view s))))
    \<and> stored LM collection (view s') \<and> ldap_objs LM collection (view s') =
      (\<lambda>dn. if dn \<in> ldap_matching collection (hit (Some t)) (view s) then None else ldap_objs LM collection (view s) dn)"
proof -
  let ?M = "ldap_matching collection (hit (Some t)) (view s)"
  obtain dns where dns: "distinct dns" "set dns = ?M"
      "get_ldap C LM collection (Some f) s = (s, Inr (map (\<lambda>dn. the (ldap_objs LM collection (view s) dn)) dns))"
    using search_objs [OF assms] by blast
  have "view s dn \<noteq> None \<and> (\<forall>d. dn_below dn d \<longrightarrow> view s d = None) \<and>
      get_object_dn LM collection (the (ldap_objs LM collection (view s) dn)) = Inr dn" if "dn \<in> set dns" for dn
    using that dns(2) stored_obj [OF ok st, of dn] st by (auto simp: ldap_matching_def stored_def)
  with delete_each [OF dns(1), of s LM collection "\<lambda>dn. the (ldap_objs LM collection (view s) dn)"] obtain s' where
    s': "for_each (delete_entry C LM collection) s (map (\<lambda>dn. the (ldap_objs LM collection (view s) dn)) dns) = (s', Inr ())"
      "view s' = (\<lambda>dn. if dn \<in> ?M then None else view s dn)" using dns(2) by auto
  have "length dns = card ?M" using dns(1,2) distinct_card by metis
  moreover have "collection \<notin> ?M" using child_not_self by (simp add: ldap_matching_def)
  then have "stored LM collection (view s')" using st unfolding stored_def s'(2) by auto
  moreover have "ldap_objs LM collection (view s') = (\<lambda>dn. if dn \<in> ?M then None else ldap_objs LM collection (view s) dn)"
    by (rule ext) (simp add: ldap_objs_def s'(2))
  ultimately show ?thesis using dns(3) s'(1) by (auto simp: ldap_delete_def)
qed

end

text \<open>The changes that make the entry of one object that of another.\<close>

lemma distinct_items_eq:
  "distinct fs \<Longrightarrow> fs = fs1 @ fs2 \<Longrightarrow> distinct_items (map (\<lambda>f. (f, w f)) fs) (map (\<lambda>f. (f, v f)) fs2) =
     Inr (map (\<lambda>f. (f, v f)) (filter (\<lambda>f. \<not> native_eq (v f) (w f)) fs2))"
proof (induction fs2 arbitrary: fs1)
  case (Cons f fs2)
  have "map_of (map (\<lambda>f. (f, w f)) fs) f = Some (w f)"
    using Cons.prems(2) by (subst map_of_map_restrict) simp
  moreover have "fs = (fs1 @ [f]) @ fs2" using Cons.prems(2) by simp
  ultimately show ?case using Cons.IH [OF Cons.prems(1)] by simp
qed simp

lemma update_changes:
  assumes laws: "ldap_laws LM p" and vx: "valid_obj LM x" and vy: "valid_obj LM y"
  defines "fs \<equiv> filter (\<lambda>f. value_of x f \<noteq> value_of y f) (mc_fields (lm_class LM))"
  defines "item \<equiv> \<lambda>z f. (generalize_field_name f, [generalize_field_value LM (value_of z f)])"
  shows "update_ldap C LM collection (to_native LM x) y s = (if fs = [] then (s, Inr ()) else case get_object_dn LM collection y of
      Inl e \<Rightarrow> (s, Inl e)
    | Inr dn \<Rightarrow> external (ld_modify C dn (map (item y) fs, map (item x) fs) s))"
    "map_of (model_to_ldif LM y) ++ map_of (map (item x) fs) = map_of (model_to_ldif LM x)"
proof -
  let ?F = "mc_fields (lm_class LM)"
  have ok: "fields_ok LM" using laws_simps [OF laws] by blast
  then have dF: "distinct ?F" and dash: "\<And>f. f \<in> set ?F \<Longrightarrow> CHR ''-'' \<notin> set f" by (auto simp: fields_ok_def)
  have eq: "native_eq (value_of x f) (value_of y f) \<longleftrightarrow> value_of x f = value_of y f" if "f \<in> set ?F" for f
    using laws vx vy that unfolding ldap_laws_def by blast
  have fs: "filter (\<lambda>f. \<not> native_eq (value_of x f) (value_of y f)) ?F = fs" unfolding fs_def by (rule filter_cong) (auto simp: eq)
  have d: "distinct_items (to_native LM y) (to_native LM x) = Inr (map (\<lambda>f. (f, value_of x f)) fs)"
    using distinct_items_eq [OF dF, of "[]" ?F "value_of y" "value_of x"] by (simp add: to_native_value fs)
  have sub: "set fs \<subseteq> set ?F" "distinct fs" using dF by (auto simp: fs_def)
  have inj: "inj_on generalize_field_name (set ?F)" using generalize_inj dash by (blast intro: inj_onI)
  have names: "distinct (map fst (map (item z) fs))" for z
    using sub(2) inj_on_subset [OF inj sub(1)] by (simp add: item_def distinct_map comp_def)
  have old: "filter (\<lambda>kv. fst kv \<in> fst ` set (map (item x) fs)) (map (generalize_item LM) (to_native LM y)) = map (item y) fs"
  proof -
    have "generalize_field_name f \<in> fst ` set (map (item x) fs) \<longleftrightarrow> value_of x f \<noteq> value_of y f" if "f \<in> set ?F" for f
      using that inj_onD [OF inj] by (force simp: item_def fs_def)
    then have "filter (\<lambda>f. generalize_field_name f \<in> fst ` set (map (item x) fs)) ?F = fs"
      unfolding fs_def by (intro filter_cong) auto
    then show ?thesis by (simp add: to_native_value filter_map comp_def generalize_item_def item_def)
  qed
  have new: "map (generalize_item LM) (map (\<lambda>f. (f, value_of x f)) fs) = map (item x) fs" by (simp add: generalize_item_def item_def)
  show "update_ldap C LM collection (to_native LM x) y s = (if fs = [] then (s, Inr ()) else case get_object_dn LM collection y of
      Inl e \<Rightarrow> (s, Inl e)
    | Inr dn \<Rightarrow> external (ld_modify C dn (map (item y) fs, map (item x) fs) s))"
    unfolding update_ldap_def Let_def d sum.case new dict_of_distinct [OF names] old by simp
  show "map_of (model_to_ldif LM y) ++ map_of (map (item x) fs) = map_of (model_to_ldif LM x)"
  proof
    fix k
    have one: "map_of (map (item x) fs) (generalize_field_name f) = (if f \<in> set fs then Some [generalize_field_value LM (value_of x f)] else None)"
      if "f \<in> set ?F" for f
    proof (cases "f \<in> set fs")
      case True
      then show ?thesis using map_of_is_SomeI [OF names, of "generalize_field_name f" _ x] by (auto simp: item_def)
    next
      case False
      then have "generalize_field_name f \<notin> fst ` set (map (item x) fs)" using that sub(1) inj_onD [OF inj] by (force simp: item_def)
      then have "map_of (map (item x) fs) (generalize_field_name f) = None" by (simp only: map_of_eq_None_iff not_False_eq_True)
      then show ?thesis using False by simp
    qed
    show "(map_of (model_to_ldif LM y) ++ map_of (map (item x) fs)) k = map_of (model_to_ldif LM x) k"
    proof (cases "\<exists>f \<in> set ?F. k = generalize_field_name f")
      case True
      then obtain f where f: "f \<in> set ?F" "k = generalize_field_name f" by blast
      have "f \<notin> set fs \<Longrightarrow> value_of x f = value_of y f" using f(1) by (simp add: fs_def)
      then show ?thesis using one [OF f(1)] ldif_field [OF laws f(1)] f(2) by (auto simp: map_add_def)
    next
      case False
      then have "k \<notin> fst ` set (map (item x) fs)" "\<And>z. k \<notin> fst ` set (field_items LM z)" using sub(1) by (auto simp: item_def field_items_def)
      then have "map_of (map (item x) fs) k = None" "\<And>z. map_of (field_items LM z) k = None" by (simp_all only: map_of_eq_None_iff not_False_eq_True)
      then show ?thesis by (simp add: map_add_def model_to_ldif_items [OF ok])
    qed
  qed
qed

context ldap_server
begin

lemma id_search:
  assumes laws: "ldap_laws LM p" and st: "stored LM collection (view s)" and k: "plain_name k" and g: "text_attr (generalize_field_name p)"
    and dn: "dn = generalize_field_name p @ ''='' @ k @ '','' @ collection" and e: "ldap_objs LM collection (view s) dn = Some y"
  shows "get_ldap C LM collection (Some (FilterOperationCompare (FieldName p) OPERATION_EQ (NVal (PStr k)))) s = (s, Inr [y])"
proof -
  let ?t = "''('' @ generalize_field_name p @ ''='' @ k @ '')''"
  note ok = laws_simps [OF laws]
  have law: "parses (Some ?t)" using eq_parses [OF ok(4) k] by blast
  have "hit (Some ?t) a \<longleftrightarrow> d = dn" if a: "view s d = Some a" "child_of collection d" for d a
  proof -
    obtain z where z: "valid_obj LM z" "map_of a = map_of (model_to_ldif LM z)" "get_object_dn LM collection z = Inr d"
      using stored_obj [OF ok(1) st a] by blast
    then obtain j where j: "ldap_key LM z j" by (auto simp: valid_obj_def)
    have "map_of a (generalize_field_name p) = Some [j]"
      using ldif_field [OF laws ok(3)] z(2) key_dn(2) [OF laws j] by (simp add: generalize_field_value_def)
    moreover have "d = generalize_field_name p @ ''='' @ j @ '','' @ collection" using key_dn(1) [OF laws j] z(3) by simp
    moreover have "plain_name j" using j by (simp add: ldap_key_def)
    ultimately show ?thesis using dn eq_law [OF ok(4) g k, of a j] by auto
  qed
  moreover have "child_of collection dn" "view s dn \<noteq> None" using e by (auto simp: ldap_objs_def split: if_splits option.splits)
  ultimately have M: "ldap_matching collection (hit (Some ?t)) (view s) = {dn}" by (auto simp: ldap_matching_def)
  obtain dns where dns: "distinct dns" "set dns = {dn}" "get_ldap C LM collection (Some (FilterOperationCompare (FieldName p) OPERATION_EQ (NVal (PStr k)))) s
      = (s, Inr (map (\<lambda>dn. the (ldap_objs LM collection (view s) dn)) dns))"
    using search_objs [OF ok(1) st id_build(2) [OF laws] law] M by metis
  have "dns = [dn]"
  proof (cases dns)
    case (Cons d ds)
    then show ?thesis using dns(1,2) by (cases ds) auto
  qed (use dns(2) in simp)
  then show ?thesis using dns(3) e by simp
qed

lemma store_objs:
  assumes laws: "ldap_laws LM p" and st: "stored LM collection (view s)" and x: "valid_obj LM x"
    and g: "text_attr (generalize_field_name p)" and acc: "accepts (map_of (model_to_ldif LM x))" and dn: "get_object_dn LM collection x = Inr dn"
  shows "\<exists>s'. ldap_store C LM collection x s = (s', Inr ()) \<and> stored LM collection (view s')
    \<and> ldap_objs LM collection (view s') = (ldap_objs LM collection (view s))(dn \<mapsto> x)"
proof -
  note ok = laws_simps [OF laws]
  obtain k where k: "ldap_key LM x k" using x by (auto simp: valid_obj_def)
  then have pk: "plain_name k" "CHR '','' \<notin> set k" "primary_key_val (lm_class LM) x = Inr (NVal (PStr k))"
    using plain_name_value by (auto simp: ldap_key_def)
  have base: "view s collection \<noteq> None" using st by (simp add: stored_def)
  have nm: "map_of (model_to_ldif LM x) (generalize_field_name p) = Some [k]"
    using ldif_field [OF laws ok(3), of x] key_dn(2) [OF laws k] by (simp add: generalize_field_value_def)
  have single: "\<forall>kv \<in> set (model_to_ldif LM x). length (snd kv) = 1" "distinct (map fst (model_to_ldif LM x))"
    using model_to_ldif_items [OF ok(1), of x] item_names [OF ok(1), of x] ok(1) by (auto simp: field_items_def fields_ok_def)
  have dn_eq: "dn = generalize_field_name p @ ''='' @ k @ '','' @ collection" using key_dn(1) [OF laws k, of collection] dn by simp
  have ch: "child_of collection dn" unfolding dn_eq using key_child [OF ok(4) pk(2)] by simp
  have put: "stored LM collection (view s') \<and> ldap_objs LM collection (view s') = (ldap_objs LM collection (view s))(dn \<mapsto> x)"
    if "view s' = (view s)(dn \<mapsto> a)" "distinct (map fst a)" "map_of a = map_of (model_to_ldif LM x)" for s' a
  proof
    have "view s' d = None" if "child_of collection c" "dn_below c d" for c d
      using st \<open>view s' = (view s)(dn \<mapsto> a)\<close> that child_not_below [OF that(1) ch] by (auto simp: stored_def)
    moreover have "view s' collection \<noteq> None" using base \<open>view s' = (view s)(dn \<mapsto> a)\<close> by simp
    moreover have "distinct (map fst b) \<and> (\<exists>y. valid_obj LM y \<and> map_of b = map_of (model_to_ldif LM y) \<and> get_object_dn LM collection y = Inr d)"
      if "view s' d = Some b" "child_of collection d" for d b
    proof (cases "d = dn")
      case False
      with that st \<open>view s' = (view s)(dn \<mapsto> a)\<close> show ?thesis by (simp add: stored_def)
    qed (use x dn that \<open>view s' = (view s)(dn \<mapsto> a)\<close> \<open>distinct (map fst a)\<close> \<open>map_of a = map_of (model_to_ldif LM x)\<close> in auto)
    ultimately show "stored LM collection (view s')" unfolding stored_def by blast
    have "ldif_to_model LM a = Inr x" by (rule valid_entry [OF ok(1) x that(2,3)])
    then show "ldap_objs LM collection (view s') = (ldap_objs LM collection (view s))(dn \<mapsto> x)"
      using that(1) ch by (auto simp: ldap_objs_def fun_eq_iff)
  qed
  show ?thesis
  proof (cases "view s dn")
    case None
    then obtain s' a' where "ld_add C dn (model_to_ldif LM x) s = (s', Inr ())" "distinct (map fst a')"
        "map_of a' = map_of (model_to_ldif LM x)" "view s' = (view s)(dn \<mapsto> a')" using add_law [OF base ok(4) g pk(1) dn_eq single(2,1) nm acc None] by blast
    then show ?thesis using put by (auto simp: ldap_store_def dn)
  next
    case (Some a)
    obtain y where y: "ldap_objs LM collection (view s) dn = Some y" "valid_obj LM y" "distinct (map fst a)"
        "map_of a = map_of (model_to_ldif LM y)" "get_object_dn LM collection y = Inr dn"
      using stored_obj [OF ok(1) st Some ch] by blast
    let ?fs = "filter (\<lambda>f. value_of x f \<noteq> value_of y f) (mc_fields (lm_class LM))"
    let ?item = "\<lambda>z f. (generalize_field_name f, [generalize_field_value LM (value_of z f)])"
    note ch = update_changes [OF laws x y(2)]
    have "\<exists>s'. update_ldap C LM collection (to_native LM x) y s = (s', Inr ()) \<and>
        (\<exists>b. view s' = (view s)(dn \<mapsto> b) \<and> distinct (map fst b) \<and> map_of b = map_of (model_to_ldif LM x))"
    proof (cases "?fs = []")
      case True
      moreover have "view s = (view s)(dn \<mapsto> a)" using Some by (simp add: fun_upd_idem)
      ultimately show ?thesis using ch y(3,4) by fastforce
    next
      case False
      obtain j where j: "ldap_key LM y j" using y(2) by (auto simp: valid_obj_def)
      have "value_of x p = value_of y p" using key_dn(1) [OF laws j, of collection] key_dn(2) [OF laws j] key_dn(2) [OF laws k] y(5) dn_eq by simp
      then have ne: "generalize_field_name p \<noteq> generalize_field_name f" if "f \<in> set ?fs" for f
        using that ok(1,3) generalize_inj [of p f] by (auto simp: fields_ok_def)
      then have nk: "rdn_attr dn \<notin> fst ` set (map (?item x) ?fs)" 
        unfolding dn_eq key_rdn [OF ok(4)] set_map image_image fst_conv by (meson imageE ne)
      have sub: "fst ` set (map (?item y) ?fs) \<subseteq> fst ` set (map (?item x) ?fs)" by force
      have cur: "\<forall>(k, vs) \<in> set (map (?item y) ?fs). map_of a k = Some vs" using y(4) ldif_field [OF laws] by auto
      have nd: "distinct (map fst (map (?item x) ?fs))" using ok(1) generalize_inj
        by (auto simp: fields_ok_def distinct_map comp_def intro!: inj_onI)
      have one: "\<forall>kv \<in> set (map (?item x) ?fs). length (snd kv) = 1" by auto
      obtain s' b where md: "ld_modify C dn (map (?item y) ?fs, map (?item x) ?fs) s = (s', Inr ())" "distinct (map fst b)"
          "map_of b = map_of a ++ map_of (map (?item x) ?fs)" "view s' = (view s)(dn \<mapsto> b)"
        using modify_law [OF Some nk sub cur nd one] acc y(4) ch(2) by auto
      have "update_ldap C LM collection (to_native LM x) y s = (s', Inr ())"
        unfolding ch(1) y(5) using False md(1) by (simp only: if_False sum.case external_def prod.case)
      with md(2-4) y(4) ch(2) show ?thesis by auto
    qed
    then obtain s' b where u: "update_ldap C LM collection (to_native LM x) y s = (s', Inr ())" "view s' = (view s)(dn \<mapsto> b)"
        "distinct (map fst b)" "map_of b = map_of (model_to_ldif LM x)" by blast
    have "ldap_update_by_id C LM collection (NVal (PStr k)) (to_native LM x) s = (s', Inr True)"
      using id_search [OF laws st pk(1) g dn_eq y(1)] u(1) by (simp add: ldap_update_by_id_def id_build [OF laws] ldap_update_def)
    then show ?thesis using put [OF u(2-4)] exists_law [OF base ok(4) g pk(1) dn_eq nm acc] Some pk(3) by (auto simp: ldap_store_def dn)
  qed
qed

end

text \<open>Claim C14. On a server with the laws of \<open>ldap_server\<close>, a collection whose own entry is there is a map of
  objects by their names. Storing a valid object that the schema accepts (its key a plain name, in an attribute
  with a string rule) writes it at its name and touches nothing else, also when the name is taken:
  then the entry is searched by its key, and the fields that differ are changed. A query returns, once
  each, the objects whose entries its filter text matches; a delete removes exactly these and returns
  their number. Every operation leaves the collection there, with each entry below it that of a
  valid object and nothing further below.\<close>

theorem ldap_db_refines:
  assumes "ldap_server C view accepts parses hit text_attr" "ldap_laws LM p" "stored LM collection (view s)"
    and "valid_obj LM x" "text_attr (generalize_field_name p)" "accepts (map_of (model_to_ldif LM x))" "get_object_dn LM collection x = Inr dn"
    and "ldap_build LM f = Inr t" "parses (Some t)"
  shows "(\<exists>s'. ldap_store C LM collection x s = (s', Inr ()) \<and> stored LM collection (view s')
      \<and> ldap_objs LM collection (view s') = (ldap_objs LM collection (view s))(dn \<mapsto> x))
    \<and> (\<exists>dns. distinct dns \<and> set dns = ldap_matching collection (hit (Some t)) (view s)
      \<and> ldap_get C LM collection (query_filter_by Query f) s = (s, Inr (map (\<lambda>dn. the (ldap_objs LM collection (view s) dn)) dns)))
    \<and> (\<exists>s'. ldap_delete C LM collection f s = (s', Inr (card (ldap_matching collection (hit (Some t)) (view s))))
      \<and> stored LM collection (view s') \<and> ldap_objs LM collection (view s') =
        (\<lambda>dn. if dn \<in> ldap_matching collection (hit (Some t)) (view s) then None else ldap_objs LM collection (view s) dn))"
proof (intro conjI)
  note ok = laws_simps [OF assms(2)]
  let ?q = "query_filter_by Query f"
  have q: "q_filter_by ?q = Some f" "ordered (lm_class LM) ?q xs = Inr xs" "query_slice ?q xs = Inr xs" for xs
    by (simp_all add: query_filter_by_def Query_def ordered_def query_slice_def)
  show "\<exists>dns. distinct dns \<and> set dns = ldap_matching collection (hit (Some t)) (view s)
      \<and> ldap_get C LM collection ?q s = (s, Inr (map (\<lambda>dn. the (ldap_objs LM collection (view s) dn)) dns))"
    using ldap_server.search_objs [OF assms(1) ok(1) assms(3,8,9)] by (auto simp: ldap_get_def q)
  show "\<exists>s'. ldap_delete C LM collection f s = (s', Inr (card (ldap_matching collection (hit (Some t)) (view s))))
      \<and> stored LM collection (view s') \<and> ldap_objs LM collection (view s') =
        (\<lambda>dn. if dn \<in> ldap_matching collection (hit (Some t)) (view s) then None else ldap_objs LM collection (view s) dn)"
    by (rule ldap_server.delete_objs [OF assms(1) ok(1) assms(3,8,9)])
qed (rule ldap_server.store_objs [OF assms(1-7)])

section \<open>The texts of filters\<close>

text \<open>The filters of the standard (RFC 4515) that the texts can be, as a server reads them: conjunctions,
  disjunctions, and items with one of the relations equal, at most, at least and contains.\<close>

datatype ldap_filter = LAnd "ldap_filter list" | LOr "ldap_filter list" | LItem comparison string string

definition parse_item :: "string \<Rightarrow> ldap_filter option" where
  "parse_item s = (let k = takeWhile attr_char s; r = dropWhile attr_char s in
     if k = [] then None
     else if starts_with r ''='' then (let v = tl r in
       if plain_value v then Some (LItem OPERATION_EQ k v)
       else if 2 \<le> length v \<and> hd v = CHR ''*'' \<and> last v = CHR ''*'' \<and> plain_value (butlast (tl v))
       then Some (LItem OPERATION_LIKE k (butlast (tl v))) else None)
     else if starts_with r ''<='' \<and> plain_value (drop 2 r) then Some (LItem OPERATION_LEQ k (drop 2 r))
     else if starts_with r ''>='' \<and> plain_value (drop 2 r) then Some (LItem OPERATION_GEQ k (drop 2 r))
     else None)"

fun parse_filter :: "nat \<Rightarrow> string \<Rightarrow> (ldap_filter \<times> string) option"
  and parse_list :: "nat \<Rightarrow> string \<Rightarrow> (ldap_filter list \<times> string) option" where
  "parse_filter 0 s = None"
| "parse_filter (Suc n) s = (if \<not> starts_with s ''('' then None else let r = tl s in
     if starts_with r ''&'' \<or> starts_with r ''|'' then (case parse_list n (tl r) of
         None \<Rightarrow> None
       | Some (fs, t) \<Rightarrow> if starts_with t '')'' then Some (if starts_with r ''&'' then LAnd fs else LOr fs, tl t) else None)
     else let i = takeWhile (\<lambda>c. c \<noteq> CHR '')'') r; t = dropWhile (\<lambda>c. c \<noteq> CHR '')'') r in
       if t = [] then None else map_option (\<lambda>f. (f, tl t)) (parse_item i))"
| "parse_list 0 s = None"
| "parse_list (Suc n) s = (if \<not> starts_with s ''('' then Some ([], s) else case parse_filter n s of
       None \<Rightarrow> None
     | Some (f, t) \<Rightarrow> (case parse_list n t of None \<Rightarrow> None | Some (fs, u) \<Rightarrow> Some (f # fs, u)))"

definition parse_text :: "string \<Rightarrow> ldap_filter option" where
  "parse_text s = (case parse_filter (length s) s of Some (f, []) \<Rightarrow> Some f | _ \<Rightarrow> None)"

text \<open>The tree of a filter, and the filters that have one.\<close>

definition field_name :: "operand \<Rightarrow> string" where
  "field_name left = (case left of FieldName s \<Rightarrow> s | Field s \<Rightarrow> s | NoField \<Rightarrow> [])"

fun filter_tree :: "ldap_model \<Rightarrow> ifilter \<Rightarrow> ldap_filter" where
  "filter_tree LM (FilterOperationCompare left opr right) = LItem opr (generalize_field_name (field_name left))
     (case mc_native (lm_class LM) (field_name left) right of None \<Rightarrow> [] | Some r \<Rightarrow> generalize_field_value LM r)"
| "filter_tree LM (FilterOperationAnd fs) = LAnd (map (filter_tree LM) fs)"
| "filter_tree LM (FilterOperationOr fs) = LOr (map (filter_tree LM) fs)"

fun filter_safe :: "ldap_model \<Rightarrow> ifilter \<Rightarrow> bool" where
  "filter_safe LM (FilterOperationCompare left opr right) \<longleftrightarrow> left \<noteq> NoField \<and> field_name left \<in> set (mc_fields (lm_class LM))
     \<and> plain_attr (generalize_field_name (field_name left)) \<and> opr \<in> {OPERATION_EQ, OPERATION_LEQ, OPERATION_GEQ, OPERATION_LIKE}
     \<and> (case mc_native (lm_class LM) (field_name left) right of None \<Rightarrow> False | Some r \<Rightarrow> plain_value (generalize_field_value LM r))"
| "filter_safe LM (FilterOperationAnd fs) = list_all (filter_safe LM) fs"
| "filter_safe LM (FilterOperationOr fs) = list_all (filter_safe LM) fs"

fun text_of :: "ldap_filter \<Rightarrow> string" where
  "text_of (LItem opr k v) = ''('' @ k @ (if opr = OPERATION_LIKE then ''=*'' @ v @ ''*'' else op_value opr @ v) @ '')''"
| "text_of (LAnd fs) = ''(&'' @ concat (map text_of fs) @ '')''"
| "text_of (LOr fs) = ''(|'' @ concat (map text_of fs) @ '')''"

fun tree_ok :: "ldap_filter \<Rightarrow> bool" where
  "tree_ok (LItem opr k v) \<longleftrightarrow> plain_attr k \<and> plain_value v \<and> opr \<in> {OPERATION_EQ, OPERATION_LEQ, OPERATION_GEQ, OPERATION_LIKE}"
| "tree_ok (LAnd fs) = list_all tree_ok fs"
| "tree_ok (LOr fs) = list_all tree_ok fs"

lemma build_text:
  "filter_safe LM f \<Longrightarrow> \<exists>t. ldap_visit LM f = Inr t \<and> text_of (filter_tree LM f) = ''('' @ t @ '')'' \<and> tree_ok (filter_tree LM f)"
  "list_all (filter_safe LM) fs \<Longrightarrow> handle_composite LM fs = Inr (concat (map (text_of \<circ> filter_tree LM) fs)) \<and> list_all tree_ok (map (filter_tree LM) fs)"
proof (induction LM f and LM fs rule: ldap_visit_handle_composite.induct)
  case (1 LM left opr right)
  then show ?case by (cases left) (auto simp: field_name_def ldap_handle_compare_def field_to_str_def class_field_def Let_def split: option.splits)
next
  case (5 LM f fs)
  then obtain t where "ldap_visit LM f = Inr t" "text_of (filter_tree LM f) = ''('' @ t @ '')''" "tree_ok (filter_tree LM f)" by auto
  with 5 show ?case by simp
qed (auto simp: comp_def)

lemma plain_specials:
  "plain_value v \<Longrightarrow> CHR '')'' \<notin> set v" "plain_value v \<Longrightarrow> CHR ''*'' \<notin> set v" "\<not> plain_value (CHR ''*'' # v)"
  by (auto simp: plain_value_def list_all_iff)

lemma attr_span: "list_all attr_char k \<Longrightarrow> \<not> attr_char c \<Longrightarrow> takeWhile attr_char (k @ c # r) = k \<and> dropWhile attr_char (k @ c # r) = c # r"
  by (auto simp: list_all_iff takeWhile_append dropWhile_append takeWhile_eq_all_conv [THEN iffD2])

lemma attr_char_not: "\<not> attr_char (CHR ''='')" "\<not> attr_char (CHR ''<'')" "\<not> attr_char (CHR ''>'')" "\<not> attr_char (CHR ''!'')"
    "\<not> attr_char (CHR ''&'')" "\<not> attr_char (CHR ''|'')" "\<not> attr_char (CHR '')'')"
  by code_simp+

definition item_text :: "comparison \<Rightarrow> string \<Rightarrow> string \<Rightarrow> string" where
  "item_text opr k v = k @ (if opr = OPERATION_LIKE then ''=*'' @ v @ ''*'' else op_value opr @ v)"

lemma parse_item_text: "tree_ok (LItem opr k v) \<Longrightarrow> parse_item (item_text opr k v) = Some (LItem opr k v)"
proof -
  assume ok: "tree_ok (LItem opr k v)"
  then have k: "list_all attr_char k" "k \<noteq> []" and v: "plain_value v" by (simp_all add: plain_attr_def)
  note span = attr_span [OF k(1) attr_char_not(1)] attr_span [OF k(1) attr_char_not(2)] attr_span [OF k(1) attr_char_not(3)]
  have "opr = OPERATION_EQ \<or> opr = OPERATION_LEQ \<or> opr = OPERATION_GEQ \<or> opr = OPERATION_LIKE" using ok by simp
  then show ?thesis
    using k(2) v plain_specials(3) by (elim disjE) (simp_all add: item_text_def parse_item_def span Let_def starts_with_def)
qed

lemma item_close: "tree_ok (LItem opr k v) \<Longrightarrow> CHR '')'' \<notin> set (item_text opr k v) \<and> k \<noteq> [] \<and> attr_char (hd k)"
  using plain_specials(1) attr_char_not by (cases k) (auto simp: item_text_def plain_attr_def list_all_iff)

lemma parse_filter_item:
  assumes "tree_ok (LItem opr k v)"
  shows "parse_filter (Suc n) (text_of (LItem opr k v) @ r) = Some (LItem opr k v, r)"
proof -
  have t: "text_of (LItem opr k v) @ r = CHR ''('' # item_text opr k v @ CHR '')'' # r" by (simp add: item_text_def)
  obtain c s where cs: "item_text opr k v = c # s" "c \<noteq> CHR ''&''" "c \<noteq> CHR ''|''"
    using item_close [OF assms] attr_char_not by (cases k) (auto simp: item_text_def)
  have no: "\<forall>x \<in> set (item_text opr k v). x \<noteq> CHR '')''" using item_close [OF assms] by blast
  have w: "takeWhile (\<lambda>c. c \<noteq> CHR '')'') (item_text opr k v @ CHR '')'' # r) = item_text opr k v"
      "dropWhile (\<lambda>c. c \<noteq> CHR '')'') (item_text opr k v @ CHR '')'' # r) = CHR '')'' # r"
    using no by (simp_all add: takeWhile_append dropWhile_append takeWhile_eq_all_conv [THEN iffD2])
  show ?thesis unfolding t using w parse_item_text [OF assms] cs by (simp add: starts_with_def Let_def)
qed

lemma parse_list_text:
  assumes "\<And>f n r. f \<in> set fs \<Longrightarrow> length (text_of f) \<le> n \<Longrightarrow> parse_filter n (text_of f @ r) = Some (f, r)"
  shows "length (concat (map text_of fs)) < n \<Longrightarrow> parse_list n (concat (map text_of fs) @ CHR '')'' # r) = Some (fs, CHR '')'' # r)"
  using assms
proof (induction fs arbitrary: n)
  case Nil
  then obtain m where "n = Suc m" by (cases n) auto
  then show ?case by (simp add: starts_with_def)
next
  case (Cons f fs)
  then obtain m where m: "n = Suc m" by (cases n) auto
  have pos: "starts_with (text_of f @ s) ''(''" "0 < length (text_of f)" for s by (cases f; simp add: starts_with_def)+
  have "parse_filter m (text_of f @ concat (map text_of fs) @ CHR '')'' # r) = Some (f, concat (map text_of fs) @ CHR '')'' # r)"
    by (rule Cons.prems(2)) (use Cons.prems(1) m in auto)
  moreover have "parse_list m (concat (map text_of fs) @ CHR '')'' # r) = Some (fs, CHR '')'' # r)"
  proof (rule Cons.IH)
    show "length (concat (map text_of fs)) < m" using Cons.prems(1) m pos(2) by (cases "text_of f") auto
  qed (use Cons.prems(2) in auto)
  ultimately show ?case using m pos(1) by simp
qed

lemma parse_filter_text: "tree_ok f \<Longrightarrow> length (text_of f) \<le> n \<Longrightarrow> parse_filter n (text_of f @ r) = Some (f, r)"
proof (induction f arbitrary: n r)
  case (LItem opr k v)
  then obtain m where "n = Suc m" by (cases n) auto
  then show ?case using parse_filter_item LItem.prems(1) by simp
next
  case (LAnd fs)
  then obtain m where m: "n = Suc m" by (cases n) auto
  have "parse_list m (concat (map text_of fs) @ CHR '')'' # r) = Some (fs, CHR '')'' # r)"
    by (rule parse_list_text) (use LAnd m in \<open>auto simp: list_all_iff\<close>)
  then show ?case using m by (simp add: starts_with_def)
next
  case (LOr fs)
  then obtain m where m: "n = Suc m" by (cases n) auto
  have "parse_list m (concat (map text_of fs) @ CHR '')'' # r) = Some (fs, CHR '')'' # r)"
    by (rule parse_list_text) (use LOr m in \<open>auto simp: list_all_iff\<close>)
  then show ?case using m by (simp add: starts_with_def)
qed

text \<open>Claim C39. The text that is built of a filter, of any nesting of conditions with the relations equal, at
  most, at least and like, is read by the grammar of LDAP filters as the tree of the same conditions,
  as long as the texts of the values have no character with a meaning in filters.\<close>

theorem ldap_filter_parses:
  assumes "filter_safe LM f"
  shows "\<exists>t. ldap_build LM f = Inr t \<and> parse_text t = Some (filter_tree LM f)"
proof -
  obtain t where t: "ldap_visit LM f = Inr t" "text_of (filter_tree LM f) = ''('' @ t @ '')''" "tree_ok (filter_tree LM f)"
    using build_text(1) [OF assms] by blast
  have "parse_filter (length (text_of (filter_tree LM f))) (text_of (filter_tree LM f)) = Some (filter_tree LM f, [])"
    using parse_filter_text [OF t(3) order_refl, of "[]"] by simp
  then show ?thesis using t(1,2) by (simp add: ldap_build_def parse_text_def del: parse_filter.simps)
qed

section \<open>A server\<close>

fun matches :: "ldap_filter \<Rightarrow> ldap_attrs \<Rightarrow> bool" where
  "matches (LItem opr k v) a = (case map_of a k of None \<Rightarrow> False | Some ws \<Rightarrow> list_ex (\<lambda>w.
     if opr = OPERATION_EQ then w = v else if opr = OPERATION_LIKE then str_in v w
     else if opr = OPERATION_LEQ then w = v \<or> chars_less w v else if opr = OPERATION_GEQ then w = v \<or> chars_less v w else False) ws)"
| "matches (LAnd fs) a = list_all (\<lambda>f. matches f a) fs"
| "matches (LOr fs) a = list_ex (\<lambda>f. matches f a) fs"

definition text_hit :: "string option \<Rightarrow> ldap_attrs \<Rightarrow> bool" where
  "text_hit fo a = (case fo of None \<Rightarrow> True | Some t \<Rightarrow> (case parse_text t of None \<Rightarrow> False | Some f \<Rightarrow> matches f a))"

definition text_parses :: "string option \<Rightarrow> bool" where
  "text_parses fo = (case fo of None \<Rightarrow> True | Some t \<Rightarrow> parse_text t \<noteq> None)"

text \<open>Finitely many entries, and every schema. A name that is not there has no entries below it, one with entries
  below it stays.\<close>

type_synonym ldap_entries = "(string \<times> ldap_attrs) list"

definition parent_dn :: "string \<Rightarrow> string" where
  "parent_dn dn = tl (dropWhile (\<lambda>c. c \<noteq> CHR '','') dn)"

definition text_below :: "string \<Rightarrow> string \<Rightarrow> bool" where
  "text_below dn d \<longleftrightarrow> length dn < length d \<and> drop (length d - Suc (length dn)) d = '','' @ dn"

definition list_ldap :: "ldap_entries ldap_client" where
  "list_ldap = \<lparr>
     ld_add = (\<lambda>dn a s. if map_of s dn \<noteq> None then (s, Inl ALREADY_EXISTS)
        else if map_of s (parent_dn dn) = None then (s, Inl (PyException ''ldap.NO_SUCH_OBJECT''))
        else (AList.update dn (AList.clearjunk a) s, Inr ())),
     ld_search = (\<lambda>base fo s. if \<not> text_parses fo then (s, Inl (PyException ''ldap.FILTER_ERROR''))
        else if map_of s base = None then (s, Inl (PyException ''ldap.NO_SUCH_OBJECT''))
        else (s, Inr (filter (\<lambda>e. child_of base (fst e) \<and> text_hit fo (snd e)) (AList.clearjunk s)))),
     ld_modify = (\<lambda>dn on s. case map_of s dn of
         None \<Rightarrow> (s, Inl (PyException ''ldap.NO_SUCH_OBJECT''))
       | Some a \<Rightarrow> (AList.update dn (AList.clearjunk (AList.merge a (snd on))) s, Inr ())),
     ld_delete = (\<lambda>dn s. if map_of s dn = None then (s, Inl (PyException ''ldap.NO_SUCH_OBJECT''))
        else if list_ex (\<lambda>e. text_below dn (fst e)) s then (s, Inl (PyException ''ldap.NOT_ALLOWED_ON_NONLEAF''))
        else (AList.delete dn s, Inr ()))\<rparr>"

lemma text_below_iff: "text_below dn d \<longleftrightarrow> dn_below dn d"
proof
  assume t: "text_below dn d"
  have "take (length d - Suc (length dn)) d @ '','' @ dn = d"
    using append_take_drop_id [of "length d - Suc (length dn)" d] t unfolding text_below_def by metis
  then show "dn_below dn d" unfolding dn_below_def by metis
qed (auto simp: text_below_def dn_below_def)

lemma parse_eq_text: "plain_attr k \<Longrightarrow> plain_value v \<Longrightarrow> parse_text (''('' @ k @ ''='' @ v @ '')'') = Some (LItem OPERATION_EQ k v)"
  using parse_filter_text [of "LItem OPERATION_EQ k v" "length (''('' @ k @ ''='' @ v @ '')'')" "[]"]
  by (simp add: parse_text_def del: parse_filter.simps)

lemma parse_order_text:
  assumes k: "plain_attr k" and v: "plain_value v" "CHR ''='' \<notin> set v" and opr: "opr \<in> {OPERATION_GT, OPERATION_LT, OPERATION_NE}"
  shows "parse_text (''('' @ k @ op_value opr @ v @ '')'') = None"
proof -
  let ?i = "k @ op_value opr @ v"
  have "CHR '')'' \<notin> set k" using k attr_char_not by (auto simp: plain_attr_def list_all_iff)
  then have "\<forall>x \<in> set ?i. x \<noteq> CHR '')''" using plain_specials(1) [OF v(1)] opr by auto
  then have w: "takeWhile (\<lambda>c. c \<noteq> CHR '')'') (?i @ '')'') = ?i" "dropWhile (\<lambda>c. c \<noteq> CHR '')'') (?i @ '')'') = '')''"
    by (simp_all add: takeWhile_append dropWhile_append takeWhile_eq_all_conv [THEN iffD2])
  obtain c s where cs: "k = c # s" "c \<noteq> CHR ''&''" "c \<noteq> CHR ''|''" using k attr_char_not by (cases k) (auto simp: plain_attr_def)
  have ka: "list_all attr_char k" using k by (simp add: plain_attr_def)
  note span = attr_span [OF ka attr_char_not(2)] attr_span [OF ka attr_char_not(3)] attr_span [OF ka attr_char_not(4)]
  have ne: "take (Suc 0) v \<noteq> ''=''" using v(2) by (cases v) auto
  have "opr = OPERATION_GT \<or> opr = OPERATION_LT \<or> opr = OPERATION_NE" using opr by simp
  then have "parse_item ?i = None"
    using k ne by (elim disjE) (simp_all add: parse_item_def span Let_def starts_with_def plain_attr_def)
  then have "parse_filter (Suc n) (CHR ''('' # ?i @ '')'') = None" for n
    using w cs by (auto simp: starts_with_def Let_def)
  then show ?thesis by (simp add: parse_text_def del: parse_filter.simps)
qed

lemma parent_named: "plain_attr g \<Longrightarrow> plain_name k \<Longrightarrow> parent_dn (g @ ''='' @ k @ '','' @ base) = base"
  using plain_attr_chars [of g] plain_name_value [of k]
  by (simp add: parent_dn_def dropWhile_append takeWhile_eq_all_conv dropWhile_eq_Nil_conv)

interpretation mem: ldap_server list_ldap map_of "\<lambda>_. True" text_parses text_hit "\<lambda>_. True"
proof
  fix s :: ldap_entries and base g k dn and a :: ldap_attrs
  assume "map_of s base \<noteq> None" "plain_attr g" "plain_name k" "dn = g @ ''='' @ k @ '','' @ base" "map_of s dn = None"
  then show "\<exists>s' a'. ld_add list_ldap dn a s = (s', Inr ()) \<and> distinct (map fst a') \<and> map_of a' = map_of a \<and> map_of s' = (map_of s)(dn \<mapsto> a')"
    using parent_named [of g k base]
    by (auto simp: list_ldap_def AList.update_conv' AList.map_of_clearjunk AList.distinct_clearjunk intro!: exI [of _ "AList.clearjunk a"])
next
  fix s :: ldap_entries and dn a assume "map_of s dn \<noteq> None"
  then show "ld_add list_ldap dn a s = (s, Inl ALREADY_EXISTS)" by (simp add: list_ldap_def)
next
  fix fo base and s :: ldap_entries
  assume p: "map_of s base \<noteq> None" "text_parses fo"
  let ?es = "filter (\<lambda>e. child_of base (fst e) \<and> text_hit fo (snd e)) (AList.clearjunk s)"
  have m: "(dn, a) \<in> set ?es \<longleftrightarrow> map_of s dn = Some a \<and> child_of base dn \<and> text_hit fo a" for dn a
    using map_of_eq_Some_iff [OF AList.distinct_clearjunk [of s], of dn a] by (auto simp: AList.map_of_clearjunk)
  have "ld_search list_ldap base fo s = (s, Inr ?es)" using p by (simp add: list_ldap_def)
  moreover have "distinct (map fst ?es)" by (rule distinct_map_filter) (rule AList.distinct_clearjunk)
  moreover have "set (map fst ?es) = {dn. child_of base dn \<and> (\<exists>a. map_of s dn = Some a \<and> text_hit fo a)}"
    using m by (auto simp: image_iff simp del: set_filter) force
  moreover have "map snd ?es = map (\<lambda>dn. the (map_of s dn)) (map fst ?es)" using m by (auto simp del: set_filter filter_map)
  ultimately show "\<exists>es dns. ld_search list_ldap base fo s = (s, Inr es) \<and> distinct dns
      \<and> set dns = {dn. child_of base dn \<and> (\<exists>a. map_of s dn = Some a \<and> text_hit fo a)} \<and> map snd es = map (\<lambda>dn. the (map_of s dn)) dns"
    by blast
next
  fix fo base and s :: ldap_entries assume "\<not> text_parses fo"
  then show "ld_search list_ldap base fo s = (s, Inl (PyException ''ldap.FILTER_ERROR''))" by (simp add: list_ldap_def)
next
  fix k v assume "plain_attr k" "plain_name v"
  then show "text_parses (Some (''('' @ k @ ''='' @ v @ '')''))"
    using parse_eq_text [of k v] plain_name_value by (auto simp: text_parses_def)
next
  fix k v w and a :: ldap_attrs assume "plain_attr k" "plain_name v" "map_of a k = Some [w]"
  then show "text_hit (Some (''('' @ k @ ''='' @ v @ '')'')) a \<longleftrightarrow> w = v"
    using parse_eq_text [of k v] plain_name_value by (auto simp: text_hit_def)
next
  fix k v opr assume "plain_attr k" "plain_value v" "CHR ''='' \<notin> set v" "opr \<in> {OPERATION_GT, OPERATION_LT, OPERATION_NE}"
  then show "\<not> text_parses (Some (''('' @ k @ op_value opr @ v @ '')''))" using parse_order_text by (simp add: text_parses_def)
next
  fix s :: ldap_entries and dn a and new old :: ldap_attrs assume "map_of s dn = Some a"
  then show "\<exists>s' a'. ld_modify list_ldap dn (old, new) s = (s', Inr ()) \<and> distinct (map fst a') \<and> map_of a' = map_of a ++ map_of new
      \<and> map_of s' = (map_of s)(dn \<mapsto> a')"
    by (auto simp: list_ldap_def AList.update_conv' AList.map_of_clearjunk AList.distinct_clearjunk AList.merge_conv'
        intro!: exI [of _ "AList.clearjunk (AList.merge a new)"])
next
  fix s :: ldap_entries and dn assume l: "map_of s dn \<noteq> None" "\<forall>d. dn_below dn d \<longrightarrow> map_of s d = None"
  have "\<not> list_ex (\<lambda>e. text_below dn (fst e)) s"
    using l(2) by (auto simp: list_ex_iff text_below_iff map_of_eq_None_iff image_iff)
  with l(1) show "\<exists>s'. ld_delete list_ldap dn s = (s', Inr ()) \<and> map_of s' = (map_of s)(dn := None)"
    by (auto simp: list_ldap_def AList.delete_conv')
qed

section \<open>An example\<close>

definition person :: "string \<Rightarrow> bool \<Rightarrow> model_obj" where
  "person n b = [''uid_name'' \<mapsto> NVal (PStr n), ''admin'' \<mapsto> NVal (PBool b)]"

definition person_class :: model_class where
  "person_class = \<lparr>mc_fields = [''uid_name'', ''admin''], mc_is_string = (\<lambda>f. f = ''uid_name''), mc_key = Some ''uid_name'',
     mc_native = (\<lambda>f v. Some v), mc_make = (\<lambda>v. Inl (PyException ''DataError'')), mc_validate = Some,
     mc_primitive = (\<lambda>x. PNone), mc_time_str = show_int\<rparr>"

definition person_model :: ldap_model where
  "person_model = \<lparr>lm_class = person_class, lm_name = ''Person'', lm_date = (\<lambda>f. False), lm_bool = (\<lambda>f. f = ''admin''),
     lm_make = (\<lambda>kvs. case (map_of kvs ''uid_name'', map_of kvs ''admin'') of
         (Some (NVal (PStr n)), Some (NVal (PBool b))) \<Rightarrow> Inr (person n b) | _ \<Rightarrow> Inl (PyException ''DataError'')),
     lm_strftime = show_int, lm_strptime = (\<lambda>s. None)\<rparr>"

lemma person_simps: "mc_fields (lm_class person_model) = [''uid_name'', ''admin'']" "lm_date person_model f = False"
    "lm_bool person_model f = (f = ''admin'')" "mc_native (lm_class person_model) f v = Some v" "mc_key (lm_class person_model) = Some ''uid_name''"
    "lm_name person_model = ''Person''"
  by (simp_all add: person_model_def person_class_def)

lemma person_values [simp]: "value_of (person n b) ''uid_name'' = NVal (PStr n)" "value_of (person n b) ''admin'' = NVal (PBool b)"
  by (simp_all add: value_of_def person_def)

lemma person_fields: "fields_ok person_model"
proof -
  have "generalize_field_name ''uid_name'' \<noteq> ''objectClass''" "generalize_field_name ''admin'' \<noteq> ''objectClass''" by code_simp+
  then show ?thesis by (simp add: fields_ok_def person_simps)
qed

lemma person_read: "read_items person_model (person n b) = [(''uid_name'', NVal (PStr n)), (''admin'', NVal (PBool b))]"
  by (simp add: read_items_def person_simps as_read_def generalize_field_value_def)

lemma person_valid: "plain_name n \<Longrightarrow> valid_obj person_model (person n b)"
  by (auto simp: valid_obj_def storable_def person_simps ldap_key_def primary_key_val_def primary_key_def get_field_def person_read)
    (auto simp: person_def person_model_def)

lemma valid_person: "valid_obj person_model x \<Longrightarrow> \<exists>n b. x = person n b"
proof -
  assume "valid_obj person_model x"
  moreover have "distinct (map fst (read_items person_model x))" by (simp add: read_items_def person_simps)
  ultimately have "lm_make person_model (read_items person_model x) = Inr x" unfolding valid_obj_def by blast
  then show ?thesis by (auto simp: person_model_def split: option.splits native.splits pyval.splits)
qed

lemma person_laws: "ldap_laws person_model ''uid_name''"
proof -
  have "plain_attr (generalize_field_name ''uid_name'')" by code_simp
  moreover have "native_eq (value_of x f) (value_of y f) \<longleftrightarrow> value_of x f = value_of y f"
    if xy: "valid_obj person_model x" "valid_obj person_model y" and f: "f \<in> {''uid_name'', ''admin''}" for x y f
  proof -
    obtain n b m c where "x = person n b" "y = person m c" using xy valid_person by blast
    then show ?thesis using f by (auto simp: native_eq_def split: if_splits)
  qed
  ultimately show ?thesis using person_fields by (auto simp: ldap_laws_def person_simps)
qed

theorem ldif_roundtrip_witness:
  "ldif_to_model person_model (model_to_ldif person_model (person ''ann'' True)) = Inr (person ''ann'' True)"
proof -
  have "storable person_model (person ''ann'' True)" by (auto simp: storable_def person_simps intro: exI [of _ True])
  from ldif_roundtrip [OF person_fields this] have
    "ldif_to_model person_model (model_to_ldif person_model (person ''ann'' True)) = lm_make person_model (read_items person_model (person ''ann'' True))"
    by (simp add: to_native_value read_items_def comp_def)
  also have "\<dots> = Inr (person ''ann'' True)" unfolding person_read by (simp add: person_model_def)
  finally show ?thesis .
qed

definition admin_filter :: ifilter where
  "admin_filter = FilterOperationAnd [FilterOperationCompare (Field ''admin'') OPERATION_EQ (NVal (PBool True)),
     FilterOperationCompare (FieldName ''uid_name'') OPERATION_LIKE (NVal (PStr ''nn''))]"

theorem ldap_filter_parses_witness:
  "\<exists>t. ldap_build person_model admin_filter = Inr t
    \<and> parse_text t = Some (LAnd [LItem OPERATION_EQ ''admin'' ''TRUE'', LItem OPERATION_LIKE ''uid-name'' ''nn''])"
proof -
  have "filter_safe person_model admin_filter" by code_simp
  moreover have "filter_tree person_model admin_filter = LAnd [LItem OPERATION_EQ ''admin'' ''TRUE'', LItem OPERATION_LIKE ''uid-name'' ''nn'']"
    by code_simp
  ultimately show ?thesis using ldap_filter_parses [of person_model admin_filter] by simp
qed

text \<open>The texts of values are not escaped: a value can end its condition and begin another one.\<close>

lemma condition_injected:
  "ldap_build person_model (FilterOperationAnd [FilterOperationCompare (Field ''uid_name'') OPERATION_EQ (NVal (PStr ''a)(admin=TRUE'')),
     FilterOperationCompare (Field ''admin'') OPERATION_EQ (NVal (PBool False))]) = Inr ''(&(uid-name=a)(admin=TRUE)(admin=FALSE))''"
  "parse_text ''(&(uid-name=a)(admin=TRUE)(admin=FALSE))'' =
     Some (LAnd [LItem OPERATION_EQ ''uid-name'' ''a'', LItem OPERATION_EQ ''admin'' ''TRUE'', LItem OPERATION_EQ ''admin'' ''FALSE''])"
  by code_simp+

text \<open>A field without a value is stored as a text.\<close>

lemma none_stored: "generalize_item LM (f, NVal PNone) = (generalize_field_name f, [''None''])"
  by (simp add: generalize_item_def generalize_field_value_def py_str_def)

text \<open>The orders below and above, and different from, are no filters of LDAP.\<close>

context ldap_server
begin

lemma order_fails:
  assumes "f \<in> set (mc_fields (lm_class LM))" "plain_attr (generalize_field_name f)" "opr \<in> {OPERATION_GT, OPERATION_LT, OPERATION_NE}"
    and r: "mc_native (lm_class LM) f v = Some r" "plain_value (generalize_field_value LM r)" "CHR ''='' \<notin> set (generalize_field_value LM r)"
  shows "get_ldap C LM collection (Some (FilterOperationCompare (FieldName f) opr v)) s = (s, Inl DataAccessExternalError)"
proof (rule bad_filter)
  show "ldap_build LM (FilterOperationCompare (FieldName f) opr v) = Inr (''('' @ generalize_field_name f @ op_value opr @ generalize_field_value LM r @ '')'')"
    using assms by (auto simp: ldap_build_def ldap_handle_compare_def field_to_str_def class_field_def Let_def)
  show "\<not> parses (Some (''('' @ generalize_field_name f @ op_value opr @ generalize_field_value LM r @ '')''))"
    by (rule order_law [OF assms(2) r(2,3) assms(3)])
qed

end

definition ann_entry :: ldap_entries where
  "ann_entry = [(''ou=p'', [(''objectClass'', [''organizationalUnit''])]), (''uid-name=ann,ou=p'', model_to_ldif person_model (person ''ann'' False))]"

lemma person_dn: "get_object_dn person_model ''ou=p'' (person n b) = Inr (''uid-name='' @ n @ '',ou=p'')"
proof -
  have "generalize_field_name ''uid_name'' = ''uid-name''" by code_simp
  then show ?thesis by (simp add: get_object_dn_def primary_key_def primary_key_val_def person_simps get_field_def person_def key_text_def)
qed

lemma ann_stored: "stored person_model ''ou=p'' (map_of ann_entry)"
proof -
  have "plain_name ''ann''" by code_simp
  from person_valid [OF this] have v: "valid_obj person_model (person ''ann'' False)" .
  have d: "distinct (map fst (model_to_ldif person_model (person ''ann'' False)))" by code_simp
  have "\<not> child_of ''ou=p'' ''ou=p''" by (rule child_not_self)
  moreover have "child_of ''ou=p'' ''uid-name=ann,ou=p''" by code_simp
  then have "map_of ann_entry d = None" if "child_of ''ou=p'' dn" "dn_below dn d" for dn d
  proof -
    have "d \<noteq> ''uid-name=ann,ou=p''" using child_not_below [OF that(1)] that(2) \<open>child_of ''ou=p'' ''uid-name=ann,ou=p''\<close> by blast
    moreover have "d \<noteq> ''ou=p''" using child_rdn [OF that(1)] that(2) unfolding dn_below_def by auto
    ultimately show ?thesis by (simp add: ann_entry_def)
  qed
  moreover have "distinct (map fst b) \<and> (\<exists>y. valid_obj person_model y \<and> map_of b = map_of (model_to_ldif person_model y)
      \<and> get_object_dn person_model ''ou=p'' y = Inr d)" if "map_of ann_entry d = Some b" "child_of ''ou=p'' d" for d b
  proof -
    have "d \<noteq> ''ou=p''" using that(2) child_not_self by blast
    with that(1) have "d = ''uid-name=ann,ou=p''" "b = model_to_ldif person_model (person ''ann'' False)"
      by (simp_all add: ann_entry_def split: if_splits)
    with d v show ?thesis by (auto simp: person_dn)
  qed
  moreover have "map_of ann_entry ''ou=p'' \<noteq> None" by (simp add: ann_entry_def)
  ultimately show ?thesis unfolding stored_def by blast
qed

theorem ldap_db_refines_witness:
  "(\<exists>s'. ldap_store list_ldap person_model ''ou=p'' (person ''ann'' True) ann_entry = (s', Inr ())
      \<and> ldap_objs person_model ''ou=p'' (map_of s') ''uid-name=ann,ou=p'' = Some (person ''ann'' True))
    \<and> (\<exists>s'. ldap_delete list_ldap person_model ''ou=p'' (FilterOperationCompare (Field ''admin'') OPERATION_EQ (NVal (PBool False))) ann_entry = (s', Inr 1))"
proof -
  let ?f = "FilterOperationCompare (Field ''admin'') OPERATION_EQ (NVal (PBool False))"
  have "plain_name ''ann''" by code_simp
  from person_valid [OF this] have v: "valid_obj person_model (person ''ann'' True)" .
  have dn: "get_object_dn person_model ''ou=p'' (person ''ann'' True) = Inr ''uid-name=ann,ou=p''" by (simp add: person_dn)
  have b: "ldap_build person_model ?f = Inr ''(admin=FALSE)''" by code_simp
  have p: "text_parses (Some ''(admin=FALSE)'')" by code_simp
  have "child_of ''ou=p'' ''uid-name=ann,ou=p''" "text_hit (Some ''(admin=FALSE)'') (model_to_ldif person_model (person ''ann'' False))" by code_simp+
  then have "ldap_matching ''ou=p'' (text_hit (Some ''(admin=FALSE)'')) (map_of ann_entry) = {''uid-name=ann,ou=p''}"
    using child_not_self by (auto simp: ldap_matching_def ann_entry_def split: if_splits)
  then have "card (ldap_matching ''ou=p'' (text_hit (Some ''(admin=FALSE)'')) (map_of ann_entry)) = 1" by simp
  note r = ldap_db_refines [OF mem.ldap_server_axioms person_laws ann_stored v TrueI TrueI dn b p, unfolded this]
  from conjunct1 [OF r] have "\<exists>s'. ldap_store list_ldap person_model ''ou=p'' (person ''ann'' True) ann_entry = (s', Inr ())
      \<and> ldap_objs person_model ''ou=p'' (map_of s') ''uid-name=ann,ou=p'' = Some (person ''ann'' True)" by auto
  moreover from conjunct2 [OF conjunct2 [OF r]] have
    "\<exists>s'. ldap_delete list_ldap person_model ''ou=p'' ?f ann_entry = (s', Inr 1)" by blast
  ultimately show ?thesis by blast
qed

end
