(* ===== verification/KafkaSetup.thy ===== *)
theory KafkaSetup
  imports PillarStore Effects
begin

text \<open>
  The setup of Kafka on a host: Kafka of src/py-utils/src/utils/setup/kafka/kafka.py and, for the
  host itself, the package check of src/py-utils/src/utils/validator/v_pkg.py. Property files are
  edited line by line; what commands do to the system is a parameter. After the configuration the
  files of every host name the same servers, and its broker has its place in their list as number.
\<close>

section \<open>The host\<close>

text \<open>What the setup changes on a host: the state of the system that commands see, text files by their
  paths, directories, and the seconds it has slept. A command is run by \<open>subprocess.run\<close> in a state
  of the system; the users and groups are part of it.\<close>

record 's kafka_host =
  kh_sys :: 's
  kh_files :: "(string \<times> string) list"
  kh_dirs :: "string list"
  kh_slept :: nat

record 's kafka_system =
  ks_exec :: "string \<Rightarrow> 's \<Rightarrow> 's \<times> proc_outcome"
  ks_user :: "'s \<Rightarrow> int option"
  ks_group :: "'s \<Rightarrow> int option"
  ks_hostname :: string
  ks_address :: string

definition run_cmd :: "'s kafka_system \<Rightarrow> string \<Rightarrow> 's kafka_host \<Rightarrow> 's kafka_host \<times> (string \<times> string \<times> int)" where
  "run_cmd S cmd h = (case ks_exec S cmd (kh_sys h) of (s, outcome) \<Rightarrow>
     (h\<lparr>kh_sys := s\<rparr>, simple_process_run (\<lambda>_. outcome) cmd))"

section \<open>Packages, user and group\<close>

text \<open>\<open>PkgV().validate('rpms', pkgs)\<close> on the host itself. The error of a process that did not run is a
  text, which has no \<open>decode\<close>.\<close>

definition execute_cmd :: "'s kafka_system \<Rightarrow> string \<Rightarrow> 's kafka_host \<Rightarrow> 's kafka_host \<times> (pyexc + string)" where
  "execute_cmd S cmd h = (case ks_exec S cmd (kh_sys h) of (s, outcome) \<Rightarrow> (h\<lparr>kh_sys := s\<rparr>, case outcome of
      Completed out err rc \<Rightarrow> if rc = 0 then Inr out else Inl (PyException ''VError'')
    | _ \<Rightarrow> Inl AttributeError))"

definition validate_rpm_pkgs :: "'s kafka_system \<Rightarrow> string list \<Rightarrow> 's kafka_host \<Rightarrow> 's kafka_host \<times> (pyexc + unit)" where
  "validate_rpm_pkgs S pkgs h = st_bind (execute_cmd S ''rpm -qa'' h) (\<lambda>h1 result.
     (h1, if list_all (\<lambda>pkg. str_in pkg result) pkgs then Inr () else Inl (PyException ''VError'')))"

definition user_cmds :: "string list" where
  "user_cmds = [''adduser kafka'', ''usermod -aG wheel kafka'', ''groupadd --force kafka'', ''usermod --append --groups kafka kafka'']"

text \<open>A message without a place for the error text cannot be formatted with it: where a command failed,
  making the KafkaSetupError raises a TypeError.\<close>

fun run_user_cmds :: "'s kafka_system \<Rightarrow> string list \<Rightarrow> 's kafka_host \<Rightarrow> 's kafka_host \<times> (pyexc + unit)" where
  "run_user_cmds S [] h = (h, Inr ())"
| "run_user_cmds S (cmd # cmds) h = (case run_cmd S cmd h of (h1, _, _, rc) \<Rightarrow>
     if rc \<notin> {0, 9, 12} then (h1, Inl TypeError) else run_user_cmds S cmds h1)"

text \<open>The exception of the check is to be raised again with its \<open>rc\<close>, which only a VError has; the new exception
  formats it with the operator \<open>%\<close>, which an exception does not have.\<close>

definition validate_kafka_installation :: "'s kafka_system \<Rightarrow> 's kafka_host \<Rightarrow> 's kafka_host \<times> (pyexc + unit)" where
  "validate_kafka_installation S h = (case validate_rpm_pkgs S [''kafka''] h of
      (h1, Inl e) \<Rightarrow> (h1, Inl (if e = PyException ''VError'' then TypeError else AttributeError))
    | (h1, Inr _) \<Rightarrow> if ks_user S (kh_sys h1) \<noteq> None \<and> ks_group S (kh_sys h1) = ks_user S (kh_sys h1) then (h1, Inr ())
        else run_user_cmds S user_cmds h1)"

definition create_dir_owned :: "'s kafka_system \<Rightarrow> string \<Rightarrow> 's kafka_host \<Rightarrow> 's kafka_host" where
  "create_dir_owned S directory h = h\<lparr>kh_dirs := List.insert directory (kh_dirs h),
     kh_sys := fst (ks_exec S (''chown -R kafka:kafka '' @ directory) (kh_sys h))\<rparr>"

section \<open>Property files\<close>

definition update_line :: "string \<Rightarrow> string \<Rightarrow> string \<Rightarrow> string" where
  "update_line key val line = (if starts_with line (key @ ''='') then key @ ''='' @ val @ [NL] else line)"

text \<open>The text after the lines were rewritten for each key in turn, and the lines of the keys that were
  not found.\<close>

fun update_keys :: "(string \<times> string) list \<Rightarrow> string \<Rightarrow> string \<times> string" where
  "update_keys [] t = (t, [])"
| "update_keys ((key, val) # ps) t = (let ls = py_readlines t in
     case update_keys ps (concat (map (update_line key val) ls)) of (t1, pending) \<Rightarrow>
       (t1, if list_ex (\<lambda>l. starts_with l (key @ ''='')) ls then pending else key @ ''='' @ val @ [NL] @ pending))"

definition update_properties_file :: "string \<Rightarrow> (string \<times> string) list \<Rightarrow> (string \<times> string) list \<Rightarrow> (string \<times> string) list \<times> (pyexc + unit)" where
  "update_properties_file file_path properties fs = (case map_of fs file_path of
      None \<Rightarrow> if properties = [] then (AList.update file_path [] fs, Inr ()) else (fs, Inl (OSError ENOENT))
    | Some t \<Rightarrow> (case update_keys properties t of (t1, pending) \<Rightarrow> (AList.update file_path (t1 @ pending) fs, Inr ())))"

fun delete_keys :: "string list \<Rightarrow> string \<Rightarrow> string" where
  "delete_keys [] t = t"
| "delete_keys (key # keys) t = delete_keys keys (concat (map (\<lambda>line.
     if starts_with line (key @ ''='') \<or> starts_with line ''server.'' then [NL] else line) (py_readlines t)))"

definition delete_properties_from_file :: "string \<Rightarrow> string list \<Rightarrow> (string \<times> string) list \<Rightarrow> (string \<times> string) list \<times> (pyexc + unit)" where
  "delete_properties_from_file file_path keys fs = (case map_of fs file_path of
      None \<Rightarrow> if keys = [] then (fs, Inr ()) else (fs, Inl (OSError ENOENT))
    | Some t \<Rightarrow> (AList.update file_path (delete_keys keys t) fs, Inr ()))"

definition on_files :: "((string \<times> string) list \<Rightarrow> (string \<times> string) list \<times> (pyexc + unit)) \<Rightarrow> 's kafka_host \<Rightarrow> 's kafka_host \<times> (pyexc + unit)" where
  "on_files f h = (case f (kh_files h) of (fs, r) \<Rightarrow> (h\<lparr>kh_files := fs\<rparr>, r))"

section \<open>The phases of the setup\<close>

definition server_properties_file :: string where
  "server_properties_file = ''/opt/kafka/config/server.properties''"

definition zookeeper_properties_file :: string where
  "zookeeper_properties_file = ''/opt/kafka/config/zookeeper.properties''"

definition server_host :: "string \<Rightarrow> string" where
  "server_host server = (if CHR '':'' \<in> set server then hd (py_split (CHR '':'') server) else server)"

definition base_server_properties :: "string \<Rightarrow> string \<Rightarrow> string list \<Rightarrow> (string \<times> string) list" where
  "base_server_properties hostname port hosts = [
     (''zookeeper.connect'', py_join '', '' (map (\<lambda>host. host @ '':2181'') hosts)),
     (''listeners'', ''PLAINTEXT://'' @ hostname @ '':'' @ port),
     (''log.flush.offset.checkpoint.interval.ms'', ''1''),
     (''log.retention.check.interval.ms'', ''1''),
     (''log.dirs'', ''/var/local/data/kafka''),
     (''log.delete.delay.ms'', ''1'')]
   @ (if 1 < length hosts then [(''default.replication.factor'', ''3''), (''transaction.state.log.min.isr'', ''2''),
     (''offsets.topic.replication.factor'', ''3''), (''transaction.state.log.replication.factor'', ''3'')] else [])"

definition base_zookeeper_properties :: "(string \<times> string) list" where
  "base_zookeeper_properties = [(''dataLogDir'', ''/var/log/zookeeper''), (''dataDir'', ''/var/lib/zookeeper''),
     (''tickTime'', ''2000''), (''initLimit'', ''10''), (''syncLimit'', ''5''), (''clientPort'', ''2181''),
     (''autopurge.snapRetainCount'', ''3''), (''autopurge.purgeInterval'', ''24''), (''4lw.commands.whitelist'', ''*'')]"

definition kafka_directories :: "string list" where
  "kafka_directories = [''/var/local/data/kafka'', ''/var/lib/zookeeper'', ''/var/log/zookeeper'']"

definition myid_file :: string where
  "myid_file = ''/var/lib/zookeeper/myid''"

text \<open>The loop over \<open>enumerate(hosts)\<close>: both dicts and the files.\<close>

fun each_host :: "string \<Rightarrow> bool \<Rightarrow> nat \<Rightarrow> string list \<Rightarrow> (string \<times> string) list \<times> (string \<times> string) list \<times> (string \<times> string) list
    \<Rightarrow> (string \<times> string) list \<times> (string \<times> string) list \<times> (string \<times> string) list" where
  "each_host hostname clustered i [] st = st"
| "each_host hostname clustered i (host # hosts) (sp, zp, fs) = (let zp1 = AList.update (''server.'' @ show_nat (i + 1)) (host @ '':2888:3888'') zp in
     each_host hostname clustered (i + 1) hosts (if host = hostname
       then (AList.update ''broker.id'' (show_nat i) sp, zp1, if clustered then AList.update myid_file (show_nat (i + 1)) fs else fs)
       else (sp, zp1, fs)))"

definition set_kafka_config :: "'s kafka_system \<Rightarrow> string \<Rightarrow> string \<Rightarrow> string list \<Rightarrow> 's kafka_host \<Rightarrow> 's kafka_host \<times> (pyexc + unit)" where
  "set_kafka_config S hostname port kafka_servers h = (let hosts = map server_host kafka_servers;
       h1 = fold (create_dir_owned S) kafka_directories h in
     case each_host hostname (1 < length kafka_servers) 0 hosts (base_server_properties hostname port hosts, base_zookeeper_properties, kh_files h1) of
       (sp, zp, fs) \<Rightarrow> st_bind (on_files (update_properties_file server_properties_file sp) (h1\<lparr>kh_files := fs\<rparr>))
         (\<lambda>h2 _. on_files (update_properties_file zookeeper_properties_file zp) h2))"

text \<open>\<open>host, port = server.split(':')\<close> is a ValueError where there is more than one colon.\<close>

definition host_port :: "string \<Rightarrow> pyexc + string \<times> string" where
  "host_port server = (if CHR '':'' \<in> set server then (case py_split (CHR '':'') server of
       [host, port] \<Rightarrow> Inr (host, port)
     | _ \<Rightarrow> Inl ValueError) else Inr (server, ''9092''))"

definition config_server :: "'s kafka_system \<Rightarrow> string list \<Rightarrow> 's kafka_host \<Rightarrow> string \<Rightarrow> 's kafka_host \<times> (pyexc + unit)" where
  "config_server S kafka_servers h server = (case host_port server of
      Inl e \<Rightarrow> (h, Inl e)
    | Inr (host, port) \<Rightarrow> if host = ks_hostname S \<or> host = ks_address S
        then st_bind (validate_kafka_installation S h) (\<lambda>h1 _. set_kafka_config S host port kafka_servers h1)
        else (h, Inr ()))"

definition kafka_config :: "'s kafka_system \<Rightarrow> string list \<Rightarrow> 's kafka_host \<Rightarrow> 's kafka_host \<times> (pyexc + unit)" where
  "kafka_config S kafka_servers h = for_each (config_server S kafka_servers) h kafka_servers"

definition kafka_post_install :: "'s kafka_system \<Rightarrow> 's kafka_host \<Rightarrow> 's kafka_host \<times> (pyexc + unit)" where
  "kafka_post_install S h = (case validate_kafka_installation S h of
      (h1, Inl (SetupError rc)) \<Rightarrow> (h1, Inr ())
    | (h1, r) \<Rightarrow> (h1, r))"

text \<open>The loop that waits for zookeeper, by the number of attempts that are left; True when it was
  left by \<open>break\<close>. The number of the error is ERR_OP_FAILED.\<close>

definition ruok_cmd :: string where
  "ruok_cmd = ''echo ruok|nc `hostname` 2181|grep imok''"

fun zookeeper_wait :: "'s kafka_system \<Rightarrow> nat \<Rightarrow> 's kafka_host \<Rightarrow> 's kafka_host \<times> bool" where
  "zookeeper_wait S 0 h = (h, False)"
| "zookeeper_wait S (Suc n) h = (case run_cmd S ruok_cmd h of (h1, _, _, rc) \<Rightarrow>
     if rc \<noteq> 0 then zookeeper_wait S n (h1\<lparr>kh_slept := kh_slept h1 + 1\<rparr>) else (h1, True))"

definition kafka_init :: "'s kafka_system \<Rightarrow> string list \<Rightarrow> 's kafka_host \<Rightarrow> 's kafka_host \<times> (pyexc + unit)" where
  "kafka_init S kafka_servers h = st_bind (validate_kafka_installation S h) (\<lambda>h1 _.
     let hosts = map server_host kafka_servers in
     if ks_hostname S \<notin> set hosts \<and> ks_address S \<notin> set hosts then (h1, Inr ())
     else case run_cmd S ''systemctl restart kafka-zookeeper'' h1 of (h2, _, _, rc) \<Rightarrow>
       if rc \<noteq> 0 then (h2, Inl TypeError)
       else (case zookeeper_wait S 101 h2 of (h3, up) \<Rightarrow> if \<not> up then (h3, Inl (SetupError 0x1100))
         else (case run_cmd S ''systemctl restart kafka'' h3 of (h4, _, _, rc4) \<Rightarrow>
           (h4, if rc4 \<noteq> 0 then Inl TypeError else Inr ()))))"

definition reset_directories :: "string list" where
  "reset_directories = [''/var/log/kafka'', ''/tmp/kafka-logs'', ''/var/log/zookeeper'', ''/var/lib/zookeeper'', ''/var/local/data/kafka'']"

text \<open>The entries of the directories are removed, the directories stay.\<close>

definition below :: "string \<Rightarrow> bool" where
  "below path \<longleftrightarrow> list_ex (\<lambda>d. starts_with path (d @ ''/'')) reset_directories"

definition kafka_reset :: "'s kafka_host \<Rightarrow> 's kafka_host" where
  "kafka_reset h = h\<lparr>kh_files := filter (\<lambda>f. \<not> below (fst f)) (kh_files h), kh_dirs := filter (\<lambda>d. \<not> below d) (kh_dirs h)\<rparr>"

definition default_server_properties :: "(string \<times> string) list" where
  "default_server_properties = [(''broker.id'', ''0''), (''log.dirs'', ''/tmp/kafka-logs''), (''log.retention.check.interval.ms'', ''300000''),
     (''zookeeper.connect'', ''localhost:2181''), (''transaction.state.log.min.isr'', ''1''), (''offsets.topic.replication.factor'', ''1''),
     (''transaction.state.log.replication.factor'', ''1'')]"

definition delete_server_properties :: "string list" where
  "delete_server_properties = [''listeners'', ''log.delete.delay.ms'', ''default.replication.factor'', ''log.flush.offset.checkpoint.interval.ms'']"

definition delete_zookeeper_properties :: "string list" where
  "delete_zookeeper_properties = [''dataLogDir'', ''tickTime'', ''initLimit'', ''syncLimit'', ''dataLogDir'', ''autopurge.snapRetainCount'',
     ''server.'', ''autopurge.purgeInterval'', ''4lw.commands.whitelist'']"

definition kafka_cleanup :: "'s kafka_host \<Rightarrow> 's kafka_host \<times> (pyexc + unit)" where
  "kafka_cleanup h =
     st_bind (on_files (update_properties_file server_properties_file default_server_properties) h) (\<lambda>h1 _.
     st_bind (on_files (delete_properties_from_file server_properties_file delete_server_properties) h1) (\<lambda>h2 _.
     st_bind (on_files (update_properties_file zookeeper_properties_file [(''clientPort'', ''2181''), (''dataDir'', ''/tmp/zookeeper'')]) h2) (\<lambda>h3 _.
       on_files (delete_properties_from_file zookeeper_properties_file delete_zookeeper_properties) h3)))"

section \<open>Editing a property file\<close>

text \<open>The key of a line: what is before its first equals sign.\<close>

definition line_key :: "string \<Rightarrow> string option" where
  "line_key l = (case split1 (CHR ''='') l of (k, Some v) \<Rightarrow> Some k | (k, None) \<Rightarrow> None)"

definition prop_line :: "string \<times> string \<Rightarrow> string" where
  "prop_line kv = fst kv @ ''='' @ snd kv"

definition clean_text :: "string \<Rightarrow> bool" where
  "clean_text s \<longleftrightarrow> NL \<notin> set s \<and> CR \<notin> set s"

definition clean_props :: "(string \<times> string) list \<Rightarrow> bool" where
  "clean_props ps \<longleftrightarrow> (\<forall>(k, v) \<in> set ps. CHR ''='' \<notin> set k \<and> clean_text k \<and> clean_text v)"

definition file_of :: "string list \<Rightarrow> string" where
  "file_of ls = concat (map (\<lambda>l. l @ [NL]) ls)"

definition set_lines :: "(string \<times> string) list \<Rightarrow> string list \<Rightarrow> string list" where
  "set_lines ps ls = map (\<lambda>l. case line_key l of None \<Rightarrow> l | Some k \<Rightarrow> (case map_of ps k of None \<Rightarrow> l | Some v \<Rightarrow> prop_line (k, v))) ls"

definition new_lines :: "(string \<times> string) list \<Rightarrow> string list \<Rightarrow> string list" where
  "new_lines ps ls = map prop_line (filter (\<lambda>kv. Some (fst kv) \<notin> line_key ` set ls) ps)"

lemma line_key_prop [simp]: "CHR ''='' \<notin> set k \<Longrightarrow> line_key (prop_line (k, v)) = Some k"
  by (simp add: line_key_def prop_line_def split1_sep)

lemma starts_key: "CHR ''='' \<notin> set k \<Longrightarrow> starts_with l (k @ ''='') \<longleftrightarrow> line_key l = Some k"
proof
  assume k: "CHR ''='' \<notin> set k" and "starts_with l (k @ ''='')"
  then have "l = prop_line (k, drop (length (k @ ''='')) l)" using append_take_drop_id [of "length (k @ ''='')" l]
    by (simp add: starts_with_def prop_line_def)
  with k show "line_key l = Some k" by (metis line_key_prop)
next
  assume "line_key l = Some k"
  then obtain c v where l: "takeWhile (\<lambda>x. x \<noteq> CHR ''='') l = k" "dropWhile (\<lambda>x. x \<noteq> CHR ''='') l = c # v"
    by (auto simp: line_key_def split1_def split: list.splits)
  then have "l = k @ c # v" using takeWhile_dropWhile_id [of "\<lambda>x. x \<noteq> CHR ''=''" l] by simp
  moreover have "c = CHR ''=''" using hd_dropWhile [of "\<lambda>x. x \<noteq> CHR ''=''" l] l(2) by simp
  ultimately show "starts_with l (k @ ''='')" by (simp add: starts_with_def)
qed

lemma line_key_nl: "line_key (l @ [NL]) = line_key l"
  by (induction l) (auto simp: line_key_def split1_Cons split: prod.splits option.splits)

lemma starts_key_nl: "CHR ''='' \<notin> set k \<Longrightarrow> starts_with (l @ [NL]) (k @ ''='') \<longleftrightarrow> line_key l = Some k"
  unfolding starts_key line_key_nl ..

lemma set_lines_Nil [simp]: "set_lines [] ls = ls"
  by (induction ls) (auto simp: set_lines_def split: option.split)

lemma readlines_file: "list_all clean_text ls \<Longrightarrow> py_readlines (file_of ls) = map (\<lambda>l. l @ [NL]) ls"
  unfolding file_of_def by (rule py_readlines_lines) (auto simp: clean_text_def list_all_iff)

lemma update_keys_lines:
  "clean_props ps \<Longrightarrow> distinct (map fst ps) \<Longrightarrow> list_all clean_text ls \<Longrightarrow>
   update_keys ps (file_of ls) = (file_of (set_lines ps ls), file_of (new_lines ps ls))"
proof (induction ps arbitrary: ls)
  case Nil
  then show ?case by (simp add: new_lines_def file_of_def)
next
  case (Cons kv ps)
  obtain k v where kv: "kv = (k, v)" by (cases kv)
  have k: "CHR ''='' \<notin> set k" "clean_text k" "clean_text v" "clean_props ps" "k \<notin> fst ` set ps" "distinct (map fst ps)"
    using Cons.prems(1,2) kv by (auto simp: clean_props_def)
  let ?u = "\<lambda>l. if line_key l = Some k then prop_line (k, v) else l"
  have u: "concat (map (update_line k v) (py_readlines (file_of ls))) = file_of (map ?u ls)"
    unfolding readlines_file [OF Cons.prems(3)]
    unfolding file_of_def map_map comp_def update_line_def starts_key_nl [OF k(1)]
    by (intro arg_cong [where f = concat] map_cong refl) (simp add: prop_line_def)
  have f: "list_ex (\<lambda>l. starts_with l (k @ ''='')) (py_readlines (file_of ls)) \<longleftrightarrow> Some k \<in> line_key ` set ls"
    unfolding readlines_file [OF Cons.prems(3)] using starts_key_nl [OF k(1)] by (auto simp: list_ex_iff image_iff eq_commute)
  have c: "list_all clean_text (map ?u ls)" using Cons.prems(3) k(2,3) by (auto simp: list_all_iff clean_text_def prop_line_def)
  have lk: "line_key (?u l) = line_key l" for l using k(1) by simp
  have img: "line_key ` set (map ?u ls) = line_key ` set ls" unfolding set_map image_image lk by simp
  have kn: "map_of ps k = None" using k(5) by (simp only: map_of_eq_None_iff not_False_eq_True)
  have s: "set_lines ps (map ?u ls) = set_lines (kv # ps) ls"
    using k(1) kn kv by (auto simp: set_lines_def split: option.splits)
  have n: "new_lines ps (map ?u ls) = new_lines ps ls" unfolding new_lines_def img by simp
  have IH: "update_keys ps (file_of (map ?u ls)) = (file_of (set_lines (kv # ps) ls), file_of (new_lines ps ls))"
    using Cons.IH [OF k(4,6) c] unfolding s n .
  have "update_keys (kv # ps) (file_of ls) = (file_of (set_lines (kv # ps) ls),
      if Some k \<in> line_key ` set ls then file_of (new_lines ps ls) else k @ ''='' @ v @ [NL] @ file_of (new_lines ps ls))"
    using IH by (simp only: kv update_keys.simps Let_def u f prod.case)
  then show ?case by (auto simp: kv new_lines_def file_of_def prop_line_def)
qed

text \<open>What a file says of a key: there is a line with the key, and every line with it has the value.\<close>

definition says :: "string list \<Rightarrow> string \<Rightarrow> string \<Rightarrow> bool" where
  "says ls k v \<longleftrightarrow> Some k \<in> line_key ` set ls \<and> (\<forall>l \<in> set ls. line_key l = Some k \<longrightarrow> l = prop_line (k, v))"

lemma updated_says:
  assumes c: "clean_props ps" and d: "distinct (map fst ps)"
  shows "map_of ps k = Some v \<Longrightarrow> says (set_lines ps ls @ new_lines ps ls) k v"
    "filter (\<lambda>l. line_key l \<notin> Some ` fst ` set ps) (set_lines ps ls @ new_lines ps ls) = filter (\<lambda>l. line_key l \<notin> Some ` fst ` set ps) ls"
proof -
  have eqs: "CHR ''='' \<notin> set k" if "k \<in> fst ` set ps" for k using c that by (auto simp: clean_props_def)
  have key: "line_key (case line_key l of None \<Rightarrow> l | Some k \<Rightarrow> (case map_of ps k of None \<Rightarrow> l | Some v \<Rightarrow> prop_line (k, v))) = line_key l" for l
    using eqs by (force split: option.splits dest: map_of_SomeD)
  have nk: "line_key l \<in> Some ` fst ` set ps" if nl: "l \<in> set (new_lines ps ls)" for l
  proof -
    obtain kv where kv: "kv \<in> set ps" "l = prop_line kv" using nl by (auto simp: new_lines_def)
    then have "line_key l = Some (fst kv)" using eqs [of "fst kv"] line_key_prop [of "fst kv" "snd kv"] by simp
    then show ?thesis using kv(1) by blast
  qed
  show "says (set_lines ps ls @ new_lines ps ls) k v" if m: "map_of ps k = Some v"
  proof -
    have k: "CHR ''='' \<notin> set k" "(k, v) \<in> set ps" using m eqs by (force dest: map_of_SomeD)+
    have "Some k \<in> line_key ` set (set_lines ps ls @ new_lines ps ls)"
    proof (cases "Some k \<in> line_key ` set ls")
      case True
      then show ?thesis unfolding set_lines_def set_append set_map image_Un image_image key by blast
    next
      case False
      then have "prop_line (k, v) \<in> set (new_lines ps ls)" using k(2) by (force simp: new_lines_def)
      then show ?thesis using line_key_prop [OF k(1), of v] by (metis UnI2 image_eqI set_append)
    qed
    moreover have "l = prop_line (k, v)" if lm: "l \<in> set (set_lines ps ls @ new_lines ps ls)" "line_key l = Some k" for l
    proof -
      consider l0 where "l0 \<in> set ls" "l = (case line_key l0 of None \<Rightarrow> l0 | Some k \<Rightarrow> (case map_of ps k of None \<Rightarrow> l0 | Some v \<Rightarrow> prop_line (k, v)))"
        | j w where "(j, w) \<in> set ps" "l = prop_line (j, w)"
        using lm(1) by (auto simp: set_lines_def new_lines_def)
      then show ?thesis
      proof cases
        case 1
        then have "line_key l0 = Some k" using lm(2) key by metis
        then show ?thesis using 1(2) m by simp
      next
        case 2
        then have "j = k" using lm(2) eqs [of j] line_key_prop [of j w] by force
        then show ?thesis using 2 m d by (auto dest: map_of_is_SomeI)
      qed
    qed
    ultimately show ?thesis by (simp add: says_def)
  qed
  have "filter (\<lambda>l. line_key l \<notin> Some ` fst ` set ps) (set_lines ps ls) = filter (\<lambda>l. line_key l \<notin> Some ` fst ` set ps) ls"
  proof (induction ls)
    case (Cons l ls)
    have "map_of ps k = None" if "Some k \<notin> Some ` fst ` set ps" for k using that by (auto simp: map_of_eq_None_iff)
    then show ?case using Cons key [of l] by (auto simp: set_lines_def split: option.splits)
  qed (simp add: set_lines_def)
  moreover have "filter (\<lambda>l. line_key l \<notin> Some ` fst ` set ps) (new_lines ps ls) = []" using nk by (auto simp: filter_empty_conv)
  ultimately show "filter (\<lambda>l. line_key l \<notin> Some ` fst ` set ps) (set_lines ps ls @ new_lines ps ls) = filter (\<lambda>l. line_key l \<notin> Some ` fst ` set ps) ls"
    by simp
qed

section \<open>The configuration of a cluster\<close>

lemma update_file_lines:
  assumes "map_of fs path = Some (file_of ls)" "list_all clean_text ls" "clean_props ps" "distinct (map fst ps)"
  shows "update_properties_file path ps fs = (AList.update path (file_of (set_lines ps ls @ new_lines ps ls)) fs, Inr ())"
  using assms(1) update_keys_lines [OF assms(3,4,2)] by (simp add: update_properties_file_def file_of_def)

lemma run_user_cmds_files: "kh_files (fst (run_user_cmds S cmds h)) = kh_files h"
  by (induction cmds arbitrary: h) (auto simp: run_cmd_def split: prod.splits)

lemma validate_files: "kh_files (fst (validate_kafka_installation S h)) = kh_files h"
  by (auto simp: validate_kafka_installation_def validate_rpm_pkgs_def execute_cmd_def run_user_cmds_files st_bind_def
      split: prod.splits sum.splits proc_outcome.splits if_splits dest: arg_cong [where f = fst])

lemma create_dirs_files: "kh_files (fold (create_dir_owned S) ds h) = kh_files h"
  by (induction ds arbitrary: h) (simp_all add: create_dir_owned_def)

definition server_key :: "nat \<Rightarrow> string" where
  "server_key j = ''server.'' @ show_nat (j + 1)"

lemma server_key_inj [simp]: "server_key i = server_key j \<longleftrightarrow> i = j"
  by (auto simp: server_key_def simp del: show_nat.simps)

lemma each_host_absent:
  "hostname \<notin> set hosts \<Longrightarrow> \<exists>zp'. each_host hostname cl i hosts (sp, zp, fs) = (sp, zp', fs)"
  by (induction hosts arbitrary: i zp) (auto simp: Let_def)

lemma each_host_own:
  "distinct hosts \<Longrightarrow> m < length hosts \<Longrightarrow> hosts ! m = hostname \<Longrightarrow> \<exists>zp'. each_host hostname cl i hosts (sp, zp, fs) =
     (AList.update ''broker.id'' (show_nat (i + m)) sp, zp', if cl then AList.update myid_file (show_nat (i + m + 1)) fs else fs)"
proof (induction hosts arbitrary: i zp m)
  case (Cons host hosts)
  show ?case
  proof (cases m)
    case 0
    then have "hostname \<notin> set hosts" using Cons.prems by auto
    then show ?thesis using 0 Cons.prems(3) each_host_absent [of hostname hosts cl "i + 1"] by (cases cl) (simp_all add: Let_def del: show_nat.simps)
  next
    case (Suc n)
    then have "host \<noteq> hostname" using Cons.prems by auto
    then show ?thesis using Suc Cons.prems Cons.IH [of n "i + 1"] by (cases cl) (simp_all add: Let_def del: show_nat.simps)
  qed
qed simp

lemma each_host_servers:
  "each_host hostname cl i hosts (sp, zp, fs) = (sp', zp', fs') \<Longrightarrow> distinct (map fst zp) \<Longrightarrow> distinct (map fst zp')
     \<and> (\<forall>j < length hosts. map_of zp' (server_key (i + j)) = Some (hosts ! j @ '':2888:3888''))
     \<and> (\<forall>k. (\<forall>j < length hosts. k \<noteq> server_key (i + j)) \<longrightarrow> map_of zp' k = map_of zp k)"
proof (induction hosts arbitrary: i sp zp fs)
  case (Cons host hosts)
  let ?zp = "AList.update (server_key i) (host @ '':2888:3888'') zp"
  obtain sp1 fs1 where e: "each_host hostname cl (i + 1) hosts (sp1, ?zp, fs1) = (sp', zp', fs')"
    using Cons.prems(1) by (auto simp: Let_def server_key_def split: if_splits)
  have d: "distinct (map fst ?zp)" using Cons.prems(2) by (rule AList.distinct_update)
  note IH = Cons.IH [OF e d]
  have "map_of zp' (server_key i) = map_of ?zp (server_key i)" using IH by simp
  then have "map_of zp' (server_key i) = Some (host @ '':2888:3888'')" by (simp add: update_conv')
  then have "\<forall>j < length (host # hosts). map_of zp' (server_key (i + j)) = Some ((host # hosts) ! j @ '':2888:3888'')"
    using IH by (auto simp: less_Suc_eq_0_disj simp del: map_of_eq_Some_iff)
  moreover have "map_of zp' k = map_of zp k" if "\<forall>j < length (host # hosts). k \<noteq> server_key (i + j)" for k
  proof -
    have "k \<noteq> server_key i" "\<forall>j < length hosts. k \<noteq> server_key (i + 1 + j)" using that by (force, fastforce)
    then show ?thesis using IH by (simp add: update_conv')
  qed
  ultimately show ?case using IH by blast
qed simp

lemma clean_digits: "CHR ''='' \<notin> set (show_nat n) \<and> clean_text (show_nat n)"
proof -
  have "\<not> is_digit (CHR ''='')" "\<not> is_digit NL" "\<not> is_digit CR" by code_simp+
  then show ?thesis using show_nat_digits [of n] by (auto simp: clean_text_def)
qed

lemma clean_append [simp]: "clean_text (s @ t) \<longleftrightarrow> clean_text s \<and> clean_text t"
  by (auto simp: clean_text_def)

lemma clean_update: "clean_props ps \<Longrightarrow> CHR ''='' \<notin> set k \<Longrightarrow> clean_text k \<Longrightarrow> clean_text v \<Longrightarrow> clean_props (AList.update k v ps)"
proof -
  have "set (AList.update k v ps) \<subseteq> insert (k, v) (set ps)" by (induction ps) auto
  then show "clean_props ps \<Longrightarrow> CHR ''='' \<notin> set k \<Longrightarrow> clean_text k \<Longrightarrow> clean_text v \<Longrightarrow> ?thesis"
    unfolding clean_props_def by blast
qed

lemma each_host_clean:
  "each_host hostname cl i hosts (sp, zp, fs) = (sp', zp', fs') \<Longrightarrow> list_all clean_text hosts \<Longrightarrow> clean_props zp \<Longrightarrow> clean_props zp'"
proof (induction hosts arbitrary: i sp zp fs)
  case (Cons host hosts)
  have "clean_text ''server.''" "clean_text '':2888:3888''" "CHR ''='' \<notin> set ''server.''" by code_simp+
  then have "clean_props (AList.update (''server.'' @ show_nat (i + 1)) (host @ '':2888:3888'') zp)"
    using Cons.prems(2,3) clean_digits [of "i + 1"] by (intro clean_update) (simp_all only: clean_append set_append Un_iff list.pred_inject simp_thms)
  then show ?case using Cons.prems Cons.IH by (auto simp: Let_def split: if_splits)
qed simp

lemma clean_join: "clean_text sep \<Longrightarrow> list_all clean_text xs \<Longrightarrow> clean_text (py_join sep xs)"
  by (induction sep xs rule: py_join.induct) (auto simp: clean_text_def)

lemma base_props:
  assumes "list_all clean_text hosts" "clean_text hostname" "clean_text port"
  shows "clean_props (base_server_properties hostname port hosts)" "distinct (map fst (base_server_properties hostname port hosts))"
    "clean_props base_zookeeper_properties" "distinct (map fst base_zookeeper_properties)"
proof -
  have j: "clean_text (py_join '', '' (map (\<lambda>host. host @ '':2181'') hosts))"
    using assms(1) by (intro clean_join) (auto simp: list_all_iff clean_text_def)
  show "clean_props (base_server_properties hostname port hosts)"
    using j assms(2,3) by (auto simp: base_server_properties_def clean_props_def clean_text_def)
  show "distinct (map fst (base_server_properties hostname port hosts))"
    by (cases "1 < length hosts") (simp_all add: base_server_properties_def)
  show "clean_props base_zookeeper_properties" "distinct (map fst base_zookeeper_properties)" by code_simp+
qed

lemma set_config_files:
  assumes files: "map_of (kh_files h) server_properties_file = Some (file_of sl)" "map_of (kh_files h) zookeeper_properties_file = Some (file_of zl)"
    and clean: "list_all clean_text sl" "list_all clean_text zl" "list_all clean_text (map server_host servers)" "clean_text port"
    and own: "distinct (map server_host servers)" "m < length servers" "server_host (servers ! m) = hostname"
  shows "\<exists>h' sl' zl'. set_kafka_config S hostname port servers h = (h', Inr ())
    \<and> map_of (kh_files h') server_properties_file = Some (file_of sl') \<and> says sl' ''broker.id'' (show_nat m)
    \<and> map_of (kh_files h') zookeeper_properties_file = Some (file_of zl')
    \<and> (\<forall>j < length servers. says zl' (server_key j) (server_host (servers ! j) @ '':2888:3888''))
    \<and> (1 < length servers \<longrightarrow> map_of (kh_files h') myid_file = Some (show_nat (m + 1)))"
proof -
  let ?hosts = "map server_host servers" and ?cl = "1 < length servers"
  let ?sp = "base_server_properties hostname port ?hosts"
  let ?sp1 = "AList.update ''broker.id'' (show_nat m) ?sp"
  define h1 where "h1 = fold (create_dir_owned S) kafka_directories h"
  define fs1 where "fs1 = (if ?cl then AList.update myid_file (show_nat (m + 1)) (kh_files h1) else kh_files h1)"
  have hf: "kh_files h1 = kh_files h" by (simp add: h1_def create_dirs_files)
  have hn: "clean_text hostname" using clean(3) own(2,3) by (auto simp: list_all_iff)
  note base = base_props [OF clean(3) hn clean(4)]
  obtain zp where e: "each_host hostname ?cl 0 ?hosts (?sp, base_zookeeper_properties, kh_files h1) = (?sp1, zp, fs1)"
  proof -
    have "m < length ?hosts" "?hosts ! m = hostname" using own(2,3) by simp_all
    from each_host_own [OF own(1) this, of ?cl 0 ?sp base_zookeeper_properties "kh_files h1"] that show thesis
      unfolding fs1_def add_0 by blast
  qed
  note zp = each_host_servers [OF e base(4)] each_host_clean [OF e clean(3) base(3)]
  have "CHR ''='' \<notin> set ''broker.id''" "clean_text ''broker.id''" by code_simp+
  then have sp: "clean_props ?sp1" "distinct (map fst ?sp1)"
    using clean_digits [of m] base(1,2) by (auto intro!: clean_update AList.distinct_update simp del: show_nat.simps)
  have ne: "myid_file \<noteq> server_properties_file" "myid_file \<noteq> zookeeper_properties_file" "server_properties_file \<noteq> zookeeper_properties_file"
    by (simp_all add: myid_file_def server_properties_file_def zookeeper_properties_file_def)
  have f1: "map_of fs1 server_properties_file = Some (file_of sl)" "map_of fs1 zookeeper_properties_file = Some (file_of zl)"
    using files ne by (auto simp: fs1_def hf update_conv')
  let ?sl = "set_lines ?sp1 sl @ new_lines ?sp1 sl" and ?zl = "set_lines zp zl @ new_lines zp zl"
  let ?fs2 = "AList.update server_properties_file (file_of ?sl) fs1"
  have u1: "update_properties_file server_properties_file ?sp1 fs1 = (?fs2, Inr ())"
    by (rule update_file_lines [OF f1(1) clean(1) sp])
  have "map_of ?fs2 zookeeper_properties_file = Some (file_of zl)" using f1(2) ne(3) by (simp add: update_conv')
  then have u2: "update_properties_file zookeeper_properties_file zp ?fs2 = (AList.update zookeeper_properties_file (file_of ?zl) ?fs2, Inr ())"
    using zp by (intro update_file_lines clean(2)) auto
  let ?h = "h1\<lparr>kh_files := AList.update zookeeper_properties_file (file_of ?zl) ?fs2\<rparr>"
  have r: "set_kafka_config S hostname port servers h = (?h, Inr ())"
    using e u1 u2 by (simp add: set_kafka_config_def h1_def [symmetric] on_files_def Let_def)
  have "says ?sl ''broker.id'' (show_nat m)" by (rule updated_says(1) [OF sp]) (simp add: update_conv')
  moreover have "says ?zl (server_key j) (server_host (servers ! j) @ '':2888:3888'')" if "j < length servers" for j
    using zp that by (intro updated_says(1)) auto
  moreover have "map_of (kh_files ?h) server_properties_file = Some (file_of ?sl)" "map_of (kh_files ?h) zookeeper_properties_file = Some (file_of ?zl)"
    "?cl \<longrightarrow> map_of (kh_files ?h) myid_file = Some (show_nat (m + 1))"
    using ne by (auto simp: update_conv' fs1_def simp del: show_nat.simps)
  ultimately show ?thesis using r by blast
qed

lemma for_each_skip: "\<forall>x \<in> set xs. \<forall>s. f s x = (s, Inr ()) \<Longrightarrow> for_each f s xs = (s, Inr ())"
  by (induction xs) auto

lemma for_each_one:
  assumes "distinct xs" "x \<in> set xs" "\<forall>y \<in> set xs. y \<noteq> x \<longrightarrow> (\<forall>s. f s y = (s, Inr ()))" "f s x = (s', Inr ())"
  shows "for_each f s xs = (s', Inr ())"
  using assms
proof (induction xs)
  case (Cons y ys)
  show ?case
  proof (cases "y = x")
    case True
    then have "for_each f s' ys = (s', Inr ())" using Cons.prems by (intro for_each_skip) auto
    then show ?thesis using True Cons.prems(4) by simp
  next
    case False
    then show ?thesis using Cons by simp
  qed
qed simp

text \<open>Claim C40. Configuring a host of a cluster writes into its files what every host of the cluster
  writes: for each server, by its place in the list, a line of zookeeper with its name, and every
  line with that key says so; the number of its own broker is its place in the list, and in a
  cluster the file myid has the same place, counted from one.\<close>

theorem kafka_config_agrees:
  assumes valid: "validate_kafka_installation S h = (h1, Inr ())"
    and files: "map_of (kh_files h) server_properties_file = Some (file_of sl)" "map_of (kh_files h) zookeeper_properties_file = Some (file_of zl)"
      "list_all clean_text sl" "list_all clean_text zl"
    and servers: "\<forall>s \<in> set servers. \<exists>port. host_port s = Inr (server_host s, port) \<and> clean_text s" "distinct (map server_host servers)"
    and own: "m < length servers" "\<forall>s \<in> set servers. (server_host s = ks_hostname S \<or> server_host s = ks_address S) \<longleftrightarrow> s = servers ! m"
  shows "\<exists>h' sl' zl'. kafka_config S servers h = (h', Inr ())
    \<and> map_of (kh_files h') server_properties_file = Some (file_of sl') \<and> says sl' ''broker.id'' (show_nat m)
    \<and> map_of (kh_files h') zookeeper_properties_file = Some (file_of zl')
    \<and> (\<forall>j < length servers. says zl' (server_key j) (server_host (servers ! j) @ '':2888:3888''))
    \<and> (1 < length servers \<longrightarrow> map_of (kh_files h') myid_file = Some (show_nat (m + 1)))"
proof -
  let ?s = "servers ! m"
  have s: "?s \<in> set servers" using own(1) by simp
  then obtain port where port: "host_port ?s = Inr (server_host ?s, port)" "clean_text ?s" using servers(1) by blast
  have parts: "set p \<subseteq> set t" if "p \<in> set (py_split c t)" for p c t using set_py_split that by blast
  have hd: "hd (py_split c t) \<in> set (py_split c t)" for c t by (intro hd_in_set) simp
  have hosts: "list_all clean_text (map server_host servers)"
    using servers(1) parts [OF hd] unfolding clean_text_def server_host_def by (fastforce simp: list_all_iff)
  have cp: "clean_text port"
  proof (cases "CHR '':'' \<in> set ?s")
    case True
    then have "port \<in> set (py_split (CHR '':'') ?s)" using port(1) by (auto simp: host_port_def split: list.splits)
    then show ?thesis using parts port(2) by (auto simp: clean_text_def)
  next
    case False
    have "clean_text ''9092''" by code_simp
    with False show ?thesis using port(1) by (simp add: host_port_def)
  qed
  have f1: "kh_files h1 = kh_files h" using validate_files [of S h] valid by simp
  obtain h' sl' zl' where c: "set_kafka_config S (server_host ?s) port servers h1 = (h', Inr ())"
    "map_of (kh_files h') server_properties_file = Some (file_of sl') \<and> says sl' ''broker.id'' (show_nat m)
    \<and> map_of (kh_files h') zookeeper_properties_file = Some (file_of zl')
    \<and> (\<forall>j < length servers. says zl' (server_key j) (server_host (servers ! j) @ '':2888:3888''))
    \<and> (1 < length servers \<longrightarrow> map_of (kh_files h') myid_file = Some (show_nat (m + 1)))"
    using set_config_files [OF files(1,2) [folded f1] files(3,4) hosts cp servers(2) own(1) refl] by blast
  have "config_server S servers h ?s = (h', Inr ())" using port(1) s own(2) valid c(1) by (simp add: config_server_def)
  moreover have "config_server S servers k y = (k, Inr ())" if "y \<in> set servers" "y \<noteq> ?s" for y k
    using servers(1) own(2) that by (fastforce simp: config_server_def)
  ultimately have "kafka_config S servers h = (h', Inr ())"
    using servers(2) s by (auto simp: kafka_config_def distinct_map intro!: for_each_one [where x = ?s])
  with c(2) show ?thesis by blast
qed

definition two_servers :: "string list" where
  "two_servers = [''a:9092'', ''b'']"

definition quiet_system :: "unit kafka_system" where
  "quiet_system = \<lparr>ks_exec = (\<lambda>cmd s. (s, Completed ''kafka-2.13-1'' [] 0)), ks_user = (\<lambda>s. Some 5), ks_group = (\<lambda>s. Some 5),
     ks_hostname = ''b'', ks_address = ''10.0.0.2''\<rparr>"

definition fresh_host :: "unit kafka_host" where
  "fresh_host = \<lparr>kh_sys = (), kh_files = [(server_properties_file, file_of [''# ids'', ''broker.id=0'']), (zookeeper_properties_file, file_of [''dataDir=/tmp''])],
     kh_dirs = [], kh_slept = 0\<rparr>"

theorem kafka_config_agrees_witness:
  "\<exists>h' sl' zl'. kafka_config quiet_system two_servers fresh_host = (h', Inr ())
    \<and> map_of (kh_files h') server_properties_file = Some (file_of sl') \<and> says sl' ''broker.id'' ''1''
    \<and> map_of (kh_files h') zookeeper_properties_file = Some (file_of zl') \<and> says zl' ''server.1'' ''a:2888:3888''
    \<and> says zl' ''server.2'' ''b:2888:3888'' \<and> map_of (kh_files h') myid_file = Some ''2''"
proof -
  have "str_in ''kafka'' ''kafka-2.13-1''" by code_simp
  then have v: "validate_kafka_installation quiet_system fresh_host = (fresh_host, Inr ())"
    by (simp add: validate_kafka_installation_def validate_rpm_pkgs_def execute_cmd_def quiet_system_def)
  have f: "map_of (kh_files fresh_host) server_properties_file = Some (file_of [''# ids'', ''broker.id=0''])"
    "map_of (kh_files fresh_host) zookeeper_properties_file = Some (file_of [''dataDir=/tmp''])"
    by (simp_all add: fresh_host_def server_properties_file_def zookeeper_properties_file_def)
  have c: "list_all clean_text [''# ids'', ''broker.id=0'']" "list_all clean_text [''dataDir=/tmp'']" by code_simp+
  have a: "host_port ''a:9092'' = Inr (''a'', ''9092'')" "host_port ''b'' = Inr (''b'', ''9092'')" "clean_text ''a:9092''" "clean_text ''b''"
    "server_host ''a:9092'' = ''a''" "server_host ''b'' = ''b''" by code_simp+
  have s: "\<forall>s \<in> set two_servers. \<exists>port. host_port s = Inr (server_host s, port) \<and> clean_text s" "distinct (map server_host two_servers)"
    "1 < length two_servers" by (simp_all add: two_servers_def a)
  have o: "\<forall>s \<in> set two_servers. (server_host s = ks_hostname quiet_system \<or> server_host s = ks_address quiet_system) \<longleftrightarrow> s = two_servers ! 1"
    by (simp add: two_servers_def a quiet_system_def)
  have t: "show_nat 1 = ''1''" "show_nat (1 + 1) = ''2''" "server_key 0 = ''server.1''" "server_key 1 = ''server.2''" by code_simp+
  obtain h' sl' zl' where r: "kafka_config quiet_system two_servers fresh_host = (h', Inr ())"
    "map_of (kh_files h') server_properties_file = Some (file_of sl')" "says sl' ''broker.id'' (show_nat 1)"
    "map_of (kh_files h') zookeeper_properties_file = Some (file_of zl')"
    "\<forall>j < length two_servers. says zl' (server_key j) (server_host (two_servers ! j) @ '':2888:3888'')"
    "1 < length two_servers \<longrightarrow> map_of (kh_files h') myid_file = Some (show_nat (1 + 1))"
    using kafka_config_agrees [OF v f c s o] by blast
  have "says zl' ''server.1'' ''a:2888:3888''" "says zl' ''server.2'' ''b:2888:3888''"
    using r(5) [rule_format, of 0] r(5) [rule_format, of 1] s(3) unfolding t by (simp_all add: two_servers_def a)
  then show ?thesis using r(1-4,6) s(3) unfolding t by blast
qed

section \<open>What the edits do not do\<close>

text \<open>A new key is glued to a last line that has no newline; a deleted line leaves an empty one; the
  lines of other servers stay.\<close>

lemma new_key_glued: "update_properties_file ''p'' [(''b'', ''2'')] [(''p'', ''a=1'')] = ([(''p'', ''a=1b=2'' @ [NL])], Inr ())"
  by code_simp

lemma deleted_line_empty: "delete_keys [''a''] (file_of [''x=0'', ''a=1'', ''y=2'']) = file_of [''x=0'', [], ''y=2'']"
  by code_simp

lemma old_lines_stay:
  assumes "clean_props ps" "distinct (map fst ps)" "l \<in> set ls" "line_key l \<notin> Some ` fst ` set ps"
  shows "l \<in> set (set_lines ps ls @ new_lines ps ls)"
proof -
  have "l \<in> set (filter (\<lambda>l. line_key l \<notin> Some ` fst ` set ps) ls)" using assms(3,4) by simp
  then have "l \<in> set (filter (\<lambda>l. line_key l \<notin> Some ` fst ` set ps) (set_lines ps ls @ new_lines ps ls))"
    unfolding updated_says(2) [OF assms(1,2)] .
  then show ?thesis unfolding set_filter by blast
qed

text \<open>The wait for zookeeper ends after at most as many seconds as attempts.\<close>

lemma zookeeper_wait_ends: "zookeeper_wait S n h = (h', up) \<Longrightarrow> kh_slept h' \<le> kh_slept h + n \<and> (up \<or> kh_slept h' = kh_slept h + n)"
proof (induction n arbitrary: h)
  case (Suc n)
  obtain h1 out err rc where r: "run_cmd S ruok_cmd h = (h1, out, err, rc)" by (cases "run_cmd S ruok_cmd h") auto
  then have "kh_slept h1 = kh_slept h" by (auto simp: run_cmd_def split: prod.splits)
  with Suc.prems r Suc.IH [of "h1\<lparr>kh_slept := kh_slept h1 + 1\<rparr>"] show ?case by (auto split: if_splits)
qed simp

end
