(* ===== verification/PyDouble.thy ===== *)
theory PyDouble
  imports PyFloat PyOps
begin

text \<open>
  Arithmetic on floats as the processor does it: the result of an operation is the double
  nearest to the exact result, and a double is shown by the shortest decimal number that is
  read as this double. As everywhere in the development a float is the decimal number
  that it prints; overflow to infinity is not modelled.
\<close>

section \<open>The nearest double\<close>

text \<open>The length of a number in binary, and the greatest \<open>e\<close> with \<open>2 ^ e \<le> r\<close>.\<close>

function bit_len :: "int \<Rightarrow> int" where
  "bit_len n = (if n \<le> 0 then 0 else 1 + bit_len (n div 2))"
  by pat_completeness auto
termination by (relation "measure nat") auto

declare bit_len.simps [simp del]

definition pow2 :: "int \<Rightarrow> rat" where
  "pow2 e = (if e < 0 then 1 / 2 ^ nat (- e) else 2 ^ nat e)"

definition log2_floor :: "rat \<Rightarrow> int" where
  "log2_floor r = (case quotient_of r of (n, d) \<Rightarrow> let l = bit_len n - bit_len d in if pow2 l \<le> r then l else l - 1)"

definition round_even :: "rat \<Rightarrow> int" where
  "round_even r = (let n = \<lfloor>r\<rfloor>; f = r - of_int n in
     if f < 1 / 2 \<or> (f = 1 / 2 \<and> n mod 2 = 0) then n else n + 1)"

text \<open>53 bits, and no bit below \<open>2 ^ -1074\<close>.\<close>

definition to_double :: "rat \<Rightarrow> rat" where
  "to_double r = (if r = 0 then 0 else let a = \<bar>r\<bar>; u = pow2 (max (- 1074) (log2_floor a - 52)) in
     (if r < 0 then - 1 else 1) * of_int (round_even (a / u)) * u)"

section \<open>The shortest decimal number\<close>

text \<open>The greatest \<open>k\<close> with \<open>10 ^ k \<le> r\<close>, from a start that is too small by \<open>n\<close> at most.\<close>

fun log10_from :: "nat \<Rightarrow> int \<Rightarrow> rat \<Rightarrow> int" where
  "log10_from 0 k r = k"
| "log10_from (Suc n) k r = (if pow10 (k + 1) \<le> r then log10_from n (k + 1) r else k)"

definition log10_floor :: "rat \<Rightarrow> int" where
  "log10_floor r = (let s = (if r < 1 then - 324 else 0) in log10_from 633 s r)"

fun shortest_from :: "nat \<Rightarrow> int \<Rightarrow> rat \<Rightarrow> rat" where
  "shortest_from 0 k x = x"
| "shortest_from (Suc n) k x = (let u = pow10 k; lo = of_int \<lfloor>x / u\<rfloor> * u; hi = lo + u;
       a = (if x - lo \<le> hi - x then lo else hi); b = (if x - lo \<le> hi - x then hi else lo) in
     if to_double a = x then a else if to_double b = x then b else shortest_from n (k - 1) x)"

definition shortest :: "rat \<Rightarrow> rat" where
  "shortest x = (if x = 0 then 0 else let a = \<bar>x\<bar> in
     (if x < 0 then - 1 else 1) * shortest_from 17 (log10_floor a) a)"

section \<open>Operations\<close>

text \<open>\<open>int(a * b)\<close> for a float and an int, and \<open>a / b\<close> for two ints, with \<open>b\<close> not zero.\<close>

definition int_of_product :: "rat \<Rightarrow> int \<Rightarrow> int" where
  "int_of_product a b = (let p = to_double (to_double a * to_double (of_int b)) in
     if p < 0 then - \<lfloor>- p\<rfloor> else \<lfloor>p\<rfloor>)"

definition int_div :: "int \<Rightarrow> int \<Rightarrow> rat" where
  "int_div a b = shortest (to_double (of_int a / of_int b))"

end
