(* ===== verification/SupportBundle.thy ===== *)
theory SupportBundle
  imports ConfCli SchemaDoc Effects PyDouble
begin

text \<open>
  The support bundle of a node: src/py-utils/src/utils/support_framework/support_bundle.py and
  bundle_generate.py, and the checks of the command line src/py-utils/src/support/cortx_support_bundle.py.

  The world of these operations is the class Conf of the process with the files that its
  stores keep, and the directories. Paths are texts, two different texts are
  different places. The commands of the components, tar archives, the clock and the numbers of psutil
  come from an environment \<open>sb_env\<close>. Logging is left out, with the directory of the log.
\<close>

section \<open>Files and directories\<close>

record disk =
  dk_files :: file_system
  dk_dirs :: "string \<Rightarrow> bool"

abbreviation EEXIST :: int where "EEXIST \<equiv> 17"
abbreviation ENOTDIR :: int where "ENOTDIR \<equiv> 20"
abbreviation EISDIR :: int where "EISDIR \<equiv> 21"

definition under_dir :: "string \<Rightarrow> string \<Rightarrow> bool" where
  "under_dir p dir = starts_with p (dir @ ''/'')"

definition path_exists :: "disk \<Rightarrow> string \<Rightarrow> bool" where
  "path_exists d p \<longleftrightarrow> dk_files d p \<noteq> None \<or> dk_dirs d p"

text \<open>\<open>os.path.join\<close>, \<open>os.path.dirname\<close> and the directories above a path.\<close>

definition os_join :: "string \<Rightarrow> string \<Rightarrow> string" where
  "os_join a b = (if starts_with b ''/'' then b else if a = [] \<or> last a = CHR ''/'' then a @ b else a @ ''/'' @ b)"

definition os_dirname :: "string \<Rightarrow> string" where
  "os_dirname p = (let h = rev (dropWhile (\<lambda>c. c \<noteq> CHR ''/'') (rev p)); s = rev (dropWhile (\<lambda>c. c = CHR ''/'') (rev h)) in
     if s = [] then h else s)"

fun dirs_above :: "string \<Rightarrow> string \<Rightarrow> string list" where
  "dirs_above acc [] = []"
| "dirs_above acc (c # s) = (if c = CHR ''/'' \<and> acc \<noteq> [] then [acc] else []) @ dirs_above (acc @ [c]) s"

definition os_makedirs :: "disk \<Rightarrow> string \<Rightarrow> bool \<Rightarrow> disk \<times> (pyexc + unit)" where
  "os_makedirs d p exist_ok =
     (if dk_dirs d p then (d, if exist_ok then Inr () else Inl (OSError EEXIST))
      else if dk_files d p \<noteq> None then (d, Inl (OSError EEXIST))
      else if list_ex (\<lambda>q. dk_files d q \<noteq> None) (dirs_above [] p) then (d, Inl (OSError ENOTDIR))
      else (d\<lparr>dk_dirs := \<lambda>q. dk_dirs d q \<or> q = p \<or> q \<in> set (dirs_above [] p)\<rparr>, Inr ()))"

text \<open>\<open>open(p, 'w')\<close> and writing, \<open>open(p, 'r')\<close> and reading.\<close>

definition disk_write :: "disk \<Rightarrow> string \<Rightarrow> string \<Rightarrow> disk \<times> (pyexc + unit)" where
  "disk_write d p t = (let dir = os_dirname p in
     if dk_dirs d p then (d, Inl (OSError EISDIR))
     else if dir \<noteq> [] \<and> dk_files d dir \<noteq> None then (d, Inl (OSError ENOTDIR))
     else if dir \<noteq> [] \<and> \<not> dk_dirs d dir then (d, Inl (OSError ENOENT))
     else (d\<lparr>dk_files := (dk_files d)(p \<mapsto> t)\<rparr>, Inr ()))"

definition disk_read :: "disk \<Rightarrow> string \<Rightarrow> pyexc + string" where
  "disk_read d p = (case dk_files d p of
      Some t \<Rightarrow> Inr t
    | None \<Rightarrow> Inl (OSError (if dk_dirs d p then EISDIR else ENOENT)))"

text \<open>shutil: \<open>rmtree\<close>, \<open>copytree\<close> without the names of a pattern, \<open>copyfile\<close> and \<open>move\<close>.\<close>

definition disk_rmtree :: "disk \<Rightarrow> string \<Rightarrow> disk \<times> (pyexc + unit)" where
  "disk_rmtree d p = (if dk_dirs d p then
       (\<lparr>dk_files = \<lambda>q. if under_dir q p then None else dk_files d q,
         dk_dirs = \<lambda>q. dk_dirs d q \<and> q \<noteq> p \<and> \<not> under_dir q p\<rparr>, Inr ())
     else (d, Inl (OSError (if dk_files d p \<noteq> None then ENOTDIR else ENOENT))))"

definition copied_from :: "string \<Rightarrow> string \<Rightarrow> string \<Rightarrow> string \<Rightarrow> string option" where
  "copied_from src dst ignored q = (if q = dst then Some src
     else if under_dir q dst \<and> ignored \<notin> set (py_split (CHR ''/'') (drop (length dst + 1) q))
     then Some (src @ drop (length dst) q) else None)"

definition disk_copytree :: "disk \<Rightarrow> string \<Rightarrow> string \<Rightarrow> string \<Rightarrow> disk \<times> (pyexc + unit)" where
  "disk_copytree d src dst ignored =
     (if \<not> dk_dirs d src then (d, Inl (OSError (if dk_files d src \<noteq> None then ENOTDIR else ENOENT)))
      else st_bind (os_makedirs d dst False) (\<lambda>d1 _.
        (\<lparr>dk_files = \<lambda>q. case copied_from src dst ignored q of Some p \<Rightarrow> dk_files d p | None \<Rightarrow> dk_files d1 q,
          dk_dirs = \<lambda>q. dk_dirs d1 q \<or> (case copied_from src dst ignored q of Some p \<Rightarrow> dk_dirs d p | None \<Rightarrow> False)\<rparr>,
         Inr ())))"

definition disk_copyfile :: "disk \<Rightarrow> string \<Rightarrow> string \<Rightarrow> disk \<times> (pyexc + unit)" where
  "disk_copyfile d src dst = (case disk_read d src of Inl e \<Rightarrow> (d, Inl e) | Inr t \<Rightarrow> disk_write d dst t)"

definition disk_move :: "disk \<Rightarrow> string \<Rightarrow> string \<Rightarrow> disk \<times> (pyexc + unit)" where
  "disk_move d src dst = (let to = (if dk_dirs d dst then os_join dst (last (py_split (CHR ''/'') src)) else dst) in
     if dk_dirs d dst \<and> path_exists d to then (d, Inl (PyException ''Error''))
     else if to = src \<and> dk_files d src \<noteq> None then (d, Inr ())
     else case disk_read d src of
       Inl e \<Rightarrow> (d, Inl e)
     | Inr t \<Rightarrow> st_bind (disk_write d to t) (\<lambda>d1 _. (d1\<lparr>dk_files := (dk_files d1)(src := None)\<rparr>, Inr ())))"

text \<open>\<open>dump\<close> of a document of schema/payload.py: the directory of the path is made, and the
  file keeps what its format wrote before it raised.\<close>

definition disk_dump :: "disk \<Rightarrow> string \<Rightarrow> string \<times> pyexc option \<Rightarrow> disk \<times> (pyexc + unit)" where
  "disk_dump d p r = st_bind
     (if os_dirname p \<noteq> [] \<and> \<not> path_exists d (os_dirname p) then os_makedirs d (os_dirname p) False else (d, Inr ()))
     (\<lambda>d1 _. st_bind (disk_write d1 p (fst r)) (\<lambda>d2 _. (d2, case snd r of None \<Rightarrow> Inr () | Some e \<Rightarrow> Inl e)))"

section \<open>The world\<close>

record sb_world =
  sw_conf :: "(kv_world, string, kv_payload) conf_class"
  sw_dirs :: "string \<Rightarrow> bool"

definition put_files :: "(kv_world, string, kv_payload) conf_class \<Rightarrow> file_system \<Rightarrow> (kv_world, string, kv_payload) conf_class" where
  "put_files cf fs = (case cf_conf cf of
      None \<Rightarrow> cf\<lparr>cf_back := (cf_back cf)\<lparr>fa_world := fs\<rparr>\<rparr>
    | Some cs \<Rightarrow> cf\<lparr>cf_conf := Some (cs\<lparr>cs_back := (cs_back cs)\<lparr>fa_world := fs\<rparr>\<rparr>)\<rparr>)"

definition disk_of :: "sb_world \<Rightarrow> disk" where
  "disk_of w = \<lparr>dk_files = files_now (sw_conf w), dk_dirs = sw_dirs w\<rparr>"

definition put_disk :: "sb_world \<Rightarrow> disk \<Rightarrow> sb_world" where
  "put_disk w d = \<lparr>sw_conf = put_files (sw_conf w) (dk_files d), sw_dirs = dk_dirs d\<rparr>"

definition on_disk :: "sb_world \<Rightarrow> (disk \<Rightarrow> disk \<times> (pyexc + 'a)) \<Rightarrow> sb_world \<times> (pyexc + 'a)" where
  "on_disk w f = (case f (disk_of w) of (d, r) \<Rightarrow> (put_disk w d, r))"

definition on_cf :: "sb_world \<Rightarrow> ((kv_world, string, kv_payload) conf_class \<Rightarrow>
    (kv_world, string, kv_payload) conf_class \<times> (pyexc + 'a)) \<Rightarrow> sb_world \<times> (pyexc + 'a)" where
  "on_cf w f = (case f (sw_conf w) of (cf, r) \<Rightarrow> (w\<lparr>sw_conf := cf\<rparr>, r))"

text \<open>The environment: what a command does to the disk with its return code, what
  \<open>tarfile\<close> writes for a list of paths with their names in the archive, the codecs of yaml, the time in
  its two formats, the text of an exception, and the numbers of the node.\<close>

record disk_usage =
  du_mount :: string
  du_total :: int
  du_used :: int
  du_free :: int
  du_percent :: pyval

record sb_env =
  se_run :: "string \<Rightarrow> disk \<Rightarrow> disk \<times> int"
  se_tar :: "disk \<Rightarrow> (string \<times> string) list \<Rightarrow> string \<times> pyexc option"
  se_codecs :: codecs
  se_now :: string
  se_iso :: string
  se_clock :: string
  se_exc_text :: "pyexc \<Rightarrow> string"
  se_cpu :: pyval
  se_uptime :: string
  se_load :: "pyval \<times> pyval \<times> pyval"
  se_users :: nat
  se_disks :: "disk_usage list"
  se_memory :: "(string \<times> pyval) list"

section \<open>The health of the node\<close>

text \<open>\<open>s.replace(old, new)\<close>.\<close>

definition py_replace :: "string \<Rightarrow> string \<Rightarrow> string \<Rightarrow> string" where
  "py_replace old new s = (if old = [] then concat (map (\<lambda>c. new @ [c]) s) @ new else py_join new (split_str old s))"

definition get_cpu_overall_usage :: "sb_env \<Rightarrow> pyval" where
  "get_cpu_overall_usage env = PStr (py_str (se_cpu env) @ '' %'')"

definition get_system_uptime :: "sb_env \<Rightarrow> pyval" where
  "get_system_uptime env = (let up = py_replace ''up '' [] (py_strip (se_uptime env)) in
     case se_load env of (l1, l2, l3) \<Rightarrow> PDict [
       (''current_time'', PStr (se_clock env)), (''system_uptime'', PStr up),
       (''logged_in_users'', PStr (show_nat (se_users env) @ '' users'')),
       (''load_average'', PStr (py_join '', '' [py_str l1, py_str l2, py_str l3]))])"

definition gigabytes :: "int \<Rightarrow> pyval" where
  "gigabytes n = PStr (show_int (n div 1000000000) @ '' GB'')"

definition get_disk_overall_usage :: "sb_env \<Rightarrow> pyval" where
  "get_disk_overall_usage env = PList (map (\<lambda>u. PDict [(''volume'', PStr (du_mount u)),
     (''totalSpace'', gigabytes (du_total u)), (''usedSpace'', gigabytes (du_used u)),
     (''freeSpace'', gigabytes (du_free u)), (''diskUsedPercentage'', PStr (py_str (du_percent u) @ '' %''))]) (se_disks env))"

definition memory_text :: "string \<times> pyval \<Rightarrow> pyexc + string \<times> pyval" where
  "memory_text kv = (case kv of (key, value) \<Rightarrow>
     if key = ''percent'' then Inr (key, PStr (py_str value @ '' %''))
     else (case value of PInt n \<Rightarrow> Inr (key, PStr (show_int (n div 2 ^ 20) @ '' MB'')) | _ \<Rightarrow> Inl TypeError))"

definition get_mem_overall_usage :: "sb_env \<Rightarrow> pyexc + pyval" where
  "get_mem_overall_usage env = err_bind (err_map memory_text (se_memory env)) (\<lambda>total_memory.
     err_bind (err_map (\<lambda>(name, key). err_bind (py_item (PDict total_memory) key) (\<lambda>v. Inr (name, v)))
       [(''total'', ''total''), (''available'', ''available''), (''used_percent'', ''percent''), (''used'', ''used''),
        (''free'', ''free''), (''active'', ''active''), (''inactive'', ''inactive''), (''buffers'', ''buffers''),
        (''cached'', ''cached''), (''shared'', ''shared''), (''slab'', ''slab'')])
     (\<lambda>kvs. Inr (PDict kvs)))"

section \<open>Components and their services\<close>

definition comp_key :: "string \<Rightarrow> nat \<Rightarrow> string" where
  "comp_key node i = ''node>'' @ node @ ''>components['' @ show_nat i @ '']''"

definition node_services :: "(kv_world, string, kv_payload) conf_class \<Rightarrow> string \<Rightarrow> nat \<Rightarrow>
    (kv_world, string, kv_payload) conf_class \<times> (pyexc + pyval list)" where
  "node_services cf node i = st_bind (MappedConf_get kv_class cf (comp_key node i @ ''>num_services'') PNone)
     (\<lambda>cf1 num_services. if num_services = PNone then (cf1, Inr []) else case py_int num_services of
        Inl e \<Rightarrow> (cf1, Inl e)
      | Inr n \<Rightarrow> map_each (\<lambda>cf j. MappedConf_get kv_class cf (comp_key node i @ ''>services['' @ show_nat j @ '']'') PNone)
          cf1 [0..<nat n])"

definition join_services :: "pyval list \<Rightarrow> pyexc + string" where
  "join_services services = (if services = [] then Inr ''all''
     else err_bind (err_map (\<lambda>v. case v of PStr s \<Rightarrow> Inr s | _ \<Rightarrow> Inl TypeError) services) (\<lambda>ss. Inr (py_join '','' ss)))"

type_synonym comp_services = "pyval list \<times> (pyval \<times> pyval) list"

fun node_components :: "(kv_world, string, kv_payload) conf_class \<Rightarrow> string \<Rightarrow> nat list \<Rightarrow> comp_services \<Rightarrow>
    (kv_world, string, kv_payload) conf_class \<times> (pyexc + comp_services)" where
  "node_components cf node [] acc = (cf, Inr acc)"
| "node_components cf node (i # is) acc = st_bind (node_services cf node i) (\<lambda>cf1 services.
     case join_services services of
       Inl e \<Rightarrow> (cf1, Inl e)
     | Inr service \<Rightarrow> st_bind (MappedConf_get kv_class cf1 (comp_key node i @ ''>name'') PNone) (\<lambda>cf2 comp_name.
         case dict_put comp_name (PStr service) (snd acc) of
           Inl e \<Rightarrow> (cf2, Inl e)
         | Inr per_comp \<Rightarrow> node_components cf2 node is (fst acc @ [comp_name], per_comp)))"

text \<open>\<open>S3:Authserver|BGProducer,CSM\<close>: components with their services.\<close>

fun named_components :: "string list \<Rightarrow> comp_services \<Rightarrow> comp_services" where
  "named_components [] acc = acc"
| "named_components (entry # entries) (names, per_comp) = named_components entries
     (if CHR '':'' \<in> set entry then
        (let parts = py_split (CHR '':'') entry; comp_name = PStr (parts ! 0) in
          (names @ [comp_name], val_put comp_name (PStr (py_replace ''|'' '','' (parts ! 1))) per_comp))
      else (names @ [PStr entry], val_put (PStr entry) (PStr ''all'') per_comp))"

definition get_component_and_services :: "(kv_world, string, kv_payload) conf_class \<Rightarrow> string \<Rightarrow> pyval \<Rightarrow>
    (kv_world, string, kv_payload) conf_class \<times> (pyexc + comp_services)" where
  "get_component_and_services cf node components =
     (if \<not> py_truth components then
        st_bind (MappedConf_get kv_class cf (''node>'' @ node @ ''>num_components'') PNone) (\<lambda>cf1 num.
          case py_int num of
            Inl e \<Rightarrow> (cf1, Inl e)
          | Inr n \<Rightarrow> node_components cf1 node [0..<nat n] ([], []))
      else case components of
        PStr s \<Rightarrow> (cf, Inr (named_components (py_split (CHR '','') (map to_lower s)) ([], [])))
      | _ \<Rightarrow> (cf, Inl AttributeError))"

section \<open>The size of the bundle\<close>

text \<open>At most one of the suffixes GB, MB and KB fits; without one of them the result
  is a variable that was never set.\<close>

definition get_component_size_limit :: "string \<Rightarrow> nat \<Rightarrow> pyexc + string" where
  "get_component_size_limit size_limit num_components = (let suffix = drop (length size_limit - 2) size_limit in
     if suffix \<notin> set [''GB'', ''MB'', ''KB''] then Inl UnboundLocalError
     else err_bind (py_float (PStr (take (length size_limit - 2) size_limit)))
       (\<lambda>size. Inr (py_str (PFloat (int_div (int_of_product size 5) (int num_components))) @ suffix)))"

section \<open>The configuration without its secrets\<close>

text \<open>\<open>re.sub(r'secret:.+', r'secret: ****', content)\<close>.\<close>

function hide_secrets :: "string \<Rightarrow> string" where
  "hide_secrets [] = []"
| "hide_secrets (c # s) = (let after = drop 7 (c # s) in
     if starts_with (c # s) ''secret:'' \<and> takeWhile (\<lambda>x. x \<noteq> NL) after \<noteq> []
     then ''secret: ****'' @ hide_secrets (dropWhile (\<lambda>x. x \<noteq> NL) after)
     else c # hide_secrets s)"
  by pat_completeness auto
termination
  by (relation "measure length") (auto intro: le_less_trans [OF length_dropWhile_le])

section \<open>The manifest data\<close>

abbreviation solution_dir :: string where "solution_dir \<equiv> ''/etc/cortx/solution''"
abbreviation release_info :: string where "release_info \<equiv> ''/opt/seagate/cortx/RELEASE.INFO''"
abbreviation sb_index :: string where "sb_index \<equiv> ''sb_index''"
abbreviation sb_path :: string where "sb_path \<equiv> ''/var/cortx/support_bundle''"
abbreviation filestore_path :: string where "filestore_path \<equiv> ''/var/cortx/support_bundle/sb_status.json''"
abbreviation filestore_url :: string where "filestore_url \<equiv> ''json:///var/cortx/support_bundle/sb_status.json''"

definition file_name :: "string \<Rightarrow> string" where
  "file_name p = last (py_split (CHR ''/'') p)"

definition sb_config :: "string \<Rightarrow> string" where
  "sb_config config_path = py_replace (file_name config_path) ''sb_cluster.conf'' config_path"

text \<open>The steps of \<open>_generate_bundle\<close> on the directory \<open>common\<close>; each gives the location that it
  adds to those which are removed after packing. \<open>open(sb_config, 'w+')\<close> empties the file before
  the configuration is read.\<close>

definition copy_config :: "string \<Rightarrow> string \<Rightarrow> disk \<Rightarrow> disk \<times> (pyexc + string list)" where
  "copy_config bundle_path config_path d =
     (if config_path = [] \<or> \<not> path_exists d config_path then (d, Inr [])
      else (let conf_target = os_join bundle_path (''common'' @ config_path) in
        st_bind (disk_write d (sb_config config_path) []) (\<lambda>d1 _. case disk_read d1 config_path of
          Inl e \<Rightarrow> (d1, Inl e)
        | Inr t \<Rightarrow> (let content = universal_nl t in
            st_bind (disk_write d1 (sb_config config_path)
              (if str_in ''secret:'' content then hide_secrets content else content)) (\<lambda>d2 _.
            st_bind (os_makedirs d2 (py_replace (CHR ''/'' # file_name config_path) [] conf_target) True) (\<lambda>d3 _.
            st_bind (disk_move d3 (sb_config config_path) conf_target) (\<lambda>d4 _.
            (d4, case py_split (CHR ''/'') config_path of _ # first # _ \<Rightarrow> Inr [first] | _ \<Rightarrow> Inl IndexError))))))))"

definition copy_solution :: "string \<Rightarrow> disk \<Rightarrow> disk \<times> (pyexc + string list)" where
  "copy_solution bundle_path d = (let sln_target = os_join bundle_path (''common'' @ solution_dir) in
     st_bind (if path_exists d sln_target then disk_rmtree d sln_target else (d, Inr ())) (\<lambda>d1 _.
       if path_exists d1 solution_dir
       then st_bind (disk_copytree d1 solution_dir sln_target ''secret'') (\<lambda>d2 _. (d2, Inr [''etc'']))
       else (d1, Inr [])))"

definition copy_release_info :: "string \<Rightarrow> disk \<Rightarrow> disk \<times> (pyexc + string list)" where
  "copy_release_info bundle_path d =
     (if path_exists d release_info then
        (let rel_target = os_join bundle_path (''common'' @ release_info) in
         st_bind (os_makedirs d (py_replace ''/RELEASE.INFO'' [] rel_target) True) (\<lambda>d1 _.
           st_bind (disk_copyfile d1 release_info rel_target) (\<lambda>d2 _. (d2, Inr [''opt'']))))
      else (d, Inr []))"

text \<open>\<open>json.dump(info, fp, indent=4)\<close>: the text with an indent of 2 with the blanks before each line
  doubled (a text within a JSON document has no line end).\<close>

definition double_indent :: "string \<Rightarrow> string" where
  "double_indent t = py_join [NL] (map (\<lambda>l. takeWhile (\<lambda>c. c = CHR '' '') l @ l) (py_split NL t))"

definition node_health :: "sb_env \<Rightarrow> pyexc + pyval" where
  "node_health env = err_bind (get_mem_overall_usage env) (\<lambda>mem. Inr (PDict [(''resource_usage'', PDict [
     (''cpu_usage'', get_cpu_overall_usage env), (''uptime'', get_system_uptime env),
     (''disk_usage'', get_disk_overall_usage env), (''memory_usage'', mem)])]))"

definition write_health :: "sb_env \<Rightarrow> string \<Rightarrow> disk \<Rightarrow> disk \<times> (pyexc + string list)" where
  "write_health env bundle_path d = (let health_target = os_join bundle_path ''common/health'' in
     st_bind (os_makedirs d health_target True) (\<lambda>d1 _.
       st_bind (disk_write d1 (health_target @ ''/node_health.json'') []) (\<lambda>d2 _. case node_health env of
          Inl e \<Rightarrow> (d2, Inl e)
        | Inr info \<Rightarrow> st_bind (disk_write d2 (health_target @ ''/node_health.json'') (double_indent (json_dump 0 info))) (\<lambda>d3 _. (d3, Inr [''health''])))))"

text \<open>Packing, with \<open>except (OSError, tarfile.TarError)\<close>.\<close>

fun remove_all :: "disk \<Rightarrow> string \<Rightarrow> string list \<Rightarrow> disk \<times> (pyexc + unit)" where
  "remove_all d common_path [] = (d, Inr ())"
| "remove_all d common_path (location # locations) = (let p = os_join common_path location in
     st_bind (if path_exists d p then disk_rmtree d p else (d, Inr ())) (\<lambda>d1 _. remove_all d1 common_path locations))"

fun is_tar_error :: "pyexc \<Rightarrow> bool" where
  "is_tar_error (OSError n) = True"
| "is_tar_error e = (e = PyException ''TarError'')"

definition tar_file :: "sb_env \<Rightarrow> string \<Rightarrow> (string \<times> string) list \<Rightarrow> disk \<Rightarrow> disk \<times> (pyexc + unit)" where
  "tar_file env path members d = st_bind (disk_write d path []) (\<lambda>d1 _. case se_tar env d1 members of
     (t, x) \<Rightarrow> st_bind (disk_write d1 path t) (\<lambda>d2 _. (d2, case x of None \<Rightarrow> Inr () | Some e \<Rightarrow> Inl e)))"

definition pack_common :: "sb_env \<Rightarrow> string \<Rightarrow> string list \<Rightarrow> disk \<Rightarrow> disk \<times> (pyexc + unit)" where
  "pack_common env bundle_path locations d = (let common_path = os_join bundle_path ''common'' in
     case st_bind (tar_file env (os_join common_path ''common.tar.gz'')
            (if path_exists d common_path then [(common_path, ''common'')] else []) d)
          (\<lambda>d1 _. remove_all d1 common_path (remdups locations)) of
       (d2, Inl e) \<Rightarrow> (d2, if is_tar_error e then Inr () else Inl e)
     | (d2, Inr _) \<Rightarrow> (d2, Inr ()))"

definition add_manifest :: "sb_env \<Rightarrow> string \<Rightarrow> string \<Rightarrow> disk \<Rightarrow> disk \<times> (pyexc + unit)" where
  "add_manifest env bundle_path config_path d =
     st_bind (copy_config bundle_path config_path d) (\<lambda>d1 l1.
     st_bind (copy_solution bundle_path d1) (\<lambda>d2 l2.
     st_bind (copy_release_info bundle_path d2) (\<lambda>d3 l3.
     st_bind (write_health env bundle_path d3) (\<lambda>d4 l4.
     pack_common env bundle_path (l1 @ l2 @ l3 @ l4) d4))))"

section \<open>ComponentsBundle\<close>

record sb_bundle =
  bu_id :: string
  bu_path :: string
  bu_comment :: pyval
  bu_node_name :: pyval
  bu_components :: "pyval list"
  bu_services :: "(pyval \<times> pyval) list"

text \<open>The arguments that are passed on to each command.\<close>

record sb_limits =
  sl_config_url :: string
  sl_duration :: pyval
  sl_size_limit :: string
  sl_binlogs :: pyval
  sl_coredumps :: pyval
  sl_stacktrace :: pyval

definition component_cmd :: "sb_limits \<Rightarrow> pyval \<Rightarrow> string \<Rightarrow> string \<Rightarrow> pyval \<Rightarrow> string" where
  "component_cmd a command bundle_id path services = concat [py_str command, '' -b '', bundle_id, '' -t '', path,
     '' -c '', sl_config_url a, '' -s '', py_str services, '' --duration '', py_str (sl_duration a),
     '' --size_limit '', sl_size_limit a, '' --binlogs '', py_str (sl_binlogs a),
     '' --coredumps '', py_str (sl_coredumps a), '' --stacktrace '', py_str (sl_stacktrace a)]"

text \<open>\<open>_exc_components_cmd\<close> returns within its loop: the first command only is run. Without a
  command the caller takes None apart.\<close>

definition exc_components_cmd :: "sb_env \<Rightarrow> sb_limits \<Rightarrow> pyval \<Rightarrow> string \<Rightarrow> string \<Rightarrow> pyval \<Rightarrow> sb_world \<Rightarrow> sb_world \<times> (pyexc + int)" where
  "exc_components_cmd env a commands bundle_id path services w = (case py_iter commands of
      Inr (command # _) \<Rightarrow> on_disk w (\<lambda>d. case se_run env (component_cmd a command bundle_id path services) d of
        (d', return_code) \<Rightarrow> (d', Inr return_code))
    | _ \<Rightarrow> (w, Inl TypeError))"

definition load_yaml :: "sb_env \<Rightarrow> disk \<Rightarrow> string \<Rightarrow> pyexc + pyval" where
  "load_yaml env d p = (if \<not> path_exists d p then Inr (PDict []) else
     case (case disk_read d p of Inl e \<Rightarrow> None | Inr t \<Rightarrow> co_yaml_load (se_codecs env) (universal_nl t)) of
       None \<Rightarrow> Inl (PyException ''Exception'') | Some v \<Rightarrow> Inr v)"

text \<open>The files of a component. A path that is no text counts as a TypeError of \<open>os.path.exists\<close>.\<close>

fun component_files :: "sb_env \<Rightarrow> sb_limits \<Rightarrow> string \<Rightarrow> string \<Rightarrow> pyval \<Rightarrow> pyval list \<Rightarrow> sb_world \<Rightarrow> sb_world \<times> (pyexc + unit)" where
  "component_files env a bundle_id path services [] w = (w, Inr ())"
| "component_files env a bundle_id path services (PStr file_path # files) w =
     (if \<not> path_exists (disk_of w) file_path then component_files env a bundle_id path services files w
      else case load_yaml env (disk_of w) file_path of
        Inl e \<Rightarrow> (w, Inr ())
      | Inr file_data \<Rightarrow> if \<not> py_truth file_data then (w, Inr ())
          else case py_get file_data ''support_bundle'' (PList []) of
            Inl e \<Rightarrow> (w, Inl e)
          | Inr commands \<Rightarrow> st_bind
              (if py_truth commands then exc_components_cmd env a commands bundle_id path services w else (w, Inr 0))
              (\<lambda>w1 _. component_files env a bundle_id path services files w1))"
| "component_files env a bundle_id path services (_ # files) w = (w, Inl TypeError)"

fun val_get :: "pyval \<Rightarrow> (pyval \<times> pyval) list \<Rightarrow> pyexc + pyval" where
  "val_get k [] = Inl KeyError"
| "val_get k ((k', v) # d) = (if py_eq k' k then Inr v else val_get k d)"

fun each_component :: "sb_env \<Rightarrow> sb_limits \<Rightarrow> sb_bundle \<Rightarrow> pyval \<Rightarrow> pyval \<Rightarrow> pyval list \<Rightarrow> sb_world \<Rightarrow> sb_world \<times> (pyexc + unit)" where
  "each_component env a b node_id info [] w = (w, Inr ())"
| "each_component env a b node_id info (component # components) w =
     (case err_bind (val_get component (bu_services b)) (\<lambda>services.
        err_bind (res_item info component) (\<lambda>files. err_bind (py_iter files) (\<lambda>fs. Inr (services, fs)))) of
        Inl e \<Rightarrow> (w, Inl e)
      | Inr (services, fs) \<Rightarrow> st_bind
          (component_files env a (py_join ''_'' [bu_id b, py_str node_id, py_str component]) (bu_path b @ ''/'') services fs w)
          (\<lambda>w1 _. each_component env a b node_id info components w1))"

definition create_summary_file :: "sb_env \<Rightarrow> sb_bundle \<Rightarrow> disk \<Rightarrow> disk" where
  "create_summary_file env b d = fst (disk_dump d (os_join (bu_path b) ''summary.yaml'')
     (co_yaml_dump (se_codecs env) (PDict [(''bundle_id'', PStr (bu_id b)), (''node_name'', PStr (py_str (bu_node_name b))),
        (''comment'', PStr (py_repr (bu_comment b))), (''Generated Time'', PStr (se_iso env))])))"

text \<open>\<open>Tar(tar_file_name).dump([bundle_path])\<close> and the clearing of the directory after it.\<close>

definition dump_tar :: "sb_env \<Rightarrow> string \<Rightarrow> string \<Rightarrow> disk \<Rightarrow> disk \<times> (pyexc + unit)" where
  "dump_tar env path source d = st_bind
     (if os_dirname path \<noteq> [] \<and> \<not> path_exists d (os_dirname path) then os_makedirs d (os_dirname path) False else (d, Inr ()))
     (\<lambda>d1 _. tar_file env path [(source, file_name source)] d1)"

definition clear_bundle :: "string \<Rightarrow> disk \<Rightarrow> disk" where
  "clear_bundle bundle_path d = (if path_exists d bundle_path then
     (let in_dir = (\<lambda>q. under_dir q bundle_path \<and> CHR ''/'' \<in> set (drop (length bundle_path + 1) q)) in
      \<lparr>dk_files = \<lambda>q. if in_dir q \<or> q = os_join bundle_path ''summary.yaml'' then None else dk_files d q,
       dk_dirs = \<lambda>q. dk_dirs d q \<and> \<not> under_dir q bundle_path\<rparr>) else d)"

definition collect_bundle :: "sb_env \<Rightarrow> sb_bundle \<Rightarrow> pyval \<Rightarrow> disk \<Rightarrow> disk \<times> string" where
  "collect_bundle env b node_id d = (let path = os_join (bu_path b) (bu_id b @ ''_'' @ py_str node_id @ ''.tar.gz'') in
     case dump_tar env path (bu_path b) (create_summary_file env b d) of
       (d1, r) \<Rightarrow> (clear_bundle (bu_path b) d1, case r of
          Inr _ \<Rightarrow> ''Successfully generated SB at path:'' @ bu_path b
        | Inl e \<Rightarrow> ''Failed to generate tar file. ERROR:'' @ se_exc_text env e))"

text \<open>\<open>os.path.join(cluster_conf.get(...), ...)\<close> needs a text.\<close>

definition join_value :: "pyval \<Rightarrow> string \<Rightarrow> pyexc + string" where
  "join_value v p = (case v of PStr s \<Rightarrow> Inr (os_join s p) | _ \<Rightarrow> Inl TypeError)"

definition run_components :: "sb_env \<Rightarrow> sb_limits \<Rightarrow> sb_bundle \<Rightarrow> pyval \<Rightarrow> sb_world \<Rightarrow> sb_world \<times> (pyexc + string)" where
  "run_components env a b node_id w = (let conf_get = (\<lambda>w key dflt. on_cf w (\<lambda>cf. MappedConf_get kv_class cf key dflt)) in
     st_bind (on_cf w (\<lambda>cf. MappedConf_init (kv_backend (se_codecs env)) cf (sl_config_url a))) (\<lambda>w1 _.
     st_bind (conf_get w1 ''cortx>common>storage>log'' PNone) (\<lambda>w2 log_dir. case join_value log_dir [] of
       Inl e \<Rightarrow> (w2, Inl e)
     | Inr _ \<Rightarrow> st_bind (on_cf w2 Conf_machine_id) (\<lambda>w3 _.
         st_bind (conf_get w3 ''utils>log_level'' (PStr ''INFO'')) (\<lambda>w4 _.
         st_bind (conf_get w4 ''install_path'' (PStr ''/opt/seagate'')) (\<lambda>w5 install_path.
         case join_value install_path ''cortx/utils/conf/support_bundle.yaml'' of
           Inl e \<Rightarrow> (w5, Inl e)
         | Inr setup_file \<Rightarrow> (case load_yaml env (disk_of w5) setup_file of
               Inl e \<Rightarrow> (w5, Inl UnboundLocalError)
             | Inr bundle_config \<Rightarrow> (case py_get bundle_config ''COMPONENTS'' PNone of
                   Inl e \<Rightarrow> (w5, Inl e)
                 | Inr info \<Rightarrow> st_bind (each_component env a b node_id info (bu_components b) w5) (\<lambda>w6 _.
                     (case collect_bundle env b node_id (disk_of w6) of (d, status) \<Rightarrow> (put_disk w6 d, Inr status)))))))))))"

definition update_status :: "sb_env \<Rightarrow> string \<Rightarrow> string \<Rightarrow> (kv_world, string, kv_payload) conf_class \<Rightarrow>
    (kv_world, string, kv_payload) conf_class \<times> (pyexc + unit)" where
  "update_status env key status cf = (let B = kv_backend (se_codecs env) in
     st_bind (Conf_load B cf sb_index filestore_url (PBool True) [(''fail_reload'', PBool False)]) (\<lambda>cf1 _.
     st_bind (Conf_set kv_class cf1 sb_index key (PStr status)) (\<lambda>cf2 _. Conf_save B cf2 sb_index)))"

definition components_init :: "sb_env \<Rightarrow> sb_limits \<Rightarrow> sb_bundle \<Rightarrow> pyval \<Rightarrow> sb_world \<Rightarrow> sb_world \<times> (pyexc + unit)" where
  "components_init env a b node_id w = st_bind (run_components env a b node_id w) (\<lambda>w1 status.
     on_cf w1 (update_status env (py_join ''>'' [py_str node_id, bu_id b, ''status'']) status))"

section \<open>SupportBundle\<close>

record sb_options =
  so_bundle_id :: string
  so_comment :: pyval
  so_duration :: pyval
  so_size_limit :: string
  so_config_url :: string
  so_binlogs :: pyval
  so_coredumps :: pyval
  so_stacktrace :: pyval
  so_components :: pyval
  so_target_path :: string
  so_sub_command :: string

datatype sb_result = NoBundle | BundleObj sb_bundle | Announced string

definition bundle_announcement :: "sb_bundle \<Rightarrow> string" where
  "bundle_announcement b = (let line = replicate (length (bu_id b) + 4) (CHR ''-'') in
     py_join [NL] [''Please use the under_dir bundle id for checking the status of support bundle.'', line,
       ''| '' @ bu_id b @ '' |'', line, ''Please Find the file on -> '' @ bu_path b @ '' .'', []])"

definition bundle_path_of :: "sb_options \<Rightarrow> string" where
  "bundle_path_of opts = os_join (so_target_path opts) (so_bundle_id opts)"

definition config_path_of :: "sb_options \<Rightarrow> string" where
  "config_path_of opts = (if str_in ''//'' (so_config_url opts) then split_str ''//'' (so_config_url opts) ! 1 else [])"

text \<open>The beginning of \<open>_generate_bundle\<close>: the directory is made, and the status of the bundle is
  saved as being in progress. It gives the id of the node.\<close>

definition start_bundle :: "sb_env \<Rightarrow> sb_options \<Rightarrow> sb_world \<Rightarrow> sb_world \<times> (pyexc + pyval)" where
  "start_bundle env opts w = (let B = kv_backend (se_codecs env); i = sb_index in
     case on_disk w (\<lambda>d. os_makedirs d (bundle_path_of opts) False) of
       (w1, Inl e) \<Rightarrow> (w1, Inl (if e = OSError EEXIST then BundleError EINVAL else e))
     | (w1, Inr _) \<Rightarrow> st_bind (on_cf w1 (\<lambda>cf. MappedConf_init B cf (so_config_url opts))) (\<lambda>w2 _.
         st_bind (on_cf w2 Conf_machine_id) (\<lambda>w3 node_id. if node_id = PNone then (w3, Inl (BundleError EINVAL)) else
         st_bind (on_cf w3 (\<lambda>cf. Conf_load B cf i filestore_url (PBool True) [(''skip_reload'', PBool True)])) (\<lambda>w4 _.
         st_bind (on_cf w4 (\<lambda>cf. Conf_set kv_class cf i (py_join ''>'' [py_str node_id, so_bundle_id opts])
             (PDict [(''status'', PStr ''In-Progress''), (''start_time'', PStr (se_now env))]))) (\<lambda>w5 _.
         st_bind (on_cf w5 (\<lambda>cf. Conf_save B cf i)) (\<lambda>w6 _. (w6, Inr node_id)))))))"

definition limits_of :: "sb_options \<Rightarrow> string \<Rightarrow> sb_limits" where
  "limits_of opts size_limit_per_comp = \<lparr>sl_config_url = so_config_url opts, sl_duration = so_duration opts,
     sl_size_limit = size_limit_per_comp, sl_binlogs = so_binlogs opts, sl_coredumps = so_coredumps opts,
     sl_stacktrace = so_stacktrace opts\<rparr>"

text \<open>All that comes before the components are asked: the bundle and the limit of each component, or
  None without components. A BundleError of the manifest data is logged and dropped.\<close>

definition prepare_bundle :: "sb_env \<Rightarrow> sb_options \<Rightarrow> sb_world \<Rightarrow> sb_world \<times> (pyexc + (pyval \<times> sb_bundle \<times> string) option)" where
  "prepare_bundle env opts w = st_bind (start_bundle env opts w) (\<lambda>w1 node_id.
     st_bind (on_cf w1 (\<lambda>cf. MappedConf_get kv_class cf (''node>'' @ py_str node_id @ ''>name'') PNone)) (\<lambda>w2 node_name.
     st_bind (on_cf w2 (\<lambda>cf. get_component_and_services cf (py_str node_id) (so_components opts))) (\<lambda>w3 (components, services).
     if components = [] then (w3, Inr None)
     else case get_component_size_limit (so_size_limit opts) (length components) of
       Inl e \<Rightarrow> (w3, Inl e)
     | Inr size_limit \<Rightarrow> (let b = \<lparr>bu_id = so_bundle_id opts, bu_path = bundle_path_of opts, bu_comment = so_comment opts,
           bu_node_name = node_name, bu_components = components, bu_services = services\<rparr> in
         case on_disk w3 (add_manifest env (bu_path b) (config_path_of opts)) of
           (w4, Inl (BundleError n)) \<Rightarrow> (w4, Inr (Some (node_id, b, size_limit)))
         | (w4, Inl e) \<Rightarrow> (w4, Inl e)
         | (w4, Inr _) \<Rightarrow> (w4, Inr (Some (node_id, b, size_limit)))))))"

text \<open>What the components raise is logged and dropped.\<close>

definition generate_bundle :: "sb_env \<Rightarrow> sb_options \<Rightarrow> sb_world \<Rightarrow> sb_world \<times> (pyexc + sb_result)" where
  "generate_bundle env opts w = st_bind (prepare_bundle env opts w) (\<lambda>w1 prepared. case prepared of
     None \<Rightarrow> (w1, Inr NoBundle)
   | Some (node_id, b, size_limit) \<Rightarrow> (fst (components_init env (limits_of opts size_limit) b node_id w1),
       Inr (if so_sub_command opts = ''generate'' then Announced (bundle_announcement b) else BundleObj b)))"

section \<open>The status of a bundle\<close>

text \<open>\<open>_get_bundle_status\<close>: the return code and the output of the Response.\<close>

definition get_bundle_status :: "sb_env \<Rightarrow> pyval \<Rightarrow> (kv_world, string, kv_payload) conf_class \<Rightarrow>
    (kv_world, string, kv_payload) conf_class \<times> int \<times> pyval" where
  "get_bundle_status env bundle_id cf =
     (case st_bind (Conf_machine_id cf) (\<lambda>cf1 node_id.
        st_bind (Conf_load (kv_backend (se_codecs env)) cf1 sb_index filestore_url (PBool True) [(''skip_reload'', PBool True)])
          (\<lambda>cf2 _. Conf_get kv_class cf2 sb_index (Some (if \<not> py_truth bundle_id then py_str node_id
             else py_join ''>'' [py_str node_id, py_str bundle_id, ''status''])) PNone)) of
        (cf', Inl e) \<Rightarrow> (cf', ENOENT,
           PStr (''Support Bundle status is not available Failed to get status of bundle. Related error - '' @ se_exc_text env e))
      | (cf', Inr status) \<Rightarrow> if \<not> py_truth status
          then (cf', 4352, PStr (''No status found for bundle_id: '' @ py_str bundle_id @
            ''in input config. Please check if the Bundle ID is correct''))
          else (cf', 0, status))"

definition get_status :: "sb_env \<Rightarrow> pyval \<Rightarrow> (kv_world, string, kv_payload) conf_class \<Rightarrow>
    (kv_world, string, kv_payload) conf_class \<times> string" where
  "get_status env bundle_id cf = (case get_bundle_status env bundle_id cf of
     (cf', rc, output) \<Rightarrow> (cf', if rc = 0 then json_dump 0 output else py_str output))"

section \<open>The command line\<close>

record sb_args =
  sa_message :: "string list"
  sa_bundle_id :: "string list"
  sa_location :: string
  sa_duration :: string
  sa_size_limit :: string
  sa_all :: bool
  sa_binlogs :: bool
  sa_coredumps :: bool
  sa_stacktrace :: bool
  sa_modules :: pyval
  sa_cluster_conf_path :: "string list"

definition upper_char :: "char \<Rightarrow> char" where
  "upper_char c = (let n = (of_char c :: nat) in if 97 \<le> n \<and> n \<le> 122 then char_of (n - 32) else c)"

text \<open>What \<open>generate\<close> of CortxSupportBundle refuses. Lists of arguments with \<open>nargs='+'\<close> are not empty.
  In the character class of the pattern a backslash only quotes the bar after it.\<close>

definition check_args :: "sb_args \<Rightarrow> pyexc + sb_options" where
  "check_args args = (let message = hd (sa_message args); bundle_id = py_strip (hd (sa_bundle_id args));
       size_limit = map upper_char (sa_size_limit args); path = sa_location args; flag = (\<lambda>b. PBool (sa_all args \<or> b)) in
     if message = [] \<or> bundle_id = [] \<or> (\<exists>c \<in> set bundle_id. c \<in> set ''@!#$%^&*()<>?/|}{~:'') \<or>
        \<not> (\<exists>unit \<in> set [''KB'', ''MB'', ''GB'']. str_in unit size_limit) \<or> \<not> str_in ''file://'' path
     then Inl (BundleError EINVAL)
     else Inr \<lparr>so_bundle_id = bundle_id, so_comment = PStr message, so_duration = PStr (sa_duration args),
       so_size_limit = size_limit, so_config_url = hd (sa_cluster_conf_path args), so_binlogs = flag (sa_binlogs args),
       so_coredumps = flag (sa_coredumps args), so_stacktrace = flag (sa_stacktrace args), so_components = sa_modules args,
       so_target_path = split_str ''//'' path ! 1, so_sub_command = ''generate_bundle''\<rparr>)"

definition cli_generate :: "sb_env \<Rightarrow> sb_args \<Rightarrow> sb_world \<Rightarrow> sb_world \<times> (pyexc + string)" where
  "cli_generate env args w = (case check_args args of
      Inl e \<Rightarrow> (w, Inl e)
    | Inr opts \<Rightarrow> st_bind (on_disk w (\<lambda>d. os_makedirs d sb_path True)) (\<lambda>w1 _.
        st_bind (generate_bundle env opts w1) (\<lambda>w2 res. case res of
          BundleObj b \<Rightarrow> (w2, Inr (bundle_announcement b))
        | _ \<Rightarrow> (w2, Inl AttributeError))))"

section \<open>No secret is copied\<close>

lemma starts_with_same:
  assumes "length p \<le> length a"
  shows "starts_with (a @ x) p \<longleftrightarrow> starts_with a p"
  using assms by (simp add: starts_with_def)

text \<open>The copy of the configuration that goes into the bundle is the same whatever
  stands behind \<open>secret:\<close> on a line, wherever the line is and whatever comes before and after it.\<close>

lemma secrets_hidden:
  assumes "b \<noteq> []" "b' \<noteq> []" "NL \<notin> set b" "NL \<notin> set b'" "rest = [] \<or> hd rest = NL"
  shows "hide_secrets (pre @ ''secret:'' @ b @ rest) = hide_secrets (pre @ ''secret:'' @ b' @ rest)"
proof (induction "length pre" arbitrary: pre rule: less_induct)
  case less
  have line: "takeWhile (\<lambda>x. x \<noteq> NL) (a @ rest) = a" "dropWhile (\<lambda>x. x \<noteq> NL) (a @ rest) = rest" if "NL \<notin> set a" for a
    using that assms(5) by (cases rest; force simp: takeWhile_append dropWhile_append)+
  show ?case
  proof (cases pre)
    case Nil
    have "hide_secrets (''secret:'' @ a @ rest) = ''secret: ****'' @ hide_secrets rest" if "a \<noteq> []" "NL \<notin> set a" for a
      using line [OF that(2)] that(1) by (simp add: starts_with_def)
    with assms Nil show ?thesis by simp
  next
    case (Cons c pre')
    let ?p = "pre @ ''secret:''"
    have long: "length ''secret:'' \<le> length ?p" "7 \<le> length ?p" by simp_all
    have st: "starts_with (?p @ x) ''secret:'' \<longleftrightarrow> starts_with ?p ''secret:''" for x by (rule starts_with_same [OF long(1)])
    have ih: "hide_secrets (q @ ''secret:'' @ b @ rest) = hide_secrets (q @ ''secret:'' @ b' @ rest)" if "length q < length pre" for q
      by (rule less.hyps [OF that])
    let ?t = "drop 7 ?p"
    have lp: "length ?p = length pre' + 8" using Cons by simp
    have t1: "length ?t \<noteq> 0" by (simp only: length_drop lp)
    have t2: "drop 7 (?p @ x) = ?t @ x" for x by (simp only: drop_append [of 7 ?p x] lp) simp
    have nl: "NL \<notin> set ''secret:''" by simp
    have step: "hide_secrets (?p @ x) = (if starts_with ?p ''secret:'' \<and> hd ?t \<noteq> NL
        then ''secret: ****'' @ hide_secrets (dropWhile (\<lambda>y. y \<noteq> NL) (?t @ x))
        else c # hide_secrets (pre' @ ''secret:'' @ x))" for x
    proof -
      have "takeWhile (\<lambda>y. y \<noteq> NL) (?t @ x) \<noteq> [] \<longleftrightarrow> hd ?t \<noteq> NL" using t1 by (cases ?t) (simp_all del: drop_append)
      moreover have "?p @ x = c # pre' @ ''secret:'' @ x" using Cons by simp
      ultimately show ?thesis using hide_secrets.simps(2) [of c "pre' @ ''secret:'' @ x"] st [of x] t2 [of x]
        by (simp only: Let_def)
    qed
    have rec: "hide_secrets (dropWhile (\<lambda>y. y \<noteq> NL) (?t @ b @ rest)) = hide_secrets (dropWhile (\<lambda>y. y \<noteq> NL) (?t @ b' @ rest))"
    proof (cases "NL \<in> set ?t")
      case True
      then have m: "NL \<in> set (drop 7 pre)" by (auto dest: in_set_dropD)
      then have l: "7 \<le> length pre" by (cases "7 \<le> length pre") auto
      then have tt: "?t = drop 7 pre @ ''secret:''" by simp
      have "dropWhile (\<lambda>y. y \<noteq> NL) (?t @ x) = dropWhile (\<lambda>y. y \<noteq> NL) (drop 7 pre) @ ''secret:'' @ x" for x
        unfolding tt using m by (simp add: dropWhile_append1 [OF m])
      moreover have "length (dropWhile (\<lambda>y. y \<noteq> NL) (drop 7 pre)) < length pre"
        using l by (intro le_less_trans [OF length_dropWhile_le]) simp
      ultimately show ?thesis using ih by (simp only:)
    next
      case False
      then show ?thesis using line(2) [of "?t @ b"] line(2) [of "?t @ b'"] assms by simp
    qed
    have "hide_secrets (?p @ b @ rest) = hide_secrets (?p @ b' @ rest)"
      using rec ih [of pre'] Cons step [of "b @ rest"] step [of "b' @ rest"] by (simp only: Let_def) simp
    then show ?thesis by simp
  qed
qed

end
