(* ===== verification/SupportStatus.thy ===== *)
theory SupportStatus
  imports SupportBundle
begin

text \<open>
  The status of a support bundle from the request to the answer: what the steps of the
  generation leave of the saved status, and what get_status tells at the end.
\<close>

section \<open>What a step leaves alone\<close>

text \<open>All that the status depends on: the cached configuration of the status, the stores, the file of
  the status, and the settings of the process.\<close>

definition status_view where
  "status_view w = (cf_machine_id (sw_conf w), map_option (\<lambda>cs. (cs_cache cs sb_index, cs_cache cs conf_idx = None,
     fa_stores (cs_back cs), fa_world (cs_back cs) filestore_path, cs_delim cs)) (cf_conf (sw_conf w)))"





lemma view_conf: "status_view w = v \<Longrightarrow> snd v \<noteq> None \<Longrightarrow> cf_conf (sw_conf w) \<noteq> None"
  by (auto simp: status_view_def)


section \<open>The files\<close>










section \<open>The directory of the bundle\<close>





















section \<open>The components\<close>












section \<open>The saved status\<close>













section \<open>Beginning and end\<close>








section \<open>From the request to the answer\<close>















section \<open>A bundle for a component without commands\<close>










end
