(* ===== verification/Spec2Isabelle.thy ===== *)
theory Spec2Isabelle
  imports IniStore LockRace Release SchemaDoc HaGenerate HaDecision ConsulStore ActivityTracker RestServer DbProvider ElasticStore DirStore PillarStore HealthEvents ProductFeatures Discovery LogFilters LdapStore KafkaSetup SupportStatus
begin

text \<open>
  Verification of the CORTX Python utilities (src/py-utils/src/utils).

  The package is what the services of a CORTX cluster share: a configuration store over many file
  formats and Consul, storages of model objects, the decision part of the high availability
  (HA) framework with its compiler of specifications, a message bus over Kafka with events on
  top of it, and a number of smaller services. The theories follow these layers from the bottom up.

  \<^bold>\<open>Common ground.\<close> Prelude has the Python values (\<open>pyval\<close>: None, booleans, unbounded integers, floats as
  the decimal numbers they print, texts, lists, dicts with text keys in insertion order) and the
  exceptions (\<open>pyexc\<close>: the classes the code distinguishes, with the return code where it is used).
  PyString, PyText, PyFloat and PyOps are the operations of the standard library that the code
  calls (split, strip, join, str, repr, int, float, comparison, membership); Json and JsonDumps are
  \<open>json.dump\<close>, \<open>json.dumps\<close> and \<open>json.loads\<close> with the proof that a document is read back. Effects
  is the sequencing of calls that change a state and may raise. An operation returns the state it
  leaves with an exception or a value, so that what a failed call has changed already is visible.

  \<^bold>\<open>Keys and values.\<close> KvPayload is kv_store/kv_payload.py: get, set, delete, search, listing of keys
  and counting on nested dicts and lists under keys like \<open>a>b[1]>c\<close>. KvPath states its contract on
  paths (\<open>lookup\<close>), KvKeys what the listing returns; KvProps has the properties. Payload is the
  locale of what the stores ask of a payload class, interpreted for KvPayload. KvStore is the base class
  of kv_store/kv_store.py as operations over a class with load and dump, in a locale interpreted
  for the stores of kv_store/kv_store_collection.py: TextStores (properties), DocStores (JSON,
  YAML, TOML, dict; locale \<open>text_codec\<close>), IniStore, ConsulStore (with the decorator
  ExponentialBackoff of common/common.py), DirStore and PillarStore. KvFactory is the factory by
  URL and the world of all text stores over one file system. StoreProps has the properties.

  \<^bold>\<open>Configuration.\<close> ConfStore is conf_store/conf_cache.py and conf_store.py: named configurations that
  are loaded, changed, copied, merged, compared and saved; its backend is a locale. ConfData and
  ConfMerge prove what these operations keep; ConfLock is the lock in the configuration and LockRace the
  same protocol as a step relation of several processes; ConfProps states the properties of the lock.
  ConfApi is the classes Conf and MappedConf, ConfCli the command line conf_cli.py with Format.
  SchemaDoc is schema/payload.py and schema/conf.py, Release is schema/release.py.

  \<^bold>\<open>Objects.\<close> DataAccess is data/access (filters, queries, models) with the evaluation of a filter;
  ConsulDb is the storage in Consul and ElasticStore the one in Elasticsearch, each against a locale
  that states what its server documents, interpreted on a server that keeps its data in lists.
  DbProvider is db_provider.py: storages made on first use by concurrent coroutines, as a step
  relation, down to the tasks and callbacks of their event loop. ProductFeatures keeps unsupported features in
  such a storage. LdapStore is the storage in OpenLDAP, against a locale of what the operations of a directory
  server document, with the text of its filters and a reader for them.

  \<^bold>\<open>HA.\<close> HaCompile and HaGenerate are ha/hac: the validation and compilation of specifications into a
  graph of resources and the scripts made from it. HaDecision is ha/dm: from an alert over a rule
  to a stored decision, and the monitor that reads and acknowledges decisions.

  \<^bold>\<open>Messages and services.\<close> MessageBroker (the Kafka broker), MessageBus (the bus and its clients), Iem
  (events and their command line), RestServer (the HTTP handlers of the bus, of events and of the audit log),
  HealthEvents, ActivityTracker, Discovery (requests for the health of a node, with what other requests do between
  the steps of one as a parameter). LogFilters is the selection of logs by size and by time of support_framework/log_filters.py.
  SupportBundle is support_framework/support_bundle.py and bundle_generate.py with their command line, on a
  disk of files and directories and the configuration; SupportStatus follows the status of a bundle; PyDouble has
  the arithmetic of floats that the size of a bundle needs. KafkaSetup is setup/kafka/kafka.py: the phases that
  install, configure and reset a host of the broker, on its files and directories.

  \<^bold>\<open>Correspondence.\<close> A definition has the name of the function or method it models, with a prefix where names clash
  (\<open>kv_\<close> for the recursion of KvPayload, \<open>kp_\<close> for its methods, \<open>ks_\<close> for KvStore, \<open>cc_\<close> and \<open>cs_\<close> for
  ConfCache and ConfStore, \<open>db_\<close> and \<open>es_\<close> for the storages, \<open>act_\<close> for activities). A class is the
  record of its attributes; class attributes are the record of a class state. The handler of an exception
  is a branch on \<open>Inl\<close>; what the caller sees of a method that raises half way is the state that it
  returns beside the exception.

  \<^bold>\<open>What the lemmas show.\<close> Round trips: what is set is got, what is dumped is loaded, what is sent is received
  (KvProps, StoreProps, ConfData, ConfApi, Iem). Frames: what an operation leaves alone (KvProps, ConfMerge,
  MessageBroker, LogFilters, KafkaSetup). What is saved and told of a long operation (Discovery, SupportStatus). Refinement: the storages, the directory store and the lock against maps and step
  relations (ConsulDb, ElasticStore, LdapStore, DirStore, LockRace). Invariants of state machines by
  rule induction (LockRace, DbProvider). Equivalence with a reference: the evaluation of filters, the query
  converter, the text of LDAP filters, the comparison of versions (DataAccess, ElasticStore, LdapStore, Release). Termination and its
  failure: the search of the HA generator, a receive without timeout (HaGenerate, MessageBroker). Several
  theorems state behaviour that is surely not meant, such as the turned order relations of a filter
  on Consul; they describe the code as it is.

  \<^bold>\<open>Bounds and fuel.\<close> The JSON parser runs with the length of the text as fuel and takes one character
  at least per step; \<open>json_load_dump\<close> shows it enough for every text that is written. The
  interpolation of INI values has the depth 10 of configparser. Floats have at most 330
  decimals, more than any double prints; the round trips of JSON are for floats that are written without an
  exponent. The reader of LDAP filters has the length of the text as fuel, enough by \<open>ldap_filter_parses\<close>. The wait
  for zookeeper makes 101 attempts as in the code. Retry loops of the broker have 16 rounds as in the code, 120
  seconds in sum. Loops that may not end are partial functions with None for no return
  (\<open>receive_loop\<close>, \<open>search_from\<close>). Python's integers are unbounded and so are ours; no machine words
  occur in the code.

  \<^bold>\<open>Not modelled.\<close> The texts of error messages (a message whose places and arguments do not agree is the TypeError
  it causes where that was found, in KafkaSetup and PillarStore); aliasing
  of a value that is put into two places of a payload; keys of dicts that are no texts; characters above 255, and
  case conversion outside ASCII; NaN and infinite floats; the text format of INI files; permissions and full
  disks; the argparse declarations of the command lines; callbacks of the Kafka library;
  the substitution of variables and the drawing of graphs in the HA generators; interleavings of coroutines
  and threads apart from those of LockRace, DbProvider and Discovery. Left out as a whole, because they consist of calls of
  other programs and services: the provisioning code (setup) apart from that of Kafka, validators,
  remote shells, process supervision, RabbitMQ, S3 and HTTP clients,
  certificates and ciphers, logging, examples and tests, and the parts in C and JavaScript. What
  the code takes from packages outside the repository (Consul, Kafka, Elasticsearch, OpenLDAP, schematics,
  the YAML and TOML codecs, aiohttp, psutil) is a parameter whose documented behaviour is a locale or a named
  hypothesis.
\<close>

end
